(* ===== verification/EMC_Prelude.thy ===== *)
theory EMC_Prelude
  imports Main "HOL-Library.Word" "HOL-Library.Multiset"
begin

text \<open>
  Shared vocabulary of the development: the Go types that several packages use
  (\<open>peer.ID\<close>, \<open>peer.AddrInfo\<close>, \<open>network.Direction\<close>, 64-bit integers, byte slices), the shape
  of error results, and generic lemmas on lists and maps that more than one component needs.

  A Go function that returns \<open>(T, error)\<close> is a function into \<open>go_err + 'a\<close>; a run-time panic
  (index out of range, nil dereference) is the error value \<open>GoPanic\<close>, so that no model function
  hides it behind an unspecified HOL value.
\<close>

section \<open>Types shared by the packages\<close>

type_synonym byte = "8 word"
type_synonym bytes = "byte list"
type_synonym int64 = "64 word"   \<comment> \<open>read with \<open>sint\<close>\<close>
type_synonym u64 = "64 word"     \<comment> \<open>read with \<open>unat\<close>\<close>

type_synonym peer_id = string    \<comment> \<open>libp2p: \<open>type ID string\<close>\<close>
type_synonym multiaddr = string  \<comment> \<open>a multiaddress by its canonical text\<close>

record addr_info =
  ai_ID :: peer_id
  ai_Addrs :: "multiaddr list"

datatype direction = DirUnknown | DirInbound | DirOutbound

definition all_directions :: "direction list" where
  "all_directions = [DirUnknown, DirInbound, DirOutbound]"

datatype go_err = GoErr string | GoWrap string go_err | GoPanic string

fun is_panic :: "go_err \<Rightarrow> bool" where
  "is_panic (GoPanic _) = True"
| "is_panic (GoWrap _ e) = is_panic e"
| "is_panic (GoErr _) = False"

text \<open>Go's \<open>if err != nil { return err }\<close>, and indexing of a slice.\<close>

definition rbind :: "'e + 'a \<Rightarrow> ('a \<Rightarrow> 'e + 'b) \<Rightarrow> 'e + 'b" where
  "rbind r k = (case r of Inl e \<Rightarrow> Inl e | Inr x \<Rightarrow> k x)"

definition slice_at :: "'a list \<Rightarrow> nat \<Rightarrow> go_err + 'a" where
  "slice_at xs i = (if i < length xs then Inr (xs ! i) else Inl (GoPanic ''index out of range''))"

lemma rbind_simps [simp]: "rbind (Inr x) k = k x" "rbind (Inl e) k = Inl e"
  by (simp_all add: rbind_def)

lemma slice_at_in [simp]: "i < length xs \<Longrightarrow> slice_at xs i = Inr (xs ! i)"
  by (simp add: slice_at_def)

lemma slice_at_out [simp]: "length xs \<le> i \<Longrightarrow> slice_at xs i = Inl (GoPanic ''index out of range'')"
  by (simp add: slice_at_def)

section \<open>Collections of hints\<close>

named_theorems heap_laws \<open>what the methods of heap.Interface do to the slice\<close>
named_theorems frame_laws \<open>which parts of a state an operation leaves alone\<close>

section \<open>Directions\<close>

lemma set_all_directions [simp]: "set all_directions = UNIV"
  by (auto simp: all_directions_def intro: direction.exhaust)

lemma distinct_all_directions [simp]: "distinct all_directions"
  by (simp add: all_directions_def)

lemma UNIV_direction: "(UNIV :: direction set) = {DirUnknown, DirInbound, DirOutbound}"
  by (auto intro: direction.exhaust)

instance direction :: finite
  by standard (simp add: UNIV_direction)

section \<open>Lists\<close>

definition swap_list :: "'a list \<Rightarrow> nat \<Rightarrow> nat \<Rightarrow> 'a list" where
  "swap_list xs i j = xs[i := xs ! j, j := xs ! i]"

lemma length_swap_list [simp]: "length (swap_list xs i j) = length xs"
  by (simp add: swap_list_def)

lemma nth_swap_list:
  "i < length xs \<Longrightarrow> j < length xs \<Longrightarrow> k < length xs \<Longrightarrow>
   swap_list xs i j ! k = (if k = j then xs ! i else if k = i then xs ! j else xs ! k)"
  by (auto simp: swap_list_def nth_list_update)

lemma mset_swap_list [simp]:
  "i < length xs \<Longrightarrow> j < length xs \<Longrightarrow> mset (swap_list xs i j) = mset xs"
  by (simp add: swap_list_def mset_swap)

lemma set_swap_list [simp]:
  "i < length xs \<Longrightarrow> j < length xs \<Longrightarrow> set (swap_list xs i j) = set xs"
  by (metis mset_swap_list set_mset_mset)

lemma distinct_swap_list [simp]:
  "i < length xs \<Longrightarrow> j < length xs \<Longrightarrow> distinct (swap_list xs i j) = distinct xs"
  by (simp add: swap_list_def)

lemma mset_butlast_last: "xs \<noteq> [] \<Longrightarrow> mset xs = add_mset (last xs) (mset (butlast xs))"
  by (metis append_butlast_last_id mset.simps(1) mset.simps(2) mset_append union_mset_add_mset_right
      add.right_neutral)

text \<open>The machine counters of a finite set.\<close>

lemma of_nat_card_remove:
  assumes "finite A"
  shows "(of_nat (card (A - {p})) :: 'a::ring_1) = of_nat (card A) - (if p \<in> A then 1 else 0)"
proof (cases "p \<in> A")
  case True
  have "(of_nat (card A) :: 'a) = 1 + of_nat (card (A - {p}))"
    using card_Suc_Diff1 [OF assms True] by (metis of_nat_Suc)
  then show ?thesis by (simp only: True if_True add_diff_cancel_left')
qed simp

lemma distinct_butlast_last: "distinct xs \<Longrightarrow> xs \<noteq> [] \<Longrightarrow> last xs \<notin> set (butlast xs)"
  by (metis append_butlast_last_id distinct_append disjoint_iff list.set_intros(1))

end
