(* ===== verification/Go_Heap.thy ===== *)
theory Go_Heap
  imports EMC_Prelude
begin

text \<open>
  The part of Go's \<open>container/heap\<close> that the repository uses: \<open>Push\<close>, \<open>Pop\<close> and \<open>Remove\<close>
  over the methods of \<open>heap.Interface\<close>.  The interface is a record of functions on a state
  \<open>'h\<close> (the object the methods mutate) with elements \<open>'x\<close> (pointers).  The locale \<open>index_heap\<close>
  states what the two implementations in the repository (the dial queue and the timeout heap of
  the filter manager) promise of their methods, and proves once that the heap operations keep the
  heap order and the back-indices stored in the elements.
\<close>

section \<open>The interface and the library's algorithms\<close>

record ('h, 'x) heap_if =
  if_Len :: "'h \<Rightarrow> nat"
  if_Less :: "'h \<Rightarrow> nat \<Rightarrow> nat \<Rightarrow> bool"
  if_Swap :: "'h \<Rightarrow> nat \<Rightarrow> nat \<Rightarrow> 'h"
  if_Push :: "'h \<Rightarrow> 'x \<Rightarrow> 'h"
  if_Pop :: "'h \<Rightarrow> 'x \<times> 'h"

abbreviation parent :: "nat \<Rightarrow> nat" where
  "parent i \<equiv> (i - 1) div 2"

function heap_up :: "('h, 'x) heap_if \<Rightarrow> 'h \<Rightarrow> nat \<Rightarrow> 'h" where
  "heap_up I h j =
     (let i = parent j in
      if i = j \<or> \<not> if_Less I h j i then h
      else heap_up I (if_Swap I h i j) i)"
  by pat_completeness auto
termination
  by (relation "measure (\<lambda>(I, h, j). j)") auto

definition down_child :: "('h, 'x) heap_if \<Rightarrow> 'h \<Rightarrow> nat \<Rightarrow> nat \<Rightarrow> nat" where
  "down_child I h i n =
     (let j1 = 2 * i + 1 in if j1 + 1 < n \<and> if_Less I h (j1 + 1) j1 then j1 + 1 else j1)"

lemma down_child_cases: "down_child I h i n = 2 * i + 1 \<or> down_child I h i n = 2 * i + 2"
  by (simp add: down_child_def Let_def)

function heap_down :: "('h, 'x) heap_if \<Rightarrow> 'h \<Rightarrow> nat \<Rightarrow> nat \<Rightarrow> 'h \<times> nat" where
  "heap_down I h i n =
     (if 2 * i + 1 \<ge> n then (h, i)
      else let j = down_child I h i n in
        if \<not> if_Less I h j i then (h, i)
        else heap_down I (if_Swap I h i j) j n)"
  by pat_completeness auto
termination
proof (relation "measure (\<lambda>(I, h, i, n). n - i)", goal_cases)
  case (2 I h i n x)
  then show ?case using down_child_cases [of I h i n] by auto
qed simp

declare heap_up.simps [simp del] heap_down.simps [simp del]

definition heap_Push :: "('h, 'x) heap_if \<Rightarrow> 'h \<Rightarrow> 'x \<Rightarrow> 'h" where
  "heap_Push I h x = (let h1 = if_Push I h x in heap_up I h1 (if_Len I h1 - 1))"

definition heap_Pop :: "('h, 'x) heap_if \<Rightarrow> 'h \<Rightarrow> 'x \<times> 'h" where
  "heap_Pop I h =
     (let n = if_Len I h - 1;
          h1 = if_Swap I h 0 n;
          h2 = fst (heap_down I h1 0 n)
      in if_Pop I h2)"

definition heap_fix :: "('h, 'x) heap_if \<Rightarrow> 'h \<Rightarrow> nat \<Rightarrow> nat \<Rightarrow> 'h" where
  "heap_fix I h i n =
     (case heap_down I h i n of (h1, k) \<Rightarrow> if k > i then h1 else heap_up I h1 i)"

definition heap_Remove :: "('h, 'x) heap_if \<Rightarrow> 'h \<Rightarrow> nat \<Rightarrow> 'x \<times> 'h" where
  "heap_Remove I h i =
     (let n = if_Len I h - 1;
          h1 = (if n \<noteq> i then heap_fix I (if_Swap I h i n) i n else h)
      in if_Pop I h1)"

section \<open>Heap order on a slice\<close>

text \<open>\<open>heap_ok\<close> is the order itself on the first \<open>n\<close> cells; \<open>up_pre\<close> and \<open>down_pre\<close> are slices
  with a single defect, repaired by moving up or down.\<close>

definition heap_ok :: "('x \<Rightarrow> 'k::linorder) \<Rightarrow> 'x list \<Rightarrow> nat \<Rightarrow> bool" where
  "heap_ok k xs n \<longleftrightarrow> (\<forall>i. 0 < i \<and> i < n \<longrightarrow> k (xs ! parent i) \<le> k (xs ! i))"

definition up_pre :: "('x \<Rightarrow> 'k::linorder) \<Rightarrow> 'x list \<Rightarrow> nat \<Rightarrow> nat \<Rightarrow> bool" where
  "up_pre k xs j n \<longleftrightarrow>
     (\<forall>i. 0 < i \<and> i < n \<and> i \<noteq> j \<longrightarrow> k (xs ! parent i) \<le> k (xs ! i)) \<and>
     (\<forall>i. 0 < i \<and> i < n \<and> parent i = j \<and> 0 < j \<longrightarrow> k (xs ! parent j) \<le> k (xs ! i))"

definition down_pre :: "('x \<Rightarrow> 'k::linorder) \<Rightarrow> 'x list \<Rightarrow> nat \<Rightarrow> nat \<Rightarrow> bool" where
  "down_pre k xs j n \<longleftrightarrow>
     (\<forall>i. 0 < i \<and> i < n \<and> parent i \<noteq> j \<and> i \<noteq> j \<longrightarrow> k (xs ! parent i) \<le> k (xs ! i)) \<and>
     (\<forall>i. 0 < i \<and> i < n \<and> parent i = j \<and> 0 < j \<longrightarrow> k (xs ! parent j) \<le> k (xs ! i))"

lemma parent_less: "0 < i \<Longrightarrow> parent i < i"
  by linarith

lemma parent_eq_iff: "0 < i \<Longrightarrow> parent i = j \<longleftrightarrow> i = 2 * j + 1 \<or> i = 2 * j + 2"
  by presburger


lemma heap_ok_root:
  assumes "heap_ok k xs n" and "i < n"
  shows "k (xs ! 0) \<le> k (xs ! i)"
  using assms(2)
proof (induction i rule: less_induct)
  case (less i)
  show ?case
  proof (cases "i = 0")
    case False
    then have "parent i < i" by (intro parent_less) simp
    with less have "k (xs ! 0) \<le> k (xs ! parent i)" by simp
    also have "\<dots> \<le> k (xs ! i)" using assms(1) False less.prems by (simp add: heap_ok_def)
    finally show ?thesis .
  qed simp
qed

lemma heap_ok_up_pre: "heap_ok k xs n \<Longrightarrow> up_pre k xs j n"
  unfolding heap_ok_def up_pre_def
proof (intro conjI allI impI; elim conjE)
  fix i
  assume ok: "\<forall>i. 0 < i \<and> i < n \<longrightarrow> k (xs ! parent i) \<le> k (xs ! i)"
    and i: "0 < i" "i < n" and p: "parent i = j" and j: "0 < j"
  have "j < n" using parent_less [OF i(1)] p i(2) by simp
  with ok j have "k (xs ! parent j) \<le> k (xs ! j)" by simp
  also have "\<dots> \<le> k (xs ! i)" using ok i p by auto
  finally show "k (xs ! parent j) \<le> k (xs ! i)" .
qed simp

lemma heap_ok_append: "heap_ok k xs (length xs) \<Longrightarrow> up_pre k (xs @ [x]) (length xs) (Suc (length xs))"
  unfolding heap_ok_def up_pre_def
proof (intro conjI allI impI; elim conjE)
  fix i
  assume ok: "\<forall>i. 0 < i \<and> i < length xs \<longrightarrow> k (xs ! parent i) \<le> k (xs ! i)"
    and i: "0 < i" "i < Suc (length xs)" "i \<noteq> length xs"
  then have "parent i < length xs" using parent_less [OF i(1)] by simp
  with ok i show "k ((xs @ [x]) ! parent i) \<le> k ((xs @ [x]) ! i)" by (simp add: nth_append)
next
  fix i
  assume "0 < i" "i < Suc (length xs)" "parent i = length xs"
  with parent_less [of i] have False by simp
  then show "k ((xs @ [x]) ! parent (length xs)) \<le> k ((xs @ [x]) ! i)" ..
qed

lemma up_pre_done:
  assumes "up_pre k xs j n" and "j = 0 \<or> k (xs ! parent j) \<le> k (xs ! j)"
  shows "heap_ok k xs n"
  using assms by (auto simp: up_pre_def heap_ok_def)

lemma nth_swap_parent:
  assumes "n \<le> length xs" and "0 < j" and "j < n" and "i < n"
  shows "swap_list xs (parent j) j ! i = (if i = j then xs ! parent j else if i = parent j then xs ! j else xs ! i)"
  using assms parent_less [OF assms(2)] by (simp add: nth_swap_list)

lemma up_pre_edge:
  assumes pre: "up_pre k xs j n" and n: "n \<le> length xs" and j: "0 < j" "j < n"
    and lt: "k (xs ! j) < k (xs ! parent j)" and i: "0 < i" "i < n" "i \<noteq> parent j"
  shows "k (swap_list xs (parent j) j ! parent i) \<le> k (swap_list xs (parent j) j ! i)"
proof -
  have pi: "parent i < n" using parent_less [OF i(1)] i(2) by simp
  note nth = nth_swap_parent [OF n j i(2)] nth_swap_parent [OF n j pi]
  have edge: "i \<noteq> j \<Longrightarrow> k (xs ! parent i) \<le> k (xs ! i)" using pre i by (simp add: up_pre_def)
  consider "i = j" | "i \<noteq> j" "parent i = j" | "i \<noteq> j" "parent i = parent j" "parent i \<noteq> j"
    | "i \<noteq> j" "parent i \<noteq> j" "parent i \<noteq> parent j" by blast
  then show ?thesis
  proof cases
    case 1
    then show ?thesis using nth parent_less [OF j(1)] lt by (simp add: less_imp_le)
  next
    case 2
    then have "k (xs ! parent j) \<le> k (xs ! i)" using pre i j by (simp add: up_pre_def)
    then show ?thesis using nth 2 parent_less [OF j(1)] parent_less [OF i(1)] by auto
  next
    case 3
    then have "k (xs ! j) \<le> k (xs ! i)" using edge lt by simp
    with 3 show ?thesis using nth edge by auto
  next
    case 4
    then show ?thesis using nth edge i(3) by auto
  qed
qed

lemma up_pre_step:
  assumes pre: "up_pre k xs j n" and n: "n \<le> length xs" and j: "0 < j" "j < n"
    and lt: "k (xs ! j) < k (xs ! parent j)"
  shows "up_pre k (swap_list xs (parent j) j) (parent j) n"
  unfolding up_pre_def
proof (intro conjI allI impI; elim conjE)
  let ?p = "parent j"
  fix i assume i: "0 < i" "i < n" "parent i = ?p" "0 < ?p"
  have p: "?p < j" using j(1) by (rule parent_less)
  have q: "parent ?p < ?p" using i(4) by (rule parent_less)
  have qn: "parent ?p < n" "?p < n" using q p j by simp_all
  have edge: "k (xs ! parent i) \<le> k (xs ! i)" if "0 < i" "i < n" "i \<noteq> j" for i
    using pre that by (simp add: up_pre_def)
  have up: "k (xs ! parent ?p) \<le> k (xs ! ?p)" using edge [of ?p] i(4) qn p by simp
  have top: "swap_list xs ?p j ! parent ?p = xs ! parent ?p" using nth_swap_parent [OF n j qn(1)] q p by simp
  show "k (swap_list xs ?p j ! parent ?p) \<le> k (swap_list xs ?p j ! i)"
  proof (cases "i = j")
    case True
    then have "swap_list xs ?p j ! i = xs ! ?p" using nth_swap_parent [OF n j i(2)] by simp
    then show ?thesis using up by (simp only: top)
  next
    case False
    then have "k (xs ! parent ?p) \<le> k (xs ! i)" using edge [OF i(1,2) False] i(3) up by simp
    moreover have "i \<noteq> ?p" using parent_less [OF i(1)] i(3) by simp
    then have "swap_list xs ?p j ! i = xs ! i" using nth_swap_parent [OF n j i(2)] False by simp
    ultimately show ?thesis by (simp only: top)
  qed
next
  fix i assume "0 < i" "i < n" "i \<noteq> parent j"
  then show "k (swap_list xs (parent j) j ! parent i) \<le> k (swap_list xs (parent j) j ! i)"
    by (rule up_pre_edge [OF pre n j lt])
qed

lemma down_pre_done:
  assumes "down_pre k xs i n" and "\<And>c. 0 < c \<Longrightarrow> c < n \<Longrightarrow> parent c = i \<Longrightarrow> k (xs ! i) \<le> k (xs ! c)"
  shows "up_pre k xs i n"
  using assms by (auto simp: up_pre_def down_pre_def)

lemma down_pre_root: "down_pre k xs 0 n \<longleftrightarrow>
    (\<forall>i. 0 < i \<and> i < n \<and> parent i \<noteq> 0 \<longrightarrow> k (xs ! parent i) \<le> k (xs ! i))"
  by (auto simp: down_pre_def)

lemma down_pre_step:
  assumes pre: "down_pre k xs i n" and n: "n \<le> length xs"
    and j: "0 < j" "j < n" "parent j = i"
    and min: "\<And>c. 0 < c \<Longrightarrow> c < n \<Longrightarrow> parent c = i \<Longrightarrow> k (xs ! j) \<le> k (xs ! c)"
    and lt: "k (xs ! j) < k (xs ! i)"
  shows "down_pre k (swap_list xs i j) j n" and "k (swap_list xs i j ! i) \<le> k (swap_list xs i j ! j)"
proof -
  have ij: "i < j" using parent_less [OF j(1)] j(3) by simp
  have nth: "swap_list xs i j ! c = (if c = j then xs ! i else if c = i then xs ! j else xs ! c)"
    if "c < n" for c
    using that ij j n by (simp add: nth_swap_list)
  show "k (swap_list xs i j ! i) \<le> k (swap_list xs i j ! j)"
    using nth [of i] nth [of j] ij j lt by simp
  show "down_pre k (swap_list xs i j) j n"
    unfolding down_pre_def
  proof (intro conjI allI impI; elim conjE)
    fix c assume c: "0 < c" "c < n" "parent c \<noteq> j" "c \<noteq> j"
    have pc: "parent c < n" using parent_less [OF c(1)] c(2) by simp
    show "k (swap_list xs i j ! parent c) \<le> k (swap_list xs i j ! c)"
    proof (cases "c = i")
      case True
      then have "k (xs ! parent i) \<le> k (xs ! j)" using pre j c(1) by (auto simp: down_pre_def)
      then show ?thesis using nth [OF c(2)] nth [OF pc] True c ij parent_less [OF c(1)] by simp
    next
      case False
      show ?thesis
      proof (cases "parent c = i")
        case True
        then show ?thesis using nth [OF c(2)] nth [OF pc] False c ij min by simp
      next
        case np: False
        then have "k (xs ! parent c) \<le> k (xs ! c)" using pre c False by (simp add: down_pre_def)
        then show ?thesis using nth [OF c(2)] nth [OF pc] np False c by simp
      qed
    qed
  next
    fix c assume c: "0 < c" "c < n" "parent c = j" "0 < j"
    then have "k (xs ! j) \<le> k (xs ! c)" using pre ij by (auto simp: down_pre_def)
    moreover have "c \<noteq> j" "c \<noteq> i" using parent_less [OF c(1)] c ij by auto
    ultimately show "k (swap_list xs i j ! parent j) \<le> k (swap_list xs i j ! c)"
      using nth [OF c(2)] nth [of i] ij j by simp
  qed
qed

lemma heap_ok_swap_last:
  assumes ok: "heap_ok k xs (Suc n)" and n: "Suc n \<le> length xs" and i: "i < n"
  shows "down_pre k (swap_list xs i n) i n"
proof -
  have nth: "swap_list xs i n ! c = (if c = i then xs ! n else xs ! c)" if "c < n" for c
    using that n i by (simp add: nth_swap_list)
  have edge: "k (xs ! parent c) \<le> k (xs ! c)" if "0 < c" "c < n" for c
    using ok that by (simp add: heap_ok_def)
  show ?thesis
    unfolding down_pre_def
  proof (intro conjI allI impI; elim conjE)
    fix c assume c: "0 < c" "c < n" "parent c \<noteq> i" "c \<noteq> i"
    then show "k (swap_list xs i n ! parent c) \<le> k (swap_list xs i n ! c)"
      using nth [of c] nth [of "parent c"] edge [of c] parent_less [of c] by simp
  next
    fix c assume c: "0 < c" "c < n" "parent c = i" "0 < i"
    have "parent i < n" "parent i \<noteq> i" "c \<noteq> i" using parent_less [of i] parent_less [of c] c i by auto
    moreover have "k (xs ! parent i) \<le> k (xs ! c)"
      using edge [of i] edge [of c] c i by (auto intro: order_trans)
    ultimately show "k (swap_list xs i n ! parent i) \<le> k (swap_list xs i n ! c)"
      using nth [of "parent i"] nth [of c] c by simp
  qed
qed

lemma heap_ok_mono: "heap_ok k xs n \<Longrightarrow> m \<le> n \<Longrightarrow> heap_ok k xs m"
  by (simp add: heap_ok_def)

lemma heap_ok_butlast: "heap_ok k xs (length xs - 1) \<Longrightarrow> heap_ok k (butlast xs) (length (butlast xs))"
  by (auto simp: heap_ok_def nth_butlast parent_less less_trans)

section \<open>The contract of an indexed heap\<close>

text \<open>
  \<open>arr h\<close> is the slice, \<open>key h\<close> the value \<open>Less\<close> compares, \<open>idx h\<close> the index stored in each
  element and \<open>rest h\<close> everything else in the state.  The laws are those of Go's
  \<open>heap.Interface\<close> plus the repository's convention that \<open>Swap\<close>, \<open>Push\<close> and \<open>Pop\<close> maintain the
  stored index (\<open>-1\<close> once popped).
\<close>

locale index_heap =
  fixes I :: "('h, 'x) heap_if"
    and arr :: "'h \<Rightarrow> 'x list"
    and key :: "'h \<Rightarrow> 'x \<Rightarrow> 'k::linorder"
    and idx :: "'h \<Rightarrow> 'x \<Rightarrow> int"
    and rest :: "'h \<Rightarrow> 'r"
  assumes law_Len: "if_Len I h = length (arr h)"
    and law_Less: "i < length (arr h) \<Longrightarrow> j < length (arr h) \<Longrightarrow>
      if_Less I h i j \<longleftrightarrow> key h (arr h ! i) < key h (arr h ! j)"
    and law_Swap_arr: "i < length (arr h) \<Longrightarrow> j < length (arr h) \<Longrightarrow>
      arr (if_Swap I h i j) = swap_list (arr h) i j"
    and law_Swap_idx: "i < length (arr h) \<Longrightarrow> j < length (arr h) \<Longrightarrow>
      idx (if_Swap I h i j) = (idx h)(arr h ! j := int i, arr h ! i := int j)"
    and law_Swap_key: "i < length (arr h) \<Longrightarrow> j < length (arr h) \<Longrightarrow> key (if_Swap I h i j) = key h"
    and law_Swap_rest: "i < length (arr h) \<Longrightarrow> j < length (arr h) \<Longrightarrow> rest (if_Swap I h i j) = rest h"
    and law_Push: "arr (if_Push I h x) = arr h @ [x]"
      "idx (if_Push I h x) = (idx h)(x := int (length (arr h)))"
      "key (if_Push I h x) = key h" "rest (if_Push I h x) = rest h"
    and law_Pop: "arr h \<noteq> [] \<Longrightarrow> fst (if_Pop I h) = last (arr h)"
      "arr h \<noteq> [] \<Longrightarrow> arr (snd (if_Pop I h)) = butlast (arr h)"
      "arr h \<noteq> [] \<Longrightarrow> idx (snd (if_Pop I h)) = (idx h)(last (arr h) := -1)"
      "arr h \<noteq> [] \<Longrightarrow> key (snd (if_Pop I h)) = key h"
      "arr h \<noteq> [] \<Longrightarrow> rest (snd (if_Pop I h)) = rest h"
begin

definition coherent :: "'h \<Rightarrow> bool" where
  "coherent h \<longleftrightarrow> distinct (arr h) \<and> (\<forall>i < length (arr h). idx h (arr h ! i) = int i)"

definition good :: "'h \<Rightarrow> bool" where
  "good h \<longleftrightarrow> coherent h \<and> heap_ok (key h) (arr h) (length (arr h))"

definition stable :: "'h \<Rightarrow> 'h \<Rightarrow> bool" where
  "stable h h' \<longleftrightarrow> mset (arr h') = mset (arr h) \<and> key h' = key h \<and> rest h' = rest h \<and>
     (coherent h \<longrightarrow> coherent h') \<and> (\<forall>x. x \<notin> set (arr h) \<longrightarrow> idx h' x = idx h x)"

lemma stable_refl [simp, intro]: "stable h h"
  by (simp add: stable_def)

lemma stable_length: "stable h h' \<Longrightarrow> length (arr h') = length (arr h)"
  by (metis stable_def mset_eq_length)

lemma stable_set: "stable h h' \<Longrightarrow> set (arr h') = set (arr h)"
  by (metis stable_def set_mset_mset)

lemma stable_trans: "stable h h' \<Longrightarrow> stable h' h'' \<Longrightarrow> stable h h''"
  using stable_set [of h h'] by (auto simp: stable_def)

lemma stable_key: "stable h h' \<Longrightarrow> key h' = key h"
  by (simp add: stable_def)

lemma stable_Swap:
  assumes ij: "i < length (arr h)" "j < length (arr h)"
  shows "stable h (if_Swap I h i j)"
proof -
  have "coherent (if_Swap I h i j)" if c: "coherent h"
  proof -
    have inj: "arr h ! a = arr h ! b \<longleftrightarrow> a = b" if "a < length (arr h)" "b < length (arr h)" for a b
      using c that by (simp add: coherent_def nth_eq_iff_index_eq)
    have "idx (if_Swap I h i j) (swap_list (arr h) i j ! n) = int n" if n: "n < length (arr h)" for n
      using c n ij inj [OF n ij(1)] inj [OF n ij(2)] inj [OF ij(2) ij(1)]
      by (auto simp: law_Swap_idx nth_swap_list coherent_def)
    then show ?thesis using c ij by (simp add: coherent_def law_Swap_arr)
  qed
  with ij show ?thesis
    by (auto simp: stable_def law_Swap_arr law_Swap_idx law_Swap_key law_Swap_rest)
qed

lemma stable_up: "j < length (arr h) \<Longrightarrow> stable h (heap_up I h j)"
proof (induction j arbitrary: h rule: less_induct)
  case (less j)
  show ?case
  proof (cases "parent j = j \<or> \<not> if_Less I h j (parent j)")
    case True
    then show ?thesis by (auto simp: heap_up.simps [of I h j] Let_def)
  next
    case False
    then have p: "parent j < j" by linarith
    let ?h = "if_Swap I h (parent j) j"
    have sw: "stable h ?h" using p less.prems by (intro stable_Swap) simp_all
    then have "parent j < length (arr ?h)" using p less.prems by (simp add: stable_length)
    with p have "stable ?h (heap_up I ?h (parent j))" by (rule less.IH)
    with sw have "stable h (heap_up I ?h (parent j))" by (rule stable_trans)
    with False show ?thesis by (auto simp: heap_up.simps [of I h j] Let_def)
  qed
qed

lemma up_order:
  assumes "j < n" "n \<le> length (arr h)" "up_pre (key h) (arr h) j n"
  shows "heap_ok (key h) (arr (heap_up I h j)) n"
  using assms
proof (induction j arbitrary: h rule: less_induct)
  case (less j)
  have pj: "parent j < length (arr h)" and jl: "j < length (arr h)" using less.prems(1,2) by linarith+
  show ?case
  proof (cases "parent j = j \<or> \<not> if_Less I h j (parent j)")
    case True
    then have "j = 0 \<or> key h (arr h ! parent j) \<le> key h (arr h ! j)"
      using law_Less [OF jl pj] by (auto simp: not_less)
    then show ?thesis using True up_pre_done [OF less.prems(3)]
      by (auto simp: heap_up.simps [of I h j] Let_def)
  next
    case False
    then have p: "parent j < j" by linarith
    let ?h = "if_Swap I h (parent j) j"
    have lt: "key h (arr h ! j) < key h (arr h ! parent j)" using False law_Less [OF jl pj] by simp
    have len: "n \<le> length (arr ?h)"
      using stable_length [OF stable_Swap [OF pj jl]] less.prems(2) by simp
    have "up_pre (key ?h) (arr ?h) (parent j) n"
      using up_pre_step [OF less.prems(3,2) _ less.prems(1) lt] p pj jl
      by (simp add: law_Swap_arr law_Swap_key)
    with p less.prems(1) len have "heap_ok (key ?h) (arr (heap_up I ?h (parent j))) n"
      by (intro less.IH) simp_all
    then have "heap_ok (key h) (arr (heap_up I ?h (parent j))) n"
      by (simp only: law_Swap_key [OF pj jl])
    with False show ?thesis by (auto simp: heap_up.simps [of I h j] Let_def)
  qed
qed

lemma down_child_min:
  assumes "2 * i + 1 < n" "n \<le> length (arr h)"
  shows "down_child I h i n < n" and "parent (down_child I h i n) = i" and "0 < down_child I h i n"
    and "0 < c \<Longrightarrow> c < n \<Longrightarrow> parent c = i \<Longrightarrow>
      key h (arr h ! down_child I h i n) \<le> key h (arr h ! c)"
proof -
  have less: "2 * i + 2 < n \<Longrightarrow> if_Less I h (2 * i + 2) (2 * i + 1) \<longleftrightarrow>
      key h (arr h ! (2 * i + 2)) < key h (arr h ! (2 * i + 1))"
    using assms by (intro law_Less) simp_all
  show "down_child I h i n < n" "parent (down_child I h i n) = i" "0 < down_child I h i n"
    using assms by (auto simp: down_child_def Let_def)
  show "key h (arr h ! down_child I h i n) \<le> key h (arr h ! c)"
    if "0 < c" "c < n" "parent c = i"
    using that assms less parent_eq_iff [OF that(1), of i]
    by (auto simp: down_child_def Let_def not_less less_imp_le)
qed

lemma stable_down: "n \<le> length (arr h) \<Longrightarrow> i < length (arr h) \<Longrightarrow> stable h (fst (heap_down I h i n))"
proof (induction "n - i" arbitrary: h i rule: less_induct)
  case less
  let ?j = "down_child I h i n"
  show ?case
  proof (cases "2 * i + 1 \<ge> n \<or> \<not> if_Less I h ?j i")
    case True
    then show ?thesis by (auto simp: heap_down.simps [of I h i n] Let_def)
  next
    case False
    then have j: "?j < n" "i < ?j" "2 * i + 1 < n"
      using down_child_min(1) [of i n h] down_child_cases [of I h i n] less.prems by auto
    let ?h = "if_Swap I h i ?j"
    have sw: "stable h ?h" using j less.prems by (intro stable_Swap) simp_all
    then have "stable ?h (fst (heap_down I ?h ?j n))"
      using j less.prems by (intro less.hyps) (simp_all add: stable_length)
    with sw have "stable h (fst (heap_down I ?h ?j n))" by (rule stable_trans)
    with False show ?thesis by (simp add: heap_down.simps [of I h i n] Let_def)
  qed
qed

lemma down_order_strong:
  assumes "n \<le> length (arr h)" "i < length (arr h)" "down_pre (key h) (arr h) i n"
    and "0 < i \<and> i < n \<Longrightarrow> key h (arr h ! parent i) \<le> key h (arr h ! i)"
  shows "heap_ok (key h) (arr (fst (heap_down I h i n))) n \<and> i \<le> snd (heap_down I h i n)"
  using assms
proof (induction "n - i" arbitrary: h i rule: less_induct)
  case less
  let ?j = "down_child I h i n"
  note defs = heap_down.simps [of I h i n] Let_def
  have stop: "heap_ok (key h) (arr h) n"
    if "\<And>c. 0 < c \<Longrightarrow> c < n \<Longrightarrow> parent c = i \<Longrightarrow> key h (arr h ! i) \<le> key h (arr h ! c)"
    using down_pre_done [OF less.prems(3) that] less.prems(4) by (auto simp: up_pre_def heap_ok_def)
  show ?case
  proof (cases "2 * i + 1 < n")
    case False
    then have "heap_ok (key h) (arr h) n" by (intro stop) (auto simp: parent_eq_iff)
    with False show ?thesis by (simp add: defs)
  next
    case True
    note child = down_child_min [OF True less.prems(1)]
    have jl: "?j < length (arr h)" "i < ?j"
      using child(1) less.prems(1) down_child_cases [of I h i n] by auto
    note L = law_Less [OF jl(1) less.prems(2)]
    show ?thesis
    proof (cases "if_Less I h ?j i")
      case False
      then have "key h (arr h ! i) \<le> key h (arr h ! ?j)" using L by simp
      then have "heap_ok (key h) (arr h) n" using child(4) by (intro stop) (auto intro: order_trans)
      with False show ?thesis by (simp add: defs)
    next
      case lt: True
      let ?h = "if_Swap I h i ?j"
      have eqs: "arr ?h = swap_list (arr h) i ?j" "key ?h = key h"
        using jl(1) less.prems(2) by (simp_all add: law_Swap_arr law_Swap_key)
      note st = down_pre_step [OF less.prems(3,1) child(3) child(1) child(2)]
      have "down_pre (key ?h) (arr ?h) ?j n"
        and "key ?h (arr ?h ! i) \<le> key ?h (arr ?h ! ?j)"
        using st child(4) lt L unfolding eqs by blast+
      then have "heap_ok (key ?h) (arr (fst (heap_down I ?h ?j n))) n \<and> ?j \<le> snd (heap_down I ?h ?j n)"
        using jl child(1,2) less.prems(1) by (intro less.hyps) (simp_all add: eqs)
      with lt True jl(2) show ?thesis by (simp add: defs eqs)
    qed
  qed
qed

lemma down_order:
  assumes "n \<le> length (arr h)" "i < n" "down_pre (key h) (arr h) i n"
  shows "if snd (heap_down I h i n) > i then heap_ok (key h) (arr (fst (heap_down I h i n))) n
    else fst (heap_down I h i n) = h \<and> up_pre (key h) (arr h) i n"
proof -
  let ?j = "down_child I h i n"
  note defs = heap_down.simps [of I h i n] Let_def
  have il: "i < length (arr h)" using assms by simp
  show ?thesis
  proof (cases "2 * i + 1 < n")
    case False
    then have "up_pre (key h) (arr h) i n" by (intro down_pre_done [OF assms(3)]) (auto simp: parent_eq_iff)
    with False show ?thesis by (simp add: defs)
  next
    case True
    note child = down_child_min [OF True assms(1)]
    have jl: "?j < length (arr h)" "i < ?j"
      using child(1) assms(1) down_child_cases [of I h i n] by auto
    note L = law_Less [OF jl(1) il]
    show ?thesis
    proof (cases "if_Less I h ?j i")
      case False
      then have "key h (arr h ! i) \<le> key h (arr h ! ?j)" using L by simp
      then have "up_pre (key h) (arr h) i n"
        using child(4) by (intro down_pre_done [OF assms(3)]) (auto intro: order_trans)
      with False show ?thesis by (simp add: defs)
    next
      case lt: True
      let ?h = "if_Swap I h i ?j"
      have eqs: "arr ?h = swap_list (arr h) i ?j" "key ?h = key h"
        using jl(1) il by (simp_all add: law_Swap_arr law_Swap_key)
      note st = down_pre_step [OF assms(3,1) child(3) child(1) child(2)]
      have "down_pre (key ?h) (arr ?h) ?j n"
        and "key ?h (arr ?h ! i) \<le> key ?h (arr ?h ! ?j)"
        using st child(4) lt L unfolding eqs by blast+
      then have "heap_ok (key ?h) (arr (fst (heap_down I ?h ?j n))) n \<and> ?j \<le> snd (heap_down I ?h ?j n)"
        using jl child(1,2) assms(1) by (intro down_order_strong) (simp_all add: eqs)
      with lt True jl(2) show ?thesis by (simp add: defs eqs)
    qed
  qed
qed

text \<open>Moving up or down leaves the cells beyond the last one it may touch alone.\<close>

lemma up_frame: "j < k \<Longrightarrow> k < length (arr h) \<Longrightarrow> arr (heap_up I h j) ! k = arr h ! k"
proof (induction j arbitrary: h rule: less_induct)
  case (less j)
  show ?case
  proof (cases "parent j = j \<or> \<not> if_Less I h j (parent j)")
    case True
    then show ?thesis by (auto simp: heap_up.simps [of I h j] Let_def)
  next
    case False
    then have p: "parent j < j" by linarith
    let ?h = "if_Swap I h (parent j) j"
    have a: "arr ?h = swap_list (arr h) (parent j) j" using p less.prems by (intro law_Swap_arr) simp_all
    have len: "length (arr ?h) = length (arr h)" unfolding a by (rule length_swap_list)
    have "arr (heap_up I ?h (parent j)) ! k = arr ?h ! k"
    proof (rule less.IH [OF p])
      show "parent j < k" using p less.prems(1) by (rule less_trans)
      show "k < length (arr ?h)" unfolding len by (rule less.prems(2))
    qed
    also have "\<dots> = arr h ! k" unfolding a using p less.prems by (simp add: nth_swap_list)
    finally show ?thesis using False by (auto simp: heap_up.simps [of I h j] Let_def)
  qed
qed

lemma down_frame:
  "i < n \<Longrightarrow> n \<le> k \<Longrightarrow> k < length (arr h) \<Longrightarrow> arr (fst (heap_down I h i n)) ! k = arr h ! k"
proof (induction "n - i" arbitrary: h i rule: less_induct)
  case less
  let ?j = "down_child I h i n"
  show ?case
  proof (cases "2 * i + 1 \<ge> n \<or> \<not> if_Less I h ?j i")
    case True
    then show ?thesis by (auto simp: heap_down.simps [of I h i n] Let_def)
  next
    case False
    then have j: "?j < n" "i < ?j"
      using down_child_min(1) [of i n h] down_child_cases [of I h i n] less.prems by auto
    let ?h = "if_Swap I h i ?j"
    have a: "arr ?h = swap_list (arr h) i ?j" using j less.prems by (intro law_Swap_arr) simp_all
    have "arr (fst (heap_down I ?h ?j n)) ! k = arr ?h ! k"
      using j less.prems by (intro less.hyps) (simp_all add: a)
    also have "\<dots> = arr h ! k" using j less.prems by (simp add: a nth_swap_list)
    finally show ?thesis using False by (simp add: heap_down.simps [of I h i n] Let_def)
  qed
qed

subsection \<open>Push, Pop and Remove\<close>

lemma Push_correct:
  assumes g: "good h" and x: "x \<notin> set (arr h)"
  shows "good (heap_Push I h x)" and "mset (arr (heap_Push I h x)) = add_mset x (mset (arr h))"
    and "key (heap_Push I h x) = key h" and "rest (heap_Push I h x) = rest h"
    and "y \<noteq> x \<Longrightarrow> y \<notin> set (arr h) \<Longrightarrow> idx (heap_Push I h x) y = idx h y"
proof -
  let ?h = "if_Push I h x"
  have eq: "heap_Push I h x = heap_up I ?h (length (arr h))"
    by (simp add: heap_Push_def Let_def law_Len law_Push)
  have st: "stable ?h (heap_Push I h x)" unfolding eq by (rule stable_up) (simp add: law_Push)
  have "coherent ?h"
    using g x unfolding good_def coherent_def law_Push
    by (auto simp: nth_append less_Suc_eq)
  moreover have "heap_ok (key ?h) (arr (heap_Push I h x)) (Suc (length (arr h)))"
    unfolding eq using g by (intro up_order) (simp_all add: law_Push good_def heap_ok_append)
  ultimately show "good (heap_Push I h x)"
    using st stable_length [OF st] by (simp add: good_def stable_def law_Push)
  show "mset (arr (heap_Push I h x)) = add_mset x (mset (arr h))"
    and "key (heap_Push I h x) = key h" and "rest (heap_Push I h x) = rest h"
    and "y \<noteq> x \<Longrightarrow> y \<notin> set (arr h) \<Longrightarrow> idx (heap_Push I h x) y = idx h y"
    using st by (auto simp: stable_def law_Push)
qed

text \<open>Removing the last cell of a slice whose other cells are in heap order.\<close>

lemma Pop_last:
  assumes c: "coherent h" and ne: "arr h \<noteq> []"
    and ok: "heap_ok (key h) (arr h) (length (arr h) - 1)"
  shows "good (snd (if_Pop I h))"
proof -
  have d: "distinct (arr h)" using c by (simp add: coherent_def)
  have "idx (snd (if_Pop I h)) (butlast (arr h) ! i) = int i" if i: "i < length (butlast (arr h))" for i
  proof -
    have "butlast (arr h) ! i \<noteq> last (arr h)"
      using distinct_butlast_last [OF d ne] nth_mem [OF i] by metis
    moreover have "idx h (butlast (arr h) ! i) = int i"
      using c i by (simp add: coherent_def nth_butlast)
    ultimately show ?thesis using ne by (simp add: law_Pop)
  qed
  then have "coherent (snd (if_Pop I h))"
    using ne d by (simp add: coherent_def law_Pop distinct_butlast)
  then show ?thesis using ok ne heap_ok_butlast [of "key h" "arr h"] by (simp add: good_def law_Pop)
qed

lemma Pop_after_stable:
  assumes st: "stable h h'" and c: "coherent h" and n: "Suc n = length (arr h)"
    and ok: "heap_ok (key h) (arr h') n" and x: "arr h' ! n = x"
  shows "fst (if_Pop I h') = x" and "good (snd (if_Pop I h'))"
    and "mset (arr h) = add_mset x (mset (arr (snd (if_Pop I h'))))"
    and "key (snd (if_Pop I h')) = key h" and "rest (snd (if_Pop I h')) = rest h"
    and "idx (snd (if_Pop I h')) x = -1"
    and "y \<notin> set (arr h) \<Longrightarrow> idx (snd (if_Pop I h')) y = idx h y"
proof -
  have len: "length (arr h') = Suc n" using stable_length [OF st] n by simp
  then have ne: "arr h' \<noteq> []" by auto
  have last: "last (arr h') = x" using x len ne by (simp add: last_conv_nth)
  have xin: "x \<in> set (arr h)"
    unfolding last [symmetric] stable_set [OF st, symmetric] by (rule last_in_set [OF ne])
  show "good (snd (if_Pop I h'))"
    using st c ne ok len by (intro Pop_last) (simp_all add: stable_def)
  show "fst (if_Pop I h') = x" using ne last by (simp add: law_Pop)
  show "key (snd (if_Pop I h')) = key h" "rest (snd (if_Pop I h')) = rest h"
    using st ne by (simp_all add: law_Pop stable_def)
  show "idx (snd (if_Pop I h')) x = -1" using ne last by (simp add: law_Pop)
  show "idx (snd (if_Pop I h')) y = idx h y" if y: "y \<notin> set (arr h)"
  proof -
    have "y \<noteq> x" using y xin by blast
    then have "idx (snd (if_Pop I h')) y = idx h' y"
      unfolding law_Pop(3) [OF ne] last by (rule fun_upd_other)
    also have "\<dots> = idx h y" using st y by (simp add: stable_def)
    finally show ?thesis .
  qed
  show "mset (arr h) = add_mset x (mset (arr (snd (if_Pop I h'))))"
    using st ne last mset_butlast_last [OF ne] by (simp add: law_Pop stable_def)
qed

lemma Pop_correct:
  assumes g: "good h" and ne: "arr h \<noteq> []"
  shows "fst (heap_Pop I h) = arr h ! 0" and "good (snd (heap_Pop I h))"
    and "mset (arr h) = add_mset (arr h ! 0) (mset (arr (snd (heap_Pop I h))))"
    and "key (snd (heap_Pop I h)) = key h" and "rest (snd (heap_Pop I h)) = rest h"
    and "idx (snd (heap_Pop I h)) (arr h ! 0) = -1"
    and "y \<notin> set (arr h) \<Longrightarrow> idx (snd (heap_Pop I h)) y = idx h y"
    and "x \<in> set (arr h) \<Longrightarrow> key h (arr h ! 0) \<le> key h x"
proof -
  define n where "n = length (arr h) - 1"
  have n: "Suc n = length (arr h)" using ne by (simp add: n_def)
  let ?s = "if_Swap I h 0 n" and ?d = "fst (heap_down I (if_Swap I h 0 n) 0 n)"
  have eq: "heap_Pop I h = if_Pop I ?d" by (simp add: heap_Pop_def Let_def law_Len n_def)
  have st1: "stable h ?s" using n ne by (intro stable_Swap) simp_all
  have len1: "length (arr ?s) = Suc n" using stable_length [OF st1] n by simp
  have st: "stable h ?d" using st1 len1 by (intro stable_trans [OF st1] stable_down) simp_all
  have arr1: "arr ?s = swap_list (arr h) 0 n" and key1: "key ?s = key h"
    using n ne by (simp_all add: law_Swap_arr law_Swap_key)
  have c: "coherent h" and ok: "heap_ok (key h) (arr h) (Suc n)" using g n by (simp_all add: good_def)
  have d: "heap_ok (key h) (arr ?d) n \<and> arr ?d ! n = arr h ! 0"
  proof (cases "n = 0")
    case True
    then have "?d = ?s" by (simp add: heap_down.simps [of I "if_Swap I h 0 0" 0 0])
    then show ?thesis using arr1 n True ne by (simp add: heap_ok_def nth_swap_list)
  next
    case False
    have "heap_ok (key ?s) (arr ?d) n"
      using False len1 heap_ok_swap_last [OF ok, of 0] n ne arr1 key1
      by (intro conjunct1 [OF down_order_strong]) simp_all
    moreover have "arr ?d ! n = arr ?s ! n" using False len1 by (intro down_frame) simp_all
    moreover have "arr ?s ! n = arr h ! 0" using n ne False by (simp add: arr1 nth_swap_list)
    ultimately show ?thesis using key1 by simp
  qed
  note res = Pop_after_stable [OF st c n conjunct1 [OF d] conjunct2 [OF d]]
  show "fst (heap_Pop I h) = arr h ! 0" and "good (snd (heap_Pop I h))"
    and "mset (arr h) = add_mset (arr h ! 0) (mset (arr (snd (heap_Pop I h))))"
    and "key (snd (heap_Pop I h)) = key h" and "rest (snd (heap_Pop I h)) = rest h"
    and "idx (snd (heap_Pop I h)) (arr h ! 0) = -1"
    and "y \<notin> set (arr h) \<Longrightarrow> idx (snd (heap_Pop I h)) y = idx h y"
    unfolding eq by (fact res)+
  show "x \<in> set (arr h) \<Longrightarrow> key h (arr h ! 0) \<le> key h x"
    using heap_ok_root [OF ok] n by (auto simp: in_set_conv_nth)
qed

lemma fix_correct:
  assumes c: "n \<le> length (arr h)" "i < n" and d: "down_pre (key h) (arr h) i n"
  shows "stable h (heap_fix I h i n)" and "heap_ok (key h) (arr (heap_fix I h i n)) n"
    and "n \<le> k \<Longrightarrow> k < length (arr h) \<Longrightarrow> arr (heap_fix I h i n) ! k = arr h ! k"
proof -
  obtain h1 m where dn: "heap_down I h i n = (h1, m)" by fastforce
  have il: "i < length (arr h)" using c by simp
  have st: "stable h h1" using stable_down [OF c(1) il] dn by simp
  have "stable h h" by simp
  show "stable h (heap_fix I h i n)"
    using st stable_up [OF il] down_order [OF c d] dn by (auto simp: heap_fix_def)
  show "heap_ok (key h) (arr (heap_fix I h i n)) n"
    using down_order [OF c d] dn up_order [OF c(2,1)] by (auto simp: heap_fix_def split: if_splits)
  show "arr (heap_fix I h i n) ! k = arr h ! k" if k: "n \<le> k" "k < length (arr h)"
    using down_frame [OF c(2) k] up_frame [of i k h] k c(2) down_order [OF c d] dn
    by (auto simp: heap_fix_def split: if_splits)
qed

lemma Remove_correct:
  assumes g: "good h" and i: "i < length (arr h)"
  shows "fst (heap_Remove I h i) = arr h ! i" and "good (snd (heap_Remove I h i))"
    and "mset (arr h) = add_mset (arr h ! i) (mset (arr (snd (heap_Remove I h i))))"
    and "key (snd (heap_Remove I h i)) = key h" and "rest (snd (heap_Remove I h i)) = rest h"
    and "idx (snd (heap_Remove I h i)) (arr h ! i) = -1"
    and "y \<notin> set (arr h) \<Longrightarrow> idx (snd (heap_Remove I h i)) y = idx h y"
proof -
  define n where "n = length (arr h) - 1"
  have n: "Suc n = length (arr h)" using i by (simp add: n_def)
  let ?s = "if_Swap I h i n"
  define h1 where "h1 = (if n \<noteq> i then heap_fix I ?s i n else h)"
  have eq: "heap_Remove I h i = if_Pop I h1" by (simp add: heap_Remove_def Let_def law_Len n_def h1_def)
  have c: "coherent h" and ok: "heap_ok (key h) (arr h) (Suc n)" using g n by (simp_all add: good_def)
  have "stable h h1 \<and> heap_ok (key h) (arr h1) n \<and> arr h1 ! n = arr h ! i"
  proof (cases "n = i")
    case True
    then show ?thesis using heap_ok_mono [OF ok, of n] by (simp add: h1_def)
  next
    case False
    then have il: "i < n" using i n by simp
    have st1: "stable h ?s" using n i by (intro stable_Swap) simp_all
    have len1: "length (arr ?s) = Suc n" using stable_length [OF st1] n by simp
    have arr1: "arr ?s = swap_list (arr h) i n" and key1: "key ?s = key h"
      using n i by (simp_all add: law_Swap_arr law_Swap_key)
    have d: "down_pre (key ?s) (arr ?s) i n" unfolding arr1 key1
      using n il by (intro heap_ok_swap_last [OF ok]) simp_all
    have "n \<le> length (arr ?s)" using len1 by simp
    note F = fix_correct [OF this il d]
    have "arr ?s ! n = arr h ! i" using n i by (simp add: arr1 nth_swap_list)
    then show ?thesis
      using False stable_trans [OF st1 F(1)] F(2) F(3) [of n] len1 key1 by (simp add: h1_def)
  qed
  then have st: "stable h h1" and ok1: "heap_ok (key h) (arr h1) n" and x: "arr h1 ! n = arr h ! i" by blast+
  note res = Pop_after_stable [OF st c n ok1 x]
  show "fst (heap_Remove I h i) = arr h ! i" and "good (snd (heap_Remove I h i))"
    and "mset (arr h) = add_mset (arr h ! i) (mset (arr (snd (heap_Remove I h i))))"
    and "key (snd (heap_Remove I h i)) = key h" and "rest (snd (heap_Remove I h i)) = rest h"
    and "idx (snd (heap_Remove I h i)) (arr h ! i) = -1"
    and "y \<notin> set (arr h) \<Longrightarrow> idx (snd (heap_Remove I h i)) y = idx h y"
    unfolding eq by (fact res)+
qed

end

end
