(* ===== verification/Dial_Queue.thy ===== *)
theory Dial_Queue
  imports Go_Heap
begin

text \<open>
  The dial queue of the networking server: \<open>core/network/dial/dial_task.go\<close>, \<open>heap.go\<close> and
  \<open>dial_queue.go\<close>.  The Go code keeps pointers to \<open>DialTask\<close> objects both in the heap slice and in
  the \<open>tasks\<close> map and mutates their \<open>index\<close> through them, so the objects live in an explicit
  store addressed by natural numbers.  \<open>dq_if\<close> is the \<open>heap.Interface\<close> of \<open>dialQueueImpl\<close>; the
  interpretation of \<open>index_heap\<close> gives the correctness of \<open>heap.Push\<close>, \<open>heap.Pop\<close> and
  \<open>heap.Remove\<close> on it.  The blocking \<open>PopTask\<close> is a step relation in which \<open>AddTask\<close> and
  \<open>Close\<close> of other goroutines interleave with the loop.
\<close>

section \<open>Data\<close>

record dial_task =
  dt_index :: int
  dt_addrInfo :: addr_info
  dt_priority :: u64

record dial_queue =
  dq_store :: "nat \<Rightarrow> dial_task"
  dq_next :: nat
  dq_heap :: "nat list"
  dq_tasks :: "peer_id \<rightharpoonup> nat"
  dq_closed :: bool

definition GetAddrInfo :: "dial_task \<Rightarrow> addr_info" where
  "GetAddrInfo dt = dt_addrInfo dt"

definition zero_task :: dial_task where
  "zero_task = \<lparr>dt_index = 0, dt_addrInfo = \<lparr>ai_ID = '''', ai_Addrs = []\<rparr>, dt_priority = 0\<rparr>"

definition NewDialQueue :: dial_queue where
  "NewDialQueue = \<lparr>dq_store = (\<lambda>_. zero_task), dq_next = 0, dq_heap = [], dq_tasks = Map.empty,
     dq_closed = False\<rparr>"

section \<open>The methods of dialQueueImpl\<close>

definition set_index :: "dial_queue \<Rightarrow> nat \<Rightarrow> int \<Rightarrow> dial_queue" where
  "set_index q a i = q\<lparr>dq_store := (dq_store q)(a := (dq_store q a)\<lparr>dt_index := i\<rparr>)\<rparr>"

definition impl_Len :: "dial_queue \<Rightarrow> nat" where
  "impl_Len q = length (dq_heap q)"

definition impl_Less :: "dial_queue \<Rightarrow> nat \<Rightarrow> nat \<Rightarrow> bool" where
  "impl_Less q i j \<longleftrightarrow> dt_priority (dq_store q (dq_heap q ! i)) < dt_priority (dq_store q (dq_heap q ! j))"

definition impl_Swap :: "dial_queue \<Rightarrow> nat \<Rightarrow> nat \<Rightarrow> dial_queue" where
  "impl_Swap q i j =
     (let t = swap_list (dq_heap q) i j;
          q1 = q\<lparr>dq_heap := t\<rparr>;
          q2 = set_index q1 (t ! i) (int i)
      in set_index q2 (t ! j) (int j))"

definition impl_Push :: "dial_queue \<Rightarrow> nat \<Rightarrow> dial_queue" where
  "impl_Push q x =
     (let n = length (dq_heap q);
          q1 = set_index q x (int n)
      in q1\<lparr>dq_heap := dq_heap q1 @ [x]\<rparr>)"

definition impl_Pop :: "dial_queue \<Rightarrow> nat \<times> dial_queue" where
  "impl_Pop q =
     (let old = dq_heap q; n = length old; item = old ! (n - 1);
          q1 = set_index q item (-1)
      in (item, q1\<lparr>dq_heap := take (n - 1) old\<rparr>))"

definition dq_if :: "(dial_queue, nat) heap_if" where
  "dq_if = \<lparr>if_Len = impl_Len, if_Less = impl_Less, if_Swap = impl_Swap, if_Push = impl_Push,
     if_Pop = impl_Pop\<rparr>"

definition dq_key :: "dial_queue \<Rightarrow> nat \<Rightarrow> u64" where
  "dq_key q a = dt_priority (dq_store q a)"

definition dq_idx :: "dial_queue \<Rightarrow> nat \<Rightarrow> int" where
  "dq_idx q a = dt_index (dq_store q a)"

definition dq_rest :: "dial_queue \<Rightarrow> nat \<times> (peer_id \<rightharpoonup> nat) \<times> bool \<times> (nat \<Rightarrow> addr_info)" where
  "dq_rest q = (dq_next q, dq_tasks q, dq_closed q, \<lambda>a. dt_addrInfo (dq_store q a))"

lemma set_index_simps [simp]:
  "dq_heap (set_index q a i) = dq_heap q" "dq_next (set_index q a i) = dq_next q"
  "dq_tasks (set_index q a i) = dq_tasks q" "dq_closed (set_index q a i) = dq_closed q"
  "dt_priority (dq_store (set_index q a i) b) = dt_priority (dq_store q b)"
  "dt_addrInfo (dq_store (set_index q a i) b) = dt_addrInfo (dq_store q b)"
  "dt_index (dq_store (set_index q a i) b) = (if b = a then i else dt_index (dq_store q b))"
  by (simp_all add: set_index_def)

lemmas dq_impl_defs = dq_if_def impl_Len_def impl_Less_def impl_Swap_def impl_Push_def impl_Pop_def
  dq_key_def dq_idx_def dq_rest_def Let_def

interpretation dqh: index_heap dq_if dq_heap dq_key dq_idx dq_rest
proof unfold_locales
  fix h and i j :: nat and x :: nat
  show "if_Len dq_if h = length (dq_heap h)" by (simp add: dq_impl_defs)
  show "dq_heap (if_Push dq_if h x) = dq_heap h @ [x]"
    and "dq_idx (if_Push dq_if h x) = (dq_idx h)(x := int (length (dq_heap h)))"
    and "dq_key (if_Push dq_if h x) = dq_key h" and "dq_rest (if_Push dq_if h x) = dq_rest h"
    by (simp_all add: dq_impl_defs fun_eq_iff)
  show "if_Less dq_if h i j \<longleftrightarrow> dq_key h (dq_heap h ! i) < dq_key h (dq_heap h ! j)"
    by (simp add: dq_impl_defs)
  show "dq_heap (if_Swap dq_if h i j) = swap_list (dq_heap h) i j"
    and "dq_key (if_Swap dq_if h i j) = dq_key h" and "dq_rest (if_Swap dq_if h i j) = dq_rest h"
    by (simp_all add: dq_impl_defs fun_eq_iff)
  show "dq_idx (if_Swap dq_if h i j) = (dq_idx h)(dq_heap h ! j := int i, dq_heap h ! i := int j)"
    if "i < length (dq_heap h)" "j < length (dq_heap h)"
    using that by (auto simp: dq_impl_defs fun_eq_iff nth_swap_list)
  assume ne: "dq_heap h \<noteq> []"
  then show "fst (if_Pop dq_if h) = last (dq_heap h)"
    and "dq_heap (snd (if_Pop dq_if h)) = butlast (dq_heap h)"
    and "dq_idx (snd (if_Pop dq_if h)) = (dq_idx h)(last (dq_heap h) := -1)"
    and "dq_key (snd (if_Pop dq_if h)) = dq_key h" and "dq_rest (snd (if_Pop dq_if h)) = dq_rest h"
    by (simp_all add: dq_impl_defs fun_eq_iff last_conv_nth butlast_conv_take)
qed

section \<open>The operations of DialQueue\<close>

definition Close_dq :: "dial_queue \<Rightarrow> go_err + dial_queue" where
  "Close_dq q = (if dq_closed q then Inl (GoPanic ''close of closed channel'')
     else Inr (q\<lparr>dq_closed := True\<rparr>))"

definition Len_dq :: "dial_queue \<Rightarrow> nat" where
  "Len_dq q = card (dom (dq_tasks q))"

definition popTaskImpl :: "dial_queue \<Rightarrow> nat option \<times> dial_queue" where
  "popTaskImpl q =
     (if dq_heap q \<noteq> [] then let (tt, q1) = heap_Pop dq_if q in (Some tt, q1) else (None, q))"

definition DeleteTask :: "dial_queue \<Rightarrow> peer_id \<Rightarrow> dial_queue" where
  "DeleteTask q p =
     (case dq_tasks q p of
        None \<Rightarrow> q
      | Some item \<Rightarrow>
          (let i = dt_index (dq_store q item);
               q1 = (if i \<ge> 0 then snd (heap_Remove dq_if q (nat i)) else q)
           in q1\<lparr>dq_tasks := (dq_tasks q1)(p := None)\<rparr>))"

text \<open>\<open>AddTask\<close> without its final non-blocking send on \<open>updateCh\<close>, whose effect is in the step
  relation below.\<close>

definition AddTask :: "dial_queue \<Rightarrow> addr_info \<Rightarrow> u64 \<Rightarrow> dial_queue" where
  "AddTask q addrInfo priority =
     (let task = dq_next q;
          q1 = q\<lparr>dq_store := (dq_store q)(task :=
                   \<lparr>dt_index = 0, dt_addrInfo = addrInfo, dt_priority = priority\<rparr>),
                 dq_next := Suc task\<rparr>;
          q2 = q1\<lparr>dq_tasks := (dq_tasks q1)(ai_ID addrInfo \<mapsto> task)\<rparr>
      in heap_Push dq_if q2 task)"

section \<open>Well-formed queues\<close>

text \<open>
  The heap slice holds distinct allocated tasks in heap order, each with its own position in
  \<open>index\<close>; every other allocated task has index \<open>-1\<close>; \<open>tasks\<close> maps a peer to an allocated task for
  that very peer.
\<close>

definition dq_inv :: "dial_queue \<Rightarrow> bool" where
  "dq_inv q \<longleftrightarrow>
     distinct (dq_heap q) \<and>
     (\<forall>i < length (dq_heap q). dt_index (dq_store q (dq_heap q ! i)) = int i) \<and>
     heap_ok (dq_key q) (dq_heap q) (length (dq_heap q)) \<and>
     (\<forall>a \<in> set (dq_heap q). a < dq_next q) \<and>
     (\<forall>a < dq_next q. a \<notin> set (dq_heap q) \<longrightarrow> dt_index (dq_store q a) = -1) \<and>
     (\<forall>p a. dq_tasks q p = Some a \<longrightarrow> a < dq_next q \<and> ai_ID (dt_addrInfo (dq_store q a)) = p) \<and>
     finite (dom (dq_tasks q))"

lemma dq_inv_good: "dq_inv q \<Longrightarrow> dqh.good q"
  by (simp add: dq_inv_def dqh.good_def dqh.coherent_def dq_idx_def)

lemma dq_invI:
  assumes "dqh.good q" "\<And>a. a \<in> set (dq_heap q) \<Longrightarrow> a < dq_next q"
    and "\<And>a. a < dq_next q \<Longrightarrow> a \<notin> set (dq_heap q) \<Longrightarrow> dq_idx q a = -1"
    and "\<And>p a. dq_tasks q p = Some a \<Longrightarrow> a < dq_next q \<and> ai_ID (dt_addrInfo (dq_store q a)) = p"
    and "finite (dom (dq_tasks q))"
  shows "dq_inv q"
  using assms by (simp add: dq_inv_def dqh.good_def dqh.coherent_def dq_idx_def)

lemma dq_inv_index: "dq_inv q \<Longrightarrow> a < dq_next q \<Longrightarrow> a \<notin> set (dq_heap q) \<Longrightarrow> dq_idx q a = -1"
  by (simp add: dq_inv_def dq_idx_def)

lemma dq_inv_heap: "dq_inv q \<Longrightarrow> a \<in> set (dq_heap q) \<Longrightarrow> a < dq_next q"
  by (simp add: dq_inv_def)

lemma dq_inv_tasks:
  "dq_inv q \<Longrightarrow> dq_tasks q p = Some a \<Longrightarrow> a < dq_next q \<and> ai_ID (dt_addrInfo (dq_store q a)) = p"
  by (simp add: dq_inv_def)

lemma dq_inv_pos: "dq_inv q \<Longrightarrow> i < length (dq_heap q) \<Longrightarrow> dt_index (dq_store q (dq_heap q ! i)) = int i"
  by (simp add: dq_inv_def)

lemma dq_index_in_heap:
  assumes "dq_inv q" "a < dq_next q" "0 \<le> dt_index (dq_store q a)"
  shows "nat (dt_index (dq_store q a)) < length (dq_heap q)"
    and "dq_heap q ! nat (dt_index (dq_store q a)) = a"
proof -
  have "a \<in> set (dq_heap q)" using dq_inv_index [OF assms(1,2)] assms(3) by (auto simp: dq_idx_def)
  then obtain i where "i < length (dq_heap q)" "dq_heap q ! i = a" by (auto simp: in_set_conv_nth)
  with dq_inv_pos [OF assms(1), of i]
  show "nat (dt_index (dq_store q a)) < length (dq_heap q)"
    and "dq_heap q ! nat (dt_index (dq_store q a)) = a" by auto
qed

lemma dq_rest_eqD:
  assumes "dq_rest q' = dq_rest q"
  shows "dq_next q' = dq_next q" "dq_tasks q' = dq_tasks q" "dq_closed q' = dq_closed q"
    "dt_addrInfo (dq_store q' a) = dt_addrInfo (dq_store q a)"
  using assms by (auto simp: dq_rest_def dest: fun_cong)

lemma dq_inv_New: "dq_inv NewDialQueue"
  by (simp add: dq_inv_def NewDialQueue_def heap_ok_def)

text \<open>\<open>heap.Pop\<close> and \<open>heap.Remove\<close> both take one task out of the slice.\<close>

lemma dq_inv_take_out:
  assumes inv: "dq_inv q" and good: "dqh.good q'"
    and m: "mset (dq_heap q) = add_mset x (mset (dq_heap q'))"
    and rest: "dq_rest q' = dq_rest q" and ix: "dq_idx q' x = -1"
    and frame: "\<And>y. y \<notin> set (dq_heap q) \<Longrightarrow> dq_idx q' y = dq_idx q y"
  shows "dq_inv q'" and "set (dq_heap q') = set (dq_heap q) - {x}" and "x \<in> set (dq_heap q)"
proof -
  have d: "distinct (dq_heap q)" using inv by (simp add: dq_inv_def)
  have set: "set (dq_heap q) = insert x (set (dq_heap q'))"
    using arg_cong [OF m, of set_mset] by simp
  then show "x \<in> set (dq_heap q)" by simp
  have "mset (dq_heap q) = mset (x # dq_heap q')" unfolding m by simp
  then have "distinct (x # dq_heap q')" using d mset_eq_imp_distinct_iff by blast
  then have "x \<notin> set (dq_heap q')" by simp
  with set show s: "set (dq_heap q') = set (dq_heap q) - {x}" by blast
  show "dq_inv q'"
  proof (rule dq_invI [OF good])
    show "a < dq_next q'" if "a \<in> set (dq_heap q')" for a
      using that s dq_inv_heap [OF inv] dq_rest_eqD(1) [OF rest] by auto
    show "dq_idx q' a = -1" if "a < dq_next q'" "a \<notin> set (dq_heap q')" for a
      using that s ix frame [of a] dq_inv_index [OF inv, of a] dq_rest_eqD(1) [OF rest] by auto
    show "a < dq_next q' \<and> ai_ID (dt_addrInfo (dq_store q' a)) = p" if "dq_tasks q' p = Some a" for p a
      using that dq_inv_tasks [OF inv] dq_rest_eqD [OF rest] by auto
    show "finite (dom (dq_tasks q'))" using inv dq_rest_eqD(2) [OF rest] by (simp add: dq_inv_def)
  qed
qed

lemma popTaskImpl_empty: "dq_heap q = [] \<Longrightarrow> popTaskImpl q = (None, q)"
  by (simp add: popTaskImpl_def)

lemma popTaskImpl_some:
  assumes inv: "dq_inv q" and ne: "dq_heap q \<noteq> []"
  obtains a q' where "popTaskImpl q = (Some a, q')" "a = dq_heap q ! 0" "dq_inv q'"
    "mset (dq_heap q) = add_mset a (mset (dq_heap q'))"
    "set (dq_heap q') = set (dq_heap q) - {a}" "a \<in> set (dq_heap q)"
    "dq_rest q' = dq_rest q" "dq_key q' = dq_key q" "dq_idx q' a = -1"
    "\<And>b. b \<in> set (dq_heap q) \<Longrightarrow> dq_key q a \<le> dq_key q b"
proof -
  note P = dqh.Pop_correct [OF dq_inv_good [OF inv] ne]
  note T = dq_inv_take_out [OF inv P(2,3,5,6)]
  have "popTaskImpl q = (Some (dq_heap q ! 0), snd (heap_Pop dq_if q))"
    using ne P(1) by (simp add: popTaskImpl_def case_prod_beta)
  then show ?thesis by (rule that [OF _ refl T(1) [OF P(7)] P(3) T(2,3) [OF P(7)] P(5,4,6,8)])
qed

lemma popTaskImpl_SomeD:
  assumes "dq_inv q" "popTaskImpl q = (Some a, q')"
  shows "set (dq_heap q') = set (dq_heap q) - {a}" and "a \<in> set (dq_heap q)"
    and "dq_rest q' = dq_rest q"
proof -
  have ne: "dq_heap q \<noteq> []" using assms(2) by (auto simp: popTaskImpl_empty)
  obtain b r where P: "popTaskImpl q = (Some b, r)" "set (dq_heap r) = set (dq_heap q) - {b}"
    "b \<in> set (dq_heap q)" "dq_rest r = dq_rest q"
    by (rule popTaskImpl_some [OF assms(1) ne]) (rule that, assumption+)
  have "b = a" "r = q'" using P(1) assms(2) by simp_all
  with P(2-4) show "set (dq_heap q') = set (dq_heap q) - {a}" "a \<in> set (dq_heap q)"
    "dq_rest q' = dq_rest q" by simp_all
qed

lemma dq_inv_popTaskImpl: "dq_inv q \<Longrightarrow> dq_inv (snd (popTaskImpl q))"
  by (cases "dq_heap q = []") (simp add: popTaskImpl_empty, metis popTaskImpl_some snd_conv)

lemma dq_inv_untask: "dq_inv q \<Longrightarrow> dq_inv (q\<lparr>dq_tasks := (dq_tasks q)(p := None)\<rparr>)"
  by (auto simp: dq_inv_def dq_key_def heap_ok_def)

lemma DeleteTask_cases:
  assumes inv: "dq_inv q" and t: "dq_tasks q p = Some a"
  obtains q1 where "DeleteTask q p = q1\<lparr>dq_tasks := (dq_tasks q)(p := None)\<rparr>" "dq_inv q1"
    "set (dq_heap q1) = set (dq_heap q) - {a}" "dq_rest q1 = dq_rest q" "dq_key q1 = dq_key q"
proof (cases "dt_index (dq_store q a) \<ge> 0")
  case False
  have "a \<notin> set (dq_heap q)" using False dq_inv_pos [OF inv] by (auto simp: in_set_conv_nth)
  with False t inv show ?thesis by (intro that [of q]) (auto simp: DeleteTask_def)
next
  case True
  let ?i = "nat (dt_index (dq_store q a))"
  note I = dq_index_in_heap [OF inv conjunct1 [OF dq_inv_tasks [OF inv t]] True]
  note R = dqh.Remove_correct [OF dq_inv_good [OF inv] I(1), unfolded I(2)]
  note T = dq_inv_take_out [OF inv R(2,3,5,6)]
  have "DeleteTask q p = snd (heap_Remove dq_if q ?i)\<lparr>dq_tasks := (dq_tasks q)(p := None)\<rparr>"
    using t True dq_rest_eqD(2) [OF R(5)] by (simp add: DeleteTask_def Let_def)
  then show ?thesis by (rule that [OF _ T(1,2) [OF R(7)] R(5,4)])
qed

lemma dq_inv_DeleteTask:
  assumes "dq_inv q" shows "dq_inv (DeleteTask q p)"
proof (cases "dq_tasks q p")
  case (Some a)
  from DeleteTask_cases [OF assms Some] obtain q1 where
    "DeleteTask q p = q1\<lparr>dq_tasks := (dq_tasks q)(p := None)\<rparr>" "dq_inv q1" "dq_rest q1 = dq_rest q" by blast
  then show ?thesis using dq_inv_untask [of q1 p] dq_rest_eqD(2) [of q1 q] by simp
qed (use assms in \<open>simp add: DeleteTask_def\<close>)

text \<open>\<open>AddTask\<close> makes an object for the task and then pushes it.\<close>

definition add_entry :: "dial_queue \<Rightarrow> addr_info \<Rightarrow> u64 \<Rightarrow> dial_queue" where
  "add_entry q i p = q\<lparr>dq_store := (dq_store q)(dq_next q := \<lparr>dt_index = 0, dt_addrInfo = i, dt_priority = p\<rparr>),
     dq_next := Suc (dq_next q), dq_tasks := (dq_tasks q)(ai_ID i \<mapsto> dq_next q)\<rparr>"

lemma AddTask_eq: "AddTask q i p = heap_Push dq_if (add_entry q i p) (dq_next q)"
  by (simp add: AddTask_def add_entry_def Let_def)

lemma add_entry_simps:
  "dq_heap (add_entry q i p) = dq_heap q" "dq_key (add_entry q i p) = (dq_key q)(dq_next q := p)"
  "a \<noteq> dq_next q \<Longrightarrow> dq_idx (add_entry q i p) a = dq_idx q a"
  by (auto simp: add_entry_def dq_key_def dq_idx_def)

lemma add_entry_good:
  assumes inv: "dq_inv q"
  shows "dqh.good (add_entry q i p)" and "dq_next q \<notin> set (dq_heap q)"
proof -
  show new: "dq_next q \<notin> set (dq_heap q)" using dq_inv_heap [OF inv] by auto
  have same: "((dq_key q)(dq_next q := p)) (dq_heap q ! j) = dq_key q (dq_heap q ! j)" if "j < length (dq_heap q)" for j
    using new nth_mem [OF that] by (metis fun_upd_other)
  have "heap_ok (dq_key q) (dq_heap q) (length (dq_heap q))" using inv by (simp add: dq_inv_def)
  then have "heap_ok ((dq_key q)(dq_next q := p)) (dq_heap q) (length (dq_heap q))"
    unfolding heap_ok_def by (metis same parent_less order.strict_trans)
  then show "dqh.good (add_entry q i p)"
    using dq_inv_good [OF inv] new by (auto simp: dqh.good_def dqh.coherent_def add_entry_simps(1,2)) (metis nth_mem add_entry_simps(3))
qed

lemma AddTask_result:
  assumes inv: "dq_inv q"
  shows "dq_inv (AddTask q i p)"
    and "mset (dq_heap (AddTask q i p)) = add_mset (dq_next q) (mset (dq_heap q))"
    and "dq_next (AddTask q i p) = Suc (dq_next q)"
    and "dq_tasks (AddTask q i p) = (dq_tasks q)(ai_ID i \<mapsto> dq_next q)"
    and "dq_closed (AddTask q i p) = dq_closed q"
    and "dq_key (AddTask q i p) = (dq_key q)(dq_next q := p)"
    and "dt_addrInfo (dq_store (AddTask q i p) a) = (if a = dq_next q then i else dt_addrInfo (dq_store q a))"
proof -
  note P = dqh.Push_correct [OF add_entry_good(1) [OF inv, of i p] add_entry_good(2) [OF inv, folded add_entry_simps(1) [of q i p]], folded AddTask_eq, unfolded add_entry_simps(1,2)]
  have rest: "dq_next (AddTask q i p) = Suc (dq_next q)"
    "dq_tasks (AddTask q i p) = (dq_tasks q)(ai_ID i \<mapsto> dq_next q)"
    "dq_closed (AddTask q i p) = dq_closed q"
    "dt_addrInfo (dq_store (AddTask q i p) b) = (if b = dq_next q then i else dt_addrInfo (dq_store q b))" for b
    using dq_rest_eqD(1-3) [OF P(4)] dq_rest_eqD(4) [OF P(4), of b] by (simp_all add: add_entry_def)
  show "dq_next (AddTask q i p) = Suc (dq_next q)"
    "dq_tasks (AddTask q i p) = (dq_tasks q)(ai_ID i \<mapsto> dq_next q)"
    "dq_closed (AddTask q i p) = dq_closed q"
    "dt_addrInfo (dq_store (AddTask q i p) a) = (if a = dq_next q then i else dt_addrInfo (dq_store q a))"
    by (fact rest)+
  show m: "mset (dq_heap (AddTask q i p)) = add_mset (dq_next q) (mset (dq_heap q))" using P(2) by simp
  then have set: "set (dq_heap (AddTask q i p)) = insert (dq_next q) (set (dq_heap q))"
    by (metis set_mset_add_mset_insert set_mset_mset)
  show "dq_key (AddTask q i p) = (dq_key q)(dq_next q := p)" by (fact P(3))
  show "dq_inv (AddTask q i p)"
  proof (rule dq_invI [OF P(1)])
    show "a < dq_next (AddTask q i p)" if "a \<in> set (dq_heap (AddTask q i p))" for a
      using that dq_inv_heap [OF inv, of a] unfolding set rest by auto
    show "dq_idx (AddTask q i p) a = -1" if "a < dq_next (AddTask q i p)" "a \<notin> set (dq_heap (AddTask q i p))" for a
      using that P(5) [of a] add_entry_simps(3) [of a q i p] dq_inv_index [OF inv, of a] unfolding set rest by auto
    show "a < dq_next (AddTask q i p) \<and> ai_ID (dt_addrInfo (dq_store (AddTask q i p) a)) = x"
      if "dq_tasks (AddTask q i p) x = Some a" for x a
      using that dq_inv_tasks [OF inv, of x a] unfolding rest by (auto split: if_splits)
    show "finite (dom (dq_tasks (AddTask q i p)))" using inv unfolding rest by (simp add: dq_inv_def)
  qed
qed

section \<open>Sequences of operations\<close>

datatype dq_op = OpAdd addr_info u64 | OpPop | OpDelete peer_id

fun dq_exec :: "dq_op \<Rightarrow> dial_queue \<Rightarrow> dial_queue" where
  "dq_exec (OpAdd i p) q = AddTask q i p"
| "dq_exec OpPop q = snd (popTaskImpl q)"
| "dq_exec (OpDelete p) q = DeleteTask q p"

fun dq_run :: "dq_op list \<Rightarrow> dial_queue \<Rightarrow> dial_queue" where
  "dq_run [] q = q"
| "dq_run (c # cs) q = dq_run cs (dq_exec c q)"

lemma dq_inv_exec: "dq_inv q \<Longrightarrow> dq_inv (dq_exec c q)"
  by (cases c) (simp_all add: AddTask_result(1) dq_inv_popTaskImpl dq_inv_DeleteTask)

lemma dq_inv_run: "dq_inv q \<Longrightarrow> dq_inv (dq_run cs q)"
  by (induction cs q rule: dq_run.induct) (simp_all add: dq_inv_exec)

section \<open>What the queue promises\<close>

text \<open>
  The abstract queue: the tasks still waiting (address, peer information, priority) and the map
  from peers to tasks.  The slice, its order and the stored indices are implementation detail.
\<close>

record dq_spec =
  sp_waiting :: "nat \<rightharpoonup> addr_info \<times> u64"
  sp_tasks :: "peer_id \<rightharpoonup> nat"
  sp_next :: nat

definition dq_abs :: "dial_queue \<Rightarrow> dq_spec" where
  "dq_abs q = \<lparr>sp_waiting = (\<lambda>a. if a \<in> set (dq_heap q)
       then Some (dt_addrInfo (dq_store q a), dt_priority (dq_store q a)) else None),
     sp_tasks = dq_tasks q, sp_next = dq_next q\<rparr>"

definition spec_add :: "addr_info \<Rightarrow> u64 \<Rightarrow> dq_spec \<Rightarrow> dq_spec" where
  "spec_add i p s = \<lparr>sp_waiting = (sp_waiting s)(sp_next s \<mapsto> (i, p)),
     sp_tasks = (sp_tasks s)(ai_ID i \<mapsto> sp_next s), sp_next = Suc (sp_next s)\<rparr>"

definition spec_delete :: "peer_id \<Rightarrow> dq_spec \<Rightarrow> dq_spec" where
  "spec_delete p s = (case sp_tasks s p of None \<Rightarrow> s
     | Some a \<Rightarrow> s\<lparr>sp_waiting := (sp_waiting s)(a := None), sp_tasks := (sp_tasks s)(p := None)\<rparr>)"

text \<open>Taking a task: any waiting one with least priority value; nothing when nothing waits.\<close>

definition spec_pop :: "dq_spec \<Rightarrow> nat option \<Rightarrow> dq_spec \<Rightarrow> bool" where
  "spec_pop s r s' \<longleftrightarrow> (case r of
       None \<Rightarrow> sp_waiting s = Map.empty \<and> s' = s
     | Some a \<Rightarrow> (\<exists>i p. sp_waiting s a = Some (i, p) \<and>
         (\<forall>b j r. sp_waiting s b = Some (j, r) \<longrightarrow> p \<le> r)) \<and>
         s' = s\<lparr>sp_waiting := (sp_waiting s)(a := None)\<rparr>)"

lemma dq_abs_cong:
  assumes "set (dq_heap q') = S" "dq_rest q' = dq_rest q" "dq_key q' = dq_key q"
  shows "dq_abs q' = \<lparr>sp_waiting = (\<lambda>a. if a \<in> S
       then Some (dt_addrInfo (dq_store q a), dt_priority (dq_store q a)) else None),
     sp_tasks = dq_tasks q, sp_next = dq_next q\<rparr>"
  using assms dq_rest_eqD [OF assms(2)] fun_cong [OF assms(3)]
  by (auto simp: dq_abs_def dq_key_def fun_eq_iff)

lemma pop_refines: "dq_inv q \<Longrightarrow> spec_pop (dq_abs q) (fst (popTaskImpl q)) (dq_abs (snd (popTaskImpl q)))"
proof (cases "dq_heap q = []")
  case True
  then show ?thesis by (simp add: popTaskImpl_empty spec_pop_def dq_abs_def)
next
  case False
  assume "dq_inv q"
  from this False obtain a q' where P: "popTaskImpl q = (Some a, q')"
    "set (dq_heap q') = set (dq_heap q) - {a}" "a \<in> set (dq_heap q)" "dq_rest q' = dq_rest q"
    "dq_key q' = dq_key q" "\<And>b. b \<in> set (dq_heap q) \<Longrightarrow> dq_key q a \<le> dq_key q b"
    by (rule popTaskImpl_some) (rule that, assumption+)
  note A = dq_abs_cong [OF P(2,4,5)]
  show ?thesis
    unfolding P(1) fst_conv snd_conv A
    using P(3,6) by (auto simp: spec_pop_def dq_abs_def dq_key_def fun_eq_iff split: if_splits)
qed

lemma delete_refines: "dq_inv q \<Longrightarrow> dq_abs (DeleteTask q p) = spec_delete p (dq_abs q)"
proof (cases "dq_tasks q p")
  case None
  then show ?thesis by (simp add: DeleteTask_def spec_delete_def dq_abs_def)
next
  case (Some a)
  assume "dq_inv q"
  from this Some obtain q1 where D: "DeleteTask q p = q1\<lparr>dq_tasks := (dq_tasks q)(p := None)\<rparr>"
    "set (dq_heap q1) = set (dq_heap q) - {a}" "dq_rest q1 = dq_rest q" "dq_key q1 = dq_key q"
    by (rule DeleteTask_cases) (rule that, assumption+)
  have "dq_abs (DeleteTask q p) = (dq_abs q1)\<lparr>sp_tasks := (dq_tasks q)(p := None)\<rparr>"
    by (simp add: D(1) dq_abs_def cong: if_cong)
  also have "\<dots> = spec_delete p (dq_abs q)"
    using Some by (simp add: dq_abs_cong [OF D(2-4)] spec_delete_def) (auto simp: dq_abs_def fun_eq_iff)
  finally show ?thesis .
qed

lemma set_AddTask: "dq_inv q \<Longrightarrow> set (dq_heap (AddTask q i p)) = insert (dq_next q) (set (dq_heap q))"
  using AddTask_result(2) [of q i p] by (metis set_mset_add_mset_insert set_mset_mset)

lemma add_refines: "dq_inv q \<Longrightarrow> dq_abs (AddTask q i p) = spec_add i p (dq_abs q)"
  using set_AddTask [of q i p] AddTask_result(3,4,7) [of q i p]
    fun_cong [OF AddTask_result(6) [of q i p]]
  by (auto simp: dq_abs_def spec_add_def fun_eq_iff dq_key_def split: if_splits)

text \<open>Emptying the queue by repeated pops, as \<open>runDial\<close> does while slots are free.\<close>

fun dq_drain :: "nat \<Rightarrow> dial_queue \<Rightarrow> nat list" where
  "dq_drain 0 q = []"
| "dq_drain (Suc n) q = (case popTaskImpl q of (None, _) \<Rightarrow> [] | (Some a, q') \<Rightarrow> a # dq_drain n q')"

lemma drain_correct:
  "dq_inv q \<Longrightarrow> length (dq_heap q) \<le> n \<Longrightarrow>
   mset (dq_drain n q) = mset (dq_heap q) \<and> sorted (map (dq_key q) (dq_drain n q))"
proof (induction n arbitrary: q)
  case (Suc n)
  show ?case
  proof (cases "dq_heap q = []")
    case True
    then show ?thesis by (simp add: popTaskImpl_empty)
  next
    case False
    with Suc.prems(1) obtain a q' where P: "popTaskImpl q = (Some a, q')" "dq_inv q'"
      "mset (dq_heap q) = add_mset a (mset (dq_heap q'))" "set (dq_heap q') = set (dq_heap q) - {a}"
      "dq_key q' = dq_key q" "\<And>b. b \<in> set (dq_heap q) \<Longrightarrow> dq_key q a \<le> dq_key q b"
      by (rule popTaskImpl_some) (rule that, assumption+)
    have "length (dq_heap q') \<le> n" using arg_cong [OF P(3), of size] Suc.prems(2) by simp
    with Suc.IH [OF P(2)] have IH: "mset (dq_drain n q') = mset (dq_heap q')"
      "sorted (map (dq_key q) (dq_drain n q'))" by (simp_all add: P(5))
    have "set (dq_drain n q') = set (dq_heap q')" using IH(1) by (metis set_mset_mset)
    then show ?thesis using IH P(3,4,6) by (simp add: P(1))
  qed
qed simp

section \<open>The blocking loop of PopTask\<close>

text \<open>
  One goroutine runs \<open>PopTask\<close> while others call \<open>AddTask\<close>, \<open>DeleteTask\<close> and \<open>Close\<close>.  \<open>updateCh\<close>
  is unbuffered and \<open>AddTask\<close> sends on it without blocking, so the send succeeds only when the
  loop is already parked in its \<open>select\<close>; \<open>PopGap\<close> is the time between an unsuccessful
  \<open>popTaskImpl\<close> and that moment.
\<close>

datatype pop_pc = PopCheck | PopGap | PopParked | PopReturned "nat option"

inductive pop_step :: "dial_queue \<times> pop_pc \<Rightarrow> dial_queue \<times> pop_pc \<Rightarrow> bool" where
  check_some: "popTaskImpl q = (Some a, q') \<Longrightarrow> pop_step (q, PopCheck) (q', PopReturned (Some a))"
| check_none: "popTaskImpl q = (None, q') \<Longrightarrow> pop_step (q, PopCheck) (q', PopGap)"
| park: "\<not> dq_closed q \<Longrightarrow> pop_step (q, PopGap) (q, PopParked)"
| gap_closed: "dq_closed q \<Longrightarrow> pop_step (q, PopGap) (q, PopReturned None)"
| add_signal: "pop_step (q, PopParked) (AddTask q i p, PopCheck)"
| add_dropped: "pc \<noteq> PopParked \<Longrightarrow> pop_step (q, pc) (AddTask q i p, pc)"
| delete: "pop_step (q, pc) (DeleteTask q x, pc)"
| close_parked: "Close_dq q = Inr q' \<Longrightarrow> pop_step (q, PopParked) (q', PopReturned None)"
| close_other: "Close_dq q = Inr q' \<Longrightarrow> pc \<noteq> PopParked \<Longrightarrow> pop_step (q, pc) (q', pc)"

inductive pop_reach :: "dial_queue \<times> pop_pc \<Rightarrow> bool" where
  start: "pop_reach (NewDialQueue, PopCheck)"
| step: "pop_reach s \<Longrightarrow> pop_step s s' \<Longrightarrow> pop_reach s'"
| again: "pop_reach (q, PopReturned (Some a)) \<Longrightarrow> pop_reach (q, PopCheck)"

inductive_cases pop_stepE: "pop_step (q, pc) s'"

lemma Close_dq_inv: "Close_dq q = Inr q' \<Longrightarrow> dq_inv q \<Longrightarrow> dq_inv q' \<and> dq_closed q'"
  by (auto simp: Close_dq_def dq_inv_def dq_key_def heap_ok_def split: if_splits)

definition pop_safe :: "dial_queue \<times> pop_pc \<Rightarrow> bool" where
  "pop_safe s \<longleftrightarrow> dq_inv (fst s) \<and> (snd s = PopReturned None \<longrightarrow> dq_closed (fst s)) \<and>
     (snd s = PopParked \<longrightarrow> \<not> dq_closed (fst s))"

lemma dq_closed_popTaskImpl: "dq_inv q \<Longrightarrow> popTaskImpl q = (r, q') \<Longrightarrow> dq_closed q' = dq_closed q"
proof (cases "dq_heap q = []")
  case False
  assume inv: "dq_inv q" and P: "popTaskImpl q = (r, q')"
  from inv False obtain a q1 where "popTaskImpl q = (Some a, q1)" "dq_rest q1 = dq_rest q"
    by (rule popTaskImpl_some) (rule that, assumption+)
  with P show ?thesis by (simp add: dq_rest_def)
qed (simp add: popTaskImpl_empty)

lemma dq_closed_DeleteTask: "dq_inv q \<Longrightarrow> dq_closed (DeleteTask q p) = dq_closed q"
proof (cases "dq_tasks q p")
  case (Some a)
  assume "dq_inv q"
  from this Some obtain q1 where "DeleteTask q p = q1\<lparr>dq_tasks := (dq_tasks q)(p := None)\<rparr>"
    "dq_rest q1 = dq_rest q"
    by (rule DeleteTask_cases) (rule that, assumption+)
  then show ?thesis by (simp add: dq_rest_def)
qed (simp add: DeleteTask_def)

lemma pop_safe_step: "pop_step s s' \<Longrightarrow> pop_safe s \<Longrightarrow> pop_safe s'"
  by (induction rule: pop_step.induct)
    (auto simp: pop_safe_def AddTask_result(1,5) dq_inv_DeleteTask dq_closed_DeleteTask
      dest: Close_dq_inv dq_closed_popTaskImpl dq_inv_popTaskImpl)

lemma pop_reach_safe: "pop_reach s \<Longrightarrow> pop_safe s"
proof (induction rule: pop_reach.induct)
  case start
  then show ?case by (simp add: pop_safe_def dq_inv_New)
next
  case (step s s')
  then show ?case by (blast intro: pop_safe_step)
next
  case (again q a)
  then show ?case by (simp add: pop_safe_def)
qed

section \<open>Properties\<close>

lemma dq_inv_run_New: "dq_inv (dq_run cs NewDialQueue)"
  by (simp add: dq_inv_run dq_inv_New)

text \<open>C1. Whatever sequence of \<open>AddTask\<close>, \<open>popTaskImpl\<close> and \<open>DeleteTask\<close> calls a fresh queue has
  served, its slice is a heap of distinct tasks whose stored indices are their positions, popped
  tasks have index \<open>-1\<close> and \<open>tasks\<close> maps each peer to a task of that peer.\<close>

theorem dial_queue_invariant: "dq_inv (dq_run cs NewDialQueue)"
  by (rule dq_inv_run_New)

text \<open>C2. On every queue that operations can build, the index-maintaining heap code implements the
  abstract queue: \<open>AddTask\<close> adds exactly one waiting task, \<open>DeleteTask\<close> removes exactly the task
  recorded for the peer (nothing when it was popped already), and a pop takes a waiting task of
  least priority value, or reports that nothing waits.\<close>

theorem dial_queue_refines:
  "q = dq_run cs NewDialQueue \<Longrightarrow>
     dq_abs (AddTask q i p) = spec_add i p (dq_abs q) \<and>
     dq_abs (DeleteTask q x) = spec_delete x (dq_abs q) \<and>
     spec_pop (dq_abs q) (fst (popTaskImpl q)) (dq_abs (snd (popTaskImpl q)))"
  using dq_inv_run_New [of cs] by (simp add: add_refines delete_refines pop_refines)

theorem dial_queue_refines_witness:
  "let q = dq_run [OpAdd \<lparr>ai_ID = ''a'', ai_Addrs = []\<rparr> 10, OpPop] NewDialQueue in
     dq_abs (DeleteTask q ''a'') = spec_delete ''a'' (dq_abs q)"
  unfolding Let_def using dial_queue_refines [OF refl] by blast

text \<open>Popping until the queue is empty hands out every waiting task exactly once, by
  non-decreasing priority value.\<close>

theorem dial_queue_drain_sorted:
  "let q = dq_run cs NewDialQueue; out = dq_drain (length (dq_heap q)) q in
     mset out = mset (dq_heap q) \<and> sorted (map (\<lambda>a. dt_priority (dq_store q a)) out)"
  using drain_correct [OF dq_inv_run_New order_refl] by (simp add: Let_def dq_key_def [abs_def])

text \<open>A peer that is added a second time before it is dialled leaves its first task behind:
  after \<open>DeleteTask\<close> the peer is not in \<open>tasks\<close>, yet a task for it still waits to be dialled.\<close>

theorem readded_peer_survives_delete:
  "let q0 = dq_run cs NewDialQueue;
       q = DeleteTask (AddTask (AddTask q0 i p) i p') (ai_ID i) in
     dq_tasks q (ai_ID i) = None \<and>
     dq_next q0 \<in> set (dq_heap q) \<and> dt_addrInfo (dq_store q (dq_next q0)) = i"
proof -
  define q0 where "q0 = dq_run cs NewDialQueue"
  define q1 where "q1 = AddTask q0 i p"
  define q2 where "q2 = AddTask q1 i p'"
  have inv: "dq_inv q0" "dq_inv q1" "dq_inv q2"
    using dq_inv_run_New [of cs] by (simp_all add: q0_def q1_def q2_def AddTask_result(1))
  have t: "dq_tasks q2 (ai_ID i) = Some (Suc (dq_next q0))"
    using inv by (simp add: q2_def q1_def AddTask_result(3,4))
  from inv(3) t obtain q' where D: "DeleteTask q2 (ai_ID i) = q'\<lparr>dq_tasks := (dq_tasks q2)(ai_ID i := None)\<rparr>"
    "set (dq_heap q') = set (dq_heap q2) - {Suc (dq_next q0)}" "dq_rest q' = dq_rest q2"
    by (rule DeleteTask_cases) (rule that, assumption+)
  have "dq_next q0 \<in> set (dq_heap q')"
    using inv unfolding D(2) by (simp add: q2_def q1_def set_AddTask AddTask_result(3))
  moreover have "dt_addrInfo (dq_store q2 (dq_next q0)) = i"
    using inv by (simp add: q2_def q1_def AddTask_result(3,7))
  ultimately show ?thesis
    using dq_rest_eqD(4) [OF D(3), of "dq_next q0"]
    by (simp add: Let_def D(1) flip: q0_def q1_def q2_def)
qed

lemma pop_step_returned:
  "pop_step s s' \<Longrightarrow> pop_safe s \<Longrightarrow> snd s' = PopReturned (Some a) \<Longrightarrow>
   (snd s = PopReturned (Some a) \<longrightarrow> a < dq_next (fst s) \<and> a \<notin> set (dq_heap (fst s))) \<Longrightarrow>
   a < dq_next (fst s') \<and> a \<notin> set (dq_heap (fst s'))"
proof (induction rule: pop_step.induct)
  case (check_some q b q')
  then have inv: "dq_inv q" and ba: "b = a" by (simp_all add: pop_safe_def)
  note P = popTaskImpl_SomeD [OF inv check_some.hyps, unfolded ba]
  show ?case using dq_inv_heap [OF inv P(2)] dq_rest_eqD(1) [OF P(3)] P(1) by simp
next
  case (add_dropped pc q i p)
  then show ?case using set_AddTask [of q i p] AddTask_result(3) [of q i p] by (auto simp: pop_safe_def)
next
  case (delete q pc x)
  then have inv: "dq_inv q" and a: "a < dq_next q" "a \<notin> set (dq_heap q)" by (simp_all add: pop_safe_def)
  show ?case
  proof (cases "dq_tasks q x")
    case (Some b)
    with inv obtain q1 where "DeleteTask q x = q1\<lparr>dq_tasks := (dq_tasks q)(x := None)\<rparr>"
      "set (dq_heap q1) = set (dq_heap q) - {b}" "dq_rest q1 = dq_rest q"
      by (rule DeleteTask_cases) (rule that, assumption+)
    then show ?thesis using a by (simp add: dq_rest_def)
  qed (use a in \<open>simp add: DeleteTask_def\<close>)
qed (auto simp: Close_dq_def split: if_splits)

lemma pop_reach_returned:
  "pop_reach s \<Longrightarrow> snd s = PopReturned (Some a) \<Longrightarrow> a < dq_next (fst s) \<and> a \<notin> set (dq_heap (fst s))"
proof (induction rule: pop_reach.induct)
  case (step s s')
  then show ?case using pop_step_returned pop_reach_safe by blast
qed simp_all

text \<open>\<open>PopTask\<close> returns nil only when the queue was closed, and a task it returns had been
  popped: it is no longer in the slice and carries index \<open>-1\<close>.\<close>

theorem PopTask_result:
  assumes "pop_reach (q, PopReturned r)"
  shows "case r of None \<Rightarrow> dq_closed q
    | Some a \<Rightarrow> a \<notin> set (dq_heap q) \<and> dt_index (dq_store q a) = -1"
  using pop_reach_safe [OF assms] pop_reach_returned [OF assms]
  by (cases r) (auto simp: pop_safe_def dq_inv_def)

theorem PopTask_result_witness:
  "let q = snd (popTaskImpl (AddTask NewDialQueue \<lparr>ai_ID = ''a'', ai_Addrs = []\<rparr> 1)) in
     0 \<notin> set (dq_heap q) \<and> dt_index (dq_store q 0) = -1"
proof -
  let ?q = "AddTask NewDialQueue \<lparr>ai_ID = ''a'', ai_Addrs = []\<rparr> 1"
  have "mset (dq_heap ?q) = {#0#}"
    using AddTask_result(2) [OF dq_inv_New, of "\<lparr>ai_ID = ''a'', ai_Addrs = []\<rparr>" 1]
    by (simp add: NewDialQueue_def)
  then have h: "dq_heap ?q = [0]" by simp
  then have "popTaskImpl ?q = (Some 0, snd (popTaskImpl ?q))"
    using dqh.Pop_correct(1) [OF dq_inv_good [OF AddTask_result(1) [OF dq_inv_New]]]
    by (simp add: popTaskImpl_def case_prod_beta)
  note pop = this
  have "pop_reach (?q, PopCheck)" by (rule pop_reach.step [OF pop_reach.start]) (simp add: add_dropped)
  then have "pop_reach (snd (popTaskImpl ?q), PopReturned (Some 0))"
    by (rule pop_reach.step) (rule check_some [OF pop])
  from PopTask_result [OF this] show ?thesis by (simp add: Let_def)
qed

text \<open>C3. A wake-up can be lost: the popper can be parked on its channels while a task waits in the
  heap and the queue is open, because \<open>AddTask\<close> ran between its failed pop and its \<open>select\<close>.\<close>

theorem PopTask_lost_wakeup:
  "\<exists>q. pop_reach (q, PopParked) \<and> dq_heap q \<noteq> [] \<and> \<not> dq_closed q"
proof -
  let ?i = "\<lparr>ai_ID = ''a'', ai_Addrs = []\<rparr>"
  let ?q = "AddTask NewDialQueue ?i 1"
  have "pop_reach (NewDialQueue, PopGap)"
    by (rule pop_reach.step [OF pop_reach.start]) (simp add: check_none popTaskImpl_empty NewDialQueue_def)
  then have "pop_reach (?q, PopGap)" by (rule pop_reach.step) (simp add: add_dropped)
  moreover have open_q: "\<not> dq_closed ?q" by (simp add: AddTask_result(5) [OF dq_inv_New]) (simp add: NewDialQueue_def)
  ultimately have "pop_reach (?q, PopParked)" by (rule pop_reach.step [OF _ park])
  moreover have "dq_heap ?q \<noteq> []" using set_AddTask [OF dq_inv_New, of ?i 1] by auto
  ultimately show ?thesis using open_q by blast
qed

end
