(* ===== verification/Connections.thy ===== *)
theory Connections
  imports EMC_Prelude
begin

text \<open>
  The passive parts of the networking server: the connection counters and their limits
  (\<open>core/network/connections.go\<close>), the bootnode table (\<open>bootnodes.go\<close>), the configuration
  (\<open>config.go\<close>), peer events (\<open>event/peer_event.go\<close>) and the dial priorities of
  \<open>common/common.go\<close>.  Counters are Go \<open>int64\<close>: 64-bit words that wrap and are compared as
  signed numbers.
\<close>

section \<open>Connection counters\<close>

record conn_info =
  inboundConnectionCount :: int64
  outboundConnectionCount :: int64
  pendingInboundConnectionCount :: int64
  pendingOutboundConnectionCount :: int64
  maxInboundConnectionCount :: int64
  maxOutboundConnectionCount :: int64

definition NewBlankConnectionInfo :: "int64 \<Rightarrow> int64 \<Rightarrow> conn_info" where
  "NewBlankConnectionInfo maxIn maxOut =
     \<lparr>inboundConnectionCount = 0, outboundConnectionCount = 0,
      pendingInboundConnectionCount = 0, pendingOutboundConnectionCount = 0,
      maxInboundConnectionCount = maxIn, maxOutboundConnectionCount = maxOut\<rparr>"

definition GetInboundConnCount :: "conn_info \<Rightarrow> int64" where
  "GetInboundConnCount ci = inboundConnectionCount ci"

definition GetOutboundConnCount :: "conn_info \<Rightarrow> int64" where
  "GetOutboundConnCount ci = outboundConnectionCount ci"

definition GetPendingInboundConnCount :: "conn_info \<Rightarrow> int64" where
  "GetPendingInboundConnCount ci = pendingInboundConnectionCount ci"

definition GetPendingOutboundConnCount :: "conn_info \<Rightarrow> int64" where
  "GetPendingOutboundConnCount ci = pendingOutboundConnectionCount ci"

definition incInboundConnCount :: "int64 \<Rightarrow> conn_info \<Rightarrow> conn_info" where
  "incInboundConnCount delta ci = ci\<lparr>inboundConnectionCount := inboundConnectionCount ci + delta\<rparr>"

definition incPendingInboundConnCount :: "int64 \<Rightarrow> conn_info \<Rightarrow> conn_info" where
  "incPendingInboundConnCount delta ci =
     ci\<lparr>pendingInboundConnectionCount := pendingInboundConnectionCount ci + delta\<rparr>"

definition incPendingOutboundConnCount :: "int64 \<Rightarrow> conn_info \<Rightarrow> conn_info" where
  "incPendingOutboundConnCount delta ci =
     ci\<lparr>pendingOutboundConnectionCount := pendingOutboundConnectionCount ci + delta\<rparr>"

definition incOutboundConnCount :: "int64 \<Rightarrow> conn_info \<Rightarrow> conn_info" where
  "incOutboundConnCount delta ci = ci\<lparr>outboundConnectionCount := outboundConnectionCount ci + delta\<rparr>"

definition maxOutboundConnCount :: "conn_info \<Rightarrow> int64" where
  "maxOutboundConnCount ci = maxOutboundConnectionCount ci"

definition maxInboundConnCount :: "conn_info \<Rightarrow> int64" where
  "maxInboundConnCount ci = maxInboundConnectionCount ci"

definition HasFreeOutboundConn :: "conn_info \<Rightarrow> bool" where
  "HasFreeOutboundConn ci \<longleftrightarrow>
     GetOutboundConnCount ci + GetPendingOutboundConnCount ci <s maxOutboundConnCount ci"

definition HasFreeInboundConn :: "conn_info \<Rightarrow> bool" where
  "HasFreeInboundConn ci \<longleftrightarrow>
     GetInboundConnCount ci + GetPendingInboundConnCount ci <s maxInboundConnCount ci"

definition UpdateConnCountByDirection :: "int64 \<Rightarrow> direction \<Rightarrow> conn_info \<Rightarrow> conn_info" where
  "UpdateConnCountByDirection delta d ci =
     (case d of DirInbound \<Rightarrow> incInboundConnCount delta ci
      | DirOutbound \<Rightarrow> incOutboundConnCount delta ci
      | DirUnknown \<Rightarrow> ci)"

definition UpdatePendingConnCountByDirection :: "int64 \<Rightarrow> direction \<Rightarrow> conn_info \<Rightarrow> conn_info" where
  "UpdatePendingConnCountByDirection delta d ci =
     (case d of DirInbound \<Rightarrow> incPendingInboundConnCount delta ci
      | DirOutbound \<Rightarrow> incPendingOutboundConnCount delta ci
      | DirUnknown \<Rightarrow> ci)"

definition ci_HasFreeConnectionSlot :: "direction \<Rightarrow> conn_info \<Rightarrow> bool" where
  "ci_HasFreeConnectionSlot d ci =
     (case d of DirInbound \<Rightarrow> HasFreeInboundConn ci
      | DirOutbound \<Rightarrow> HasFreeOutboundConn ci
      | DirUnknown \<Rightarrow> False)"

section \<open>Bootnodes\<close>

record bootnodes_wrapper =
  bootnodeArr :: "addr_info list"
  bootnodesMap :: "peer_id \<rightharpoonup> addr_info"
  bootnodeConnCount :: int64

definition isBootnode :: "bootnodes_wrapper \<Rightarrow> peer_id \<Rightarrow> bool" where
  "isBootnode bw p \<longleftrightarrow> bootnodesMap bw p \<noteq> None"

definition getBootnodeConnCount :: "bootnodes_wrapper \<Rightarrow> int64" where
  "getBootnodeConnCount bw = bootnodeConnCount bw"

definition increaseBootnodeConnCount :: "int64 \<Rightarrow> bootnodes_wrapper \<Rightarrow> bootnodes_wrapper" where
  "increaseBootnodeConnCount delta bw = bw\<lparr>bootnodeConnCount := bootnodeConnCount bw + delta\<rparr>"

definition getBootnodes :: "bootnodes_wrapper \<Rightarrow> addr_info list" where
  "getBootnodes bw = bootnodeArr bw"

definition getBootnodeCount :: "bootnodes_wrapper \<Rightarrow> nat" where
  "getBootnodeCount bw = length (bootnodeArr bw)"

definition hasBootnodes :: "bootnodes_wrapper \<Rightarrow> bool" where
  "hasBootnodes bw \<longleftrightarrow> getBootnodeCount bw > 0"

section \<open>Configuration, events and priorities\<close>

record tcp_addr =
  tcp_IP :: string
  tcp_Port :: int

definition DefaultLibp2pPort :: int where "DefaultLibp2pPort = 50003"
definition DefaultEdgeLibp2pPort :: int where "DefaultEdgeLibp2pPort = 50001"
definition DefaultRelayLibp2pPort :: int where "DefaultRelayLibp2pPort = 50004"
definition MinimumBootNodes :: nat where "MinimumBootNodes = 1"
definition MinimumPeerConnections :: int64 where "MinimumPeerConnections = 1"

record net_config =
  cfg_NetworkID :: int64
  cfg_NoDiscover :: bool
  cfg_Addr :: tcp_addr
  cfg_NatAddr :: "string option"
  cfg_DNS :: "multiaddr option"
  cfg_DataDir :: string
  cfg_MaxPeers :: int64
  cfg_MaxInboundPeers :: int64
  cfg_MaxOutboundPeers :: int64

definition DefaultConfig :: net_config where
  "DefaultConfig = \<lparr>cfg_NetworkID = 0, cfg_NoDiscover = False,
     cfg_Addr = \<lparr>tcp_IP = ''127.0.0.1'', tcp_Port = DefaultLibp2pPort\<rparr>,
     cfg_NatAddr = None, cfg_DNS = None, cfg_DataDir = '''',
     cfg_MaxPeers = 40, cfg_MaxInboundPeers = 32, cfg_MaxOutboundPeers = 8\<rparr>"

type_synonym peer_event_type = u64

definition PeerConnected :: peer_event_type where "PeerConnected = 0"
definition PeerFailedToConnect :: peer_event_type where "PeerFailedToConnect = 1"
definition PeerDisconnected :: peer_event_type where "PeerDisconnected = 2"
definition PeerDialCompleted :: peer_event_type where "PeerDialCompleted = 3"
definition PeerAddedToDialQueue :: peer_event_type where "PeerAddedToDialQueue = 4"

lemmas peer_event_types = PeerConnected_def PeerFailedToConnect_def PeerDisconnected_def
  PeerDialCompleted_def PeerAddedToDialQueue_def

definition peerEventToName :: "peer_event_type \<rightharpoonup> string" where
  "peerEventToName = [PeerConnected \<mapsto> ''PeerConnected'', PeerFailedToConnect \<mapsto> ''PeerFailedToConnect'',
     PeerDisconnected \<mapsto> ''PeerDisconnected'', PeerDialCompleted \<mapsto> ''PeerDialCompleted'',
     PeerAddedToDialQueue \<mapsto> ''PeerAddedToDialQueue'']"

record peer_event =
  ev_PeerID :: peer_id
  ev_Type :: peer_event_type

definition event_String :: "peer_event_type \<Rightarrow> string" where
  "event_String s = (case peerEventToName s of Some name \<Rightarrow> name | None \<Rightarrow> ''unknown'')"

definition PriorityRequestedDial :: u64 where "PriorityRequestedDial = 1"
definition PriorityRandomDial :: u64 where "PriorityRandomDial = 10"

section \<open>Counters by direction\<close>

text \<open>\<open>active_count\<close> and \<open>pending_count\<close> read the counter a direction selects, so that the updates
  have one law for all directions.\<close>

definition active_count :: "conn_info \<Rightarrow> direction \<Rightarrow> int64" where
  "active_count ci d = (case d of DirInbound \<Rightarrow> inboundConnectionCount ci
     | DirOutbound \<Rightarrow> outboundConnectionCount ci | DirUnknown \<Rightarrow> 0)"

definition pending_count :: "conn_info \<Rightarrow> direction \<Rightarrow> int64" where
  "pending_count ci d = (case d of DirInbound \<Rightarrow> pendingInboundConnectionCount ci
     | DirOutbound \<Rightarrow> pendingOutboundConnectionCount ci | DirUnknown \<Rightarrow> 0)"

definition max_count :: "conn_info \<Rightarrow> direction \<Rightarrow> int64" where
  "max_count ci d = (case d of DirInbound \<Rightarrow> maxInboundConnectionCount ci
     | DirOutbound \<Rightarrow> maxOutboundConnectionCount ci | DirUnknown \<Rightarrow> 0)"

lemmas conn_defs = UpdateConnCountByDirection_def UpdatePendingConnCountByDirection_def
  incInboundConnCount_def incOutboundConnCount_def incPendingInboundConnCount_def
  incPendingOutboundConnCount_def active_count_def pending_count_def max_count_def

lemma active_count_update [simp]:
  "active_count (UpdateConnCountByDirection delta d ci) e =
     (if e = d \<and> d \<noteq> DirUnknown then active_count ci e + delta else active_count ci e)"
  "pending_count (UpdateConnCountByDirection delta d ci) e = pending_count ci e"
  "max_count (UpdateConnCountByDirection delta d ci) e = max_count ci e"
  by (cases d; cases e; simp add: conn_defs)+

lemma pending_count_update [simp]:
  "pending_count (UpdatePendingConnCountByDirection delta d ci) e =
     (if e = d \<and> d \<noteq> DirUnknown then pending_count ci e + delta else pending_count ci e)"
  "active_count (UpdatePendingConnCountByDirection delta d ci) e = active_count ci e"
  "max_count (UpdatePendingConnCountByDirection delta d ci) e = max_count ci e"
  by (cases d; cases e; simp add: conn_defs)+

lemma active_count_New [simp]: "active_count (NewBlankConnectionInfo i j) d = 0"
  "pending_count (NewBlankConnectionInfo i j) d = 0"
  by (cases d; simp add: conn_defs NewBlankConnectionInfo_def)+

lemma HasFreeConnectionSlot_alt:
  "ci_HasFreeConnectionSlot d ci \<longleftrightarrow>
     d \<noteq> DirUnknown \<and> active_count ci d + pending_count ci d <s max_count ci d"
  by (cases d) (simp_all add: ci_HasFreeConnectionSlot_def HasFreeInboundConn_def
      HasFreeOutboundConn_def GetInboundConnCount_def GetOutboundConnCount_def
      GetPendingInboundConnCount_def GetPendingOutboundConnCount_def maxInboundConnCount_def
      maxOutboundConnCount_def conn_defs)

text \<open>The signed comparison of the counters, as long as the numbers they stand for are small.\<close>

lemma sint_of_nat_small: "n < 2 ^ 63 \<Longrightarrow> sint (of_nat n :: int64) = int n"
  by (simp add: signed_of_nat signed_take_bit_int_eq_self)

lemma slot_free_nat:
  assumes "a + b < 2 ^ 63" "0 \<le> sint (m :: int64)"
  shows "of_nat a + of_nat b <s m \<longleftrightarrow> a + b < nat (sint m)"
proof -
  have "sint (of_nat (a + b) :: int64) = int (a + b)" using assms(1) by (rule sint_of_nat_small)
  then show ?thesis using assms(2) by (simp add: word_sless_alt zless_nat_eq_int_zless)
qed

end
