(* ===== verification/Identity.thy ===== *)
theory Identity
  imports Connections
begin

text \<open>
  The identity service (\<open>core/network/identity/identity.go\<close>), the gatekeeper of peer connectivity:
  it reserves a connection slot when a connection opens, performs the handshake in a goroutine and
  releases the reservation afterwards.  Its \<open>networkingServer\<close> interface is the record
  \<open>id_server\<close> over an abstract server state; \<open>slot_server\<close> states the laws the service relies on.
  The system of the service and its goroutines is the step relation \<open>id_step\<close>.
\<close>

section \<open>Interface and data\<close>

record id_status =
  st_Metadata :: "string \<rightharpoonup> string"
  st_Network :: int64
  st_TemporaryDial :: bool

text \<open>The first two fields are libp2p's text form of a peer ID; \<open>is_Hello\<close> is the remote call on a
  client connection.\<close>

record 's id_server =
  is_PeerString :: "peer_id \<Rightarrow> string"
  is_PeerDecode :: "string \<Rightarrow> go_err + peer_id"
  is_Hello :: "'s \<Rightarrow> nat \<Rightarrow> id_status \<Rightarrow> (go_err + id_status) \<times> 's"
  is_NewIdentityClient :: "'s \<Rightarrow> peer_id \<Rightarrow> (go_err + nat) \<times> 's"
  is_DisconnectFromPeer :: "'s \<Rightarrow> peer_id \<Rightarrow> string \<Rightarrow> 's"
  is_AddPeer :: "'s \<Rightarrow> peer_id \<Rightarrow> direction \<Rightarrow> 's"
  is_UpdatePendingConnCount :: "'s \<Rightarrow> int64 \<Rightarrow> direction \<Rightarrow> 's"
  is_EmitEvent :: "'s \<Rightarrow> peer_event \<Rightarrow> 's"
  is_IsTemporaryDial :: "'s \<Rightarrow> peer_id \<Rightarrow> bool"
  is_HasFreeConnectionSlot :: "'s \<Rightarrow> direction \<Rightarrow> bool"

record identity_service =
  id_pending :: "peer_id \<rightharpoonup> direction"
  id_networkID :: int64
  id_hostID :: peer_id

definition NewIdentityService :: "int64 \<Rightarrow> peer_id \<Rightarrow> identity_service" where
  "NewIdentityService networkID hostID =
     \<lparr>id_pending = Map.empty, id_networkID = networkID, id_hostID = hostID\<rparr>"

definition ErrInvalidNetworkID :: go_err where "ErrInvalidNetworkID = GoErr ''invalid network ID''"
definition ErrNoAvailableSlots :: go_err where "ErrNoAvailableSlots = GoErr ''no available Slots''"

fun err_String :: "go_err \<Rightarrow> string" where
  "err_String (GoErr m) = m"
| "err_String (GoWrap m e) = m @ err_String e"
| "err_String (GoPanic m) = m"

declare err_String.simps [simp del]

section \<open>Operations\<close>

definition hasPendingStatus :: "identity_service \<Rightarrow> peer_id \<Rightarrow> bool" where
  "hasPendingStatus i p \<longleftrightarrow> id_pending i p \<noteq> None"

definition removePendingStatus :: "'s id_server \<Rightarrow> identity_service \<Rightarrow> 's \<Rightarrow> peer_id \<Rightarrow> identity_service \<times> 's" where
  "removePendingStatus I i s p =
     (case id_pending i p of
        None \<Rightarrow> (i, s)
      | Some d \<Rightarrow> (i\<lparr>id_pending := (id_pending i)(p := None)\<rparr>, is_UpdatePendingConnCount I s (-1) d))"

definition addPendingStatus ::
    "'s id_server \<Rightarrow> identity_service \<Rightarrow> 's \<Rightarrow> peer_id \<Rightarrow> direction \<Rightarrow> identity_service \<times> 's" where
  "addPendingStatus I i s p d =
     (case id_pending i p of
        None \<Rightarrow> (i\<lparr>id_pending := (id_pending i)(p \<mapsto> d)\<rparr>, is_UpdatePendingConnCount I s 1 d)
      | Some _ \<Rightarrow> (i, s))"

definition constructStatus :: "'s id_server \<Rightarrow> identity_service \<Rightarrow> 's \<Rightarrow> peer_id \<Rightarrow> id_status" where
  "constructStatus I i s p =
     \<lparr>st_Metadata = [''peerID'' \<mapsto> is_PeerString I (id_hostID i)],
      st_Network = id_networkID i,
      st_TemporaryDial = is_IsTemporaryDial I s p\<rparr>"

definition Hello :: "'s id_server \<Rightarrow> identity_service \<Rightarrow> 's \<Rightarrow> id_status \<Rightarrow> go_err + id_status" where
  "Hello I i s req =
     (let raw = (case st_Metadata req ''peerID'' of Some v \<Rightarrow> v | None \<Rightarrow> '''') in
      case is_PeerDecode I raw of
        Inl e \<Rightarrow> Inl e
      | Inr p \<Rightarrow> Inr (constructStatus I i s p))"

definition handleConnected ::
    "'s id_server \<Rightarrow> identity_service \<Rightarrow> 's \<Rightarrow> peer_id \<Rightarrow> direction \<Rightarrow> go_err option \<times> 's" where
  "handleConnected I i s p d =
     (case is_NewIdentityClient I s p of
        (Inl e, s1) \<Rightarrow> (Some (GoWrap ''unable to create new identity client connection, '' e), s1)
      | (Inr clt, s1) \<Rightarrow>
          (let status = constructStatus I i s1 p in
           case is_Hello I s1 clt status of
             (Inl e, s2) \<Rightarrow> (Some e, s2)
           | (Inr resp, s2) \<Rightarrow>
               if st_Network status \<noteq> st_Network resp then (Some ErrInvalidNetworkID, s2)
               else if \<not> st_TemporaryDial resp \<and> \<not> st_TemporaryDial status
                 then (None, is_AddPeer I s2 p d)
               else (None, s2)))"

text \<open>\<open>GetNotifyBundle\<close>: the synchronous part of \<open>ConnectedF\<close> (the flag tells whether the handshake
  goroutine starts), what the goroutine does with the result of the handshake, and its end.\<close>

datatype conn_decision = AlreadyPending | NoSlot | StartHandshake

definition connected_check :: "'s id_server \<Rightarrow> identity_service \<Rightarrow> 's \<Rightarrow> peer_id \<Rightarrow> direction \<Rightarrow> conn_decision" where
  "connected_check I i s p d =
     (if hasPendingStatus i p then AlreadyPending
      else if \<not> is_HasFreeConnectionSlot I s d then NoSlot
      else StartHandshake)"

definition ConnectedF ::
    "'s id_server \<Rightarrow> identity_service \<Rightarrow> 's \<Rightarrow> peer_id \<Rightarrow> direction \<Rightarrow> bool \<times> identity_service \<times> 's" where
  "ConnectedF I i s p d =
     (case connected_check I i s p d of
        AlreadyPending \<Rightarrow> (False, i, s)
      | NoSlot \<Rightarrow> (False, i, is_DisconnectFromPeer I s p (err_String ErrNoAvailableSlots))
      | StartHandshake \<Rightarrow> (True, addPendingStatus I i s p d))"

definition handshake_result ::
    "'s id_server \<Rightarrow> identity_service \<Rightarrow> 's \<Rightarrow> peer_id \<Rightarrow> direction \<Rightarrow> peer_event_type \<times> 's" where
  "handshake_result I i s p d =
     (case handleConnected I i s p d of
        (Some e, s1) \<Rightarrow> (PeerFailedToConnect, is_DisconnectFromPeer I s1 p (err_String e))
      | (None, s1) \<Rightarrow> (PeerDialCompleted, s1))"

definition handshake_end ::
    "'s id_server \<Rightarrow> identity_service \<Rightarrow> 's \<Rightarrow> peer_id \<Rightarrow> peer_event_type \<Rightarrow> identity_service \<times> 's" where
  "handshake_end I i s p ev =
     (let (i1, s1) = removePendingStatus I i s p
      in (i1, is_EmitEvent I s1 \<lparr>ev_PeerID = p, ev_Type = ev\<rparr>))"

section \<open>The service, its goroutines and the rest of the server\<close>

text \<open>
  \<open>sy_running\<close> are goroutines that have not finished the handshake, \<open>sy_ending\<close> those that have
  its result but have not released the reservation.  \<open>env\<close> is whatever else happens to the server:
  disconnections, dials, discovery.
\<close>

record 's id_sys =
  sy_srv :: 's
  sy_id :: identity_service
  sy_running :: "(peer_id \<times> direction) list"
  sy_ending :: "(peer_id \<times> peer_event_type) list"

inductive id_step :: "'s id_server \<Rightarrow> ('s \<Rightarrow> 's \<Rightarrow> bool) \<Rightarrow> 's id_sys \<Rightarrow> 's id_sys \<Rightarrow> bool"
  for I :: "'s id_server" and env :: "'s \<Rightarrow> 's \<Rightarrow> bool" where
  connected: "ConnectedF I i s p d = (started, i', s') \<Longrightarrow>
    id_step I env \<lparr>sy_srv = s, sy_id = i, sy_running = rs, sy_ending = es\<rparr>
      \<lparr>sy_srv = s', sy_id = i', sy_running = (if started then (p, d) # rs else rs), sy_ending = es\<rparr>"
| handled: "handshake_result I i s p d = (ev, s') \<Longrightarrow>
    id_step I env \<lparr>sy_srv = s, sy_id = i, sy_running = rs @ (p, d) # rs', sy_ending = es\<rparr>
      \<lparr>sy_srv = s', sy_id = i, sy_running = rs @ rs', sy_ending = (p, ev) # es\<rparr>"
| ended: "handshake_end I i s p ev = (i', s') \<Longrightarrow>
    id_step I env \<lparr>sy_srv = s, sy_id = i, sy_running = rs, sy_ending = es @ (p, ev) # es'\<rparr>
      \<lparr>sy_srv = s', sy_id = i', sy_running = rs, sy_ending = es @ es'\<rparr>"
| environment: "env s s' \<Longrightarrow>
    id_step I env \<lparr>sy_srv = s, sy_id = i, sy_running = rs, sy_ending = es\<rparr>
      \<lparr>sy_srv = s', sy_id = i, sy_running = rs, sy_ending = es\<rparr>"

section \<open>What the service relies on\<close>

locale slot_server =
  fixes I :: "'s id_server"
    and env :: "'s \<Rightarrow> 's \<Rightarrow> bool"
    and ok :: "'s \<Rightarrow> bool"
    and act :: "'s \<Rightarrow> direction \<Rightarrow> peer_id set"
    and pendc :: "'s \<Rightarrow> direction \<Rightarrow> int64"
    and lim :: "'s \<Rightarrow> direction \<Rightarrow> int64"
  assumes finite_act: "ok s \<Longrightarrow> finite (act s d)"
    and law_free: "ok s \<Longrightarrow> is_HasFreeConnectionSlot I s d \<longleftrightarrow>
      d \<noteq> DirUnknown \<and> of_nat (card (act s d)) + pendc s d <s lim s d"
    and law_add: "ok s \<Longrightarrow> ok (is_AddPeer I s p d)"
      "ok s \<Longrightarrow> act (is_AddPeer I s p d) e = (if e = d then insert p (act s e) else act s e)"
      "ok s \<Longrightarrow> pendc (is_AddPeer I s p d) = pendc s" "ok s \<Longrightarrow> lim (is_AddPeer I s p d) = lim s"
    and law_pending: "ok s \<Longrightarrow> ok (is_UpdatePendingConnCount I s n d)"
      "ok s \<Longrightarrow> act (is_UpdatePendingConnCount I s n d) = act s"
      "ok s \<Longrightarrow> e \<noteq> DirUnknown \<Longrightarrow>
        pendc (is_UpdatePendingConnCount I s n d) e = (if e = d then pendc s e + n else pendc s e)"
      "ok s \<Longrightarrow> lim (is_UpdatePendingConnCount I s n d) = lim s"
    and law_disconnect: "ok s \<Longrightarrow> ok (is_DisconnectFromPeer I s p r)"
      "ok s \<Longrightarrow> act (is_DisconnectFromPeer I s p r) = act s"
      "ok s \<Longrightarrow> pendc (is_DisconnectFromPeer I s p r) = pendc s"
      "ok s \<Longrightarrow> lim (is_DisconnectFromPeer I s p r) = lim s"
    and law_client: "ok s \<Longrightarrow> is_NewIdentityClient I s p = (c, s') \<Longrightarrow>
      ok s' \<and> act s' = act s \<and> pendc s' = pendc s \<and> lim s' = lim s"
    and law_hello: "ok s \<Longrightarrow> is_Hello I s clt q = (x, s') \<Longrightarrow>
      ok s' \<and> act s' = act s \<and> pendc s' = pendc s \<and> lim s' = lim s"
    and law_emit: "ok s \<Longrightarrow> ok (is_EmitEvent I s ev)" "ok s \<Longrightarrow> act (is_EmitEvent I s ev) = act s"
      "ok s \<Longrightarrow> pendc (is_EmitEvent I s ev) = pendc s" "ok s \<Longrightarrow> lim (is_EmitEvent I s ev) = lim s"
    and law_env: "env s s' \<Longrightarrow> ok s \<Longrightarrow> ok s' \<and> (\<forall>d. act s' d \<subseteq> act s d) \<and> pendc s' = pendc s \<and> lim s' = lim s"
begin

definition pend :: "identity_service \<Rightarrow> direction \<Rightarrow> peer_id set" where
  "pend i d = {p. id_pending i p = Some d}"

definition inv :: "'s id_sys \<Rightarrow> bool" where
  "inv y \<longleftrightarrow> ok (sy_srv y) \<and> finite (dom (id_pending (sy_id y))) \<and>
     distinct (map fst (sy_running y) @ map fst (sy_ending y)) \<and>
     set (map fst (sy_running y) @ map fst (sy_ending y)) = dom (id_pending (sy_id y)) \<and>
     (\<forall>p d. (p, d) \<in> set (sy_running y) \<longrightarrow> id_pending (sy_id y) p = Some d) \<and>
     (\<forall>d. d \<noteq> DirUnknown \<longrightarrow> pendc (sy_srv y) d = of_nat (card (pend (sy_id y) d)))"

definition within :: "'s id_sys \<Rightarrow> bool" where
  "within y \<longleftrightarrow> (\<forall>d. d \<noteq> DirUnknown \<longrightarrow>
     card (act (sy_srv y) d \<union> pend (sy_id y) d) \<le> nat (sint (lim (sy_srv y) d)))"

lemma inv_iff:
  "inv \<lparr>sy_srv = s, sy_id = i, sy_running = rs, sy_ending = es\<rparr> \<longleftrightarrow>
     ok s \<and> finite (dom (id_pending i)) \<and> distinct (map fst rs @ map fst es) \<and>
     set (map fst rs @ map fst es) = dom (id_pending i) \<and>
     (\<forall>p d. (p, d) \<in> set rs \<longrightarrow> id_pending i p = Some d) \<and>
     (\<forall>d. d \<noteq> DirUnknown \<longrightarrow> pendc s d = of_nat (card (pend i d)))"
  by (simp add: inv_def)

lemma within_iff:
  "within \<lparr>sy_srv = s, sy_id = i, sy_running = rs, sy_ending = es\<rparr> \<longleftrightarrow>
     (\<forall>d. d \<noteq> DirUnknown \<longrightarrow> card (act s d \<union> pend i d) \<le> nat (sint (lim s d)))"
  by (simp add: within_def)

lemma finite_pend: "finite (dom (id_pending i)) \<Longrightarrow> finite (pend i d)"
  by (rule finite_subset [of _ "dom (id_pending i)"]) (auto simp: pend_def)

lemma pend_update: "pend (i\<lparr>id_pending := (id_pending i)(p := x)\<rparr>) d =
    (if x = Some d then insert p (pend i d) else pend i d - {p})"
  by (auto simp: pend_def)

definition same :: "'s \<Rightarrow> 's \<Rightarrow> bool" where
  "same s s' \<longleftrightarrow> ok s' \<and> act s' = act s \<and> pendc s' = pendc s \<and> lim s' = lim s"

lemma same_trans: "same s s' \<Longrightarrow> same s' s'' \<Longrightarrow> same s s''"
  by (simp add: same_def)

lemma handshake_result_effect:
  assumes ok: "ok s" and hr: "handshake_result I i s p d = (ev, s')"
  shows "ok s'" and "pendc s' = pendc s" and "lim s' = lim s"
    and "act s' e = act s e \<or> e = d \<and> act s' e = insert p (act s e)"
proof -
  obtain c s1 where c: "is_NewIdentityClient I s p = (c, s1)" by fastforce
  have s1: "same s s1" using law_client [OF ok c] by (simp add: same_def)
  have disc: "same s (is_DisconnectFromPeer I u p r)" if "same s u" for u r
    using that law_disconnect by (simp add: same_def)
  have "same s s' \<or> (\<exists>t. same s t \<and> s' = is_AddPeer I t p d)"
  proof (cases c)
    case (Inl e)
    then show ?thesis using hr c disc [OF s1] by (auto simp: handshake_result_def handleConnected_def)
  next
    case (Inr clt)
    let ?q = "constructStatus I i s1 p"
    obtain x s2 where x: "is_Hello I s1 clt ?q = (x, s2)" by fastforce
    have "ok s1" using s1 by (simp add: same_def)
    then have s2: "same s s2" using law_hello [OF _ x] by (intro same_trans [OF s1]) (simp add: same_def)
    show ?thesis
      using hr c x Inr disc [OF s2] s2
      by (cases x) (auto simp: handshake_result_def handleConnected_def Let_def split: if_splits)
  qed
  then show "ok s'" "pendc s' = pendc s" "lim s' = lim s"
    "act s' e = act s e \<or> e = d \<and> act s' e = insert p (act s e)"
    by (auto simp: same_def law_add split: if_splits)
qed

lemma free_slot_room:
  assumes i: "inv y" and w: "within y" and small: "sint (lim (sy_srv y) d) < 2 ^ 62"
    and nn: "0 \<le> sint (lim (sy_srv y) d)"
    and free: "is_HasFreeConnectionSlot I (sy_srv y) d"
  shows "d \<noteq> DirUnknown" and "card (act (sy_srv y) d \<union> insert p (pend (sy_id y) d)) \<le> nat (sint (lim (sy_srv y) d))"
proof -
  let ?a = "act (sy_srv y) d" and ?p = "pend (sy_id y) d" and ?m = "lim (sy_srv y) d"
  have ok: "ok (sy_srv y)" using i by (simp add: inv_def)
  show d: "d \<noteq> DirUnknown" using free law_free [OF ok] by simp
  have fin: "finite ?a" "finite ?p" using i finite_act finite_pend by (simp_all add: inv_def)
  have le: "card (?a \<union> ?p) \<le> nat (sint ?m)" using w d by (simp add: within_def)
  have "card ?a \<le> card (?a \<union> ?p)" "card ?p \<le> card (?a \<union> ?p)"
    using fin by (auto intro: card_mono)
  moreover have "nat (sint ?m) < 2 ^ 62" using small nn by (simp add: nat_less_iff)
  ultimately have "card ?a + card ?p < 2 ^ 63" using le by simp
  moreover have "of_nat (card ?a) + of_nat (card ?p) <s ?m"
    using free law_free [OF ok, of d] i d by (simp add: inv_def)
  ultimately have "card ?a + card ?p < nat (sint ?m)" using slot_free_nat nn by blast
  moreover have "card (?a \<union> insert p ?p) \<le> card ?a + Suc (card ?p)"
    using card_Un_le [of ?a "insert p ?p"] card_insert_le_m1 fin by (simp add: card_insert_if split: if_splits)
  ultimately show "card (?a \<union> insert p ?p) \<le> nat (sint ?m)" by simp
qed

lemma inv_started:
  assumes i: "inv \<lparr>sy_srv = s, sy_id = i, sy_running = rs, sy_ending = es\<rparr>" and new: "id_pending i p = None"
    and i': "i' = i\<lparr>id_pending := (id_pending i)(p \<mapsto> d)\<rparr>" and s': "s' = is_UpdatePendingConnCount I s 1 d"
  shows "inv \<lparr>sy_srv = s', sy_id = i', sy_running = (p, d) # rs, sy_ending = es\<rparr>"
  unfolding inv_iff
proof (intro conjI allI impI)
  have ok: "ok s" using i by (simp add: inv_def)
  show "ok s'" using law_pending(1) [OF ok] by (simp add: s')
  show "finite (dom (id_pending i'))" using i by (simp add: i' inv_iff)
  have "p \<notin> set (map fst rs @ map fst es)" using i new by (auto simp: inv_def)
  then show "distinct (map fst ((p, d) # rs) @ map fst es)" using i by (auto simp: inv_iff)
  have "set (map fst rs @ map fst es) = dom (id_pending i)" using i by (simp only: inv_iff)
  then show "set (map fst ((p, d) # rs) @ map fst es) = dom (id_pending i')" by (simp add: i')
  have run: "(q, e) \<in> set rs \<Longrightarrow> id_pending i q = Some e" for q e using i by (simp add: inv_iff)
  show "id_pending i' q = Some e" if "(q, e) \<in> set ((p, d) # rs)" for q e
    using that run [of q e] new by (auto simp: i')
  show "pendc s' e = of_nat (card (pend i' e))" if e: "e \<noteq> DirUnknown" for e
  proof -
    have "p \<notin> pend i e" using new by (simp add: pend_def)
    moreover have "finite (pend i e)" using i finite_pend by (simp add: inv_def)
    ultimately show ?thesis
      using i e law_pending(3) [OF ok e, of 1 d]
      by (cases "e = d") (simp_all add: i' s' pend_update inv_def add.commute)
  qed
qed

lemma inv_connected:
  assumes i: "inv \<lparr>sy_srv = s, sy_id = i, sy_running = rs, sy_ending = es\<rparr>"
    and c: "ConnectedF I i s p d = (started, i', s')"
  shows "inv \<lparr>sy_srv = s', sy_id = i', sy_running = (if started then (p, d) # rs else rs), sy_ending = es\<rparr> \<and>
    ((i', act s', lim s') = (i, act s, lim s) \<or>
      is_HasFreeConnectionSlot I s d \<and> i' = i\<lparr>id_pending := (id_pending i)(p \<mapsto> d)\<rparr> \<and>
      (act s', lim s') = (act s, lim s))"
proof -
  have ok: "ok s" using i by (simp add: inv_def)
  show ?thesis
  proof (cases "connected_check I i s p d")
    case AlreadyPending
    then show ?thesis using i c by (simp add: ConnectedF_def)
  next
    case NoSlot
    then have "\<not> started" "i' = i" "s' = is_DisconnectFromPeer I s p (err_String ErrNoAvailableSlots)"
      using c by (auto simp: ConnectedF_def)
    then show ?thesis using i law_disconnect [OF ok] by (simp add: inv_def)
  next
    case StartHandshake
    then have new: "id_pending i p = None" and free: "is_HasFreeConnectionSlot I s d"
      by (auto simp: connected_check_def hasPendingStatus_def split: if_splits)
    then have res: "started" "i' = i\<lparr>id_pending := (id_pending i)(p \<mapsto> d)\<rparr>"
      "s' = is_UpdatePendingConnCount I s 1 d"
      using c StartHandshake by (simp_all add: ConnectedF_def addPendingStatus_def)
    then show ?thesis using inv_started [OF i new res(2,3)] free law_pending [OF ok] by simp
  qed
qed

lemma pend_removed:
  assumes "id_pending i p = Some d" and "finite (pend i e)"
  shows "(of_nat (card (pend (i\<lparr>id_pending := (id_pending i)(p := None)\<rparr>) e)) :: int64) =
    of_nat (card (pend i e)) - (if e = d then 1 else 0)"
proof -
  have "pend (i\<lparr>id_pending := (id_pending i)(p := None)\<rparr>) e = pend i e - {p}" "p \<in> pend i e \<longleftrightarrow> e = d"
    using assms(1) by (auto simp: pend_update pend_def)
  then show ?thesis using of_nat_card_remove [OF assms(2), of p, where 'a = int64] by simp
qed

lemma inv_ended:
  assumes i: "inv \<lparr>sy_srv = s, sy_id = i, sy_running = rs, sy_ending = es @ (p, ev) # es'\<rparr>"
    and c: "handshake_end I i s p ev = (i', s')"
  shows "inv \<lparr>sy_srv = s', sy_id = i', sy_running = rs, sy_ending = es @ es'\<rparr>"
    and "i' = i\<lparr>id_pending := (id_pending i)(p := None)\<rparr>" and "act s' = act s" and "lim s' = lim s"
proof -
  have ok: "ok s" using i by (simp add: inv_def)
  have "p \<in> dom (id_pending i)" using i by (simp add: inv_def) blast
  then obtain d where d: "id_pending i p = Some d" by blast
  let ?u = "is_UpdatePendingConnCount I s (-1) d"
  have res: "i' = i\<lparr>id_pending := (id_pending i)(p := None)\<rparr>" "s' = is_EmitEvent I ?u \<lparr>ev_PeerID = p, ev_Type = ev\<rparr>"
    using c d by (auto simp: handshake_end_def removePendingStatus_def)
  note E = law_emit [OF law_pending(1) [OF ok, of "-1" d]]
  show "i' = i\<lparr>id_pending := (id_pending i)(p := None)\<rparr>" "act s' = act s" "lim s' = lim s"
    using res E law_pending [OF ok] by simp_all
  have dist: "distinct (map fst rs @ map fst (es @ (p, ev) # es'))"
    and dom: "set (map fst rs @ map fst (es @ (p, ev) # es')) = dom (id_pending i)"
    and run: "\<And>q e. (q, e) \<in> set rs \<Longrightarrow> id_pending i q = Some e"
    using i unfolding inv_iff by blast+
  have p: "p \<notin> fst ` set rs" "p \<notin> fst ` set es" "p \<notin> fst ` set es'" using dist by auto
  show "inv \<lparr>sy_srv = s', sy_id = i', sy_running = rs, sy_ending = es @ es'\<rparr>"
    unfolding inv_iff
  proof (intro conjI allI impI)
    show "ok s'" using E res(2) by simp
    show "finite (dom (id_pending i'))" using i by (simp add: res(1) inv_iff)
    show "distinct (map fst rs @ map fst (es @ es'))" using dist by auto
    have "dom (id_pending i') = dom (id_pending i) - {p}" by (simp add: res(1))
    then show "set (map fst rs @ map fst (es @ es')) = dom (id_pending i')" using p by (auto simp flip: dom)
    show "id_pending i' q = Some e" if "(q, e) \<in> set rs" for q e
      using that run p(1) by (force simp: res(1))
    show "pendc s' e = of_nat (card (pend i' e))" if e: "e \<noteq> DirUnknown" for e
      using i e law_pending(3) [OF ok e, of "-1" d] E pend_removed [OF d, of e] finite_pend
      by (cases "e = d") (simp_all add: res inv_def)
  qed
qed

lemma inv_handled:
  assumes i: "inv \<lparr>sy_srv = s, sy_id = i, sy_running = rs @ (p, d) # rs', sy_ending = es\<rparr>"
    and c: "handshake_result I i s p d = (ev, s')"
  shows "inv \<lparr>sy_srv = s', sy_id = i, sy_running = rs @ rs', sy_ending = (p, ev) # es\<rparr>"
    and "p \<in> pend i d"
proof -
  have ok: "ok s" using i by (simp add: inv_def)
  show "p \<in> pend i d" using i by (simp add: inv_iff pend_def)
  show "inv \<lparr>sy_srv = s', sy_id = i, sy_running = rs @ rs', sy_ending = (p, ev) # es\<rparr>"
    unfolding inv_iff
  proof (intro conjI)
    have dist: "distinct (map fst (rs @ (p, d) # rs') @ map fst es)"
      and dom: "set (map fst (rs @ (p, d) # rs') @ map fst es) = dom (id_pending i)"
      and run: "\<And>q e. (q, e) \<in> set (rs @ (p, d) # rs') \<Longrightarrow> id_pending i q = Some e"
      and cnt: "\<forall>d. d \<noteq> DirUnknown \<longrightarrow> pendc s d = of_nat (card (pend i d))"
      and fin: "finite (dom (id_pending i))"
      using i unfolding inv_iff by blast+
    note H = handshake_result_effect(1,2) [OF ok c]
    show "ok s'" by (rule H(1))
    show "finite (dom (id_pending i))" by (rule fin)
    show "distinct (map fst (rs @ rs') @ map fst ((p, ev) # es))" using dist by auto
    show "set (map fst (rs @ rs') @ map fst ((p, ev) # es)) = dom (id_pending i)"
      unfolding dom [symmetric] by simp
    show "\<forall>q e. (q, e) \<in> set (rs @ rs') \<longrightarrow> id_pending i q = Some e" using run by simp
    show "\<forall>d. d \<noteq> DirUnknown \<longrightarrow> pendc s' d = of_nat (card (pend i d))" using cnt by (simp add: H(2))
  qed
qed

lemma inv_step: "id_step I env y y' \<Longrightarrow> inv y \<Longrightarrow> inv y'"
proof (induction rule: id_step.induct)
  case (connected i s p d started i' s' rs es)
  show ?case using inv_connected [OF connected.prems connected.hyps] by blast
next
  case (handled i s p d ev s' rs rs' es)
  show ?case by (rule inv_handled(1) [OF handled.prems handled.hyps])
next
  case (ended i s p ev i' s' rs es es')
  show ?case by (rule inv_ended(1) [OF ended.prems ended.hyps])
next
  case (environment s s' i rs es)
  then have "ok s" by (simp add: inv_def)
  note V = law_env [OF environment.hyps this]
  from V environment.prems show ?case unfolding inv_iff by metis
qed

lemma lim_step: "id_step I env y y' \<Longrightarrow> inv y \<Longrightarrow> lim (sy_srv y') = lim (sy_srv y)"
proof (induction rule: id_step.induct)
  case (connected i s p d started i' s' rs es)
  from inv_connected [OF connected.prems connected.hyps] show ?case by auto
next
  case (handled i s p d ev s' rs rs' es)
  have "ok s" using handled.prems by (simp add: inv_def)
  from handshake_result_effect(3) [OF this handled.hyps] show ?case by simp
next
  case (ended i s p ev i' s' rs es es')
  from inv_ended(4) [OF ended.prems ended.hyps] show ?case by simp
next
  case (environment s s' i rs es)
  have "ok s" using environment.prems by (simp add: inv_def)
  from law_env [OF environment.hyps this] show ?case by simp
qed

definition small :: "'s \<Rightarrow> bool" where
  "small s \<longleftrightarrow> (\<forall>d. 0 \<le> sint (lim s d) \<and> sint (lim s d) < 2 ^ 62)"

lemma within_started:
  assumes y: "inv \<lparr>sy_srv = s, sy_id = i, sy_running = rs, sy_ending = es\<rparr>"
    "within \<lparr>sy_srv = s, sy_id = i, sy_running = rs, sy_ending = es\<rparr>"
    and sm: "\<And>e. sint (lim s e) < 2 ^ 62" "\<And>e. 0 \<le> sint (lim s e)" and free: "is_HasFreeConnectionSlot I s d"
    and a: "i' = i\<lparr>id_pending := (id_pending i)(p \<mapsto> d)\<rparr>" "act s' = act s" "lim s' = lim s"
  shows "within \<lparr>sy_srv = s', sy_id = i', sy_running = rs', sy_ending = es'\<rparr>"
proof -
  have "card (act s d \<union> insert p (pend i d)) \<le> nat (sint (lim s d))"
    using free_slot_room(2) [OF y, of d p] sm free by simp
  moreover have "card (act s e \<union> pend i' e) \<le> nat (sint (lim s e))" if "e \<noteq> d" "e \<noteq> DirUnknown" for e
  proof -
    have "finite (act s e \<union> pend i e)" using y(1) finite_act finite_pend by (simp add: inv_def)
    then have "card (act s e \<union> pend i' e) \<le> card (act s e \<union> pend i e)"
      using a that by (intro card_mono) (auto simp: pend_update)
    then show ?thesis using y(2) that by (fastforce simp: within_def)
  qed
  ultimately show ?thesis using a by (auto simp: within_def pend_update)
qed

lemma within_step:
  "id_step I env y y' \<Longrightarrow> inv y \<Longrightarrow> within y \<Longrightarrow> small (sy_srv y) \<Longrightarrow> within y' \<and> small (sy_srv y')"
proof (induction rule: id_step.induct)
  case (connected i s p d started i' s' rs es)
  have sm: "\<And>e. sint (lim s e) < 2 ^ 62" "\<And>e. 0 \<le> sint (lim s e)" using connected.prems(3) by (simp_all add: small_def)
  from inv_connected [OF connected(2,1)] connected.prems sm show ?case
    using within_started [OF connected.prems(1,2) sm] by (auto simp: within_def small_def)
next
  case (handled i s p d ev s' rs rs' es)
  have ok: "ok s" using handled.prems(1) by (simp add: inv_def)
  note H = handshake_result_effect [OF ok handled.hyps] and P = inv_handled(2) [OF handled.prems(1) handled.hyps]
  have "act s' e \<union> pend i e = act s e \<union> pend i e" for e using H(4) [of e] P by auto
  then show ?case using handled.prems H(3) by (simp add: within_def small_def)
next
  case (ended i s p ev i' s' rs es es')
  note E = inv_ended [OF ended.prems(1) ended.hyps]
  have "card (act s' e \<union> pend i' e) \<le> card (act s e \<union> pend i e)" for e
  proof -
    have "finite (act s e \<union> pend i e)" using ended.prems(1) finite_act finite_pend by (simp add: inv_def)
    then show ?thesis by (rule card_mono) (auto simp: E(2,3) pend_update)
  qed
  then have "within \<lparr>sy_srv = s', sy_id = i', sy_running = rs, sy_ending = es @ es'\<rparr>"
    using ended.prems(2) order_trans unfolding within_iff E(4) by blast
  then show ?case using ended.prems(3) by (simp add: small_def E(4))
next
  case (environment s s' i rs es)
  have ok: "ok s" using environment.prems(1) by (simp add: inv_def)
  note V = law_env [OF environment.hyps ok]
  have "card (act s' e \<union> pend i e) \<le> card (act s e \<union> pend i e)" for e
  proof -
    have "finite (act s e \<union> pend i e)" using environment.prems(1) finite_act finite_pend by (simp add: inv_def)
    then show ?thesis using V by (intro card_mono) auto
  qed
  then have "within \<lparr>sy_srv = s', sy_id = i, sy_running = rs, sy_ending = es\<rparr>"
    using environment.prems(2) V order_trans unfolding within_iff by metis
  then show ?case using environment.prems(3) V by (simp add: small_def)
qed

lemma steps:
  assumes "(id_step I env)\<^sup>*\<^sup>* y y'" "inv y" "within y" "small (sy_srv y)"
  shows "inv y' \<and> within y' \<and> small (sy_srv y')"
  using assms by (induction rule: rtranclp_induct) (auto dest: inv_step within_step)

end

end
