(* ===== verification/Net_Common.thy ===== *)
theory Net_Common
  imports Connections
begin

text \<open>
  Address helpers of \<open>core/network/common/common.go\<close>.  Go's \<open>regexp\<close> is part of the standard library,
  so the two patterns of the file are written here as regular expressions with an executable
  matcher (derivatives) proved against the usual inductive meaning.  The multiaddress and peer-ID
  codecs of libp2p are the parameters \<open>addr_codec\<close>.
\<close>

section \<open>Regular expressions\<close>

datatype rx = RNone | REps | RChr "char \<Rightarrow> bool" | RAlt rx rx | RSeq rx rx | RStar rx

inductive rx_in :: "rx \<Rightarrow> string \<Rightarrow> bool" where
  eps: "rx_in REps []"
| chr: "c x \<Longrightarrow> rx_in (RChr c) [x]"
| alt1: "rx_in r w \<Longrightarrow> rx_in (RAlt r s) w"
| alt2: "rx_in s w \<Longrightarrow> rx_in (RAlt r s) w"
| seq: "rx_in r v \<Longrightarrow> rx_in s w \<Longrightarrow> rx_in (RSeq r s) (v @ w)"
| star0: "rx_in (RStar r) []"
| star1: "rx_in r v \<Longrightarrow> v \<noteq> [] \<Longrightarrow> rx_in (RStar r) w \<Longrightarrow> rx_in (RStar r) (v @ w)"

inductive_cases rx_inE: "rx_in RNone w" "rx_in REps w" "rx_in (RChr c) w" "rx_in (RAlt r s) w"
  "rx_in (RSeq r s) w"
inductive_cases rx_in_starE: "rx_in (RStar r) w"

fun rx_nullable :: "rx \<Rightarrow> bool" where
  "rx_nullable RNone = False"
| "rx_nullable REps = True"
| "rx_nullable (RChr _) = False"
| "rx_nullable (RAlt r s) = (rx_nullable r \<or> rx_nullable s)"
| "rx_nullable (RSeq r s) = (rx_nullable r \<and> rx_nullable s)"
| "rx_nullable (RStar _) = True"

text \<open>Smart constructors keep derivatives small.\<close>

fun rx_alt :: "rx \<Rightarrow> rx \<Rightarrow> rx" where
  "rx_alt RNone s = s"
| "rx_alt r RNone = r"
| "rx_alt r s = RAlt r s"

fun rx_seq :: "rx \<Rightarrow> rx \<Rightarrow> rx" where
  "rx_seq RNone s = RNone"
| "rx_seq REps s = s"
| "rx_seq r s = RSeq r s"

fun rx_deriv :: "char \<Rightarrow> rx \<Rightarrow> rx" where
  "rx_deriv x RNone = RNone"
| "rx_deriv x REps = RNone"
| "rx_deriv x (RChr c) = (if c x then REps else RNone)"
| "rx_deriv x (RAlt r s) = rx_alt (rx_deriv x r) (rx_deriv x s)"
| "rx_deriv x (RSeq r s) =
     (if rx_nullable r then rx_alt (rx_seq (rx_deriv x r) s) (rx_deriv x s)
      else rx_seq (rx_deriv x r) s)"
| "rx_deriv x (RStar r) = rx_seq (rx_deriv x r) (RStar r)"

fun rx_match :: "rx \<Rightarrow> string \<Rightarrow> bool" where
  "rx_match r [] = rx_nullable r"
| "rx_match r (x # xs) = rx_match (rx_deriv x r) xs"

lemma rx_in_RNone [simp]: "\<not> rx_in RNone w"
  by (auto elim: rx_inE)

lemma rx_in_REps [simp]: "rx_in REps w \<longleftrightarrow> w = []"
  by (auto elim: rx_inE intro: rx_in.intros)

lemma rx_in_RChr [simp]: "rx_in (RChr c) w \<longleftrightarrow> (\<exists>x. w = [x] \<and> c x)"
  by (auto elim: rx_inE intro: rx_in.intros)

lemma rx_in_RAlt [simp]: "rx_in (RAlt r s) w \<longleftrightarrow> rx_in r w \<or> rx_in s w"
  by (auto elim: rx_inE intro: rx_in.intros)

lemma rx_in_RSeq: "rx_in (RSeq r s) w \<longleftrightarrow> (\<exists>u v. w = u @ v \<and> rx_in r u \<and> rx_in s v)"
proof
  assume "rx_in (RSeq r s) w"
  then show "\<exists>u v. w = u @ v \<and> rx_in r u \<and> rx_in s v" by (rule rx_inE(5)) blast
qed (auto intro: rx_in.seq)

lemma rx_in_alt [simp]: "rx_in (rx_alt r s) w \<longleftrightarrow> rx_in r w \<or> rx_in s w"
  by (induction r s rule: rx_alt.induct) auto

lemma rx_in_seq: "rx_in (rx_seq r s) w \<longleftrightarrow> (\<exists>u v. w = u @ v \<and> rx_in r u \<and> rx_in s v)"
  by (induction r s rule: rx_seq.induct) (auto simp: rx_in_RSeq)

lemma rx_nullable_iff: "rx_nullable r \<longleftrightarrow> rx_in r []"
  by (induction r) (auto simp: rx_in_RSeq intro: rx_in.intros)

lemma rx_in_RSeq_Cons:
  "rx_in (RSeq r s) (x # w) \<longleftrightarrow>
     (\<exists>u v. w = u @ v \<and> rx_in r (x # u) \<and> rx_in s v) \<or> rx_in r [] \<and> rx_in s (x # w)"
  by (auto simp: rx_in_RSeq Cons_eq_append_conv)

lemma rx_in_RStar_Cons:
  "rx_in (RStar r) (x # w) \<longleftrightarrow> (\<exists>u v. w = u @ v \<and> rx_in r (x # u) \<and> rx_in (RStar r) v)"
proof
  assume "rx_in (RStar r) (x # w)"
  then show "\<exists>u v. w = u @ v \<and> rx_in r (x # u) \<and> rx_in (RStar r) v"
    by (rule rx_in_starE) (auto simp: Cons_eq_append_conv)
next
  assume "\<exists>u v. w = u @ v \<and> rx_in r (x # u) \<and> rx_in (RStar r) v"
  then show "rx_in (RStar r) (x # w)" using star1 [of r "x # _"] by fastforce
qed

lemma rx_deriv_iff: "rx_in (rx_deriv x r) w \<longleftrightarrow> rx_in r (x # w)"
  by (induction r arbitrary: w) (auto simp: rx_in_seq rx_in_RSeq_Cons rx_in_RStar_Cons rx_nullable_iff)

lemma rx_match_iff: "rx_match r w \<longleftrightarrow> rx_in r w"
  by (induction w arbitrary: r) (simp_all add: rx_nullable_iff rx_deriv_iff)

text \<open>Derived forms: literals, options, repetition, character classes.\<close>

fun r_lit :: "string \<Rightarrow> rx" where
  "r_lit [] = REps"
| "r_lit (x # xs) = RSeq (RChr ((=) x)) (r_lit xs)"

definition r_opt :: "rx \<Rightarrow> rx" where "r_opt r = RAlt REps r"
definition r_plus :: "rx \<Rightarrow> rx" where "r_plus r = RSeq r (RStar r)"
definition r_oneof :: "string \<Rightarrow> rx" where "r_oneof cs = RChr (\<lambda>x. x \<in> set cs)"
definition r_noneof :: "string \<Rightarrow> rx" where "r_noneof cs = RChr (\<lambda>x. x \<notin> set cs)"

fun r_cat :: "rx list \<Rightarrow> rx" where
  "r_cat [] = REps"
| "r_cat [r] = r"
| "r_cat (r # rs) = RSeq r (r_cat rs)"

definition is_digit :: "char \<Rightarrow> bool" where
  "is_digit x \<longleftrightarrow> 48 \<le> (of_char x :: nat) \<and> (of_char x :: nat) \<le> 57"
definition is_lower :: "char \<Rightarrow> bool" where
  "is_lower x \<longleftrightarrow> 97 \<le> (of_char x :: nat) \<and> (of_char x :: nat) \<le> 122"
definition is_upper :: "char \<Rightarrow> bool" where
  "is_upper x \<longleftrightarrow> 65 \<le> (of_char x :: nat) \<and> (of_char x :: nat) \<le> 90"

definition r_digits :: rx where "r_digits = r_plus (RChr is_digit)"
definition r_alpha :: rx where "r_alpha = RChr (\<lambda>x. is_lower x \<or> is_upper x)"
definition r_alnum :: rx where "r_alnum = RChr (\<lambda>x. is_lower x \<or> is_digit x)"

section \<open>The patterns\<close>

text \<open>The character with code 92, the backslash.\<close>

definition bslash :: char where "bslash = CHR 0x5C"

text \<open>\<open>dnsRegex\<close>, an interpreted Go string: the doubled backslashes are single ones in the pattern.\<close>

definition dnsRegex :: rx where
  "dnsRegex = r_cat [r_opt (r_lit ''/''), r_lit ''dns'', r_opt (r_oneof ''46''), r_lit ''/'',
     r_noneof ''-|^/'', RChr (\<lambda>x. is_lower x \<or> is_upper x \<or> is_digit x \<or> x = CHR ''-''),
     r_plus (r_opt (r_noneof ''-|^/'')),
     RStar (RSeq (r_oneof ''-.'') (r_plus r_alnum)),
     r_lit ''.'', RSeq r_alpha (r_plus r_alpha), r_opt (r_lit ''/'')]"

text \<open>\<open>DNSRegex\<close>, a raw Go string: the doubled backslashes reach the pattern, where the class
  stands for a backslash or a dot and the top-level domain must follow a backslash and one
  arbitrary character other than a newline.\<close>

definition DNSRegex :: rx where
  "DNSRegex = r_cat [r_opt (r_lit ''/''), r_lit ''dns'', r_opt (r_oneof ''46''), r_lit ''/'',
     r_noneof ''-|^/'', RChr (\<lambda>x. is_lower x \<or> is_upper x \<or> is_digit x \<or> x = CHR ''-''),
     r_plus (r_opt (r_noneof ''-|^/'')),
     RStar (RSeq (r_oneof [bslash, CHR ''.'']) (r_plus r_alnum)),
     RChr ((=) bslash), RChr (\<lambda>x. (of_char x :: nat) \<noteq> 10), RSeq r_alpha (r_plus r_alpha), r_opt (r_lit ''/'')]"

definition loopbackRegex :: rx where
  "loopbackRegex =
     RAlt (r_cat [r_lit ''/ip4/127'',
        r_opt (RSeq (RSeq (r_lit ''.'') r_digits) (r_opt (RSeq (r_lit ''.'') r_digits))),
        r_lit ''.'', r_digits, r_lit ''/tcp/'', r_digits])
     (RAlt (r_cat [r_lit ''/ip4/localhost/tcp/'', r_digits])
     (RAlt (r_cat [r_lit ''/ip6/'', RStar (RSeq (RStar (r_lit ''0'')) (r_lit '':'')), r_opt (r_lit '':''),
        RStar (r_lit ''0''), r_lit ''1/tcp/'', r_digits])
     DNSRegex))"

section \<open>Operations\<close>

record addr_codec =
  ac_NewMultiaddr :: "string \<Rightarrow> go_err + multiaddr"
  ac_AddrInfoFromP2pAddr :: "multiaddr \<Rightarrow> go_err + addr_info"
  ac_PeerString :: "peer_id \<Rightarrow> string"

definition StringToAddrInfo :: "addr_codec \<Rightarrow> string \<Rightarrow> go_err + addr_info" where
  "StringToAddrInfo C addr =
     (case ac_NewMultiaddr C addr of Inl e \<Rightarrow> Inl e
      | Inr addr0 \<Rightarrow> (case ac_AddrInfoFromP2pAddr C addr0 of Inl e \<Rightarrow> Inl e | Inr addr1 \<Rightarrow> Inr addr1))"

fun first_non_loopback :: "multiaddr list \<Rightarrow> multiaddr \<Rightarrow> multiaddr" where
  "first_non_loopback [] dialAddress = dialAddress"
| "first_non_loopback (a # as) dialAddress =
     (if \<not> rx_match loopbackRegex a then a else first_non_loopback as dialAddress)"

definition AddrInfoToString :: "addr_codec \<Rightarrow> addr_info \<Rightarrow> go_err + string" where
  "AddrInfoToString C addr =
     (if length (ai_Addrs addr) = 0 then Inl (GoPanic ''No dial addresses found'')
      else let dialAddress = ai_Addrs addr ! 0;
               dialAddress' = (if length (ai_Addrs addr) > 1 \<and> rx_match loopbackRegex dialAddress
                 then first_non_loopback (ai_Addrs addr) dialAddress else dialAddress)
           in Inr (dialAddress' @ ''/p2p/'' @ ac_PeerString C (ai_ID addr)))"

fun split_on :: "char \<Rightarrow> string \<Rightarrow> string list" where
  "split_on c [] = [[]]"
| "split_on c (x # xs) =
     (if x = c then [] # split_on c xs
      else case split_on c xs of [] \<Rightarrow> [[x]] | w # ws \<Rightarrow> (x # w) # ws)"

definition trim_char :: "char \<Rightarrow> string \<Rightarrow> string" where
  "trim_char c s = rev (dropWhile ((=) c) (rev (dropWhile ((=) c) s)))"

fun digits_of :: "nat \<Rightarrow> nat \<Rightarrow> string" where
  "digits_of 0 n = []"
| "digits_of (Suc f) n = (if n < 10 then [char_of (48 + n)]
     else digits_of f (n div 10) @ [char_of (48 + n mod 10)])"

definition itoa :: "int \<Rightarrow> string" where
  "itoa i = (if i < 0 then CHR ''-'' # digits_of (nat (- i) + 1) (nat (- i)) else digits_of (nat i + 1) (nat i))"

definition MultiAddrFromDNS :: "addr_codec \<Rightarrow> string \<Rightarrow> int \<Rightarrow> go_err + multiaddr" where
  "MultiAddrFromDNS C addr port =
     (if \<not> rx_match dnsRegex addr then Inl (GoErr ''invalid DNS address'')
      else let split = split_on (CHR ''/'') (trim_char (CHR ''/'') addr) in
        if length split \<noteq> 2 then Inl (GoErr ''invalid DNS address'')
        else if split ! 0 \<noteq> ''dns'' \<and> split ! 0 \<noteq> ''dns4'' \<and> split ! 0 \<noteq> ''dns6''
          then Inl (GoErr ''invalid DNS version'')
        else case ac_NewMultiaddr C (''/'' @ split ! 0 @ ''/'' @ split ! 1 @ ''/tcp/'' @ itoa port) of
            Inl _ \<Rightarrow> Inl (GoErr ''could not create a multi address'')
          | Inr m \<Rightarrow> Inr m)"

section \<open>Properties\<close>

lemma rx_in_r_lit: "rx_in (r_lit w) v \<longleftrightarrow> v = w"
  by (induction w arbitrary: v) (auto simp: rx_in_RSeq)

lemma DNSRegex_needs_backslash: "rx_match DNSRegex w \<Longrightarrow> bslash \<in> set w"
  by (auto simp: rx_match_iff DNSRegex_def rx_in_RSeq)

text \<open>The DNS alternative of \<open>loopbackRegex\<close> is dead: its pattern is a raw string with doubled
  backslashes, so it only accepts texts that contain a backslash, and a multiaddress that starts
  with \<open>/dns\<close> and contains none is never taken for a loopback address.\<close>

theorem dns_never_loopback:
  assumes "take 4 w = ''/dns''" and "bslash \<notin> set w"
  shows "\<not> rx_match loopbackRegex w"
proof -
  have "\<not> rx_match DNSRegex w" using DNSRegex_needs_backslash assms(2) by blast
  then show ?thesis
    using assms(1)
    by (auto simp: rx_match_iff loopbackRegex_def rx_in_RSeq rx_in_r_lit)
qed

theorem dns_never_loopback_witness:
  "\<not> rx_match loopbackRegex ''/dns/node.example.com'' \<and> rx_match dnsRegex ''/dns/node.example.com''"
proof
  show "\<not> rx_match loopbackRegex ''/dns/node.example.com''"
    by (rule dns_never_loopback) (simp_all add: bslash_def)
  show "rx_match dnsRegex ''/dns/node.example.com''" by code_simp
qed

lemma first_non_loopback_cases:
  "first_non_loopback as d = (case find (\<lambda>a. \<not> rx_match loopbackRegex a) as of None \<Rightarrow> d | Some a \<Rightarrow> a)"
  by (induction as) auto

text \<open>\<open>AddrInfoToString\<close> panics exactly on an empty address list; otherwise it prints the first
  address that is not a loopback address, or the first address when all are, followed by the
  peer.\<close>

theorem AddrInfoToString_result:
  "AddrInfoToString C a =
     (if ai_Addrs a = [] then Inl (GoPanic ''No dial addresses found'')
      else Inr ((case find (\<lambda>m. \<not> rx_match loopbackRegex m) (ai_Addrs a) of
                   Some m \<Rightarrow> m | None \<Rightarrow> hd (ai_Addrs a)) @ ''/p2p/'' @ ac_PeerString C (ai_ID a)))"
proof (cases "ai_Addrs a")
  case Nil
  then show ?thesis by (simp add: AddrInfoToString_def)
next
  case (Cons m ms)
  then show ?thesis
    by (cases "rx_match loopbackRegex m"; cases ms)
      (auto simp: AddrInfoToString_def first_non_loopback_cases split: option.splits)
qed

end
