(* ===== verification/Discovery.thy ===== *)
theory Discovery
  imports Net_Common
begin

text \<open>
  The discovery service (\<open>core/network/discovery/discovery.go\<close>).  Its \<open>networkingServer\<close> interface
  together with the Kademlia routing table is the record \<open>disc_server\<close> over an abstract state; the
  routing table of libp2p stays a parameter.  \<open>temp_dials\<close> states what the service relies on for its
  temporary dials.  An operation that may panic returns \<open>Inl\<close>.
\<close>

section \<open>Interface\<close>

record find_peers_req =
  fr_Key :: string
  fr_Count :: int64

record 's disc_server =
  dn_codec :: addr_codec
  dn_ConvertKey :: "string \<Rightarrow> nat list"
  dn_GetDiscProto :: "'s \<Rightarrow> string"
  dn_GetRandomBootnode :: "'s \<Rightarrow> addr_info option \<times> 's"
  dn_GetBootnodeConnCount :: "'s \<Rightarrow> int64"
  dn_NewDiscoveryClient :: "'s \<Rightarrow> peer_id \<Rightarrow> (go_err + nat) \<times> 's"
  dn_FindPeersRPC :: "'s \<Rightarrow> nat \<Rightarrow> find_peers_req \<Rightarrow> (go_err + string list) \<times> 's"
  dn_CloseProtocolStream :: "'s \<Rightarrow> string \<Rightarrow> peer_id \<Rightarrow> go_err option \<times> 's"
  dn_DisconnectFromPeer :: "'s \<Rightarrow> peer_id \<Rightarrow> string \<Rightarrow> 's"
  dn_AddToPeerStore :: "'s \<Rightarrow> addr_info \<Rightarrow> go_err + 's"
  dn_RemoveFromPeerStore :: "'s \<Rightarrow> addr_info \<Rightarrow> 's"
  dn_GetPeerInfo :: "'s \<Rightarrow> peer_id \<Rightarrow> addr_info"
  dn_GetRandomPeer :: "'s \<Rightarrow> peer_id option \<times> 's"
  dn_FetchOrSetTemporaryDial :: "'s \<Rightarrow> peer_id \<Rightarrow> bool \<Rightarrow> bool \<times> 's"
  dn_RemoveTemporaryDial :: "'s \<Rightarrow> peer_id \<Rightarrow> 's"
  dn_TemporaryDialPeer :: "'s \<Rightarrow> addr_info \<Rightarrow> 's"
  dn_HasFreeConnectionSlot :: "'s \<Rightarrow> direction \<Rightarrow> bool"
  rt_TryAddPeer :: "'s \<Rightarrow> peer_id \<Rightarrow> go_err option \<times> 's"
  rt_RemovePeer :: "'s \<Rightarrow> peer_id \<Rightarrow> 's"
  rt_NearestPeers :: "'s \<Rightarrow> nat list \<Rightarrow> int \<Rightarrow> go_err + peer_id list"
  rt_Size :: "'s \<Rightarrow> nat"
  rt_ListPeers :: "'s \<Rightarrow> peer_id list"

definition maxDiscoveryPeerReqCount :: int64 where "maxDiscoveryPeerReqCount = 16"

definition RoutingTableSize :: "'s disc_server \<Rightarrow> 's \<Rightarrow> nat" where
  "RoutingTableSize D s = rt_Size D s"

definition RoutingTablePeers :: "'s disc_server \<Rightarrow> 's \<Rightarrow> peer_id list" where
  "RoutingTablePeers D s = rt_ListPeers D s"

section \<open>Operations\<close>

definition HandleNetworkEvent :: "'s disc_server \<Rightarrow> 's \<Rightarrow> peer_event \<Rightarrow> 's" where
  "HandleNetworkEvent D s ev =
     (let peerID = ev_PeerID ev in
      if ev_Type ev = PeerConnected then snd (rt_TryAddPeer D s peerID)
      else if ev_Type ev = PeerDisconnected \<or> ev_Type ev = PeerFailedToConnect
        then rt_RemovePeer D s peerID
      else s)"

definition addToTable :: "'s disc_server \<Rightarrow> 's \<Rightarrow> addr_info \<Rightarrow> go_err + (go_err option \<times> 's)" where
  "addToTable D s node =
     (case dn_AddToPeerStore D s node of
        Inl e \<Rightarrow> Inl e
      | Inr s1 \<Rightarrow>
          (case rt_TryAddPeer D s1 (ai_ID node) of
             (Some err, s2) \<Rightarrow> Inr (Some err, dn_RemoveFromPeerStore D s2 node)
           | (None, s2) \<Rightarrow> Inr (None, s2)))"

fun ConnectToBootnodes :: "'s disc_server \<Rightarrow> 's \<Rightarrow> addr_info list \<Rightarrow> go_err + 's" where
  "ConnectToBootnodes D s [] = Inr s"
| "ConnectToBootnodes D s (nodeInfo # rest) =
     (case addToTable D s nodeInfo of
        Inl e \<Rightarrow> Inl e
      | Inr (_, s1) \<Rightarrow> ConnectToBootnodes D s1 rest)"

fun addPeersToTable :: "'s disc_server \<Rightarrow> 's \<Rightarrow> string list \<Rightarrow> go_err + 's" where
  "addPeersToTable D s [] = Inr s"
| "addPeersToTable D s (nodeAddrStr # rest) =
     (case StringToAddrInfo (dn_codec D) nodeAddrStr of
        Inl _ \<Rightarrow> addPeersToTable D s rest
      | Inr nodeInfo \<Rightarrow>
          (case addToTable D s nodeInfo of
             Inl e \<Rightarrow> Inl e
           | Inr (_, s1) \<Rightarrow> addPeersToTable D s1 rest))"

definition findPeersCall ::
    "'s disc_server \<Rightarrow> 's \<Rightarrow> peer_id \<Rightarrow> bool \<Rightarrow> (go_err + string list) \<times> 's" where
  "findPeersCall D s peerID shouldCloseConn =
     (case dn_NewDiscoveryClient D s peerID of
        (Inl e, s1) \<Rightarrow> (Inl (GoWrap ''unable to create new discovery client connection, '' e), s1)
      | (Inr clt, s1) \<Rightarrow>
          (case dn_FindPeersRPC D s1 clt \<lparr>fr_Key = '''', fr_Count = maxDiscoveryPeerReqCount\<rparr> of
             (Inl e, s2) \<Rightarrow> (Inl e, s2)
           | (Inr nodes, s2) \<Rightarrow>
               if shouldCloseConn then
                 (case dn_CloseProtocolStream D s2 (dn_GetDiscProto D s2) peerID of
                    (Some closeErr, s3) \<Rightarrow> (Inl closeErr, s3)
                  | (None, s3) \<Rightarrow> (Inr nodes, s3))
               else (Inr nodes, s2)))"

definition attemptToFindPeers :: "'s disc_server \<Rightarrow> 's \<Rightarrow> peer_id \<Rightarrow> go_err + (go_err option \<times> 's)" where
  "attemptToFindPeers D s peerID =
     (case findPeersCall D s peerID False of
        (Inl e, s1) \<Rightarrow> Inr (Some e, s1)
      | (Inr nodes, s1) \<Rightarrow>
          (case addPeersToTable D s1 nodes of Inl e \<Rightarrow> Inl e | Inr s2 \<Rightarrow> Inr (None, s2)))"

definition regularPeerDiscovery :: "'s disc_server \<Rightarrow> 's \<Rightarrow> go_err + 's" where
  "regularPeerDiscovery D s =
     (if \<not> dn_HasFreeConnectionSlot D s DirOutbound then Inr s
      else case dn_GetRandomPeer D s of
          (None, s1) \<Rightarrow> Inr s1
        | (Some peerID, s1) \<Rightarrow>
            (case attemptToFindPeers D s1 peerID of Inl e \<Rightarrow> Inl e | Inr (_, s2) \<Rightarrow> Inr s2))"

text \<open>A round at a bootnode is a goroutine, and several may run at once: it is a machine whose step is one call
  on the server.  A turn of its search finds no bootnode, one that another round dials already, or one
  to dial, with the temporary status of the dial.\<close>

datatype search_result = SearchNone | SearchAgain | SearchFound addr_info bool

definition search_turn :: "'s disc_server \<Rightarrow> 's \<Rightarrow> search_result \<times> 's" where
  "search_turn D s =
     (case dn_GetRandomBootnode D s of
        (None, s1) \<Rightarrow> (SearchNone, s1)
      | (Some bootnode, s1) \<Rightarrow>
          if sint (dn_GetBootnodeConnCount D s1) > 0 then
            (case dn_FetchOrSetTemporaryDial D s1 (ai_ID bootnode) True of
               (alreadyTempDial, s2) \<Rightarrow>
                 (if alreadyTempDial then SearchAgain else SearchFound bootnode True, s2))
          else (SearchFound bootnode False, s1))"

datatype round_pc =
    RoundStart
  | RoundSearch
  | RoundDial addr_info bool
  | RoundQuery addr_info bool
  | RoundAdd addr_info bool "string list"
  | RoundDeferred addr_info bool
  | RoundDisconnect addr_info
  | RoundEnd

definition bootnodePeerDiscovery :: "'s disc_server \<Rightarrow> round_pc \<Rightarrow> 's \<Rightarrow> (go_err + round_pc) \<times> 's" where
  "bootnodePeerDiscovery D pc s = (case pc of
     RoundStart \<Rightarrow> (Inr (if dn_HasFreeConnectionSlot D s DirOutbound then RoundSearch else RoundEnd), s)
   | RoundSearch \<Rightarrow> (case search_turn D s of
         (SearchNone, s1) \<Rightarrow> (Inr RoundEnd, s1)
       | (SearchAgain, s1) \<Rightarrow> (Inr RoundSearch, s1)
       | (SearchFound bootnode isTemporaryDial, s1) \<Rightarrow> (Inr (RoundDial bootnode isTemporaryDial), s1))
   | RoundDial bootnode isTemporaryDial \<Rightarrow>
       (Inr (RoundQuery bootnode isTemporaryDial), dn_TemporaryDialPeer D s bootnode)
   | RoundQuery bootnode isTemporaryDial \<Rightarrow> (case findPeersCall D s (ai_ID bootnode) True of
         (Inl _, s1) \<Rightarrow> (Inr (RoundDeferred bootnode isTemporaryDial), s1)
       | (Inr foundNodes, s1) \<Rightarrow> (Inr (RoundAdd bootnode isTemporaryDial foundNodes), s1))
   | RoundAdd bootnode isTemporaryDial foundNodes \<Rightarrow> (case addPeersToTable D s foundNodes of
         Inl panic \<Rightarrow> (Inl panic, s)
       | Inr s1 \<Rightarrow> (Inr (RoundDeferred bootnode isTemporaryDial), s1))
   | RoundDeferred bootnode isTemporaryDial \<Rightarrow>
       (if isTemporaryDial then (Inr (RoundDisconnect bootnode), dn_RemoveTemporaryDial D s (ai_ID bootnode))
        else (Inr RoundEnd, s))
   | RoundDisconnect bootnode \<Rightarrow> (Inr RoundEnd, dn_DisconnectFromPeer D s (ai_ID bootnode) ''Thank you'')
   | RoundEnd \<Rightarrow> (Inr RoundEnd, s))"

text \<open>The bootnode a round holds: it has marked it as a temporary dial and not yet taken the mark away.\<close>

fun holds :: "round_pc \<Rightarrow> peer_id list" where
  "holds (RoundDial b t) = (if t then [ai_ID b] else [])"
| "holds (RoundQuery b t) = (if t then [ai_ID b] else [])"
| "holds (RoundAdd b t nodes) = (if t then [ai_ID b] else [])"
| "holds (RoundDeferred b t) = (if t then [ai_ID b] else [])"
| "holds _ = []"

fun collect_peers :: "'s disc_server \<Rightarrow> 's \<Rightarrow> peer_id \<Rightarrow> peer_id list \<Rightarrow> go_err + string list" where
  "collect_peers D s requester [] = Inr []"
| "collect_peers D s requester (p # ps) =
     (if p = requester then collect_peers D s requester ps
      else let info = dn_GetPeerInfo D s p in
        if length (ai_Addrs info) > 0 then
          (case AddrInfoToString (dn_codec D) info of
             Inl e \<Rightarrow> Inl e
           | Inr a \<Rightarrow> (case collect_peers D s requester ps of Inl e \<Rightarrow> Inl e | Inr as \<Rightarrow> Inr (a # as)))
        else collect_peers D s requester ps)"

text \<open>The requesting peer comes from the type assertion on the gRPC context: \<open>None\<close> when it fails.\<close>

definition FindPeers :: "'s disc_server \<Rightarrow> 's \<Rightarrow> peer_id option \<Rightarrow> find_peers_req \<Rightarrow> go_err + string list" where
  "FindPeers D s grpcPeer req =
     (case grpcPeer of
        None \<Rightarrow> Inl (GoErr ''invalid type assertion'')
      | Some requester \<Rightarrow>
          (let count = (if maxDiscoveryPeerReqCount <s fr_Count req then maxDiscoveryPeerReqCount
                        else fr_Count req);
               key = (if fr_Key req = '''' then ac_PeerString (dn_codec D) requester else fr_Key req);
               key' = dn_ConvertKey D key
           in case rt_NearestPeers D s key' (sint count) of
                Inl panic \<Rightarrow> Inl panic
              | Inr nearestPeers \<Rightarrow> collect_peers D s requester nearestPeers))"

section \<open>Temporary dials\<close>

text \<open>What the service relies on for its temporary dials: the two operations on the map do what
  they say, and no other operation of the interface changes it.\<close>

locale temp_dials =
  fixes D :: "'s disc_server" and tmp :: "'s \<Rightarrow> peer_id set"
  assumes law_fetch: "fst (dn_FetchOrSetTemporaryDial D s p v) \<longleftrightarrow> p \<in> tmp s"
      "tmp (snd (dn_FetchOrSetTemporaryDial D s p v)) = insert p (tmp s)"
    and law_remove: "tmp (dn_RemoveTemporaryDial D s p) = tmp s - {p}"
    and law_frame [simp]: "tmp (snd (dn_GetRandomBootnode D s)) = tmp s"
      "tmp (snd (dn_NewDiscoveryClient D s p)) = tmp s"
      "tmp (snd (dn_FindPeersRPC D s c q)) = tmp s"
      "tmp (snd (dn_CloseProtocolStream D s proto p)) = tmp s"
      "tmp (dn_DisconnectFromPeer D s p r) = tmp s"
      "dn_AddToPeerStore D s a = Inr s' \<Longrightarrow> tmp s' = tmp s"
      "tmp (dn_RemoveFromPeerStore D s a) = tmp s"
      "tmp (snd (dn_GetRandomPeer D s)) = tmp s"
      "tmp (dn_TemporaryDialPeer D s a) = tmp s"
      "tmp (snd (rt_TryAddPeer D s p)) = tmp s"
      "tmp (rt_RemovePeer D s p) = tmp s"
begin

lemma tmp_addToTable: "addToTable D s a = Inr (x, s') \<Longrightarrow> tmp s' = tmp s"
  using law_frame(10)
  by (auto simp: addToTable_def split: sum.splits prod.splits option.splits) (metis law_frame(6,10) snd_conv)+

lemma tmp_addPeersToTable: "addPeersToTable D s as = Inr s' \<Longrightarrow> tmp s' = tmp s"
proof (induction as arbitrary: s)
  case (Cons a as)
  then show ?case by (auto split: sum.splits prod.splits) (metis tmp_addToTable)+
qed simp

lemma tmp_findPeersCall: "findPeersCall D s p c = (x, s') \<Longrightarrow> tmp s' = tmp s"
  by (auto simp: findPeersCall_def split: sum.splits prod.splits option.splits if_splits)
    (metis law_frame(2-4) snd_conv)+

lemma tmp_search_turn:
  assumes "search_turn D s = (r, s')"
  shows "case r of
      SearchFound b True \<Rightarrow> ai_ID b \<notin> tmp s \<and> tmp s' = insert (ai_ID b) (tmp s)
    | _ \<Rightarrow> tmp s' = tmp s"
proof -
  obtain o1 s1 where b: "dn_GetRandomBootnode D s = (o1, s1)" by fastforce
  have t1: "tmp s1 = tmp s" using law_frame(1) [of s] b by simp
  show ?thesis
  proof (cases o1)
    case None then show ?thesis using assms b t1 by (auto simp: search_turn_def)
  next
    case (Some n)
    obtain l s2 where f: "dn_FetchOrSetTemporaryDial D s1 (ai_ID n) True = (l, s2)" by fastforce
    have "l \<longleftrightarrow> ai_ID n \<in> tmp s" "tmp s2 = insert (ai_ID n) (tmp s)"
      using law_fetch [of s1 "ai_ID n" True] f t1 by simp_all
    then show ?thesis using assms b Some f t1 by (auto simp: search_turn_def insert_absorb split: if_splits)
  qed
qed

text \<open>A step of a round marks exactly the bootnode the round then holds, and unmarks the one it gives up.\<close>

lemma tmp_round:
  assumes "bootnodePeerDiscovery D pc s = (Inr pc', s')"
  shows "tmp s' = tmp s \<and> holds pc' = holds pc \<or>
    (\<exists>b. holds pc = [] \<and> holds pc' = [b] \<and> b \<notin> tmp s \<and> tmp s' = insert b (tmp s)) \<or>
    (\<exists>b. holds pc = [b] \<and> holds pc' = [] \<and> tmp s' = tmp s - {b})"
proof (cases pc)
  case RoundSearch
  obtain r s1 where t: "search_turn D s = (r, s1)" by fastforce
  show ?thesis using assms RoundSearch t tmp_search_turn [OF t]
    by (auto simp: bootnodePeerDiscovery_def split: search_result.splits bool.splits)
next
  case (RoundQuery b t)
  then show ?thesis using assms tmp_findPeersCall
    by (auto simp: bootnodePeerDiscovery_def split: prod.splits sum.splits)
next
  case (RoundAdd b t nodes)
  then show ?thesis using assms tmp_addPeersToTable
    by (auto simp: bootnodePeerDiscovery_def split: sum.splits)
next
  case (RoundDeferred b t)
  then show ?thesis using assms law_remove by (auto simp: bootnodePeerDiscovery_def split: if_splits)
qed (use assms in \<open>auto simp: bootnodePeerDiscovery_def split: if_splits\<close>)

end

section \<open>Operations built from others\<close>

text \<open>A preorder on states that every operation of the interface follows is followed by every
  operation of the service.\<close>

locale disc_frame =
  fixes D :: "'s disc_server" and R :: "'s \<Rightarrow> 's \<Rightarrow> bool"
  assumes R_refl [simp, intro]: "R s s"
    and R_trans: "R s t \<Longrightarrow> R t u \<Longrightarrow> R s u"
    and R_op: "R s (snd (dn_GetRandomBootnode D s))" "R s (snd (dn_NewDiscoveryClient D s p))"
      "R s (snd (dn_FindPeersRPC D s c q))" "R s (snd (dn_CloseProtocolStream D s proto p))"
      "R s (dn_DisconnectFromPeer D s p r)" "R s (dn_RemoveFromPeerStore D s a)"
      "R s (snd (dn_GetRandomPeer D s))" "R s (snd (dn_FetchOrSetTemporaryDial D s p v))"
      "R s (dn_RemoveTemporaryDial D s p)" "R s (dn_TemporaryDialPeer D s a)"
      "R s (snd (rt_TryAddPeer D s p))" "R s (rt_RemovePeer D s p)"
    and R_store: "dn_AddToPeerStore D s a = Inr s' \<Longrightarrow> R s s'"
begin

lemma R_HandleNetworkEvent: "R s (HandleNetworkEvent D s ev)"
  by (simp add: HandleNetworkEvent_def Let_def R_op)

lemma R_addToTable:
  assumes "addToTable D s a = Inr (x, s')"
  shows "R s s'"
proof -
  from assms obtain s1 where s1: "dn_AddToPeerStore D s a = Inr s1"
    by (auto simp: addToTable_def split: sum.splits)
  obtain y s2 where t: "rt_TryAddPeer D s1 (ai_ID a) = (y, s2)" by fastforce
  have "R s s2" using R_trans [OF R_store [OF s1] R_op(11) [of s1 "ai_ID a"]] t by simp
  then show ?thesis
    using assms s1 t R_trans [OF _ R_op(6)] by (cases y) (auto simp: addToTable_def)
qed

lemma R_ConnectToBootnodes: "ConnectToBootnodes D s as = Inr s' \<Longrightarrow> R s s'"
proof (induction as arbitrary: s)
  case (Cons a as)
  then show ?case by (auto split: sum.splits prod.splits) (metis R_addToTable R_trans)+
qed simp

lemma R_addPeersToTable: "addPeersToTable D s as = Inr s' \<Longrightarrow> R s s'"
proof (induction as arbitrary: s)
  case (Cons a as)
  then show ?case by (auto split: sum.splits prod.splits) (metis R_addToTable R_trans)+
qed simp

lemma R_findPeersCall:
  assumes "findPeersCall D s p c = (x, s')"
  shows "R s s'"
proof -
  obtain y s1 where c: "dn_NewDiscoveryClient D s p = (y, s1)" by fastforce
  have r1: "R s s1" using R_op(2) [of s p] c by simp
  show ?thesis
  proof (cases y)
    case (Inl e)
    then show ?thesis using assms c r1 by (simp add: findPeersCall_def)
  next
    case (Inr clt)
    obtain z s2 where f: "dn_FindPeersRPC D s1 clt
        \<lparr>fr_Key = '''', fr_Count = maxDiscoveryPeerReqCount\<rparr> = (z, s2)"
      by fastforce
    have r2: "R s s2" using R_op(3) [of s1 clt] f r1 R_trans by (metis snd_conv)
    obtain k s3 where k: "dn_CloseProtocolStream D s2 (dn_GetDiscProto D s2) p = (k, s3)" by fastforce
    have "R s s3" using R_op(4) [of s2] k r2 R_trans by (metis snd_conv)
    then show ?thesis
      using assms c Inr f k r2 by (auto simp: findPeersCall_def split: sum.splits option.splits if_splits)
  qed
qed

lemma R_attemptToFindPeers: "attemptToFindPeers D s p = Inr (x, s') \<Longrightarrow> R s s'"
  by (auto simp: attemptToFindPeers_def split: sum.splits prod.splits)
    (metis R_findPeersCall R_addPeersToTable R_trans)+

lemma R_regularPeerDiscovery: "regularPeerDiscovery D s = Inr s' \<Longrightarrow> R s s'"
  by (auto simp: regularPeerDiscovery_def split: if_splits option.splits sum.splits prod.splits)
    (metis R_op(7) R_attemptToFindPeers R_trans snd_conv)+

lemma R_search_turn:
  assumes "search_turn D s = (r, s')"
  shows "R s s'"
proof -
  obtain b s1 where b: "dn_GetRandomBootnode D s = (b, s1)" by fastforce
  have r1: "R s s1" using R_op(1) [of s] b by simp
  show ?thesis
  proof (cases b)
    case None then show ?thesis using assms b r1 by (simp add: search_turn_def)
  next
    case (Some n)
    obtain l s2 where f: "dn_FetchOrSetTemporaryDial D s1 (ai_ID n) True = (l, s2)" by fastforce
    have "R s s2" using R_op(8) [of s1] f r1 R_trans by (metis snd_conv)
    then show ?thesis using assms b f Some r1 by (auto simp: search_turn_def split: if_splits)
  qed
qed

lemma R_bootnodePeerDiscovery:
  assumes "bootnodePeerDiscovery D pc s = (x, s')"
  shows "R s s'"
proof (cases pc)
  case RoundSearch
  obtain r s1 where t: "search_turn D s = (r, s1)" by fastforce
  show ?thesis using assms RoundSearch t R_search_turn [OF t]
    by (auto simp: bootnodePeerDiscovery_def split: search_result.splits bool.splits)
next
  case (RoundQuery b t)
  then show ?thesis using assms R_findPeersCall
    by (auto simp: bootnodePeerDiscovery_def split: prod.splits sum.splits)
next
  case (RoundAdd b t nodes)
  then show ?thesis using assms R_addPeersToTable
    by (auto simp: bootnodePeerDiscovery_def split: sum.splits)
qed (use assms R_op in \<open>auto simp: bootnodePeerDiscovery_def split: if_splits\<close>)

end

section \<open>Generic facts\<close>

lemma collect_peers_ok: "\<exists>as. collect_peers D s requester ps = Inr as \<and> length as \<le> length ps"
proof (induction ps)
  case (Cons p ps)
  then obtain as where "collect_peers D s requester ps = Inr as" "length as \<le> length ps" by blast
  then show ?case by (auto simp: AddrInfoToString_def Let_def)
qed simp

lemma collect_peers_set:
  "collect_peers D s requester ps = Inr as \<Longrightarrow> set as = {a. \<exists>p \<in> set ps. p \<noteq> requester \<and>
     ai_Addrs (dn_GetPeerInfo D s p) \<noteq> [] \<and> AddrInfoToString (dn_codec D) (dn_GetPeerInfo D s p) = Inr a}"
  by (induction ps arbitrary: as) (auto simp: Let_def split: if_splits sum.splits)

end
