(* ===== verification/Net_Server.thy ===== *)
theory Net_Server
  imports Dial_Queue Identity Discovery
begin

text \<open>
  The networking server: \<open>core/network/server.go\<close>, \<open>server_identity.go\<close> and
  \<open>server_discovery.go\<close>.  libp2p (host, peer store, streams, routing table) is the parameter record
  \<open>'w host\<close> over an opaque world \<open>'w\<close>; everything the repository itself keeps is in the record
  \<open>'w server\<close>.  The routing table's \<open>PeerAdded\<close> and \<open>PeerRemoved\<close> callbacks are invoked by the model
  when the library reports that it added or removed a peer.  \<open>server_id\<close> and \<open>server_disc\<close> are the
  server as the \<open>networkingServer\<close> of the identity and the discovery service.
\<close>

section \<open>The library\<close>

record 'w host =
  ho_codec :: addr_codec
  ho_PeerDecode :: "string \<Rightarrow> go_err + peer_id"
  ho_ConvertKey :: "string \<Rightarrow> nat list"
  ho_ID :: peer_id
  ho_Addrs :: "multiaddr list"
  ho_PeerInfo :: "'w \<Rightarrow> peer_id \<Rightarrow> addr_info"
  ho_AddAddr :: "'w \<Rightarrow> peer_id \<Rightarrow> multiaddr \<Rightarrow> 'w"
  ho_RemovePeer :: "'w \<Rightarrow> peer_id \<Rightarrow> 'w"
  ho_GetProtocols :: "'w \<Rightarrow> peer_id \<Rightarrow> go_err + string list"
  ho_Connected :: "'w \<Rightarrow> peer_id \<Rightarrow> bool"
  ho_Connect :: "'w \<Rightarrow> addr_info \<Rightarrow> go_err option \<times> 'w"
  ho_ClosePeer :: "'w \<Rightarrow> peer_id \<Rightarrow> go_err option \<times> 'w"
  ho_NewStream :: "'w \<Rightarrow> peer_id \<Rightarrow> string \<Rightarrow> (go_err + nat) \<times> 'w"
  ho_SetStreamHandler :: "'w \<Rightarrow> string \<Rightarrow> nat \<Rightarrow> 'w"
  ho_Client :: "nat \<Rightarrow> nat \<Rightarrow> nat"
  ho_CloseConn :: "'w \<Rightarrow> nat \<Rightarrow> go_err option \<times> 'w"
  ho_Close :: "'w \<Rightarrow> go_err option \<times> 'w"
  ho_Hello :: "'w \<Rightarrow> nat \<Rightarrow> id_status \<Rightarrow> (go_err + id_status) \<times> 'w"
  ho_FindPeers :: "'w \<Rightarrow> nat \<Rightarrow> find_peers_req \<Rightarrow> (go_err + string list) \<times> 'w"
  ho_RandInt :: "'w \<Rightarrow> nat \<Rightarrow> nat \<times> 'w"
  ho_MapOrder :: "'w \<Rightarrow> peer_id set \<Rightarrow> peer_id list"
  ho_NewRoutingTable :: "'w \<Rightarrow> go_err option \<times> 'w"
  ho_Subscribe :: "'w \<Rightarrow> go_err option \<times> 'w"
  hk_TryAddPeer :: "'w \<Rightarrow> peer_id \<Rightarrow> (go_err + bool) \<times> 'w"
  hk_RemovePeer :: "'w \<Rightarrow> peer_id \<Rightarrow> bool \<times> 'w"
  hk_NearestPeers :: "'w \<Rightarrow> nat list \<Rightarrow> int \<Rightarrow> go_err + peer_id list"
  hk_Size :: "'w \<Rightarrow> nat"
  hk_ListPeers :: "'w \<Rightarrow> peer_id list"

section \<open>State\<close>

record peer_conn_info =
  pci_Info :: addr_info
  connDirections :: "direction \<rightharpoonup> bool"
  protocolStreams :: "string \<rightharpoonup> nat option"

record 'w server =
  sv_config :: net_config
  sv_closed :: bool
  sv_addrs :: "multiaddr list"
  sv_peers :: "peer_id \<rightharpoonup> peer_conn_info"
  sv_dialQueue :: dial_queue
  sv_discovery :: bool
  sv_startDiscovery :: bool
  sv_protocols :: "string \<rightharpoonup> nat"
  sv_connectionCounts :: conn_info
  sv_temporaryDials :: "peer_id \<rightharpoonup> bool"
  sv_bootnodes :: bootnodes_wrapper
  sv_discProto :: string
  sv_identityProto :: string
  sv_events :: "peer_event list"
  sv_crashed :: bool
  sv_world :: 'w

text \<open>\<open>sv_discovery\<close> tells whether the pointer is set, \<open>sv_events\<close> logs what was emitted on the event
  bus, \<open>sv_crashed\<close> records a nil dereference in a callback.\<close>

definition NewServer_state :: "'w host \<Rightarrow> net_config \<Rightarrow> string \<Rightarrow> string \<Rightarrow> 'w \<Rightarrow> 'w server" where
  "NewServer_state H cfg discProto identityProto w =
     \<lparr>sv_config = cfg, sv_closed = False, sv_addrs = ho_Addrs H, sv_peers = Map.empty,
      sv_dialQueue = NewDialQueue, sv_discovery = False, sv_startDiscovery = False,
      sv_protocols = Map.empty,
      sv_connectionCounts = NewBlankConnectionInfo (cfg_MaxInboundPeers cfg) (cfg_MaxOutboundPeers cfg),
      sv_temporaryDials = Map.empty,
      sv_bootnodes = \<lparr>bootnodeArr = [], bootnodesMap = Map.empty, bootnodeConnCount = 0\<rparr>,
      sv_discProto = discProto, sv_identityProto = identityProto,
      sv_events = [], sv_crashed = False, sv_world = w\<rparr>"

definition on_world :: "('w \<Rightarrow> 'a \<times> 'w) \<Rightarrow> 'w server \<Rightarrow> 'a \<times> 'w server" where
  "on_world f s = (case f (sv_world s) of (x, w) \<Rightarrow> (x, s\<lparr>sv_world := w\<rparr>))"

section \<open>Protocol streams of a peer\<close>

definition addProtocolStream :: "string \<Rightarrow> nat option \<Rightarrow> peer_conn_info \<Rightarrow> peer_conn_info" where
  "addProtocolStream proto stream pci = pci\<lparr>protocolStreams := (protocolStreams pci)(proto \<mapsto> stream)\<rparr>"

text \<open>The stream to close, if the removed entry held one.\<close>

definition removeProtocolStream :: "string \<Rightarrow> peer_conn_info \<Rightarrow> nat option \<times> peer_conn_info" where
  "removeProtocolStream proto pci =
     (case protocolStreams pci proto of
        None \<Rightarrow> (None, pci)
      | Some stream \<Rightarrow> (stream, pci\<lparr>protocolStreams := (protocolStreams pci)(proto := None)\<rparr>))"

definition getProtocolStream :: "string \<Rightarrow> peer_conn_info \<Rightarrow> nat option" where
  "getProtocolStream proto pci = (case protocolStreams pci proto of None \<Rightarrow> None | Some stream \<Rightarrow> stream)"

section \<open>Queries\<close>

definition sv_HasFreeConnectionSlot :: "'w server \<Rightarrow> direction \<Rightarrow> bool" where
  "sv_HasFreeConnectionSlot s d = ci_HasFreeConnectionSlot d (sv_connectionCounts s)"

definition numPeers :: "'w server \<Rightarrow> int64" where
  "numPeers s = of_nat (card (dom (sv_peers s)))"

definition Peers :: "'w host \<Rightarrow> 'w server \<Rightarrow> peer_conn_info list" where
  "Peers H s = map (\<lambda>p. the (sv_peers s p)) (ho_MapOrder H (sv_world s) (dom (sv_peers s)))"

definition hasPeer :: "'w server \<Rightarrow> peer_id \<Rightarrow> bool" where
  "hasPeer s p \<longleftrightarrow> sv_peers s p \<noteq> None"

definition IsConnected :: "'w host \<Rightarrow> 'w server \<Rightarrow> peer_id \<Rightarrow> bool" where
  "IsConnected H s p \<longleftrightarrow> ho_Connected H (sv_world s) p"

definition GetProtocols :: "'w host \<Rightarrow> 'w server \<Rightarrow> peer_id \<Rightarrow> go_err + string list" where
  "GetProtocols H s p = ho_GetProtocols H (sv_world s) p"

definition sv_AddrInfo :: "'w host \<Rightarrow> 'w server \<Rightarrow> addr_info" where
  "sv_AddrInfo H s = \<lparr>ai_ID = ho_ID H, ai_Addrs = sv_addrs s\<rparr>"

definition GetPeerInfo :: "'w host \<Rightarrow> 'w server \<Rightarrow> peer_id \<Rightarrow> addr_info" where
  "GetPeerInfo H s p = ho_PeerInfo H (sv_world s) p"

definition IsTemporaryDial :: "'w server \<Rightarrow> peer_id \<Rightarrow> bool" where
  "IsTemporaryDial s p \<longleftrightarrow> sv_temporaryDials s p \<noteq> None"

definition GetBootnodeConnCount :: "'w server \<Rightarrow> int64" where
  "GetBootnodeConnCount s = getBootnodeConnCount (sv_bootnodes s)"

definition getProtoStream :: "'w server \<Rightarrow> string \<Rightarrow> peer_id \<Rightarrow> nat option" where
  "getProtoStream s proto p =
     (case sv_peers s p of None \<Rightarrow> None | Some pci \<Rightarrow> getProtocolStream proto pci)"

section \<open>Dialling\<close>

definition emitEvent :: "'w server \<Rightarrow> peer_id \<Rightarrow> peer_event_type \<Rightarrow> 'w server" where
  "emitEvent s p ty = s\<lparr>sv_events := sv_events s @ [\<lparr>ev_PeerID = p, ev_Type = ty\<rparr>]\<rparr>"

definition EmitEvent :: "'w server \<Rightarrow> peer_event \<Rightarrow> 'w server" where
  "EmitEvent s ev = emitEvent s (ev_PeerID ev) (ev_Type ev)"

definition addToDialQueue :: "'w server \<Rightarrow> addr_info \<Rightarrow> u64 \<Rightarrow> 'w server" where
  "addToDialQueue s addr priority =
     emitEvent (s\<lparr>sv_dialQueue := AddTask (sv_dialQueue s) addr priority\<rparr>) (ai_ID addr) PeerAddedToDialQueue"

definition sv_joinPeer :: "'w server \<Rightarrow> addr_info \<Rightarrow> 'w server" where
  "sv_joinPeer s info = addToDialQueue s info PriorityRequestedDial"

definition JoinPeer :: "'w host \<Rightarrow> 'w server \<Rightarrow> string \<Rightarrow> go_err option \<times> 'w server" where
  "JoinPeer H s raw =
     (case ac_NewMultiaddr (ho_codec H) raw of
        Inl e \<Rightarrow> (Some e, s)
      | Inr m \<Rightarrow> (case ac_AddrInfoFromP2pAddr (ho_codec H) m of
          Inl e \<Rightarrow> (Some e, s)
        | Inr info \<Rightarrow> (None, sv_joinPeer s info)))"

definition TemporaryDialPeer :: "'w server \<Rightarrow> addr_info \<Rightarrow> 'w server" where
  "TemporaryDialPeer s info = addToDialQueue s info PriorityRandomDial"

definition DisconnectFromPeer :: "'w host \<Rightarrow> 'w server \<Rightarrow> peer_id \<Rightarrow> string \<Rightarrow> 'w server" where
  "DisconnectFromPeer H s p reason =
     (if ho_Connected H (sv_world s) p then snd (on_world (\<lambda>w. ho_ClosePeer H w p) s) else s)"

definition FetchOrSetTemporaryDial :: "'w server \<Rightarrow> peer_id \<Rightarrow> bool \<Rightarrow> bool \<times> 'w server" where
  "FetchOrSetTemporaryDial s p v =
     (case sv_temporaryDials s p of
        Some _ \<Rightarrow> (True, s)
      | None \<Rightarrow> (False, s\<lparr>sv_temporaryDials := (sv_temporaryDials s)(p \<mapsto> v)\<rparr>))"

definition RemoveTemporaryDial :: "'w server \<Rightarrow> peer_id \<Rightarrow> 'w server" where
  "RemoveTemporaryDial s p = s\<lparr>sv_temporaryDials := (sv_temporaryDials s)(p := None)\<rparr>"

section \<open>The routing table and its callbacks\<close>

definition sv_PeerAdded :: "'w host \<Rightarrow> 'w server \<Rightarrow> peer_id \<Rightarrow> 'w server" where
  "sv_PeerAdded H s p =
     (if sv_startDiscovery s then addToDialQueue s (ho_PeerInfo H (sv_world s) p) PriorityRandomDial else s)"

definition sv_PeerRemoved :: "'w server \<Rightarrow> peer_id \<Rightarrow> 'w server" where
  "sv_PeerRemoved s p = s\<lparr>sv_dialQueue := DeleteTask (sv_dialQueue s) p\<rparr>"

definition sv_TryAddPeer :: "'w host \<Rightarrow> 'w server \<Rightarrow> peer_id \<Rightarrow> go_err option \<times> 'w server" where
  "sv_TryAddPeer H s p =
     (case on_world (\<lambda>w. hk_TryAddPeer H w p) s of
        (Inl e, s1) \<Rightarrow> (Some e, s1)
      | (Inr added, s1) \<Rightarrow> (None, if added then sv_PeerAdded H s1 p else s1))"

definition sv_rtRemovePeer :: "'w host \<Rightarrow> 'w server \<Rightarrow> peer_id \<Rightarrow> 'w server" where
  "sv_rtRemovePeer H s p =
     (case on_world (\<lambda>w. hk_RemovePeer H w p) s of
        (removed, s1) \<Rightarrow> if removed then sv_PeerRemoved s1 p else s1)"

definition AddToPeerStore :: "'w host \<Rightarrow> 'w server \<Rightarrow> addr_info \<Rightarrow> go_err + 'w server" where
  "AddToPeerStore H s info =
     (case ai_Addrs info of
        [] \<Rightarrow> Inl (GoPanic ''index out of range [0] with length 0'')
      | a # _ \<Rightarrow> Inr (s\<lparr>sv_world := ho_AddAddr H (sv_world s) (ai_ID info) a\<rparr>))"

definition RemoveFromPeerStore :: "'w host \<Rightarrow> 'w server \<Rightarrow> addr_info \<Rightarrow> 'w server" where
  "RemoveFromPeerStore H s info = s\<lparr>sv_world := ho_RemovePeer H (sv_world s) (ai_ID info)\<rparr>"

section \<open>Random choices\<close>

definition GetRandomBootnode :: "'w host \<Rightarrow> 'w server \<Rightarrow> addr_info option \<times> 'w server" where
  "GetRandomBootnode H s =
     (let nonConnectedNodes = filter (\<lambda>v. \<not> hasPeer s (ai_ID v)) (getBootnodes (sv_bootnodes s)) in
      if length nonConnectedNodes > 0 then
        (case on_world (\<lambda>w. ho_RandInt H w (length nonConnectedNodes)) s of
           (randNum, s1) \<Rightarrow> (Some (nonConnectedNodes ! randNum), s1))
      else (None, s))"

definition GetRandomPeer :: "'w host \<Rightarrow> 'w server \<Rightarrow> peer_id option \<times> 'w server" where
  "GetRandomPeer H s =
     (let n = card (dom (sv_peers s)) in
      if n < 1 then (None, s)
      else case on_world (\<lambda>w. ho_RandInt H w n) s of
        (randNum, s1) \<Rightarrow>
          (let order = ho_MapOrder H (sv_world s1) (dom (sv_peers s1))
           in (if randNum < length order then Some (order ! randNum) else None, s1)))"

section \<open>Streams and clients\<close>

definition NewStream :: "'w host \<Rightarrow> 'w server \<Rightarrow> string \<Rightarrow> peer_id \<Rightarrow> (go_err + nat) \<times> 'w server" where
  "NewStream H s proto p = on_world (\<lambda>w. ho_NewStream H w p proto) s"

definition NewProtoConnection :: "'w host \<Rightarrow> 'w server \<Rightarrow> string \<Rightarrow> peer_id \<Rightarrow> (go_err + nat) \<times> 'w server" where
  "NewProtoConnection H s proto p =
     (case sv_protocols s proto of
        None \<Rightarrow> (Inl (GoErr (''protocol not found: '' @ proto)), s)
      | Some pr \<Rightarrow>
          (case NewStream H s proto p of
             (Inl e, s1) \<Rightarrow> (Inl e, s1)
           | (Inr stream, s1) \<Rightarrow> (Inr (ho_Client H pr stream), s1)))"

definition RegisterProtocol :: "'w host \<Rightarrow> 'w server \<Rightarrow> string \<Rightarrow> nat \<Rightarrow> 'w server" where
  "RegisterProtocol H s ident p =
     s\<lparr>sv_protocols := (sv_protocols s)(ident \<mapsto> p), sv_world := ho_SetStreamHandler H (sv_world s) ident p\<rparr>"

definition NewIdentityClient :: "'w host \<Rightarrow> 'w server \<Rightarrow> peer_id \<Rightarrow> (go_err + nat) \<times> 'w server" where
  "NewIdentityClient H s p =
     (case NewProtoConnection H s (sv_identityProto s) p of
        (Inl e, s1) \<Rightarrow> (Inl e, s1)
      | (Inr stream, s1) \<Rightarrow> (Inr stream, s1))"

definition SaveProtocolStream :: "'w server \<Rightarrow> string \<Rightarrow> nat \<Rightarrow> peer_id \<Rightarrow> 'w server" where
  "SaveProtocolStream s proto stream p =
     (case sv_peers s p of
        None \<Rightarrow> s
      | Some pci \<Rightarrow> s\<lparr>sv_peers := (sv_peers s)(p \<mapsto> addProtocolStream proto (Some stream) pci)\<rparr>)"

definition CloseProtocolStream :: "'w host \<Rightarrow> 'w server \<Rightarrow> string \<Rightarrow> peer_id \<Rightarrow> go_err option \<times> 'w server" where
  "CloseProtocolStream H s proto p =
     (case sv_peers s p of
        None \<Rightarrow> (None, s)
      | Some pci \<Rightarrow>
          (case removeProtocolStream proto pci of
             (stream, pci') \<Rightarrow>
               let s1 = s\<lparr>sv_peers := (sv_peers s)(p \<mapsto> pci')\<rparr> in
               (case stream of None \<Rightarrow> (None, s1)
                | Some c \<Rightarrow> on_world (\<lambda>w. ho_CloseConn H w c) s1)))"

definition NewDiscoveryClient :: "'w host \<Rightarrow> 'w server \<Rightarrow> peer_id \<Rightarrow> (go_err + nat) \<times> 'w server" where
  "NewDiscoveryClient H s p =
     (let isTemporaryDial = IsTemporaryDial s p in
      if \<not> IsConnected H s p \<and> \<not> isTemporaryDial
      then (Inl (GoErr (''could not initialize new discovery client - peer ['' @
             ac_PeerString (ho_codec H) p @ ''] not connected'')), s)
      else case getProtoStream s (sv_discProto s) p of
        Some protoStream \<Rightarrow> (Inr protoStream, s)
      | None \<Rightarrow>
          (case NewProtoConnection H s (sv_discProto s) p of
             (Inl e, s1) \<Rightarrow> (Inl e, s1)
           | (Inr protoStream, s1) \<Rightarrow>
               (Inr protoStream, if \<not> isTemporaryDial
                  then SaveProtocolStream s1 (sv_discProto s1) protoStream p else s1)))"

end
