(* ===== verification/Net_Peers.thy ===== *)
theory Net_Peers
  imports Net_Server
begin

text \<open>
  The peer table of the networking server and its counters (\<open>addPeerInfo\<close>, \<open>removePeerInfo\<close>,
  \<open>AddPeer\<close>, \<open>removePeer\<close>, \<open>updateBootnodeConnCount\<close>), start-up and shutdown, the dial loop and the
  keep-alive loop, the server as the interface of the identity and discovery services, and the
  proof that the counters always agree with the table.
\<close>

section \<open>The server as networkingServer of the discovery service\<close>

definition server_disc :: "'w host \<Rightarrow> 'w server disc_server" where
  "server_disc H = \<lparr>dn_codec = ho_codec H, dn_ConvertKey = ho_ConvertKey H,
     dn_GetDiscProto = sv_discProto,
     dn_GetRandomBootnode = GetRandomBootnode H,
     dn_GetBootnodeConnCount = GetBootnodeConnCount,
     dn_NewDiscoveryClient = NewDiscoveryClient H,
     dn_FindPeersRPC = (\<lambda>s c q. on_world (\<lambda>w. ho_FindPeers H w c q) s),
     dn_CloseProtocolStream = CloseProtocolStream H,
     dn_DisconnectFromPeer = DisconnectFromPeer H,
     dn_AddToPeerStore = AddToPeerStore H,
     dn_RemoveFromPeerStore = RemoveFromPeerStore H,
     dn_GetPeerInfo = GetPeerInfo H,
     dn_GetRandomPeer = GetRandomPeer H,
     dn_FetchOrSetTemporaryDial = FetchOrSetTemporaryDial,
     dn_RemoveTemporaryDial = RemoveTemporaryDial,
     dn_TemporaryDialPeer = TemporaryDialPeer,
     dn_HasFreeConnectionSlot = sv_HasFreeConnectionSlot,
     rt_TryAddPeer = sv_TryAddPeer H,
     rt_RemovePeer = sv_rtRemovePeer H,
     rt_NearestPeers = (\<lambda>s. hk_NearestPeers H (sv_world s)),
     rt_Size = (\<lambda>s. hk_Size H (sv_world s)),
     rt_ListPeers = (\<lambda>s. hk_ListPeers H (sv_world s))\<rparr>"

text \<open>The calls \<open>s.discovery.HandleNetworkEvent\<close> dereference the pointer.\<close>

definition notify_discovery :: "'w host \<Rightarrow> 'w server \<Rightarrow> peer_event \<Rightarrow> 'w server" where
  "notify_discovery H s ev =
     (if sv_discovery s then HandleNetworkEvent (server_disc H) s ev else s\<lparr>sv_crashed := True\<rparr>)"

section \<open>The peer table\<close>

definition updateBootnodeConnCount :: "'w server \<Rightarrow> peer_id \<Rightarrow> int64 \<Rightarrow> 'w server" where
  "updateBootnodeConnCount s p delta =
     (if cfg_NoDiscover (sv_config s) \<or> \<not> isBootnode (sv_bootnodes s) p then s
      else s\<lparr>sv_bootnodes := increaseBootnodeConnCount delta (sv_bootnodes s)\<rparr>)"

definition updateConnCount :: "'w server \<Rightarrow> int64 \<Rightarrow> direction \<Rightarrow> 'w server" where
  "updateConnCount s delta d =
     s\<lparr>sv_connectionCounts := UpdateConnCountByDirection delta d (sv_connectionCounts s)\<rparr>"

definition new_peer_conn_info :: "addr_info \<Rightarrow> peer_conn_info" where
  "new_peer_conn_info info =
     \<lparr>pci_Info = info, connDirections = Map.empty, protocolStreams = Map.empty\<rparr>"

definition addPeerInfo :: "'w host \<Rightarrow> 'w server \<Rightarrow> peer_id \<Rightarrow> direction \<Rightarrow> bool \<times> 'w server" where
  "addPeerInfo H s p d =
     (case sv_peers s p of
        Some ci \<Rightarrow>
          if connDirections ci d = Some True then (True, s)
          else (False,
            updateBootnodeConnCount (updateConnCount (s\<lparr>sv_peers := (sv_peers s)(p \<mapsto>
              ci\<lparr>connDirections := (connDirections ci)(d \<mapsto> True)\<rparr>)\<rparr>) 1 d) p 1)
      | None \<Rightarrow>
          (let ci = new_peer_conn_info (ho_PeerInfo H (sv_world s) p) in
           (False,
            updateBootnodeConnCount (updateConnCount (s\<lparr>sv_peers := (sv_peers s)(p \<mapsto>
              ci\<lparr>connDirections := (connDirections ci)(d \<mapsto> True)\<rparr>)\<rparr>) 1 d) p 1)))"

definition AddPeer :: "'w host \<Rightarrow> 'w server \<Rightarrow> peer_id \<Rightarrow> direction \<Rightarrow> 'w server" where
  "AddPeer H s p d =
     (case addPeerInfo H s p d of
        (True, s1) \<Rightarrow> s1
      | (False, s1) \<Rightarrow> notify_discovery H s1 \<lparr>ev_PeerID = p, ev_Type = PeerConnected\<rparr>)"

text \<open>The loop of \<open>removePeerInfo\<close> over the directions of the removed peer.\<close>

definition drop_direction :: "peer_id \<Rightarrow> peer_conn_info \<Rightarrow> direction \<Rightarrow> 'w server \<Rightarrow> 'w server" where
  "drop_direction p ci d s =
     (if connDirections ci d = Some True
      then updateBootnodeConnCount (updateConnCount s (-1) d) p (-1) else s)"

definition removePeerInfo :: "'w server \<Rightarrow> peer_id \<Rightarrow> peer_conn_info option \<times> 'w server" where
  "removePeerInfo s p =
     (case sv_peers s p of
        None \<Rightarrow> (None, s)
      | Some ci \<Rightarrow>
          (Some ci, fold (drop_direction p ci) all_directions (s\<lparr>sv_peers := (sv_peers s)(p := None)\<rparr>)))"

definition removePeer :: "'w host \<Rightarrow> 'w server \<Rightarrow> peer_id \<Rightarrow> 'w server" where
  "removePeer H s p =
     (case removePeerInfo s p of
        (None, s1) \<Rightarrow> s1
      | (Some _, s1) \<Rightarrow> notify_discovery H s1 \<lparr>ev_PeerID = p, ev_Type = PeerDisconnected\<rparr>)"

definition UpdatePendingConnCount :: "'w server \<Rightarrow> int64 \<Rightarrow> direction \<Rightarrow> 'w server" where
  "UpdatePendingConnCount s delta d =
     s\<lparr>sv_connectionCounts := UpdatePendingConnCountByDirection delta d (sv_connectionCounts s)\<rparr>"

definition server_id :: "'w host \<Rightarrow> 'w server id_server" where
  "server_id H = \<lparr>is_PeerString = ac_PeerString (ho_codec H), is_PeerDecode = ho_PeerDecode H,
     is_Hello = (\<lambda>s c q. on_world (\<lambda>w. ho_Hello H w c q) s),
     is_NewIdentityClient = NewIdentityClient H,
     is_DisconnectFromPeer = DisconnectFromPeer H,
     is_AddPeer = AddPeer H,
     is_UpdatePendingConnCount = UpdatePendingConnCount,
     is_EmitEvent = EmitEvent,
     is_IsTemporaryDial = IsTemporaryDial,
     is_HasFreeConnectionSlot = sv_HasFreeConnectionSlot\<rparr>"

section \<open>Start-up and shutdown\<close>

fun parse_bootnodes ::
    "'w host \<Rightarrow> string list \<Rightarrow> addr_info list \<Rightarrow> (peer_id \<rightharpoonup> addr_info) \<Rightarrow>
      go_err + (addr_info list \<times> (peer_id \<rightharpoonup> addr_info))" where
  "parse_bootnodes H [] arr m = Inr (arr, m)"
| "parse_bootnodes H (rawAddr # rest) arr m =
     (case StringToAddrInfo (ho_codec H) rawAddr of
        Inl e \<Rightarrow> Inl (GoWrap (''failed to parse bootnode '' @ rawAddr @ '': '') e)
      | Inr bootnode \<Rightarrow>
          if ai_ID bootnode = ho_ID H then parse_bootnodes H rest arr m
          else parse_bootnodes H rest (arr @ [bootnode]) (m(ai_ID bootnode \<mapsto> bootnode)))"

text \<open>\<open>None\<close> is a nil slice of bootnodes.\<close>

definition setupBootnodes :: "'w host \<Rightarrow> 'w server \<Rightarrow> string list option \<Rightarrow> go_err + 'w server" where
  "setupBootnodes H s bootnodes =
     (case bootnodes of
        None \<Rightarrow> Inl (GoErr ''no bootnodes specified'')
      | Some raw \<Rightarrow>
          if length raw < MinimumBootNodes then Inl (GoErr ''minimum 1 bootnode is required'')
          else case parse_bootnodes H raw [] Map.empty of
            Inl e \<Rightarrow> Inl e
          | Inr (arr, m) \<Rightarrow>
              Inr (s\<lparr>sv_bootnodes := \<lparr>bootnodeArr = arr, bootnodesMap = m, bootnodeConnCount = 0\<rparr>\<rparr>))"

text \<open>\<open>grpc1\<close> and \<open>grpc2\<close> stand for the two gRPC stream servers that are created and registered.\<close>

definition setupIdentity :: "'w host \<Rightarrow> 'w server \<Rightarrow> nat \<Rightarrow> 'w server \<times> identity_service" where
  "setupIdentity H s grpc1 =
     (RegisterProtocol H s (sv_identityProto s) grpc1,
      NewIdentityService (cfg_NetworkID (sv_config s)) (ho_ID H))"

definition setupDiscovery :: "'w host \<Rightarrow> 'w server \<Rightarrow> bool \<Rightarrow> nat \<Rightarrow> go_err + 'w server" where
  "setupDiscovery H s startDiscoverty grpc2 =
     (case on_world (ho_NewRoutingTable H) s of
        (Some e, _) \<Rightarrow> Inl e
      | (None, s1) \<Rightarrow>
          (let s2 = s1\<lparr>sv_startDiscovery := startDiscoverty\<rparr> in
           case on_world (ho_Subscribe H) s2 of
             (Some e, _) \<Rightarrow> Inl (GoWrap ''unable to subscribe to network events, '' e)
           | (None, s3) \<Rightarrow>
               (let s4 = RegisterProtocol H s3 (sv_discProto s3) grpc2 in
                case ConnectToBootnodes (server_disc H) s4 (getBootnodes (sv_bootnodes s4)) of
                  Inl e \<Rightarrow> Inl e
                | Inr s5 \<Rightarrow> Inr (s5\<lparr>sv_discovery := True\<rparr>))))"

definition Start :: "'w host \<Rightarrow> 'w server \<Rightarrow> string list option \<Rightarrow> nat \<Rightarrow> nat \<Rightarrow> go_err + ('w server \<times> identity_service)" where
  "Start H s bootnodes grpc1 grpc2 =
     (case AddrInfoToString (ho_codec H) (sv_AddrInfo H s) of
        Inl e \<Rightarrow> Inl e
      | Inr _ \<Rightarrow>
     (case setupIdentity H s grpc1 of
        (s1, ident) \<Rightarrow>
     (case setupBootnodes H s1 bootnodes of
        Inl e \<Rightarrow> Inl (GoWrap ''unable to parse bootnode data, '' e)
      | Inr s2 \<Rightarrow>
     (case setupDiscovery H s2 True grpc2 of
        Inl e \<Rightarrow> Inl (GoWrap ''unable to setup discovery, '' e)
      | Inr s3 \<Rightarrow> Inr (s3, ident)))))"

definition StartMininum :: "'w host \<Rightarrow> 'w server \<Rightarrow> nat \<Rightarrow> nat \<Rightarrow> go_err + ('w server \<times> identity_service)" where
  "StartMininum H s grpc1 grpc2 =
     (case AddrInfoToString (ho_codec H) (sv_AddrInfo H s) of
        Inl e \<Rightarrow> Inl e
      | Inr _ \<Rightarrow>
     (case setupIdentity H s grpc1 of
        (s1, ident) \<Rightarrow>
     (case setupDiscovery H s1 False grpc2 of
        Inl e \<Rightarrow> Inl (GoWrap ''unable to setup discovery, '' e)
      | Inr s3 \<Rightarrow> Inr (s3, ident))))"

text \<open>Closing twice panics in \<open>close\<close> of the dial queue's channel.  The discovery service's own
  channel is closed once with it.\<close>

definition sv_Close :: "'w host \<Rightarrow> 'w server \<Rightarrow> go_err + (go_err option \<times> 'w server)" where
  "sv_Close H s =
     (case on_world (ho_Close H) s of
        (err, s1) \<Rightarrow>
          (case Close_dq (sv_dialQueue s1) of
             Inl e \<Rightarrow> Inl e
           | Inr q \<Rightarrow> Inr (err, s1\<lparr>sv_dialQueue := q, sv_closed := True\<rparr>)))"

section \<open>The loops\<close>

text \<open>One turn of the inner loop of \<open>runDial\<close>: the slot test, the pop (which would block on an
  empty open queue) and the connection attempt.\<close>

datatype dial_outcome = DialNoSlot | DialWouldBlock | DialClosed | DialDone

definition dial_iteration :: "'w host \<Rightarrow> 'w server \<Rightarrow> dial_outcome \<times> 'w server" where
  "dial_iteration H s =
     (if \<not> HasFreeOutboundConn (sv_connectionCounts s) then (DialNoSlot, s)
      else case popTaskImpl (sv_dialQueue s) of
        (None, _) \<Rightarrow> (if dq_closed (sv_dialQueue s) then DialClosed else DialWouldBlock, s)
      | (Some tt, q) \<Rightarrow>
          (let peerInfo = GetAddrInfo (dq_store q tt);
               s1 = s\<lparr>sv_dialQueue := q\<rparr> in
           if IsConnected H s1 (ai_ID peerInfo) then (DialDone, s1)
           else case on_world (\<lambda>w. ho_Connect H w peerInfo) s1 of
             (None, s2) \<Rightarrow> (DialDone, s2)
           | (Some _, s2) \<Rightarrow> (DialDone, emitEvent s2 (ai_ID peerInfo) PeerFailedToConnect)))"

text \<open>The events for which the subscription of \<open>runDial\<close> wakes the loop.\<close>

definition dial_wakes :: "peer_event_type \<Rightarrow> bool" where
  "dial_wakes ty \<longleftrightarrow> ty \<in> {PeerConnected, PeerFailedToConnect, PeerDisconnected, PeerDialCompleted,
     PeerAddedToDialQueue}"

definition keepAlive_tick :: "'w host \<Rightarrow> 'w server \<Rightarrow> 'w server" where
  "keepAlive_tick H s =
     (if numPeers s <s MinimumPeerConnections then
        if cfg_NoDiscover (sv_config s) \<or> \<not> hasBootnodes (sv_bootnodes s) then
          (case GetRandomPeer H s of
             (None, s1) \<Rightarrow> s1
           | (Some randPeer, s1) \<Rightarrow>
               if \<not> IsConnected H s1 randPeer
               then addToDialQueue s1 (GetPeerInfo H s1 randPeer) PriorityRandomDial else s1)
        else (case GetRandomBootnode H s of
             (None, s1) \<Rightarrow> s1
           | (Some randomNode, s1) \<Rightarrow> addToDialQueue s1 randomNode PriorityRandomDial)
      else s)"

section \<open>What the operations leave alone\<close>

text \<open>\<open>core\<close> is the part of the state the counters are about; \<open>keeps\<close> relates two states with the
  same core, the second with a well-formed dial queue if the first has one.\<close>

definition core :: "'w server \<Rightarrow> (peer_id \<Rightarrow> (direction \<rightharpoonup> bool) option) \<times> conn_info \<times> bootnodes_wrapper \<times> net_config" where
  "core s = (\<lambda>p. map_option connDirections (sv_peers s p), sv_connectionCounts s, sv_bootnodes s, sv_config s)"

definition keeps :: "'w server \<Rightarrow> 'w server \<Rightarrow> bool" where
  "keeps s s' \<longleftrightarrow> core s' = core s \<and> (dq_inv (sv_dialQueue s) \<longrightarrow> dq_inv (sv_dialQueue s'))"

lemma keeps_trans [trans]: "keeps s t \<Longrightarrow> keeps t u \<Longrightarrow> keeps s u"
  by (simp add: keeps_def)

text \<open>A relation between states that the elementary updates stay in holds across the operations that are
  made of them; \<open>keeps\<close> is one, and the dial loop has another.\<close>

locale server_frame =
  fixes R :: "'w server \<Rightarrow> 'w server \<Rightarrow> bool"
  assumes R_same [simp, intro]: "R s s"
    and R_chain: "R s t \<Longrightarrow> R t u \<Longrightarrow> R s u"
    and R_world [simp]: "R s (s\<lparr>sv_world := w\<rparr>)"
    and R_events: "R s (s\<lparr>sv_events := sv_events s @ es\<rparr>)"
    and R_AddTask: "R s (s\<lparr>sv_dialQueue := AddTask (sv_dialQueue s) a pr\<rparr>)"
    and R_DeleteTask: "R s (s\<lparr>sv_dialQueue := DeleteTask (sv_dialQueue s) p\<rparr>)"
    and R_popTask: "popTaskImpl (sv_dialQueue s) = (tt, q) \<Longrightarrow> R s (s\<lparr>sv_dialQueue := q\<rparr>)"
    and R_temporary: "R s (s\<lparr>sv_temporaryDials := m\<rparr>)"
    and R_protocols: "R s (s\<lparr>sv_protocols := (sv_protocols s)(proto \<mapsto> grpc)\<rparr>)"
    and R_stream: "sv_peers s p = Some ci \<Longrightarrow> connDirections ci' = connDirections ci \<Longrightarrow>
      R s (s\<lparr>sv_peers := (sv_peers s)(p \<mapsto> ci')\<rparr>)"
    and R_flags: "R s (s\<lparr>sv_crashed := b\<rparr>)" "R s (s\<lparr>sv_discovery := b\<rparr>)" "R s (s\<lparr>sv_startDiscovery := b\<rparr>)"
begin

lemma R_on_world [simp]: "R s (snd (on_world f s))"
  by (simp add: on_world_def split: prod.splits)

lemma R_on_worldD: "on_world f s = (x, s') \<Longrightarrow> R s s'"
  using R_on_world [of s f] by simp

lemma R_emitEvent [simp]: "R s (emitEvent s p ty)"
  by (simp add: emitEvent_def R_events)

lemma R_addToDialQueue [simp]: "R s (addToDialQueue s a pr)"
  unfolding addToDialQueue_def by (rule R_chain [OF R_AddTask R_emitEvent])

lemma R_DisconnectFromPeer [simp]: "R s (DisconnectFromPeer H s p r)"
  by (simp add: DisconnectFromPeer_def)

lemma R_Fetch [simp]: "R s (snd (FetchOrSetTemporaryDial s p v))"
  by (simp add: FetchOrSetTemporaryDial_def R_temporary split: option.splits)

lemma R_RemoveTemporaryDial [simp]: "R s (RemoveTemporaryDial s p)"
  by (simp add: RemoveTemporaryDial_def R_temporary)

lemma R_PeerAdded [simp]: "R s (sv_PeerAdded H s p)"
  by (simp add: sv_PeerAdded_def)

lemma R_PeerRemoved [simp]: "R s (sv_PeerRemoved s p)"
  by (simp add: sv_PeerRemoved_def R_DeleteTask)

lemma R_sv_TryAddPeer [simp]: "R s (snd (sv_TryAddPeer H s p))"
  by (auto simp: sv_TryAddPeer_def split: prod.splits sum.splits
      dest!: R_on_worldD intro: R_chain [OF _ R_PeerAdded])

lemma R_rtRemovePeer [simp]: "R s (sv_rtRemovePeer H s p)"
  by (auto simp: sv_rtRemovePeer_def split: prod.splits dest!: R_on_worldD
      intro: R_chain [OF _ R_PeerRemoved])

lemma R_AddToPeerStore: "AddToPeerStore H s a = Inr s' \<Longrightarrow> R s s'"
  by (auto simp: AddToPeerStore_def split: list.splits)

lemma R_RemoveFromPeerStore [simp]: "R s (RemoveFromPeerStore H s a)"
  by (simp add: RemoveFromPeerStore_def)

lemma R_GetRandomBootnode [simp]: "R s (snd (GetRandomBootnode H s))"
  by (auto simp: GetRandomBootnode_def Let_def split: prod.splits dest!: R_on_worldD)

lemma R_GetRandomPeer [simp]: "R s (snd (GetRandomPeer H s))"
  by (auto simp: GetRandomPeer_def Let_def split: prod.splits dest!: R_on_worldD)

lemma R_RegisterProtocol [simp]: "R s (RegisterProtocol H s i p)"
  using R_chain [OF R_protocols R_world, of s "ho_SetStreamHandler H (sv_world s) i p" i p]
  by (simp add: RegisterProtocol_def)

lemma R_NewProtoConnection [simp]: "R s (snd (NewProtoConnection H s pr p))"
  by (auto simp: NewProtoConnection_def NewStream_def split: prod.splits option.splits sum.splits
      dest!: R_on_worldD)

lemma R_NewProtoConnectionD: "NewProtoConnection H s pr p = (x, s') \<Longrightarrow> R s s'"
  using R_NewProtoConnection [of s H pr p] by simp

lemma R_NewIdentityClient [simp]: "R s (snd (NewIdentityClient H s p))"
  by (auto simp: NewIdentityClient_def split: prod.splits sum.splits dest: R_NewProtoConnectionD)

lemma R_SaveProtocolStream [simp]: "R s (SaveProtocolStream s pr c p)"
  by (auto simp: SaveProtocolStream_def addProtocolStream_def intro: R_stream split: option.splits)

lemma R_CloseProtocolStream [simp]: "R s (snd (CloseProtocolStream H s pr p))"
proof (cases "sv_peers s p")
  case None
  then show ?thesis by (simp add: CloseProtocolStream_def)
next
  case (Some ci)
  obtain x ci' where r: "removeProtocolStream pr ci = (x, ci')" by fastforce
  then have "connDirections ci' = connDirections ci" by (auto simp: removeProtocolStream_def split: option.splits)
  note k = R_stream [OF Some this]
  show ?thesis
    using Some r k R_chain [OF k R_on_world] by (cases x) (simp_all add: CloseProtocolStream_def Let_def)
qed

lemma R_NewDiscoveryClient [simp]: "R s (snd (NewDiscoveryClient H s p))"
  by (auto simp: NewDiscoveryClient_def Let_def split: prod.splits option.splits sum.splits
      dest!: R_NewProtoConnectionD intro: R_chain [OF _ R_SaveProtocolStream])

sublocale df: disc_frame "server_disc H" R for H :: "'w host"
proof unfold_locales
  show "dn_AddToPeerStore (server_disc H) s a = Inr s' \<Longrightarrow> R s s'" for s s' :: "'w server" and a
    by (simp add: server_disc_def R_AddToPeerStore)
  show "R s t \<Longrightarrow> R t u \<Longrightarrow> R s u" for s t u :: "'w server" by (rule R_chain)
qed (simp_all add: server_disc_def TemporaryDialPeer_def)

lemma R_notify_discovery [simp]: "R s (notify_discovery H s ev)"
  by (simp add: notify_discovery_def df.R_HandleNetworkEvent R_flags)

lemma R_dial_iteration [simp]: "R s (snd (dial_iteration H s))"
proof (cases "popTaskImpl (sv_dialQueue s)")
  case (Pair r q)
  have k: "R s (s\<lparr>sv_dialQueue := q\<rparr>)" by (rule R_popTask [OF Pair])
  show ?thesis
    using Pair k
    by (auto simp: dial_iteration_def Let_def split: prod.splits option.splits dest!: R_on_worldD
        intro: R_chain R_chain [OF _ R_emitEvent])
qed

lemma R_keepAlive_tick [simp]: "R s (keepAlive_tick H s)"
proof -
  have "GetRandomPeer H s = (x, s') \<Longrightarrow> R s s'" "GetRandomBootnode H s = (y, s') \<Longrightarrow> R s s'" for x y s'
    using R_GetRandomPeer [of s H] R_GetRandomBootnode [of s H] by simp_all
  then show ?thesis
    by (auto simp: keepAlive_tick_def split: prod.splits option.splits
        intro: R_chain [OF _ R_addToDialQueue])
qed

lemma R_JoinPeer [simp]: "R s (snd (JoinPeer H s raw))"
  by (simp add: JoinPeer_def sv_joinPeer_def split: sum.splits)

lemma R_setupDiscovery: "setupDiscovery H s b g = Inr s' \<Longrightarrow> R s s'"
proof -
  assume assms: "setupDiscovery H s b g = Inr s'"
  obtain x s1 where n: "on_world (ho_NewRoutingTable H) s = (x, s1)" by fastforce
  obtain y s3 where u: "on_world (ho_Subscribe H) (s1\<lparr>sv_startDiscovery := b\<rparr>) = (y, s3)" by fastforce
  let ?s4 = "RegisterProtocol H s3 (sv_discProto s3) g"
  from assms n u obtain s5 where c: "ConnectToBootnodes (server_disc H) ?s4 (getBootnodes (sv_bootnodes ?s4)) = Inr s5"
    and s': "s' = s5\<lparr>sv_discovery := True\<rparr>"
    by (auto simp: setupDiscovery_def Let_def split: option.splits sum.splits)
  have "R s s3" by (rule R_chain [OF R_chain [OF R_on_worldD [OF n] R_flags(3)] R_on_worldD [OF u]])
  then have "R s s5" by (rule R_chain [OF R_chain [OF _ R_RegisterProtocol] df.R_ConnectToBootnodes [OF c]])
  then show ?thesis unfolding s' by (rule R_chain [OF _ R_flags(2)])
qed

end

interpretation kept: server_frame "keeps :: 'w server \<Rightarrow> 'w server \<Rightarrow> bool"
  by unfold_locales (auto simp: keeps_def core_def fun_eq_iff AddTask_result(1) dq_inv_DeleteTask,
      metis dq_inv_popTaskImpl snd_conv)

section \<open>Counters and table\<close>

definition active :: "'w server \<Rightarrow> peer_id \<Rightarrow> direction \<Rightarrow> bool" where
  "active s p d \<longleftrightarrow> (\<exists>ci. sv_peers s p = Some ci \<and> connDirections ci d = Some True)"

definition active_peers :: "'w server \<Rightarrow> direction \<Rightarrow> peer_id set" where
  "active_peers s d = {p. active s p d}"

definition bootnode_links :: "'w server \<Rightarrow> (peer_id \<times> direction) set" where
  "bootnode_links s = {(p, d). active s p d \<and> isBootnode (sv_bootnodes s) p}"

text \<open>The invariant of the server: each active counter is the number of peers connected in that
  direction, the bootnode counter the number of connections to bootnodes (while discovery is
  configured), and the dial queue is well formed.\<close>

definition sv_inv :: "'w server \<Rightarrow> bool" where
  "sv_inv s \<longleftrightarrow> finite (dom (sv_peers s)) \<and>
     (\<forall>d. d \<noteq> DirUnknown \<longrightarrow> active_count (sv_connectionCounts s) d = of_nat (card (active_peers s d))) \<and>
     bootnodeConnCount (sv_bootnodes s) =
       (if cfg_NoDiscover (sv_config s) then 0 else of_nat (card (bootnode_links s))) \<and>
     dq_inv (sv_dialQueue s)"

lemma active_core: "active s p d \<longleftrightarrow> (\<exists>m. fst (core s) p = Some m \<and> m d = Some True)"
  by (auto simp: active_def core_def)

lemma keeps_active: "keeps s s' \<Longrightarrow> active s' = active s"
  by (simp add: keeps_def active_core fun_eq_iff)

lemma dom_core: "dom (fst (core s)) = dom (sv_peers s)"
  by (auto simp: core_def dom_def)

lemma keeps_sv_inv:
  assumes "keeps s s'" "sv_inv s"
  shows "sv_inv s'"
proof -
  have "dom (sv_peers s') = dom (sv_peers s)" using assms(1) by (simp add: keeps_def flip: dom_core)
  moreover have "sv_connectionCounts s' = sv_connectionCounts s" "sv_bootnodes s' = sv_bootnodes s"
    "sv_config s' = sv_config s" using assms(1) by (simp_all add: keeps_def core_def)
  ultimately show ?thesis
    using assms keeps_active [OF assms(1)]
    by (simp add: sv_inv_def active_peers_def bootnode_links_def keeps_def)
qed

subsection \<open>Adding a connection\<close>

lemma addPeerInfo_known: "active s p d \<Longrightarrow> addPeerInfo H s p d = (True, s)"
  by (auto simp: addPeerInfo_def active_def)

lemma addPeerInfo_new:
  assumes "\<not> active s p d"
  obtains s' ci where "addPeerInfo H s p d = (False, s')" "sv_peers s' = (sv_peers s)(p \<mapsto> ci)"
    "\<And>q e. active s' q e \<longleftrightarrow> active s q e \<or> (q, e) = (p, d)"
    "sv_connectionCounts s' = UpdateConnCountByDirection 1 d (sv_connectionCounts s)"
    "sv_config s' = sv_config s" "sv_dialQueue s' = sv_dialQueue s" "sv_discovery s' = sv_discovery s"
    "isBootnode (sv_bootnodes s') = isBootnode (sv_bootnodes s)"
    "bootnodeConnCount (sv_bootnodes s') = (if cfg_NoDiscover (sv_config s) \<or> \<not> isBootnode (sv_bootnodes s) p
       then bootnodeConnCount (sv_bootnodes s) else bootnodeConnCount (sv_bootnodes s) + 1)"
proof -
  let ?ci = "case sv_peers s p of Some ci \<Rightarrow> ci | None \<Rightarrow> new_peer_conn_info (ho_PeerInfo H (sv_world s) p)"
  let ?ci' = "?ci\<lparr>connDirections := (connDirections ?ci)(d \<mapsto> True)\<rparr>"
  let ?s = "updateBootnodeConnCount (updateConnCount (s\<lparr>sv_peers := (sv_peers s)(p \<mapsto> ?ci')\<rparr>) 1 d) p 1"
  have eq: "addPeerInfo H s p d = (False, ?s)"
    using assms by (auto simp: addPeerInfo_def active_def Let_def split: option.splits)
  have peers: "sv_peers ?s = (sv_peers s)(p \<mapsto> ?ci')"
    by (simp add: updateBootnodeConnCount_def updateConnCount_def)
  have act: "active ?s q e \<longleftrightarrow> active s q e \<or> (q, e) = (p, d)" for q e
    unfolding active_def peers by (auto simp: new_peer_conn_info_def split: option.splits)
  show ?thesis
    by (rule that [OF eq peers act])
      (auto simp: updateBootnodeConnCount_def updateConnCount_def increaseBootnodeConnCount_def
        isBootnode_def fun_eq_iff)
qed

lemma sv_inv_links_finite: "finite (dom (sv_peers s)) \<Longrightarrow> finite (bootnode_links s)"
  by (rule finite_subset [of _ "dom (sv_peers s) \<times> UNIV"]) (auto simp: bootnode_links_def active_def)

lemma active_peers_finite: "finite (dom (sv_peers s)) \<Longrightarrow> finite (active_peers s d)"
  by (rule finite_subset [of _ "dom (sv_peers s)"]) (auto simp: active_peers_def active_def)

lemma sv_inv_addPeerInfo:
  assumes inv: "sv_inv s" and new: "\<not> active s p d" and add: "addPeerInfo H s p d = (x, s')"
  shows "sv_inv s'" and "active_peers s' e = (if e = d then insert p (active_peers s e) else active_peers s e)"
    and "sv_connectionCounts s' = UpdateConnCountByDirection 1 d (sv_connectionCounts s)"
proof -
  obtain t ci where A: "addPeerInfo H s p d = (False, t)" and E0: "sv_peers t = (sv_peers s)(p \<mapsto> ci)"
    "\<And>q e. active t q e \<longleftrightarrow> active s q e \<or> (q, e) = (p, d)"
    "sv_connectionCounts t = UpdateConnCountByDirection 1 d (sv_connectionCounts s)"
    "sv_config t = sv_config s" "sv_dialQueue t = sv_dialQueue s"
    "isBootnode (sv_bootnodes t) = isBootnode (sv_bootnodes s)"
    "bootnodeConnCount (sv_bootnodes t) = (if cfg_NoDiscover (sv_config s) \<or> \<not> isBootnode (sv_bootnodes s) p
       then bootnodeConnCount (sv_bootnodes s) else bootnodeConnCount (sv_bootnodes s) + 1)"
    by (rule addPeerInfo_new [OF new, of H]) (rule that, assumption+)
  have t: "t = s'" using A add by simp
  note E = E0 [unfolded t]
  show "sv_connectionCounts s' = UpdateConnCountByDirection 1 d (sv_connectionCounts s)" by (rule E(3))
  show act: "active_peers s' e = (if e = d then insert p (active_peers s e) else active_peers s e)" for e
    by (auto simp: active_peers_def E(2))
  have links: "bootnode_links s' = (if isBootnode (sv_bootnodes s) p then insert (p, d) (bootnode_links s)
      else bootnode_links s)"
    by (auto simp: bootnode_links_def E(2,6))
  have fin: "finite (dom (sv_peers s))" using inv by (simp add: sv_inv_def)
  have "p \<notin> active_peers s d" "(p, d) \<notin> bootnode_links s"
    using new by (simp_all add: active_peers_def bootnode_links_def)
  then show "sv_inv s'"
    using inv active_peers_finite [OF fin] sv_inv_links_finite [OF fin]
    by (auto simp: sv_inv_def E(1,3,4,5,7) act links)
qed

subsection \<open>Removing a peer\<close>

lemma drop_direction_frame [simp]:
  "sv_peers (drop_direction p ci d s) = sv_peers s" "sv_config (drop_direction p ci d s) = sv_config s"
  "sv_dialQueue (drop_direction p ci d s) = sv_dialQueue s"
  "sv_discovery (drop_direction p ci d s) = sv_discovery s"
  "isBootnode (sv_bootnodes (drop_direction p ci d s)) = isBootnode (sv_bootnodes s)"
  by (simp_all add: drop_direction_def updateBootnodeConnCount_def updateConnCount_def
      increaseBootnodeConnCount_def isBootnode_def fun_eq_iff)

lemma drop_direction_counts:
  "sv_connectionCounts (drop_direction p ci d s) =
     (if connDirections ci d = Some True then UpdateConnCountByDirection (-1) d (sv_connectionCounts s)
      else sv_connectionCounts s)"
  "bootnodeConnCount (sv_bootnodes (drop_direction p ci d s)) =
     (if connDirections ci d = Some True \<and> \<not> cfg_NoDiscover (sv_config s) \<and> isBootnode (sv_bootnodes s) p
      then bootnodeConnCount (sv_bootnodes s) - 1 else bootnodeConnCount (sv_bootnodes s))"
  by (simp_all add: drop_direction_def updateBootnodeConnCount_def updateConnCount_def
      increaseBootnodeConnCount_def)

lemma fold_drop_direction:
  assumes "distinct ds"
  shows "sv_peers (fold (drop_direction p ci) ds s) = sv_peers s \<and>
    sv_config (fold (drop_direction p ci) ds s) = sv_config s \<and>
    sv_dialQueue (fold (drop_direction p ci) ds s) = sv_dialQueue s \<and>
    sv_discovery (fold (drop_direction p ci) ds s) = sv_discovery s \<and>
    isBootnode (sv_bootnodes (fold (drop_direction p ci) ds s)) = isBootnode (sv_bootnodes s) \<and>
    (\<forall>e. e \<noteq> DirUnknown \<longrightarrow> active_count (sv_connectionCounts (fold (drop_direction p ci) ds s)) e =
       active_count (sv_connectionCounts s) e - (if e \<in> set ds \<and> connDirections ci e = Some True then 1 else 0)) \<and>
    pending_count (sv_connectionCounts (fold (drop_direction p ci) ds s)) = pending_count (sv_connectionCounts s) \<and>
    max_count (sv_connectionCounts (fold (drop_direction p ci) ds s)) = max_count (sv_connectionCounts s) \<and>
    bootnodeConnCount (sv_bootnodes (fold (drop_direction p ci) ds s)) =
      bootnodeConnCount (sv_bootnodes s) -
      (if \<not> cfg_NoDiscover (sv_config s) \<and> isBootnode (sv_bootnodes s) p
       then of_nat (card {d \<in> set ds. connDirections ci d = Some True}) else 0)"
  using assms
proof (induction ds arbitrary: s)
  case (Cons d ds)
  let ?s = "drop_direction p ci d s"
  let ?n = "card {e \<in> set ds. connDirections ci e = Some True}"
  have "{e \<in> set (d # ds). connDirections ci e = Some True} =
      (if connDirections ci d = Some True then insert d {e \<in> set ds. connDirections ci e = Some True}
       else {e \<in> set ds. connDirections ci e = Some True})" by auto
  then have n: "card {e \<in> set (d # ds). connDirections ci e = Some True} =
      (if connDirections ci d = Some True then Suc ?n else ?n)"
    using Cons.prems by simp
  have IH: "distinct ds" using Cons.prems by simp
  from Cons.IH [OF IH, of ?s] show ?case
    unfolding n using Cons.prems by (simp add: drop_direction_counts fun_eq_iff)
qed simp

lemma removed_links:
  assumes "finite (dom (sv_peers s))" and "\<And>q e. active s' q e \<longleftrightarrow> active s q e \<and> q \<noteq> p" and "sv_bootnodes s' = B"
    and "\<And>q. isBootnode B q = isBootnode (sv_bootnodes s) q"
  shows "card (bootnode_links s) =
    card (bootnode_links s') + (if isBootnode (sv_bootnodes s) p then card {d. active s p d} else 0)"
proof (cases "isBootnode (sv_bootnodes s) p")
  case True
  let ?P = "Pair p ` {d. active s p d}"
  have links: "bootnode_links s = bootnode_links s' \<union> ?P" "bootnode_links s' \<inter> ?P = {}"
    using True assms(2-4) by (auto simp: bootnode_links_def)
  have "finite (bootnode_links s')" "finite ?P"
    using sv_inv_links_finite [OF assms(1)] links(1) by (metis finite_Un)+
  then have "card (bootnode_links s) = card (bootnode_links s') + card ?P"
    using card_Un_disjoint links by metis
  moreover have "card ?P = card {d. active s p d}" by (rule card_image) (auto simp: inj_on_def)
  ultimately show ?thesis using True by simp
next
  case False
  then have "bootnode_links s' = bootnode_links s" using assms(2-4) by (auto simp: bootnode_links_def)
  then show ?thesis using False by simp
qed

lemma removePeerInfo_effect:
  assumes inv: "sv_inv s" and ci: "sv_peers s p = Some ci" and rm: "removePeerInfo s p = (x, s')"
  shows "sv_inv s'" and "active_peers s' e = active_peers s e - {p}" and "x = Some ci"
    and "pending_count (sv_connectionCounts s') = pending_count (sv_connectionCounts s)"
    and "max_count (sv_connectionCounts s') = max_count (sv_connectionCounts s)"
    and "sv_discovery s' = sv_discovery s"
proof -
  let ?t = "s\<lparr>sv_peers := (sv_peers s)(p := None)\<rparr>"
  have s': "s' = fold (drop_direction p ci) all_directions ?t" and x: "x = Some ci"
    using rm ci by (simp_all add: removePeerInfo_def)
  show "x = Some ci" by (rule x)
  note F = fold_drop_direction [OF distinct_all_directions, of p ci ?t, folded s']
  show "pending_count (sv_connectionCounts s') = pending_count (sv_connectionCounts s)"
    "max_count (sv_connectionCounts s') = max_count (sv_connectionCounts s)"
    "sv_discovery s' = sv_discovery s" using F by simp_all
  have peers: "sv_peers s' = (sv_peers s)(p := None)" using F by simp
  then have act: "active s' q e \<longleftrightarrow> active s q e \<and> q \<noteq> p" for q e by (auto simp: active_def)
  then show ap: "active_peers s' e = active_peers s e - {p}" for e by (auto simp: active_peers_def)
  have dirs: "connDirections ci e = Some True \<longleftrightarrow> active s p e" for e using ci by (simp add: active_def)
  have fin: "finite (dom (sv_peers s))" using inv by (simp add: sv_inv_def)
  have cnt: "active_count (sv_connectionCounts s') e = of_nat (card (active_peers s' e))" if e: "e \<noteq> DirUnknown" for e
  proof -
    have "p \<in> active_peers s e \<longleftrightarrow> active s p e" by (simp add: active_peers_def)
    then show ?thesis
      using F inv e dirs of_nat_card_remove [OF active_peers_finite [OF fin], of e p, where 'a = int64]
      unfolding ap by (simp add: sv_inv_def)
  qed
  have "isBootnode (sv_bootnodes s') q = isBootnode (sv_bootnodes s) q" for q using F by simp
  from removed_links [OF fin act refl this] have "bootnodeConnCount (sv_bootnodes s') =
      (if cfg_NoDiscover (sv_config s) then 0 else of_nat (card (bootnode_links s')))"
    using F inv dirs by (auto simp: sv_inv_def)
  then show "sv_inv s'"
    unfolding sv_inv_def using cnt F inv by (auto simp: sv_inv_def peers)
qed

text \<open>Both table operations end with a call of the discovery service, which keeps the core.\<close>

lemma AddPeer_effect:
  assumes inv: "sv_inv s"
  shows "sv_inv (AddPeer H s p d)"
    and "active_peers (AddPeer H s p d) e = (if e = d then insert p (active_peers s e) else active_peers s e)"
    and "pending_count (sv_connectionCounts (AddPeer H s p d)) = pending_count (sv_connectionCounts s)"
    and "max_count (sv_connectionCounts (AddPeer H s p d)) = max_count (sv_connectionCounts s)"
proof -
  let ?s = "AddPeer H s p d"
  have "sv_inv ?s \<and> (\<forall>e. active_peers ?s e = (if e = d then insert p (active_peers s e) else active_peers s e)) \<and>
    pending_count (sv_connectionCounts ?s) = pending_count (sv_connectionCounts s) \<and>
    max_count (sv_connectionCounts ?s) = max_count (sv_connectionCounts s)"
  proof (cases "active s p d")
    case True
    then have "p \<in> active_peers s d" by (simp add: active_peers_def)
    then have "insert p (active_peers s d) = active_peers s d" by blast
    then show ?thesis using inv addPeerInfo_known [OF True, of H] by (auto simp: AddPeer_def)
  next
    case False
    obtain x s1 where a: "addPeerInfo H s p d = (x, s1)" by fastforce
    have "\<not> x" using addPeerInfo_new [OF False, of H] a by (metis Pair_inject)
    then have eq: "?s = notify_discovery H s1 \<lparr>ev_PeerID = p, ev_Type = PeerConnected\<rparr>"
      using a by (simp add: AddPeer_def)
    note A = sv_inv_addPeerInfo [OF inv False a]
    have k: "keeps s1 ?s" unfolding eq by simp
    have "active_peers ?s = active_peers s1" "sv_connectionCounts ?s = sv_connectionCounts s1"
      using keeps_active [OF k] k by (simp_all add: active_peers_def keeps_def core_def fun_eq_iff)
    then show ?thesis using keeps_sv_inv [OF k A(1)] A(2,3) by (simp add: fun_eq_iff)
  qed
  then show "sv_inv ?s" and "active_peers ?s e = (if e = d then insert p (active_peers s e) else active_peers s e)"
    "pending_count (sv_connectionCounts ?s) = pending_count (sv_connectionCounts s)"
    "max_count (sv_connectionCounts ?s) = max_count (sv_connectionCounts s)" by blast+
qed

lemma removePeer_effect:
  assumes inv: "sv_inv s"
  shows "sv_inv (removePeer H s p)" and "active_peers (removePeer H s p) e = active_peers s e - {p}"
    and "pending_count (sv_connectionCounts (removePeer H s p)) = pending_count (sv_connectionCounts s)"
    and "max_count (sv_connectionCounts (removePeer H s p)) = max_count (sv_connectionCounts s)"
proof -
  let ?s = "removePeer H s p"
  have "sv_inv ?s \<and> (\<forall>e. active_peers ?s e = active_peers s e - {p}) \<and>
    pending_count (sv_connectionCounts ?s) = pending_count (sv_connectionCounts s) \<and>
    max_count (sv_connectionCounts ?s) = max_count (sv_connectionCounts s)"
  proof (cases "sv_peers s p")
    case None
    then have "?s = s" by (simp add: removePeer_def removePeerInfo_def)
    moreover have "p \<notin> active_peers s e" for e using None by (simp add: active_peers_def active_def)
    ultimately show ?thesis using inv by simp
  next
    case (Some ci)
    obtain x s1 where a: "removePeerInfo s p = (x, s1)" by fastforce
    note A = removePeerInfo_effect [OF inv Some a]
    have eq: "?s = notify_discovery H s1 \<lparr>ev_PeerID = p, ev_Type = PeerDisconnected\<rparr>"
      using a A(3) by (simp add: removePeer_def)
    have k: "keeps s1 ?s" unfolding eq by simp
    have "active_peers ?s = active_peers s1" "sv_connectionCounts ?s = sv_connectionCounts s1"
      using keeps_active [OF k] k by (simp_all add: active_peers_def keeps_def core_def fun_eq_iff)
    then show ?thesis using keeps_sv_inv [OF k A(1)] A(2,4,5) by simp
  qed
  then show "sv_inv ?s" "active_peers ?s e = active_peers s e - {p}"
    "pending_count (sv_connectionCounts ?s) = pending_count (sv_connectionCounts s)"
    "max_count (sv_connectionCounts ?s) = max_count (sv_connectionCounts s)" by blast+
qed

section \<open>The server under the identity service\<close>

text \<open>Everything else that may happen to the server while handshakes are running, the library's own
  changes of its world included.\<close>

inductive srv_env :: "'w host \<Rightarrow> 'w server \<Rightarrow> 'w server \<Rightarrow> bool" for H :: "'w host" where
  disconnected: "srv_env H s (removePeer H s p)"
| dialled: "srv_env H s (snd (dial_iteration H s))"
| kept_alive: "srv_env H s (keepAlive_tick H s)"
| joined: "srv_env H s (snd (JoinPeer H s raw))"
| asked_peer: "regularPeerDiscovery (server_disc H) s = Inr s' \<Longrightarrow> srv_env H s s'"
| asked_bootnode: "bootnodePeerDiscovery (server_disc H) pc s = (x, s') \<Longrightarrow> srv_env H s s'"
| network_event: "srv_env H s (HandleNetworkEvent (server_disc H) s ev)"
| library: "srv_env H s (s\<lparr>sv_world := w\<rparr>)"

lemma srv_env_cases:
  assumes "srv_env H s s'"
  shows "keeps s s' \<or> (\<exists>p. s' = removePeer H s p)"
  using assms
proof (induction rule: srv_env.induct)
  case (asked_peer s s')
  then show ?case using kept.df.R_regularPeerDiscovery by blast
next
  case (asked_bootnode pc s x s')
  then show ?case using kept.df.R_bootnodePeerDiscovery by blast
next
  case (network_event s ev)
  show ?case using kept.df.R_HandleNetworkEvent by blast
qed (simp_all, blast)

lemma keeps_counts: "keeps s s' \<Longrightarrow>
    active_peers s' = active_peers s \<and> sv_connectionCounts s' = sv_connectionCounts s"
  using keeps_active [of s s'] by (simp add: active_peers_def keeps_def core_def fun_eq_iff)

lemma keeps_slots:
  "keeps s s' \<Longrightarrow> sv_inv s \<Longrightarrow> sv_inv s' \<and> active_peers s' = active_peers s \<and>
     pending_count (sv_connectionCounts s') = pending_count (sv_connectionCounts s) \<and>
     max_count (sv_connectionCounts s') = max_count (sv_connectionCounts s)"
  using keeps_counts [of s s'] keeps_sv_inv [of s s'] by simp

lemma UpdatePendingConnCount_slots:
  "sv_inv s \<Longrightarrow> sv_inv (UpdatePendingConnCount s n d)"
  "active_peers (UpdatePendingConnCount s n d) = active_peers s"
  "e \<noteq> DirUnknown \<Longrightarrow> pending_count (sv_connectionCounts (UpdatePendingConnCount s n d)) e =
     (if e = d then pending_count (sv_connectionCounts s) e + n else pending_count (sv_connectionCounts s) e)"
  "max_count (sv_connectionCounts (UpdatePendingConnCount s n d)) = max_count (sv_connectionCounts s)"
  by (auto simp: UpdatePendingConnCount_def sv_inv_def active_peers_def bootnode_links_def active_def fun_eq_iff)

interpretation slots: slot_server "server_id H" "srv_env H" sv_inv active_peers
    "\<lambda>s. pending_count (sv_connectionCounts s)" "\<lambda>s. max_count (sv_connectionCounts s)" for H :: "'w host"
proof unfold_locales
  fix s s' :: "'w server" and p :: peer_id and d e :: direction and r :: string and n :: int64
    and clt :: nat and q :: id_status and ev :: peer_event
  assume inv: "sv_inv s"
  show "finite (active_peers s d)" using inv by (intro active_peers_finite) (simp add: sv_inv_def)
  show "is_HasFreeConnectionSlot (server_id H) s d \<longleftrightarrow> d \<noteq> DirUnknown \<and>
      of_nat (card (active_peers s d)) + pending_count (sv_connectionCounts s) d <s max_count (sv_connectionCounts s) d"
    using inv by (auto simp: server_id_def sv_HasFreeConnectionSlot_def HasFreeConnectionSlot_alt sv_inv_def)
  note A = AddPeer_effect [OF inv, of H p d]
  show "sv_inv (is_AddPeer (server_id H) s p d)"
    "active_peers (is_AddPeer (server_id H) s p d) e = (if e = d then insert p (active_peers s e) else active_peers s e)"
    "pending_count (sv_connectionCounts (is_AddPeer (server_id H) s p d)) = pending_count (sv_connectionCounts s)"
    "max_count (sv_connectionCounts (is_AddPeer (server_id H) s p d)) = max_count (sv_connectionCounts s)"
    using A by (simp_all add: server_id_def)
  note U = UpdatePendingConnCount_slots(1,2,4) [of s n d]
  show "sv_inv (is_UpdatePendingConnCount (server_id H) s n d)"
    "active_peers (is_UpdatePendingConnCount (server_id H) s n d) = active_peers s"
    "max_count (sv_connectionCounts (is_UpdatePendingConnCount (server_id H) s n d)) = max_count (sv_connectionCounts s)"
    using U inv by (simp_all add: server_id_def)
  show "pending_count (sv_connectionCounts (is_UpdatePendingConnCount (server_id H) s n d)) e =
      (if e = d then pending_count (sv_connectionCounts s) e + n else pending_count (sv_connectionCounts s) e)"
    if "e \<noteq> DirUnknown"
    using UpdatePendingConnCount_slots(3) [OF that, of s n d] by (simp add: server_id_def)
  note D = keeps_slots [OF kept.R_DisconnectFromPeer [of s H p r] inv]
  show "sv_inv (is_DisconnectFromPeer (server_id H) s p r)"
    "active_peers (is_DisconnectFromPeer (server_id H) s p r) = active_peers s"
    "pending_count (sv_connectionCounts (is_DisconnectFromPeer (server_id H) s p r)) = pending_count (sv_connectionCounts s)"
    "max_count (sv_connectionCounts (is_DisconnectFromPeer (server_id H) s p r)) = max_count (sv_connectionCounts s)"
    using D by (simp_all add: server_id_def)
  show "sv_inv s' \<and> active_peers s' = active_peers s \<and> pending_count (sv_connectionCounts s') = pending_count (sv_connectionCounts s) \<and>
      max_count (sv_connectionCounts s') = max_count (sv_connectionCounts s)"
    if "is_NewIdentityClient (server_id H) s p = (c, s')" for c
    using that keeps_slots [OF kept.R_NewIdentityClient [of s H p] inv] by (simp add: server_id_def)
  show "sv_inv s' \<and> active_peers s' = active_peers s \<and> pending_count (sv_connectionCounts s') = pending_count (sv_connectionCounts s) \<and>
      max_count (sv_connectionCounts s') = max_count (sv_connectionCounts s)"
    if "is_Hello (server_id H) s clt q = (x, s')" for x
    using that keeps_slots [OF kept.R_on_world [of s "\<lambda>w. ho_Hello H w clt q"] inv] by (simp add: server_id_def)
  note E = keeps_slots [OF kept.R_emitEvent [of s "ev_PeerID ev" "ev_Type ev"] inv]
  show "sv_inv (is_EmitEvent (server_id H) s ev)"
    "active_peers (is_EmitEvent (server_id H) s ev) = active_peers s"
    "pending_count (sv_connectionCounts (is_EmitEvent (server_id H) s ev)) = pending_count (sv_connectionCounts s)"
    "max_count (sv_connectionCounts (is_EmitEvent (server_id H) s ev)) = max_count (sv_connectionCounts s)"
    using E by (simp_all add: server_id_def EmitEvent_def)
  assume env: "srv_env H s s'"
  show "sv_inv s' \<and> (\<forall>d. active_peers s' d \<subseteq> active_peers s d) \<and>
      pending_count (sv_connectionCounts s') = pending_count (sv_connectionCounts s) \<and>
      max_count (sv_connectionCounts s') = max_count (sv_connectionCounts s)"
    using srv_env_cases [OF env]
  proof
    assume "keeps s s'"
    from keeps_slots [OF this inv] show ?thesis by simp
  next
    assume "\<exists>p. s' = removePeer H s p"
    then show ?thesis using removePeer_effect [OF inv] by auto
  qed
qed

text \<open>The map of temporary dials is touched by its two operations only.\<close>

lemma temp_on_world [simp]: "sv_temporaryDials (snd (on_world f s)) = sv_temporaryDials s"
  by (simp add: on_world_def split: prod.splits)

lemma temp_on_worldD: "on_world f s = (x, s') \<Longrightarrow> sv_temporaryDials s' = sv_temporaryDials s"
  using temp_on_world [of f s] by simp

lemma temp_addToDialQueue [simp]: "sv_temporaryDials (addToDialQueue s a pr) = sv_temporaryDials s"
  by (simp add: addToDialQueue_def emitEvent_def)

lemma temp_NewProtoConnection:
  "NewProtoConnection H s pr p = (x, s') \<Longrightarrow> sv_temporaryDials s' = sv_temporaryDials s"
proof -
  assume a: "NewProtoConnection H s pr p = (x, s')"
  obtain y s1 where n: "on_world (\<lambda>w. ho_NewStream H w p pr) s = (y, s1)" by fastforce
  have "s' = s \<or> s' = s1"
    using a n by (auto simp: NewProtoConnection_def NewStream_def split: option.splits sum.splits)
  then show ?thesis using temp_on_worldD [OF n] by metis
qed

lemma temp_SaveProtocolStream [simp]: "sv_temporaryDials (SaveProtocolStream s pr c p) = sv_temporaryDials s"
  by (simp add: SaveProtocolStream_def split: option.splits)

lemma temp_GetRandomBootnode [simp]: "sv_temporaryDials (snd (GetRandomBootnode H s)) = sv_temporaryDials s"
  by (simp add: GetRandomBootnode_def Let_def split: prod.split) (metis temp_on_worldD)

lemma temp_GetRandomPeer [simp]: "sv_temporaryDials (snd (GetRandomPeer H s)) = sv_temporaryDials s"
  by (simp add: GetRandomPeer_def Let_def split: prod.split) (metis temp_on_worldD)

lemma temp_NewDiscoveryClient [simp]: "sv_temporaryDials (snd (NewDiscoveryClient H s p)) = sv_temporaryDials s"
proof -
  obtain x s1 where n: "NewProtoConnection H s (sv_discProto s) p = (x, s1)" by fastforce
  from temp_NewProtoConnection [OF n] show ?thesis
    by (simp add: NewDiscoveryClient_def Let_def n split: option.split sum.split)
qed

lemma temp_CloseProtocolStream [simp]: "sv_temporaryDials (snd (CloseProtocolStream H s pr p)) = sv_temporaryDials s"
  by (simp add: CloseProtocolStream_def Let_def split: option.split prod.split)

lemma temp_TryAddPeer [simp]: "sv_temporaryDials (snd (sv_TryAddPeer H s p)) = sv_temporaryDials s"
proof -
  obtain x s1 where n: "on_world (\<lambda>w. hk_TryAddPeer H w p) s = (x, s1)" by fastforce
  from temp_on_worldD [OF n] show ?thesis
    by (simp add: sv_TryAddPeer_def n sv_PeerAdded_def split: sum.split)
qed

lemma temp_rtRemovePeer [simp]: "sv_temporaryDials (sv_rtRemovePeer H s p) = sv_temporaryDials s"
proof -
  obtain x s1 where n: "on_world (\<lambda>w. hk_RemovePeer H w p) s = (x, s1)" by fastforce
  from temp_on_worldD [OF n] show ?thesis by (simp add: sv_rtRemovePeer_def n sv_PeerRemoved_def)
qed

lemma temp_Disconnect [simp]: "sv_temporaryDials (DisconnectFromPeer H s p r) = sv_temporaryDials s"
  "sv_temporaryDials (RemoveFromPeerStore H s a) = sv_temporaryDials s"
  by (simp_all add: DisconnectFromPeer_def RemoveFromPeerStore_def)

interpretation tmpd: temp_dials "server_disc H" "\<lambda>s. dom (sv_temporaryDials s)" for H :: "'w host"
proof unfold_locales
  fix s s' :: "'w server" and p :: peer_id and v :: bool and a :: addr_info
  show "fst (dn_FetchOrSetTemporaryDial (server_disc H) s p v) \<longleftrightarrow> p \<in> dom (sv_temporaryDials s)"
    "dom (sv_temporaryDials (snd (dn_FetchOrSetTemporaryDial (server_disc H) s p v))) = insert p (dom (sv_temporaryDials s))"
    by (auto simp: server_disc_def FetchOrSetTemporaryDial_def split: option.splits)
  show "dom (sv_temporaryDials (dn_RemoveTemporaryDial (server_disc H) s p)) = dom (sv_temporaryDials s) - {p}"
    by (simp add: server_disc_def RemoveTemporaryDial_def)
  show "dom (sv_temporaryDials s') = dom (sv_temporaryDials s)"
    if "dn_AddToPeerStore (server_disc H) s a = Inr s'"
    using that by (auto simp: server_disc_def AddToPeerStore_def split: list.splits)
qed (simp_all add: server_disc_def TemporaryDialPeer_def)

end
