(* ===== verification/Net_Props.thy ===== *)
theory Net_Props
  imports Net_Peers
begin

text \<open>
  The properties of the networking server and its identity and discovery services, stated over the
  model of the code and proved from the interpretations in \<open>Net_Peers\<close>.  \<open>idle_host\<close> is a small
  concrete library on which the witnesses evaluate.
\<close>

section \<open>A concrete library for the witnesses\<close>

text \<open>A library over the world \<open>unit\<close>: every peer has one address, every remote call fails, nothing
  is connected, random numbers are 0.\<close>

definition idle_codec :: addr_codec where
  "idle_codec = \<lparr>ac_NewMultiaddr = Inr,
     ac_AddrInfoFromP2pAddr = (\<lambda>m. Inr \<lparr>ai_ID = m, ai_Addrs = (if m = ''bare'' then [] else [m])\<rparr>),
     ac_PeerString = id\<rparr>"

definition idle_host :: "unit host" where
  "idle_host = \<lparr>ho_codec = idle_codec, ho_PeerDecode = Inr, ho_ConvertKey = (\<lambda>k. []),
     ho_ID = ''self'', ho_Addrs = [''/ip4/10.0.0.1/tcp/1''],
     ho_PeerInfo = (\<lambda>w p. \<lparr>ai_ID = p, ai_Addrs = [''/ip4/10.0.0.2/tcp/1'']\<rparr>),
     ho_AddAddr = (\<lambda>w p a. w), ho_RemovePeer = (\<lambda>w p. w), ho_GetProtocols = (\<lambda>w p. Inr []),
     ho_Connected = (\<lambda>w p. False), ho_Connect = (\<lambda>w a. (Some (GoErr ''no route''), w)),
     ho_ClosePeer = (\<lambda>w p. (None, w)), ho_NewStream = (\<lambda>w p s. (Inl (GoErr ''no stream''), w)),
     ho_SetStreamHandler = (\<lambda>w i p. w), ho_Client = (\<lambda>p s. s), ho_CloseConn = (\<lambda>w c. (None, w)),
     ho_Close = (\<lambda>w. (None, w)), ho_Hello = (\<lambda>w c q. (Inl (GoErr ''no reply''), w)),
     ho_FindPeers = (\<lambda>w c q. (Inl (GoErr ''no reply''), w)),
     ho_RandInt = (\<lambda>w n. (0, w)), ho_MapOrder = (\<lambda>w S. []),
     ho_NewRoutingTable = (\<lambda>w. (None, w)), ho_Subscribe = (\<lambda>w. (None, w)),
     hk_TryAddPeer = (\<lambda>w p. (Inr True, w)), hk_RemovePeer = (\<lambda>w p. (True, w)),
     hk_NearestPeers = (\<lambda>w k n. if n < 0 then Inl (GoPanic ''slice bounds out of range'') else Inr (take (nat n) [''self'', ''peer''])), hk_Size = (\<lambda>w. 0), hk_ListPeers = (\<lambda>w. [])\<rparr>"

definition idle_server :: "unit server" where
  "idle_server = NewServer_state idle_host DefaultConfig ''/disc'' ''/id'' ()"

definition fresh_sys :: "'w server \<Rightarrow> identity_service \<Rightarrow> 'w server id_sys" where
  "fresh_sys s i = \<lparr>sy_srv = s, sy_id = i, sy_running = [], sy_ending = []\<rparr>"

section \<open>Start-up\<close>

lemma sv_inv_NewServer [simp]: "sv_inv (NewServer_state H cfg dp ip w)"
  by (simp add: sv_inv_def NewServer_state_def active_peers_def bootnode_links_def active_def dq_inv_New)

lemma keeps_setupIdentity: "setupIdentity H s g = (s', i) \<Longrightarrow> keeps s s'"
  by (auto simp: setupIdentity_def)

lemma keeps_setupDiscovery: "setupDiscovery H s b g = Inr s' \<Longrightarrow> keeps s s' \<and> sv_discovery s'"
  using kept.R_setupDiscovery [of H s b g s']
  by (auto simp: setupDiscovery_def Let_def split: prod.splits option.splits sum.splits)

text \<open>A server whose peer table is empty and whose counters are zero.\<close>

definition vacant :: "'w server \<Rightarrow> bool" where
  "vacant s \<longleftrightarrow> sv_inv s \<and> (\<forall>p. sv_peers s p = None) \<and>
     (\<forall>d. active_count (sv_connectionCounts s) d = 0 \<and> pending_count (sv_connectionCounts s) d = 0)"

lemma vacant_keeps: "keeps s s' \<Longrightarrow> vacant s \<Longrightarrow> vacant s'"
proof -
  assume k: "keeps s s'" and v: "vacant s"
  have "dom (sv_peers s') = dom (sv_peers s)" using k by (simp add: keeps_def flip: dom_core)
  then have "\<forall>p. sv_peers s' p = None" using v by (auto simp: vacant_def dom_def)
  then show ?thesis using v keeps_sv_inv [OF k] keeps_counts [OF k] by (simp add: vacant_def)
qed

lemma vacant_New: "vacant (NewServer_state H cfg dp ip w)"
  unfolding vacant_def by (rule conjI, rule sv_inv_NewServer) (simp add: NewServer_state_def)

lemma vacant_setupBootnodes: "setupBootnodes H s bs = Inr s' \<Longrightarrow> vacant s \<Longrightarrow> vacant s' \<and>
    sv_config s' = sv_config s \<and> sv_connectionCounts s' = sv_connectionCounts s"
  by (auto simp: setupBootnodes_def vacant_def sv_inv_def active_peers_def bootnode_links_def active_def
      split: option.splits if_splits sum.splits)

lemma Start_vacant:
  assumes "Start H s0 bs g1 g2 = Inr (s, i)" and "vacant s0"
  shows "vacant s \<and> max_count (sv_connectionCounts s) = max_count (sv_connectionCounts s0) \<and>
    id_pending i = Map.empty \<and> sv_discovery s"
proof -
  obtain s1 i1 where id: "setupIdentity H s0 g1 = (s1, i1)" by fastforce
  from assms(1) id obtain s2 where b: "setupBootnodes H s1 bs = Inr s2"
    and d: "setupDiscovery H s2 True g2 = Inr s" and i: "i1 = i"
    by (auto simp: Start_def split: sum.splits)
  have k: "keeps s0 s1" by (rule keeps_setupIdentity [OF id])
  have v2: "vacant s2" "sv_connectionCounts s2 = sv_connectionCounts s1"
    using vacant_setupBootnodes [OF b vacant_keeps [OF k assms(2)]] by simp_all
  note D = keeps_setupDiscovery [OF d]
  have "id_pending i = Map.empty" using id i by (auto simp: setupIdentity_def NewIdentityService_def)
  then show ?thesis
    using vacant_keeps [OF conjunct1 [OF D] v2(1)] keeps_counts [OF k] keeps_counts [OF conjunct1 [OF D]] v2(2) D
    by simp
qed

lemma fresh_inv: "vacant s \<Longrightarrow> id_pending i = Map.empty \<Longrightarrow> slots.inv (fresh_sys s i)"
  by (simp add: slots.inv_def slots.pend_def fresh_sys_def vacant_def)

lemma fresh_within: "vacant s \<Longrightarrow> id_pending i = Map.empty \<Longrightarrow> slots.within (fresh_sys s i)"
  by (simp add: slots.within_def slots.pend_def fresh_sys_def vacant_def active_peers_def active_def)

section \<open>Properties\<close>

text \<open>C4. However handshakes, disconnections, dials, discovery rounds and changes in the library
  interleave after \<open>Start\<close>, the connection counters equal the number of peers in the table per
  direction, the pending counters the number of reserved slots per direction, and the bootnode
  counter the number of live connections to bootnodes.\<close>

theorem counters_agree_with_table:
  assumes "Start H (NewServer_state H cfg dp ip w) bs g1 g2 = Inr (s, i)"
    and "(id_step (server_id H) (srv_env H))\<^sup>*\<^sup>* (fresh_sys s i) y"
  shows "sv_inv (sy_srv y) \<and>
    (\<forall>d. d \<noteq> DirUnknown \<longrightarrow> pending_count (sv_connectionCounts (sy_srv y)) d =
       of_nat (card {p. id_pending (sy_id y) p = Some d}))"
proof -
  have S: "vacant s \<and> id_pending i = Map.empty" using Start_vacant [OF assms(1) vacant_New] by simp
  have "slots.inv y"
    using assms(2)
  proof (induction rule: rtranclp_induct)
    case base
    then show ?case using fresh_inv S by blast
  qed (rule slots.inv_step)
  then show ?thesis by (simp add: slots.inv_def slots.pend_def)
qed

lemma idle_sel [simp]:
  "ho_codec idle_host = idle_codec" "ho_ID idle_host = ''self''"
  "ho_NewRoutingTable idle_host w = (None, w)" "ho_Subscribe idle_host w = (None, w)"
  "hk_TryAddPeer idle_host w p = (Inr True, w)" "ho_AddAddr idle_host w p a = w"
  "ho_Addrs idle_host = [''/ip4/10.0.0.1/tcp/1'']" "ho_RandInt idle_host w n = (0, w)"
  "hk_NearestPeers idle_host w k m =
     (if m < 0 then Inl (GoPanic ''slice bounds out of range'') else Inr (take (nat m) [''self'', ''peer'']))"
  "ho_Connected idle_host w p = False"
  by (simp_all add: idle_host_def)

lemma idle_addr: "StringToAddrInfo idle_codec a = Inr \<lparr>ai_ID = a, ai_Addrs = (if a = ''bare'' then [] else [a])\<rparr>"
  by (simp add: StringToAddrInfo_def idle_codec_def)

text \<open>A host whose set-up succeeds starts on one bootnode.\<close>

definition starts :: "'w host \<Rightarrow> bool" where
  "starts H \<longleftrightarrow> ho_codec H = idle_codec \<and> ho_ID H = ''self'' \<and>
     (\<forall>w. ho_NewRoutingTable H w = (None, w)) \<and> (\<forall>w. ho_Subscribe H w = (None, w))"

lemma starts_idle [simp]: "starts idle_host"
  by (simp add: starts_def)

lemma starts_connect:
  "\<forall>a \<in> set as. ai_Addrs a \<noteq> [] \<Longrightarrow> \<exists>s'. ConnectToBootnodes (server_disc H) s as = Inr s'"
proof (induction as arbitrary: s)
  case (Cons a as)
  then obtain m ms where "ai_Addrs a = m # ms" by (cases "ai_Addrs a") auto
  then have "\<exists>x s1. addToTable (server_disc H) s a = Inr (x, s1)"
    by (auto simp: addToTable_def server_disc_def AddToPeerStore_def split: prod.split option.split)
  with Cons show ?case by fastforce
qed simp

lemma Start_ok:
  assumes H: "starts H" and addrs: "sv_addrs s0 \<noteq> []"
  shows "\<exists>s i. Start H s0 (Some [''boot'']) 1 2 = Inr (s, i)"
proof -
  obtain s1 i where id: "setupIdentity H s0 1 = (s1, i)" by fastforce
  have boot: "setupBootnodes H s1 (Some [''boot'']) = Inr (s1\<lparr>sv_bootnodes :=
      \<lparr>bootnodeArr = [\<lparr>ai_ID = ''boot'', ai_Addrs = [''boot'']\<rparr>],
       bootnodesMap = [''boot'' \<mapsto> \<lparr>ai_ID = ''boot'', ai_Addrs = [''boot'']\<rparr>], bootnodeConnCount = 0\<rparr>\<rparr>)"
    (is "_ = Inr ?s2")
    using H by (simp add: starts_def setupBootnodes_def MinimumBootNodes_def idle_addr)
  have "\<exists>s'. setupDiscovery H ?s2 True 2 = Inr s'"
    using H starts_connect [of "getBootnodes (sv_bootnodes ?s2)" H
        "RegisterProtocol H (?s2\<lparr>sv_startDiscovery := True\<rparr>) (sv_discProto ?s2) 2"]
    by (auto simp: starts_def setupDiscovery_def on_world_def getBootnodes_def RegisterProtocol_def Let_def)
  then obtain s where disc: "setupDiscovery H ?s2 True 2 = Inr s" by blast
  have "\<exists>a. AddrInfoToString (ho_codec H) (sv_AddrInfo H s0) = Inr a"
    using addrs by (cases "sv_addrs s0") (simp_all add: AddrInfoToString_def sv_AddrInfo_def Let_def)
  then show ?thesis using id boot disc by (auto simp: Start_def)
qed

lemma Start_idle_ok: "\<exists>s i. Start idle_host idle_server (Some [''boot'']) 1 2 = Inr (s, i)"
  by (rule Start_ok) (simp_all add: idle_server_def NewServer_state_def)

theorem counters_agree_with_table_witness:
  "\<exists>s i. Start idle_host idle_server (Some [''boot'']) 1 2 = Inr (s, i) \<and>
     sv_inv (removePeer idle_host s ''p'')"
proof -
  obtain s i where S: "Start idle_host idle_server (Some [''boot'']) 1 2 = Inr (s, i)"
    using Start_idle_ok by blast
  have "id_step (server_id idle_host) (srv_env idle_host) (fresh_sys s i)
      (fresh_sys (removePeer idle_host s ''p'') i)"
    unfolding fresh_sys_def by (intro environment srv_env.disconnected)
  then have st: "(id_step (server_id idle_host) (srv_env idle_host))\<^sup>*\<^sup>* (fresh_sys s i)
      (fresh_sys (removePeer idle_host s ''p'') i)" by (rule r_into_rtranclp)
  from counters_agree_with_table [OF S [unfolded idle_server_def] st]
  have "sv_inv (removePeer idle_host s ''p'')" by (simp add: fresh_sys_def)
  with S show ?thesis by blast
qed

lemma steps_from_Start:
  assumes "Start H (NewServer_state H cfg dp ip w) bs g1 g2 = Inr (s, i)"
    and "0 \<le> sint (cfg_MaxInboundPeers cfg)" "sint (cfg_MaxInboundPeers cfg) < 2 ^ 62"
    and "0 \<le> sint (cfg_MaxOutboundPeers cfg)" "sint (cfg_MaxOutboundPeers cfg) < 2 ^ 62"
    and "(id_step (server_id H) (srv_env H))\<^sup>*\<^sup>* (fresh_sys s i) y"
  shows "slots.within y \<and> max_count (sv_connectionCounts (sy_srv y)) = max_count (sv_connectionCounts s)"
    and "max_count (sv_connectionCounts s) d = (case d of DirInbound \<Rightarrow> cfg_MaxInboundPeers cfg
      | DirOutbound \<Rightarrow> cfg_MaxOutboundPeers cfg | DirUnknown \<Rightarrow> 0)"
proof -
  note V = Start_vacant [OF assms(1) vacant_New]
  show lim: "max_count (sv_connectionCounts s) d = (case d of DirInbound \<Rightarrow> cfg_MaxInboundPeers cfg
      | DirOutbound \<Rightarrow> cfg_MaxOutboundPeers cfg | DirUnknown \<Rightarrow> 0)" for d
    using V by (cases d) (simp_all add: NewServer_state_def NewBlankConnectionInfo_def max_count_def)
  have small: "slots.small s" using assms(2-5) by (auto simp: slots.small_def lim split: direction.split)
  have "slots.inv y \<and> slots.within y \<and> slots.small (sy_srv y) \<and>
      max_count (sv_connectionCounts (sy_srv y)) = max_count (sv_connectionCounts s)"
    using assms(6)
  proof (induction rule: rtranclp_induct)
    case base
    have "vacant s" "id_pending i = Map.empty" using V by simp_all
    from fresh_inv [OF this] fresh_within [OF this] small show ?case by (simp add: fresh_sys_def)
  next
    case (step y z)
    then show ?case
      using slots.inv_step slots.within_step slots.lim_step by metis
  qed
  then show "slots.within y \<and> max_count (sv_connectionCounts (sy_srv y)) = max_count (sv_connectionCounts s)"
    by blast
qed

text \<open>C5. As long as \<open>ConnectedF\<close> callbacks run one at a time, the peers connected or reserved in a
  direction never exceed the configured maximum, whatever else is interleaved.\<close>

theorem slots_never_overcommitted:
  assumes "Start H (NewServer_state H cfg dp ip w) bs g1 g2 = Inr (s, i)"
    and "0 \<le> sint (cfg_MaxInboundPeers cfg)" "sint (cfg_MaxInboundPeers cfg) < 2 ^ 62"
    and "0 \<le> sint (cfg_MaxOutboundPeers cfg)" "sint (cfg_MaxOutboundPeers cfg) < 2 ^ 62"
    and "(id_step (server_id H) (srv_env H))\<^sup>*\<^sup>* (fresh_sys s i) y"
  shows "int (card (active_peers (sy_srv y) DirInbound \<union> {p. id_pending (sy_id y) p = Some DirInbound}))
      \<le> sint (cfg_MaxInboundPeers cfg) \<and>
    int (card (active_peers (sy_srv y) DirOutbound \<union> {p. id_pending (sy_id y) p = Some DirOutbound}))
      \<le> sint (cfg_MaxOutboundPeers cfg)"
proof -
  note F = steps_from_Start [OF assms]
  have "card (active_peers (sy_srv y) d \<union> {p. id_pending (sy_id y) p = Some d})
      \<le> nat (sint (max_count (sv_connectionCounts s) d))" if "d \<noteq> DirUnknown" for d
    using that F(1) unfolding slots.within_def slots.pend_def by metis
  from this [of DirInbound] this [of DirOutbound] assms(2,4) show ?thesis by (simp add: F(2) le_nat_iff)
qed

theorem slots_never_overcommitted_witness:
  "\<exists>s i. Start idle_host idle_server (Some [''boot'']) 1 2 = Inr (s, i) \<and>
     int (card (active_peers s DirInbound \<union> {p. id_pending i p = Some DirInbound})) \<le> 32"
proof -
  obtain s i where S: "Start idle_host idle_server (Some [''boot'']) 1 2 = Inr (s, i)"
    using Start_idle_ok by blast
  have lims: "sint (cfg_MaxInboundPeers DefaultConfig) = 32" "sint (cfg_MaxOutboundPeers DefaultConfig) = 8"
    by (simp_all add: DefaultConfig_def)
  have "(id_step (server_id idle_host) (srv_env idle_host))\<^sup>*\<^sup>* (fresh_sys s i) (fresh_sys s i)" by simp
  from slots_never_overcommitted [OF S [unfolded idle_server_def] _ _ _ _ this] S
  show ?thesis by (auto simp: lims fresh_sys_def)
qed

text \<open>The limit rests on that: when two \<open>ConnectedF\<close> callbacks for different peers both check for
  a free slot before either reserves it, both reservations are made and the sum of active and
  pending connections passes the maximum.\<close>

theorem concurrent_checks_overcommit:
  assumes "p \<noteq> q" "connected_check (server_id H) i s p DirInbound = StartHandshake"
    and "connected_check (server_id H) i s q DirInbound = StartHandshake"
    and "sint (active_count (sv_connectionCounts s) DirInbound + pending_count (sv_connectionCounts s) DirInbound)
      = sint (max_count (sv_connectionCounts s) DirInbound) - 1"
    and "sint (max_count (sv_connectionCounts s) DirInbound) < 2 ^ 62"
    and "addPendingStatus (server_id H) i s p DirInbound = (i1, s1)"
    and "addPendingStatus (server_id H) i1 s1 q DirInbound = (i2, s2)"
  shows "sint (active_count (sv_connectionCounts s2) DirInbound + pending_count (sv_connectionCounts s2) DirInbound)
      = sint (max_count (sv_connectionCounts s2) DirInbound) + 1"
proof -
  let ?c = "sv_connectionCounts s"
  have n: "id_pending i p = None" "id_pending i q = None"
    using assms(2,3) by (auto simp: connected_check_def hasPendingStatus_def split: if_splits)
  then have "sv_connectionCounts s2 = UpdatePendingConnCountByDirection 1 DirInbound
      (UpdatePendingConnCountByDirection 1 DirInbound ?c)"
    using assms(1,6,7)
    by (auto simp: addPendingStatus_def server_id_def UpdatePendingConnCount_def split: option.splits)
  then have "active_count (sv_connectionCounts s2) DirInbound + pending_count (sv_connectionCounts s2) DirInbound
      = (active_count ?c DirInbound + pending_count ?c DirInbound) + 2"
    "max_count (sv_connectionCounts s2) DirInbound = max_count ?c DirInbound"
    by simp_all
  moreover have "sint (x + 2) = sint x + 2" if "sint x < 2 ^ 62" for x :: int64
    using that sint_ge [of x] by (simp add: sint_word_ariths signed_take_bit_int_eq_self)
  ultimately show ?thesis using assms(4,5) by simp
qed

theorem concurrent_checks_overcommit_witness:
  "\<exists>(i2 :: identity_service) (s2 :: unit server). sint (active_count (sv_connectionCounts s2) DirInbound +
      pending_count (sv_connectionCounts s2) DirInbound) =
    sint (max_count (sv_connectionCounts s2) DirInbound) + 1 \<and> id_pending i2 ''q'' = Some DirInbound"
proof -
  define s where "s = NewServer_state idle_host (DefaultConfig\<lparr>cfg_MaxInboundPeers := 1\<rparr>) ''d'' ''i'' ()"
  define i where "i = NewIdentityService 0 ''self''"
  obtain i1 s1 where a1: "addPendingStatus (server_id idle_host) i s ''p'' DirInbound = (i1, s1)" by fastforce
  obtain i2 s2 where a2: "addPendingStatus (server_id idle_host) i1 s1 ''q'' DirInbound = (i2, s2)" by fastforce
  have cnt: "active_count (sv_connectionCounts s) DirInbound = 0" "pending_count (sv_connectionCounts s) DirInbound = 0"
    "max_count (sv_connectionCounts s) DirInbound = 1"
    by (simp_all add: s_def NewServer_state_def) (simp add: max_count_def NewBlankConnectionInfo_def DefaultConfig_def)
  then have "connected_check (server_id idle_host) i s x DirInbound = StartHandshake" for x
    by (simp add: connected_check_def hasPendingStatus_def i_def NewIdentityService_def server_id_def
        sv_HasFreeConnectionSlot_def HasFreeConnectionSlot_alt word_sless_alt)
  from concurrent_checks_overcommit [OF _ this this _ _ a1 a2] cnt
  have "sint (active_count (sv_connectionCounts s2) DirInbound + pending_count (sv_connectionCounts s2) DirInbound) =
      sint (max_count (sv_connectionCounts s2) DirInbound) + 1" by simp
  moreover have "id_pending i2 ''q'' = Some DirInbound"
    using a1 a2 by (auto simp: addPendingStatus_def i_def NewIdentityService_def)
  ultimately show ?thesis by blast
qed

text \<open>C6. A handshake puts a peer into the table only when both sides report the same network and
  neither regards the connection as a temporary dial.\<close>

theorem handshake_gate:
  assumes "handleConnected (server_id H) i s p d = (r, s')" and "sv_inv s"
    and "q \<in> active_peers s' e" and "q \<notin> active_peers s e"
  shows "q = p \<and> e = d \<and> r = None \<and>
    (\<exists>clt s1 resp s2. NewIdentityClient H s p = (Inr clt, s1) \<and>
       on_world (\<lambda>w. ho_Hello H w clt (constructStatus (server_id H) i s1 p)) s1 = (Inr resp, s2) \<and>
       st_Network resp = id_networkID i \<and> \<not> st_TemporaryDial resp \<and> \<not> IsTemporaryDial s1 p)"
proof -
  obtain c s1 where c: "NewIdentityClient H s p = (c, s1)" by fastforce
  have k1: "keeps s s1" using kept.R_NewIdentityClient [of s H p] c by simp
  have nokeep: "\<not> keeps s s'" using keeps_counts [of s s'] assms(3,4) by auto
  have sel: "is_NewIdentityClient (server_id H) = NewIdentityClient H" "is_AddPeer (server_id H) = AddPeer H"
    "is_Hello (server_id H) t x y = on_world (\<lambda>w. ho_Hello H w x y) t" for t x y
    by (simp_all add: server_id_def)
  show ?thesis
  proof (cases c)
    case (Inl e)
    then have "s' = s1" using assms(1) c by (simp add: handleConnected_def sel)
    then show ?thesis using nokeep k1 by simp
  next
    case (Inr clt)
    let ?q = "constructStatus (server_id H) i s1 p"
    obtain x s2 where x: "on_world (\<lambda>w. ho_Hello H w clt ?q) s1 = (x, s2)" by fastforce
    have k2: "keeps s s2" using keeps_trans [OF k1 kept.R_on_worldD [OF x]] .
    have inv2: "sv_inv s2" using keeps_sv_inv [OF k2 assms(2)] .
    have res: "x \<noteq> Inl e" "s' \<noteq> s2" for e
      using assms(1) c Inr x nokeep k2 by (auto simp: handleConnected_def sel Let_def)
    then obtain resp where resp: "x = Inr resp" by (cases x) auto
    then have g: "st_Network ?q = st_Network resp" "\<not> st_TemporaryDial resp" "\<not> st_TemporaryDial ?q"
      "r = None" "s' = AddPeer H s2 p d"
      using assms(1) c Inr x res(2) by (auto simp: handleConnected_def sel Let_def split: if_splits)
    have "active_peers s2 = active_peers s" using keeps_counts [OF k2] by simp
    then have "q = p \<and> e = d"
      using assms(3,4) AddPeer_effect(2) [OF inv2, of H p d e] g(5) by (auto split: if_splits)
    then show ?thesis using g c Inr x resp by (simp add: constructStatus_def server_id_def)
  qed
qed

theorem handshake_gate_witness:
  "\<exists>s' :: unit server.
     ''p'' \<in> active_peers s' DirInbound \<and>
     snd (handleConnected (server_id (idle_host\<lparr>ho_NewStream := (\<lambda>w p s. (Inr 0, w)),
        ho_Hello := (\<lambda>w c q. (Inr q, w))\<rparr>)) (NewIdentityService 0 ''self'')
        (idle_server\<lparr>sv_protocols := [''/id'' \<mapsto> 0]\<rparr>) ''p'' DirInbound) = s' \<and>
     \<not> IsTemporaryDial s' ''p''"
proof -
  let ?H = "idle_host\<lparr>ho_NewStream := (\<lambda>w p s. (Inr 0, w)), ho_Hello := (\<lambda>w c q. (Inr q, w))\<rparr>"
  let ?s = "idle_server\<lparr>sv_protocols := [''/id'' \<mapsto> 0]\<rparr>"
  obtain r s' where h: "handleConnected (server_id ?H) (NewIdentityService 0 ''self'') ?s ''p'' DirInbound = (r, s')"
    by fastforce
  have s': "s' = AddPeer ?H ?s ''p'' DirInbound" and t: "\<not> IsTemporaryDial s' ''p''"
    using h
    by (auto simp: handleConnected_def server_id_def NewIdentityClient_def NewProtoConnection_def NewStream_def
        on_world_def constructStatus_def idle_server_def NewServer_state_def NewIdentityService_def
        IsTemporaryDial_def AddPeer_def addPeerInfo_def notify_discovery_def updateBootnodeConnCount_def
        updateConnCount_def Let_def)
  have inv: "sv_inv ?s"
    by (rule keeps_sv_inv [of idle_server]) (simp_all add: keeps_def core_def idle_server_def)
  have act: "''p'' \<in> active_peers s' DirInbound" using AddPeer_effect(2) [OF inv] s' by simp
  have new: "''p'' \<notin> active_peers ?s DirInbound"
    by (simp add: active_peers_def active_def idle_server_def NewServer_state_def)
  from handshake_gate [OF h inv act new] act t h show ?thesis by auto
qed

lemma UpdateConnCount_commute:
  "UpdateConnCountByDirection a d (UpdateConnCountByDirection b e c) =
   UpdateConnCountByDirection b e (UpdateConnCountByDirection a d c)"
  by (cases d; cases e) (simp_all add: conn_defs)

lemma drop_direction_commute:
  "drop_direction p ci d (drop_direction p ci e s) = drop_direction p ci e (drop_direction p ci d s)"
  using UpdateConnCount_commute [of "-1" d "-1" e]
  by (simp add: drop_direction_def updateBootnodeConnCount_def updateConnCount_def
      increaseBootnodeConnCount_def isBootnode_def)

text \<open>The counter updates of \<open>removePeerInfo\<close> do not depend on the order in which Go iterates
  over the directions map.\<close>

theorem removePeerInfo_order_independent:
  assumes "distinct ds" and "set ds = UNIV"
  shows "fold (drop_direction p ci) ds s = fold (drop_direction p ci) all_directions s"
proof -
  have "mset ds = mset all_directions"
    using assms by (metis distinct_all_directions set_all_directions set_eq_iff_mset_eq_distinct)
  then show ?thesis
    by (intro fun_cong [OF fold_multiset_equiv]) (simp_all add: fun_eq_iff drop_direction_commute)
qed

theorem removePeerInfo_order_independent_witness:
  "fold (drop_direction ''p'' (new_peer_conn_info \<lparr>ai_ID = ''p'', ai_Addrs = []\<rparr>))
     [DirOutbound, DirUnknown, DirInbound] idle_server =
   fold (drop_direction ''p'' (new_peer_conn_info \<lparr>ai_ID = ''p'', ai_Addrs = []\<rparr>)) all_directions idle_server"
  by (rule removePeerInfo_order_independent) (auto simp: UNIV_direction)

lemma events_rtRemovePeer: "sv_events (sv_rtRemovePeer H s p) = sv_events s"
  by (auto simp: sv_rtRemovePeer_def sv_PeerRemoved_def on_world_def split: prod.splits)

lemma events_removePeerInfo: "sv_events (snd (removePeerInfo s p)) = sv_events s"
  by (auto simp: removePeerInfo_def all_directions_def drop_direction_def updateBootnodeConnCount_def
      updateConnCount_def split: option.split)

text \<open>\<open>removePeer\<close> frees the slots of the disconnected peer but emits no event: the dial loop,
  which waits for events, is not told that a slot became free.\<close>

theorem disconnect_emits_nothing:
  assumes "sv_inv s"
  shows "sv_events (removePeer H s p) = sv_events s \<and>
    active_peers (removePeer H s p) d = active_peers s d - {p}"
proof -
  obtain x s1 where r: "removePeerInfo s p = (x, s1)" by fastforce
  then have "sv_events s1 = sv_events s" using events_removePeerInfo [of s p] by simp
  then have "sv_events (removePeer H s p) = sv_events s"
    by (simp add: removePeer_def r notify_discovery_def HandleNetworkEvent_def server_disc_def
        events_rtRemovePeer peer_event_types split: option.split)
  then show ?thesis using removePeer_effect(2) [OF assms] by simp
qed

theorem disconnect_emits_nothing_witness:
  "sv_events (removePeer idle_host (AddPeer idle_host idle_server ''p'' DirOutbound) ''p'') =
   sv_events (AddPeer idle_host idle_server ''p'' DirOutbound)"
  by (rule conjunct1 [OF disconnect_emits_nothing]) (simp add: AddPeer_effect(1) idle_server_def)

section \<open>Discovery\<close>

lemma GetRandomBootnode_result:
  assumes "\<And>w n. 0 < n \<Longrightarrow> fst (ho_RandInt H w n) < n"
    and "GetRandomBootnode H s = (r, s')"
  shows "(r = None \<longleftrightarrow> (\<forall>b \<in> set (bootnodeArr (sv_bootnodes s)). hasPeer s (ai_ID b))) \<and>
    (\<forall>b. r = Some b \<longrightarrow> b \<in> set (bootnodeArr (sv_bootnodes s)) \<and> \<not> hasPeer s (ai_ID b)) \<and>
    (\<exists>w. s' = s\<lparr>sv_world := w\<rparr>)"
proof -
  let ?xs = "filter (\<lambda>v. \<not> hasPeer s (ai_ID v)) (bootnodeArr (sv_bootnodes s))"
  show ?thesis
  proof (cases "?xs = []")
    case True
    then have "r = None" "s' = s\<lparr>sv_world := sv_world s\<rparr>"
      using assms(2) by (simp_all add: GetRandomBootnode_def getBootnodes_def Let_def)
    moreover have "\<forall>b \<in> set (bootnodeArr (sv_bootnodes s)). hasPeer s (ai_ID b)"
      using True by (simp add: filter_empty_conv)
    ultimately show ?thesis by blast
  next
    case False
    obtain n w where w: "ho_RandInt H (sv_world s) (length ?xs) = (n, w)" by fastforce
    have n: "n < length ?xs" using assms(1) [of "length ?xs" "sv_world s"] w False by simp
    have r: "r = Some (?xs ! n)" "s' = s\<lparr>sv_world := w\<rparr>"
      using assms(2) False w by (auto simp: GetRandomBootnode_def getBootnodes_def on_world_def Let_def)
    have "?xs ! n \<in> set ?xs" using n by (rule nth_mem)
    then show ?thesis using r by auto
  qed
qed

text \<open>A peer's answer crashes the node exactly when one of its addresses parses to a peer without
  transport address: \<open>AddToPeerStore\<close> indexes the empty address list.  Unparsable addresses and
  routing-table errors are skipped.\<close>

theorem addPeersToTable_panics_iff:
  "(\<exists>e. addPeersToTable (server_disc H) s nodes = Inl e) \<longleftrightarrow>
   (\<exists>a \<in> set nodes. \<exists>p. StringToAddrInfo (ho_codec H) a = Inr \<lparr>ai_ID = p, ai_Addrs = []\<rparr>)"
proof (induction nodes arbitrary: s)
  case (Cons a nodes)
  have codec: "dn_codec (server_disc H) = ho_codec H" by (simp add: server_disc_def)
  show ?case
  proof (cases "StringToAddrInfo (ho_codec H) a")
    case (Inl e)
    then show ?thesis using Cons.IH [of s] by (simp add: codec)
  next
    case (Inr n)
    show ?thesis
    proof (cases "ai_Addrs n")
      case Nil
      then have n: "n = \<lparr>ai_ID = ai_ID n, ai_Addrs = []\<rparr>" by simp
      have "addToTable (server_disc H) s n = Inl (GoPanic ''index out of range [0] with length 0'')"
        using Nil by (simp add: addToTable_def server_disc_def AddToPeerStore_def)
      then show ?thesis using Inr n by (auto simp: codec)
    next
      case (Cons m ms)
      then have "\<exists>x s1. addToTable (server_disc H) s n = Inr (x, s1)"
        by (auto simp: addToTable_def server_disc_def AddToPeerStore_def split: prod.split option.split)
      then obtain x s1 where "addToTable (server_disc H) s n = Inr (x, s1)" by blast
      then show ?thesis using Inr Cons Cons.IH [of s1] by (auto simp: codec)
    qed
  qed
qed simp

lemma server_disc_sel: "dn_codec (server_disc H) = ho_codec H" "dn_ConvertKey (server_disc H) = ho_ConvertKey H"
  "dn_GetPeerInfo (server_disc H) = GetPeerInfo H"
  "rt_NearestPeers (server_disc H) s = hk_NearestPeers H (sv_world s)"
  by (simp_all add: server_disc_def)

text \<open>What the routing table of libp2p does with a count: it finds at most so many peers, and panics for a
  negative one, which it makes the capacity of a slice and the bound of another.\<close>

definition nearest_law :: "'w host \<Rightarrow> bool" where
  "nearest_law H \<longleftrightarrow> (\<forall>w k n.
     (0 \<le> n \<longrightarrow> (\<exists>ps. hk_NearestPeers H w k n = Inr ps \<and> length ps \<le> nat n)) \<and>
     (n < 0 \<longrightarrow> (\<exists>m. hk_NearestPeers H w k n = Inl (GoPanic m))))"

lemma FindPeers_nearest:
  "\<exists>k. FindPeers (server_disc H) s (Some requester) req =
     (case hk_NearestPeers H (sv_world s) k (min 16 (sint (fr_Count req))) of
        Inl panic \<Rightarrow> Inl panic | Inr ps \<Rightarrow> collect_peers (server_disc H) s requester ps)"
proof -
  have "sint (if maxDiscoveryPeerReqCount <s fr_Count req then maxDiscoveryPeerReqCount else fr_Count req) =
      min 16 (sint (fr_Count req))"
    by (auto simp: maxDiscoveryPeerReqCount_def word_sless_alt)
  then show ?thesis by (auto simp: FindPeers_def Let_def server_disc_sel)
qed

text \<open>C8. \<open>FindPeers\<close> with a count that is not negative answers with at most that many addresses and at most 16, one
  for each peer the routing table considers near, except the requester and peers without address.  The
  count of the request is bounded above only: a negative one panics, in a handler that does not recover,
  so every peer can end the process.\<close>

theorem FindPeers_answer:
  assumes "nearest_law H"
  shows "(0 \<le> sint (fr_Count req) \<longrightarrow>
      (\<exists>as. FindPeers (server_disc H) s (Some requester) req = Inr as \<and>
        length as \<le> 16 \<and> int (length as) \<le> sint (fr_Count req) \<and>
        (\<forall>a \<in> set as. \<exists>p. p \<noteq> requester \<and> ai_Addrs (GetPeerInfo H s p) \<noteq> [] \<and>
           AddrInfoToString (ho_codec H) (GetPeerInfo H s p) = Inr a))) \<and>
    (sint (fr_Count req) < 0 \<longrightarrow> (\<exists>m. FindPeers (server_disc H) s (Some requester) req = Inl (GoPanic m)))"
proof -
  let ?n = "min 16 (sint (fr_Count req))"
  obtain k where k: "FindPeers (server_disc H) s (Some requester) req = (case hk_NearestPeers H (sv_world s) k ?n of
        Inl panic \<Rightarrow> Inl panic | Inr ps \<Rightarrow> collect_peers (server_disc H) s requester ps)"
    using FindPeers_nearest [of H s requester req] by blast
  show ?thesis
  proof (cases "0 \<le> sint (fr_Count req)")
    case True
    then obtain ps where ps: "hk_NearestPeers H (sv_world s) k ?n = Inr ps" "length ps \<le> nat ?n"
      using assms unfolding nearest_law_def by (metis min_def zero_le_numeral)
    obtain as where as: "collect_peers (server_disc H) s requester ps = Inr as" "length as \<le> length ps"
      using collect_peers_ok [of "server_disc H" s requester ps] by blast
    have "length as \<le> 16" "int (length as) \<le> sint (fr_Count req)" using as(2) ps(2) True by linarith+
    then show ?thesis using True k ps(1) as(1) collect_peers_set [OF as(1)] unfolding server_disc_sel by auto
  next
    case False
    then have "?n < 0" by linarith
    then obtain m where "hk_NearestPeers H (sv_world s) k ?n = Inl (GoPanic m)"
      using assms unfolding nearest_law_def by metis
    then show ?thesis using False k by simp
  qed
qed

theorem FindPeers_answer_witness:
  "(\<exists>as. FindPeers (server_disc idle_host) idle_server (Some ''self'') \<lparr>fr_Key = ''k'', fr_Count = 20\<rparr> = Inr as \<and>
     length as \<le> 16) \<and>
   (\<exists>m. FindPeers (server_disc idle_host) idle_server (Some ''self'') \<lparr>fr_Key = ''k'', fr_Count = -1\<rparr> = Inl (GoPanic m))"
proof -
  have "nearest_law idle_host" by (simp add: nearest_law_def)
  note F = FindPeers_answer [OF this, of _ idle_server "''self''"]
  show ?thesis using F [of "\<lparr>fr_Key = ''k'', fr_Count = 20\<rparr>"] F [of "\<lparr>fr_Key = ''k'', fr_Count = -1\<rparr>"] by auto
qed

lemma parse_bootnodes_result:
  "parse_bootnodes H raw arr m = Inr (arr', m') \<Longrightarrow>
   dom m = ai_ID ` set arr \<Longrightarrow>
   dom m' = ai_ID ` set arr' \<and>
   set arr' = set arr \<union> {b. ai_ID b \<noteq> ho_ID H \<and> (\<exists>a \<in> set raw. StringToAddrInfo (ho_codec H) a = Inr b)}"
proof (induction raw arbitrary: arr m)
  case (Cons a raw)
  obtain b where b: "StringToAddrInfo (ho_codec H) a = Inr b"
    using Cons.prems(1) by (auto split: sum.splits)
  let ?new = "\<lambda>as. {c. ai_ID c \<noteq> ho_ID H \<and> (\<exists>x \<in> set as. StringToAddrInfo (ho_codec H) x = Inr c)}"
  show ?case
  proof (cases "ai_ID b = ho_ID H")
    case True
    then have new: "?new (a # raw) = ?new raw" using b by auto
    have "parse_bootnodes H raw arr m = Inr (arr', m')" using Cons.prems(1) b True by simp
    from Cons.IH [OF this Cons.prems(2)] show ?thesis unfolding new .
  next
    case False
    then have new: "?new (a # raw) = insert b (?new raw)" using b by auto
    have d: "dom (m(ai_ID b \<mapsto> b)) = ai_ID ` set (arr @ [b])" using Cons.prems(2) by simp
    have "parse_bootnodes H raw (arr @ [b]) (m(ai_ID b \<mapsto> b)) = Inr (arr', m')"
      using Cons.prems(1) b False by simp
    from Cons.IH [OF this d] show ?thesis unfolding new by simp
  qed
qed simp

text \<open>A successful \<open>setupBootnodes\<close> installs a table without the node itself in which the list and
  the lookup map name the same peers, every entry parsed from the configuration.\<close>

theorem setupBootnodes_table:
  assumes "setupBootnodes H s bs = Inr s'"
  shows "\<exists>raw. bs = Some raw \<and> raw \<noteq> [] \<and>
    set (bootnodeArr (sv_bootnodes s')) =
      {b. ai_ID b \<noteq> ho_ID H \<and> (\<exists>a \<in> set raw. StringToAddrInfo (ho_codec H) a = Inr b)} \<and>
    (\<forall>p. isBootnode (sv_bootnodes s') p \<longleftrightarrow> p \<in> ai_ID ` set (bootnodeArr (sv_bootnodes s')))"
proof -
  obtain raw arr m where r: "bs = Some raw" "raw \<noteq> []" "parse_bootnodes H raw [] Map.empty = Inr (arr, m)"
    and s': "s' = s\<lparr>sv_bootnodes := \<lparr>bootnodeArr = arr, bootnodesMap = m, bootnodeConnCount = 0\<rparr>\<rparr>"
    using assms by (auto simp: setupBootnodes_def MinimumBootNodes_def split: option.splits if_splits sum.splits)
  have P: "dom m = ai_ID ` set arr"
    "set arr = {b. ai_ID b \<noteq> ho_ID H \<and> (\<exists>a \<in> set raw. StringToAddrInfo (ho_codec H) a = Inr b)}"
    using parse_bootnodes_result [OF r(3)] by simp_all
  have "isBootnode (sv_bootnodes s') p \<longleftrightarrow> p \<in> ai_ID ` set arr" for p
    unfolding P(1) [symmetric] by (simp add: s' isBootnode_def dom_def)
  moreover have "bootnodeArr (sv_bootnodes s') = arr" by (simp add: s')
  ultimately show ?thesis using r(1,2) P(2) by simp
qed

theorem setupBootnodes_table_witness:
  "\<exists>s'. setupBootnodes idle_host idle_server (Some [''self'', ''b'']) = Inr s' \<and>
     isBootnode (sv_bootnodes s') ''b'' \<and> \<not> isBootnode (sv_bootnodes s') ''self''"
proof -
  have ok: "\<exists>s'. setupBootnodes idle_host idle_server (Some [''self'', ''b'']) = Inr s'"
    by (simp add: setupBootnodes_def MinimumBootNodes_def idle_addr)
  then obtain s' where s': "setupBootnodes idle_host idle_server (Some [''self'', ''b'']) = Inr s'" by blast
  from setupBootnodes_table [OF this]
  have T: "set (bootnodeArr (sv_bootnodes s')) = {b. ai_ID b \<noteq> ''self'' \<and>
      (\<exists>a \<in> {''self'', ''b''}. \<lparr>ai_ID = a, ai_Addrs = [a]\<rparr> = b)}"
    "\<And>p. isBootnode (sv_bootnodes s') p \<longleftrightarrow> p \<in> ai_ID ` set (bootnodeArr (sv_bootnodes s'))"
    by (auto simp: idle_addr)
  have "isBootnode (sv_bootnodes s') ''b''" "\<not> isBootnode (sv_bootnodes s') ''self''"
    unfolding T(2) T(1) by (auto intro!: image_eqI [where x = "\<lparr>ai_ID = ''b'', ai_Addrs = [''b'']\<rparr>"])
  with s' show ?thesis by blast
qed

end
