(* ===== verification/Dial_Loop.thy ===== *)
theory Dial_Loop
  imports Net_Props "HOL-Library.Sublist"
begin

text \<open>
  The dial loop of the networking server with its event subscription (\<open>runDial\<close>, \<open>SubscribeFn\<close> and \<open>Subscription.run\<close>
  in \<open>core/network/server.go\<close>) as goroutines over the state of the server.  The loop pops a task while an outbound
  slot is free, and otherwise waits for \<open>notifyCh\<close>, which the handler of the subscription fills.
\<close>

section \<open>State\<close>

text \<open>Where the loop is: at the test of the slots, before the pop, between an empty pop and the \<open>select\<close> of
  \<open>PopTask\<close>, parked there, with a task in hand, in the \<open>select\<close> of the loop, before the deferred
  \<open>cancel\<close>, before the deferred \<open>close(notifyCh)\<close>, returned.\<close>

datatype loop_pc = AtSlots | AtPop | AtGap | AtParked | AtDial addr_info | AtSelect | AtCancel | AtClose | Returned

datatype fn_pc = FnSelect | FnHandle peer_event | FnReturned

text \<open>The event bus and the goroutine of \<open>Subscription.run\<close> keep the order of the events, so the subscription has
  read a prefix of what was emitted, of length \<open>dl_seen\<close>.  \<open>dl_checked\<close> is the number of events that were handled
  when the loop last took a notification; the code has no such variable.\<close>

record 'w dial_loop =
  dl_srv :: "'w server"
  dl_pc :: loop_pc
  dl_fn :: fn_pc
  dl_seen :: nat
  dl_notify :: bool
  dl_notifyOpen :: bool
  dl_cancelled :: bool
  dl_checked :: nat
  dl_crashed :: bool

definition handled :: "'w dial_loop \<Rightarrow> nat" where
  "handled L = (case dl_fn L of FnHandle _ \<Rightarrow> dl_seen L - 1 | _ \<Rightarrow> dl_seen L)"

text \<open>\<open>runDial\<close> up to its loop; \<open>sub\<close> is the outcome of the subscription.\<close>

definition runDial :: "go_err option \<Rightarrow> 'w server \<Rightarrow> 'w dial_loop" where
  "runDial sub s =
     \<lparr>dl_srv = s, dl_pc = (case sub of None \<Rightarrow> AtSlots | Some _ \<Rightarrow> AtCancel),
      dl_fn = (case sub of None \<Rightarrow> FnSelect | Some _ \<Rightarrow> FnReturned), dl_seen = length (sv_events s),
      dl_notify = False, dl_notifyOpen = True, dl_cancelled = False, dl_checked = length (sv_events s),
      dl_crashed = False\<rparr>"

section \<open>The loop\<close>

definition at :: "loop_pc \<Rightarrow> 'w dial_loop \<Rightarrow> 'w dial_loop" where
  "at pc L = L\<lparr>dl_pc := pc\<rparr>"

definition on_server :: "('w server \<Rightarrow> 'w server) \<Rightarrow> 'w dial_loop \<Rightarrow> 'w dial_loop" where
  "on_server f L = L\<lparr>dl_srv := f (dl_srv L)\<rparr>"

text \<open>The connection attempt of the loop.\<close>

definition dial_peer :: "'w host \<Rightarrow> addr_info \<Rightarrow> 'w server \<Rightarrow> 'w server" where
  "dial_peer H peerInfo s =
     (if IsConnected H s (ai_ID peerInfo) then s
      else case on_world (\<lambda>w. ho_Connect H w peerInfo) s of
        (None, s1) \<Rightarrow> s1
      | (Some _, s1) \<Rightarrow> emitEvent s1 (ai_ID peerInfo) PeerFailedToConnect)"

text \<open>One step of the loop from where it is, \<open>None\<close> while it blocks.  A closed queue is seen in the \<open>select\<close> of
  \<open>PopTask\<close>.\<close>

fun loop_from :: "'w host \<Rightarrow> loop_pc \<Rightarrow> 'w dial_loop \<Rightarrow> 'w dial_loop option" where
  "loop_from H AtSlots L =
     Some (at (if HasFreeOutboundConn (sv_connectionCounts (dl_srv L)) then AtPop else AtSelect) L)"
| "loop_from H AtPop L =
     (case popTaskImpl (sv_dialQueue (dl_srv L)) of
        (None, _) \<Rightarrow> Some (at AtGap L)
      | (Some tt, q) \<Rightarrow>
          Some (at (AtDial (GetAddrInfo (dq_store q tt))) (on_server (\<lambda>s. s\<lparr>sv_dialQueue := q\<rparr>) L)))"
| "loop_from H AtGap L = Some (at (if dq_closed (sv_dialQueue (dl_srv L)) then AtCancel else AtParked) L)"
| "loop_from H AtParked L = None"
| "loop_from H (AtDial peerInfo) L = Some (at AtSlots (on_server (dial_peer H peerInfo) L))"
| "loop_from H AtSelect L = None"
| "loop_from H AtCancel L = Some (at AtClose (L\<lparr>dl_cancelled := True\<rparr>))"
| "loop_from H AtClose L = Some (at Returned (L\<lparr>dl_notifyOpen := False\<rparr>))"
| "loop_from H Returned L = None"

definition loop_turn :: "'w host \<Rightarrow> 'w dial_loop \<Rightarrow> 'w dial_loop option" where
  "loop_turn H L = loop_from H (dl_pc L) L"

text \<open>The two arms of its \<open>select\<close>.\<close>

definition loop_notified :: "'w dial_loop \<Rightarrow> 'w dial_loop option" where
  "loop_notified L = (if dl_pc L = AtSelect \<and> dl_notify L
     then Some (at AtSlots (L\<lparr>dl_notify := False, dl_checked := handled L\<rparr>)) else None)"

definition loop_stopped :: "'w dial_loop \<Rightarrow> 'w dial_loop option" where
  "loop_stopped L = (if dl_pc L = AtSelect \<and> sv_closed (dl_srv L) then Some (at AtCancel L) else None)"

section \<open>The subscription\<close>

text \<open>The arms of the \<open>select\<close> of \<open>SubscribeFn\<close>: an event, or the end.\<close>

definition fn_take :: "'w dial_loop \<Rightarrow> 'w dial_loop option" where
  "fn_take L = (if dl_fn L = FnSelect \<and> dl_seen L < length (sv_events (dl_srv L))
     then Some (L\<lparr>dl_fn := FnHandle (sv_events (dl_srv L) ! dl_seen L), dl_seen := Suc (dl_seen L)\<rparr>) else None)"

definition fn_stop :: "'w dial_loop \<Rightarrow> 'w dial_loop option" where
  "fn_stop L = (if dl_fn L = FnSelect \<and> (dl_cancelled L \<or> sv_closed (dl_srv L))
     then Some (L\<lparr>dl_fn := FnReturned\<rparr>) else None)"

text \<open>The handler.  Its \<open>select\<close> takes any arm that is ready, and the default when none is; a send on a closed
  channel is ready, and panics.\<close>

datatype select_arm = ArmDone | ArmSend | ArmDefault

definition ready :: "'w dial_loop \<Rightarrow> select_arm \<Rightarrow> bool" where
  "ready L arm = (case arm of
     ArmDone \<Rightarrow> dl_cancelled L
   | ArmSend \<Rightarrow> \<not> dl_notifyOpen L \<or> \<not> dl_notify L
   | ArmDefault \<Rightarrow> \<not> dl_cancelled L \<and> dl_notifyOpen L \<and> dl_notify L)"

definition send_notify :: "'w dial_loop \<Rightarrow> 'w dial_loop" where
  "send_notify L = (if dl_notifyOpen L then L\<lparr>dl_notify := True\<rparr> else L\<lparr>dl_crashed := True\<rparr>)"

definition fn_handle :: "select_arm \<Rightarrow> 'w dial_loop \<Rightarrow> 'w dial_loop option" where
  "fn_handle arm L = (case dl_fn L of
     FnHandle ev \<Rightarrow>
       if \<not> dial_wakes (ev_Type ev) then Some (L\<lparr>dl_fn := FnSelect\<rparr>)
       else if \<not> ready L arm then None
       else Some ((if arm = ArmSend then send_notify L else L)\<lparr>dl_fn := FnSelect\<rparr>)
   | _ \<Rightarrow> None)"

section \<open>The system\<close>

text \<open>What other goroutines do to the server: handshakes, disconnections, discovery, requests to join, changes of
  the library's world, and \<open>Close\<close>.\<close>

inductive other_step :: "'w host \<Rightarrow> 'w server \<Rightarrow> 'w server \<Rightarrow> bool" for H :: "'w host" where
  connects: "ConnectedF (server_id H) i s p d = (started, i', s') \<Longrightarrow> other_step H s s'"
| shakes: "handshake_result (server_id H) i s p d = (ev, s') \<Longrightarrow> other_step H s s'"
| shaken: "handshake_end (server_id H) i s p ev = (i', s') \<Longrightarrow> other_step H s s'"
| disconnects: "other_step H s (removePeer H s p)"
| keeps_alive: "other_step H s (keepAlive_tick H s)"
| joins: "other_step H s (snd (JoinPeer H s raw))"
| asks_peer: "regularPeerDiscovery (server_disc H) s = Inr s' \<Longrightarrow> other_step H s s'"
| asks_bootnode: "bootnodePeerDiscovery (server_disc H) pc s = (x, s') \<Longrightarrow> other_step H s s'"
| library: "other_step H s (s\<lparr>sv_world := w\<rparr>)"

text \<open>A parked \<open>PopTask\<close> is woken by the send of \<open>AddTask\<close> and by the closing of its queue.\<close>

definition unpark :: "'w server \<Rightarrow> 'w server \<Rightarrow> loop_pc \<Rightarrow> loop_pc" where
  "unpark s s' pc =
     (if pc \<noteq> AtParked then pc
      else if dq_next (sv_dialQueue s) < dq_next (sv_dialQueue s') then AtPop
      else if dq_closed (sv_dialQueue s') then AtCancel else AtParked)"

definition after :: "'w server \<Rightarrow> 'w dial_loop \<Rightarrow> 'w dial_loop" where
  "after s' L = L\<lparr>dl_srv := s', dl_pc := unpark (dl_srv L) s' (dl_pc L)\<rparr>"

text \<open>\<open>own_step\<close> are the steps of the loop and of its subscription; a panic of the handler ends the process.\<close>

inductive own_step :: "'w host \<Rightarrow> 'w dial_loop \<Rightarrow> 'w dial_loop \<Rightarrow> bool" for H :: "'w host" where
  turn: "loop_turn H L = Some L' \<Longrightarrow> \<not> dl_crashed L \<Longrightarrow> own_step H L L'"
| notified: "loop_notified L = Some L' \<Longrightarrow> \<not> dl_crashed L \<Longrightarrow> own_step H L L'"
| stopped: "loop_stopped L = Some L' \<Longrightarrow> \<not> dl_crashed L \<Longrightarrow> own_step H L L'"
| takes: "fn_take L = Some L' \<Longrightarrow> \<not> dl_crashed L \<Longrightarrow> own_step H L L'"
| stops: "fn_stop L = Some L' \<Longrightarrow> \<not> dl_crashed L \<Longrightarrow> own_step H L L'"
| handles: "fn_handle arm L = Some L' \<Longrightarrow> \<not> dl_crashed L \<Longrightarrow> own_step H L L'"

inductive dial_step :: "'w host \<Rightarrow> 'w dial_loop \<Rightarrow> 'w dial_loop \<Rightarrow> bool" for H :: "'w host" where
  own: "own_step H L L' \<Longrightarrow> dial_step H L L'"
| other: "other_step H (dl_srv L) s' \<Longrightarrow> \<not> dl_crashed L \<Longrightarrow> dial_step H L (after s' L)"
| closes: "sv_Close H (dl_srv L) = Inr (err, s') \<Longrightarrow> \<not> dl_crashed L \<Longrightarrow> dial_step H L (after s' L)"

inductive dial_reach :: "'w host \<Rightarrow> 'w dial_loop \<Rightarrow> bool" for H :: "'w host" where
  started: "Start H (NewServer_state H cfg dp ip w) bs g1 g2 = Inr (s, i) \<Longrightarrow> dial_reach H (runDial sub s)"
| steps: "dial_reach H L \<Longrightarrow> dial_step H L L' \<Longrightarrow> dial_reach H L'"

end
