(* ===== verification/Dial_Loop_Props.thy ===== *)
theory Dial_Loop_Props
  imports Dial_Loop
begin

text \<open>
  The dial loop loses no notification of the event bus; but a disconnection is not an event of the bus, so a slot
  that it frees stays empty while tasks wait; and the shutdown of the loop races with its handler.
\<close>

section \<open>What the operations of the server keep\<close>

text \<open>Events are only added, and nothing but \<open>Close\<close> closes the server or its dial queue.\<close>

definition goes_on :: "'w server \<Rightarrow> 'w server \<Rightarrow> bool" where
  "goes_on s s' \<longleftrightarrow> prefix (sv_events s) (sv_events s') \<and> sv_closed s' = sv_closed s \<and>
     (dq_inv (sv_dialQueue s) \<longrightarrow> dq_inv (sv_dialQueue s') \<and>
        dq_closed (sv_dialQueue s') = dq_closed (sv_dialQueue s))"

interpretation going: server_frame "goes_on :: 'w server \<Rightarrow> 'w server \<Rightarrow> bool"
proof unfold_locales
  show "goes_on s (s\<lparr>sv_dialQueue := q\<rparr>)" if "popTaskImpl (sv_dialQueue s) = (t, q)" for s :: "'w server" and t q
    using that dq_inv_popTaskImpl [of "sv_dialQueue s"] dq_closed_popTaskImpl [of "sv_dialQueue s" t q]
    by (simp add: goes_on_def)
  show "goes_on s u" if "goes_on s t" "goes_on t u" for s t u :: "'w server"
    using that prefix_order.trans by (auto simp: goes_on_def)
qed (simp_all add: goes_on_def AddTask_result dq_inv_DeleteTask dq_closed_DeleteTask)

lemma goes_on_eqs:
  "goes_on s (s\<lparr>sv_peers := m\<rparr>)" "goes_on s (s\<lparr>sv_connectionCounts := c\<rparr>)" "goes_on s (s\<lparr>sv_bootnodes := b\<rparr>)"
  by (simp_all add: goes_on_def)

lemma goes_on_addPeerInfo: "addPeerInfo H s p d = (x, s') \<Longrightarrow> goes_on s s'"
  by (auto simp: addPeerInfo_def updateBootnodeConnCount_def updateConnCount_def goes_on_def Let_def
      split: option.splits if_splits)

lemma goes_on_AddPeer [simp]: "goes_on s (AddPeer H s p d)"
  by (auto simp: AddPeer_def split: prod.splits bool.splits
      dest!: goes_on_addPeerInfo intro: going.R_chain [OF _ going.R_notify_discovery])

lemma goes_on_drop: "goes_on s (fold (drop_direction p ci) ds s)"
proof (induction ds arbitrary: s)
  case (Cons d ds)
  have "goes_on s (drop_direction p ci d s)"
    by (simp add: drop_direction_def updateBootnodeConnCount_def updateConnCount_def goes_on_def)
  then show ?case using going.R_chain [OF _ Cons] by simp
qed simp

lemma goes_on_removePeerInfo: "removePeerInfo s p = (x, s') \<Longrightarrow> goes_on s s'"
  by (auto simp: removePeerInfo_def intro: going.R_chain [OF goes_on_eqs(1) goes_on_drop] split: option.splits)

lemma goes_on_removePeer [simp]: "goes_on s (removePeer H s p)"
  by (auto simp: removePeer_def split: prod.splits option.splits
      dest!: goes_on_removePeerInfo intro: going.R_chain [OF _ going.R_notify_discovery])

lemma goes_on_ConnectedF: "ConnectedF (server_id H) i s p d = (started, i', s') \<Longrightarrow> goes_on s s'"
  by (auto simp: ConnectedF_def addPendingStatus_def server_id_def UpdatePendingConnCount_def goes_on_eqs
      split: conn_decision.splits option.splits)

lemma goes_on_handshake:
  assumes "handshake_result (server_id H) i s p d = (ev, s')"
  shows "goes_on s s'"
proof -
  obtain c s1 where c: "NewIdentityClient H s p = (c, s1)" by fastforce
  have s1: "goes_on s s1" using going.R_NewIdentityClient [of s H p] c by simp
  have bye: "goes_on s (DisconnectFromPeer H u p r)" if "goes_on s u" for u r
    by (rule going.R_chain [OF that going.R_DisconnectFromPeer])
  show ?thesis
  proof (cases c)
    case (Inl e)
    then show ?thesis using assms c s1 by (auto simp: handshake_result_def handleConnected_def server_id_def intro: bye)
  next
    case (Inr clt)
    obtain x s2 where x: "on_world (\<lambda>w. ho_Hello H w clt (constructStatus (server_id H) i s1 p)) s1 = (x, s2)" by fastforce
    have s2: "goes_on s s2" by (rule going.R_chain [OF s1 going.R_on_worldD [OF x]])
    have add: "goes_on s (AddPeer H s2 p d)" by (rule going.R_chain [OF s2 goes_on_AddPeer])
    have ids: "is_NewIdentityClient (server_id H) = NewIdentityClient H"
      "is_Hello (server_id H) = (\<lambda>s c q. on_world (\<lambda>w. ho_Hello H w c q) s)"
      "is_AddPeer (server_id H) = AddPeer H" "is_DisconnectFromPeer (server_id H) = DisconnectFromPeer H"
      by (simp_all add: server_id_def)
    show ?thesis
      using assms c x Inr s2 add bye [OF s2]
      by (cases x) (auto simp: handshake_result_def handleConnected_def Let_def ids split: if_splits)
  qed
qed

lemma goes_on_handshake_end: "handshake_end (server_id H) i s p ev = (i', s') \<Longrightarrow> goes_on s s'"
  by (auto simp: handshake_end_def removePendingStatus_def server_id_def UpdatePendingConnCount_def EmitEvent_def
      Let_def intro: going.R_chain [OF goes_on_eqs(2) going.R_emitEvent] split: option.splits prod.splits)

lemma goes_on_other: "other_step H s s' \<Longrightarrow> goes_on s s'"
proof (induction rule: other_step.induct)
  case (asks_peer s s')
  then show ?case by (rule going.df.R_regularPeerDiscovery)
next
  case (asks_bootnode pc s x s')
  then show ?case by (rule going.df.R_bootnodePeerDiscovery)
qed (simp_all add: goes_on_ConnectedF goes_on_handshake goes_on_handshake_end)

lemma goes_on_Start:
  assumes "Start H s0 bs g1 g2 = Inr (s, i)"
  shows "goes_on s0 s"
proof -
  obtain s1 i1 where id: "setupIdentity H s0 g1 = (s1, i1)" by fastforce
  from assms id obtain s2 where b: "setupBootnodes H s1 bs = Inr s2" and d: "setupDiscovery H s2 True g2 = Inr s"
    by (auto simp: Start_def split: sum.splits)
  have "goes_on s0 s1" using id by (auto simp: setupIdentity_def)
  moreover have "goes_on s1 s2" using b by (auto simp: setupBootnodes_def goes_on_eqs split: option.splits if_splits sum.splits)
  ultimately show ?thesis using going.R_setupDiscovery [OF d] going.R_chain by blast
qed

section \<open>The invariant of the loop\<close>

definition leaving :: "loop_pc \<Rightarrow> bool" where
  "leaving pc \<longleftrightarrow> pc = AtCancel \<or> pc = AtClose \<or> pc = Returned"

lemma leaving_pcs: "leaving AtCancel" "leaving AtClose" "leaving Returned" "\<not> leaving AtSlots" "\<not> leaving AtSelect"
  by (simp_all add: leaving_def)

definition dl_inv :: "'w dial_loop \<Rightarrow> bool" where
  "dl_inv L \<longleftrightarrow> dq_inv (sv_dialQueue (dl_srv L)) \<and>
     dl_seen L \<le> length (sv_events (dl_srv L)) \<and> dl_checked L \<le> handled L \<and>
     (\<forall>ev. dl_fn L = FnHandle ev \<longrightarrow> 0 < dl_seen L \<and> ev = sv_events (dl_srv L) ! (dl_seen L - 1)) \<and>
     (dq_closed (sv_dialQueue (dl_srv L)) \<longrightarrow> sv_closed (dl_srv L)) \<and>
     (\<not> dl_notifyOpen L \<longrightarrow> dl_cancelled L) \<and>
     (dl_cancelled L \<or> leaving (dl_pc L) \<longrightarrow> sv_closed (dl_srv L) \<or> dl_fn L = FnReturned) \<and>
     (dl_cancelled L \<longrightarrow> leaving (dl_pc L)) \<and>
     (dl_fn L = FnReturned \<longrightarrow> sv_closed (dl_srv L) \<or> leaving (dl_pc L)) \<and>
     (dl_crashed L \<longrightarrow> sv_closed (dl_srv L))"

definition not_lost :: "'w dial_loop \<Rightarrow> bool" where
  "not_lost L \<longleftrightarrow> (\<not> dl_cancelled L \<and> \<not> dl_notify L \<longrightarrow>
     (\<forall>k. dl_checked L \<le> k \<and> k < handled L \<longrightarrow> \<not> dial_wakes (ev_Type (sv_events (dl_srv L) ! k))))"

lemma prefix_nth: "prefix xs ys \<Longrightarrow> k < length xs \<Longrightarrow> ys ! k = xs ! k"
  by (auto simp: prefix_def nth_append)

lemma handled_le: "handled L \<le> dl_seen L"
  by (simp add: handled_def split: fn_pc.split)

lemma handled_cong: "dl_fn L' = dl_fn L \<Longrightarrow> dl_seen L' = dl_seen L \<Longrightarrow> handled L' = handled L"
  by (simp add: handled_def split: fn_pc.split)

lemma handled_simps:
  "dl_fn L = FnSelect \<Longrightarrow> handled L = dl_seen L" "dl_fn L = FnReturned \<Longrightarrow> handled L = dl_seen L"
  "dl_fn L = FnHandle ev \<Longrightarrow> handled L = dl_seen L - 1"
  by (simp_all add: handled_def)

lemma dl_inv_after:
  assumes "dl_inv L" and g: "goes_on (dl_srv L) s'" and "not_lost L"
  shows "dl_inv (after s' L)" and "not_lost (after s' L)"
proof -
  let ?s = "dl_srv L"
  have p: "prefix (sv_events ?s) (sv_events s')" and c: "sv_closed s' = sv_closed ?s"
    and q: "dq_inv (sv_dialQueue s')" "dq_closed (sv_dialQueue s') = dq_closed (sv_dialQueue ?s)"
    using assms(1) g by (simp_all add: goes_on_def dl_inv_def)
  have h: "handled (after s' L) = handled L" by (rule handled_cong) (simp_all add: after_def)
  have nth: "sv_events s' ! k = sv_events ?s ! k" if "k < dl_seen L" for k
    using prefix_nth [OF p] that assms(1) by (simp add: dl_inv_def)
  have pc: "leaving (unpark ?s s' (dl_pc L)) \<Longrightarrow> leaving (dl_pc L) \<or> sv_closed ?s"
    using assms(1) q by (auto simp: unpark_def leaving_def dl_inv_def split: if_splits)
  have len: "dl_seen L \<le> length (sv_events s')" using assms(1) prefix_length_le [OF p] by (simp add: dl_inv_def)
  have pc': "leaving (dl_pc L) \<Longrightarrow> leaving (unpark ?s s' (dl_pc L))" by (auto simp: unpark_def leaving_def)
  show "dl_inv (after s' L)"
    using assms(1) c q h nth pc pc' len by (auto simp: dl_inv_def after_def)
  show "not_lost (after s' L)"
    using assms(3) h nth handled_le [of L] by (auto simp: not_lost_def after_def)
qed

lemma dl_inv_closes:
  assumes "dl_inv L" and "sv_Close H (dl_srv L) = Inr (err, s')" and "not_lost L"
  shows "dl_inv (after s' L)" and "not_lost (after s' L)"
proof -
  obtain x s1 where w: "on_world (ho_Close H) (dl_srv L) = (x, s1)" by fastforce
  then have s1: "sv_events s1 = sv_events (dl_srv L)" "sv_dialQueue s1 = sv_dialQueue (dl_srv L)"
    by (auto simp: on_world_def split: prod.splits)
  obtain q where q: "Close_dq (sv_dialQueue s1) = Inr q" "s' = s1\<lparr>sv_dialQueue := q, sv_closed := True\<rparr>"
    using assms(2) w by (auto simp: sv_Close_def split: sum.splits)
  have i: "dq_inv q" using Close_dq_inv [OF q(1)] assms(1) s1 by (simp add: dl_inv_def)
  have h: "handled (after s' L) = handled L" by (rule handled_cong) (simp_all add: after_def)
  have pc: "leaving (dl_pc L) \<Longrightarrow> leaving (unpark (dl_srv L) s' (dl_pc L))" by (auto simp: unpark_def leaving_def)
  show "dl_inv (after s' L)"
    unfolding dl_inv_def h using assms(1) i s1 pc by (simp add: dl_inv_def after_def q(2))
  show "not_lost (after s' L)"
    unfolding not_lost_def h using assms(3) s1 by (simp add: not_lost_def after_def q(2))
qed

lemma goes_on_loop: "loop_from H pc L = Some L' \<Longrightarrow> goes_on (dl_srv L) (dl_srv L')"
proof (cases pc)
  case AtPop
  assume "loop_from H pc L = Some L'"
  with AtPop show ?thesis
    by (auto simp: at_def on_server_def split: prod.splits option.splits dest: going.R_popTask)
next
  case (AtDial peerInfo)
  assume "loop_from H pc L = Some L'"
  with AtDial show ?thesis
    by (auto simp: at_def on_server_def dial_peer_def split: prod.splits option.splits
        dest!: going.R_on_worldD intro: going.R_chain [OF _ going.R_emitEvent])
qed (auto simp: at_def)

lemma loop_from_rest:
  assumes "loop_from H pc L = Some L'"
  shows "dl_fn L' = dl_fn L" "dl_seen L' = dl_seen L" "dl_notify L' = dl_notify L" "dl_checked L' = dl_checked L"
    "dl_crashed L' = dl_crashed L" "dl_cancelled L' \<longleftrightarrow> dl_cancelled L \<or> pc = AtCancel"
    "dl_notifyOpen L' \<longleftrightarrow> dl_notifyOpen L \<and> pc \<noteq> AtClose"
    "leaving (dl_pc L') \<longleftrightarrow> leaving pc \<or> pc = AtGap \<and> dq_closed (sv_dialQueue (dl_srv L))"
proof -
  have "dl_fn L' = dl_fn L \<and> dl_seen L' = dl_seen L \<and> dl_notify L' = dl_notify L \<and> dl_checked L' = dl_checked L \<and>
    dl_crashed L' = dl_crashed L \<and> (dl_cancelled L' \<longleftrightarrow> dl_cancelled L \<or> pc = AtCancel) \<and>
    (dl_notifyOpen L' \<longleftrightarrow> dl_notifyOpen L \<and> pc \<noteq> AtClose) \<and>
    (leaving (dl_pc L') \<longleftrightarrow> leaving pc \<or> pc = AtGap \<and> dq_closed (sv_dialQueue (dl_srv L)))"
  proof (cases pc)
    case AtPop
    obtain t q where P: "popTaskImpl (sv_dialQueue (dl_srv L)) = (t, q)" by fastforce
    show ?thesis using assms AtPop P by (cases t) (auto simp: at_def on_server_def leaving_def)
  qed (use assms in \<open>auto simp: at_def on_server_def leaving_def split: if_splits\<close>)
  then show "dl_fn L' = dl_fn L" "dl_seen L' = dl_seen L" "dl_notify L' = dl_notify L" "dl_checked L' = dl_checked L"
    "dl_crashed L' = dl_crashed L" "dl_cancelled L' \<longleftrightarrow> dl_cancelled L \<or> pc = AtCancel"
    "dl_notifyOpen L' \<longleftrightarrow> dl_notifyOpen L \<and> pc \<noteq> AtClose"
    "leaving (dl_pc L') \<longleftrightarrow> leaving pc \<or> pc = AtGap \<and> dq_closed (sv_dialQueue (dl_srv L))"
    by blast+
qed

lemma dl_inv_turn:
  assumes "dl_inv L" and t: "loop_turn H L = Some L'" and "not_lost L" and "dl_pc L = AtClose \<longrightarrow> dl_cancelled L"
  shows "dl_inv L'" and "not_lost L'"
proof -
  note r = loop_from_rest [OF t [unfolded loop_turn_def]]
  have g: "goes_on (dl_srv L) (dl_srv L')" using goes_on_loop t by (simp add: loop_turn_def)
  note A = dl_inv_after [OF assms(1) g assms(3)]
  have h: "handled L' = handled L" "handled (after (dl_srv L') L) = handled L"
    by (rule handled_cong; simp add: r after_def)+
  have c: "sv_closed (dl_srv L') = sv_closed (dl_srv L)" using g by (simp add: goes_on_def)
  show "dl_inv L'"
    using A(1) assms(1,4) h(1) c unfolding dl_inv_def h(2) r by (auto simp: after_def leaving_pcs)
  show "not_lost L'" using A(2) h by (auto simp: not_lost_def r after_def)
qed

lemma dl_inv_fn_handle:
  assumes i: "dl_inv L" and n: "not_lost L" and t: "fn_handle arm L = Some L'"
  shows "dl_inv L'" and "not_lost L'"
proof -
  obtain ev where ev: "dl_fn L = FnHandle ev" using t by (auto simp: fn_handle_def split: fn_pc.splits)
  have seen: "0 < dl_seen L" "sv_events (dl_srv L) ! (dl_seen L - 1) = ev" using i ev by (auto simp: dl_inv_def)
  have L': "L' = L\<lparr>dl_fn := FnSelect\<rparr> \<and> \<not> dial_wakes (ev_Type ev) \<or>
     dial_wakes (ev_Type ev) \<and> ready L arm \<and> L' = (if arm = ArmSend then send_notify L else L)\<lparr>dl_fn := FnSelect\<rparr>"
    using t ev by (auto simp: fn_handle_def split: if_splits)
  have fn: "dl_fn L' = FnSelect" "dl_seen L' = dl_seen L" "dl_srv L' = dl_srv L" "dl_checked L' = dl_checked L"
    "dl_pc L' = dl_pc L" "dl_cancelled L' = dl_cancelled L" "dl_notifyOpen L' = dl_notifyOpen L"
    "dl_crashed L' \<Longrightarrow> dl_crashed L \<or> \<not> dl_notifyOpen L"
    using L' by (auto simp: send_notify_def split: if_splits)
  have h: "handled L' = dl_seen L" "handled L = dl_seen L - 1" using fn ev by (simp_all add: handled_def)
  show "dl_inv L'" using i fn ev h by (auto simp: dl_inv_def)
  show "not_lost L'"
  proof (cases "dial_wakes (ev_Type ev) \<and> \<not> dl_cancelled L")
    case True
    then have "dl_notify L'" using L' i by (cases arm) (auto simp: ready_def send_notify_def dl_inv_def)
    then show ?thesis by (simp add: not_lost_def)
  next
    case False
    then have "\<not> dl_cancelled L' \<Longrightarrow> \<not> dial_wakes (ev_Type ev) \<and> dl_notify L' = dl_notify L" using L' fn by auto
    moreover have "k < dl_seen L \<Longrightarrow> k = dl_seen L - 1 \<or> k < dl_seen L - 1" for k by linarith
    ultimately show ?thesis using n h fn seen by (auto simp: not_lost_def)
  qed
qed

lemma dl_inv_own:
  assumes "own_step H L L'" and i: "dl_inv L" and n: "not_lost L" and c: "dl_pc L = AtClose \<longrightarrow> dl_cancelled L"
  shows "dl_inv L' \<and> not_lost L' \<and> (dl_pc L' = AtClose \<longrightarrow> dl_cancelled L')"
  using assms(1)
proof cases
  case turn
  have "dl_pc L' = AtClose \<Longrightarrow> dl_cancelled L'"
    using turn(1) by (cases "dl_pc L") (auto simp: loop_turn_def at_def on_server_def split: prod.splits option.splits if_splits)
  with dl_inv_turn [OF i turn(1) n c] show ?thesis by blast
next
  case notified
  then have L': "L' = L\<lparr>dl_pc := AtSlots, dl_notify := False, dl_checked := handled L\<rparr>"
    by (auto simp: loop_notified_def at_def split: if_splits)
  have h: "handled L' = handled L" by (rule handled_cong) (simp_all add: L')
  have "\<not> leaving (dl_pc L)" using notified(1) by (auto simp: loop_notified_def leaving_pcs split: if_splits)
  then show ?thesis using i n unfolding dl_inv_def not_lost_def h by (auto simp: L' leaving_pcs)
next
  case stopped
  then have L': "L' = L\<lparr>dl_pc := AtCancel\<rparr>" "sv_closed (dl_srv L)"
    by (auto simp: loop_stopped_def at_def split: if_splits)
  have h: "handled L' = handled L" by (rule handled_cong) (simp_all add: L')
  show ?thesis using i n L'(2) by (simp add: dl_inv_def not_lost_def h) (simp add: L' leaving_pcs)
next
  case takes
  then have L': "dl_fn L = FnSelect" "dl_seen L < length (sv_events (dl_srv L))"
    "L' = L\<lparr>dl_fn := FnHandle (sv_events (dl_srv L) ! dl_seen L), dl_seen := Suc (dl_seen L)\<rparr>"
    by (auto simp: fn_take_def split: if_splits)
  have h: "handled L' = handled L" by (simp add: handled_def L')
  show ?thesis using i n c L'(1,2) unfolding dl_inv_def not_lost_def h by (simp add: L'(3) Suc_le_eq)
next
  case stops
  then have L': "L' = L\<lparr>dl_fn := FnReturned\<rparr>" "dl_fn L = FnSelect" "dl_cancelled L \<or> sv_closed (dl_srv L)"
    by (auto simp: fn_stop_def split: if_splits)
  have h: "handled L' = handled L" by (simp add: handled_def L')
  show ?thesis using i n c L'(3) unfolding dl_inv_def not_lost_def h by (auto simp: L'(1))
next
  case (handles arm)
  have "dl_pc L' = dl_pc L" "dl_cancelled L' = dl_cancelled L"
    using handles(1) by (auto simp: fn_handle_def send_notify_def split: fn_pc.splits if_splits)
  with dl_inv_fn_handle [OF i n handles(1)] c show ?thesis by simp
qed

lemma dial_reach_inv:
  assumes "dial_reach H L"
  shows "dl_inv L \<and> not_lost L \<and> (dl_pc L = AtClose \<longrightarrow> dl_cancelled L)"
  using assms
proof (induction rule: dial_reach.induct)
  case (started cfg dp ip w bs g1 g2 s i sub)
  have g: "goes_on (NewServer_state H cfg dp ip w) s" by (rule goes_on_Start [OF started])
  then have "dq_inv (sv_dialQueue s)" "\<not> dq_closed (sv_dialQueue s)" "\<not> sv_closed s"
    by (simp_all add: goes_on_def NewServer_state_def dq_inv_New) (simp add: NewDialQueue_def)
  then show ?case by (auto simp: runDial_def dl_inv_def not_lost_def handled_def leaving_def split: option.split)
next
  case (steps L L')
  note I = steps.IH
  from steps.hyps(2) show ?case
  proof cases
    case own
    then show ?thesis using dl_inv_own I by blast
  next
    case (other s')
    have "dl_pc L' = AtClose \<longrightarrow> dl_cancelled L'" using I by (auto simp: other after_def unpark_def split: if_splits)
    then show ?thesis using dl_inv_after [OF _ goes_on_other [OF other(2)]] I other(1) by blast
  next
    case (closes err s')
    have "dl_pc L' = AtClose \<longrightarrow> dl_cancelled L'" using I by (auto simp: closes after_def unpark_def split: if_splits)
    then show ?thesis using dl_inv_closes [OF _ closes(2)] I closes(1) by blast
  qed
qed

text \<open>Three turns of the loop that no other goroutine interrupts are one \<open>dial_iteration\<close>.\<close>

lemma dial_iteration_turns:
  assumes "dl_pc L = AtSlots" and "dial_iteration H (dl_srv L) = (DialDone, s')"
  shows "\<exists>L1 L2. loop_turn H L = Some L1 \<and> loop_turn H L1 = Some L2 \<and>
    loop_turn H L2 = Some (L\<lparr>dl_srv := s', dl_pc := AtSlots\<rparr>)"
proof -
  obtain tt q where P: "HasFreeOutboundConn (sv_connectionCounts (dl_srv L))"
    "popTaskImpl (sv_dialQueue (dl_srv L)) = (Some tt, q)"
    using assms(2) by (auto simp: dial_iteration_def split: if_splits prod.splits option.splits)
  have "s' = dial_peer H (GetAddrInfo (dq_store q tt)) ((dl_srv L)\<lparr>sv_dialQueue := q\<rparr>)"
    using assms(2) P by (auto simp: dial_iteration_def dial_peer_def Let_def split: if_splits prod.splits option.splits)
  then show ?thesis using assms(1) P by (simp add: loop_turn_def at_def on_server_def)
qed

section \<open>Delivery\<close>

definition listening :: "'w dial_loop \<Rightarrow> bool" where
  "listening L \<longleftrightarrow> \<not> dl_crashed L \<and> \<not> dl_cancelled L \<and> dl_notifyOpen L \<and> dl_fn L \<noteq> FnReturned"

definition same_loop :: "'w dial_loop \<Rightarrow> 'w dial_loop \<Rightarrow> bool" where
  "same_loop L L' \<longleftrightarrow> dl_srv L' = dl_srv L \<and> dl_pc L' = dl_pc L \<and> dl_checked L' = dl_checked L"

lemma deliver_held:
  assumes "listening L" and "dl_fn L = FnHandle ev" and "0 < dl_seen L"
  shows "\<exists>L'. own_step H L L' \<and> listening L' \<and> same_loop L L' \<and> handled L' = Suc (handled L)"
proof -
  let ?arm = "if dl_notify L then ArmDefault else ArmSend"
  have "ready L ?arm" using assms(1) by (simp add: ready_def listening_def)
  then obtain L' where L': "fn_handle ?arm L = Some L'"
    using assms(2) by (cases "dial_wakes (ev_Type ev)") (simp_all add: fn_handle_def)
  then have "dl_fn L' = FnSelect" "dl_seen L' = dl_seen L" "listening L'" "same_loop L L'"
    using assms(1,2) by (auto simp: fn_handle_def send_notify_def listening_def same_loop_def split: if_splits)
  moreover have "own_step H L L'" using L' assms(1) by (auto simp: listening_def intro: own_step.handles)
  ultimately show ?thesis using assms(2,3) by (auto simp: handled_def)
qed

lemma deliver_one:
  assumes "listening L" and "handled L < length (sv_events (dl_srv L))" and "\<forall>ev. dl_fn L = FnHandle ev \<longrightarrow> 0 < dl_seen L"
  shows "\<exists>L'. (own_step H)\<^sup>*\<^sup>* L L' \<and> listening L' \<and> same_loop L L' \<and> handled L' = Suc (handled L)"
proof (cases "dl_fn L")
  case FnSelect
  let ?L = "L\<lparr>dl_fn := FnHandle (sv_events (dl_srv L) ! dl_seen L), dl_seen := Suc (dl_seen L)\<rparr>"
  have "dl_seen L < length (sv_events (dl_srv L))" using assms(2) FnSelect by (simp add: handled_def)
  then have "fn_take L = Some ?L" using FnSelect by (simp add: fn_take_def)
  then have t: "own_step H L ?L" using assms(1) by (intro own_step.takes) (simp_all add: listening_def)
  have "listening ?L" using assms(1) by (simp add: listening_def)
  from deliver_held [OF this, of "sv_events (dl_srv L) ! dl_seen L" H] obtain L' where
    "own_step H ?L L'" "listening L'" "same_loop ?L L'" "handled L' = Suc (handled ?L)" by auto
  moreover have "same_loop L L' = same_loop ?L L'" "handled ?L = handled L"
    using FnSelect by (simp_all add: same_loop_def handled_def)
  ultimately show ?thesis using t by (metis converse_rtranclp_into_rtranclp r_into_rtranclp)
next
  case (FnHandle ev)
  then show ?thesis using deliver_held [OF assms(1) FnHandle] assms(3) by blast
qed (use assms(1) in \<open>simp add: listening_def\<close>)

lemma own_steps_inv:
  assumes "(own_step H)\<^sup>*\<^sup>* L L'" and "dl_inv L \<and> not_lost L \<and> (dl_pc L = AtClose \<longrightarrow> dl_cancelled L)"
  shows "dl_inv L' \<and> not_lost L' \<and> (dl_pc L' = AtClose \<longrightarrow> dl_cancelled L')"
  using assms
proof (induction rule: rtranclp_induct)
  case (step y z)
  then show ?case using dl_inv_own [OF step.hyps(2)] by blast
qed simp

lemma deliver_all:
  assumes "listening L" and "dl_inv L \<and> not_lost L \<and> (dl_pc L = AtClose \<longrightarrow> dl_cancelled L)"
  shows "\<exists>L'. (own_step H)\<^sup>*\<^sup>* L L' \<and> listening L' \<and> same_loop L L' \<and> handled L' = length (sv_events (dl_srv L))"
  using assms
proof (induction "length (sv_events (dl_srv L)) - handled L" arbitrary: L)
  case 0
  moreover have "handled L \<le> length (sv_events (dl_srv L))"
    using 0(3) handled_le [of L] by (auto simp: dl_inv_def intro: le_trans)
  ultimately have "handled L = length (sv_events (dl_srv L))" by simp
  with 0(2) show ?case by (intro exI [of _ L]) (simp add: same_loop_def)
next
  case (Suc n)
  have lt: "handled L < length (sv_events (dl_srv L))" using Suc(2) by linarith
  have "\<forall>ev. dl_fn L = FnHandle ev \<longrightarrow> 0 < dl_seen L" using Suc(4) by (auto simp: dl_inv_def)
  from deliver_one [OF Suc(3) lt this, of H] obtain L1 where L1: "(own_step H)\<^sup>*\<^sup>* L L1" "listening L1" "same_loop L L1"
    "handled L1 = Suc (handled L)" by blast
  have "n = length (sv_events (dl_srv L1)) - handled L1" using Suc(2) L1(3,4) by (simp add: same_loop_def)
  from Suc(1) [OF this L1(2) own_steps_inv [OF L1(1) Suc(4)]] obtain L2 where L2: "(own_step H)\<^sup>*\<^sup>* L1 L2" "listening L2"
    "same_loop L1 L2" "handled L2 = length (sv_events (dl_srv L1))" by blast
  have "same_loop L L2" "handled L2 = length (sv_events (dl_srv L))" using L1(3) L2(3,4) by (simp_all add: same_loop_def)
  with rtranclp_trans [OF L1(1) L2(1)] L2(2) show ?case by blast
qed

lemma reach_listening:
  assumes "dial_reach H L" and "dl_pc L = AtSelect" and "\<not> sv_closed (dl_srv L)"
  shows "listening L"
  using dial_reach_inv [OF assms(1)] assms(2,3) by (auto simp: listening_def dl_inv_def leaving_pcs)

text \<open>The steps in which the loop keeps waiting, and how many of them the events leave to the subscription.\<close>

definition waiting_step :: "'w host \<Rightarrow> 'w dial_loop \<Rightarrow> 'w dial_loop \<Rightarrow> bool" where
  "waiting_step H L L' \<longleftrightarrow> own_step H L L' \<and> dl_pc L' = AtSelect"

definition to_do :: "'w dial_loop \<Rightarrow> nat" where
  "to_do L = 2 * (length (sv_events (dl_srv L)) - dl_seen L) + (case dl_fn L of FnHandle _ \<Rightarrow> 1 | _ \<Rightarrow> 0)"

definition loop_waits :: "'w dial_loop \<Rightarrow> bool" where
  "loop_waits L \<longleftrightarrow> listening L \<and> dl_pc L = AtSelect \<and> \<not> sv_closed (dl_srv L) \<and>
     dl_inv L \<and> not_lost L \<and> (dl_pc L = AtClose \<longrightarrow> dl_cancelled L)"

lemma waiting_own:
  assumes "loop_waits L" and "own_step H L L'"
  shows "dl_srv L' = dl_srv L" and "dl_pc L' = AtSlots \<or> loop_waits L' \<and> same_loop L L' \<and> to_do L' < to_do L"
proof -
  have "dl_srv L' = dl_srv L \<and> (dl_pc L' = AtSlots \<or> listening L' \<and> same_loop L L' \<and> to_do L' < to_do L)"
    using assms(2) by cases (use assms(1) in \<open>auto simp: loop_waits_def listening_def loop_turn_def loop_notified_def
      loop_stopped_def fn_take_def fn_stop_def fn_handle_def send_notify_def same_loop_def to_do_def at_def
      split: if_splits fn_pc.splits\<close>)
  moreover have "dl_inv L' \<and> not_lost L' \<and> (dl_pc L' = AtClose \<longrightarrow> dl_cancelled L')"
    using dl_inv_own [OF assms(2)] assms(1) unfolding loop_waits_def by blast
  ultimately show "dl_srv L' = dl_srv L" "dl_pc L' = AtSlots \<or> loop_waits L' \<and> same_loop L L' \<and> to_do L' < to_do L"
    using assms(1) by (auto simp: loop_waits_def same_loop_def)
qed

lemma waiting_steps:
  "(waiting_step H ^^ n) L L' \<Longrightarrow> loop_waits L \<Longrightarrow> loop_waits L' \<and> same_loop L L' \<and> n + to_do L' \<le> to_do L"
proof (induction n arbitrary: L')
  case (Suc n)
  then obtain M where M: "loop_waits M" "same_loop L M" "n + to_do M \<le> to_do L" "waiting_step H M L'" by auto
  then show ?case using waiting_own [OF M(1), of H L'] by (auto simp: waiting_step_def same_loop_def)
qed (simp add: same_loop_def)

definition wake_pending :: "'w dial_loop \<Rightarrow> bool" where
  "wake_pending L \<longleftrightarrow> (\<exists>k. dl_checked L \<le> k \<and> k < length (sv_events (dl_srv L)) \<and>
     dial_wakes (ev_Type (sv_events (dl_srv L) ! k)))"

lemma waiting_wakes:
  assumes "loop_waits L" and "wake_pending L"
  shows "\<exists>L'. (own_step H)\<^sup>*\<^sup>* L L' \<and> dl_pc L' = AtSlots \<and> dl_srv L' = dl_srv L"
proof -
  have I: "dl_inv L \<and> not_lost L \<and> (dl_pc L = AtClose \<longrightarrow> dl_cancelled L)" and l: "listening L" "dl_pc L = AtSelect"
    using assms(1) by (auto simp: loop_waits_def)
  from deliver_all [OF l(1) I, of H] obtain L1 where L1: "(own_step H)\<^sup>*\<^sup>* L L1" "listening L1" "same_loop L L1"
    "handled L1 = length (sv_events (dl_srv L))" by blast
  have "dl_notify L1"
    using own_steps_inv [OF L1(1) I] L1(2-4) assms(2) by (auto simp: not_lost_def listening_def same_loop_def wake_pending_def)
  then have "loop_notified L1 = Some (at AtSlots (L1\<lparr>dl_notify := False, dl_checked := handled L1\<rparr>))" (is "_ = Some ?L")
    using l(2) L1(3) by (simp add: loop_notified_def same_loop_def)
  then have "own_step H L1 ?L" using L1(2) by (intro own_step.notified) (simp_all add: listening_def)
  then have "(own_step H)\<^sup>*\<^sup>* L ?L" using L1(1) by (rule rtranclp.rtrancl_into_rtrancl [rotated])
  then show ?thesis using L1(3) by (intro exI [of _ ?L]) (simp add: at_def same_loop_def)
qed

section \<open>Properties\<close>

text \<open>C31. No notification is lost: while the loop has not been cancelled and \<open>notifyCh\<close> is empty, no event that can
  open a slot was handled since the loop last looked.  So when the loop of an open server waits and such an
  event was emitted after it looked, the loop and its subscription alone get it back to the test of the slots, however
  they are scheduled: as long as the loop waits some step of theirs is possible, no such step does anything but read
  events or end the wait by the test, and the wait ends after at most two steps for each event.\<close>

theorem dial_loop_wakes_up:
  assumes "dial_reach H L"
  shows "(\<not> dl_cancelled L \<and> \<not> dl_notify L \<longrightarrow>
      (\<forall>k. dl_checked L \<le> k \<and> k < handled L \<longrightarrow> \<not> dial_wakes (ev_Type (sv_events (dl_srv L) ! k)))) \<and>
    (dl_pc L = AtSelect \<and> \<not> sv_closed (dl_srv L) \<and>
       (\<exists>k. dl_checked L \<le> k \<and> k < length (sv_events (dl_srv L)) \<and> dial_wakes (ev_Type (sv_events (dl_srv L) ! k))) \<longrightarrow>
     (\<exists>L'. (own_step H)\<^sup>*\<^sup>* L L' \<and> dl_pc L' = AtSlots \<and> dl_srv L' = dl_srv L) \<and>
     (\<forall>n L'. (waiting_step H ^^ n) L L' \<longrightarrow> n \<le> 2 * length (sv_events (dl_srv L)) \<and> (\<exists>L''. own_step H L' L'') \<and>
        (\<forall>L''. own_step H L' L'' \<longrightarrow> dl_pc L'' \<in> {AtSelect, AtSlots} \<and> dl_srv L'' = dl_srv L)))"
proof (intro conjI impI)
  note I = dial_reach_inv [OF assms]
  show "\<forall>k. dl_checked L \<le> k \<and> k < handled L \<longrightarrow> \<not> dial_wakes (ev_Type (sv_events (dl_srv L) ! k))"
    if "\<not> dl_cancelled L \<and> \<not> dl_notify L" using I that by (simp add: not_lost_def)
  assume p: "dl_pc L = AtSelect \<and> \<not> sv_closed (dl_srv L) \<and>
    (\<exists>k. dl_checked L \<le> k \<and> k < length (sv_events (dl_srv L)) \<and> dial_wakes (ev_Type (sv_events (dl_srv L) ! k)))"
  then have w: "loop_waits L" "wake_pending L" using reach_listening [OF assms] I by (auto simp: loop_waits_def wake_pending_def)
  show "\<exists>L'. (own_step H)\<^sup>*\<^sup>* L L' \<and> dl_pc L' = AtSlots \<and> dl_srv L' = dl_srv L" by (rule waiting_wakes [OF w])
  have seen: "(case dl_fn L of FnHandle ev \<Rightarrow> 0 < dl_seen L | _ \<Rightarrow> True) \<and> dl_seen L \<le> length (sv_events (dl_srv L))"
    using I by (auto simp: dl_inv_def split: fn_pc.split)
  show "\<forall>n L'. (waiting_step H ^^ n) L L' \<longrightarrow> n \<le> 2 * length (sv_events (dl_srv L)) \<and> (\<exists>L''. own_step H L' L'') \<and>
      (\<forall>L''. own_step H L' L'' \<longrightarrow> dl_pc L'' \<in> {AtSelect, AtSlots} \<and> dl_srv L'' = dl_srv L)"
  proof (intro allI impI)
    fix n L' assume run: "(waiting_step H ^^ n) L L'"
    note W = waiting_steps [OF run w(1)]
    have "to_do L \<le> 2 * length (sv_events (dl_srv L))" using seen by (auto simp: to_do_def split: fn_pc.splits)
    moreover have "wake_pending L'" using W w(2) by (auto simp: wake_pending_def same_loop_def)
    then obtain M where "(own_step H)\<^sup>*\<^sup>* L' M" "dl_pc M = AtSlots" using waiting_wakes [of L' H] W by blast
    then have "\<exists>L''. own_step H L' L''" using W by (auto simp: loop_waits_def elim: converse_rtranclpE)
    moreover have "dl_pc L'' \<in> {AtSelect, AtSlots} \<and> dl_srv L'' = dl_srv L" if "own_step H L' L''" for L''
      using waiting_own [OF conjunct1 [OF W] that] W by (auto simp: loop_waits_def same_loop_def)
    ultimately show "n \<le> 2 * length (sv_events (dl_srv L)) \<and> (\<exists>L''. own_step H L' L'') \<and>
        (\<forall>L''. own_step H L' L'' \<longrightarrow> dl_pc L'' \<in> {AtSelect, AtSlots} \<and> dl_srv L'' = dl_srv L)"
      using W by auto
  qed
qed

section \<open>A disconnection is not an event\<close>

lemma events_drop: "sv_events (fold (drop_direction p ci) ds s) = sv_events s"
  by (induction ds arbitrary: s) (simp_all add: drop_direction_def updateBootnodeConnCount_def updateConnCount_def)

lemma removePeer_silent:
  fixes H :: "'w host"
  assumes "sv_peers s p = Some ci" and "connDirections ci DirOutbound = Some True"
  shows "sv_events (removePeer H s p) = sv_events s" and "sv_closed (removePeer H s p) = sv_closed s"
    and "active_count (sv_connectionCounts (removePeer H s p)) DirOutbound =
      active_count (sv_connectionCounts s) DirOutbound - 1"
    and "pending_count (sv_connectionCounts (removePeer H s p)) = pending_count (sv_connectionCounts s)"
    and "max_count (sv_connectionCounts (removePeer H s p)) = max_count (sv_connectionCounts s)"
    and "sv_dialQueue (removePeer H s p) \<in> {sv_dialQueue s, DeleteTask (sv_dialQueue s) p}"
proof -
  let ?t = "fold (drop_direction p ci) all_directions (s\<lparr>sv_peers := (sv_peers s)(p := None)\<rparr>)"
  let ?ev = "\<lparr>ev_PeerID = p, ev_Type = PeerDisconnected\<rparr>"
  have r: "removePeer H s p = notify_discovery H ?t ?ev" using assms(1) by (simp add: removePeer_def removePeerInfo_def)
  note F = fold_drop_direction [OF distinct_all_directions, of p ci "s\<lparr>sv_peers := (sv_peers s)(p := None)\<rparr>"]
  have N: "sv_connectionCounts (notify_discovery H t ?ev) = sv_connectionCounts t \<and>
      sv_events (notify_discovery H t ?ev) = sv_events t \<and>
      sv_dialQueue (notify_discovery H t ?ev) \<in> {sv_dialQueue t, DeleteTask (sv_dialQueue t) p}" for t :: "'w server"
    by (auto simp: notify_discovery_def HandleNetworkEvent_def server_disc_def sv_rtRemovePeer_def sv_PeerRemoved_def
        on_world_def peer_event_types split: prod.splits)
  show "sv_events (removePeer H s p) = sv_events s" using N [of ?t] by (simp add: r events_drop)
  show "sv_closed (removePeer H s p) = sv_closed s" using goes_on_removePeer [of s H p] by (simp add: goes_on_def)
  show "active_count (sv_connectionCounts (removePeer H s p)) DirOutbound =
      active_count (sv_connectionCounts s) DirOutbound - 1"
    using N [of ?t] F assms(2) by (simp add: r all_directions_def)
  show "pending_count (sv_connectionCounts (removePeer H s p)) = pending_count (sv_connectionCounts s)"
    "max_count (sv_connectionCounts (removePeer H s p)) = max_count (sv_connectionCounts s)"
    "sv_dialQueue (removePeer H s p) \<in> {sv_dialQueue s, DeleteTask (sv_dialQueue s) p}"
    using N [of ?t] F by (simp_all add: r)
qed

lemma full_minus_one: "0 <s m \<Longrightarrow> a + b = m \<Longrightarrow> a - 1 + b <s (m :: int64)"
proof -
  assume m: "0 <s m" and ab: "a + b = m"
  have "a - 1 + b = m - 1" using ab by (simp add: algebra_simps)
  moreover have "m - 1 <s m"
    using m sint_lt [of m] sint_ge [of m] by (simp add: word_sless_alt sint_word_ariths signed_take_bit_int_eq_self)
  ultimately show ?thesis by (simp only:)
qed

lemma DeleteTask_leaves:
  assumes "dq_inv q" and "a \<in> set (dq_heap q)" and "dq_tasks q p \<noteq> Some a"
  shows "dq_heap (DeleteTask q p) \<noteq> []"
proof (cases "dq_tasks q p")
  case (Some b)
  obtain q1 where "DeleteTask q p = q1\<lparr>dq_tasks := (dq_tasks q)(p := None)\<rparr>" "set (dq_heap q1) = set (dq_heap q) - {b}"
    by (rule DeleteTask_cases [OF assms(1) Some]) (rule that, assumption+)
  then have "a \<in> set (dq_heap (DeleteTask q p))" using assms(2,3) Some by simp
  then show ?thesis by (metis empty_iff empty_set)
qed (use assms(2) in \<open>auto simp: DeleteTask_def\<close>)

text \<open>C32. A disconnection is not emitted on the event bus: when all outbound slots are taken, every event has been
  handled and the loop waits, losing an outbound peer gives a free slot next to a waiting task, and
  nothing of the loop or of its subscription can move.\<close>

theorem disconnect_wakes_nobody:
  assumes "dial_reach H L" and "dl_pc L = AtSelect" and "\<not> dl_notify L" and "\<not> sv_closed (dl_srv L)"
    and "handled L = length (sv_events (dl_srv L))"
    and "GetOutboundConnCount (sv_connectionCounts (dl_srv L)) + GetPendingOutboundConnCount (sv_connectionCounts (dl_srv L)) =
      maxOutboundConnCount (sv_connectionCounts (dl_srv L))" and "0 <s maxOutboundConnCount (sv_connectionCounts (dl_srv L))"
    and "sv_peers (dl_srv L) p = Some ci" and "connDirections ci DirOutbound = Some True"
    and "a \<in> set (dq_heap (sv_dialQueue (dl_srv L)))" and "dq_tasks (sv_dialQueue (dl_srv L)) p \<noteq> Some a"
  shows "\<exists>L'. dial_step H L L' \<and> dl_srv L' = removePeer H (dl_srv L) p \<and>
    HasFreeOutboundConn (sv_connectionCounts (dl_srv L')) \<and> dq_heap (sv_dialQueue (dl_srv L')) \<noteq> [] \<and>
    (\<forall>L''. \<not> own_step H L' L'')"
proof -
  let ?s = "dl_srv L" and ?s' = "removePeer H (dl_srv L) p"
  let ?L = "after ?s' L"
  have I: "dl_inv L" and l: "listening L" using dial_reach_inv [OF assms(1)] reach_listening [OF assms(1,2,4)] by auto
  note S = removePeer_silent [OF assms(8,9), of H]
  have st: "dial_step H L ?L" using l by (intro dial_step.other other_step.disconnects) (simp add: listening_def)
  have L': "dl_srv ?L = ?s'" "dl_pc ?L = AtSelect" "dl_notify ?L = dl_notify L" "dl_fn ?L = dl_fn L" "dl_seen ?L = dl_seen L"
    "dl_cancelled ?L = dl_cancelled L" using assms(2) by (simp_all add: after_def unpark_def)
  have free: "HasFreeOutboundConn (sv_connectionCounts ?s')"
    using full_minus_one [OF assms(7,6)] S(3-5)
    by (simp add: HasFreeOutboundConn_def GetOutboundConnCount_def GetPendingOutboundConnCount_def
        maxOutboundConnCount_def active_count_def pending_count_def max_count_def fun_eq_iff split: direction.splits)
  have heap: "dq_heap (sv_dialQueue ?s') \<noteq> []"
    using S(6) DeleteTask_leaves [OF _ assms(10,11)] assms(10) I by (auto simp: dl_inv_def)
  have fn: "dl_fn L = FnSelect" "dl_seen L = length (sv_events ?s)"
  proof -
    have "dl_fn L \<noteq> FnHandle ev" for ev
      using assms(5) I by (auto simp: handled_def dl_inv_def)
    then show "dl_fn L = FnSelect" using l by (cases "dl_fn L") (auto simp: listening_def)
    then show "dl_seen L = length (sv_events ?s)" using assms(5) by (simp add: handled_def)
  qed
  have "\<not> own_step H ?L L''" for L''
  proof
    assume "own_step H ?L L''"
    then show False
      by cases (use l assms(3,4) S(1,2) fn in \<open>simp_all add: loop_turn_def loop_notified_def loop_stopped_def fn_take_def
        fn_stop_def fn_handle_def L' listening_def\<close>)
  qed
  then show ?thesis using st free heap L'(1) by (intro exI [of _ ?L]) simp
qed

section \<open>Shutdown\<close>

text \<open>Without other goroutines, the loop of a closed server that waits returns and closes its channel.\<close>

lemma closed_loop_returns:
  assumes "listening L" and "dl_pc L = AtCancel"
  shows "(dial_step H)\<^sup>*\<^sup>* L (L\<lparr>dl_pc := Returned, dl_cancelled := True, dl_notifyOpen := False\<rparr>)"
proof -
  let ?L1 = "L\<lparr>dl_pc := AtClose, dl_cancelled := True\<rparr>"
  have "own_step H L ?L1" using assms by (intro own_step.turn) (simp_all add: loop_turn_def at_def listening_def)
  moreover have "own_step H ?L1 (L\<lparr>dl_pc := Returned, dl_cancelled := True, dl_notifyOpen := False\<rparr>)"
    using assms(1) by (intro own_step.turn) (simp_all add: loop_turn_def at_def listening_def)
  ultimately show ?thesis by (meson dial_step.own converse_rtranclp_into_rtranclp rtranclp.rtrancl_refl)
qed

lemma sv_Close_state:
  "sv_Close H s = Inr (err, s') \<Longrightarrow> sv_closed s' \<and> dq_closed (sv_dialQueue s') \<and>
     dq_next (sv_dialQueue s') = dq_next (sv_dialQueue s)"
  by (auto simp: sv_Close_def on_world_def Close_dq_def split: prod.splits sum.splits if_splits)

lemma close_waiting:
  assumes "dl_pc L = AtParked \<or> dl_pc L = AtSelect" and "listening L" and "sv_Close H (dl_srv L) = Inr (err, s')"
  shows "(dial_step H)\<^sup>*\<^sup>* (after s' L) ((after s' L)\<lparr>dl_pc := AtCancel\<rparr>)"
proof (cases "dl_pc L = AtParked")
  case True
  then have "after s' L = (after s' L)\<lparr>dl_pc := AtCancel\<rparr>"
    using sv_Close_state [OF assms(3)] by (simp add: after_def unpark_def)
  then show ?thesis by (metis rtranclp.rtrancl_refl)
next
  case False
  then have "dl_pc (after s' L) = AtSelect" using assms(1) by (simp add: after_def unpark_def)
  then have "own_step H (after s' L) ((after s' L)\<lparr>dl_pc := AtCancel\<rparr>)"
    using sv_Close_state [OF assms(3)] assms(2)
    by (intro own_step.stopped) (simp_all add: loop_stopped_def at_def listening_def after_def)
  then show ?thesis by (meson dial_step.own r_into_rtranclp)
qed

text \<open>The handler of the subscription panics only after the server was closed.  But then it can: if it holds an
  event when \<open>Close\<close> is called and the loop waits, the loop can return and close \<open>notifyCh\<close> before the
  handler comes to its \<open>select\<close>, where the cancelled context and the send on the closed channel are both
  ready; one choice ends quietly, the other ends the process.\<close>

theorem dial_shutdown_race:
  assumes "dial_reach H L"
  shows "(dl_crashed L \<longrightarrow> sv_closed (dl_srv L)) \<and>
    (\<forall>ev err s'. (dl_pc L = AtParked \<or> dl_pc L = AtSelect) \<and> \<not> sv_closed (dl_srv L) \<and>
        dl_fn L = FnHandle ev \<and> dial_wakes (ev_Type ev) \<and> sv_Close H (dl_srv L) = Inr (err, s') \<longrightarrow>
      (\<exists>L1 L2. (dial_step H)\<^sup>*\<^sup>* (after s' L) L1 \<and> dl_crashed L1 \<and>
        (dial_step H)\<^sup>*\<^sup>* (after s' L) L2 \<and> dl_pc L2 = Returned \<and> dl_fn L2 = FnReturned \<and> \<not> dl_crashed L2))"
proof (intro conjI allI impI)
  note I = dial_reach_inv [OF assms]
  show "dl_crashed L \<Longrightarrow> sv_closed (dl_srv L)" using I by (simp add: dl_inv_def)
  fix ev err s'
  assume a: "(dl_pc L = AtParked \<or> dl_pc L = AtSelect) \<and> \<not> sv_closed (dl_srv L) \<and>
      dl_fn L = FnHandle ev \<and> dial_wakes (ev_Type ev) \<and> sv_Close H (dl_srv L) = Inr (err, s')"
  have l: "listening L" using I a by (auto simp: listening_def dl_inv_def leaving_def)
  let ?A = "after s' L"
  note C = sv_Close_state [of H "dl_srv L" err s']
  have srv: "dl_srv ?A = s'" "dl_fn ?A = FnHandle ev" "sv_closed s'" and lA: "listening ?A"
    using a C l by (simp_all add: after_def listening_def)
  have st: "(dial_step H)\<^sup>*\<^sup>* ?A (?A\<lparr>dl_pc := AtCancel\<rparr>)" using close_waiting [OF _ l, of H err s'] a by blast
  let ?R = "?A\<lparr>dl_pc := Returned, dl_cancelled := True, dl_notifyOpen := False\<rparr>"
  have "(dial_step H)\<^sup>*\<^sup>* (?A\<lparr>dl_pc := AtCancel\<rparr>) ?R"
    using closed_loop_returns [of "?A\<lparr>dl_pc := AtCancel\<rparr>" H] lA by (simp add: listening_def)
  with st have R: "(dial_step H)\<^sup>*\<^sup>* ?A ?R" by (rule rtranclp_trans)
  have wakes: "dial_wakes (ev_Type ev)" using a by simp
  have "own_step H ?R (?R\<lparr>dl_crashed := True, dl_fn := FnSelect\<rparr>)"
    using srv lA wakes by (intro own_step.handles [where arm = ArmSend])
      (simp_all add: fn_handle_def ready_def send_notify_def listening_def)
  then have bad: "dial_step H ?R (?R\<lparr>dl_crashed := True, dl_fn := FnSelect\<rparr>)" by (rule dial_step.own)
  have "own_step H ?R (?R\<lparr>dl_fn := FnSelect\<rparr>)"
    using srv lA wakes by (intro own_step.handles [where arm = ArmDone]) (simp_all add: fn_handle_def ready_def listening_def)
  moreover have "own_step H (?R\<lparr>dl_fn := FnSelect\<rparr>) (?R\<lparr>dl_fn := FnReturned\<rparr>)"
    using lA by (intro own_step.stops) (simp_all add: fn_stop_def listening_def)
  ultimately have good: "(dial_step H)\<^sup>*\<^sup>* ?R (?R\<lparr>dl_fn := FnReturned\<rparr>)"
    by (meson dial_step.own converse_rtranclp_into_rtranclp rtranclp.rtrancl_refl)
  show "\<exists>L1 L2. (dial_step H)\<^sup>*\<^sup>* ?A L1 \<and> dl_crashed L1 \<and>
      (dial_step H)\<^sup>*\<^sup>* ?A L2 \<and> dl_pc L2 = Returned \<and> dl_fn L2 = FnReturned \<and> \<not> dl_crashed L2"
    using rtranclp.rtrancl_into_rtrancl [OF R bad] rtranclp_trans [OF R good] lA
    by (intro exI [of _ "?R\<lparr>dl_crashed := True, dl_fn := FnSelect\<rparr>"] exI [of _ "?R\<lparr>dl_fn := FnReturned\<rparr>"])
      (simp add: listening_def)
qed

section \<open>Instances\<close>

text \<open>A host on which handshakes succeed, and a server with \<open>n\<close> outbound slots.\<close>

definition friendly_host :: "unit host" where
  "friendly_host = idle_host\<lparr>ho_NewStream := (\<lambda>w _ _. (Inr 7, w)),
     ho_Hello := (\<lambda>w _ _. (Inr \<lparr>st_Metadata = Map.empty, st_Network = 0, st_TemporaryDial = False\<rparr>, w))\<rparr>"

definition small_server :: "int64 \<Rightarrow> unit server" where
  "small_server n = NewServer_state friendly_host (DefaultConfig\<lparr>cfg_MaxOutboundPeers := n\<rparr>) ''/disc'' ''/id'' ()"

lemma starts_friendly: "starts friendly_host"
  by (simp add: starts_def friendly_host_def)

lemma small_start:
  obtains s i where "Start friendly_host (small_server n) (Some [''boot'']) 1 2 = Inr (s, i)"
    "sv_discovery s" "\<not> sv_closed s" "dial_reach friendly_host (runDial None s)"
    "GetOutboundConnCount (sv_connectionCounts s) = 0" "GetPendingOutboundConnCount (sv_connectionCounts s) = 0"
    "maxOutboundConnCount (sv_connectionCounts s) = n" "\<forall>p. sv_peers s p = None"
proof -
  obtain s i where S: "Start friendly_host (small_server n) (Some [''boot'']) 1 2 = Inr (s, i)"
    using Start_ok [OF starts_friendly, of "small_server n"] by (auto simp: small_server_def NewServer_state_def friendly_host_def)
  have v: "vacant s" "max_count (sv_connectionCounts s) = max_count (sv_connectionCounts (small_server n))" "sv_discovery s"
    using Start_vacant [OF S] vacant_New [of friendly_host] by (simp_all only: small_server_def)
  have d: "active_count (sv_connectionCounts s) DirOutbound = 0" "pending_count (sv_connectionCounts s) DirOutbound = 0"
    "max_count (sv_connectionCounts s) DirOutbound = n"
    using v by (simp_all add: vacant_def small_server_def NewServer_state_def max_count_def NewBlankConnectionInfo_def)
  have "\<not> sv_closed s" using goes_on_Start [OF S] by (simp add: goes_on_def small_server_def NewServer_state_def)
  moreover have "dial_reach friendly_host (runDial None s)"
    using S unfolding small_server_def by (rule dial_reach.started)
  ultimately show ?thesis
    using that [OF S v(3)] d v(1)
    by (simp add: active_count_def pending_count_def max_count_def GetOutboundConnCount_def
        GetPendingOutboundConnCount_def maxOutboundConnCount_def vacant_def)
qed

lemma reach_turn: "dial_reach H L \<Longrightarrow> loop_turn H L = Some L' \<Longrightarrow> \<not> dl_crashed L \<Longrightarrow> dial_reach H L'"
  by (meson dial_reach.steps dial_step.own own_step.turn)

text \<open>Without a slot the loop waits; then a peer asks to be dialled.\<close>

lemma waiting_reachable:
  obtains s :: "unit server" and L where "dial_reach friendly_host L" "dl_pc L = AtSelect" "dl_checked L = length (sv_events s)"
    "dl_seen L = length (sv_events s)" "dl_fn L = FnSelect" "\<not> sv_closed (dl_srv L)" "\<not> dl_crashed L"
    "sv_events (dl_srv L) = sv_events s @ [\<lparr>ev_PeerID = ''q'', ev_Type = PeerAddedToDialQueue\<rparr>]"
    "\<not> dq_closed (sv_dialQueue (dl_srv L))"
proof -
  obtain s i where S: "\<not> sv_closed s" "dial_reach friendly_host (runDial None s)"
    "GetOutboundConnCount (sv_connectionCounts s) = 0" "GetPendingOutboundConnCount (sv_connectionCounts s) = 0"
    "maxOutboundConnCount (sv_connectionCounts s) = 0"
    by (rule small_start [of 0]) (rule that, assumption+)
  let ?L0 = "at AtSelect (runDial None s)" and ?s = "snd (JoinPeer friendly_host s ''q'')"
  have "loop_turn friendly_host (runDial None s) = Some ?L0"
    using S(3-5) by (simp add: loop_turn_def runDial_def HasFreeOutboundConn_def)
  from reach_turn [OF S(2) this] have r0: "dial_reach friendly_host ?L0" by (simp add: runDial_def)
  have srv: "dl_srv ?L0 = s" by (simp add: at_def runDial_def)
  have "dial_step friendly_host ?L0 (after ?s ?L0)"
    by (rule dial_step.other) (simp_all add: srv other_step.joins, simp add: at_def runDial_def)
  with r0 have r: "dial_reach friendly_host (after ?s ?L0)" by (rule dial_reach.steps)
  have ev: "sv_events ?s = sv_events s @ [\<lparr>ev_PeerID = ''q'', ev_Type = PeerAddedToDialQueue\<rparr>]"
    by (simp add: JoinPeer_def friendly_host_def idle_codec_def sv_joinPeer_def addToDialQueue_def emitEvent_def)
  have inv: "dl_inv (runDial None s)" using dial_reach_inv [OF S(2)] by simp
  have "goes_on s ?s" by simp
  then have c: "\<not> sv_closed ?s" "\<not> dq_closed (sv_dialQueue ?s)"
    using S(1) inv by (auto simp: goes_on_def dl_inv_def runDial_def)
  show ?thesis
    by (rule that [OF r, of s]) (use ev c in \<open>simp_all add: after_def at_def runDial_def unpark_def\<close>)
qed

theorem dial_loop_wakes_up_witness:
  "\<exists>L L'. dial_reach friendly_host L \<and> dl_pc L = AtSelect \<and> (own_step friendly_host)\<^sup>*\<^sup>* L L' \<and> dl_pc L' = AtSlots"
proof -
  obtain s :: "unit server" and L where L: "dial_reach friendly_host L" "dl_pc L = AtSelect"
    "dl_checked L = length (sv_events s)" "\<not> sv_closed (dl_srv L)"
    "sv_events (dl_srv L) = sv_events s @ [\<lparr>ev_PeerID = ''q'', ev_Type = PeerAddedToDialQueue\<rparr>]"
    by (rule waiting_reachable) (rule that, assumption+)
  have "dial_wakes (ev_Type (sv_events (dl_srv L) ! length (sv_events s)))" by (simp add: L(5) dial_wakes_def)
  with dial_loop_wakes_up [OF L(1)] L(2-5) obtain L' where "(own_step friendly_host)\<^sup>*\<^sup>* L L'" "dl_pc L' = AtSlots"
    by (metis le_refl length_append_singleton lessI)
  with L(1,2) show ?thesis by blast
qed

theorem dial_shutdown_race_witness:
  "\<exists>L s' L'. dial_reach friendly_host L \<and> \<not> sv_closed (dl_srv L) \<and> sv_Close friendly_host (dl_srv L) = Inr (None, s') \<and>
     (dial_step friendly_host)\<^sup>*\<^sup>* (after s' L) L' \<and> dl_crashed L'"
proof -
  obtain s :: "unit server" and L where L: "dial_reach friendly_host L" "dl_pc L = AtSelect"
    "dl_seen L = length (sv_events s)" "dl_fn L = FnSelect" "\<not> sv_closed (dl_srv L)" "\<not> dl_crashed L"
    "sv_events (dl_srv L) = sv_events s @ [\<lparr>ev_PeerID = ''q'', ev_Type = PeerAddedToDialQueue\<rparr>]"
    "\<not> dq_closed (sv_dialQueue (dl_srv L))"
    by (rule waiting_reachable) (rule that, assumption+)
  let ?ev = "\<lparr>ev_PeerID = ''q'', ev_Type = PeerAddedToDialQueue\<rparr>"
  let ?L = "L\<lparr>dl_fn := FnHandle ?ev, dl_seen := Suc (dl_seen L)\<rparr>"
  have "fn_take L = Some ?L" using L(3,4,7) by (simp add: fn_take_def)
  then have r: "dial_reach friendly_host ?L"
    using L(1,6) by (meson dial_reach.steps dial_step.own own_step.takes)
  obtain s' where c: "sv_Close friendly_host (dl_srv ?L) = Inr (None, s')"
    using L(8) by (simp add: sv_Close_def on_world_def friendly_host_def idle_host_def Close_dq_def)
  have w: "dial_wakes (ev_Type ?ev)" by (simp add: dial_wakes_def)
  from dial_shutdown_race [OF r, THEN conjunct2, rule_format, of ?ev None s'] L(2,5) c w
  obtain L' where "(dial_step friendly_host)\<^sup>*\<^sup>* (after s' ?L) L'" "dl_crashed L'" by auto
  with r c L(5) show ?thesis by (intro exI [of _ ?L] exI [of _ s'] exI [of _ L']) simp
qed

lemma small_start_state:
  assumes "Start friendly_host (small_server n) (Some [''boot'']) 1 2 = Inr (s, i)"
  shows "sv_temporaryDials s = Map.empty \<and> sv_protocols s ''/id'' \<noteq> None \<and> sv_identityProto s = ''/id'' \<and>
    sv_startDiscovery s \<and> sv_dialQueue s = AddTask NewDialQueue (ho_PeerInfo friendly_host () ''boot'') PriorityRandomDial"
  using assms
  by (auto simp: Start_def small_server_def NewServer_state_def setupIdentity_def RegisterProtocol_def setupBootnodes_def
      setupDiscovery_def on_world_def MinimumBootNodes_def friendly_host_def idle_addr getBootnodes_def addToTable_def
      server_disc_def AddToPeerStore_def sv_TryAddPeer_def sv_PeerAdded_def addToDialQueue_def emitEvent_def Let_def
      split: sum.splits if_splits)

lemma friendly_try: "hk_TryAddPeer friendly_host w p = (Inr True, w)"
  by (simp add: friendly_host_def)

text \<open>The only outbound slot is taken by a handshake.\<close>

lemma shake_fills_slot:
  assumes S: "Start friendly_host (small_server 1) (Some [''boot'']) 1 2 = Inr (s, i)" and d: "sv_discovery s"
    and c: "GetOutboundConnCount (sv_connectionCounts s) = 0" "GetPendingOutboundConnCount (sv_connectionCounts s) = 0"
      "maxOutboundConnCount (sv_connectionCounts s) = 1" and e: "\<forall>p. sv_peers s p = None"
  obtains s1 ci where "other_step friendly_host s s1" "sv_peers s1 ''p'' = Some ci" "connDirections ci DirOutbound = Some True"
    "GetOutboundConnCount (sv_connectionCounts s1) = 1" "GetPendingOutboundConnCount (sv_connectionCounts s1) = 0"
    "maxOutboundConnCount (sv_connectionCounts s1) = 1"
    "0 \<in> set (dq_heap (sv_dialQueue s1))" "dq_tasks (sv_dialQueue s1) ''p'' \<noteq> Some 0"
proof -
  note X = small_start_state [OF S]
  let ?H = friendly_host
  let ?i = "\<lparr>id_pending = Map.empty, id_networkID = 0, id_hostID = ''self''\<rparr>"
  let ?s1 = "AddPeer ?H s ''p'' DirOutbound"
  have sel: "u\<lparr>sv_world := w\<rparr> = u" for u :: "unit server" and w by (cases u) simp
  have "handshake_result (server_id ?H) ?i s ''p'' DirOutbound = (PeerDialCompleted, ?s1)"
    using X by (auto simp: handshake_result_def handleConnected_def server_id_def NewIdentityClient_def NewProtoConnection_def
        NewStream_def on_world_def friendly_host_def constructStatus_def IsTemporaryDial_def Let_def sel split: option.splits)
  then have st: "other_step ?H s ?s1" by (rule other_step.shakes)
  obtain t where add: "addPeerInfo ?H s ''p'' DirOutbound = (False, t)" using e by (simp add: addPeerInfo_def Let_def)
  have t: "\<exists>ci. sv_peers t ''p'' = Some ci \<and> connDirections ci DirOutbound = Some True"
    "sv_connectionCounts t = UpdateConnCountByDirection 1 DirOutbound (sv_connectionCounts s)"
    "sv_dialQueue t = sv_dialQueue s" "sv_discovery t" "sv_startDiscovery t"
    using add e d X by (auto simp: addPeerInfo_def Let_def updateBootnodeConnCount_def updateConnCount_def)
  have s1: "?s1 = addToDialQueue t (ho_PeerInfo ?H () ''p'') PriorityRandomDial"
    using add t(4,5) by (simp add: AddPeer_def notify_discovery_def HandleNetworkEvent_def server_disc_def sv_TryAddPeer_def
        on_world_def sv_PeerAdded_def friendly_try sel)
  obtain ci where ci: "sv_peers t ''p'' = Some ci" "connDirections ci DirOutbound = Some True" using t(1) by blast
  let ?q = "AddTask NewDialQueue (ho_PeerInfo ?H () ''boot'') PriorityRandomDial"
  have ids: "ai_ID (ho_PeerInfo ?H () p) = p" for p by (simp add: friendly_host_def idle_host_def)
  have q: "sv_dialQueue ?s1 = AddTask ?q (ho_PeerInfo ?H () ''p'') PriorityRandomDial"
    using X t(3) by (simp add: s1 addToDialQueue_def emitEvent_def)
  note A = AddTask_result [OF dq_inv_New, of "ho_PeerInfo ?H () ''boot''" PriorityRandomDial]
  note B = AddTask_result [OF A(1), of "ho_PeerInfo ?H () ''p''" PriorityRandomDial]
  have n: "dq_next NewDialQueue = 0" by (simp add: NewDialQueue_def)
  have "set_mset (mset (dq_heap (sv_dialQueue ?s1))) = insert 1 (insert 0 (set (dq_heap NewDialQueue)))"
    unfolding q B(2) A(2,3) n by simp
  then have h: "0 \<in> set (dq_heap (sv_dialQueue ?s1))" by simp
  have k: "dq_tasks (sv_dialQueue ?s1) ''p'' \<noteq> Some 0" unfolding q B(4) A(3) ids n by simp
  show ?thesis
    by (rule that [OF st _ _ _ _ _ h k])
      (use ci c t(2) in \<open>simp_all add: s1 addToDialQueue_def emitEvent_def conn_defs GetOutboundConnCount_def
        GetPendingOutboundConnCount_def maxOutboundConnCount_def\<close>)
qed

text \<open>Any reachable state of a waiting loop leads to one in which all events are handled and none is pending.\<close>

lemma settle:
  assumes "dial_reach H L" and "dl_pc L = AtSelect" and "\<not> sv_closed (dl_srv L)"
    and "\<not> HasFreeOutboundConn (sv_connectionCounts (dl_srv L))"
  obtains L' where "dial_reach H L'" "dl_pc L' = AtSelect" "\<not> dl_notify L'" "dl_srv L' = dl_srv L"
    "handled L' = length (sv_events (dl_srv L))"
proof -
  have own: "dial_reach H L'" if "(own_step H)\<^sup>*\<^sup>* K L'" "dial_reach H K" for K L'
    using that by (induction rule: rtranclp_induct) (blast intro: dial_reach.steps dial_step.own)+
  from deliver_all [OF reach_listening [OF assms(1-3)] dial_reach_inv [OF assms(1)], of H] obtain L1 where
    L1: "(own_step H)\<^sup>*\<^sup>* L L1" "listening L1" "same_loop L L1" "handled L1 = length (sv_events (dl_srv L))" by blast
  have r: "dial_reach H L1" by (rule own [OF L1(1) assms(1)])
  show ?thesis
  proof (cases "dl_notify L1")
    case False
    then show ?thesis using that [OF r] L1(3,4) assms(2) by (simp add: same_loop_def)
  next
    case True
    let ?L2 = "at AtSlots (L1\<lparr>dl_notify := False, dl_checked := handled L1\<rparr>)"
    have "own_step H L1 ?L2" using True L1(2,3) assms(2)
      by (intro own_step.notified) (simp_all add: loop_notified_def same_loop_def listening_def)
    moreover have "own_step H ?L2 (at AtSelect ?L2)" using L1(2,3) assms(4)
      by (intro own_step.turn) (simp_all add: loop_turn_def at_def same_loop_def listening_def)
    ultimately have "dial_reach H (at AtSelect ?L2)" using r by (meson dial_reach.steps dial_step.own)
    moreover have "handled (at AtSelect ?L2) = handled L1" by (rule handled_cong) (simp_all add: at_def)
    ultimately show ?thesis using that L1(3,4) by (simp add: at_def same_loop_def)
  qed
qed

theorem disconnect_wakes_nobody_witness:
  "\<exists>L L'. dial_reach friendly_host L \<and> dl_pc L = AtSelect \<and> dial_step friendly_host L L' \<and>
     HasFreeOutboundConn (sv_connectionCounts (dl_srv L')) \<and> dq_heap (sv_dialQueue (dl_srv L')) \<noteq> [] \<and>
     (\<forall>L''. \<not> own_step friendly_host L' L'')"
proof -
  obtain s i where S: "Start friendly_host (small_server 1) (Some [''boot'']) 1 2 = Inr (s, i)"
    "sv_discovery s" "\<not> sv_closed s" "dial_reach friendly_host (runDial None s)"
    "GetOutboundConnCount (sv_connectionCounts s) = 0" "GetPendingOutboundConnCount (sv_connectionCounts s) = 0"
    "maxOutboundConnCount (sv_connectionCounts s) = 1" "\<forall>p. sv_peers s p = None"
    by (rule small_start [of 1]) (rule that, assumption+)
  obtain s1 ci where s1: "other_step friendly_host s s1" "sv_peers s1 ''p'' = Some ci" "connDirections ci DirOutbound = Some True"
    "GetOutboundConnCount (sv_connectionCounts s1) = 1" "GetPendingOutboundConnCount (sv_connectionCounts s1) = 0"
    "maxOutboundConnCount (sv_connectionCounts s1) = 1"
    "0 \<in> set (dq_heap (sv_dialQueue s1))" "dq_tasks (sv_dialQueue s1) ''p'' \<noteq> Some 0"
    by (rule shake_fills_slot [OF S(1,2,5-8)]) (rule that, assumption+)
  let ?L1 = "after s1 (runDial None s)"
  have "dial_step friendly_host (runDial None s) ?L1"
    using s1(1) by (intro dial_step.other) (simp_all add: runDial_def)
  with S(4) have r1: "dial_reach friendly_host ?L1" by (rule dial_reach.steps)
  have full: "\<not> HasFreeOutboundConn (sv_connectionCounts s1)" using s1(4-6) by (simp add: HasFreeOutboundConn_def)
  have L1: "dl_srv ?L1 = s1" "dl_pc ?L1 = AtSlots" "\<not> dl_crashed ?L1" by (simp_all add: after_def runDial_def unpark_def)
  then have "loop_turn friendly_host ?L1 = Some (at AtSelect ?L1)" using full by (simp add: loop_turn_def)
  from reach_turn [OF r1 this L1(3)] have r2: "dial_reach friendly_host (at AtSelect ?L1)" .
  have open1: "\<not> sv_closed s1" using goes_on_other [OF s1(1)] S(3) by (simp add: goes_on_def)
  from settle [OF r2] L1(1) full open1 obtain L where L: "dial_reach friendly_host L" "dl_pc L = AtSelect" "\<not> dl_notify L"
    "dl_srv L = s1" "handled L = length (sv_events s1)"
    by (auto simp: at_def)
  have one: "0 <s (1 :: int64)" by (simp add: word_sless_alt)
  from disconnect_wakes_nobody [OF L(1-3), of "''p''" ci 0] L(4,5) s1 open1 one obtain L' where
    "dial_step friendly_host L L'" "HasFreeOutboundConn (sv_connectionCounts (dl_srv L'))"
    "dq_heap (sv_dialQueue (dl_srv L')) \<noteq> []" "\<forall>L''. \<not> own_step friendly_host L' L''" by auto
  with L(1,2) show ?thesis by blast
qed

end
