(* ===== verification/Hex_Codec.thy ===== *)
theory Hex_Codec
  imports EMC_Prelude "HOL-Library.Char_ord"
begin

text \<open>
  The text encodings of bytes, hashes, addresses and numbers: \<open>core/helper/hex/hex.go\<close>,
  \<open>core/types/types.go\<close>, \<open>core/types/encoding.go\<close> and the argument types of
  \<open>core/jsonrpc/web3/types.go\<close>.  What they use of Go's \<open>encoding/hex\<close>, \<open>strconv\<close>, \<open>strings\<close> and
  \<open>math/big\<close> is modelled; a Go function that returns a value next to an error is a pair of both,
  because some callers keep the value.  Keccak is a parameter.
\<close>

section \<open>The standard library\<close>

definition hex_digit :: "nat \<Rightarrow> char" where
  "hex_digit n = ''0123456789abcdef'' ! n"

definition nibble :: "char \<Rightarrow> nat option" where
  "nibble c = (let n = of_char c :: nat in
     if 48 \<le> n \<and> n \<le> 57 then Some (n - 48)
     else if 97 \<le> n \<and> n \<le> 102 then Some (n - 97 + 10)
     else if 65 \<le> n \<and> n \<le> 70 then Some (n - 65 + 10)
     else None)"

definition byte_hex :: "byte \<Rightarrow> string" where
  "byte_hex b = [hex_digit (unat b div 16), hex_digit (unat b mod 16)]"

definition hex_EncodeToString :: "bytes \<Rightarrow> string" where
  "hex_EncodeToString bs = concat (map byte_hex bs)"

definition ErrHexLength :: go_err where "ErrHexLength = GoErr ''encoding/hex: odd length hex string''"
definition ErrInvalidByte :: go_err where "ErrInvalidByte = GoErr ''encoding/hex: invalid byte''"

text \<open>The decoded prefix is returned with the error.\<close>

fun hex_DecodeString :: "string \<Rightarrow> bytes \<times> go_err option" where
  "hex_DecodeString [] = ([], None)"
| "hex_DecodeString [c] = ([], Some (if nibble c = None then ErrInvalidByte else ErrHexLength))"
| "hex_DecodeString (c # d # cs) =
     (case (nibble c, nibble d) of
        (Some x, Some y) \<Rightarrow> (case hex_DecodeString cs of (bs, e) \<Rightarrow> (of_nat (16 * x + y) # bs, e))
      | _ \<Rightarrow> ([], Some ErrInvalidByte))"

fun TrimPrefix :: "string \<Rightarrow> string \<Rightarrow> string" where
  "TrimPrefix s p = (if take (length p) s = p then drop (length p) s else s)"

definition HasPrefix :: "string \<Rightarrow> string \<Rightarrow> bool" where
  "HasPrefix s p \<longleftrightarrow> take (length p) s = p"

definition ErrSyntax :: go_err where "ErrSyntax = GoErr ''invalid syntax''"
definition ErrRange :: go_err where "ErrRange = GoErr ''value out of range''"

definition max_uint64 :: nat where "max_uint64 = 2 ^ 64 - 1"

text \<open>\<open>strconv.ParseUint(s, base, 64)\<close> for the bases 10 and 16: the overflow test of the loop comes
  before the next character is looked at; a syntax error returns zero, an overflow the largest
  number.\<close>

fun parse_loop :: "nat \<Rightarrow> nat \<Rightarrow> string \<Rightarrow> u64 \<times> go_err option" where
  "parse_loop base n [] = (of_nat n, None)"
| "parse_loop base n (c # cs) =
     (case nibble c of
        None \<Rightarrow> (0, Some ErrSyntax)
      | Some d \<Rightarrow> if d \<ge> base then (0, Some ErrSyntax)
          else if n * base + d > max_uint64 then (of_nat max_uint64, Some ErrRange)
          else parse_loop base (n * base + d) cs)"

definition ParseUint :: "string \<Rightarrow> nat \<Rightarrow> u64 \<times> go_err option" where
  "ParseUint s base = (if s = [] then (0, Some ErrSyntax) else parse_loop base 0 s)"

function hex_of_nat :: "nat \<Rightarrow> string" where
  "hex_of_nat n = (if n < 16 then [hex_digit n] else hex_of_nat (n div 16) @ [hex_digit (n mod 16)])"
  by pat_completeness auto
termination by (relation "measure id") auto

declare hex_of_nat.simps [simp del]

definition AppendUint16 :: "string \<Rightarrow> u64 \<Rightarrow> string" where
  "AppendUint16 dst i = dst @ hex_of_nat (unat i)"

text \<open>\<open>(*big.Int).Text(16)\<close> and \<open>SetString\<close>; the latter gives nothing on failure.\<close>

definition big_Text16 :: "int \<Rightarrow> string" where
  "big_Text16 b = (if b < 0 then ''-'' else '''') @ hex_of_nat (nat (abs b))"

fun digits_val :: "nat \<Rightarrow> nat \<Rightarrow> string \<Rightarrow> nat option" where
  "digits_val base n [] = Some n"
| "digits_val base n (c # cs) = (case nibble c of None \<Rightarrow> None
     | Some d \<Rightarrow> if d \<ge> base then None else digits_val base (n * base + d) cs)"

definition big_SetString :: "string \<Rightarrow> nat \<Rightarrow> int option" where
  "big_SetString s base =
     (let neg = (take 1 s = ''-''); ds = (if neg \<or> take 1 s = ''+'' then drop 1 s else s) in
      if ds = [] then None
      else map_option (\<lambda>n. if neg then - int n else int n) (digits_val base 0 ds))"

text \<open>\<open>big.Int.SetBytes\<close>, big-endian.\<close>

definition big_SetBytes :: "bytes \<Rightarrow> int" where
  "big_SetBytes bs = foldl (\<lambda>n b. n * 256 + uint b) 0 bs"

section \<open>core/helper/hex\<close>

definition EncodeToHex :: "bytes \<Rightarrow> string" where "EncodeToHex str = ''0x'' @ hex_EncodeToString str"

definition DecodeHex :: "string \<Rightarrow> bytes \<times> go_err option" where
  "DecodeHex str = hex_DecodeString (TrimPrefix str ''0x'')"

definition MustDecodeHex :: "string \<Rightarrow> go_err + bytes" where
  "MustDecodeHex str = (case DecodeHex str of
     (buf, None) \<Rightarrow> Inr buf | (_, Some _) \<Rightarrow> Inl (GoPanic ''could not decode hex''))"

definition EncodeUint64 :: "u64 \<Rightarrow> string" where "EncodeUint64 i = AppendUint16 ''0x'' i"

definition DecodeUint64 :: "string \<Rightarrow> u64 \<times> go_err option" where
  "DecodeUint64 hexStr = ParseUint (TrimPrefix hexStr ''0x'') 16"

definition BadNibble :: u64 where "BadNibble = not 0"

definition DecodeNibble :: "byte \<Rightarrow> u64" where
  "DecodeNibble i =
     (if 48 \<le> i \<and> i \<le> 57 then ucast (i - 48)
      else if 65 \<le> i \<and> i \<le> 70 then ucast (i - 65 + 10)
      else if 97 \<le> i \<and> i \<le> 102 then ucast (i - 97 + 10)
      else BadNibble)"

definition EncodeBig :: "int \<Rightarrow> string" where
  "EncodeBig b = (if b = 0 then ''0x0''
     else (if b < 0 then ''-0x'' else ''0x'') @ hex_of_nat (nat (abs b)))"

text \<open>The result of a failed \<open>SetString\<close> is undefined in Go: \<open>junk\<close>.\<close>

definition DecodeHexToBig :: "int \<Rightarrow> string \<Rightarrow> int" where
  "DecodeHexToBig junk hexNum = (case big_SetString hexNum 16 of None \<Rightarrow> junk | Some n \<Rightarrow> n)"

definition DropHexPrefix :: "bytes \<Rightarrow> go_err + bytes" where
  "DropHexPrefix input = (if length input < 2 then Inl (GoPanic ''slice bounds out of range'') else Inr (drop 2 input))"

section \<open>core/types/types.go\<close>

text \<open>A hash or an address is the list of its 32 or 20 bytes.\<close>

type_synonym hash = bytes
type_synonym address = bytes

definition HashLength :: nat where "HashLength = 32"
definition AddressLength :: nat where "AddressLength = 20"

definition ZeroAddress :: address where "ZeroAddress = replicate 20 0"
definition ZeroHash :: hash where "ZeroHash = replicate 32 0"

text \<open>\<open>copy(h[n-min:], b[len(b)-min:])\<close> into a zero array of length \<open>n\<close>.\<close>

definition right_aligned :: "nat \<Rightarrow> bytes \<Rightarrow> bytes" where
  "right_aligned n b = (let m = min (length b) n in replicate (n - m) 0 @ drop (length b - m) b)"

definition BytesToHash :: "bytes \<Rightarrow> hash" where "BytesToHash b = right_aligned HashLength b"
definition BytesToAddress :: "bytes \<Rightarrow> address" where "BytesToAddress b = right_aligned AddressLength b"

definition Hash_String :: "hash \<Rightarrow> string" where "Hash_String h = EncodeToHex h"

definition ToUpper :: "char \<Rightarrow> char" where
  "ToUpper c = (let n = of_char c :: nat in if 97 \<le> n \<and> n \<le> 122 then char_of (n - 32) else c)"

definition is_dec :: "char \<Rightarrow> bool" where
  "is_dec c \<longleftrightarrow> (let n = of_char c :: nat in 48 \<le> n \<and> n \<le> 57)"

definition is_low :: "char \<Rightarrow> bool" where
  "is_low c \<longleftrightarrow> (let n = of_char c :: nat in 48 \<le> n \<and> n \<le> 55)"

definition checksum_char :: "char \<Rightarrow> char \<Rightarrow> char" where
  "checksum_char ch hashed = (if is_dec ch \<or> is_low hashed then ch else ToUpper ch)"

text \<open>The digest is longer than the address, so no index of \<open>hashedAddress\<close> is out of range.\<close>

definition checksumEncode :: "(string \<Rightarrow> bytes) \<Rightarrow> address \<Rightarrow> string" where
  "checksumEncode Keccak256 a =
     (let lowercaseHex = drop 2 (EncodeToHex a);
          hashedAddress = drop 2 (EncodeToHex (Keccak256 lowercaseHex))
      in ''0x'' @ map2 checksum_char lowercaseHex hashedAddress)"

definition Address_String :: "(string \<Rightarrow> bytes) \<Rightarrow> address \<Rightarrow> string" where
  "Address_String Keccak256 a = checksumEncode Keccak256 a"

definition StringToBytes :: "string \<Rightarrow> bytes" where
  "StringToBytes str =
     (let s = TrimPrefix str ''0x''; s' = (if length s mod 2 = 1 then ''0'' @ s else s)
      in fst (hex_DecodeString s'))"

definition StringToHash :: "string \<Rightarrow> hash" where "StringToHash str = BytesToHash (StringToBytes str)"
definition StringToAddress :: "string \<Rightarrow> address" where "StringToAddress str = BytesToAddress (StringToBytes str)"

definition Hash_UnmarshalText :: "string \<Rightarrow> go_err + hash" where
  "Hash_UnmarshalText input = Inr (BytesToHash (StringToBytes input))"

definition Address_UnmarshalText :: "string \<Rightarrow> go_err + address" where
  "Address_UnmarshalText input =
     (let buf = StringToBytes input in
      if length buf \<noteq> AddressLength then Inl (GoErr ''incorrect length'') else Inr (BytesToAddress buf))"

definition Hash_MarshalText :: "hash \<Rightarrow> string" where "Hash_MarshalText h = Hash_String h"
definition Address_MarshalText :: "(string \<Rightarrow> bytes) \<Rightarrow> address \<Rightarrow> string" where
  "Address_MarshalText Keccak256 a = Address_String Keccak256 a"

section \<open>core/types/encoding.go\<close>

definition split_base :: "string \<Rightarrow> string \<times> nat" where
  "split_base str = (if HasPrefix str ''0x'' then (drop 2 str, 16) else (str, 10))"

definition ParseUint64orHex :: "string option \<Rightarrow> u64 \<times> go_err option" where
  "ParseUint64orHex val = (case val of None \<Rightarrow> (0, None)
     | Some s \<Rightarrow> (case split_base s of (str, base) \<Rightarrow> ParseUint str base))"

definition ParseUint256orHex :: "string option \<Rightarrow> go_err + int option" where
  "ParseUint256orHex val = (case val of None \<Rightarrow> Inr None
     | Some s \<Rightarrow> (case split_base s of (str, base) \<Rightarrow>
         (case big_SetString str base of None \<Rightarrow> Inl (GoErr ''could not parse'') | Some b \<Rightarrow> Inr (Some b))))"

definition ParseInt64orHex :: "string option \<Rightarrow> int64 \<times> go_err option" where
  "ParseInt64orHex val = (case ParseUint64orHex val of (i, err) \<Rightarrow> (i, err))"

definition ParseBytes :: "string option \<Rightarrow> bytes \<times> go_err option" where
  "ParseBytes val = (case val of None \<Rightarrow> ([], None) | Some s \<Rightarrow> hex_DecodeString (TrimPrefix s ''0x''))"

definition enc_EncodeUint64 :: "u64 \<Rightarrow> string" where "enc_EncodeUint64 b = ''0x'' @ hex_of_nat (unat b)"
definition EncodeBytes :: "bytes \<Rightarrow> string" where "EncodeBytes b = ''0x'' @ hex_EncodeToString b"
definition EncodeBigInt :: "int \<Rightarrow> string" where "EncodeBigInt b = ''0x'' @ big_Text16 b"

section \<open>core/jsonrpc/web3/types.go: argument types\<close>

definition decodeToHex :: "string \<Rightarrow> bytes \<times> go_err option" where
  "decodeToHex b = (let str = TrimPrefix b ''0x''; str' = (if length str mod 2 \<noteq> 0 then ''0'' @ str else str)
     in hex_DecodeString str')"

definition encodeToHex :: "bytes \<Rightarrow> string" where
  "encodeToHex b = (let str = hex_EncodeToString b; str' = (if length str mod 2 \<noteq> 0 then ''0'' @ str else str)
     in ''0x'' @ str')"

definition argBig_UnmarshalText :: "string \<Rightarrow> go_err + int" where
  "argBig_UnmarshalText input = (case decodeToHex input of
     (_, Some err) \<Rightarrow> Inl err | (buf, None) \<Rightarrow> Inr (big_SetBytes buf))"

definition argBig_MarshalText :: "int \<Rightarrow> string" where "argBig_MarshalText a = ''0x'' @ big_Text16 a"

definition argUint64_MarshalText :: "u64 \<Rightarrow> string" where "argUint64_MarshalText u = AppendUint16 ''0x'' u"

definition argUint64_UnmarshalText :: "string \<Rightarrow> go_err + u64" where
  "argUint64_UnmarshalText input = (case ParseUint (TrimPrefix input ''0x'') 16 of
     (_, Some err) \<Rightarrow> Inl err | (num, None) \<Rightarrow> Inr num)"

definition argBytes_MarshalText :: "bytes \<Rightarrow> string" where "argBytes_MarshalText b = encodeToHex b"

text \<open>A decoding error leaves the old value in place and is not reported.\<close>

definition argBytes_UnmarshalText :: "bytes \<Rightarrow> string \<Rightarrow> bytes" where
  "argBytes_UnmarshalText old input = (case decodeToHex input of (_, Some _) \<Rightarrow> old | (hh, None) \<Rightarrow> hh)"

section \<open>Bytes and their text\<close>

lemma nibble_table: "list_all (\<lambda>n. nibble (hex_digit n) = Some n \<and> nibble (ToUpper (hex_digit n)) = Some n) [0..<16]"
  by code_simp

lemma nibble_hex_digit [simp]: "n < 16 \<Longrightarrow> nibble (hex_digit n) = Some n"
  using nibble_table by (simp add: list_all_iff del: upt_rec_numeral)

lemma nibble_checksum_char: "n < 16 \<Longrightarrow> nibble (checksum_char (hex_digit n) h) = Some n"
  using nibble_table by (simp add: list_all_iff checksum_char_def del: upt_rec_numeral)

lemma unat_byte_split: "16 * (unat (b::byte) div 16) + unat b mod 16 = unat b"
  by simp

lemma byte_div_less: "unat (b::byte) div 16 < 16"
proof -
  have "unat b < 2 ^ LENGTH(8)" by (rule unsigned_less)
  then show ?thesis by simp
qed

lemma hex_Decode_cong: "map nibble s = map nibble t \<Longrightarrow> hex_DecodeString s = hex_DecodeString t"
proof (induction s arbitrary: t rule: hex_DecodeString.induct)
  case 1
  then show ?case by simp
next
  case (2 c)
  then obtain d where "t = [d]" "nibble d = nibble c" by auto
  then show ?case by simp
next
  case (3 c d cs)
  then obtain c' d' ds where t: "t = c' # d' # ds" "nibble c' = nibble c" "nibble d' = nibble d"
    "map nibble cs = map nibble ds" by (auto simp: Cons_eq_map_conv)
  show ?case
  proof (cases "nibble c = None \<or> nibble d = None")
    case False
    then obtain x y where xy: "nibble c = Some x" "nibble d = Some y" by auto
    have "hex_DecodeString cs = hex_DecodeString ds" by (rule "3.IH" [OF _ _ _ t(4)]) (simp_all add: xy)
    then show ?thesis using t xy by simp
  qed (use t in \<open>auto split: option.splits\<close>)
qed

lemma hex_Decode_Encode [simp]: "hex_DecodeString (hex_EncodeToString bs) = (bs, None)"
proof (induction bs)
  case (Cons b bs)
  then show ?case using byte_div_less [of b] unat_byte_split [of b]
    by (simp add: hex_EncodeToString_def byte_hex_def)
qed (simp add: hex_EncodeToString_def)

lemma length_hex_Encode [simp]: "length (hex_EncodeToString bs) = 2 * length bs"
  by (induction bs) (simp_all add: hex_EncodeToString_def byte_hex_def)

lemma TrimPrefix_append [simp]: "TrimPrefix (p @ s) p = s"
  by simp

lemma drop2_0x [simp]: "drop 2 (''0x'' @ s) = s"
  by simp

lemma DecodeHex_EncodeToHex: "DecodeHex (EncodeToHex bs) = (bs, None)"
  by (simp add: DecodeHex_def EncodeToHex_def del: append_Cons TrimPrefix.simps)

lemma StringToBytes_0x:
  "even (length s) \<Longrightarrow> StringToBytes (''0x'' @ s) = fst (hex_DecodeString s)"
  by (simp add: StringToBytes_def Let_def odd_iff_mod_2_eq_one [symmetric] del: append_Cons TrimPrefix.simps)

lemma StringToBytes_EncodeToHex [simp]: "StringToBytes (EncodeToHex bs) = bs"
  unfolding EncodeToHex_def by (subst StringToBytes_0x) simp_all

lemma right_aligned_exact [simp]: "length b = n \<Longrightarrow> right_aligned n b = b"
  by (simp add: right_aligned_def)

lemma length_right_aligned [simp]: "length (right_aligned n b) = n"
  by (simp add: right_aligned_def Let_def)

lemma encodeToHex_eq: "encodeToHex bs = EncodeToHex bs"
  by (simp add: encodeToHex_def EncodeToHex_def)

lemma decodeToHex_EncodeToHex: "decodeToHex (EncodeToHex bs) = (bs, None)"
  by (simp add: decodeToHex_def EncodeToHex_def Let_def odd_iff_mod_2_eq_one [symmetric] del: append_Cons TrimPrefix.simps)

lemma map_nibble_checksum:
  "length s \<le> length h \<Longrightarrow> \<forall>c \<in> set s. \<exists>n < 16. c = hex_digit n \<Longrightarrow>
   map nibble (map2 checksum_char s h) = map nibble s"
proof (induction s h rule: list_induct2')
  case (4 x xs y ys)
  then show ?case by (auto simp: nibble_checksum_char)
qed auto

lemma hex_chars: "c \<in> set (hex_EncodeToString bs) \<Longrightarrow> \<exists>n < 16. c = hex_digit n"
proof (induction bs)
  case (Cons b bs)
  have "unat b mod 16 < 16" by simp
  moreover have "c = hex_digit (unat b div 16) \<or> c = hex_digit (unat b mod 16) \<or> c \<in> set (hex_EncodeToString bs)"
    using Cons.prems by (auto simp: hex_EncodeToString_def byte_hex_def)
  ultimately show ?case using Cons.IH byte_div_less [of b] by blast
qed (simp add: hex_EncodeToString_def)

lemma StringToBytes_checksum:
  assumes "length a \<le> length (K (hex_EncodeToString a))"
  shows "StringToBytes (checksumEncode K a) = a"
proof -
  let ?s = "hex_EncodeToString a" and ?h = "hex_EncodeToString (K (hex_EncodeToString a))"
  have eq: "checksumEncode K a = ''0x'' @ map2 checksum_char ?s ?h"
    by (simp add: checksumEncode_def EncodeToHex_def Let_def)
  have len: "length ?s \<le> length ?h" using assms by simp
  have "hex_DecodeString (map2 checksum_char ?s ?h) = hex_DecodeString ?s"
    by (rule hex_Decode_cong, rule map_nibble_checksum [OF len]) (use hex_chars in blast)
  moreover have "even (length (map2 checksum_char ?s ?h))" using len by (simp add: min_def)
  ultimately show ?thesis unfolding eq by (subst StringToBytes_0x) simp_all
qed

section \<open>Numbers and their text\<close>

lemma digits_val_append:
  "digits_val base n (s @ t) = Option.bind (digits_val base n s) (\<lambda>m. digits_val base m t)"
  by (induction base n s rule: digits_val.induct) (auto split: option.splits)

lemma digits_val_mono: "1 \<le> base \<Longrightarrow> digits_val base n s = Some v \<Longrightarrow> n \<le> v"
proof (induction base n s rule: digits_val.induct)
  case (2 base n c cs)
  then obtain d where "nibble c = Some d" "\<not> base \<le> d" "digits_val base (n * base + d) cs = Some v"
    by (auto split: option.splits if_splits)
  then have "n * base + d \<le> v" using 2 by blast
  moreover have "n \<le> n * base" using 2(2) by simp
  ultimately show ?case by linarith
qed simp

lemma digits_hex_of_nat: "digits_val 16 0 (hex_of_nat n) = Some n"
proof (induction n rule: hex_of_nat.induct)
  case (1 n)
  show ?case
  proof (cases "n < 16")
    case True then show ?thesis by (simp add: hex_of_nat.simps [of n])
  next
    case False
    have "n mod 16 < 16" by simp
    then show ?thesis using False 1 by (simp add: hex_of_nat.simps [of n] digits_val_append)
  qed
qed

lemma hex_of_nat_ne [simp]: "hex_of_nat n \<noteq> []"
  by (simp add: hex_of_nat.simps [of n])

lemma parse_loop_spec:
  "1 \<le> base \<Longrightarrow> n \<le> max_uint64 \<Longrightarrow>
   (case digits_val base n s of
      Some v \<Rightarrow> parse_loop base n s =
        (if v \<le> max_uint64 then (of_nat v, None) else (of_nat max_uint64, Some ErrRange))
    | None \<Rightarrow> snd (parse_loop base n s) \<noteq> None)"
proof (induction base n s rule: parse_loop.induct)
  case (2 base n c cs)
  show ?case
  proof (cases "\<exists>d. nibble c = Some d \<and> d < base")
    case False
    then show ?thesis by (auto split: option.splits)
  next
    case True
    then obtain d where d: "nibble c = Some d" "d < base" by blast
    show ?thesis
    proof (cases "n * base + d \<le> max_uint64")
      case True
      then show ?thesis using 2(1) [OF d(1)] 2(2) d by (simp add: not_le split: option.splits)
    next
      case False
      then have "digits_val base (n * base + d) cs = Some v \<Longrightarrow> \<not> v \<le> max_uint64" for v
        using digits_val_mono [OF 2(2), of "n * base + d" cs v] by simp
      then show ?thesis using False d by (auto split: option.splits)
    qed
  qed
qed simp

lemma ParseUint_iff:
  assumes "1 \<le> base"
  shows "ParseUint s base = (x, None) \<longleftrightarrow>
    s \<noteq> [] \<and> (\<exists>v. digits_val base 0 s = Some v \<and> v \<le> max_uint64 \<and> x = of_nat v)"
  using parse_loop_spec [OF assms, of 0 s]
  by (cases "digits_val base 0 s") (auto simp: ParseUint_def)

lemma unat_le_max [simp]: "unat (u::u64) \<le> max_uint64"
proof -
  have "unat u < 2 ^ LENGTH(64)" by (rule unsigned_less)
  then show ?thesis by (simp add: max_uint64_def)
qed

lemma ParseUint_hex: "ParseUint (hex_of_nat (unat u)) 16 = (u, None)"
  by (subst ParseUint_iff) (simp_all add: digits_hex_of_nat)

text \<open>Big integers: the bytes of a hexadecimal text have its value, and a sign is no digit.\<close>

lemma hex_bytes_value:
  "even (length s) \<Longrightarrow> digits_val 16 n s = Some v \<Longrightarrow>
   \<exists>bs. hex_DecodeString s = (bs, None) \<and> foldl (\<lambda>n b. n * 256 + uint b) (int n) bs = int v"
proof (induction s arbitrary: n rule: hex_DecodeString.induct)
  case (3 c d cs)
  obtain x y where xy: "nibble c = Some x" "x < 16" "nibble d = Some y" "y < 16"
    and r: "digits_val 16 ((n * 16 + x) * 16 + y) cs = Some v"
    using 3(3) by (auto split: option.splits if_splits)
  obtain bs where bs: "hex_DecodeString cs = (bs, None)"
    "foldl (\<lambda>n b. n * 256 + uint b) (int ((n * 16 + x) * 16 + y)) bs = int v"
    using "3.IH" [OF _ _ _ _ r] xy(1,3) 3(2) by auto
  have "uint (of_nat (16 * x + y) :: byte) = int (16 * x + y)"
    using xy(2,4) by (simp add: unsigned_of_nat take_bit_nat_eq_self del: of_nat_add of_nat_mult)
  then have "int n * 256 + uint (of_nat (16 * x + y) :: byte) = int ((n * 16 + x) * 16 + y)" by simp
  then show ?case using bs xy by (simp add: algebra_simps)
qed simp_all

lemma argBig_round_trip: "0 \<le> b \<Longrightarrow> argBig_UnmarshalText (argBig_MarshalText b) = Inr b"
proof -
  assume b: "0 \<le> b"
  define s where "s = hex_of_nat (nat b)"
  define s' where "s' = (if length s mod 2 \<noteq> 0 then ''0'' @ s else s)"
  have "nibble (CHR ''0'') = Some 0" by code_simp
  then have "digits_val 16 0 s' = Some (nat b)" using digits_hex_of_nat [of "nat b"] by (simp add: s'_def s_def)
  moreover have "even (length s')" by (simp add: s'_def) presburger
  ultimately obtain bs where "hex_DecodeString s' = (bs, None)" "foldl (\<lambda>n b. n * 256 + uint b) 0 bs = int (nat b)"
    using hex_bytes_value [of s' 0 "nat b"] by auto
  moreover have "decodeToHex (argBig_MarshalText b) = hex_DecodeString s'"
    using b by (simp add: decodeToHex_def argBig_MarshalText_def big_Text16_def s_def [symmetric] s'_def Let_def)
  ultimately show ?thesis using b by (simp add: argBig_UnmarshalText_def big_SetBytes_def)
qed

lemma big_text_round_trip: "big_SetString (big_Text16 b) 16 = Some b"
proof -
  obtain c cs where h: "hex_of_nat (nat (abs b)) = c # cs" using hex_of_nat_ne by (metis neq_Nil_conv)
  then have "nibble c \<noteq> None" using digits_hex_of_nat [of "nat (abs b)"] by (auto split: option.splits)
  moreover have "nibble (CHR ''-'') = None" "nibble (CHR ''+'') = None" by code_simp+
  ultimately have "c \<noteq> CHR ''-''" "c \<noteq> CHR ''+''" by auto
  then show ?thesis using h digits_hex_of_nat [of "nat (abs b)"]
    by (simp add: big_SetString_def big_Text16_def Let_def del: digits_val.simps)
qed

lemma ParseUint256_round_trip: "ParseUint256orHex (Some (EncodeBigInt b)) = Inr (Some b)"
  by (simp add: ParseUint256orHex_def EncodeBigInt_def split_base_def HasPrefix_def big_text_round_trip)

section \<open>Properties\<close>

text \<open>C13. Printing and parsing again gives back the value: for hashes, for checksummed addresses whatever
  the digest that chooses the upper-case letters, for byte strings, and for big integers, the argument
  type of which has no sign.\<close>

theorem hex_text_round_trip:
  assumes "length h = HashLength" and "length a = AddressLength" and "\<And>s. length (K s) = HashLength"
  shows "Hash_UnmarshalText (Hash_MarshalText h) = Inr h \<and>
    Address_UnmarshalText (Address_MarshalText K a) = Inr a \<and>
    StringToAddress (Address_String K a) = a \<and>
    MustDecodeHex (EncodeToHex bs) = Inr bs \<and>
    argBytes_UnmarshalText old (argBytes_MarshalText bs) = bs \<and>
    (0 \<le> b \<longrightarrow> argBig_UnmarshalText (argBig_MarshalText b) = Inr b) \<and>
    ParseUint256orHex (Some (EncodeBigInt b)) = Inr (Some b)"
proof -
  have "StringToBytes (checksumEncode K a) = a"
    by (rule StringToBytes_checksum) (simp add: assms(2,3) HashLength_def AddressLength_def)
  then show ?thesis using assms(1,2)
    by (simp add: Hash_UnmarshalText_def Hash_MarshalText_def Hash_String_def BytesToHash_def
        Address_UnmarshalText_def Address_MarshalText_def Address_String_def BytesToAddress_def
        StringToAddress_def MustDecodeHex_def DecodeHex_EncodeToHex argBytes_UnmarshalText_def
        argBytes_MarshalText_def encodeToHex_eq decodeToHex_EncodeToHex argBig_round_trip ParseUint256_round_trip)
qed

theorem hex_text_round_trip_witness:
  "Address_UnmarshalText (Address_MarshalText (\<lambda>_. replicate 32 0xff) (replicate 20 0xab)) = Inr (replicate 20 0xab) \<and>
   argBig_UnmarshalText (argBig_MarshalText 300) = Inr 300"
  using hex_text_round_trip [of ZeroHash "replicate 20 0xab" "\<lambda>_. replicate 32 0xff" "[]" "[]" 300]
  by (simp add: ZeroHash_def HashLength_def AddressLength_def)

text \<open>The 64-bit argument type reads exactly the non-empty hexadecimal texts, with or without prefix,
  whose value fits into 64 bits, and never wraps around; what it prints it reads back.\<close>

theorem uint64_text_exact:
  "(argUint64_UnmarshalText s = Inr x \<longleftrightarrow>
      TrimPrefix s ''0x'' \<noteq> [] \<and>
      (\<exists>v. digits_val 16 0 (TrimPrefix s ''0x'') = Some v \<and> v < 2 ^ 64 \<and> x = of_nat v)) \<and>
   argUint64_UnmarshalText (argUint64_MarshalText u) = Inr u \<and>
   ParseUint64orHex (Some (enc_EncodeUint64 u)) = (u, None)"
proof -
  have again: "argUint64_UnmarshalText (argUint64_MarshalText u) = Inr u"
    using ParseUint_hex [of u]
    by (simp add: argUint64_UnmarshalText_def argUint64_MarshalText_def AppendUint16_def)
  have "argUint64_UnmarshalText s = Inr x \<longleftrightarrow> ParseUint (TrimPrefix s ''0x'') 16 = (x, None)"
    by (simp add: argUint64_UnmarshalText_def split: prod.splits option.splits)
  moreover have "v \<le> max_uint64 \<longleftrightarrow> v < 2 ^ 64" for v
    unfolding max_uint64_def by auto
  ultimately show ?thesis
    using ParseUint_iff [of 16 "TrimPrefix s ''0x''" x] again ParseUint_hex [of u]
    by (simp add: ParseUint64orHex_def enc_EncodeUint64_def split_base_def HasPrefix_def del: TrimPrefix.simps)
qed

text \<open>A text with characters that are not hexadecimal is silently cut: every text is a hash.\<close>

lemma hash_text_never_rejected:
  "\<exists>h. Hash_UnmarshalText input = Inr h \<and> length h = HashLength"
  by (simp add: Hash_UnmarshalText_def BytesToHash_def)

lemma bad_hash_text_is_zero: "Hash_UnmarshalText ''0xzz'' = Inr ZeroHash"
  by code_simp

lemma EncodeBig_keeps_sign: "EncodeBig (-31) = ''-0x1f''"
  by code_simp

end
