(* ===== verification/Telegrams.thy ===== *)
theory Telegrams
  imports Hex_Codec "HOL-Library.Countable"
begin

text \<open>
  The telegram (the signed message of the network) and its RLP form: \<open>core/types/telegram.go\<close>,
  \<open>rlp_marshal.go\<close> and \<open>rlp_unmarshal.go\<close>, and the JSON form of \<open>core/jsonrpc/web3/types.go\<close>.  The
  library \<open>fastrlp\<close> with its values is a parameter; \<open>rlp_laws\<close> states what its documentation
  promises.  A \<open>*big.Int\<close> or \<open>*Address\<close> is an option; buffer pools do not show.
\<close>

section \<open>Telegrams\<close>

type_synonym tele_type = byte

definition LegacyTx :: tele_type where "LegacyTx = 0"
definition StateTx :: tele_type where "StateTx = 0x7f"

definition txTypeFromByte :: "byte \<Rightarrow> go_err + tele_type" where
  "txTypeFromByte b = (if b = LegacyTx \<or> b = StateTx then Inr b else Inl (GoErr ''unknown transaction type''))"

definition TeleType_String :: "tele_type \<Rightarrow> string" where
  "TeleType_String t = (if t = LegacyTx then ''LegacyTx'' else if t = StateTx then ''StateTx'' else '''')"

record telegram =
  tg_Nonce :: u64
  tg_GasPrice :: "int option"
  tg_Gas :: u64
  tg_To :: "address option"
  tg_Value :: "int option"
  tg_Input :: bytes
  tg_V :: "int option"
  tg_R :: "int option"
  tg_S :: "int option"
  tg_Hash :: hash
  tg_From :: address
  tg_RespV :: "int option"
  tg_RespR :: "int option"
  tg_RespS :: "int option"
  tg_RespHash :: hash
  tg_RespFrom :: address
  tg_Type :: tele_type
  tg_size :: "u64 option"

definition zero_telegram :: telegram where
  "zero_telegram = \<lparr>tg_Nonce = 0, tg_GasPrice = None, tg_Gas = 0, tg_To = None, tg_Value = None, tg_Input = [],
     tg_V = None, tg_R = None, tg_S = None, tg_Hash = ZeroHash, tg_From = ZeroAddress, tg_RespV = None,
     tg_RespR = None, tg_RespS = None, tg_RespHash = ZeroHash, tg_RespFrom = ZeroAddress,
     tg_Type = LegacyTx, tg_size = None\<rparr>"

definition IsContractCreation :: "telegram \<Rightarrow> bool" where
  "IsContractCreation t \<longleftrightarrow> tg_To t = None"

text \<open>\<open>R\<close> and \<open>S\<close> are rebuilt from \<open>Bits()\<close>, the magnitude.\<close>

definition tg_Copy :: "telegram \<Rightarrow> telegram" where
  "tg_Copy t = t\<lparr>tg_GasPrice := Some (case tg_GasPrice t of None \<Rightarrow> 0 | Some g \<Rightarrow> g),
     tg_Value := Some (case tg_Value t of None \<Rightarrow> 0 | Some v \<Rightarrow> v),
     tg_R := map_option abs (tg_R t), tg_S := map_option abs (tg_S t)\<rparr>"

definition deref :: "'a option \<Rightarrow> go_err + 'a" where
  "deref p = (case p of None \<Rightarrow> Inl (GoPanic ''nil pointer dereference'') | Some x \<Rightarrow> Inr x)"

definition tg_Cost :: "telegram \<Rightarrow> go_err + int" where
  "tg_Cost t = rbind (deref (tg_GasPrice t)) (\<lambda>gasPrice. let total = gasPrice * uint (tg_Gas t) in
     rbind (deref (tg_Value t)) (\<lambda>v. Inr (total + v)))"

section \<open>RLP\<close>

text \<open>\<open>rl_Bytes_at v i\<close> is \<open>v.Get(i).Bytes()\<close>.\<close>

record 'v rlp_lib =
  rl_NewArray :: "'v list \<Rightarrow> 'v"
  rl_NewUint :: "u64 \<Rightarrow> 'v"
  rl_NewBigInt :: "int option \<Rightarrow> 'v"
  rl_NewBytes :: "bytes \<Rightarrow> 'v"
  rl_NewCopyBytes :: "bytes \<Rightarrow> 'v"
  rl_NewNull :: 'v
  rl_MarshalTo :: "'v \<Rightarrow> bytes"
  rl_Parse :: "bytes \<Rightarrow> go_err + 'v"
  rl_GetElems :: "'v \<Rightarrow> go_err + 'v list"
  rl_GetUint64 :: "'v \<Rightarrow> go_err + u64"
  rl_GetBigInt :: "'v \<Rightarrow> go_err + int"
  rl_GetBytes :: "'v \<Rightarrow> go_err + bytes"
  rl_Bytes_at :: "'v \<Rightarrow> nat \<Rightarrow> go_err + bytes"
  rl_Hash :: "'v \<Rightarrow> hash"

definition MarshalRLPWith :: "'v rlp_lib \<Rightarrow> telegram \<Rightarrow> 'v" where
  "MarshalRLPWith L t = rl_NewArray L (
     [rl_NewUint L (tg_Nonce t), rl_NewBigInt L (tg_GasPrice t), rl_NewUint L (tg_Gas t),
      (case tg_To t of Some a \<Rightarrow> rl_NewBytes L a | None \<Rightarrow> rl_NewNull L),
      rl_NewBigInt L (tg_Value t), rl_NewCopyBytes L (tg_Input t),
      rl_NewBigInt L (tg_V t), rl_NewBigInt L (tg_R t), rl_NewBigInt L (tg_S t),
      rl_NewBigInt L (tg_RespV t), rl_NewBigInt L (tg_RespR t), rl_NewBigInt L (tg_RespS t),
      rl_NewBytes L (tg_RespHash t), rl_NewBytes L (tg_RespFrom t)] @
     (if tg_Type t = StateTx then [rl_NewBytes L (tg_From t)] else []))"

definition MarshalRLPTo :: "'v rlp_lib \<Rightarrow> telegram \<Rightarrow> bytes \<Rightarrow> bytes" where
  "MarshalRLPTo L t dst = (let dst' = (if tg_Type t \<noteq> LegacyTx then dst @ [tg_Type t] else dst)
     in dst' @ rl_MarshalTo L (MarshalRLPWith L t))"

definition MarshalRLP :: "'v rlp_lib \<Rightarrow> telegram \<Rightarrow> bytes" where
  "MarshalRLP L t = MarshalRLPTo L t []"

definition ComputeHash :: "'v rlp_lib \<Rightarrow> telegram \<Rightarrow> telegram" where
  "ComputeHash L t = t\<lparr>tg_Hash := rl_Hash L (MarshalRLPWith L t)\<rparr>"

definition tg_Size :: "'v rlp_lib \<Rightarrow> telegram \<Rightarrow> u64 \<times> telegram" where
  "tg_Size L t = (case tg_size t of Some sz \<Rightarrow> (sz, t)
     | None \<Rightarrow> (let sz = of_nat (length (MarshalRLP L t)) in (sz, t\<lparr>tg_size := Some sz\<rparr>)))"

text \<open>\<open>if vv, _ := v.Get(i).Bytes(); len(vv) == n\<close>: an error counts as no bytes, a panic does not.\<close>

definition sized_bytes_at :: "'v rlp_lib \<Rightarrow> 'v \<Rightarrow> nat \<Rightarrow> nat \<Rightarrow> go_err + bytes option" where
  "sized_bytes_at L v i n = (case rl_Bytes_at L v i of
     Inl e \<Rightarrow> if is_panic e then Inl e else Inr None
   | Inr vv \<Rightarrow> Inr (if length vv = n then Some vv else None))"

text \<open>The fields 0 to 8, the response fields 9 to 13 and the sender 14.  What a failed decoding leaves
  in the receiver is not modelled.\<close>

definition unmarshal_core :: "'v rlp_lib \<Rightarrow> 'v \<Rightarrow> 'v list \<Rightarrow> telegram \<Rightarrow> go_err + telegram" where
  "unmarshal_core L v elems t =
     rbind (rbind (slice_at elems 0) (rl_GetUint64 L)) (\<lambda>nonce.
     rbind (rbind (slice_at elems 1) (rl_GetBigInt L)) (\<lambda>gasPrice.
     rbind (rbind (slice_at elems 2) (rl_GetUint64 L)) (\<lambda>gas.
     rbind (sized_bytes_at L v 3 20) (\<lambda>vv.
     rbind (rbind (slice_at elems 4) (rl_GetBigInt L)) (\<lambda>val.
     rbind (rbind (slice_at elems 5) (rl_GetBytes L)) (\<lambda>input.
     rbind (rbind (slice_at elems 6) (rl_GetBigInt L)) (\<lambda>V.
     rbind (rbind (slice_at elems 7) (rl_GetBigInt L)) (\<lambda>R.
     rbind (rbind (slice_at elems 8) (rl_GetBigInt L)) (\<lambda>S.
       Inr (t\<lparr>tg_Nonce := nonce, tg_GasPrice := Some gasPrice, tg_Gas := gas,
         tg_To := map_option BytesToAddress vv, tg_Value := Some val, tg_Input := input,
         tg_V := Some V, tg_R := Some R, tg_S := Some S\<rparr>))))))))))"

definition unmarshal_resp :: "'v rlp_lib \<Rightarrow> 'v \<Rightarrow> 'v list \<Rightarrow> telegram \<Rightarrow> go_err + telegram" where
  "unmarshal_resp L v elems t =
     (if length elems > 9 then
        rbind (rbind (slice_at elems 9) (rl_GetBigInt L)) (\<lambda>respV.
        rbind (rbind (slice_at elems 10) (rl_GetBigInt L)) (\<lambda>respR.
        rbind (rbind (slice_at elems 11) (rl_GetBigInt L)) (\<lambda>respS.
        rbind (sized_bytes_at L v 12 32) (\<lambda>h.
        rbind (sized_bytes_at L v 13 20) (\<lambda>a.
          Inr (t\<lparr>tg_RespV := Some respV, tg_RespR := Some respR, tg_RespS := Some respS,
            tg_RespHash := (case h of Some vv \<Rightarrow> BytesToHash vv | None \<Rightarrow> ZeroHash),
            tg_RespFrom := (case a of Some vv \<Rightarrow> BytesToAddress vv | None \<Rightarrow> ZeroAddress)\<rparr>))))))
      else Inr t)"

definition unmarshal_from :: "'v rlp_lib \<Rightarrow> 'v \<Rightarrow> 'v list \<Rightarrow> telegram \<Rightarrow> go_err + telegram" where
  "unmarshal_from L v elems t =
     (if tg_Type t = StateTx then
        (if length elems > 14
         then rbind (sized_bytes_at L v 14 AddressLength) (\<lambda>a.
           Inr (t\<lparr>tg_From := (case a of Some vv \<Rightarrow> BytesToAddress vv | None \<Rightarrow> ZeroAddress)\<rparr>))
         else Inr (t\<lparr>tg_From := ZeroAddress\<rparr>))
      else Inr t)"

definition unmarshalRLPFrom :: "'v rlp_lib \<Rightarrow> telegram \<Rightarrow> 'v \<Rightarrow> go_err + telegram" where
  "unmarshalRLPFrom L t v =
     rbind (rl_GetElems L v) (\<lambda>elems.
       if length elems < 9 then Inl (GoErr ''incorrect number of elements to decode transaction'')
       else rbind (unmarshal_core L v elems (t\<lparr>tg_Hash := rl_Hash L v\<rparr>)) (\<lambda>t1.
            rbind (unmarshal_resp L v elems t1) (\<lambda>t2. unmarshal_from L v elems t2)))"

definition UnmarshalRlp :: "'v rlp_lib \<Rightarrow> ('v \<Rightarrow> go_err + 't) \<Rightarrow> bytes \<Rightarrow> go_err + 't" where
  "UnmarshalRlp L obj input = rbind (rl_Parse L input) obj"

definition RLPSingleByteUpperLimit :: byte where "RLPSingleByteUpperLimit = 0x7f"

definition UnmarshalRLP :: "'v rlp_lib \<Rightarrow> telegram \<Rightarrow> bytes \<Rightarrow> go_err + telegram" where
  "UnmarshalRLP L t input =
     (if length input > 0 \<and> input ! 0 \<le> RLPSingleByteUpperLimit
      then rbind (txTypeFromByte (input ! 0)) (\<lambda>ty.
        UnmarshalRlp L (unmarshalRLPFrom L (t\<lparr>tg_Type := ty\<rparr>)) (drop 1 input))
      else UnmarshalRlp L (unmarshalRLPFrom L (t\<lparr>tg_Type := LegacyTx\<rparr>)) input)"

section \<open>The JSON form\<close>

record transaction =
  tr_Nonce :: u64
  tr_GasPrice :: int
  tr_Gas :: u64
  tr_To :: "address option"
  tr_Value :: int
  tr_Input :: bytes
  tr_V :: int
  tr_R :: int
  tr_S :: int
  tr_Hash :: hash
  tr_From :: address
  tr_BlockHash :: "hash option"
  tr_BlockNumber :: "u64 option"
  tr_TxIndex :: "u64 option"
  tr_RespV :: "int option"
  tr_RespR :: "int option"
  tr_RespS :: "int option"
  tr_RespHash :: hash
  tr_RespFrom :: address

definition toTransaction ::
    "telegram \<Rightarrow> u64 option \<Rightarrow> hash option \<Rightarrow> int64 option \<Rightarrow> go_err + transaction" where
  "toTransaction t blockNumber blockHash txIndex =
     rbind (deref (tg_GasPrice t)) (\<lambda>gasPrice. rbind (deref (tg_Value t)) (\<lambda>val.
     rbind (deref (tg_V t)) (\<lambda>V. rbind (deref (tg_R t)) (\<lambda>R. rbind (deref (tg_S t)) (\<lambda>S.
       Inr \<lparr>tr_Nonce = tg_Nonce t, tr_GasPrice = gasPrice, tr_Gas = tg_Gas t, tr_To = tg_To t,
         tr_Value = val, tr_Input = tg_Input t, tr_V = V, tr_R = R, tr_S = S, tr_Hash = tg_Hash t,
         tr_From = tg_From t, tr_BlockHash = blockHash, tr_BlockNumber = blockNumber,
         tr_TxIndex = txIndex, tr_RespV = tg_RespV t, tr_RespR = tg_RespR t, tr_RespS = tg_RespS t,
         tr_RespHash = tg_RespHash t, tr_RespFrom = tg_RespFrom t\<rparr>)))))"

definition toPendingTransaction :: "telegram \<Rightarrow> go_err + transaction" where
  "toPendingTransaction t = toTransaction t None None None"

section \<open>What the RLP library promises\<close>

text \<open>Reading what was written: arrays, unsigned numbers, non-negative big integers and byte strings
  (null reads as the empty string); parsing the encoding of a value gives the value; the encoding of
  an array starts with a byte above \<open>0x7f\<close>.\<close>

definition rlp_laws :: "'v rlp_lib \<Rightarrow> bool" where
  "rlp_laws L \<longleftrightarrow>
     (\<forall>vs. rl_GetElems L (rl_NewArray L vs) = Inr vs) \<and>
     (\<forall>n. rl_GetUint64 L (rl_NewUint L n) = Inr n) \<and>
     (\<forall>n \<ge> 0. rl_GetBigInt L (rl_NewBigInt L (Some n)) = Inr n) \<and>
     (\<forall>b. rl_GetBytes L (rl_NewCopyBytes L b) = Inr b) \<and>
     (\<forall>vs i b. i < length vs \<longrightarrow> vs ! i = rl_NewBytes L b \<longrightarrow> rl_Bytes_at L (rl_NewArray L vs) i = Inr b) \<and>
     (\<forall>vs i. i < length vs \<longrightarrow> vs ! i = rl_NewNull L \<longrightarrow> rl_Bytes_at L (rl_NewArray L vs) i = Inr []) \<and>
     (\<forall>v. rl_Parse L (rl_MarshalTo L v) = Inr v) \<and>
     (\<forall>vs. \<exists>b bs. rl_MarshalTo L (rl_NewArray L vs) = b # bs \<and> 0x7f < b)"

definition nat_big :: "int option \<Rightarrow> bool" where
  "nat_big b \<longleftrightarrow> (case b of None \<Rightarrow> False | Some n \<Rightarrow> 0 \<le> n)"

text \<open>Telegrams the program builds: a known type, big integers that are set and not negative, and
  arrays of their fixed length.\<close>

definition encodable :: "telegram \<Rightarrow> bool" where
  "encodable t \<longleftrightarrow> (tg_Type t = LegacyTx \<or> tg_Type t = StateTx) \<and>
     nat_big (tg_GasPrice t) \<and> nat_big (tg_Value t) \<and> nat_big (tg_V t) \<and> nat_big (tg_R t) \<and>
     nat_big (tg_S t) \<and> nat_big (tg_RespV t) \<and> nat_big (tg_RespR t) \<and> nat_big (tg_RespS t) \<and>
     (\<forall>a. tg_To t = Some a \<longrightarrow> length a = AddressLength) \<and> length (tg_From t) = AddressLength \<and>
     length (tg_RespHash t) = HashLength \<and> length (tg_RespFrom t) = AddressLength"

section \<open>Round trip\<close>

lemma nat_bigE: "nat_big b \<Longrightarrow> (\<And>n. b = Some n \<Longrightarrow> 0 \<le> n \<Longrightarrow> P) \<Longrightarrow> P"
  by (cases b) (auto simp: nat_big_def)

lemma get_big: "rlp_laws L \<Longrightarrow> nat_big b \<Longrightarrow> rl_GetBigInt L (rl_NewBigInt L b) = Inr (the b)"
  by (erule nat_bigE) (simp add: rlp_laws_def)

lemma law_elems: "rlp_laws L \<Longrightarrow> rl_GetElems L (rl_NewArray L vs) = Inr vs"
  and law_uint: "rlp_laws L \<Longrightarrow> rl_GetUint64 L (rl_NewUint L n) = Inr n"
  and law_bytes: "rlp_laws L \<Longrightarrow> rl_GetBytes L (rl_NewCopyBytes L b) = Inr b"
  and law_parse: "rlp_laws L \<Longrightarrow> rl_Parse L (rl_MarshalTo L v) = Inr v"
  and law_at: "rlp_laws L \<Longrightarrow> i < length vs \<Longrightarrow> vs ! i = rl_NewBytes L b \<Longrightarrow> rl_Bytes_at L (rl_NewArray L vs) i = Inr b"
  and law_null: "rlp_laws L \<Longrightarrow> i < length vs \<Longrightarrow> vs ! i = rl_NewNull L \<Longrightarrow> rl_Bytes_at L (rl_NewArray L vs) i = Inr []"
  and law_head: "rlp_laws L \<Longrightarrow> \<exists>b bs. rl_MarshalTo L (rl_NewArray L vs) = b # bs \<and> 0x7f < b"
  by (simp_all add: rlp_laws_def)

lemmas rlp_reads = get_big law_elems law_uint law_bytes

lemma sized_at:
  "rlp_laws L \<Longrightarrow> i < length vs \<Longrightarrow> vs ! i = rl_NewBytes L b \<Longrightarrow>
   sized_bytes_at L (rl_NewArray L vs) i n = Inr (if length b = n then Some b else None)"
  by (simp add: sized_bytes_at_def law_at)

lemma sized_null:
  "rlp_laws L \<Longrightarrow> i < length vs \<Longrightarrow> vs ! i = rl_NewNull L \<Longrightarrow>
   sized_bytes_at L (rl_NewArray L vs) i n = Inr (if n = 0 then Some [] else None)"
  by (simp add: sized_bytes_at_def law_null)

text \<open>The elements of an encoded telegram.\<close>

definition tg_elems :: "'v rlp_lib \<Rightarrow> telegram \<Rightarrow> 'v list" where
  "tg_elems L t =
     [rl_NewUint L (tg_Nonce t), rl_NewBigInt L (tg_GasPrice t), rl_NewUint L (tg_Gas t),
      (case tg_To t of Some a \<Rightarrow> rl_NewBytes L a | None \<Rightarrow> rl_NewNull L),
      rl_NewBigInt L (tg_Value t), rl_NewCopyBytes L (tg_Input t),
      rl_NewBigInt L (tg_V t), rl_NewBigInt L (tg_R t), rl_NewBigInt L (tg_S t),
      rl_NewBigInt L (tg_RespV t), rl_NewBigInt L (tg_RespR t), rl_NewBigInt L (tg_RespS t),
      rl_NewBytes L (tg_RespHash t), rl_NewBytes L (tg_RespFrom t)] @
     (if tg_Type t = StateTx then [rl_NewBytes L (tg_From t)] else [])"

lemma MarshalRLPWith_eq: "MarshalRLPWith L t = rl_NewArray L (tg_elems L t)"
  by (simp add: MarshalRLPWith_def tg_elems_def)

lemma length_tg_elems: "length (tg_elems L t) = (if tg_Type t = StateTx then 15 else 14)"
  by (simp add: tg_elems_def)

lemma nth_tg_elems:
  "tg_elems L t ! 0 = rl_NewUint L (tg_Nonce t)" "tg_elems L t ! Suc 0 = rl_NewBigInt L (tg_GasPrice t)"
  "tg_elems L t ! 2 = rl_NewUint L (tg_Gas t)"
  "tg_elems L t ! 3 = (case tg_To t of Some a \<Rightarrow> rl_NewBytes L a | None \<Rightarrow> rl_NewNull L)"
  "tg_elems L t ! 4 = rl_NewBigInt L (tg_Value t)" "tg_elems L t ! 5 = rl_NewCopyBytes L (tg_Input t)"
  "tg_elems L t ! 6 = rl_NewBigInt L (tg_V t)" "tg_elems L t ! 7 = rl_NewBigInt L (tg_R t)"
  "tg_elems L t ! 8 = rl_NewBigInt L (tg_S t)" "tg_elems L t ! 9 = rl_NewBigInt L (tg_RespV t)"
  "tg_elems L t ! 10 = rl_NewBigInt L (tg_RespR t)" "tg_elems L t ! 11 = rl_NewBigInt L (tg_RespS t)"
  "tg_elems L t ! 12 = rl_NewBytes L (tg_RespHash t)" "tg_elems L t ! 13 = rl_NewBytes L (tg_RespFrom t)"
  "tg_Type t = StateTx \<Longrightarrow> tg_elems L t ! 14 = rl_NewBytes L (tg_From t)"
  by (simp_all add: tg_elems_def)

lemma slice_tg_elems: "i < 14 \<Longrightarrow> slice_at (tg_elems L t) i = Inr (tg_elems L t ! i)"
  by (simp add: length_tg_elems)

lemma To_round_trip:
  assumes "rlp_laws L" "\<forall>a. tg_To t = Some a \<longrightarrow> length a = AddressLength"
  shows "sized_bytes_at L (rl_NewArray L (tg_elems L t)) 3 20 = Inr (tg_To t)"
proof (cases "tg_To t")
  case None
  then have "tg_elems L t ! 3 = rl_NewNull L" by (simp add: nth_tg_elems)
  then show ?thesis using None by (subst sized_null [OF assms(1)]) (simp_all add: length_tg_elems)
next
  case (Some a)
  then have "tg_elems L t ! 3 = rl_NewBytes L a" by (simp add: nth_tg_elems)
  then show ?thesis using Some assms(2) sized_at [OF assms(1), of 3 "tg_elems L t" a 20]
    by (simp add: length_tg_elems AddressLength_def)
qed

lemma BytesToAddress_exact: "length a = AddressLength \<Longrightarrow> BytesToAddress a = a"
  by (simp add: BytesToAddress_def)

lemma core_round_trip:
  assumes L: "rlp_laws L" and t: "encodable t"
  shows "unmarshal_core L (rl_NewArray L (tg_elems L t)) (tg_elems L t) t0 =
    Inr (t0\<lparr>tg_Nonce := tg_Nonce t, tg_GasPrice := tg_GasPrice t, tg_Gas := tg_Gas t, tg_To := tg_To t,
      tg_Value := tg_Value t, tg_Input := tg_Input t, tg_V := tg_V t, tg_R := tg_R t, tg_S := tg_S t\<rparr>)"
proof -
  have To: "sized_bytes_at L (rl_NewArray L (tg_elems L t)) 3 20 = Inr (tg_To t)"
    using t by (intro To_round_trip [OF L]) (simp add: encodable_def)
  have addr: "map_option BytesToAddress (tg_To t) = tg_To t"
    using t by (cases "tg_To t") (simp_all add: encodable_def BytesToAddress_exact)
  have bigs: "Some (the (tg_GasPrice t)) = tg_GasPrice t" "Some (the (tg_Value t)) = tg_Value t"
    "Some (the (tg_V t)) = tg_V t" "Some (the (tg_R t)) = tg_R t" "Some (the (tg_S t)) = tg_S t"
    using t by (auto simp: encodable_def elim!: nat_bigE)
  show ?thesis using t
    by (simp add: unmarshal_core_def slice_tg_elems nth_tg_elems rlp_reads [OF L] To addr bigs encodable_def
        del: slice_at_in)
qed

lemma resp_round_trip:
  assumes L: "rlp_laws L" and t: "encodable t"
  shows "unmarshal_resp L (rl_NewArray L (tg_elems L t)) (tg_elems L t) t0 =
    Inr (t0\<lparr>tg_RespV := tg_RespV t, tg_RespR := tg_RespR t, tg_RespS := tg_RespS t,
      tg_RespHash := tg_RespHash t, tg_RespFrom := tg_RespFrom t\<rparr>)"
proof -
  have at: "sized_bytes_at L (rl_NewArray L (tg_elems L t)) 12 32 = Inr (Some (tg_RespHash t))"
    "sized_bytes_at L (rl_NewArray L (tg_elems L t)) 13 20 = Inr (Some (tg_RespFrom t))"
    using t sized_at [OF L, of 12 "tg_elems L t" "tg_RespHash t" 32] sized_at [OF L, of 13 "tg_elems L t" "tg_RespFrom t" 20]
    by (simp_all add: length_tg_elems nth_tg_elems encodable_def HashLength_def AddressLength_def)
  have bigs: "Some (the (tg_RespV t)) = tg_RespV t" "Some (the (tg_RespR t)) = tg_RespR t"
    "Some (the (tg_RespS t)) = tg_RespS t"
    using t by (auto simp: encodable_def elim!: nat_bigE)
  have exact: "BytesToHash (tg_RespHash t) = tg_RespHash t" "BytesToAddress (tg_RespFrom t) = tg_RespFrom t"
    using t by (simp_all add: encodable_def BytesToHash_def BytesToAddress_def)
  have "length (tg_elems L t) > 9" by (simp add: length_tg_elems)
  then show ?thesis using t
    by (simp add: unmarshal_resp_def slice_tg_elems nth_tg_elems rlp_reads [OF L] at bigs exact encodable_def
        del: slice_at_in)
qed

lemma from_round_trip:
  assumes L: "rlp_laws L" and t: "encodable t" and ty: "tg_Type t0 = tg_Type t"
  shows "unmarshal_from L (rl_NewArray L (tg_elems L t)) (tg_elems L t) t0 =
    Inr (if tg_Type t = StateTx then t0\<lparr>tg_From := tg_From t\<rparr> else t0)"
proof (cases "tg_Type t = StateTx")
  case True
  have at: "sized_bytes_at L (rl_NewArray L (tg_elems L t)) 14 AddressLength = Inr (Some (tg_From t))"
    using t True sized_at [OF L, of 14 "tg_elems L t" "tg_From t" AddressLength]
    by (simp add: length_tg_elems nth_tg_elems encodable_def)
  show ?thesis using True ty t at
    by (simp add: unmarshal_from_def length_tg_elems encodable_def BytesToAddress_exact)
qed (simp add: unmarshal_from_def ty)

lemma unmarshalRLPFrom_round_trip:
  assumes L: "rlp_laws L" and t: "encodable t" and ty: "tg_Type t0 = tg_Type t"
  shows "unmarshalRLPFrom L t0 (MarshalRLPWith L t) =
    Inr (t\<lparr>tg_Hash := rl_Hash L (MarshalRLPWith L t), tg_size := tg_size t0,
      tg_From := (if tg_Type t = StateTx then tg_From t else tg_From t0)\<rparr>)"
proof -
  have "\<not> length (tg_elems L t) < 9" by (simp add: length_tg_elems)
  then show ?thesis unfolding MarshalRLPWith_eq
    by (simp add: unmarshalRLPFrom_def law_elems [OF L] core_round_trip [OF L t] resp_round_trip [OF L t]
        from_round_trip [OF L t] ty)
qed

lemma UnmarshalRLP_marshalled:
  assumes "rlp_laws L" and "encodable t"
  shows "UnmarshalRLP L t0 (MarshalRLP L t) =
    Inr (t\<lparr>tg_Hash := rl_Hash L (MarshalRLPWith L t), tg_size := tg_size t0,
      tg_From := (if tg_Type t = StateTx then tg_From t else tg_From t0)\<rparr>)"
proof (cases "tg_Type t = LegacyTx")
  case True
  obtain b bs where m: "rl_MarshalTo L (MarshalRLPWith L t) = b # bs" "0x7f < b"
    using law_head [OF assms(1)] unfolding MarshalRLPWith_eq by blast
  have "UnmarshalRLP L t0 (MarshalRLP L t) = unmarshalRLPFrom L (t0\<lparr>tg_Type := LegacyTx\<rparr>) (MarshalRLPWith L t)"
    using m True law_parse [OF assms(1), of "MarshalRLPWith L t"]
    by (auto simp: UnmarshalRLP_def MarshalRLP_def MarshalRLPTo_def UnmarshalRlp_def RLPSingleByteUpperLimit_def)
  then show ?thesis using True by (simp add: unmarshalRLPFrom_round_trip [OF assms])
next
  case False
  then have ty: "tg_Type t = StateTx" using assms(2) by (simp add: encodable_def)
  have "UnmarshalRLP L t0 (MarshalRLP L t) = unmarshalRLPFrom L (t0\<lparr>tg_Type := StateTx\<rparr>) (MarshalRLPWith L t)"
    using ty law_parse [OF assms(1), of "MarshalRLPWith L t"]
    by (simp add: UnmarshalRLP_def MarshalRLP_def MarshalRLPTo_def UnmarshalRlp_def RLPSingleByteUpperLimit_def
        StateTx_def LegacyTx_def txTypeFromByte_def)
  then show ?thesis using ty by (simp add: unmarshalRLPFrom_round_trip [OF assms])
qed

section \<open>A library that keeps the promises\<close>

datatype rlp_tree = RBytes "nat list" | RArray "rlp_tree list"

instance rlp_tree :: countable
  by countable_datatype

definition tree_bytes :: "rlp_tree \<Rightarrow> go_err + bytes" where
  "tree_bytes v = (case v of RBytes b \<Rightarrow> Inr (map of_nat b) | RArray _ \<Rightarrow> Inl (GoErr ''not bytes''))"

definition tree_lib :: "rlp_tree rlp_lib" where
  "tree_lib = \<lparr>rl_NewArray = RArray, rl_NewUint = (\<lambda>n. RBytes [unat n]),
     rl_NewBigInt = (\<lambda>b. case b of None \<Rightarrow> RBytes [] | Some n \<Rightarrow> RBytes [nat n]),
     rl_NewBytes = (\<lambda>b. RBytes (map unat b)), rl_NewCopyBytes = (\<lambda>b. RBytes (map unat b)), rl_NewNull = RBytes [],
     rl_MarshalTo = (\<lambda>v. 0xc0 # replicate (to_nat v) 0),
     rl_Parse = (\<lambda>bs. if bs = [] then Inl (GoErr ''empty'') else Inr (from_nat (length bs - 1))),
     rl_GetElems = (\<lambda>v. case v of RArray vs \<Rightarrow> Inr vs | RBytes _ \<Rightarrow> Inl (GoErr ''not an array'')),
     rl_GetUint64 = (\<lambda>v. case v of RBytes [n] \<Rightarrow> Inr (of_nat n) | _ \<Rightarrow> Inl (GoErr ''not a number'')),
     rl_GetBigInt = (\<lambda>v. case v of RBytes [n] \<Rightarrow> Inr (int n) | RBytes [] \<Rightarrow> Inr 0 | _ \<Rightarrow> Inl (GoErr ''not a number'')),
     rl_GetBytes = tree_bytes,
     rl_Bytes_at = (\<lambda>v i. case v of RArray vs \<Rightarrow> if i < length vs then tree_bytes (vs ! i) else Inl (GoPanic ''nil'')
        | RBytes _ \<Rightarrow> Inl (GoErr ''not an array'')),
     rl_Hash = (\<lambda>_. ZeroHash)\<rparr>"

lemma tree_lib_laws: "rlp_laws tree_lib"
  by (auto simp: rlp_laws_def tree_lib_def tree_bytes_def comp_def)

section \<open>Properties\<close>

text \<open>C14. With an RLP library that keeps its promises, decoding the encoding of a telegram gives the
  telegram back, with its hash set to the digest of the encoding; a legacy telegram loses its sender
  (the receiver keeps the one it had), a state telegram keeps it.\<close>

theorem telegram_round_trip:
  assumes "rlp_laws L" and "encodable t"
  shows "UnmarshalRLP L t0 (MarshalRLP L t) =
    Inr (t\<lparr>tg_Hash := rl_Hash L (MarshalRLPWith L t), tg_size := tg_size t0,
      tg_From := (if tg_Type t = StateTx then tg_From t else tg_From t0)\<rparr>)"
  using assms by (rule UnmarshalRLP_marshalled)

definition sample_telegram :: telegram where
  "sample_telegram = zero_telegram\<lparr>tg_GasPrice := Some 5, tg_Value := Some 0, tg_V := Some 1, tg_R := Some 2,
     tg_S := Some 3, tg_RespV := Some 0, tg_RespR := Some 0, tg_RespS := Some 0, tg_From := replicate 20 9\<rparr>"

theorem telegram_round_trip_witness:
  "UnmarshalRLP tree_lib zero_telegram (MarshalRLP tree_lib sample_telegram) =
     Inr (sample_telegram\<lparr>tg_From := ZeroAddress\<rparr>)"
  using telegram_round_trip [OF tree_lib_laws, of sample_telegram zero_telegram]
  by (simp add: encodable_def sample_telegram_def zero_telegram_def nat_big_def ZeroAddress_def ZeroHash_def
      AddressLength_def HashLength_def LegacyTx_def StateTx_def tree_lib_def)

text \<open>A telegram of ten or eleven elements, which carries only part of the response signature, passes
  the length check and then panics: the check asks for nine elements, the reads after the ninth ask
  for twelve.\<close>

theorem short_response_panics:
  assumes "rl_GetElems L v = Inr elems" and "length elems = 10 \<or> length elems = 11"
    and "\<And>i. i \<in> {0, 2} \<Longrightarrow> \<exists>n. rl_GetUint64 L (elems ! i) = Inr n"
    and "\<And>i. i \<in> {1, 4, 6, 7, 8, 9, length elems - 1} \<Longrightarrow> \<exists>n. rl_GetBigInt L (elems ! i) = Inr n"
    and "\<exists>b. rl_GetBytes L (elems ! 5) = Inr b" and "\<exists>b. rl_Bytes_at L v 3 = Inr b"
  shows "unmarshalRLPFrom L t v = Inl (GoPanic ''index out of range'')"
proof -
  obtain n0 n2 where u: "rl_GetUint64 L (elems ! 0) = Inr n0" "rl_GetUint64 L (elems ! 2) = Inr n2"
    using assms(3) by blast
  obtain b1 b4 b6 b7 b8 b9 bl where b: "rl_GetBigInt L (elems ! 1) = Inr b1" "rl_GetBigInt L (elems ! 4) = Inr b4"
    "rl_GetBigInt L (elems ! 6) = Inr b6" "rl_GetBigInt L (elems ! 7) = Inr b7"
    "rl_GetBigInt L (elems ! 8) = Inr b8" "rl_GetBigInt L (elems ! 9) = Inr b9"
    "rl_GetBigInt L (elems ! (length elems - 1)) = Inr bl"
    using assms(4) by (metis insertCI)
  obtain b5 b3 where y: "rl_GetBytes L (elems ! 5) = Inr b5" "rl_Bytes_at L v 3 = Inr b3" using assms(5,6) by blast
  have "\<exists>t1. unmarshal_core L v elems (t\<lparr>tg_Hash := rl_Hash L v\<rparr>) = Inr t1"
    using assms(2) u b y by (auto simp: unmarshal_core_def sized_bytes_at_def)
  moreover have "unmarshal_resp L v elems t1 = Inl (GoPanic ''index out of range'')" for t1
    using assms(2) b by (auto simp: unmarshal_resp_def)
  ultimately show ?thesis using assms(1,2) by (auto simp: unmarshalRLPFrom_def)
qed

theorem short_response_panics_witness:
  "unmarshalRLPFrom tree_lib zero_telegram (RArray (replicate 10 (RBytes [1]))) =
     Inl (GoPanic ''index out of range'')"
  by (rule short_response_panics [of _ _ "replicate 10 (RBytes [1])"])
     (auto simp: tree_lib_def tree_bytes_def)

end
