(* ===== verification/Applications.thy ===== *)
theory Applications
  imports Net_Common "HOL-Library.Sublist"
begin

text \<open>
  The application package: the application record and its copy (\<open>core/application/application.go\<close>),
  events and their streams (\<open>subscription.go\<close>), the peer map of the syncer (\<open>peers.go\<close>,
  \<open>syncer.go\<close>), the slot gauge (\<open>slot_gauge.go\<close>), the status client (\<open>sync_client.go\<close>) and the
  route table of the endpoint (\<open>endpoint_handler.go\<close>, \<open>endpoint.go\<close>).  A \<open>float32\<close> is its bit
  pattern, a \<open>*big.Int\<close> an integer.
\<close>

section \<open>Applications and events\<close>

record application =
  ap_Name :: string
  ap_Tag :: string
  ap_Version :: string
  ap_PeerID :: peer_id
  ap_IpAddr :: string
  ap_AppOrigin :: string
  ap_ModelHash :: string
  ap_Mac :: string
  ap_MemInfo :: string
  ap_CpuInfo :: string
  ap_GpuInfo :: string
  ap_StartupTime :: u64
  ap_Uptime :: u64
  ap_GuageHeight :: u64
  ap_GuageMax :: u64
  ap_AveragePower :: "32 word"
  ap_RelayHost :: string
  ap_RelayProxyPort :: u64

definition app_Copy :: "application \<Rightarrow> application" where
  "app_Copy a = \<lparr>ap_Name = ap_Name a, ap_Tag = ap_Tag a, ap_Version = ap_Version a,
     ap_PeerID = ap_PeerID a, ap_IpAddr = ap_IpAddr a, ap_AppOrigin = ap_AppOrigin a,
     ap_ModelHash = ap_ModelHash a, ap_Mac = ap_Mac a, ap_MemInfo = ap_MemInfo a,
     ap_CpuInfo = ap_CpuInfo a, ap_GpuInfo = ap_GpuInfo a, ap_StartupTime = ap_StartupTime a,
     ap_Uptime = ap_Uptime a, ap_GuageHeight = ap_GuageHeight a, ap_GuageMax = ap_GuageMax a,
     ap_AveragePower = ap_AveragePower a, ap_RelayHost = ap_RelayHost a,
     ap_RelayProxyPort = ap_RelayProxyPort a\<rparr>"

datatype event_type = EventHead | EventReorg | EventFork

record app_event =
  ev_NewApp :: "application list"
  ev_EvType :: event_type
  ev_Source :: string

definition empty_event :: app_event where
  "empty_event = \<lparr>ev_NewApp = [], ev_EvType = EventHead, ev_Source = ''''\<rparr>"

definition LatestApp :: "app_event \<Rightarrow> go_err + application" where
  "LatestApp e = (if ev_NewApp e = [] then Inl (GoPanic ''index out of range [-1]'')
     else Inr (ev_NewApp e ! (length (ev_NewApp e) - 1)))"

definition AddNewApp :: "app_event \<Rightarrow> application \<Rightarrow> app_event" where
  "AddNewApp e newApp = (let app = app_Copy newApp in e\<lparr>ev_NewApp := ev_NewApp e @ [app]\<rparr>)"

section \<open>Event streams\<close>

text \<open>A stream is the list of its subscribers' channels; each is a Go channel of capacity one.\<close>

record sub_channel =
  ch_buf :: "app_event list"
  ch_closed :: bool

type_synonym event_stream = "sub_channel list"

definition subscribe :: "event_stream \<Rightarrow> nat \<times> event_stream" where
  "subscribe es = (length es, es @ [\<lparr>ch_buf = [], ch_closed = False\<rparr>])"

definition send_nonblocking :: "app_event \<Rightarrow> sub_channel \<Rightarrow> sub_channel" where
  "send_nonblocking e c = (if length (ch_buf c) < 1 then c\<lparr>ch_buf := ch_buf c @ [e]\<rparr> else c)"

definition stream_push :: "app_event \<Rightarrow> event_stream \<Rightarrow> event_stream" where
  "stream_push e es = map (send_nonblocking e) es"

text \<open>What \<open>GetEvent\<close> of subscriber \<open>i\<close> can do: deliver the buffered event, or end with nil when the
  subscription is closed (either one, when both are ready), or block (\<open>None\<close>).  \<open>prefer_close\<close>
  resolves the choice of \<open>select\<close>.\<close>

definition GetEvent :: "bool \<Rightarrow> nat \<Rightarrow> event_stream \<Rightarrow> (app_event option \<times> event_stream) option" where
  "GetEvent prefer_close i es =
     (case ch_buf (es ! i) of
        ev # rest \<Rightarrow>
          if ch_closed (es ! i) \<and> prefer_close then Some (None, es)
          else Some (Some ev, es[i := (es ! i)\<lparr>ch_buf := rest\<rparr>])
      | [] \<Rightarrow> if ch_closed (es ! i) then Some (None, es) else None)"

definition sub_Close :: "nat \<Rightarrow> event_stream \<Rightarrow> go_err + event_stream" where
  "sub_Close i es = (if ch_closed (es ! i) then Inl (GoPanic ''close of closed channel'')
     else Inr (es[i := (es ! i)\<lparr>ch_closed := True\<rparr>]))"

section \<open>Peers of the application network\<close>

record app_peer =
  pe_ID :: string
  pe_Name :: string
  pe_Relay :: string
  pe_Addr :: string
  pe_AppOrigin :: string
  pe_ModelHash :: string
  pe_Mac :: string
  pe_MemInfo :: string
  pe_CpuInfo :: string
  pe_Distance :: int
  pe_Starup_time :: u64
  pe_Uptime :: u64
  pe_Guage_height :: u64
  pe_Guage_max :: u64
  pe_AveragePower :: "32 word"
  pe_GpuInfo :: string
  pe_Version :: string

definition IsBetter :: "app_peer \<Rightarrow> app_peer \<Rightarrow> bool" where
  "IsBetter p t = (if pe_Guage_height p \<noteq> pe_Guage_height t
     then pe_Guage_height p < pe_Guage_height t
     else pe_Distance p < pe_Distance t)"

type_synonym peer_map = "string \<rightharpoonup> app_peer"

text \<open>\<open>None\<close> in the arguments of \<open>Put\<close> is a nil pointer.\<close>

fun PeerMap_Put :: "peer_map \<Rightarrow> app_peer option list \<Rightarrow> go_err + peer_map" where
  "PeerMap_Put m [] = Inr m"
| "PeerMap_Put m (p # ps) =
     (case p of
        None \<Rightarrow> Inl (GoPanic ''nil pointer dereference'')
      | Some peer \<Rightarrow> PeerMap_Put (m(pe_ID peer \<mapsto> peer)) ps)"

definition NewPeerMap :: "app_peer option list \<Rightarrow> go_err + peer_map" where
  "NewPeerMap peers = PeerMap_Put Map.empty peers"

definition PeerMap_Remove :: "(peer_id \<Rightarrow> string) \<Rightarrow> peer_map \<Rightarrow> peer_id \<Rightarrow> peer_map" where
  "PeerMap_Remove pid_String m p = m(pid_String p := None)"

definition PeerMap_Get :: "peer_map \<Rightarrow> string \<Rightarrow> app_peer option" where
  "PeerMap_Get m i = m i"

text \<open>The closure that \<open>Range\<close> calls, over the entries in the order \<open>Range\<close> visits them.\<close>

definition better_of :: "(string \<rightharpoonup> bool) \<Rightarrow> app_peer option \<Rightarrow> app_peer \<Rightarrow> app_peer option" where
  "better_of skipMap best peer =
     (if skipMap (pe_ID peer) = Some True then best
      else case best of None \<Rightarrow> Some peer | Some b \<Rightarrow> if IsBetter peer b then Some peer else best)"

definition BestPeer :: "app_peer list \<Rightarrow> (string \<rightharpoonup> bool) \<Rightarrow> app_peer option" where
  "BestPeer entries skipMap = foldl (better_of skipMap) None entries"

section \<open>Slot gauge\<close>

record slot_gauge =
  sg_height :: u64
  sg_max :: u64

definition gauge_read :: "slot_gauge \<Rightarrow> u64" where "gauge_read g = sg_height g"

definition gauge_increase :: "u64 \<Rightarrow> slot_gauge \<Rightarrow> slot_gauge" where
  "gauge_increase slots g = g\<lparr>sg_height := sg_height g + slots\<rparr>"

definition gauge_decrease :: "u64 \<Rightarrow> slot_gauge \<Rightarrow> slot_gauge" where
  "gauge_decrease slots g = g\<lparr>sg_height := sg_height g + not (slots - 1)\<rparr>"

definition highPressure :: "slot_gauge \<Rightarrow> bool" where
  "highPressure g \<longleftrightarrow> gauge_read g > (80 * sg_max g) div 100"

section \<open>Status client and syncer\<close>

record app_status =
  as_Name :: string
  as_NodeId :: string
  as_Uptime :: u64
  as_StartupTime :: u64
  as_Relay :: string
  as_Addr :: string
  as_GuageHeight :: u64
  as_GuageMax :: u64
  as_AppOrigin :: string
  as_Mac :: string
  as_CpuInfo :: string
  as_GpuInfo :: string
  as_MemInfo :: string
  as_ModelHash :: string
  as_AveragePower :: "32 word"
  as_Version :: string
  as_RelayProxyPort :: u64

text \<open>\<open>clt_err\<close> and \<open>rpc\<close> are the outcomes of opening the client and of the remote \<open>GetStatus\<close>.\<close>

definition GetPeerStatus ::
    "string \<Rightarrow> int \<Rightarrow> go_err option \<Rightarrow> go_err + app_status \<Rightarrow> go_err + app_peer" where
  "GetPeerStatus peerString distance clt_err rpc =
     (case clt_err of Some e \<Rightarrow> Inl (GoWrap ''failed to open a stream, err '' e)
      | None \<Rightarrow> (case rpc of Inl e \<Rightarrow> Inl e
        | Inr status \<Rightarrow> Inr \<lparr>pe_ID = peerString, pe_Name = '''', pe_Relay = '''', pe_Addr = '''',
            pe_AppOrigin = '''', pe_ModelHash = '''', pe_Mac = '''', pe_MemInfo = '''', pe_CpuInfo = '''',
            pe_Distance = distance, pe_Starup_time = as_StartupTime status, pe_Uptime = as_Uptime status,
            pe_Guage_height = as_GuageHeight status, pe_Guage_max = as_GuageMax status,
            pe_AveragePower = 0, pe_GpuInfo = '''', pe_Version = ''''\<rparr>))"

text \<open>The statuses in the order in which the goroutines append them; a failed call appends the nil
  status.\<close>

definition GetConnectedPeerStatuses :: "(go_err + app_peer) list \<Rightarrow> app_peer option list" where
  "GetConnectedPeerStatuses results = map (\<lambda>r. case r of Inl _ \<Rightarrow> None | Inr s \<Rightarrow> Some s) results"

definition initializePeerMap :: "(go_err + app_peer) list \<Rightarrow> peer_map \<Rightarrow> go_err + peer_map" where
  "initializePeerMap results m = PeerMap_Put m (GetConnectedPeerStatuses results)"

text \<open>The syncer's side of the update channel, and its lookups.\<close>

definition putToPeerMap :: "peer_map \<Rightarrow> app_peer option \<Rightarrow> go_err + peer_map" where
  "putToPeerMap m status = PeerMap_Put m [status]"

definition GetAppPeer :: "peer_map \<Rightarrow> string \<Rightarrow> app_peer option" where
  "GetAppPeer m i = PeerMap_Get m i"

definition doPublishAppStatus :: "(peer_id \<Rightarrow> string) \<Rightarrow> multiaddr list \<Rightarrow> application \<Rightarrow> app_status" where
  "doPublishAppStatus pid_String addrs a =
     (let addr = (if length addrs > 0 then addrs ! 0 else '''') in
      \<lparr>as_Name = ap_Name a, as_NodeId = pid_String (ap_PeerID a), as_Uptime = ap_Uptime a,
       as_StartupTime = ap_StartupTime a, as_Relay = '''', as_Addr = addr, as_GuageHeight = 0,
       as_GuageMax = 0, as_AppOrigin = ap_AppOrigin a, as_Mac = ap_Mac a, as_CpuInfo = ap_CpuInfo a,
       as_GpuInfo = ap_GpuInfo a, as_MemInfo = ap_MemInfo a, as_ModelHash = ap_ModelHash a,
       as_AveragePower = ap_AveragePower a, as_Version = ap_Version a, as_RelayProxyPort = 0\<rparr>)"

text \<open>The parts of \<open>go-multiaddr\<close> and \<open>net\<close> the handler calls.  \<open>ml_ForEach\<close> gives the IP
  (\<open>True\<close>) and DNS (\<open>False\<close>) components of an address in order; its argument is \<open>None\<close> for a nil
  interface value, for which the library makes no promise.\<close>

record multiaddr_lib =
  ml_NewMultiaddr :: "string \<Rightarrow> go_err + multiaddr"
  ml_IP4 :: "multiaddr \<Rightarrow> go_err + string"
  ml_ForEach :: "multiaddr option \<Rightarrow> go_err + (bool \<times> string) list"
  ml_ParseIP :: "string \<Rightarrow> string option"

text \<open>The expression \<open>(\d+)\.(\d+)\.(\d+)\.(\d+)\<close>.  A group is a maximal run of digits, since a dot or
  the end must follow it; the search is for the leftmost match.\<close>

definition digit_group :: "string \<Rightarrow> (string \<times> string) option" where
  "digit_group s = (let d = takeWhile is_digit s in if d = [] then None else Some (d, dropWhile is_digit s))"

fun dot_groups :: "nat \<Rightarrow> string \<Rightarrow> string list option" where
  "dot_groups 0 s = map_option (\<lambda>(d, _). [d]) (digit_group s)"
| "dot_groups (Suc n) s =
     (case digit_group s of
        Some (d, c # r) \<Rightarrow> if c = CHR ''.'' then map_option (Cons d) (dot_groups n r) else None
      | _ \<Rightarrow> None)"

fun ip_submatches :: "string \<Rightarrow> string list option" where
  "ip_submatches [] = None"
| "ip_submatches (c # s) = (case dot_groups 3 (c # s) of Some gs \<Rightarrow> Some gs | None \<Rightarrow> ip_submatches s)"

definition getMaskedIp :: "multiaddr_lib \<Rightarrow> string \<Rightarrow> go_err + string" where
  "getMaskedIp L maString =
     (case ml_NewMultiaddr L maString of Inl e \<Rightarrow> Inl e
      | Inr ma \<Rightarrow> (case ml_IP4 L ma of Inl e \<Rightarrow> Inl e
        | Inr addr \<Rightarrow>
            (case ip_submatches addr of
               None \<Rightarrow> Inl (GoPanic ''index out of range'')
             | Some gs \<Rightarrow> Inr (gs ! 0 @ ''.'' @ gs ! 1 @ ''.*.*''))))"

text \<open>\<open>types.ExtractHostFromMultiaddr\<close>; the walk stops once an address or a name is set.\<close>

fun host_walk :: "multiaddr_lib \<Rightarrow> (bool \<times> string) list \<Rightarrow> string option \<Rightarrow> string \<Rightarrow> string option \<times> string" where
  "host_walk L [] ip dnsHost = (ip, dnsHost)"
| "host_walk L ((is_ip, v) # cs) ip dnsHost =
     (let ip' = (if is_ip then ml_ParseIP L v else ip);
          dns' = (if is_ip then dnsHost else v)
      in if ip' = None \<and> dns' = '''' then host_walk L cs ip' dns' else (ip', dns'))"

definition ExtractHostFromMultiaddr :: "multiaddr_lib \<Rightarrow> multiaddr option \<Rightarrow> go_err + string" where
  "ExtractHostFromMultiaddr L m =
     (case ml_ForEach L m of Inl e \<Rightarrow> Inl e
      | Inr cs \<Rightarrow> (case host_walk L cs None '''' of
          (ip, dnsHost) \<Rightarrow> Inr (if dnsHost \<noteq> '''' then dnsHost else (case ip of None \<Rightarrow> '''' | Some i \<Rightarrow> i))))"

text \<open>The gossip handler.  Its result is the peer sent to the syncer and the event stream; \<open>None\<close> when
  the node identifier does not decode; \<open>Inl\<close> is a panic, which nothing recovers.\<close>

definition masked_ip_addr :: "multiaddr_lib \<Rightarrow> app_status \<Rightarrow> go_err + string" where
  "masked_ip_addr L status =
     (if as_Addr status \<noteq> ''''
      then (case getMaskedIp L (as_Addr status) of
              Inl e \<Rightarrow> if is_panic e then Inl e else Inr ''''
            | Inr a \<Rightarrow> Inr a)
      else Inr '''')"

definition status_relay_host :: "multiaddr_lib \<Rightarrow> app_status \<Rightarrow> go_err + string" where
  "status_relay_host L status =
     (if as_Relay status \<noteq> ''''
      then ExtractHostFromMultiaddr L
             (case ml_NewMultiaddr L (as_Relay status) of Inl _ \<Rightarrow> None | Inr m \<Rightarrow> Some m)
      else Inr '''')"

definition gossip_app :: "peer_id \<Rightarrow> string \<Rightarrow> string \<Rightarrow> app_status \<Rightarrow> application" where
  "gossip_app peerId ip_addr relayHost status =
     \<lparr>ap_Name = as_Name status, ap_Tag = '''', ap_Version = as_Version status, ap_PeerID = peerId,
      ap_IpAddr = ip_addr, ap_AppOrigin = as_AppOrigin status, ap_ModelHash = as_ModelHash status,
      ap_Mac = as_Mac status, ap_MemInfo = as_MemInfo status, ap_CpuInfo = as_CpuInfo status,
      ap_GpuInfo = as_GpuInfo status, ap_StartupTime = as_StartupTime status,
      ap_Uptime = as_Uptime status, ap_GuageHeight = as_GuageHeight status,
      ap_GuageMax = as_GuageMax status, ap_AveragePower = as_AveragePower status,
      ap_RelayHost = relayHost, ap_RelayProxyPort = as_RelayProxyPort status\<rparr>"

definition gossip_peer :: "int \<Rightarrow> app_status \<Rightarrow> app_peer" where
  "gossip_peer distance status =
     \<lparr>pe_ID = as_NodeId status, pe_Name = as_Name status, pe_Relay = as_Relay status,
      pe_Addr = as_Addr status, pe_AppOrigin = as_AppOrigin status, pe_ModelHash = as_ModelHash status,
      pe_Mac = as_Mac status, pe_MemInfo = as_MemInfo status, pe_CpuInfo = as_CpuInfo status,
      pe_Distance = distance, pe_Starup_time = as_StartupTime status, pe_Uptime = as_Uptime status,
      pe_Guage_height = as_GuageHeight status, pe_Guage_max = as_GuageMax status,
      pe_AveragePower = as_AveragePower status, pe_GpuInfo = as_GpuInfo status,
      pe_Version = as_Version status\<rparr>"

definition handleGossipAppStatusUpdate ::
    "multiaddr_lib \<Rightarrow> (string \<Rightarrow> go_err + peer_id) \<Rightarrow> int \<Rightarrow> app_status \<Rightarrow> event_stream \<Rightarrow>
      go_err + (app_peer option \<times> event_stream)" where
  "handleGossipAppStatusUpdate L decode distance status es =
     (case decode (as_NodeId status) of
        Inl _ \<Rightarrow> Inr (None, es)
      | Inr peerId \<Rightarrow>
          (case masked_ip_addr L status of Inl e \<Rightarrow> Inl e
           | Inr ip_addr \<Rightarrow>
               (case status_relay_host L status of Inl e \<Rightarrow> Inl e
                | Inr relayHost \<Rightarrow>
                    Inr (Some (gossip_peer distance status),
                      stream_push (AddNewApp empty_event (gossip_app peerId ip_addr relayHost status)) es))))"

section \<open>Routes of the endpoint\<close>

type_synonym 'h routes = "string \<rightharpoonup> 'h"

definition AddHandler :: "'h routes \<Rightarrow> string \<Rightarrow> 'h \<Rightarrow> 'h routes" where
  "AddHandler r url handler = r(url \<mapsto> handler)"

text \<open>The handler that serves a path; \<open>None\<close> is the 404 answer.\<close>

definition ServeHTTP :: "'h routes \<Rightarrow> string \<Rightarrow> 'h option" where
  "ServeHTTP r path = r path"

definition SetAppOrigin :: "string \<Rightarrow> application \<Rightarrow> application" where
  "SetAppOrigin appOrigin a = a\<lparr>ap_AppOrigin := appOrigin\<rparr>"

text \<open>The periodic status refresh: up-time from the clock, then a copy of the application is pushed.\<close>

definition endpoint_tick ::
    "u64 \<Rightarrow> string \<Rightarrow> string \<Rightarrow> application \<Rightarrow> event_stream \<Rightarrow> application \<times> event_stream" where
  "endpoint_tick now_milli memInfo gpuInfo a es =
     (let a' = a\<lparr>ap_Uptime := now_milli - ap_StartupTime a, ap_MemInfo := memInfo, ap_GpuInfo := gpuInfo\<rparr>
      in (a', stream_push (AddNewApp empty_event a') es))"

section \<open>Runs of a stream\<close>

text \<open>A run interleaves pushes with the reads of the subscribers; a read of an empty channel waits, so
  it is not a step.\<close>

datatype stream_op = SPush app_event | SGet nat

fun stream_run :: "stream_op list \<Rightarrow> event_stream \<Rightarrow> (nat \<times> app_event) list \<times> event_stream" where
  "stream_run [] es = ([], es)"
| "stream_run (SPush e # ops) es = stream_run ops (stream_push e es)"
| "stream_run (SGet i # ops) es =
     (case (if i < length es then GetEvent False i es else None) of
        Some (Some ev, es') \<Rightarrow> (case stream_run ops es' of (d, es'') \<Rightarrow> ((i, ev) # d, es''))
      | _ \<Rightarrow> stream_run ops es)"

fun pushes :: "stream_op list \<Rightarrow> app_event list" where
  "pushes [] = []"
| "pushes (SPush e # ops) = e # pushes ops"
| "pushes (SGet _ # ops) = pushes ops"

definition delivered :: "nat \<Rightarrow> (nat \<times> app_event) list \<Rightarrow> app_event list" where
  "delivered i d = map snd (filter (\<lambda>(j, _). j = i) d)"

text \<open>What one subscriber sees on its own: a cell that keeps the first event until it is read.\<close>

fun cell_run :: "nat \<Rightarrow> stream_op list \<Rightarrow> app_event option \<Rightarrow> app_event list \<times> app_event option" where
  "cell_run i [] c = ([], c)"
| "cell_run i (SPush e # ops) c = cell_run i ops (case c of None \<Rightarrow> Some e | Some _ \<Rightarrow> c)"
| "cell_run i (SGet j # ops) c =
     (case c of Some ev \<Rightarrow> if j = i then (case cell_run i ops None of (d, c') \<Rightarrow> (ev # d, c'))
                           else cell_run i ops c
      | None \<Rightarrow> cell_run i ops c)"

definition cell_of :: "sub_channel \<Rightarrow> app_event option" where
  "cell_of ch = (case ch_buf ch of [] \<Rightarrow> None | e # _ \<Rightarrow> Some e)"

definition stream_ok :: "event_stream \<Rightarrow> bool" where
  "stream_ok es \<longleftrightarrow> (\<forall>ch \<in> set es. length (ch_buf ch) \<le> 1)"

lemma length_stream_push [simp]: "length (stream_push e es) = length es"
  by (simp add: stream_push_def)

lemma stream_ok_nth: "stream_ok es \<Longrightarrow> i < length es \<Longrightarrow> length (ch_buf (es ! i)) \<le> 1"
  by (simp add: stream_ok_def)

lemma stream_ok_push: "stream_ok es \<Longrightarrow> stream_ok (stream_push e es)"
  by (auto simp: stream_ok_def stream_push_def send_nonblocking_def)

lemma cell_of_push:
  "i < length es \<Longrightarrow>
   cell_of (stream_push e es ! i) = (case cell_of (es ! i) of None \<Rightarrow> Some e | Some x \<Rightarrow> Some x)"
  by (auto simp: stream_push_def send_nonblocking_def cell_of_def split: list.splits)

lemma GetEvent_open:
  "GetEvent False i es = (case ch_buf (es ! i) of
     ev # rest \<Rightarrow> Some (Some ev, es[i := (es ! i)\<lparr>ch_buf := rest\<rparr>])
   | [] \<Rightarrow> if ch_closed (es ! i) then Some (None, es) else None)"
  by (simp add: GetEvent_def split: list.splits)

lemma stream_ok_get:
  assumes "stream_ok es" "i < length es" "ch_buf (es ! i) = ev # rest"
  shows "stream_ok (es[i := (es ! i)\<lparr>ch_buf := rest\<rparr>])" and "rest = []"
proof -
  have "length (ch_buf (es ! i)) \<le> 1" using assms(1,2) by (rule stream_ok_nth)
  then show "rest = []" using assms(3) by simp
  then show "stream_ok (es[i := (es ! i)\<lparr>ch_buf := rest\<rparr>])"
    using assms(1) by (auto simp: stream_ok_def dest!: set_update_subset_insert [THEN subsetD])
qed

lemma stream_run_cell:
  "stream_ok es \<Longrightarrow> i < length es \<Longrightarrow>
   cell_run i ops (cell_of (es ! i)) =
     (delivered i (fst (stream_run ops es)), cell_of (snd (stream_run ops es) ! i)) \<and>
   stream_ok (snd (stream_run ops es)) \<and> length (snd (stream_run ops es)) = length es"
proof (induction ops arbitrary: es)
  case Nil
  then show ?case by (simp add: delivered_def)
next
  case (Cons a ops)
  show ?case
  proof (cases a)
    case (SPush e)
    then show ?thesis using Cons.IH [of "stream_push e es"] Cons.prems
      by (cases "cell_of (es ! i)") (simp_all add: stream_ok_push cell_of_push)
  next
    case (SGet j)
    show ?thesis
    proof (cases "j < length es \<and> ch_buf (es ! j) \<noteq> []")
      case True
      then obtain ev rest where b: "ch_buf (es ! j) = ev # rest" "j < length es" by (auto simp: neq_Nil_conv)
      have ok: "stream_ok (es[j := (es ! j)\<lparr>ch_buf := rest\<rparr>])" and r: "rest = []"
        using stream_ok_get [OF Cons.prems(1) b(2,1)] by simp_all
      note IH = Cons.IH [OF ok]
      show ?thesis
        using IH Cons.prems b r SGet
        by (auto simp: GetEvent_open cell_of_def delivered_def nth_list_update split: prod.splits list.splits)
    next
      case False
      then have same: "stream_run (a # ops) es = stream_run ops es"
        using SGet by (auto simp: GetEvent_open split: if_splits)
      have c: "cell_run i (a # ops) (cell_of (es ! i)) = cell_run i ops (cell_of (es ! i))"
        using False SGet Cons.prems(2) by (auto simp: cell_of_def split: list.splits)
      show ?thesis unfolding same c using Cons.IH [OF Cons.prems] .
    qed
  qed
qed

lemma cell_run_subseq:
  "cell_run i ops c = (d, c') \<Longrightarrow>
   subseq (d @ (case c' of None \<Rightarrow> [] | Some e \<Rightarrow> [e])) ((case c of None \<Rightarrow> [] | Some e \<Rightarrow> [e]) @ pushes ops)"
proof (induction ops arbitrary: c d)
  case (Cons a ops)
  show ?case
  proof (cases a)
    case (SPush e)
    show ?thesis
      using Cons.IH [of "case c of None \<Rightarrow> Some e | Some _ \<Rightarrow> c" d] Cons.prems SPush
      by (cases c) (auto simp: subseq_Cons' elim: list_emb_Cons subseq_order.trans)
  next
    case (SGet j)
    show ?thesis
      using Cons.IH Cons.prems SGet by (cases c) (fastforce split: prod.splits if_splits)+
  qed
qed simp

section \<open>The best peer\<close>

lemma IsBetter_irrefl: "\<not> IsBetter p p"
  by (simp add: IsBetter_def)

lemma IsBetter_trans: "\<not> IsBetter q p \<Longrightarrow> \<not> IsBetter r q \<Longrightarrow> \<not> IsBetter r p"
  by (auto simp: IsBetter_def split: if_splits)

lemma IsBetter_asym: "IsBetter p q \<Longrightarrow> \<not> IsBetter q p"
  by (auto simp: IsBetter_def split: if_splits)

lemma better_fold:
  "foldl (better_of sk) b ps = r \<Longrightarrow>
   (r = None \<longleftrightarrow> b = None \<and> (\<forall>p \<in> set ps. sk (pe_ID p) = Some True)) \<and>
   (\<forall>q. r = Some q \<longrightarrow>
      (b = Some q \<or> q \<in> set ps \<and> sk (pe_ID q) \<noteq> Some True) \<and>
      (\<forall>p. b = Some p \<or> p \<in> set ps \<and> sk (pe_ID p) \<noteq> Some True \<longrightarrow> \<not> IsBetter p q))"
proof (induction ps arbitrary: b)
  case Nil
  then show ?case by (auto simp: IsBetter_irrefl)
next
  case (Cons p ps)
  have r: "foldl (better_of sk) (better_of sk b p) ps = r" using Cons.prems by simp
  note IH = Cons.IH [OF r]
  consider (skip) "sk (pe_ID p) = Some True" | (first) "sk (pe_ID p) \<noteq> Some True" "b = None"
    | (better) b0 where "sk (pe_ID p) \<noteq> Some True" "b = Some b0" "IsBetter p b0"
    | (worse) b0 where "sk (pe_ID p) \<noteq> Some True" "b = Some b0" "\<not> IsBetter p b0"
    by (cases b) auto
  then show ?case
  proof cases
    case skip then show ?thesis using IH by (auto simp: better_of_def)
  next
    case first then show ?thesis using IH by (auto simp: better_of_def)
  next
    case better
    then have b': "better_of sk b p = Some p" by (simp add: better_of_def)
    have "\<not> IsBetter b0 p" using better(3) by (rule IsBetter_asym)
    then show ?thesis using IH better unfolding b' by (auto dest: IsBetter_trans)
  next
    case worse
    then have b': "better_of sk b p = Some b0" by (simp add: better_of_def)
    show ?thesis using IH worse unfolding b' by (auto dest: IsBetter_trans)
  qed
qed

section \<open>Peer map and gossip handler\<close>

lemma Put_panics_iff: "(\<exists>e. PeerMap_Put m ps = Inl e) \<longleftrightarrow> None \<in> set ps"
  by (induction ps arbitrary: m) (auto split: option.splits)

lemma Put_result:
  "PeerMap_Put m ps = Inr m' \<Longrightarrow>
   m' = m ++ map_of (rev (map (\<lambda>p. (pe_ID (the p), the p)) ps))"
  by (induction ps arbitrary: m) (auto split: option.splits simp: map_add_def fun_eq_iff)

definition digit_run :: "string \<Rightarrow> bool" where
  "digit_run d \<longleftrightarrow> d \<noteq> [] \<and> (\<forall>c \<in> set d. is_digit c)"

definition dotted_quad :: "string \<Rightarrow> bool" where
  "dotted_quad s \<longleftrightarrow> (\<exists>a b c d. digit_run a \<and> digit_run b \<and> digit_run c \<and> digit_run d \<and>
     s = a @ ''.'' @ b @ ''.'' @ c @ ''.'' @ d)"

lemma dot_not_digit [simp]: "\<not> is_digit (CHR ''.'')"
  by (simp add: is_digit_def)

lemma digit_group_dot: "digit_run a \<Longrightarrow> digit_group (a @ CHR ''.'' # r) = Some (a, CHR ''.'' # r)"
  by (simp add: digit_group_def digit_run_def takeWhile_append2 dropWhile_append2 Let_def)

lemma digit_group_end: "digit_run a \<Longrightarrow> digit_group a = Some (a, [])"
  by (auto simp: digit_group_def digit_run_def takeWhile_eq_all_conv [THEN iffD2] dropWhile_eq_Nil_conv Let_def)

lemma ip_submatches_quad:
  assumes "digit_run a" "digit_run b" "digit_run c" "digit_run d"
  shows "ip_submatches (a @ ''.'' @ b @ ''.'' @ c @ ''.'' @ d) = Some [a, b, c, d]"
proof -
  have "dot_groups 3 (a @ ''.'' @ b @ ''.'' @ c @ ''.'' @ d) = Some [a, b, c, d]"
    using assms by (simp add: numeral_3_eq_3 digit_group_dot digit_group_end)
  moreover obtain x xs where "a = x # xs" using assms(1) by (cases a) (auto simp: digit_run_def)
  ultimately show ?thesis by simp
qed

lemma getMaskedIp_quad:
  "ml_NewMultiaddr L s = Inr m \<Longrightarrow> ml_IP4 L m = Inr x \<Longrightarrow> dotted_quad x \<Longrightarrow>
   \<exists>a b. getMaskedIp L s = Inr (a @ ''.'' @ b @ ''.*.*'')"
  unfolding getMaskedIp_def dotted_quad_def
  by (elim exE conjE) (simp only: sum.case ip_submatches_quad option.case nth_Cons_0 nth_Cons_Suc One_nat_def, blast)

text \<open>What the handler relies on: parsing a multiaddress and asking for a component return an error
  value rather than panic, an IPv4 component prints as a dotted quad, and \<open>ForEach\<close> walks every
  address that was parsed.\<close>

definition multiaddr_laws :: "multiaddr_lib \<Rightarrow> bool" where
  "multiaddr_laws L \<longleftrightarrow>
     (\<forall>s e. ml_NewMultiaddr L s = Inl e \<longrightarrow> \<not> is_panic e) \<and>
     (\<forall>m e. ml_IP4 L m = Inl e \<longrightarrow> \<not> is_panic e) \<and>
     (\<forall>m x. ml_IP4 L m = Inr x \<longrightarrow> dotted_quad x) \<and>
     (\<forall>m. \<exists>cs. ml_ForEach L (Some m) = Inr cs)"

lemma masked_ip_total:
  assumes "multiaddr_laws L"
  shows "\<exists>x. masked_ip_addr L st = Inr x"
proof (cases "ml_NewMultiaddr L (as_Addr st)")
  case (Inl e)
  then show ?thesis using assms by (auto simp: masked_ip_addr_def getMaskedIp_def multiaddr_laws_def)
next
  case (Inr m)
  show ?thesis
  proof (cases "ml_IP4 L m")
    case (Inl e)
    then show ?thesis using assms Inr by (auto simp: masked_ip_addr_def getMaskedIp_def multiaddr_laws_def)
  next
    case x: (Inr x)
    then have "dotted_quad x" using assms by (simp add: multiaddr_laws_def)
    from getMaskedIp_quad [OF Inr x this] show ?thesis by (auto simp: masked_ip_addr_def)
  qed
qed

lemma ForEach_total: "multiaddr_laws L \<Longrightarrow> \<exists>cs. ml_ForEach L (Some m) = Inr cs"
  by (simp add: multiaddr_laws_def)

lemma relay_host_panics_iff:
  assumes "multiaddr_laws L"
  shows "(\<exists>e. status_relay_host L st = Inl e) \<longleftrightarrow>
     as_Relay st \<noteq> '''' \<and> (\<exists>e. ml_NewMultiaddr L (as_Relay st) = Inl e) \<and> (\<exists>e. ml_ForEach L None = Inl e)"
proof (cases "ml_NewMultiaddr L (as_Relay st)")
  case (Inl e)
  then show ?thesis
    by (auto simp: status_relay_host_def ExtractHostFromMultiaddr_def split: sum.splits prod.splits)
next
  case (Inr m)
  obtain cs where "ml_ForEach L (Some m) = Inr cs" using ForEach_total [OF assms] by blast
  then show ?thesis using Inr
    by (auto simp: status_relay_host_def ExtractHostFromMultiaddr_def split: prod.splits)
qed

section \<open>Properties\<close>

text \<open>C9. The event stream delivers to each subscriber exactly what a one-event cell that ignores further
  events until it is read delivers: whatever the other subscribers do, a slow subscriber keeps the
  oldest unread event, loses the later ones, and sees a subsequence of the pushes in order.\<close>

theorem stream_is_lossy_cell:
  assumes "stream_ok es" and "i < length es"
  shows "(delivered i (fst (stream_run ops es)), cell_of (snd (stream_run ops es) ! i))
           = cell_run i ops (cell_of (es ! i)) \<and>
         subseq (delivered i (fst (stream_run ops es))) (ch_buf (es ! i) @ pushes ops)"
proof
  show c: "(delivered i (fst (stream_run ops es)), cell_of (snd (stream_run ops es) ! i))
       = cell_run i ops (cell_of (es ! i))"
    using stream_run_cell [OF assms] by simp
  have "length (ch_buf (es ! i)) \<le> 1" by (rule stream_ok_nth [OF assms])
  then have b: "(case cell_of (es ! i) of None \<Rightarrow> [] | Some e \<Rightarrow> [e]) = ch_buf (es ! i)"
    by (cases "ch_buf (es ! i)") (auto simp: cell_of_def)
  show "subseq (delivered i (fst (stream_run ops es))) (ch_buf (es ! i) @ pushes ops)"
    using cell_run_subseq [OF c [symmetric]] unfolding b
    by (rule subseq_order.trans [OF prefix_imp_subseq, rotated]) simp
qed

theorem stream_is_lossy_cell_witness:
  "let es = snd (subscribe (snd (subscribe []))); a = empty_event\<lparr>ev_Source := ''a''\<rparr>;
       b = empty_event\<lparr>ev_Source := ''b''\<rparr>
   in delivered 1 (fst (stream_run [SPush a, SPush b, SGet 0, SGet 1, SGet 1] es)) = [a]"
  using stream_is_lossy_cell [of "snd (subscribe (snd (subscribe [])))" 1
      "[SPush (empty_event\<lparr>ev_Source := ''a''\<rparr>), SPush (empty_event\<lparr>ev_Source := ''b''\<rparr>), SGet 0, SGet 1, SGet 1]"]
  by (simp add: subscribe_def stream_ok_def cell_of_def Let_def)

text \<open>\<open>BestPeer\<close> returns nothing exactly when every peer of the map is to be skipped; otherwise it
  returns a peer that is not skipped and that no other such peer beats in occupied slots, or in
  distance when the slots are equal, in whatever order the map is walked.\<close>

theorem BestPeer_optimal:
  "(case BestPeer entries skipMap of
      None \<Rightarrow> \<forall>p \<in> set entries. skipMap (pe_ID p) = Some True
    | Some q \<Rightarrow> q \<in> set entries \<and> skipMap (pe_ID q) \<noteq> Some True \<and>
        (\<forall>p \<in> set entries. skipMap (pe_ID p) \<noteq> Some True \<longrightarrow>
           pe_Guage_height q < pe_Guage_height p \<or>
           pe_Guage_height q = pe_Guage_height p \<and> pe_Distance q \<le> pe_Distance p))"
proof (cases "BestPeer entries skipMap")
  case None
  then show ?thesis using better_fold [OF refl, of skipMap None entries] by (simp add: BestPeer_def)
next
  case (Some q)
  then have q: "q \<in> set entries" "skipMap (pe_ID q) \<noteq> Some True"
    and best: "\<And>p. p \<in> set entries \<Longrightarrow> skipMap (pe_ID p) \<noteq> Some True \<Longrightarrow> \<not> IsBetter p q"
    using better_fold [OF refl, of skipMap None entries] by (auto simp: BestPeer_def)
  show ?thesis using q best unfolding Some
    by (simp add: IsBetter_def) (metis linorder_neqE not_less)
qed

theorem BestPeer_optimal_witness:
  "\<exists>q. BestPeer [(gossip_peer 5 undefined)\<lparr>pe_ID := ''a'', pe_Guage_height := 3\<rparr>,
                 (gossip_peer 4 undefined)\<lparr>pe_ID := ''b'', pe_Guage_height := 3\<rparr>] Map.empty = Some q \<and>
       pe_ID q = ''b''"
  using BestPeer_optimal [of "[(gossip_peer 5 undefined)\<lparr>pe_ID := ''a'', pe_Guage_height := 3\<rparr>,
                 (gossip_peer 4 undefined)\<lparr>pe_ID := ''b'', pe_Guage_height := 3\<rparr>]" Map.empty]
  by (simp add: BestPeer_def better_of_def IsBetter_def gossip_peer_def)

text \<open>Filling the peer map at start-up panics exactly when the status call of some connected peer
  failed, because the failed call appends a nil status instead of skipping the peer; otherwise the map
  holds the last status put for every identifier.\<close>

theorem initializePeerMap_panics_iff:
  "((\<exists>e. initializePeerMap results m = Inl e) \<longleftrightarrow> (\<exists>e. Inl e \<in> set results)) \<and>
   initializePeerMap (map Inr ps) m = Inr (m ++ map_of (rev (map (\<lambda>p. (pe_ID p, p)) ps)))"
proof
  show "(\<exists>e. initializePeerMap results m = Inl e) \<longleftrightarrow> (\<exists>e. Inl e \<in> set results)"
    unfolding initializePeerMap_def Put_panics_iff
    by (force simp: GetConnectedPeerStatuses_def split: sum.splits)
  have st: "GetConnectedPeerStatuses (map Inr ps) = map Some ps"
    by (simp add: GetConnectedPeerStatuses_def)
  have "None \<notin> set (map Some ps)" by auto
  then obtain m' where m': "PeerMap_Put m (map Some ps) = Inr m'"
    using Put_panics_iff [of m "map Some ps"] by (cases "PeerMap_Put m (map Some ps)") auto
  show "initializePeerMap (map Inr ps) m = Inr (m ++ map_of (rev (map (\<lambda>p. (pe_ID p, p)) ps)))"
    unfolding initializePeerMap_def st m' using Put_result [OF m'] by (simp add: comp_def)
qed

text \<open>With a multiaddress library that keeps its promises for parsed addresses, the gossip handler
  panics exactly on a status of a well-formed node whose relay address does not parse, when walking a
  nil multiaddress panics; every other status is pushed to the stream and sent to the syncer.\<close>

theorem gossip_status_panics_iff:
  assumes "multiaddr_laws L"
  shows "(\<exists>e. handleGossipAppStatusUpdate L decode distance status es = Inl e) \<longleftrightarrow>
     (\<exists>p. decode (as_NodeId status) = Inr p) \<and> as_Relay status \<noteq> '''' \<and>
     (\<exists>e. ml_NewMultiaddr L (as_Relay status) = Inl e) \<and> (\<exists>e. ml_ForEach L None = Inl e)"
proof -
  obtain x where x: "masked_ip_addr L status = Inr x" using masked_ip_total [OF assms] by blast
  have "(\<exists>e. handleGossipAppStatusUpdate L decode distance status es = Inl e) \<longleftrightarrow>
      (\<exists>p. decode (as_NodeId status) = Inr p) \<and> (\<exists>e. status_relay_host L status = Inl e)"
    by (auto simp: handleGossipAppStatusUpdate_def x split: sum.splits)
  then show ?thesis unfolding relay_host_panics_iff [OF assms] by blast
qed

definition nil_panics_lib :: multiaddr_lib where
  "nil_panics_lib = \<lparr>ml_NewMultiaddr = (\<lambda>s. if take 1 s = ''/'' then Inr s else Inl (GoErr ''parse'')),
     ml_IP4 = (\<lambda>_. Inr ''1.2.3.4''),
     ml_ForEach = (\<lambda>m. case m of None \<Rightarrow> Inl (GoPanic ''nil'') | Some _ \<Rightarrow> Inr []),
     ml_ParseIP = (\<lambda>_. None)\<rparr>"

definition sample_status :: app_status where
  "sample_status = doPublishAppStatus id [''/ip4/1.2.3.4/tcp/1'']
     (gossip_app ''p'' '''' ''''
       \<lparr>as_Name = ''n'', as_NodeId = ''p'', as_Uptime = 0, as_StartupTime = 0, as_Relay = '''', as_Addr = '''',
        as_GuageHeight = 0, as_GuageMax = 0, as_AppOrigin = '''', as_Mac = '''', as_CpuInfo = '''',
        as_GpuInfo = '''', as_MemInfo = '''', as_ModelHash = '''', as_AveragePower = 0, as_Version = '''',
        as_RelayProxyPort = 0\<rparr>)"

lemma nil_panics_lib_laws: "multiaddr_laws nil_panics_lib"
proof -
  have "digit_run ''1'' \<and> digit_run ''2'' \<and> digit_run ''3'' \<and> digit_run ''4''"
    by (simp add: digit_run_def is_digit_def)
  moreover have "''1.2.3.4'' = ''1'' @ ''.'' @ ''2'' @ ''.'' @ ''3'' @ ''.'' @ ''4''" by simp
  ultimately have "dotted_quad ''1.2.3.4''" unfolding dotted_quad_def by blast
  then show ?thesis by (simp add: multiaddr_laws_def nil_panics_lib_def)
qed

theorem gossip_status_panics_iff_witness:
  "\<exists>e. handleGossipAppStatusUpdate nil_panics_lib Inr 0 (sample_status\<lparr>as_Relay := ''relay''\<rparr>) [] = Inl e"
  using gossip_status_panics_iff [OF nil_panics_lib_laws, of Inr 0 "sample_status\<lparr>as_Relay := ''relay''\<rparr>" "[]"]
  by (simp add: nil_panics_lib_def)

end
