(* ===== verification/Node_Filters.thy ===== *)
theory Node_Filters
  imports Go_Heap Applications
begin

text \<open>
  The node filters of the JSON-RPC server: \<open>core/jsonrpc/web3/node_filter_manager.go\<close> and
  \<open>node_query.go\<close>.  Filters are objects reached both from the map \<open>filters\<close> and from the slice
  \<open>timeouts\<close>, a heap by expiry time that stores each filter's position in it, so they live in an
  explicit store.  \<open>th_if\<close> is the \<open>heap.Interface\<close> of \<open>timeHeapImpl\<close>, the second interpretation
  of \<open>index_heap\<close>.  \<open>fm_step\<close> interleaves the worker of \<open>Run\<close> with the callers; identifiers of new
  filters, the clock, the iteration order of the map and the results of socket writes are inputs.
\<close>

section \<open>Queries\<close>

record node_query =
  nq_Name :: string
  nq_Tag :: string
  nq_Id :: string
  nq_Version :: string

text \<open>Decoding into a pointer: the JSON value null makes the query nil, \<open>None\<close>.\<close>

definition DecodeNodeQueryFromInterface ::
    "('i \<Rightarrow> go_err + 'raw) \<Rightarrow> ('raw \<Rightarrow> go_err + node_query option) \<Rightarrow> 'i \<Rightarrow>
      go_err + node_query option" where
  "DecodeNodeQueryFromInterface json_Marshal json_Unmarshal i =
     (case json_Marshal i of Inl e \<Rightarrow> Inl e
      | Inr raw \<Rightarrow> (case json_Unmarshal raw of Inl e \<Rightarrow> Inl e | Inr query \<Rightarrow> Inr query))"

definition query_Match :: "(peer_id \<Rightarrow> string) \<Rightarrow> node_query \<Rightarrow> application \<Rightarrow> bool" where
  "query_Match pid_String q rm =
     (if nq_Tag q \<noteq> '''' \<and> nq_Tag q \<noteq> ap_Tag rm then False
      else if nq_Name q \<noteq> '''' \<and> ap_Name rm \<noteq> nq_Name q then False
      else if nq_Id q \<noteq> '''' \<and> pid_String (ap_PeerID rm) \<noteq> nq_Id q then False
      else if nq_Version q \<noteq> '''' \<and> ap_Version rm \<noteq> nq_Version q then False
      else True)"

text \<open>The method call on a query that may be nil; reading a field of a nil query is a panic, recorded by
  the caller.\<close>

definition opt_Match :: "(peer_id \<Rightarrow> string) \<Rightarrow> node_query option \<Rightarrow> application \<Rightarrow> bool" where
  "opt_Match pid_String q rm = (case q of None \<Rightarrow> False | Some q' \<Rightarrow> query_Match pid_String q' rm)"

section \<open>Filters and the manager\<close>

type_synonym ws_conn = nat  \<comment> \<open>a web socket connection, by identity\<close>

record node_filter =
  nf_id :: string
  nf_heapIndex :: int
  nf_expiresAt :: int
  nf_ws :: "ws_conn option"
  nf_query :: "node_query option"
  nf_msgs :: "application list"

text \<open>Where the goroutine of \<open>Run\<close> stands: at the top of the loop, after \<open>nextTimeoutFilter\<close> but not
  yet waiting, waiting in the \<open>select\<close>, handling a case of it, or returned.  The \<open>int option\<close> is the
  deadline of the live timer in \<open>timeoutCh\<close>, which outlives an iteration.\<close>

datatype worker =
    WTop "int option"
  | WArmed string "int option"
  | WSelect string "int option"
  | WBusy "int option"
  | WStopped

text \<open>\<open>fm_wsID\<close> is the filter identifier each connection remembers, \<open>fm_written\<close> the frames written
  to sockets, \<open>fm_pending\<close> the filters whose \<open>GetFilterChanges\<close> has released the read lock but not
  yet taken the write lock.  \<open>fm_crashed\<close> records a panic in the goroutine of \<open>Run\<close>, which ends the
  process: the event that panics is left at once, and no step follows it.\<close>

record nfm =
  fm_store :: "nat \<Rightarrow> node_filter"
  fm_next :: nat
  fm_filters :: "string \<rightharpoonup> nat"
  fm_timeouts :: "nat list"
  fm_timeout :: int
  fm_now :: int
  fm_closed :: bool
  fm_worker :: worker
  fm_wsID :: "ws_conn \<Rightarrow> string"
  fm_written :: "(ws_conn \<times> string) list"
  fm_pending :: "nat list"
  fm_crashed :: bool

definition NoIndexInHeap :: int where "NoIndexInHeap = -1"

definition ErrFilterNotFound :: go_err where "ErrFilterNotFound = GoErr ''filter not found''"
definition ErrWSFilterDoesNotSupportGetChanges :: go_err where
  "ErrWSFilterDoesNotSupportGetChanges =
     GoErr ''web socket Filter doesn't support to return a batch of the changes''"
definition ErrNoWSConnection :: go_err where "ErrNoWSConnection = GoErr ''no websocket connection''"

definition newNodeFilterBase :: "string \<Rightarrow> ws_conn option \<Rightarrow> node_query option \<Rightarrow> node_filter" where
  "newNodeFilterBase uuid ws query = \<lparr>nf_id = uuid, nf_heapIndex = NoIndexInHeap, nf_expiresAt = 0,
     nf_ws = ws, nf_query = query, nf_msgs = []\<rparr>"

definition zero_filter :: node_filter where
  "zero_filter = newNodeFilterBase '''' None (Some \<lparr>nq_Name = '''', nq_Tag = '''', nq_Id = '''', nq_Version = ''''\<rparr>)"

definition NewNodeFilterManager :: "int \<Rightarrow> nfm" where
  "NewNodeFilterManager timeout = \<lparr>fm_store = (\<lambda>_. zero_filter), fm_next = 0, fm_filters = Map.empty,
     fm_timeouts = [], fm_timeout = timeout, fm_now = 0, fm_closed = False, fm_worker = WTop None,
     fm_wsID = (\<lambda>_. ''''), fm_written = [], fm_pending = [], fm_crashed = False\<rparr>"

definition filter_at :: "nfm \<Rightarrow> nat \<Rightarrow> (node_filter \<Rightarrow> node_filter) \<Rightarrow> nfm" where
  "filter_at s a f = s\<lparr>fm_store := (fm_store s)(a := f (fm_store s a))\<rparr>"

definition hasWSConn :: "node_filter \<Rightarrow> bool" where
  "hasWSConn f \<longleftrightarrow> nf_ws f \<noteq> None"

section \<open>The methods of timeHeapImpl\<close>

definition set_heapIndex :: "nfm \<Rightarrow> nat \<Rightarrow> int \<Rightarrow> nfm" where
  "set_heapIndex s a i = filter_at s a (\<lambda>f. f\<lparr>nf_heapIndex := i\<rparr>)"

definition th_Len :: "nfm \<Rightarrow> nat" where "th_Len s = length (fm_timeouts s)"

definition th_Less :: "nfm \<Rightarrow> nat \<Rightarrow> nat \<Rightarrow> bool" where
  "th_Less s i j \<longleftrightarrow>
     nf_expiresAt (fm_store s (fm_timeouts s ! i)) < nf_expiresAt (fm_store s (fm_timeouts s ! j))"

definition th_Swap :: "nfm \<Rightarrow> nat \<Rightarrow> nat \<Rightarrow> nfm" where
  "th_Swap s i j = (let t = swap_list (fm_timeouts s) i j; s1 = s\<lparr>fm_timeouts := t\<rparr>;
     s2 = set_heapIndex s1 (t ! i) (int i) in set_heapIndex s2 (t ! j) (int j))"

definition th_Push :: "nfm \<Rightarrow> nat \<Rightarrow> nfm" where
  "th_Push s x = (let n = length (fm_timeouts s); s1 = set_heapIndex s x (int n)
     in s1\<lparr>fm_timeouts := fm_timeouts s1 @ [x]\<rparr>)"

definition th_Pop :: "nfm \<Rightarrow> nat \<times> nfm" where
  "th_Pop s = (let old = fm_timeouts s; n = length old; item = old ! (n - 1);
     s1 = set_heapIndex s item (-1) in (item, s1\<lparr>fm_timeouts := take (n - 1) old\<rparr>))"

definition th_if :: "(nfm, nat) heap_if" where
  "th_if = \<lparr>if_Len = th_Len, if_Less = th_Less, if_Swap = th_Swap, if_Push = th_Push, if_Pop = th_Pop\<rparr>"

definition th_addFilter :: "nfm \<Rightarrow> nat \<Rightarrow> nfm" where
  "th_addFilter s a = heap_Push th_if s a"

definition th_removeFilter :: "nfm \<Rightarrow> nat \<Rightarrow> bool \<times> nfm" where
  "th_removeFilter s a = (if nf_heapIndex (fm_store s a) = NoIndexInHeap then (False, s)
     else (True, snd (heap_Remove th_if s (nat (nf_heapIndex (fm_store s a))))))"

section \<open>Operations of the manager\<close>

text \<open>\<open>updateCh\<close> is unbuffered: the signal is received only by a worker that waits in its
  \<open>select\<close>, which it sends back to the top of the loop; otherwise it is dropped.\<close>

definition emitSignalToUpdateCh :: "nfm \<Rightarrow> nfm" where
  "emitSignalToUpdateCh s = (case fm_worker s of WSelect _ tmr \<Rightarrow> s\<lparr>fm_worker := WTop tmr\<rparr> | _ \<Rightarrow> s)"

definition fm_Exists :: "nfm \<Rightarrow> string \<Rightarrow> bool" where
  "fm_Exists s i \<longleftrightarrow> fm_filters s i \<noteq> None"

definition removeFilterByID :: "nfm \<Rightarrow> string \<Rightarrow> bool \<times> nfm" where
  "removeFilterByID s i =
     (case fm_filters s i of
        None \<Rightarrow> (False, s)
      | Some a \<Rightarrow>
          (let s1 = s\<lparr>fm_filters := (fm_filters s)(i := None)\<rparr>
           in case th_removeFilter s1 a of
                (removed, s2) \<Rightarrow> (True, if removed then emitSignalToUpdateCh s2 else s2)))"

definition Uninstall :: "nfm \<Rightarrow> string \<Rightarrow> bool \<times> nfm" where
  "Uninstall s i = removeFilterByID s i"

definition RemoveFilterByWs :: "nfm \<Rightarrow> ws_conn \<Rightarrow> nfm" where
  "RemoveFilterByWs s ws = snd (removeFilterByID s (fm_wsID s ws))"

definition addFilterTimeout :: "nfm \<Rightarrow> nat \<Rightarrow> nfm" where
  "addFilterTimeout s a =
     (let s1 = filter_at s a (\<lambda>f. f\<lparr>nf_expiresAt := fm_now s + fm_timeout s\<rparr>)
      in emitSignalToUpdateCh (th_addFilter s1 a))"

definition refreshFilterTimeout :: "nfm \<Rightarrow> nat \<Rightarrow> nfm" where
  "refreshFilterTimeout s a = addFilterTimeout (snd (th_removeFilter s a)) a"

definition addFilter :: "nfm \<Rightarrow> nat \<Rightarrow> string \<times> nfm" where
  "addFilter s a =
     (let base = fm_store s a; s1 = s\<lparr>fm_filters := (fm_filters s)(nf_id base \<mapsto> a)\<rparr>
      in (nf_id base, if \<not> hasWSConn base then addFilterTimeout s1 a else s1))"

definition NewNodeFilter :: "nfm \<Rightarrow> string \<Rightarrow> node_query option \<Rightarrow> ws_conn option \<Rightarrow> string \<times> nfm" where
  "NewNodeFilter s uuid nodeQuery ws =
     (let a = fm_next s;
          s1 = s\<lparr>fm_store := (fm_store s)(a := newNodeFilterBase uuid ws nodeQuery), fm_next := Suc a\<rparr>;
          s2 = (case ws of None \<Rightarrow> s1 | Some w \<Rightarrow> s1\<lparr>fm_wsID := (fm_wsID s1)(w := uuid)\<rparr>)
      in addFilter s2 a)"

definition takeNodeMsgUpdates :: "nfm \<Rightarrow> nat \<Rightarrow> application list \<times> nfm" where
  "takeNodeMsgUpdates s a = (nf_msgs (fm_store s a), filter_at s a (\<lambda>f. f\<lparr>nf_msgs := []\<rparr>))"

text \<open>\<open>GetFilterChanges\<close> in its two critical sections; \<open>GetFilterChanges\<close> itself runs them back to
  back.\<close>

definition getFilterAndChanges :: "nfm \<Rightarrow> string \<Rightarrow> (go_err + nat \<times> application list) \<times> nfm" where
  "getFilterAndChanges s i =
     (case fm_filters s i of
        None \<Rightarrow> (Inl ErrFilterNotFound, s)
      | Some a \<Rightarrow> if hasWSConn (fm_store s a) then (Inl ErrWSFilterDoesNotSupportGetChanges, s)
          else (case takeNodeMsgUpdates s a of (res, s1) \<Rightarrow> (Inr (a, res), s1)))"

definition GetFilterChanges :: "nfm \<Rightarrow> string \<Rightarrow> (go_err + application list) \<times> nfm" where
  "GetFilterChanges s i =
     (case getFilterAndChanges s i of
        (Inl e, s1) \<Rightarrow> (Inl e, s1)
      | (Inr (a, res), s1) \<Rightarrow>
          (Inr res, if \<not> hasWSConn (fm_store s1 a) then refreshFilterTimeout s1 a else s1))"

definition nextTimeoutFilter :: "nfm \<Rightarrow> string \<times> int" where
  "nextTimeoutFilter s = (if fm_timeouts s = [] then ('''', 0)
     else let base = fm_store s (fm_timeouts s ! 0) in (nf_id base, nf_expiresAt base))"

section \<open>Events\<close>

definition appendLog :: "nfm \<Rightarrow> nat \<Rightarrow> application \<Rightarrow> nfm" where
  "appendLog s a msg = filter_at s a (\<lambda>f. f\<lparr>nf_msgs := nf_msgs f @ [msg]\<rparr>)"

text \<open>The loop body of \<open>appendNodeLogToFilters\<close>; \<open>order\<close> is the order in which the map is walked.  The
  first filter with a nil query panics in \<open>Match\<close>: nothing recovers, so neither the filters after it,
  nor the applications after this one, nor the flush are reached.\<close>

definition offer_msg :: "(peer_id \<Rightarrow> string) \<Rightarrow> application \<Rightarrow> nfm \<Rightarrow> string \<Rightarrow> nfm" where
  "offer_msg pid_String msg s i =
     (if fm_crashed s then s
      else case fm_filters s i of None \<Rightarrow> s
      | Some a \<Rightarrow> (case nf_query (fm_store s a) of
            None \<Rightarrow> s\<lparr>fm_crashed := True\<rparr>
          | Some query \<Rightarrow> if query_Match pid_String query msg then appendLog s a (app_Copy msg) else s))"

definition appendNodeLogToFilters ::
    "(peer_id \<Rightarrow> string) \<Rightarrow> string list \<Rightarrow> nfm \<Rightarrow> application \<Rightarrow> nfm" where
  "appendNodeLogToFilters pid_String order s msg = foldl (offer_msg pid_String msg) s order"

fun processEvent :: "(peer_id \<Rightarrow> string) \<Rightarrow> (nat \<Rightarrow> string list) \<Rightarrow> nfm \<Rightarrow> application list \<Rightarrow> nfm" where
  "processEvent pid_String orders s [] = s"
| "processEvent pid_String orders s (newMsg # ms) =
     processEvent pid_String (\<lambda>k. orders (Suc k))
       (appendNodeLogToFilters pid_String (orders 0) s newMsg) ms"

definition nl_tab :: "nat \<Rightarrow> string" where "nl_tab n = CHR 0x0A # replicate n (CHR 0x09)"
definition quoted :: "string \<Rightarrow> string" where "quoted s = CHR 0x22 # s @ [CHR 0x22]"

definition edgeSubscriptionTemplate :: "string \<Rightarrow> string \<Rightarrow> string" where
  "edgeSubscriptionTemplate i msg =
     ''{'' @ nl_tab 1 @ quoted ''jsonrpc'' @ '': '' @ quoted ''2.0'' @ '','' @ nl_tab 1 @
     quoted ''method'' @ '': '' @ quoted ''edge_subscription'' @ '','' @ nl_tab 1 @
     quoted ''params'' @ '': {'' @ nl_tab 2 @ quoted ''subscription'' @ '':'' @ quoted i @ '','' @ nl_tab 2 @
     quoted ''result'' @ '': '' @ msg @ nl_tab 1 @ ''}'' @ nl_tab 0 @ ''}''"

text \<open>What the sockets and the JSON encoder do during one flush: the encoding of an application, and
  the outcome of the \<open>k\<close>-th write for a filter.\<close>

record flush_env =
  fe_Marshal :: "application \<Rightarrow> go_err + string"
  fe_Write :: "string \<Rightarrow> nat \<Rightarrow> go_err option"

definition writeMessageToWs :: "flush_env \<Rightarrow> nat \<Rightarrow> nfm \<Rightarrow> nat \<Rightarrow> string \<Rightarrow> go_err option \<times> nfm" where
  "writeMessageToWs E k s a msg =
     (case nf_ws (fm_store s a) of
        None \<Rightarrow> (Some ErrNoWSConnection, s)
      | Some w \<Rightarrow> (case fe_Write E (nf_id (fm_store s a)) k of
          Some e \<Rightarrow> (Some e, s)
        | None \<Rightarrow> (None, s\<lparr>fm_written := fm_written s @
            [(w, edgeSubscriptionTemplate (nf_id (fm_store s a)) msg)]\<rparr>)))"

fun send_msgs :: "flush_env \<Rightarrow> nat \<Rightarrow> nfm \<Rightarrow> nat \<Rightarrow> application list \<Rightarrow> go_err option \<times> nfm" where
  "send_msgs E k s a [] = (None, s)"
| "send_msgs E k s a (msg # ms) =
     (case fe_Marshal E msg of
        Inl e \<Rightarrow> (Some e, s)
      | Inr res \<Rightarrow> (case writeMessageToWs E k s a res of
          (Some e, s1) \<Rightarrow> (Some e, s1)
        | (None, s1) \<Rightarrow> send_msgs E (Suc k) s1 a ms))"

definition sendUpdates :: "flush_env \<Rightarrow> nfm \<Rightarrow> nat \<Rightarrow> go_err option \<times> nfm" where
  "sendUpdates E s a = (case takeNodeMsgUpdates s a of (updates, s1) \<Rightarrow> send_msgs E 0 s1 a updates)"

fun errors_Is :: "go_err \<Rightarrow> go_err \<Rightarrow> bool" where
  "errors_Is (GoWrap m e) target = (GoWrap m e = target \<or> errors_Is e target)"
| "errors_Is e target = (e = target)"

definition websocket_ErrCloseSent :: go_err where "websocket_ErrCloseSent = GoErr ''websocket: close sent''"
definition net_ErrClosed :: go_err where "net_ErrClosed = GoErr ''use of closed network connection''"

fun flush_loop :: "flush_env \<Rightarrow> nfm \<Rightarrow> string list \<Rightarrow> string list \<times> nfm" where
  "flush_loop E s [] = ([], s)"
| "flush_loop E s (i # is) =
     (case fm_filters s i of None \<Rightarrow> flush_loop E s is
      | Some a \<Rightarrow>
          if \<not> hasWSConn (fm_store s a) then flush_loop E s is
          else (case sendUpdates E s a of
              (None, s1) \<Rightarrow> flush_loop E s1 is
            | (Some e, s1) \<Rightarrow>
                (case flush_loop E s1 is of (closedFilterIDs, s2) \<Rightarrow>
                   (if errors_Is e websocket_ErrCloseSent \<or> errors_Is e net_ErrClosed
                    then i # closedFilterIDs else closedFilterIDs, s2))))"

definition flushWsFilters :: "flush_env \<Rightarrow> string list \<Rightarrow> nfm \<Rightarrow> nfm" where
  "flushWsFilters E order s =
     (case flush_loop E s order of (closedFilterIDs, s1) \<Rightarrow>
        foldl (\<lambda>s i. snd (removeFilterByID s i)) s1 closedFilterIDs)"

definition dispatchEvent ::
    "(peer_id \<Rightarrow> string) \<Rightarrow> (nat \<Rightarrow> string list) \<Rightarrow> string list \<Rightarrow> flush_env \<Rightarrow> nfm \<Rightarrow> app_event \<Rightarrow> nfm" where
  "dispatchEvent pid_String orders order E s evnt =
     (let s1 = processEvent pid_String orders s (ev_NewApp evnt)
      in if fm_crashed s1 then s1 else flushWsFilters E order s1)"

section \<open>The worker and its callers\<close>

definition timer_fired :: "nfm \<Rightarrow> int option \<Rightarrow> bool" where
  "timer_fired s tmr \<longleftrightarrow> (case tmr of None \<Rightarrow> False | Some t \<Rightarrow> t \<le> fm_now s)"

text \<open>The loop of \<open>Run\<close>.  The worker is busy while it handles a case, so that signals of its own calls
  are dropped.\<close>

definition run_next :: "nfm \<Rightarrow> int option \<Rightarrow> nfm" where
  "run_next s tmr = (case nextTimeoutFilter s of (filterID, filterExpiresAt) \<Rightarrow>
     s\<lparr>fm_worker := WArmed filterID (if filterID \<noteq> '''' then Some filterExpiresAt else tmr)\<rparr>)"

definition run_timeout :: "nfm \<Rightarrow> string \<Rightarrow> nfm" where
  "run_timeout s filterID = snd (Uninstall (s\<lparr>fm_worker := WBusy None\<rparr>) filterID)\<lparr>fm_worker := WTop None\<rparr>"

definition run_event ::
    "(peer_id \<Rightarrow> string) \<Rightarrow> (nat \<Rightarrow> string list) \<Rightarrow> string list \<Rightarrow> flush_env \<Rightarrow> nfm \<Rightarrow> int option \<Rightarrow>
     app_event \<Rightarrow> nfm" where
  "run_event pid_String orders order E s tmr evnt =
     dispatchEvent pid_String orders order E (s\<lparr>fm_worker := WBusy tmr\<rparr>) evnt\<lparr>fm_worker := WTop tmr\<rparr>"

definition fm_Close :: "nfm \<Rightarrow> go_err + nfm" where
  "fm_Close s = (if fm_closed s then Inl (GoPanic ''close of closed channel'') else Inr (s\<lparr>fm_closed := True\<rparr>))"

text \<open>One atomic action of the worker or of a caller.  An event is one action: appending holds the read
  lock, and reads of other filters in between commute with it.\<close>

inductive fm_step :: "(peer_id \<Rightarrow> string) \<Rightarrow> nfm \<Rightarrow> nfm \<Rightarrow> bool" for pid_String where
  st_tick: "fm_now s \<le> t \<Longrightarrow> fm_step pid_String s (s\<lparr>fm_now := t\<rparr>)"
| st_new: "uuid \<noteq> '''' \<Longrightarrow> \<forall>a < fm_next s. nf_id (fm_store s a) \<noteq> uuid \<Longrightarrow>
    fm_step pid_String s (snd (NewNodeFilter s uuid q ws))"
| st_get: "getFilterAndChanges s i = (Inr (a, res), s1) \<Longrightarrow>
    fm_step pid_String s (s1\<lparr>fm_pending := a # fm_pending s1\<rparr>)"
| st_refresh: "a \<in> set (fm_pending s) \<Longrightarrow>
    fm_step pid_String s (refreshFilterTimeout (s\<lparr>fm_pending := remove1 a (fm_pending s)\<rparr>) a)"
| st_uninstall: "fm_step pid_String s (snd (Uninstall s i))"
| st_remove_ws: "fm_step pid_String s (RemoveFilterByWs s w)"
| st_close: "fm_Close s = Inr s' \<Longrightarrow> fm_step pid_String s s'"
| st_next: "fm_worker s = WTop tmr \<Longrightarrow> fm_step pid_String s (run_next s tmr)"
| st_wait: "fm_worker s = WArmed i tmr \<Longrightarrow> fm_step pid_String s (s\<lparr>fm_worker := WSelect i tmr\<rparr>)"
| st_timeout: "fm_worker s = WSelect i tmr \<Longrightarrow> timer_fired s tmr \<Longrightarrow> fm_step pid_String s (run_timeout s i)"
| st_event: "fm_worker s = WSelect i tmr \<Longrightarrow> distinct order \<Longrightarrow> set order = dom (fm_filters s) \<Longrightarrow>
    (\<And>k. distinct (orders k) \<and> set (orders k) = dom (fm_filters s)) \<Longrightarrow>
    fm_step pid_String s (run_event pid_String orders order E s tmr evnt)"
| st_stop: "fm_worker s = WSelect i tmr \<Longrightarrow> fm_closed s \<Longrightarrow> fm_step pid_String s (s\<lparr>fm_worker := WStopped\<rparr>)"

inductive fm_reach :: "(peer_id \<Rightarrow> string) \<Rightarrow> int \<Rightarrow> nfm \<Rightarrow> bool" for pid_String timeout where
  fr_init: "fm_reach pid_String timeout (NewNodeFilterManager timeout)"
| fr_step: "fm_reach pid_String timeout s \<Longrightarrow> \<not> fm_crashed s \<Longrightarrow> fm_step pid_String s s' \<Longrightarrow>
    fm_reach pid_String timeout s'"

section \<open>The timeout heap\<close>

definition th_key :: "nfm \<Rightarrow> nat \<Rightarrow> int" where "th_key s a = nf_expiresAt (fm_store s a)"
definition th_idx :: "nfm \<Rightarrow> nat \<Rightarrow> int" where "th_idx s a = nf_heapIndex (fm_store s a)"

text \<open>Everything but the slice and the stored positions.\<close>

definition th_rest :: "nfm \<Rightarrow> nfm" where
  "th_rest s = s\<lparr>fm_timeouts := [], fm_store := (\<lambda>a. (fm_store s a)\<lparr>nf_heapIndex := 0\<rparr>)\<rparr>"

lemma set_heapIndex_simps [simp]:
  "fm_timeouts (set_heapIndex s a i) = fm_timeouts s"
  "th_key (set_heapIndex s a i) = th_key s"
  "th_idx (set_heapIndex s a i) = (th_idx s)(a := i)"
  "th_rest (set_heapIndex s a i) = th_rest s"
  by (auto simp: set_heapIndex_def filter_at_def th_key_def th_idx_def th_rest_def fun_eq_iff)

lemma set_timeouts_simps [simp]:
  "th_key (s\<lparr>fm_timeouts := t\<rparr>) = th_key s" "th_idx (s\<lparr>fm_timeouts := t\<rparr>) = th_idx s"
  "th_rest (s\<lparr>fm_timeouts := t\<rparr>) = th_rest s"
  by (auto simp: th_key_def th_idx_def th_rest_def fun_eq_iff)

lemmas th_impl_defs = th_if_def th_Len_def th_Less_def th_Swap_def th_Push_def th_Pop_def Let_def

interpretation thh: index_heap th_if fm_timeouts th_key th_idx th_rest
proof unfold_locales
  fix h and i j x :: nat
  show "if_Len th_if h = length (fm_timeouts h)" by (simp add: th_impl_defs)
  show "fm_timeouts (if_Push th_if h x) = fm_timeouts h @ [x]"
    and "th_idx (if_Push th_if h x) = (th_idx h)(x := int (length (fm_timeouts h)))"
    and "th_key (if_Push th_if h x) = th_key h" and "th_rest (if_Push th_if h x) = th_rest h"
    by (simp_all add: th_impl_defs)
  show "if_Less th_if h i j \<longleftrightarrow> th_key h (fm_timeouts h ! i) < th_key h (fm_timeouts h ! j)"
    by (simp add: th_impl_defs th_key_def)
  show "fm_timeouts (if_Swap th_if h i j) = swap_list (fm_timeouts h) i j"
    and "th_key (if_Swap th_if h i j) = th_key h" and "th_rest (if_Swap th_if h i j) = th_rest h"
    by (simp_all add: th_impl_defs)
  show "th_idx (if_Swap th_if h i j) = (th_idx h)(fm_timeouts h ! j := int i, fm_timeouts h ! i := int j)"
    if "i < length (fm_timeouts h)" "j < length (fm_timeouts h)"
    using that by (auto simp: th_impl_defs fun_eq_iff nth_swap_list)
  assume "fm_timeouts h \<noteq> []"
  then show "fst (if_Pop th_if h) = last (fm_timeouts h)"
    and "fm_timeouts (snd (if_Pop th_if h)) = butlast (fm_timeouts h)"
    and "th_idx (snd (if_Pop th_if h)) = (th_idx h)(last (fm_timeouts h) := -1)"
    and "th_key (snd (if_Pop th_if h)) = th_key h" and "th_rest (snd (if_Pop th_if h)) = th_rest h"
    by (simp_all add: th_impl_defs last_conv_nth butlast_conv_take)
qed

lemma th_restD:
  assumes "th_rest s' = th_rest s"
  shows "fm_next s' = fm_next s" "fm_filters s' = fm_filters s" "fm_timeout s' = fm_timeout s"
    "fm_now s' = fm_now s" "fm_closed s' = fm_closed s" "fm_worker s' = fm_worker s"
    "fm_wsID s' = fm_wsID s" "fm_written s' = fm_written s" "fm_pending s' = fm_pending s"
    "nf_id (fm_store s' a) = nf_id (fm_store s a)" "nf_ws (fm_store s' a) = nf_ws (fm_store s a)"
    "nf_query (fm_store s' a) = nf_query (fm_store s a)" "nf_msgs (fm_store s' a) = nf_msgs (fm_store s a)"
    "th_key s' a = th_key s a"
proof -
  have st: "(fm_store s' a)\<lparr>nf_heapIndex := 0\<rparr> = (fm_store s a)\<lparr>nf_heapIndex := 0\<rparr>"
    using fun_cong [OF arg_cong [OF assms, of fm_store], of a] by (simp add: th_rest_def)
  show "fm_next s' = fm_next s" "fm_filters s' = fm_filters s" "fm_timeout s' = fm_timeout s"
    "fm_now s' = fm_now s" "fm_closed s' = fm_closed s" "fm_worker s' = fm_worker s"
    "fm_wsID s' = fm_wsID s" "fm_written s' = fm_written s" "fm_pending s' = fm_pending s"
    using arg_cong [OF assms, of fm_next] arg_cong [OF assms, of fm_filters] arg_cong [OF assms, of fm_timeout]
      arg_cong [OF assms, of fm_now] arg_cong [OF assms, of fm_closed] arg_cong [OF assms, of fm_worker]
      arg_cong [OF assms, of fm_wsID] arg_cong [OF assms, of fm_written] arg_cong [OF assms, of fm_pending]
    by (simp_all add: th_rest_def)
  show "nf_id (fm_store s' a) = nf_id (fm_store s a)" "nf_ws (fm_store s' a) = nf_ws (fm_store s a)"
    "nf_query (fm_store s' a) = nf_query (fm_store s a)" "nf_msgs (fm_store s' a) = nf_msgs (fm_store s a)"
    "th_key s' a = th_key s a"
    using arg_cong [OF st, of nf_id] arg_cong [OF st, of nf_ws] arg_cong [OF st, of nf_query]
      arg_cong [OF st, of nf_msgs] arg_cong [OF st, of nf_expiresAt] by (simp_all add: th_key_def)
qed

text \<open>The slice holds distinct allocated filters in heap order with their positions; every other
  allocated filter has index \<open>-1\<close>.\<close>

definition th_ok :: "nfm \<Rightarrow> bool" where
  "th_ok s \<longleftrightarrow> thh.good s \<and> (\<forall>a \<in> set (fm_timeouts s). a < fm_next s) \<and>
     (\<forall>a < fm_next s. a \<notin> set (fm_timeouts s) \<longrightarrow> th_idx s a = -1)"

lemma th_ok_cong:
  assumes "th_ok s" "fm_timeouts s' = fm_timeouts s" "fm_next s' = fm_next s" "th_idx s' = th_idx s"
    "\<And>a. a \<in> set (fm_timeouts s) \<Longrightarrow> th_key s' a = th_key s a"
  shows "th_ok s'"
proof -
  have "heap_ok (th_key s) (fm_timeouts s) (length (fm_timeouts s))"
    using assms(1) by (simp add: th_ok_def thh.good_def)
  then have "heap_ok (th_key s') (fm_timeouts s) (length (fm_timeouts s))"
    using assms(5) parent_less by (auto simp: heap_ok_def)
  then show ?thesis using assms(1-4) by (simp add: th_ok_def thh.good_def thh.coherent_def)
qed

lemma th_ok_index:
  assumes "th_ok s" "a < fm_next s"
  shows "th_idx s a = -1 \<longleftrightarrow> a \<notin> set (fm_timeouts s)"
    and "a \<in> set (fm_timeouts s) \<Longrightarrow> nat (th_idx s a) < length (fm_timeouts s)"
    and "a \<in> set (fm_timeouts s) \<Longrightarrow> fm_timeouts s ! nat (th_idx s a) = a"
proof -
  have pos: "th_idx s (fm_timeouts s ! i) = int i" if "i < length (fm_timeouts s)" for i
    using assms(1) that by (simp add: th_ok_def thh.good_def thh.coherent_def)
  have at: "nat (th_idx s a) < length (fm_timeouts s) \<and> fm_timeouts s ! nat (th_idx s a) = a \<and> th_idx s a \<noteq> -1"
    if "a \<in> set (fm_timeouts s)"
    using that pos by (fastforce simp: in_set_conv_nth)
  have "th_idx s a = -1" if "a \<notin> set (fm_timeouts s)" using assms that by (simp add: th_ok_def)
  with at show "th_idx s a = -1 \<longleftrightarrow> a \<notin> set (fm_timeouts s)" by blast
  from at show "a \<in> set (fm_timeouts s) \<Longrightarrow> nat (th_idx s a) < length (fm_timeouts s)"
    "a \<in> set (fm_timeouts s) \<Longrightarrow> fm_timeouts s ! nat (th_idx s a) = a" by blast+
qed

lemma th_removeFilter_correct:
  assumes ok: "th_ok s" and a: "a < fm_next s"
  shows "fst (th_removeFilter s a) \<longleftrightarrow> a \<in> set (fm_timeouts s)"
    and "th_ok (snd (th_removeFilter s a))"
    and "set (fm_timeouts (snd (th_removeFilter s a))) = set (fm_timeouts s) - {a}"
    and "th_rest (snd (th_removeFilter s a)) = th_rest s"
proof -
  have idx: "nf_heapIndex (fm_store s a) = th_idx s a" by (simp add: th_idx_def)
  consider (out) "a \<notin> set (fm_timeouts s)" | (inn) "a \<in> set (fm_timeouts s)" by blast
  then have "(fst (th_removeFilter s a) \<longleftrightarrow> a \<in> set (fm_timeouts s)) \<and> th_ok (snd (th_removeFilter s a)) \<and>
    set (fm_timeouts (snd (th_removeFilter s a))) = set (fm_timeouts s) - {a} \<and>
    th_rest (snd (th_removeFilter s a)) = th_rest s"
  proof cases
    case out
    then have "th_removeFilter s a = (False, s)"
      using th_ok_index(1) [OF ok a] by (simp add: th_removeFilter_def NoIndexInHeap_def idx)
    then show ?thesis using out ok by simp
  next
    case inn
    let ?i = "nat (th_idx s a)"
    have i: "?i < length (fm_timeouts s)" "fm_timeouts s ! ?i = a" using th_ok_index [OF ok a] inn by blast+
    have good: "thh.good s" using ok by (simp add: th_ok_def)
    define s' where "s' = snd (heap_Remove th_if s ?i)"
    have eq: "th_removeFilter s a = (True, s')"
      using th_ok_index(1) [OF ok a] inn by (simp add: th_removeFilter_def NoIndexInHeap_def idx s'_def)
    note R = thh.Remove_correct [OF good i(1), folded s'_def, unfolded i(2)]
    have d: "distinct (fm_timeouts s)" using good by (simp add: thh.good_def thh.coherent_def)
    have "mset (fm_timeouts s) = mset (a # fm_timeouts s')" using R(3) by simp
    then have "distinct (a # fm_timeouts s')" and "set (fm_timeouts s) = set (a # fm_timeouts s')"
      using d mset_eq_imp_distinct_iff mset_eq_setD by blast+
    then have set: "set (fm_timeouts s') = set (fm_timeouts s) - {a}" by auto
    have "th_ok s'" unfolding th_ok_def
    proof (intro conjI ballI allI impI)
      show "thh.good s'" by (rule R(2))
      show "b < fm_next s'" if "b \<in> set (fm_timeouts s')" for b
        using that ok set th_restD(1) [OF R(5)] by (auto simp: th_ok_def)
      show "th_idx s' b = -1" if "b < fm_next s'" "b \<notin> set (fm_timeouts s')" for b
        using that R(6) R(7) [of b] ok set th_restD(1) [OF R(5)] by (cases "b = a") (auto simp: th_ok_def)
    qed
    then show ?thesis using inn set R(5) by (simp add: eq)
  qed
  then show "fst (th_removeFilter s a) \<longleftrightarrow> a \<in> set (fm_timeouts s)"
    and "th_ok (snd (th_removeFilter s a))"
    and "set (fm_timeouts (snd (th_removeFilter s a))) = set (fm_timeouts s) - {a}"
    and "th_rest (snd (th_removeFilter s a)) = th_rest s" by blast+
qed

lemma th_addFilter_correct:
  assumes ok: "th_ok s" and a: "a < fm_next s" "a \<notin> set (fm_timeouts s)"
  shows "th_ok (th_addFilter s a)"
    and "set (fm_timeouts (th_addFilter s a)) = insert a (set (fm_timeouts s))"
    and "th_rest (th_addFilter s a) = th_rest s"
proof -
  have good: "thh.good s" using ok by (simp add: th_ok_def)
  note P = thh.Push_correct [OF good a(2), folded th_addFilter_def]
  show r: "th_rest (th_addFilter s a) = th_rest s" by (rule P(4))
  show set: "set (fm_timeouts (th_addFilter s a)) = insert a (set (fm_timeouts s))"
    using arg_cong [OF P(2), of set_mset] by simp
  show "th_ok (th_addFilter s a)" unfolding th_ok_def
  proof (intro conjI ballI allI impI)
    show "thh.good (th_addFilter s a)" by (rule P(1))
    show "b < fm_next (th_addFilter s a)" if "b \<in> set (fm_timeouts (th_addFilter s a))" for b
      using that a ok set th_restD(1) [OF r] by (auto simp: th_ok_def)
    show "th_idx (th_addFilter s a) b = -1"
      if "b < fm_next (th_addFilter s a)" "b \<notin> set (fm_timeouts (th_addFilter s a))" for b
      using that P(5) [of b] ok set th_restD(1) [OF r] by (auto simp: th_ok_def)
  qed
qed

section \<open>What the operations change\<close>

text \<open>Only the filter map, the timeouts, the expiry times and the worker differ.\<close>

definition same_data :: "nfm \<Rightarrow> nfm \<Rightarrow> bool" where
  "same_data s s' \<longleftrightarrow> fm_next s' = fm_next s \<and> fm_timeout s' = fm_timeout s \<and> fm_now s' = fm_now s \<and>
     fm_closed s' = fm_closed s \<and> fm_wsID s' = fm_wsID s \<and> fm_written s' = fm_written s \<and>
     fm_pending s' = fm_pending s \<and>
     (\<forall>a. nf_id (fm_store s' a) = nf_id (fm_store s a) \<and> nf_ws (fm_store s' a) = nf_ws (fm_store s a) \<and>
          nf_query (fm_store s' a) = nf_query (fm_store s a) \<and> nf_msgs (fm_store s' a) = nf_msgs (fm_store s a))"

lemma same_data_refl [simp]: "same_data s s"
  by (simp add: same_data_def)

lemma same_data_trans: "same_data s s' \<Longrightarrow> same_data s' s'' \<Longrightarrow> same_data s s''"
  by (simp add: same_data_def)

lemma same_data_rest: "th_rest s' = th_rest s \<Longrightarrow> same_data s s'"
  using th_restD [of s' s] by (simp add: same_data_def)

lemma emit_simps [simp]:
  "fm_store (emitSignalToUpdateCh s) = fm_store s" "fm_next (emitSignalToUpdateCh s) = fm_next s"
  "fm_filters (emitSignalToUpdateCh s) = fm_filters s" "fm_timeouts (emitSignalToUpdateCh s) = fm_timeouts s"
  "fm_timeout (emitSignalToUpdateCh s) = fm_timeout s" "fm_now (emitSignalToUpdateCh s) = fm_now s"
  "fm_closed (emitSignalToUpdateCh s) = fm_closed s" "fm_wsID (emitSignalToUpdateCh s) = fm_wsID s"
  "fm_written (emitSignalToUpdateCh s) = fm_written s" "fm_pending (emitSignalToUpdateCh s) = fm_pending s"
  by (simp_all add: emitSignalToUpdateCh_def split: worker.splits)

lemma th_ok_frame:
  "fm_store s' = fm_store s \<Longrightarrow> fm_timeouts s' = fm_timeouts s \<Longrightarrow> fm_next s' = fm_next s \<Longrightarrow>
   th_ok s \<Longrightarrow> th_ok s'"
  by (rule th_ok_cong [of s]) (auto simp: th_idx_def th_key_def fun_eq_iff)

lemma th_ok_emit: "th_ok s \<Longrightarrow> th_ok (emitSignalToUpdateCh s)"
  by (rule th_ok_frame [of _ s]) simp_all

lemma same_data_emit [simp]: "same_data s (emitSignalToUpdateCh s)"
  by (simp add: same_data_def)

lemma th_key_emit [simp]: "th_key (emitSignalToUpdateCh s) = th_key s"
  by (simp add: th_key_def fun_eq_iff)

lemma removeFilterByID_none: "fm_filters s i = None \<Longrightarrow> removeFilterByID s i = (False, s)"
  by (simp add: removeFilterByID_def)

lemma removeFilterByID_some:
  assumes ok: "th_ok s" and f: "fm_filters s i = Some a" and a: "a < fm_next s"
  obtains s' where "removeFilterByID s i = (True, s')" "th_ok s'"
    "fm_filters s' = (fm_filters s)(i := None)" "set (fm_timeouts s') = set (fm_timeouts s) - {a}"
    "same_data s s'" "th_key s' = th_key s"
proof -
  define s1 where "s1 = s\<lparr>fm_filters := (fm_filters s)(i := None)\<rparr>"
  have ok1: "th_ok s1" by (rule th_ok_frame [OF _ _ _ ok]) (simp_all add: s1_def)
  have a1: "a < fm_next s1" using a by (simp add: s1_def)
  obtain r s2 where R: "th_removeFilter s1 a = (r, s2)" by fastforce
  note C = th_removeFilter_correct [OF ok1 a1, unfolded R fst_conv snd_conv]
  define s' where "s' = (if r then emitSignalToUpdateCh s2 else s2)"
  have eq: "removeFilterByID s i = (True, s')" using f R by (simp add: removeFilterByID_def s1_def s'_def)
  have "th_ok s'" using C(2) by (simp add: s'_def th_ok_emit)
  moreover have "fm_filters s' = (fm_filters s)(i := None)"
    using th_restD(2) [OF C(4)] by (simp add: s'_def s1_def)
  moreover have "set (fm_timeouts s') = set (fm_timeouts s) - {a}" using C(3) by (simp add: s'_def s1_def)
  moreover have "same_data s s'"
  proof -
    have "same_data s s1" by (simp add: same_data_def s1_def)
    moreover have "same_data s1 s2" by (rule same_data_rest [OF C(4)])
    moreover have "same_data s2 s'" by (simp add: s'_def)
    ultimately show ?thesis by (blast intro: same_data_trans)
  qed
  moreover have "th_key s' = th_key s"
    using th_restD(14) [OF C(4)] by (simp add: s'_def s1_def th_key_def fun_eq_iff)
  ultimately show ?thesis by (rule that [OF eq])
qed

lemma addFilterTimeout_correct:
  assumes ok: "th_ok s" and a: "a < fm_next s" "a \<notin> set (fm_timeouts s)"
  shows "th_ok (addFilterTimeout s a)" (is ?ok)
    and "set (fm_timeouts (addFilterTimeout s a)) = insert a (set (fm_timeouts s))" (is ?set)
    and "fm_filters (addFilterTimeout s a) = fm_filters s" (is ?fil)
    and "same_data s (addFilterTimeout s a)" (is ?same)
    and "th_key (addFilterTimeout s a) = (th_key s)(a := fm_now s + fm_timeout s)" (is ?key)
proof -
  define s1 where "s1 = filter_at s a (\<lambda>f. f\<lparr>nf_expiresAt := fm_now s + fm_timeout s\<rparr>)"
  have eq: "addFilterTimeout s a = emitSignalToUpdateCh (th_addFilter s1 a)"
    by (simp add: addFilterTimeout_def s1_def)
  have key1: "th_key s1 = (th_key s)(a := fm_now s + fm_timeout s)"
    by (auto simp: s1_def filter_at_def th_key_def fun_eq_iff)
  have s1: "fm_timeouts s1 = fm_timeouts s" "fm_next s1 = fm_next s" "th_idx s1 = th_idx s"
    "fm_filters s1 = fm_filters s" "same_data s s1"
    by (auto simp: s1_def filter_at_def th_idx_def fun_eq_iff same_data_def)
  have "th_key s1 b = th_key s b" if "b \<in> set (fm_timeouts s)" for b
    using that a(2) by (auto simp: key1)
  then have ok1: "th_ok s1" by (rule th_ok_cong [OF ok s1(1-3)])
  note C = th_addFilter_correct [OF ok1 a [folded s1(1,2)]]
  show ?ok unfolding eq by (rule th_ok_emit [OF C(1)])
  show ?set using C(2) s1(1) by (simp add: eq)
  show ?fil using th_restD(2) [OF C(3)] s1(4) by (simp add: eq)
  show ?same unfolding eq
    by (rule same_data_trans [OF s1(5) same_data_trans [OF same_data_rest [OF C(3)] same_data_emit]])
  show ?key using th_restD(14) [OF C(3)] by (simp add: eq key1 [symmetric] fun_eq_iff)
qed

lemma refreshFilterTimeout_correct:
  assumes ok: "th_ok s" and a: "a < fm_next s"
  shows "th_ok (refreshFilterTimeout s a)"
    and "set (fm_timeouts (refreshFilterTimeout s a)) = insert a (set (fm_timeouts s))"
    and "fm_filters (refreshFilterTimeout s a) = fm_filters s"
    and "same_data s (refreshFilterTimeout s a)"
    and "th_key (refreshFilterTimeout s a) = (th_key s)(a := fm_now s + fm_timeout s)"
proof -
  define s1 where "s1 = snd (th_removeFilter s a)"
  note R = th_removeFilter_correct [OF ok a, folded s1_def]
  have a1: "a < fm_next s1" "a \<notin> set (fm_timeouts s1)" using a R(3) th_restD(1) [OF R(4)] by auto
  note A = addFilterTimeout_correct [OF R(2) a1]
  have eq: "refreshFilterTimeout s a = addFilterTimeout s1 a" by (simp add: refreshFilterTimeout_def s1_def)
  have key1: "th_key s1 = th_key s" using th_restD(14) [OF R(4)] by (simp add: fun_eq_iff)
  show "th_ok (refreshFilterTimeout s a)" unfolding eq by (rule A(1))
  show "set (fm_timeouts (refreshFilterTimeout s a)) = insert a (set (fm_timeouts s))"
    using A(2) R(3) by (auto simp: eq)
  show "fm_filters (refreshFilterTimeout s a) = fm_filters s" using A(3) th_restD(2) [OF R(4)] by (simp add: eq)
  show "same_data s (refreshFilterTimeout s a)" unfolding eq
    by (rule same_data_trans [OF same_data_rest [OF R(4)] A(4)])
  show "th_key (refreshFilterTimeout s a) = (th_key s)(a := fm_now s + fm_timeout s)"
    using A(5) th_restD(3,4) [OF R(4)] by (simp add: eq key1)
qed

section \<open>Well-formed managers\<close>

text \<open>Every installed filter without a connection is in the heap; a filter with a connection never is;
  the heap may hold filters that are no longer installed.\<close>

definition fm_wf :: "nfm \<Rightarrow> bool" where
  "fm_wf s \<longleftrightarrow> th_ok s \<and> finite (dom (fm_filters s)) \<and>
     (\<forall>a \<in> set (fm_timeouts s). nf_ws (fm_store s a) = None) \<and>
     (\<forall>i a. fm_filters s i = Some a \<longrightarrow> a < fm_next s \<and> nf_id (fm_store s a) = i \<and>
        (nf_ws (fm_store s a) = None \<longrightarrow> a \<in> set (fm_timeouts s))) \<and>
     (\<forall>a \<in> set (fm_pending s). a < fm_next s \<and> nf_ws (fm_store s a) = None) \<and>
     (\<forall>a < fm_next s. nf_id (fm_store s a) \<noteq> '''')"

lemma fm_wf_ok: "fm_wf s \<Longrightarrow> th_ok s"
  by (simp add: fm_wf_def)

lemma fm_wf_filter:
  "fm_wf s \<Longrightarrow> fm_filters s i = Some a \<Longrightarrow> a < fm_next s \<and> nf_id (fm_store s a) = i \<and>
    (nf_ws (fm_store s a) = None \<longrightarrow> a \<in> set (fm_timeouts s))"
  by (simp add: fm_wf_def)

lemma fm_wf_pending: "fm_wf s \<Longrightarrow> a \<in> set (fm_pending s) \<Longrightarrow> a < fm_next s \<and> nf_ws (fm_store s a) = None"
  by (simp add: fm_wf_def)

lemma fm_wf_new: "fm_wf (NewNodeFilterManager t)"
  by (simp add: fm_wf_def th_ok_def thh.good_def thh.coherent_def heap_ok_def NewNodeFilterManager_def)

lemma fm_wf_same:
  assumes wf: "fm_wf s" and s': "th_ok s'" "same_data s s'" "set (fm_timeouts s') = T"
    and fil: "\<And>i a. fm_filters s' i = Some a \<Longrightarrow> fm_filters s i = Some a \<and> (a \<in> set (fm_timeouts s) \<longrightarrow> a \<in> T)"
    and new: "\<And>a. a \<in> T \<Longrightarrow> a \<in> set (fm_timeouts s) \<or> nf_ws (fm_store s a) = None"
  shows "fm_wf s'"
proof -
  have "dom (fm_filters s') \<subseteq> dom (fm_filters s)" using fil by blast
  then have "finite (dom (fm_filters s'))" using wf by (auto simp: fm_wf_def dest: finite_subset)
  then show ?thesis
    using wf s' fil new unfolding fm_wf_def same_data_def by simp blast
qed

lemma fm_wf_removeFilterByID:
  assumes wf: "fm_wf s" shows "fm_wf (snd (removeFilterByID s i))"
proof (cases "fm_filters s i")
  case None then show ?thesis using wf by (simp add: removeFilterByID_none)
next
  case (Some a)
  have a: "a < fm_next s" "nf_id (fm_store s a) = i" using fm_wf_filter [OF wf Some] by auto
  obtain s' where s': "removeFilterByID s i = (True, s')" "th_ok s'"
    "fm_filters s' = (fm_filters s)(i := None)" "set (fm_timeouts s') = set (fm_timeouts s) - {a}"
    "same_data s s'" "th_key s' = th_key s"
    by (rule removeFilterByID_some [OF fm_wf_ok [OF wf] Some a(1)])
  have "fm_wf s'"
  proof (rule fm_wf_same [OF wf s'(2,5,4)])
    fix j b assume j: "fm_filters s' j = Some b"
    then have jb: "fm_filters s j = Some b" "j \<noteq> i" using s'(3) by (auto split: if_splits)
    then have "b \<noteq> a" using fm_wf_filter [OF wf jb(1)] a(2) by auto
    then show "fm_filters s j = Some b \<and> (b \<in> set (fm_timeouts s) \<longrightarrow> b \<in> set (fm_timeouts s) - {a})"
      using jb by simp
  qed simp
  then show ?thesis using s'(1) by simp
qed

lemma fm_wf_refresh:
  assumes wf: "fm_wf s" and a: "a < fm_next s" "nf_ws (fm_store s a) = None"
  shows "fm_wf (refreshFilterTimeout s a)"
proof -
  note R = refreshFilterTimeout_correct [OF fm_wf_ok [OF wf] a(1)]
  show ?thesis by (rule fm_wf_same [OF wf R(1,4,2)]) (use R(3) a(2) in auto)
qed

text \<open>The parts of the state that well-formedness speaks of.\<close>

definition fm_skel :: "nfm \<Rightarrow> nat \<times> (string \<rightharpoonup> nat) \<times> nat list \<times> (nat \<Rightarrow> string \<times> int \<times> int \<times> ws_conn option)" where
  "fm_skel s = (fm_next s, fm_filters s, fm_timeouts s,
     \<lambda>a. (nf_id (fm_store s a), nf_heapIndex (fm_store s a), nf_expiresAt (fm_store s a), nf_ws (fm_store s a)))"

lemma fm_skelD:
  assumes "fm_skel s' = fm_skel s"
  shows "fm_next s' = fm_next s" "fm_filters s' = fm_filters s" "fm_timeouts s' = fm_timeouts s"
    "nf_id (fm_store s' a) = nf_id (fm_store s a)" "nf_ws (fm_store s' a) = nf_ws (fm_store s a)"
    "th_idx s' = th_idx s" "th_key s' = th_key s"
proof -
  have "(\<lambda>a. (nf_id (fm_store s' a), nf_heapIndex (fm_store s' a), nf_expiresAt (fm_store s' a), nf_ws (fm_store s' a)))
      = (\<lambda>a. (nf_id (fm_store s a), nf_heapIndex (fm_store s a), nf_expiresAt (fm_store s a), nf_ws (fm_store s a)))"
    using assms by (simp add: fm_skel_def)
  from fun_cong [OF this]
  have "\<And>a. nf_id (fm_store s' a) = nf_id (fm_store s a) \<and> nf_heapIndex (fm_store s' a) = nf_heapIndex (fm_store s a) \<and>
    nf_expiresAt (fm_store s' a) = nf_expiresAt (fm_store s a) \<and> nf_ws (fm_store s' a) = nf_ws (fm_store s a)" by simp
  then show "nf_id (fm_store s' a) = nf_id (fm_store s a)" "nf_ws (fm_store s' a) = nf_ws (fm_store s a)"
    "th_idx s' = th_idx s" "th_key s' = th_key s" by (simp_all add: th_idx_def th_key_def fun_eq_iff)
  show "fm_next s' = fm_next s" "fm_filters s' = fm_filters s" "fm_timeouts s' = fm_timeouts s"
    using assms by (simp_all add: fm_skel_def)
qed

lemma fm_wf_skel:
  assumes wf: "fm_wf s" and sk: "fm_skel s' = fm_skel s"
    and p: "\<And>a. a \<in> set (fm_pending s') \<Longrightarrow> a < fm_next s \<and> nf_ws (fm_store s a) = None"
  shows "fm_wf s'"
proof -
  note D = fm_skelD [OF sk]
  have "th_ok s'" by (rule th_ok_cong [OF fm_wf_ok [OF wf] D(3,1,6)]) (simp add: D(7))
  then show ?thesis using wf p by (simp add: fm_wf_def D)
qed

lemma skel_simps [simp]:
  "fm_skel (s\<lparr>fm_worker := w\<rparr>) = fm_skel s" "fm_skel (s\<lparr>fm_now := t\<rparr>) = fm_skel s"
  "fm_skel (s\<lparr>fm_pending := p\<rparr>) = fm_skel s" "fm_skel (s\<lparr>fm_closed := c\<rparr>) = fm_skel s"
  "fm_skel (s\<lparr>fm_written := ws\<rparr>) = fm_skel s" "fm_skel (s\<lparr>fm_crashed := c\<rparr>) = fm_skel s"
  "fm_skel (filter_at s a (\<lambda>f. f\<lparr>nf_msgs := g f\<rparr>)) = fm_skel s"
  by (auto simp: fm_skel_def filter_at_def fun_eq_iff)

lemma skel_appendLog [simp]: "fm_skel (appendLog s a m) = fm_skel s"
  by (simp add: appendLog_def)

lemma skel_take [simp]: "fm_skel (snd (takeNodeMsgUpdates s a)) = fm_skel s"
  by (simp add: takeNodeMsgUpdates_def)

lemma skel_offer [simp]: "fm_skel (offer_msg ps m s i) = fm_skel s"
  by (simp add: offer_msg_def split: option.splits)

lemma skel_append [simp]: "fm_skel (appendNodeLogToFilters ps order s m) = fm_skel s"
  unfolding appendNodeLogToFilters_def by (induction order arbitrary: s) simp_all

lemma skel_process [simp]: "fm_skel (processEvent ps orders s ms) = fm_skel s"
  by (induction ps orders s ms rule: processEvent.induct) simp_all

lemma skel_write [simp]: "fm_skel (snd (writeMessageToWs E k s a m)) = fm_skel s"
  by (simp add: writeMessageToWs_def split: option.splits)

lemma skel_send_msgs [simp]: "fm_skel (snd (send_msgs E k s a ms)) = fm_skel s"
proof (induction ms arbitrary: k s)
  case (Cons m ms)
  show ?case
  proof (cases "fe_Marshal E m")
    case (Inr r)
    obtain e s1 where w: "writeMessageToWs E k s a r = (e, s1)" by fastforce
    have "fm_skel s1 = fm_skel s" using skel_write [of E k s a r] w by simp
    then show ?thesis using Inr w Cons by (cases e) simp_all
  qed simp
qed simp

lemma skel_sendUpdates [simp]: "fm_skel (snd (sendUpdates E s a)) = fm_skel s"
  by (simp add: sendUpdates_def takeNodeMsgUpdates_def)

lemma skel_flush_loop [simp]: "fm_skel (snd (flush_loop E s is)) = fm_skel s"
proof (induction "is" arbitrary: s)
  case (Cons i "is")
  show ?case
  proof (cases "fm_filters s i")
    case (Some a)
    obtain e s1 where w: "sendUpdates E s a = (e, s1)" by fastforce
    have "fm_skel s1 = fm_skel s" using skel_sendUpdates [of E s a] w by simp
    then show ?thesis using Some w Cons [of s] Cons [of s1] by (cases e) (auto split: prod.splits)
  qed (simp add: Cons)
qed simp

text \<open>None of these touches the list of pending refreshes.\<close>

lemma pending_simps [simp]:
  "fm_pending (appendLog s a m) = fm_pending s" "fm_pending (filter_at s a f) = fm_pending s"
  "fm_pending (offer_msg ps m s i) = fm_pending s"
  by (auto simp: appendLog_def filter_at_def offer_msg_def split: option.splits)

lemma pending_process [simp]: "fm_pending (processEvent ps orders s ms) = fm_pending s"
proof -
  have a: "fm_pending (appendNodeLogToFilters ps order s m) = fm_pending s" for order s m
    unfolding appendNodeLogToFilters_def by (induction order arbitrary: s) simp_all
  show ?thesis by (induction ms arbitrary: s orders) (simp_all add: a)
qed

lemma pending_write [simp]: "fm_pending (snd (writeMessageToWs E k s a m)) = fm_pending s"
  by (simp add: writeMessageToWs_def split: option.splits)

lemma pending_send_msgs [simp]: "fm_pending (snd (send_msgs E k s a ms)) = fm_pending s"
proof (induction ms arbitrary: k s)
  case (Cons m ms)
  show ?case
  proof (cases "fe_Marshal E m")
    case (Inr r)
    obtain e s1 where w: "writeMessageToWs E k s a r = (e, s1)" by fastforce
    have "fm_pending s1 = fm_pending s" using pending_write [of E k s a r] w by simp
    then show ?thesis using Inr w Cons by (cases e) simp_all
  qed simp
qed simp

lemma pending_sendUpdates [simp]: "fm_pending (snd (sendUpdates E s a)) = fm_pending s"
  by (simp add: sendUpdates_def takeNodeMsgUpdates_def)

lemma pending_flush_loop [simp]: "fm_pending (snd (flush_loop E s is)) = fm_pending s"
proof (induction "is" arbitrary: s)
  case (Cons i "is")
  show ?case
  proof (cases "fm_filters s i")
    case (Some a)
    obtain e s1 where w: "sendUpdates E s a = (e, s1)" by fastforce
    have "fm_pending s1 = fm_pending s" using pending_sendUpdates [of E s a] w by simp
    then show ?thesis using Some w Cons [of s] Cons [of s1] by (cases e) (auto split: prod.splits)
  qed (simp add: Cons)
qed simp

lemma fm_wf_removes: "fm_wf s \<Longrightarrow> fm_wf (foldl (\<lambda>s i. snd (removeFilterByID s i)) s is)"
  by (induction "is" arbitrary: s) (simp_all add: fm_wf_removeFilterByID)

lemma fm_wf_dispatch:
  assumes wf: "fm_wf s" shows "fm_wf (dispatchEvent ps orders order E s ev)"
proof -
  let ?p = "processEvent ps orders s (ev_NewApp ev)"
  have "fm_wf (snd (flush_loop E ?p order))"
    by (rule fm_wf_skel [OF wf]) (use fm_wf_pending [OF wf] in simp_all)
  moreover have "fm_wf ?p" by (rule fm_wf_skel [OF wf]) (use fm_wf_pending [OF wf] in simp_all)
  ultimately show ?thesis
    by (auto simp: dispatchEvent_def flushWsFilters_def fm_wf_removes Let_def split: prod.splits)
qed

lemma fm_wfI:
  "th_ok s \<Longrightarrow> finite (dom (fm_filters s)) \<Longrightarrow> \<forall>a \<in> set (fm_timeouts s). nf_ws (fm_store s a) = None \<Longrightarrow>
   \<forall>i a. fm_filters s i = Some a \<longrightarrow> a < fm_next s \<and> nf_id (fm_store s a) = i \<and>
        (nf_ws (fm_store s a) = None \<longrightarrow> a \<in> set (fm_timeouts s)) \<Longrightarrow>
   \<forall>a \<in> set (fm_pending s). a < fm_next s \<and> nf_ws (fm_store s a) = None \<Longrightarrow>
   \<forall>a < fm_next s. nf_id (fm_store s a) \<noteq> '''' \<Longrightarrow> fm_wf s"
  by (simp add: fm_wf_def)

text \<open>The state in which \<open>NewNodeFilter\<close> has installed the filter but not yet set its timeout.\<close>

definition new_entry :: "nfm \<Rightarrow> string \<Rightarrow> node_query option \<Rightarrow> ws_conn option \<Rightarrow> nfm" where
  "new_entry s uuid q ws = s\<lparr>fm_store := (fm_store s)(fm_next s := newNodeFilterBase uuid ws q),
     fm_next := Suc (fm_next s), fm_wsID := (case ws of None \<Rightarrow> fm_wsID s | Some w \<Rightarrow> (fm_wsID s)(w := uuid)),
     fm_filters := (fm_filters s)(uuid \<mapsto> fm_next s)\<rparr>"

lemma new_entry_simps [simp]:
  "fm_store (new_entry s uuid q ws) = (fm_store s)(fm_next s := newNodeFilterBase uuid ws q)"
  "fm_next (new_entry s uuid q ws) = Suc (fm_next s)"
  "fm_filters (new_entry s uuid q ws) = (fm_filters s)(uuid \<mapsto> fm_next s)"
  "fm_timeouts (new_entry s uuid q ws) = fm_timeouts s" "fm_pending (new_entry s uuid q ws) = fm_pending s"
  "fm_now (new_entry s uuid q ws) = fm_now s" "fm_timeout (new_entry s uuid q ws) = fm_timeout s"
  "fm_wsID (new_entry s uuid q ws) w = (if ws = Some w then uuid else fm_wsID s w)"
  by (auto simp: new_entry_def split: option.splits)

lemma newNodeFilterBase_simps [simp]:
  "nf_id (newNodeFilterBase uuid ws q) = uuid" "nf_ws (newNodeFilterBase uuid ws q) = ws"
  "nf_heapIndex (newNodeFilterBase uuid ws q) = -1"
  by (simp_all add: newNodeFilterBase_def NoIndexInHeap_def)

lemma NewNodeFilter_eq:
  "NewNodeFilter s uuid q ws = (uuid, if ws = None then addFilterTimeout (new_entry s uuid q ws) (fm_next s)
     else new_entry s uuid q ws)"
  by (cases ws) (simp_all add: NewNodeFilter_def addFilter_def new_entry_def newNodeFilterBase_def hasWSConn_def Let_def)

lemma th_ok_new_entry:
  assumes "th_ok s"
  shows "th_ok (new_entry s uuid q ws)" and "fm_next s \<notin> set (fm_timeouts s)"
proof -
  have g: "thh.good s" and lt: "\<And>b. b \<in> set (fm_timeouts s) \<Longrightarrow> b < fm_next s"
    and ix: "\<And>b. b < fm_next s \<Longrightarrow> b \<notin> set (fm_timeouts s) \<Longrightarrow> th_idx s b = -1"
    using assms by (auto simp: th_ok_def)
  show "fm_next s \<notin> set (fm_timeouts s)" using lt by auto
  have ko: "th_key (new_entry s uuid q ws) b = th_key s b" "th_idx (new_entry s uuid q ws) b = th_idx s b"
    if "b < fm_next s" for b
    using that by (simp_all add: th_key_def th_idx_def)
  have nth: "fm_timeouts s ! j < fm_next s" if "j < length (fm_timeouts s)" for j using that lt by simp
  have "thh.good (new_entry s uuid q ws)"
    using g ko nth by (auto simp: thh.good_def thh.coherent_def heap_ok_def parent_less dest: order.strict_trans)
  moreover have "th_idx (new_entry s uuid q ws) (fm_next s) = -1" by (simp add: th_idx_def)
  ultimately show "th_ok (new_entry s uuid q ws)"
    using lt ix ko unfolding th_ok_def by (auto simp: less_Suc_eq)
qed

lemma new_entry_data:
  assumes wf: "fm_wf s" and u: "uuid \<noteq> ''''" "fm_filters s uuid = None"
  shows "finite (dom (fm_filters (new_entry s uuid q ws)))"
    "\<forall>a \<in> set (fm_pending (new_entry s uuid q ws)). a < fm_next (new_entry s uuid q ws) \<and> nf_ws (fm_store (new_entry s uuid q ws) a) = None"
    "\<forall>a < fm_next (new_entry s uuid q ws). nf_id (fm_store (new_entry s uuid q ws) a) \<noteq> ''''"
    "\<forall>a \<in> set (fm_timeouts (new_entry s uuid q ws)). nf_ws (fm_store (new_entry s uuid q ws) a) = None"
  using wf u th_ok_new_entry(2) [OF fm_wf_ok [OF wf]] by (auto simp: fm_wf_def th_ok_def less_Suc_eq)

lemma new_entry_filter:
  assumes wf: "fm_wf s" and f: "fm_filters (new_entry s uuid q ws) i = Some a"
  shows "a < fm_next (new_entry s uuid q ws) \<and> nf_id (fm_store (new_entry s uuid q ws) a) = i \<and>
    (a \<noteq> fm_next s \<longrightarrow> nf_ws (fm_store (new_entry s uuid q ws) a) = None \<longrightarrow> a \<in> set (fm_timeouts s))"
proof (cases "i = uuid")
  case False
  then have "fm_filters s i = Some a" using f by simp
  from fm_wf_filter [OF wf this] show ?thesis by simp
qed (use f in simp)

lemma fm_wf_new_timed:
  assumes wf: "fm_wf s" and u: "uuid \<noteq> ''''" "fm_filters s uuid = None"
  shows "fm_wf (addFilterTimeout (new_entry s uuid q None) (fm_next s))"
proof -
  let ?a = "fm_next s" and ?s2 = "new_entry s uuid q None"
  note T = th_ok_new_entry(1) [OF fm_wf_ok [OF wf], of uuid q None] and common = new_entry_data [OF wf u, of q None]
  have a2: "?a < fm_next ?s2" "?a \<notin> set (fm_timeouts ?s2)" using th_ok_new_entry(2) [OF fm_wf_ok [OF wf]] by simp_all
  note A = addFilterTimeout_correct [OF T a2]
  have sd: "fm_next (addFilterTimeout ?s2 ?a) = fm_next ?s2" "fm_pending (addFilterTimeout ?s2 ?a) = fm_pending ?s2"
    "nf_ws (fm_store (addFilterTimeout ?s2 ?a) b) = nf_ws (fm_store ?s2 b)"
    "nf_id (fm_store (addFilterTimeout ?s2 ?a) b) = nf_id (fm_store ?s2 b)" for b
    using A(4) by (simp_all add: same_data_def)
  show ?thesis
  proof (rule fm_wfI [OF A(1)], unfold A(3) sd A(2))
    show "finite (dom (fm_filters ?s2))" by (rule common(1))
    show "\<forall>b \<in> insert ?a (set (fm_timeouts ?s2)). nf_ws (fm_store ?s2 b) = None" using common(4) by simp
    show "\<forall>i b. fm_filters ?s2 i = Some b \<longrightarrow> b < fm_next ?s2 \<and> nf_id (fm_store ?s2 b) = i \<and>
      (nf_ws (fm_store ?s2 b) = None \<longrightarrow> b \<in> insert ?a (set (fm_timeouts ?s2)))"
      using new_entry_filter [OF wf, of uuid q None] by force
  qed (fact common(2), fact common(3))
qed

lemma fm_wf_new_ws:
  assumes wf: "fm_wf s" and u: "uuid \<noteq> ''''" "fm_filters s uuid = None"
  shows "fm_wf (new_entry s uuid q (Some w))"
proof (rule fm_wfI)
  let ?s2 = "new_entry s uuid q (Some w)"
  have "nf_ws (fm_store ?s2 (fm_next s)) \<noteq> None" by simp
  then show "\<forall>i a. fm_filters ?s2 i = Some a \<longrightarrow> a < fm_next ?s2 \<and> nf_id (fm_store ?s2 a) = i \<and>
      (nf_ws (fm_store ?s2 a) = None \<longrightarrow> a \<in> set (fm_timeouts ?s2))"
    using new_entry_filter [OF wf, of uuid q "Some w"] by (metis new_entry_simps(4))
qed (rule th_ok_new_entry(1) [OF fm_wf_ok [OF wf]] new_entry_data [OF wf u])+

lemma fm_wf_NewNodeFilter:
  assumes "fm_wf s" and "uuid \<noteq> ''''" and "fm_filters s uuid = None"
  shows "fm_wf (snd (NewNodeFilter s uuid q ws))"
  using fm_wf_new_timed [OF assms] fm_wf_new_ws [OF assms] by (cases ws) (simp_all add: NewNodeFilter_eq)

lemma fm_wf_frame:
  assumes "fm_wf s" "fm_skel s' = fm_skel s" "set (fm_pending s') \<subseteq> set (fm_pending s)"
  shows "fm_wf s'"
  by (rule fm_wf_skel [OF assms(1,2)]) (use fm_wf_pending [OF assms(1)] assms(3) in blast)

lemma getFilterAndChanges_InrD:
  assumes "getFilterAndChanges s i = (Inr (a, res), s1)"
  shows "fm_filters s i = Some a" and "nf_ws (fm_store s a) = None" and "res = nf_msgs (fm_store s a)"
    and "s1 = filter_at s a (\<lambda>f. f\<lparr>nf_msgs := []\<rparr>)"
  using assms by (auto simp: getFilterAndChanges_def hasWSConn_def takeNodeMsgUpdates_def
      split: option.splits if_splits)

lemma fm_wf_step: "fm_step ps s s' \<Longrightarrow> fm_wf s \<Longrightarrow> fm_wf s'"
proof (induction rule: fm_step.induct)
  case (st_new uuid s q ws)
  have "fm_filters s uuid = None"
    using st_new fm_wf_filter [OF st_new(3)] by (cases "fm_filters s uuid") auto
  then show ?case by (rule fm_wf_NewNodeFilter [OF st_new(3,1)])
next
  case (st_get s i a res s1)
  note D = getFilterAndChanges_InrD [OF st_get(1)]
  show ?case
  proof (rule fm_wf_skel [OF st_get(2)])
    show "fm_skel (s1\<lparr>fm_pending := a # fm_pending s1\<rparr>) = fm_skel s" by (simp add: D(4))
    fix b assume "b \<in> set (fm_pending (s1\<lparr>fm_pending := a # fm_pending s1\<rparr>))"
    then have "b = a \<or> b \<in> set (fm_pending s)" by (simp add: D(4))
    then show "b < fm_next s \<and> nf_ws (fm_store s b) = None"
      using fm_wf_pending [OF st_get(2), of b] fm_wf_filter [OF st_get(2) D(1)] D(2) by blast
  qed
next
  case (st_refresh a s)
  have "fm_wf (s\<lparr>fm_pending := remove1 a (fm_pending s)\<rparr>)"
    by (rule fm_wf_frame [OF st_refresh(2)]) (simp_all add: set_remove1_subset)
  then show ?case using fm_wf_pending [OF st_refresh(2,1)] by (intro fm_wf_refresh) simp_all
next
  case (st_uninstall s i)
  then show ?case by (simp add: Uninstall_def fm_wf_removeFilterByID)
next
  case (st_remove_ws s w)
  then show ?case by (simp add: RemoveFilterByWs_def fm_wf_removeFilterByID)
next
  case (st_close s s')
  then have "s' = s\<lparr>fm_closed := True\<rparr>" by (auto simp: fm_Close_def split: if_splits)
  then show ?case using st_close(2) by (auto intro: fm_wf_frame)
next
  case (st_next s tmr)
  show ?case by (rule fm_wf_frame [OF st_next(2)]) (simp_all add: run_next_def split: prod.splits)
next
  case (st_timeout s i tmr)
  have "fm_wf (s\<lparr>fm_worker := WBusy None\<rparr>)" by (rule fm_wf_frame [OF st_timeout(3)]) simp_all
  then have wf: "fm_wf (snd (removeFilterByID (s\<lparr>fm_worker := WBusy None\<rparr>) i))" by (rule fm_wf_removeFilterByID)
  show ?case unfolding run_timeout_def Uninstall_def by (rule fm_wf_frame [OF wf]) simp_all
next
  case (st_event s i tmr order orders E evnt)
  have wf: "fm_wf (s\<lparr>fm_worker := WBusy tmr\<rparr>)" by (rule fm_wf_frame [OF st_event(5)]) simp_all
  show ?case unfolding run_event_def by (rule fm_wf_frame [OF fm_wf_dispatch [OF wf, of ps orders order E evnt]]) simp_all
qed (auto intro: fm_wf_frame)

lemma fm_wf_reach: "fm_reach ps t s \<Longrightarrow> fm_wf s"
  by (induction rule: fm_reach.induct) (auto intro: fm_wf_new fm_wf_step)

section \<open>The manager as an abstract map\<close>

record abs_filter =
  af_query :: "node_query option"
  af_ws :: "ws_conn option"
  af_expires :: int
  af_msgs :: "application list"

definition af_of :: "node_filter \<Rightarrow> abs_filter" where
  "af_of f = \<lparr>af_query = nf_query f, af_ws = nf_ws f, af_expires = nf_expiresAt f, af_msgs = nf_msgs f\<rparr>"

definition fm_abs :: "nfm \<Rightarrow> string \<rightharpoonup> abs_filter" where
  "fm_abs s i = map_option (\<lambda>a. af_of (fm_store s a)) (fm_filters s i)"

lemma fm_abs_Some: "fm_filters s i = Some a \<Longrightarrow> fm_abs s i = Some (af_of (fm_store s a))"
  by (simp add: fm_abs_def)

lemma fm_abs_None [simp]: "fm_filters s i = None \<Longrightarrow> fm_abs s i = None"
  by (simp add: fm_abs_def)

lemma fm_abs_eq_None: "fm_abs s i = None \<longleftrightarrow> fm_filters s i = None"
  by (simp add: fm_abs_def)

lemma same_data_af:
  "same_data s s' \<Longrightarrow> th_key s' a = t \<Longrightarrow> af_of (fm_store s' a) = (af_of (fm_store s a))\<lparr>af_expires := t\<rparr>"
  by (simp add: same_data_def af_of_def th_key_def)

lemma abs_remove:
  assumes wf: "fm_wf s"
  shows "fm_abs (snd (removeFilterByID s i)) = (fm_abs s)(i := None)"
    and "fst (removeFilterByID s i) \<longleftrightarrow> fm_abs s i \<noteq> None"
proof -
  have "fm_abs (snd (removeFilterByID s i)) = (fm_abs s)(i := None) \<and>
    (fst (removeFilterByID s i) \<longleftrightarrow> fm_abs s i \<noteq> None)"
  proof (cases "fm_filters s i")
    case None then show ?thesis by (simp add: removeFilterByID_none fun_upd_idem)
  next
    case (Some a)
    have a: "a < fm_next s" using fm_wf_filter [OF wf Some] by simp
    obtain s' where s': "removeFilterByID s i = (True, s')" "th_ok s'"
      "fm_filters s' = (fm_filters s)(i := None)" "set (fm_timeouts s') = set (fm_timeouts s) - {a}"
      "same_data s s'" "th_key s' = th_key s"
      by (rule removeFilterByID_some [OF fm_wf_ok [OF wf] Some a])
    have "af_of (fm_store s' b) = af_of (fm_store s b)" for b
      using s'(5,6) by (simp add: same_data_def af_of_def th_key_def fun_eq_iff)
    then show ?thesis using Some s'(1,3) by (auto simp: fm_abs_def fun_eq_iff)
  qed
  then show "fm_abs (snd (removeFilterByID s i)) = (fm_abs s)(i := None)"
    and "fst (removeFilterByID s i) \<longleftrightarrow> fm_abs s i \<noteq> None" by blast+
qed

lemma abs_refresh:
  assumes wf: "fm_wf s" and f: "fm_filters s i = Some a"
  shows "fm_abs (refreshFilterTimeout s a) =
    (fm_abs s)(i \<mapsto> (af_of (fm_store s a))\<lparr>af_expires := fm_now s + fm_timeout s\<rparr>)"
proof -
  note F = fm_wf_filter [OF wf f]
  note R = refreshFilterTimeout_correct [OF fm_wf_ok [OF wf] conjunct1 [OF F]]
  have at: "af_of (fm_store (refreshFilterTimeout s a) b) =
      (if b = a then (af_of (fm_store s a))\<lparr>af_expires := fm_now s + fm_timeout s\<rparr> else af_of (fm_store s b))" for b
    using R(4,5) by (auto simp: same_data_def af_of_def th_key_def fun_eq_iff)
  have inj: "j = i" if "fm_filters s j = Some a" for j
    using fm_wf_filter [OF wf that] F by auto
  show ?thesis
  proof
    fix j show "fm_abs (refreshFilterTimeout s a) j =
      ((fm_abs s)(i \<mapsto> (af_of (fm_store s a))\<lparr>af_expires := fm_now s + fm_timeout s\<rparr>)) j"
      using inj [of j] f by (cases "fm_filters s j") (auto simp: fm_abs_def R(3) at)
  qed
qed

lemma abs_set_msgs:
  assumes wf: "fm_wf s" and f: "fm_filters s i = Some a"
  shows "fm_abs (filter_at s a (\<lambda>x. x\<lparr>nf_msgs := g x\<rparr>)) =
    (fm_abs s)(i \<mapsto> (af_of (fm_store s a))\<lparr>af_msgs := g (fm_store s a)\<rparr>)"
proof
  fix j
  have inj: "j = i" if "fm_filters s j = Some a"
    using fm_wf_filter [OF wf that] fm_wf_filter [OF wf f] by auto
  show "fm_abs (filter_at s a (\<lambda>x. x\<lparr>nf_msgs := g x\<rparr>)) j =
    ((fm_abs s)(i \<mapsto> (af_of (fm_store s a))\<lparr>af_msgs := g (fm_store s a)\<rparr>)) j"
    using inj f by (cases "fm_filters s j") (auto simp: fm_abs_def filter_at_def af_of_def)
qed

lemma app_Copy_id [simp]: "app_Copy a = a"
  by (simp add: app_Copy_def)

text \<open>A panic stays, leaves the rest of the event untouched, and comes exactly from a nil query.\<close>

lemma crashed_stays [simp]: "fm_crashed s \<Longrightarrow> offer_msg ps m s i = s"
  by (simp add: offer_msg_def)

lemma crashed_offers: "fm_crashed s \<Longrightarrow> foldl (offer_msg ps m) s order = s"
  by (induction order) simp_all

lemma crashed_process: "fm_crashed s \<Longrightarrow> processEvent ps orders s ms = s"
  by (induction ps orders s ms rule: processEvent.induct) (simp_all add: appendNodeLogToFilters_def crashed_offers)

definition nil_query :: "nfm \<Rightarrow> string \<Rightarrow> bool" where
  "nil_query s i \<longleftrightarrow> (\<exists>a. fm_filters s i = Some a \<and> nf_query (fm_store s a) = None)"

lemma offer_crashes: "fm_crashed (offer_msg ps m s i) \<longleftrightarrow> fm_crashed s \<or> nil_query s i"
  by (auto simp: offer_msg_def nil_query_def appendLog_def filter_at_def split: option.splits)

lemma offer_keeps_query: "nf_query (fm_store (offer_msg ps m s i) a) = nf_query (fm_store s a)"
  by (simp add: offer_msg_def appendLog_def filter_at_def split: option.splits)

lemma nil_query_offer [simp]: "nil_query (offer_msg ps m s i) j \<longleftrightarrow> nil_query s j"
  by (simp add: nil_query_def offer_keeps_query fm_skelD(2) [OF skel_offer])

lemma offers_crash: "fm_crashed (foldl (offer_msg ps m) s order) \<longleftrightarrow> fm_crashed s \<or> (\<exists>i \<in> set order. nil_query s i)"
  by (induction order arbitrary: s) (auto simp: offer_crashes)

lemma nil_query_offers [simp]: "nil_query (foldl (offer_msg ps m) s order) j \<longleftrightarrow> nil_query s j"
  by (induction order arbitrary: s) simp_all

lemma dom_offers: "fm_filters (foldl (offer_msg ps m) s order) = fm_filters s"
  using fm_skelD(2) [OF skel_append [unfolded appendNodeLogToFilters_def]] .

lemma process_crashes:
  "\<forall>k. set (orders k) = dom (fm_filters s) \<Longrightarrow>
   fm_crashed (processEvent ps orders s ms) \<longleftrightarrow> fm_crashed s \<or> ms \<noteq> [] \<and> (\<exists>i. nil_query s i)"
proof (induction ms arbitrary: s orders)
  case (Cons m ms)
  let ?s = "foldl (offer_msg ps m) s (orders 0)"
  have "(\<exists>i \<in> set (orders 0). nil_query s i) \<longleftrightarrow> (\<exists>i. nil_query s i)"
    using Cons.prems by (auto simp: nil_query_def)
  then show ?case
    using Cons.IH [of "\<lambda>k. orders (Suc k)" ?s] Cons.prems
    by (auto simp: appendNodeLogToFilters_def offers_crash dom_offers)
qed simp

lemma abs_offer:
  assumes wf: "fm_wf s" and nc: "\<not> fm_crashed (offer_msg ps m s i)"
  shows "fm_abs (offer_msg ps m s i) = (fm_abs s)(i := map_option (\<lambda>f. f\<lparr>af_msgs := af_msgs f @
      (if opt_Match ps (af_query f) m then [m] else [])\<rparr>) (fm_abs s i))"
proof (cases "fm_filters s i")
  case None
  then have "fm_abs s i = None" by simp
  then have "(fm_abs s)(i := map_option g (fm_abs s i)) = fm_abs s" for g by auto
  then show ?thesis using None by (simp add: offer_msg_def)
next
  case (Some a)
  then obtain q where q: "nf_query (fm_store s a) = Some q" and ns: "\<not> fm_crashed s"
    using nc by (auto simp: offer_crashes nil_query_def)
  show ?thesis
    using abs_set_msgs [OF wf Some, of "\<lambda>f. nf_msgs f @ [m]"] Some q ns
    by (auto simp: offer_msg_def appendLog_def fm_abs_Some af_of_def opt_Match_def fun_upd_idem)
qed

lemma fm_wf_offer: "fm_wf s \<Longrightarrow> fm_wf (offer_msg ps m s i)"
  by (erule fm_wf_frame) simp_all

lemma abs_offers:
  "fm_wf s \<Longrightarrow> distinct order \<Longrightarrow> \<not> fm_crashed (foldl (offer_msg ps m) s order) \<Longrightarrow>
   fm_abs (foldl (offer_msg ps m) s order) i = (if i \<in> set order then map_option (\<lambda>f. f\<lparr>af_msgs := af_msgs f @
      (if opt_Match ps (af_query f) m then [m] else [])\<rparr>) (fm_abs s i) else fm_abs s i)"
proof (induction order arbitrary: s)
  case (Cons j order)
  have "\<not> fm_crashed (offer_msg ps m s j)" using Cons.prems(3) by (auto simp: offers_crash)
  from Cons.IH [OF fm_wf_offer [OF Cons.prems(1)]] Cons.prems abs_offer [OF Cons.prems(1) this]
  show ?case by auto
qed simp

lemma fm_wf_offers: "fm_wf s \<Longrightarrow> fm_wf (foldl (offer_msg ps m) s order)"
  by (induction order arbitrary: s) (simp_all add: fm_wf_offer)

lemma abs_process:
  assumes "fm_wf s" "\<And>k. distinct (orders k) \<and> set (orders k) = dom (fm_filters s)"
    and "\<not> fm_crashed (processEvent ps orders s ms)"
  shows "fm_abs (processEvent ps orders s ms) i =
    map_option (\<lambda>f. f\<lparr>af_msgs := af_msgs f @ filter (opt_Match ps (af_query f)) ms\<rparr>) (fm_abs s i)"
  using assms
proof (induction ms arbitrary: s orders)
  case Nil
  show ?case by (cases "fm_abs s i") simp_all
next
  case (Cons m ms)
  let ?s = "foldl (offer_msg ps m) s (orders 0)"
  have o: "distinct (orders 0)" "set (orders 0) = dom (fm_filters s)" using Cons.prems(2) by auto
  have nc: "\<not> fm_crashed (processEvent ps (\<lambda>k. orders (Suc k)) ?s ms)"
    using Cons.prems(3) by (simp add: appendNodeLogToFilters_def)
  then have "\<not> fm_crashed ?s" using crashed_process by metis
  then have one: "fm_abs ?s i = map_option (\<lambda>f. f\<lparr>af_msgs := af_msgs f @
      (if opt_Match ps (af_query f) m then [m] else [])\<rparr>) (fm_abs s i)"
    using abs_offers [OF Cons.prems(1) o(1), of ps m i] o(2) by (cases "fm_filters s i") (auto simp: domIff)
  have "fm_abs (processEvent ps (\<lambda>k. orders (Suc k)) ?s ms) i =
     map_option (\<lambda>f. f\<lparr>af_msgs := af_msgs f @ filter (opt_Match ps (af_query f)) ms\<rparr>) (fm_abs ?s i)"
    by (rule Cons.IH [OF fm_wf_offers [OF Cons.prems(1)] _ nc]) (use Cons.prems(2) dom_offers in simp)
  then show ?case unfolding one
    by (cases "fm_abs s i") (simp_all add: appendNodeLogToFilters_def)
qed

end
