(* ===== verification/Dispatcher.thy ===== *)
theory Dispatcher
  imports Telegrams Node_Filters
begin

text \<open>
  The JSON-RPC server of \<open>core/jsonrpc\<close>: the error types (\<open>errors.go\<close>), responses (\<open>web3/codec.go\<close>),
  the reflective dispatcher (\<open>web3/dispatcher.go\<close>), the service behind it (\<open>web3/edge_endpoint.go\<close>)
  and the HTTP and web socket front (\<open>web3/jsonrpc.go\<close>).  A JSON text is parsed to a tree by the
  parameter \<open>js_Parse\<close>; how \<open>encoding/json\<close> stores such a tree into the structs and argument types
  of the code is modelled.  Responses are values; their final serialisation is not modelled.
\<close>

section \<open>Errors and responses\<close>

datatype rpc_error =
    InvalidParams string
  | InternalError string
  | InvalidRequest string
  | SubscriptionNotFound string
  | MethodNotFound string

fun ErrorCode :: "rpc_error \<Rightarrow> int" where
  "ErrorCode (InternalError _) = -32603"
| "ErrorCode (InvalidParams _) = -32602"
| "ErrorCode (InvalidRequest _) = -32600"
| "ErrorCode (SubscriptionNotFound _) = -32601"
| "ErrorCode (MethodNotFound _) = -32601"

fun rpc_Error :: "rpc_error \<Rightarrow> string" where
  "rpc_Error (InternalError err) = err"
| "rpc_Error (InvalidParams err) = err"
| "rpc_Error (InvalidRequest err) = err"
| "rpc_Error (SubscriptionNotFound err) = err"
| "rpc_Error (MethodNotFound err) = err"

definition NewMethodNotFoundError :: "string \<Rightarrow> rpc_error" where
  "NewMethodNotFoundError meth = MethodNotFound (''the method '' @ meth @ '' does not exist/is not available'')"

definition NewSubscriptionNotFoundError :: "string \<Rightarrow> rpc_error" where
  "NewSubscriptionNotFoundError meth = SubscriptionNotFound (''subscribe method '' @ meth @ '' not found'')"

text \<open>A JSON value as \<open>interface{}\<close> holds it; a number is a \<open>float64\<close>, with an integral value or not.\<close>

datatype json =
    JNull
  | JBool bool
  | JInt int
  | JFrac string
  | JStr string
  | JArr "json list"
  | JObj "(string \<times> json) list"

text \<open>What a method returns, before it is encoded.\<close>

datatype rpc_result =
    RUint u64
  | RText string
  | RApps "application list"
  | RBool bool

datatype response =
    SuccessResponse string json "rpc_result option"
  | ErrorResponse string json int string

fun GetID :: "response \<Rightarrow> json" where
  "GetID (SuccessResponse _ i _) = i"
| "GetID (ErrorResponse _ i _ _) = i"

definition NewRPCErrorResponse :: "json \<Rightarrow> int \<Rightarrow> string \<Rightarrow> string \<Rightarrow> response" where
  "NewRPCErrorResponse i errCode err jsonrpcver = ErrorResponse jsonrpcver i errCode err"

definition NewRPCResponse :: "json \<Rightarrow> string \<Rightarrow> rpc_result option \<Rightarrow> rpc_error option \<Rightarrow> response" where
  "NewRPCResponse i jsonrpcver reply err =
     (case err of None \<Rightarrow> SuccessResponse jsonrpcver i reply
      | Some e \<Rightarrow> NewRPCErrorResponse i (ErrorCode e) (rpc_Error e) jsonrpcver)"

section \<open>Requests\<close>

record request =
  rq_ID :: json
  rq_Method :: string
  rq_Params :: "json option"

definition zero_request :: request where
  "zero_request = \<lparr>rq_ID = JNull, rq_Method = '''', rq_Params = None\<rparr>"

definition to_lower :: "char \<Rightarrow> char" where
  "to_lower c = (let n = of_char c :: nat in if 65 \<le> n \<and> n \<le> 90 then char_of (n + 32) else c)"

definition key_is :: "string \<Rightarrow> string \<Rightarrow> bool" where
  "key_is k name \<longleftrightarrow> map to_lower k = name"

text \<open>\<open>json.Unmarshal\<close> into a request: keys match without regard to case, the last one wins, and a
  value of the wrong type is remembered as the error while decoding goes on.\<close>

definition JsonTypeError :: go_err where "JsonTypeError = GoErr ''json: cannot unmarshal''"

definition request_field :: "request \<times> go_err option \<Rightarrow> string \<times> json \<Rightarrow> request \<times> go_err option" where
  "request_field = (\<lambda>(r, e) (k, v).
     if key_is k ''id'' then (r\<lparr>rq_ID := v\<rparr>, e)
     else if key_is k ''method'' then
       (case v of JStr m \<Rightarrow> (r\<lparr>rq_Method := m\<rparr>, e) | JNull \<Rightarrow> (r, e) | _ \<Rightarrow> (r, Some JsonTypeError))
     else if key_is k ''params'' then (r\<lparr>rq_Params := Some v\<rparr>, e)
     else (r, e))"

definition decode_request :: "json \<Rightarrow> request \<times> go_err option" where
  "decode_request j = (case j of
     JObj kvs \<Rightarrow> foldl request_field (zero_request, None) kvs
   | JNull \<Rightarrow> (zero_request, None)
   | _ \<Rightarrow> (zero_request, Some JsonTypeError))"

definition query_field :: "node_query \<times> go_err option \<Rightarrow> string \<times> json \<Rightarrow> node_query \<times> go_err option" where
  "query_field = (\<lambda>(q, e) (k, v).
     if key_is k ''name'' \<or> key_is k ''tag'' \<or> key_is k ''id'' \<or> key_is k ''version'' then
       (case v of
          JStr x \<Rightarrow> (if key_is k ''name'' then q\<lparr>nq_Name := x\<rparr> else if key_is k ''tag'' then q\<lparr>nq_Tag := x\<rparr>
                    else if key_is k ''id'' then q\<lparr>nq_Id := x\<rparr> else q\<lparr>nq_Version := x\<rparr>, e)
        | JNull \<Rightarrow> (q, e)
        | _ \<Rightarrow> (q, Some JsonTypeError))
     else (q, e))"

definition zero_query :: node_query where
  "zero_query = \<lparr>nq_Name = '''', nq_Tag = '''', nq_Id = '''', nq_Version = ''''\<rparr>"

text \<open>\<open>json.Unmarshal(raw, &query)\<close> with a pointer \<open>query\<close>: null makes it nil.\<close>

definition decode_query :: "json \<Rightarrow> go_err + node_query option" where
  "decode_query j = (case j of
     JNull \<Rightarrow> Inr None
   | JObj kvs \<Rightarrow> (case foldl query_field (zero_query, None) kvs of
       (_, Some e) \<Rightarrow> Inl e | (q, None) \<Rightarrow> Inr (Some q))
   | _ \<Rightarrow> Inl JsonTypeError)"

section \<open>The Edge service\<close>

text \<open>The pool behind \<open>AddTele\<close> is the parameter \<open>AddTele\<close> on a state \<open>'p\<close>.\<close>

record 'p edge =
  ed_networkID :: u64
  ed_filters :: nfm
  ed_pool :: 'p

record ('p, 'v) edge_env =
  ee_rlp :: "'v rlp_lib"
  ee_AddTele :: "'p \<Rightarrow> telegram \<Rightarrow> (go_err + string) \<times> 'p"

text \<open>The outcome of a call and the state after it; \<open>Inl\<close> is a panic of the method.\<close>

type_synonym 'p call_result = "(go_err + (rpc_result option \<times> go_err option)) \<times> 'p edge"

definition NetworkId :: "'p edge \<Rightarrow> 'p call_result" where
  "NetworkId e = (Inr (Some (RUint (ed_networkID e)), None), e)"

definition telegram_reply :: "telegram \<Rightarrow> string \<Rightarrow> string" where
  "telegram_reply tele teleResp = ''{'' @ quoted ''telegram_hash'' @ '':'' @ quoted (Hash_String (tg_Hash tele)) @
     '','' @ quoted ''response'' @ '':'' @ quoted teleResp @ ''}''"

text \<open>The log line calls \<open>tele.To.String()\<close> before anything else happens.\<close>

definition SendRawTelegram :: "('p, 'v) edge_env \<Rightarrow> bytes \<Rightarrow> 'p edge \<Rightarrow> 'p call_result" where
  "SendRawTelegram E buf e =
     (case UnmarshalRLP (ee_rlp E) zero_telegram buf of
        Inl err \<Rightarrow> (if is_panic err then Inl err else Inr (None, Some err), e)
      | Inr tele \<Rightarrow>
          (case deref (tg_To tele) of
             Inl err \<Rightarrow> (Inl err, e)
           | Inr _ \<Rightarrow>
               (let tele' = ComputeHash (ee_rlp E) tele in
                case ee_AddTele E (ed_pool e) tele' of
                  (Inl teleErr, p) \<Rightarrow> (Inr (None, Some teleErr), e\<lparr>ed_pool := p\<rparr>)
                | (Inr teleResp, p) \<Rightarrow>
                    (Inr (Some (RText (telegram_reply tele' teleResp)), None), e\<lparr>ed_pool := p\<rparr>))))"

definition ed_GetFilterChanges :: "string \<Rightarrow> 'p edge \<Rightarrow> 'p call_result" where
  "ed_GetFilterChanges i e = (case GetFilterChanges (ed_filters e) i of
     (Inl err, m) \<Rightarrow> (Inr (None, Some err), e\<lparr>ed_filters := m\<rparr>)
   | (Inr res, m) \<Rightarrow> (Inr (Some (RApps res), None), e\<lparr>ed_filters := m\<rparr>))"

definition UninstallFilter :: "string \<Rightarrow> 'p edge \<Rightarrow> 'p call_result" where
  "UninstallFilter i e = (case Uninstall (ed_filters e) i of
     (ok, m) \<Rightarrow> (Inr (Some (RBool ok), None), e\<lparr>ed_filters := m\<rparr>))"

definition Unsubscribe :: "string \<Rightarrow> 'p edge \<Rightarrow> 'p call_result" where
  "Unsubscribe i e = (case Uninstall (ed_filters e) i of
     (ok, m) \<Rightarrow> (Inr (Some (RBool ok), None), e\<lparr>ed_filters := m\<rparr>))"

section \<open>The dispatcher\<close>

text \<open>The parameter types of registered methods, and decoding one JSON value into a fresh variable of
  the type: null keeps the zero value, and a bad hexadecimal text does too.\<close>

datatype arg_type = TString | TArgBytes
datatype arg = AString string | ABytes bytes

fun zero_arg :: "arg_type \<Rightarrow> arg" where
  "zero_arg TString = AString ''''"
| "zero_arg TArgBytes = ABytes []"

fun decode_arg :: "arg_type \<Rightarrow> json \<Rightarrow> go_err + arg" where
  "decode_arg TString (JStr s) = Inr (AString s)"
| "decode_arg TArgBytes (JStr s) = Inr (ABytes (argBytes_UnmarshalText [] s))"
| "decode_arg t JNull = Inr (zero_arg t)"
| "decode_arg _ _ = Inl JsonTypeError"

record 'p func_data =
  fd_reqt :: "arg_type list"
  fd_fv :: "arg list \<Rightarrow> 'p edge \<Rightarrow> 'p call_result"

definition numParams :: "'p func_data \<Rightarrow> nat" where "numParams fd = length (fd_reqt fd)"

type_synonym 'p service_data = "string \<rightharpoonup> 'p func_data"

definition lowerCaseFirst :: "string \<Rightarrow> string" where
  "lowerCaseFirst str = (case str of [] \<Rightarrow> '''' | v # rest \<Rightarrow> to_lower v # rest)"

definition one_string :: "(string \<Rightarrow> 'p edge \<Rightarrow> 'p call_result) \<Rightarrow> arg list \<Rightarrow> 'p edge \<Rightarrow> 'p call_result" where
  "one_string f args = (case args of [AString s] \<Rightarrow> f s | _ \<Rightarrow> (\<lambda>e. (Inl (GoPanic ''reflect: Call''), e)))"

definition one_bytes :: "(bytes \<Rightarrow> 'p edge \<Rightarrow> 'p call_result) \<Rightarrow> arg list \<Rightarrow> 'p edge \<Rightarrow> 'p call_result" where
  "one_bytes f args = (case args of [ABytes b] \<Rightarrow> f b | _ \<Rightarrow> (\<lambda>e. (Inl (GoPanic ''reflect: Call''), e)))"

text \<open>A method as \<open>reflect\<close> describes it: its name, whether it is exported, the types of its parameters
  after the receiver and of its results, and its function.\<close>

datatype go_type = TInterface | TError | TBool | TOther string

record 'p go_method =
  gm_Name :: string
  gm_exported :: bool
  gm_IsFunc :: bool
  gm_In :: "arg_type list"
  gm_Out :: "go_type list"
  gm_Func :: "arg list \<Rightarrow> 'p edge \<Rightarrow> 'p call_result"

definition isErrorType :: "go_type \<Rightarrow> bool" where "isErrorType t \<longleftrightarrow> t = TError"

text \<open>The number of inputs counts the receiver.\<close>

definition validateFunc :: "string \<Rightarrow> 'p go_method \<Rightarrow> go_err + (nat \<times> arg_type list)" where
  "validateFunc funcName m =
     (if funcName = '''' then Inl (GoErr ''funcName cannot be empty'')
      else if \<not> gm_IsFunc m then Inl (GoErr (''function '' @ funcName @ '' must be a function''))
      else if length (gm_Out m) \<noteq> 2
        then Inl (GoErr (''unexpected number of output arguments in the function '' @ funcName))
      else if \<not> isErrorType (gm_Out m ! 1)
        then Inl (GoErr (''unexpected type for the second return value of the function '' @ funcName))
      else Inr (1 + length (gm_In m), gm_In m))"

text \<open>The methods of \<open>*Edge\<close>, with the parameter and result types of their declarations.\<close>

definition edge_method ::
    "string \<Rightarrow> arg_type list \<Rightarrow> go_type list \<Rightarrow> (arg list \<Rightarrow> 'p edge \<Rightarrow> 'p call_result) \<Rightarrow> 'p go_method" where
  "edge_method name ins outs f = \<lparr>gm_Name = name, gm_exported = True, gm_IsFunc = True, gm_In = ins,
     gm_Out = outs, gm_Func = f\<rparr>"

definition edge_methods :: "('p, 'v) edge_env \<Rightarrow> 'p go_method list" where
  "edge_methods E =
     [edge_method ''GetFilterChanges'' [TString] [TInterface, TError] (one_string ed_GetFilterChanges),
      edge_method ''NetworkId'' [] [TInterface, TError] (\<lambda>_. NetworkId),
      edge_method ''SendRawTelegram'' [TArgBytes] [TInterface, TError] (one_bytes (SendRawTelegram E)),
      edge_method ''UninstallFilter'' [TString] [TBool, TError] (one_string UninstallFilter),
      edge_method ''Unsubscribe'' [TString] [TBool, TError] (one_string Unsubscribe)]"

record ('p, 'v) dispatcher =
  di_services :: "string \<rightharpoonup> 'p service_data"
  di_batchLimit :: u64

fun reg_methods :: "string \<Rightarrow> 'p go_method list \<Rightarrow> 'p service_data \<Rightarrow> go_err + 'p service_data" where
  "reg_methods serviceName [] funcMap = Inr funcMap"
| "reg_methods serviceName (mv # ms) funcMap =
     (if \<not> gm_exported mv then reg_methods serviceName ms funcMap
      else let name = lowerCaseFirst (gm_Name mv) in
        (case validateFunc (serviceName @ ''_'' @ name) mv of
           Inl (GoErr err) \<Rightarrow> Inl (GoPanic (''jsonrpc: '' @ err))
         | Inl err \<Rightarrow> Inl err
         | Inr (inNum, reqt) \<Rightarrow>
             reg_methods serviceName ms (funcMap(name \<mapsto> \<lparr>fd_reqt = reqt, fd_fv = gm_Func mv\<rparr>))))"

text \<open>A service is a pointer to a struct, or not; a value would panic.\<close>

definition registerService ::
    "string \<Rightarrow> bool \<Rightarrow> 'p go_method list \<Rightarrow> ('p, 'v) dispatcher \<Rightarrow> go_err + ('p, 'v) dispatcher" where
  "registerService serviceName isStruct methods d =
     (if serviceName = '''' then Inl (GoPanic ''jsonrpc: serviceName cannot be empty'')
      else if isStruct then Inl (GoPanic (''jsonrpc: service '' @ serviceName @ '' must be a pointer to struct''))
      else rbind (reg_methods serviceName methods Map.empty)
        (\<lambda>funcMap. Inr (d\<lparr>di_services := (di_services d)(serviceName \<mapsto> funcMap)\<rparr>)))"

text \<open>\<open>NewJSONRPC\<close> gives the dispatcher no batch limit, so it is zero.\<close>

definition newDispatcher :: "('p, 'v) edge_env \<Rightarrow> u64 \<Rightarrow> go_err + ('p, 'v) dispatcher" where
  "newDispatcher E jsonRPCBatchLengthLimit =
     registerService ''edge'' False (edge_methods E)
       \<lparr>di_services = Map.empty, di_batchLimit = jsonRPCBatchLengthLimit\<rparr>"

text \<open>\<open>strings.SplitN(s, "_", 2)\<close>: the parts around the first underscore.\<close>

fun split_underscore :: "string \<Rightarrow> (string \<times> string) option" where
  "split_underscore [] = None"
| "split_underscore (c # cs) =
     (if c = CHR ''_'' then Some ('''', cs)
      else map_option (\<lambda>(a, b). (c # a, b)) (split_underscore cs))"

definition getFnHandler :: "('p, 'v) dispatcher \<Rightarrow> request \<Rightarrow> rpc_error + 'p func_data" where
  "getFnHandler d req =
     (case split_underscore (rq_Method req) of
        None \<Rightarrow> Inl (NewMethodNotFoundError (rq_Method req))
      | Some (serviceName, funcName) \<Rightarrow>
          (case di_services d serviceName of
             None \<Rightarrow> Inl (NewMethodNotFoundError (rq_Method req))
           | Some service \<Rightarrow>
               (case service funcName of
                  None \<Rightarrow> Inl (NewMethodNotFoundError (rq_Method req))
                | Some fd \<Rightarrow> Inr fd)))"

text \<open>\<open>json.Unmarshal(req.Params, &inputs)\<close>: missing elements leave zero values, extra ones are
  dropped, absent parameters or a value that is no array are an error.\<close>

fun decode_args :: "arg_type list \<Rightarrow> json list \<Rightarrow> go_err + arg list" where
  "decode_args [] vs = Inr []"
| "decode_args (t # ts) [] = rbind (decode_args ts []) (\<lambda>as. Inr (zero_arg t # as))"
| "decode_args (t # ts) (v # vs) = rbind (decode_arg t v) (\<lambda>a. rbind (decode_args ts vs) (\<lambda>as. Inr (a # as)))"

definition decode_params :: "arg_type list \<Rightarrow> json option \<Rightarrow> go_err + arg list" where
  "decode_params ts params =
     (if ts = [] then Inr []
      else case params of
        Some (JArr vs) \<Rightarrow> decode_args ts vs
      | Some JNull \<Rightarrow> Inr (map zero_arg ts)
      | _ \<Rightarrow> Inl JsonTypeError)"

text \<open>\<open>js_Encodes\<close> says whether \<open>json.Marshal\<close> accepts a result; \<open>err_text\<close> is \<open>err.Error()\<close>.\<close>

record json_lib =
  js_Parse :: "string \<Rightarrow> go_err + json"
  js_Encodes :: "rpc_result \<Rightarrow> bool"
  js_err_text :: "go_err \<Rightarrow> string"

text \<open>\<open>fd.fv.Call(inArgs)\<close> panics unless the arguments have the types of the parameters.\<close>

fun arg_has_type :: "arg \<Rightarrow> arg_type \<Rightarrow> bool" where
  "arg_has_type (AString _) t \<longleftrightarrow> t = TString"
| "arg_has_type (ABytes _) t \<longleftrightarrow> t = TArgBytes"

definition reflect_Call :: "'p func_data \<Rightarrow> arg list \<Rightarrow> 'p edge \<Rightarrow> 'p call_result" where
  "reflect_Call fd inArgs e =
     (if list_all2 arg_has_type inArgs (fd_reqt fd) then fd_fv fd inArgs e
      else (Inl (GoPanic ''reflect: Call using argument of another type''), e))"

definition handleReq ::
    "json_lib \<Rightarrow> ('p, 'v) dispatcher \<Rightarrow> request \<Rightarrow> 'p edge \<Rightarrow>
      (go_err + (rpc_error + rpc_result option)) \<times> 'p edge" where
  "handleReq J d req e =
     (case getFnHandler d req of
        Inl ferr \<Rightarrow> (Inr (Inl ferr), e)
      | Inr fd \<Rightarrow>
          (case decode_params (fd_reqt fd) (rq_Params req) of
             Inl _ \<Rightarrow> (Inr (Inl (InvalidParams ''Invalid Params'')), e)
           | Inr inArgs \<Rightarrow>
               (case reflect_Call fd inArgs e of
                  (Inl panic, e') \<Rightarrow> (Inl panic, e')
                | (Inr (_, Some err), e') \<Rightarrow> (Inr (Inl (InvalidRequest (js_err_text J err))), e')
                | (Inr (None, None), e') \<Rightarrow> (Inr (Inr None), e')
                | (Inr (Some res, None), e') \<Rightarrow>
                    (if js_Encodes J res then Inr (Inr (Some res))
                     else Inr (Inl (InternalError ''Internal error'')), e'))))"

section \<open>HTTP requests\<close>

datatype reply = Single response | Batch "response list"

definition bad_request :: "json \<Rightarrow> response" where
  "bad_request i = NewRPCResponse i ''2.0'' None (Some (InvalidRequest ''Invalid json request''))"

definition is_ws_char :: "char \<Rightarrow> bool" where
  "is_ws_char c \<longleftrightarrow> c \<in> {CHR '' '', CHR 0x09, CHR 0x0D, CHR 0x0A}"

definition respond :: "json \<Rightarrow> rpc_error + rpc_result option \<Rightarrow> response" where
  "respond i r = (case r of
     Inl err \<Rightarrow> NewRPCResponse i ''2.0'' None (Some err)
   | Inr resp \<Rightarrow> NewRPCResponse i ''2.0'' resp None)"

fun handle_batch ::
    "json_lib \<Rightarrow> ('p, 'v) dispatcher \<Rightarrow> request list \<Rightarrow> 'p edge \<Rightarrow> (go_err + response list) \<times> 'p edge" where
  "handle_batch J d [] e = (Inr [], e)"
| "handle_batch J d (req # reqs) e =
     (case handleReq J d req e of
        (Inl panic, e1) \<Rightarrow> (Inl panic, e1)
      | (Inr r, e1) \<Rightarrow>
          (case handle_batch J d reqs e1 of
             (Inl panic, e2) \<Rightarrow> (Inl panic, e2)
           | (Inr rs, e2) \<Rightarrow> (Inr (respond (rq_ID req) r # rs), e2)))"

text \<open>Decoding a batch: the array must hold requests; null is the empty batch.\<close>

definition decode_batch :: "json \<Rightarrow> go_err + request list" where
  "decode_batch j = (case j of
     JArr js \<Rightarrow> (if \<exists>x \<in> set js. snd (decode_request x) \<noteq> None then Inl JsonTypeError
                 else Inr (map (\<lambda>x. fst (decode_request x)) js))
   | JNull \<Rightarrow> Inr []
   | _ \<Rightarrow> Inl JsonTypeError)"

definition handle_one ::
    "json_lib \<Rightarrow> ('p, 'v) dispatcher \<Rightarrow> request \<Rightarrow> 'p edge \<Rightarrow> (go_err + reply) \<times> 'p edge" where
  "handle_one J d req e =
     (if rq_Method req = '''' then (Inr (Single (bad_request (rq_ID req))), e)
      else (case handleReq J d req e of
          (Inl panic, e') \<Rightarrow> (Inl panic, e')
        | (Inr r, e') \<Rightarrow> (Inr (Single (respond (rq_ID req) r)), e')))"

definition handle_many ::
    "json_lib \<Rightarrow> ('p, 'v) dispatcher \<Rightarrow> request list \<Rightarrow> 'p edge \<Rightarrow> (go_err + reply) \<times> 'p edge" where
  "handle_many J d requests e =
     (if di_batchLimit d \<noteq> 0 \<and> sint (di_batchLimit d) < int (length requests)
      then (Inr (Single (NewRPCResponse JNull ''2.0'' None
              (Some (InvalidRequest ''Batch request length too long'')))), e)
      else (case handle_batch J d requests e of
          (Inl panic, e') \<Rightarrow> (Inl panic, e')
        | (Inr rs, e') \<Rightarrow> (Inr (Batch rs), e')))"

definition Handle ::
    "json_lib \<Rightarrow> ('p, 'v) dispatcher \<Rightarrow> string \<Rightarrow> 'p edge \<Rightarrow> (go_err + reply) \<times> 'p edge" where
  "Handle J d reqBody e =
     (let x = dropWhile is_ws_char reqBody in
      if length x = 0 then (Inr (Single (bad_request JNull)), e)
      else if x ! 0 = CHR ''{'' then
        (case map_sum id decode_request (js_Parse J reqBody) of
           Inr (req, None) \<Rightarrow> handle_one J d req e
         | _ \<Rightarrow> (Inr (Single (bad_request JNull)), e))
      else
        (case rbind (js_Parse J reqBody) decode_batch of
           Inl _ \<Rightarrow> (Inr (Single (bad_request JNull)), e)
         | Inr requests \<Rightarrow> handle_many J d requests e))"

section \<open>Web socket requests\<close>

text \<open>\<open>int(t)\<close> of an integral \<open>float64\<close>; outside of 64 bits the result is the smallest integer, as on
  amd64.  Its decimal text is the parameter \<open>dec\<close> of the response.\<close>

definition float_to_int :: "int \<Rightarrow> int" where
  "float_to_int t = (if - (2 ^ 63) \<le> t \<and> t < 2 ^ 63 then t else - (2 ^ 63))"

definition filter_reply :: "string \<Rightarrow> string \<Rightarrow> string" where
  "filter_reply i resp = ''{'' @ quoted ''jsonrpc'' @ '':'' @ quoted ''2.0'' @ '','' @ quoted ''id'' @ '':'' @ i @
     '','' @ quoted ''result'' @ '':'' @ quoted resp @ ''}''"

definition formatFilterResponse :: "json \<Rightarrow> string \<Rightarrow> rpc_error + string" where
  "formatFilterResponse i resp = (case i of
     JStr t \<Rightarrow> Inr (filter_reply (quoted t) resp)
   | JInt t \<Rightarrow> Inr (filter_reply (itoa (float_to_int t)) resp)
   | JNull \<Rightarrow> Inr (filter_reply ''null'' resp)
   | _ \<Rightarrow> Inl (InvalidRequest ''Invalid json request''))"

definition handleEdgeSubscribe ::
    "json_lib \<Rightarrow> string \<Rightarrow> request \<Rightarrow> ws_conn \<Rightarrow> nfm \<Rightarrow> (rpc_error + string) \<times> nfm" where
  "handleEdgeSubscribe J uuid req conn m =
     (case rq_Params req of
        None \<Rightarrow> (Inl (InvalidRequest ''Invalid json request''), m)
      | Some p \<Rightarrow>
          (case (case p of JArr vs \<Rightarrow> Some vs | JNull \<Rightarrow> Some [] | _ \<Rightarrow> None) of
             None \<Rightarrow> (Inl (InvalidRequest ''Invalid json request''), m)
           | Some params \<Rightarrow>
               if length params = 0 then (Inl (InvalidParams ''Invalid params''), m)
               else (case params ! 0 of
                   JStr subscribeMethod \<Rightarrow>
                     if subscribeMethod = ''node'' then
                       (if length params < 2 then (Inl (InvalidRequest ''params[1] is not exist''), m)
                        else (case DecodeNodeQueryFromInterface Inr decode_query (params ! 1) of
                            Inl err \<Rightarrow> (Inl (InternalError (js_err_text J err)), m)
                          | Inr nodeQuery \<Rightarrow>
                              (case NewNodeFilter m uuid nodeQuery (Some conn) of
                                 (filterID, m') \<Rightarrow> (Inr filterID, m'))))
                     else (Inl (NewSubscriptionNotFoundError subscribeMethod), m)
                 | _ \<Rightarrow> (Inl (NewSubscriptionNotFoundError ''''), m))))"

text \<open>The three kinds of answer of \<open>HandleWs\<close>: a response to serialise, a formatted text, or an error
  of Go, which \<open>handleWs\<close> writes as plain text.\<close>

datatype ws_reply = WsResponse response | WsText string | WsError rpc_error

definition ws_subscribe ::
    "json_lib \<Rightarrow> string \<Rightarrow> request \<Rightarrow> ws_conn \<Rightarrow> nfm \<Rightarrow> ws_reply \<times> nfm" where
  "ws_subscribe J uuid req conn m =
     (case handleEdgeSubscribe J uuid req conn m of
        (Inl err, m') \<Rightarrow> (WsResponse (NewRPCResponse (rq_ID req) ''2.0'' None (Some err)), m')
      | (Inr filterID, m') \<Rightarrow>
          (case formatFilterResponse (rq_ID req) filterID of
             Inl err \<Rightarrow> (WsResponse (NewRPCResponse (rq_ID req) ''2.0'' None (Some err)), m')
           | Inr resp \<Rightarrow> (WsText resp, m')))"

definition HandleWs ::
    "json_lib \<Rightarrow> ('p, 'v) dispatcher \<Rightarrow> string \<Rightarrow> string \<Rightarrow> ws_conn \<Rightarrow> 'p edge \<Rightarrow> (go_err + ws_reply) \<times> 'p edge" where
  "HandleWs J d uuid reqBody conn e =
     (case (case js_Parse J reqBody of Inl err \<Rightarrow> (zero_request, Some err) | Inr j \<Rightarrow> decode_request j) of
        (req, Some _) \<Rightarrow> (Inr (WsResponse (bad_request (rq_ID req))), e)
      | (req, None) \<Rightarrow>
          if rq_Method req = ''edge_subscribe'' then
            (case ws_subscribe J uuid req conn (ed_filters e) of (r, m) \<Rightarrow> (Inr r, e\<lparr>ed_filters := m\<rparr>))
          else (case handleReq J d req e of
              (Inl panic, e') \<Rightarrow> (Inl panic, e')
            | (Inr (Inl err), e') \<Rightarrow> (Inr (WsError err), e')
            | (Inr (Inr resp), e') \<Rightarrow> (Inr (WsResponse (NewRPCResponse (rq_ID req) ''2.0'' resp None)), e')))"

definition di_RemoveFilterByWs :: "ws_conn \<Rightarrow> 'p edge \<Rightarrow> 'p edge" where
  "di_RemoveFilterByWs conn e = e\<lparr>ed_filters := RemoveFilterByWs (ed_filters e) conn\<rparr>"

section \<open>The front\<close>

text \<open>The value of \<open>Access-Control-Allow-Origin\<close> the middleware sets, if any.\<close>

fun allow_origin :: "string list \<Rightarrow> string \<Rightarrow> string option" where
  "allow_origin [] origin = None"
| "allow_origin (allowedOrigin # os) origin =
     (if allowedOrigin = ''*'' then Some ''*''
      else if allowedOrigin = origin then Some origin
      else allow_origin os origin)"

text \<open>A panic in the goroutine of an HTTP request is recovered by \<open>net/http\<close>, which closes the
  connection; one in the goroutine that \<open>handleWs\<close> starts for a message ends the process.\<close>

datatype http_out = HReply reply | HInfo | HNothing | HNotAllowed | HClosed

definition jr_handle :: "json_lib \<Rightarrow> ('p, 'v) dispatcher \<Rightarrow> string \<Rightarrow> string \<Rightarrow> 'p edge \<Rightarrow> http_out \<times> 'p edge" where
  "jr_handle J d meth body e =
     (if meth = ''POST'' then
        (case Handle J d body e of (Inl _, e') \<Rightarrow> (HClosed, e') | (Inr r, e') \<Rightarrow> (HReply r, e'))
      else if meth = ''GET'' then (HInfo, e)
      else if meth = ''OPTIONS'' then (HNothing, e)
      else (HNotAllowed, e))"

datatype ws_event = WsMessage nat string string | WsReadError

datatype ws_out = WsWrite ws_reply | WsIgnored | WsGone

definition isSupportedWSType :: "nat \<Rightarrow> bool" where
  "isSupportedWSType messageType \<longleftrightarrow> messageType = 1 \<or> messageType = 2"

text \<open>One turn of the read loop of \<open>handleWs\<close> with its message handled at once; \<open>Inl\<close> is the end of
  the process.  A message carries the identifier a new filter would get.\<close>

definition handleWs_turn ::
    "json_lib \<Rightarrow> ('p, 'v) dispatcher \<Rightarrow> ws_conn \<Rightarrow> ws_event \<Rightarrow> 'p edge \<Rightarrow> (go_err + ws_out) \<times> 'p edge" where
  "handleWs_turn J d conn ev e = (case ev of
     WsReadError \<Rightarrow> (Inr WsGone, di_RemoveFilterByWs conn e)
   | WsMessage msgType uuid message \<Rightarrow>
       if isSupportedWSType msgType
       then (case HandleWs J d uuid message conn e of (r, e') \<Rightarrow> (map_sum id WsWrite r, e'))
       else (Inr WsIgnored, e))"

end
