(* ===== verification/Relay.thy ===== *)
theory Relay
  imports Net_Server Applications "HOL-Library.Char_ord" "HOL-Library.List_Lexorder"
begin

text \<open>
  The relay package: the table of relay nodes (\<open>relaynodes.go\<close>), the client that keeps a reservation at a
  relay and tells it that the node is alive (\<open>relay_client.go\<close>), the relay server
  (\<open>relay_server.go\<close>) and its alive service (\<open>alive_service.go\<close>).  libp2p is the record \<open>host\<close> of
  \<open>Net_Server\<close>; \<open>relay_lib\<close> adds the reservation call and the remote \<open>Hello\<close>.  The two periodic
  goroutines of the client are program counters of the state \<open>rc_sys\<close>; a step runs one of them up to
  its next wait or, inside \<open>addRelaynodes\<close>, to its next access to the tables it shares.
\<close>

section \<open>Slices of nodes\<close>

text \<open>A slice is a backing array and a length; the length of an array is its capacity, and a cell beyond
  every slice holds a nil pointer.  \<open>append\<close> writes into the spare capacity of the array, where other
  slices may see it, or copies to a new array.\<close>

type_synonym node_mem = "addr_info list list"

record node_slice =
  sl_array :: nat
  sl_len :: nat

definition nodes_of :: "node_mem \<Rightarrow> node_slice \<Rightarrow> addr_info list" where
  "nodes_of M sl = take (sl_len sl) (M ! sl_array sl)"

text \<open>The capacity \<open>append\<close> gives a full array of pointers; above 256 it is rounded up further.\<close>

definition growslice :: "nat \<Rightarrow> nat" where
  "growslice c = (if c = 0 then 1 else if c < 256 then 2 * c else c + (c + 768) div 4)"

definition nil_node :: addr_info where "nil_node = \<lparr>ai_ID = [], ai_Addrs = []\<rparr>"

definition go_append :: "node_mem \<Rightarrow> node_slice \<Rightarrow> addr_info \<Rightarrow> node_mem \<times> node_slice" where
  "go_append M sl x =
     (let a = M ! sl_array sl; n = sl_len sl in
      if n < length a then (M[sl_array sl := a[n := x]], sl\<lparr>sl_len := Suc n\<rparr>)
      else (M @ [a @ [x] @ replicate (growslice n - Suc n) nil_node], \<lparr>sl_array = length M, sl_len = Suc n\<rparr>))"

definition make_slice :: "node_mem \<Rightarrow> node_mem \<times> node_slice" where
  "make_slice M = (M @ [[]], \<lparr>sl_array = length M, sl_len = 0\<rparr>)"

section \<open>Relay nodes\<close>

record relaynodes_wrapper =
  relaynodeArr :: node_slice
  relaynodesMap :: "peer_id \<rightharpoonup> addr_info"
  relaynodeConnCount :: int64

definition MinimumRelayNodes :: nat where "MinimumRelayNodes = 1"
definition MinimumRelayConnections :: int64 where "MinimumRelayConnections = 1"

definition ErrNoRelaynodes :: go_err where "ErrNoRelaynodes = GoErr ''no relaynodes specified''"
definition ErrMinRelaynodes :: go_err where "ErrMinRelaynodes = GoErr ''minimum 1 relaynode is required''"

definition isRelaynode :: "relaynodes_wrapper \<Rightarrow> peer_id \<Rightarrow> bool" where
  "isRelaynode bw nodeID \<longleftrightarrow> relaynodesMap bw nodeID \<noteq> None"

definition getRelaynodeConnCount :: "relaynodes_wrapper \<Rightarrow> int64" where
  "getRelaynodeConnCount bw = relaynodeConnCount bw"

definition increaseRelaynodeConnCount :: "int64 \<Rightarrow> relaynodes_wrapper \<Rightarrow> relaynodes_wrapper" where
  "increaseRelaynodeConnCount delta bw = bw\<lparr>relaynodeConnCount := relaynodeConnCount bw + delta\<rparr>"

definition getRelaynodes :: "node_mem \<Rightarrow> relaynodes_wrapper \<Rightarrow> addr_info list" where
  "getRelaynodes M bw = nodes_of M (relaynodeArr bw)"

definition getRelaynodeCount :: "relaynodes_wrapper \<Rightarrow> nat" where
  "getRelaynodeCount bw = sl_len (relaynodeArr bw)"

definition hasRelaynodes :: "relaynodes_wrapper \<Rightarrow> bool" where
  "hasRelaynodes bw \<longleftrightarrow> getRelaynodeCount bw > 0"

text \<open>The loop of both \<open>setupRelaynodes\<close>.\<close>

fun parse_relaynodes ::
    "'w host \<Rightarrow> string list \<Rightarrow> node_mem \<Rightarrow> node_slice \<Rightarrow> (peer_id \<rightharpoonup> addr_info) \<Rightarrow>
      go_err + (node_mem \<times> node_slice \<times> (peer_id \<rightharpoonup> addr_info))" where
  "parse_relaynodes H [] M arr m = Inr (M, arr, m)"
| "parse_relaynodes H (rawAddr # rest) M arr m =
     (case StringToAddrInfo (ho_codec H) rawAddr of
        Inl e \<Rightarrow> Inl (GoWrap (''failed to parse relaynode '' @ rawAddr @ '': '') e)
      | Inr node \<Rightarrow>
          if ai_ID node = ho_ID H then parse_relaynodes H rest M arr m
          else (case go_append M arr node of
             (M', arr') \<Rightarrow> parse_relaynodes H rest M' arr' (m(ai_ID node \<mapsto> node))))"

definition new_relaynodes :: "node_slice \<times> (peer_id \<rightharpoonup> addr_info) \<Rightarrow> relaynodes_wrapper" where
  "new_relaynodes am = \<lparr>relaynodeArr = fst am, relaynodesMap = snd am, relaynodeConnCount = 0\<rparr>"

section \<open>State of the client\<close>

record reservation =
  rv_Expiration :: int

record relay_conn_info =
  rci_Info :: addr_info
  rci_connDirections :: "direction \<rightharpoonup> bool"
  rci_protocolStreams :: "string \<rightharpoonup> nat option"

text \<open>\<open>addRelayPeerInfo\<close>, the only constructor, always sets \<open>Info\<close>, so the pointer is never nil.\<close>

record relay_peer_info =
  rpi_Info :: relay_conn_info
  rpi_Reservation :: reservation

record alive_status =
  al_Name :: string
  al_StartupTime :: u64
  al_Uptime :: u64
  al_Relay :: string
  al_AppOrigin :: string
  al_Mac :: string
  al_CpuInfo :: string
  al_GpuInfo :: string
  al_MemInfo :: string
  al_ModelHash :: string
  al_AveragePower :: "32 word"
  al_Version :: string

record 'w relay_lib =
  rk_host :: "'w host"
  rk_Reserve :: "'w \<Rightarrow> addr_info \<Rightarrow> (go_err + reservation) \<times> 'w"
  rk_Hello :: "'w \<Rightarrow> nat \<Rightarrow> alive_status \<Rightarrow> (go_err + (bool \<times> string)) \<times> 'w"

record 'w relay_client =
  cl_closed :: bool
  cl_protocols :: "string \<rightharpoonup> nat"
  cl_peers :: "peer_id \<rightharpoonup> peer_conn_info"
  cl_relayPeers :: "peer_id \<rightharpoonup> relay_peer_info"
  cl_relaynodes :: relaynodes_wrapper
  cl_arrays :: node_mem
  cl_application :: "application option"
  cl_world :: 'w

definition on_net :: "('w \<Rightarrow> 'a \<times> 'w) \<Rightarrow> 'w relay_client \<Rightarrow> 'a \<times> 'w relay_client" where
  "on_net f s = (case f (cl_world s) of (x, w) \<Rightarrow> (x, s\<lparr>cl_world := w\<rparr>))"

section \<open>Relay nodes of the client\<close>

text \<open>\<open>None\<close> is a nil slice.\<close>

definition setupRelaynodes :: "'w relay_lib \<Rightarrow> string list option \<Rightarrow> 'w relay_client \<Rightarrow> go_err + 'w relay_client" where
  "setupRelaynodes R relaynodes s =
     (case relaynodes of
        None \<Rightarrow> Inl ErrNoRelaynodes
      | Some raw \<Rightarrow>
          if length raw < MinimumRelayNodes then Inl ErrMinRelaynodes
          else (case make_slice (cl_arrays s) of (M0, arr0) \<Rightarrow>
            rbind (parse_relaynodes (rk_host R) raw M0 arr0 Map.empty)
              (\<lambda>(M, am). Inr (s\<lparr>cl_arrays := M, cl_relaynodes := new_relaynodes am\<rparr>))))"

definition hasRelayPeer :: "'w relay_client \<Rightarrow> peer_id \<Rightarrow> bool" where
  "hasRelayPeer s p \<longleftrightarrow> cl_relayPeers s p \<noteq> None"

text \<open>\<open>addRelaynodes\<close> takes no lock, and two goroutines can be in it at once: it is a machine whose steps
  read or write the shared state once.  The slice is read at its begin and installed, appended to, at
  its end; the map is one and the same in every table, and is read and written on the way.\<close>

datatype add_pc =
    AddRead "string list"
  | AddCheck "string list" node_slice
  | AddAppend addr_info "string list" node_slice
  | AddStore addr_info "string list" node_slice
  | AddPublish node_slice
  | AddEnd "go_err option"

definition addRelaynodes :: "string list option \<Rightarrow> add_pc" where
  "addRelaynodes relaynodes =
     (case relaynodes of
        None \<Rightarrow> AddEnd (Some ErrNoRelaynodes)
      | Some raw \<Rightarrow> if length raw < 1 then AddEnd (Some ErrNoRelaynodes) else AddRead raw)"

fun add_step :: "'w host \<Rightarrow> add_pc \<Rightarrow> 'w relay_client \<Rightarrow> add_pc \<times> 'w relay_client" where
  "add_step H (AddRead raw) s = (AddCheck raw (relaynodeArr (cl_relaynodes s)), s)"
| "add_step H (AddCheck [] arr) s = (AddPublish arr, s)"
| "add_step H (AddCheck (rawAddr # rest) arr) s =
     (case StringToAddrInfo (ho_codec H) rawAddr of
        Inl e \<Rightarrow> (AddEnd (Some (GoWrap (''failed to parse relaynode '' @ rawAddr @ '': '') e)), s)
      | Inr relayNode \<Rightarrow>
          if ai_ID relayNode = ho_ID H then (AddCheck rest arr, s)
          else if hasRelayPeer s (ai_ID relayNode) then (AddCheck rest arr, s)
          else if isRelaynode (cl_relaynodes s) (ai_ID relayNode) then (AddCheck rest arr, s)
          else (AddAppend relayNode rest arr, s))"
| "add_step H (AddAppend relayNode rest arr) s =
     (case go_append (cl_arrays s) arr relayNode of
        (M, arr') \<Rightarrow> (AddStore relayNode rest arr', s\<lparr>cl_arrays := M\<rparr>))"
| "add_step H (AddStore relayNode rest arr) s =
     (let bw = cl_relaynodes s in
      (AddCheck rest arr,
       s\<lparr>cl_relaynodes := bw\<lparr>relaynodesMap := (relaynodesMap bw)(ai_ID relayNode \<mapsto> relayNode)\<rparr>\<rparr>))"
| "add_step H (AddPublish arr) s =
     (AddEnd None, s\<lparr>cl_relaynodes := new_relaynodes (arr, relaynodesMap (cl_relaynodes s))\<rparr>)"
| "add_step H (AddEnd err) s = (AddEnd err, s)"

definition numRelayPeers :: "'w relay_client \<Rightarrow> int64" where
  "numRelayPeers s = of_nat (card (dom (cl_relayPeers s)))"

definition RelayPeers :: "'w relay_lib \<Rightarrow> 'w relay_client \<Rightarrow> relay_peer_info list" where
  "RelayPeers R s =
     map (\<lambda>p. the (cl_relayPeers s p)) (ho_MapOrder (rk_host R) (cl_world s) (dom (cl_relayPeers s)))"

definition pick_random :: "'w relay_lib \<Rightarrow> 'a list \<Rightarrow> 'w relay_client \<Rightarrow> 'a option \<times> 'w relay_client" where
  "pick_random R nodes s =
     (if length nodes > 0 then
        (case on_net (\<lambda>w. ho_RandInt (rk_host R) w (length nodes)) s of
           (randNum, s1) \<Rightarrow> (Some (nodes ! randNum), s1))
      else (None, s))"

definition rc_GetRandomBootnode :: "'w relay_lib \<Rightarrow> 'w relay_client \<Rightarrow> addr_info option \<times> 'w relay_client" where
  "rc_GetRandomBootnode R s = pick_random R (getRelaynodes (cl_arrays s) (cl_relaynodes s)) s"

definition GetRandomRelaynode :: "'w relay_lib \<Rightarrow> 'w relay_client \<Rightarrow> addr_info option \<times> 'w relay_client" where
  "GetRandomRelaynode R s =
     pick_random R (filter (\<lambda>v. \<not> hasRelayPeer s (ai_ID v)) (getRelaynodes (cl_arrays s) (cl_relaynodes s))) s"

definition GetRelayPeerInfo :: "'w relay_lib \<Rightarrow> 'w relay_client \<Rightarrow> relay_peer_info option" where
  "GetRelayPeerInfo R s = (case RelayPeers R s of [] \<Rightarrow> None | relayInfo # _ \<Rightarrow> Some relayInfo)"

definition addRelayPeerInfo ::
    "addr_info \<Rightarrow> direction \<Rightarrow> reservation \<Rightarrow> 'w relay_client \<Rightarrow> bool \<times> 'w relay_client" where
  "addRelayPeerInfo relayInfo d resv s =
     (let old = cl_relayPeers s (ai_ID relayInfo) in
      if \<exists>i. old = Some i \<and> rci_connDirections (rpi_Info i) d = Some True then (True, s)
      else let info = (case old of
                 None \<Rightarrow> \<lparr>rci_Info = relayInfo, rci_connDirections = Map.empty, rci_protocolStreams = Map.empty\<rparr>
               | Some i \<Rightarrow> rpi_Info i)
           in (False, s\<lparr>cl_relayPeers := (cl_relayPeers s)(ai_ID relayInfo \<mapsto>
                \<lparr>rpi_Info = info\<lparr>rci_connDirections := (rci_connDirections info)(d \<mapsto> True)\<rparr>,
                 rpi_Reservation = resv\<rparr>)\<rparr>))"

definition removeRelayPeerInfo :: "peer_id \<Rightarrow> 'w relay_client \<Rightarrow> relay_peer_info option \<times> 'w relay_client" where
  "removeRelayPeerInfo p s =
     (case cl_relayPeers s p of
        None \<Rightarrow> (None, s)
      | Some i \<Rightarrow> (Some i, s\<lparr>cl_relayPeers := (cl_relayPeers s)(p := None)\<rparr>))"

section \<open>Peers and streams of the client\<close>

definition rc_addPeerInfo :: "'w relay_lib \<Rightarrow> peer_id \<Rightarrow> direction \<Rightarrow> 'w relay_client \<Rightarrow> bool \<times> 'w relay_client" where
  "rc_addPeerInfo R p d s =
     (let old = cl_peers s p in
      if \<exists>i. old = Some i \<and> connDirections i d = Some True then (True, s)
      else let info = (case old of
                 None \<Rightarrow> \<lparr>pci_Info = ho_PeerInfo (rk_host R) (cl_world s) p, connDirections = Map.empty,
                          protocolStreams = Map.empty\<rparr>
               | Some i \<Rightarrow> i)
           in (False, s\<lparr>cl_peers := (cl_peers s)(p \<mapsto> info\<lparr>connDirections := (connDirections info)(d \<mapsto> True)\<rparr>)\<rparr>))"

definition rc_AddToPeerStore :: "'w relay_lib \<Rightarrow> addr_info \<Rightarrow> 'w relay_client \<Rightarrow> go_err + 'w relay_client" where
  "rc_AddToPeerStore R peerInfo s =
     rbind (slice_at (ai_Addrs peerInfo) 0)
       (\<lambda>a. Inr (s\<lparr>cl_world := ho_AddAddr (rk_host R) (cl_world s) (ai_ID peerInfo) a\<rparr>))"

definition rc_RemoveFromPeerStore :: "'w relay_lib \<Rightarrow> addr_info \<Rightarrow> 'w relay_client \<Rightarrow> 'w relay_client" where
  "rc_RemoveFromPeerStore R peerInfo s = s\<lparr>cl_world := ho_RemovePeer (rk_host R) (cl_world s) (ai_ID peerInfo)\<rparr>"

definition rc_addToTable :: "'w relay_lib \<Rightarrow> addr_info \<Rightarrow> 'w relay_client \<Rightarrow> go_err + 'w relay_client" where
  "rc_addToTable R node s = rc_AddToPeerStore R node s"

fun rc_ConnectToBootnodes :: "'w relay_lib \<Rightarrow> addr_info list \<Rightarrow> 'w relay_client \<Rightarrow> go_err + 'w relay_client" where
  "rc_ConnectToBootnodes R [] s = Inr s"
| "rc_ConnectToBootnodes R (nodeInfo # ns) s = rbind (rc_addToTable R nodeInfo s) (rc_ConnectToBootnodes R ns)"

definition rc_NewStream :: "'w relay_lib \<Rightarrow> string \<Rightarrow> peer_id \<Rightarrow> 'w relay_client \<Rightarrow> (go_err + nat) \<times> 'w relay_client" where
  "rc_NewStream R proto p s = on_net (\<lambda>w. ho_NewStream (rk_host R) w p proto) s"

definition rc_RegisterProtocol :: "string \<Rightarrow> nat \<Rightarrow> 'w relay_client \<Rightarrow> 'w relay_client" where
  "rc_RegisterProtocol ident p s = s\<lparr>cl_protocols := (cl_protocols s)(ident \<mapsto> p)\<rparr>"

definition rc_NewProtoConnection ::
    "'w relay_lib \<Rightarrow> string \<Rightarrow> peer_id \<Rightarrow> 'w relay_client \<Rightarrow> (go_err + nat) \<times> 'w relay_client" where
  "rc_NewProtoConnection R proto p s =
     (case cl_protocols s proto of
        None \<Rightarrow> (Inl (GoErr (''protocol not found: '' @ proto)), s)
      | Some pr \<Rightarrow>
          (case rc_NewStream R proto p s of
             (Inl e, s1) \<Rightarrow> (Inl e, s1)
           | (Inr stream, s1) \<Rightarrow> (Inr (ho_Client (rk_host R) pr stream), s1)))"

definition rc_SaveProtocolStream :: "string \<Rightarrow> nat \<Rightarrow> peer_id \<Rightarrow> 'w relay_client \<Rightarrow> 'w relay_client" where
  "rc_SaveProtocolStream proto stream p s =
     (case cl_peers s p of
        None \<Rightarrow> s
      | Some pci \<Rightarrow> s\<lparr>cl_peers := (cl_peers s)(p \<mapsto> addProtocolStream proto (Some stream) pci)\<rparr>)"

definition rc_CloseProtocolStream ::
    "'w relay_lib \<Rightarrow> string \<Rightarrow> peer_id \<Rightarrow> 'w relay_client \<Rightarrow> go_err option \<times> 'w relay_client" where
  "rc_CloseProtocolStream R proto p s =
     (case cl_peers s p of
        None \<Rightarrow> (None, s)
      | Some pci \<Rightarrow>
          (case removeProtocolStream proto pci of
             (stream, pci') \<Rightarrow>
               let s1 = s\<lparr>cl_peers := (cl_peers s)(p \<mapsto> pci')\<rparr> in
               (case stream of None \<Rightarrow> (None, s1)
                | Some c \<Rightarrow> on_net (\<lambda>w. ho_CloseConn (rk_host R) w c) s1)))"

definition EdgeAliveProto :: string where "EdgeAliveProto = ''/alive/0.2''"

definition registerAliveProtocol :: "nat \<Rightarrow> 'w relay_client \<Rightarrow> 'w relay_client" where
  "registerAliveProtocol grpcStream s = rc_RegisterProtocol EdgeAliveProto grpcStream s"

definition NewAliveClient :: "'w relay_lib \<Rightarrow> peer_id \<Rightarrow> 'w relay_client \<Rightarrow> (go_err + nat) \<times> 'w relay_client" where
  "NewAliveClient R p s =
     (case rc_NewProtoConnection R EdgeAliveProto p s of
        (Inl e, s1) \<Rightarrow> (Inl (GoWrap ''failed to open a stream, err '' e), s1)
      | (Inr conn, s1) \<Rightarrow> (Inr conn, rc_SaveProtocolStream EdgeAliveProto conn p s1))"

definition rc_disconnectFromPeer :: "'w relay_lib \<Rightarrow> peer_id \<Rightarrow> 'w relay_client \<Rightarrow> 'w relay_client" where
  "rc_disconnectFromPeer R p s =
     (if ho_Connected (rk_host R) (cl_world s) p
      then snd (on_net (\<lambda>w. ho_ClosePeer (rk_host R) w p) s) else s)"

section \<open>The alive call\<close>

text \<open>The outer \<open>Inl\<close> is a panic.  When the call fails its stream is neither closed nor forgotten.\<close>

definition relay_text :: "'w relay_lib \<Rightarrow> 'w relay_client \<Rightarrow> go_err + string" where
  "relay_text R s =
     (case GetRelayPeerInfo R s of
        None \<Rightarrow> Inr ''''
      | Some i \<Rightarrow> rbind (slice_at (ai_Addrs (rci_Info (rpi_Info i))) 0)
          (\<lambda>a. Inr (a @ ''/p2p/'' @ ac_PeerString (ho_codec (rk_host R)) (ai_ID (rci_Info (rpi_Info i))))))"

definition own_status :: "application \<Rightarrow> string \<Rightarrow> alive_status" where
  "own_status a relay =
     \<lparr>al_Name = ap_Name a, al_StartupTime = ap_StartupTime a, al_Uptime = ap_Uptime a, al_Relay = relay,
      al_AppOrigin = ap_AppOrigin a, al_Mac = ap_Mac a, al_CpuInfo = ap_CpuInfo a, al_GpuInfo = ap_GpuInfo a,
      al_MemInfo = ap_MemInfo a, al_ModelHash = ap_ModelHash a, al_AveragePower = ap_AveragePower a,
      al_Version = ap_Version a\<rparr>"

definition sayHello ::
    "'w relay_lib \<Rightarrow> peer_id \<Rightarrow> 'w relay_client \<Rightarrow> (go_err + (go_err + (bool \<times> string))) \<times> 'w relay_client" where
  "sayHello R p s =
     (case cl_application s of
        None \<Rightarrow> (Inr (Inl (GoErr ''no application info'')), s)
      | Some a \<Rightarrow>
          (case NewAliveClient R p s of
             (Inl e, s1) \<Rightarrow> (Inr (Inl (GoWrap ''unable to create new alive client connection, '' e)), s1)
           | (Inr clt, s1) \<Rightarrow>
               (case relay_text R s1 of
                  Inl panic \<Rightarrow> (Inl panic, s1)
                | Inr relay \<Rightarrow>
                    (case on_net (\<lambda>w. rk_Hello R w clt (own_status a relay)) s1 of
                       (Inl e, s2) \<Rightarrow> (Inr (Inl e), s2)
                     | (Inr resp, s2) \<Rightarrow>
                         (case rc_CloseProtocolStream R EdgeAliveProto p s2 of
                            (Some closeErr, s3) \<Rightarrow> (Inr (Inl closeErr), s3)
                          | (None, s3) \<Rightarrow> (Inr (Inr resp), s3))))))"

text \<open>Where a goroutine is in \<open>keepAliveToBootnodes\<close>: at the top of the loop without a relay node,
  waiting for the application status with a chosen relay node, in \<open>addRelaynodes\<close>, or out of it.\<close>

datatype alive_pc = AliveDone | AliveTop | AliveWaitApp addr_info | AliveLearn add_pc

definition learning :: "add_pc \<Rightarrow> alive_pc" where
  "learning a = (case a of AddEnd _ \<Rightarrow> AliveDone | _ \<Rightarrow> AliveLearn a)"

definition learn_relaynode :: "string \<Rightarrow> alive_pc" where
  "learn_relaynode discovery =
     (if discovery \<noteq> '''' then learning (addRelaynodes (Some [discovery])) else AliveDone)"

definition alive_step ::
    "'w relay_lib \<Rightarrow> alive_pc \<Rightarrow> 'w relay_client \<Rightarrow> (go_err + alive_pc) \<times> 'w relay_client" where
  "alive_step R pc s = (case pc of
     AliveDone \<Rightarrow> (Inr AliveDone, s)
   | AliveTop \<Rightarrow>
       if cl_closed s then (Inr AliveDone, s)
       else (case RelayPeers R s of
           [] \<Rightarrow> (Inr AliveTop, s)
         | i # _ \<Rightarrow> (Inr (AliveWaitApp (rci_Info (rpi_Info i))), s))
   | AliveWaitApp node \<Rightarrow>
       if cl_application s = None then (Inr pc, s)
       else (case sayHello R (ai_ID node) s of
           (Inl panic, s1) \<Rightarrow> (Inl panic, s1)
         | (Inr (Inl sayHelloErr), s1) \<Rightarrow> (Inr AliveTop, s1)
         | (Inr (Inr (success, discovery)), s1) \<Rightarrow> (Inr (learn_relaynode discovery), s1))
   | AliveLearn a \<Rightarrow> (case add_step (rk_host R) a s of (a', s1) \<Rightarrow> (Inr (learning a'), s1)))"

section \<open>Keeping a reservation\<close>

definition relay_snapshot :: "relay_peer_info list \<Rightarrow> peer_id \<rightharpoonup> relay_peer_info" where
  "relay_snapshot is = map_of (rev (map (\<lambda>i. (ai_ID (rci_Info (rpi_Info i)), i)) is))"

fun expire_loop ::
    "'w relay_lib \<Rightarrow> int \<Rightarrow> (peer_id \<rightharpoonup> relay_peer_info) \<Rightarrow> peer_id list \<Rightarrow> 'w relay_client \<Rightarrow> 'w relay_client" where
  "expire_loop R now snap [] s = s"
| "expire_loop R now snap (p # ps) s =
     expire_loop R now snap ps
       (case snap p of
          None \<Rightarrow> s
        | Some i \<Rightarrow>
            if rv_Expiration (rpi_Reservation i) < now
            then (let node = rci_Info (rpi_Info i) in
              rc_RemoveFromPeerStore R node
                (rc_disconnectFromPeer R (ai_ID node) (snd (removeRelayPeerInfo (ai_ID node) s))))
            else s)"

text \<open>The result tells whether \<open>keepAliveToBootnodes\<close> is entered.\<close>

definition connectToRandomRelayNodes :: "'w relay_lib \<Rightarrow> 'w relay_client \<Rightarrow> (go_err + bool) \<times> 'w relay_client" where
  "connectToRandomRelayNodes R s =
     (case GetRandomRelaynode R s of
        (None, s1) \<Rightarrow> (Inr False, s1)
      | (Some relayinfo, s1) \<Rightarrow>
          (case on_net (\<lambda>w. rk_Reserve R w relayinfo) s1 of
             (Inl err, s2) \<Rightarrow> (rbind (slice_at (ai_Addrs relayinfo) 0) (\<lambda>_. Inr False), s2)
           | (Inr resv, s2) \<Rightarrow> (Inr True, snd (addRelayPeerInfo relayinfo DirUnknown resv s2))))"

definition relay_tick :: "'w relay_lib \<Rightarrow> int \<Rightarrow> 'w relay_client \<Rightarrow> (go_err + bool) \<times> 'w relay_client" where
  "relay_tick R now s =
     (let snap = relay_snapshot (RelayPeers R s);
          s1 = expire_loop R now snap (ho_MapOrder (rk_host R) (cl_world s) (dom snap)) s
      in if numRelayPeers s1 <s MinimumRelayConnections then connectToRandomRelayNodes R s1 else (Inr False, s1))"

section \<open>Application events\<close>

definition use_event :: "app_event \<Rightarrow> 'w relay_client \<Rightarrow> 'w relay_client" where
  "use_event ev s =
     (let l = length (ev_NewApp ev) in
      if l > 0 then s\<lparr>cl_application := Some (ev_NewApp ev ! (l - 1))\<rparr> else s)"

section \<open>Creation, start and end\<close>

definition NewRelayClient_state :: "'w relay_lib \<Rightarrow> nat \<Rightarrow> string list option \<Rightarrow> 'w \<Rightarrow> go_err + 'w relay_client" where
  "NewRelayClient_state R grpcStream relayNodes w =
     (case setupRelaynodes R relayNodes
        \<lparr>cl_closed = False, cl_protocols = Map.empty, cl_peers = Map.empty, cl_relayPeers = Map.empty,
         cl_relaynodes = new_relaynodes (\<lparr>sl_array = 0, sl_len = 0\<rparr>, Map.empty), cl_arrays = [[]],
         cl_application = None, cl_world = w\<rparr> of
        Inl setupErr \<Rightarrow> Inl (GoWrap ''unable to parse relaynode data, '' setupErr)
      | Inr clt \<Rightarrow> Inr (registerAliveProtocol grpcStream clt))"

definition StartAlive :: "'w relay_lib \<Rightarrow> 'w relay_client \<Rightarrow> go_err + 'w relay_client" where
  "StartAlive R s = rc_ConnectToBootnodes R (getRelaynodes (cl_arrays s) (cl_relaynodes s)) s"

definition rc_Close :: "'w relay_client \<Rightarrow> go_err + 'w relay_client" where
  "rc_Close s = (if cl_closed s then Inl (GoPanic ''close of closed channel'') else Inr (s\<lparr>cl_closed := True\<rparr>))"

section \<open>The running client\<close>

text \<open>\<open>ys_res\<close> and \<open>ys_alive\<close> say where \<open>keepAliveMinimumRelayConnections\<close> and \<open>startAliveService\<close> are;
  \<open>AliveDone\<close> is the select that waits for the next tick.  A panic of a goroutine ends the process.\<close>

record 'w rc_sys =
  ys_client :: "'w relay_client"
  ys_res :: alive_pc
  ys_alive :: alive_pc
  ys_crashed :: bool

datatype 'w rc_act =
    ResTick int | ResRun | AliveTick | AliveRun
  | Disconnected peer_id | ConnectedTo peer_id direction | AppEvent app_event | CloseClient | World 'w

definition after_tick :: "(go_err + bool) \<times> 'w relay_client \<Rightarrow> 'w rc_sys \<Rightarrow> 'w rc_sys" where
  "after_tick r S = (case r of
     (Inl panic, s) \<Rightarrow> S\<lparr>ys_client := s, ys_crashed := True\<rparr>
   | (Inr entered, s) \<Rightarrow> S\<lparr>ys_client := s, ys_res := if entered then AliveTop else AliveDone\<rparr>)"

definition after_alive ::
    "(alive_pc \<Rightarrow> 'w rc_sys \<Rightarrow> 'w rc_sys) \<Rightarrow> (go_err + alive_pc) \<times> 'w relay_client \<Rightarrow> 'w rc_sys \<Rightarrow> 'w rc_sys" where
  "after_alive upd r S = (case r of
     (Inl panic, s) \<Rightarrow> S\<lparr>ys_client := s, ys_crashed := True\<rparr>
   | (Inr pc, s) \<Rightarrow> upd pc (S\<lparr>ys_client := s\<rparr>))"

definition rc_do :: "'w relay_lib \<Rightarrow> 'w rc_act \<Rightarrow> 'w rc_sys \<Rightarrow> 'w rc_sys" where
  "rc_do R act S =
     (let s = ys_client S in
      if ys_crashed S then S
      else case act of
        ResTick now \<Rightarrow> if ys_res S = AliveDone then after_tick (relay_tick R now s) S else S
      | ResRun \<Rightarrow> after_alive (\<lambda>pc. ys_res_update (\<lambda>_. pc)) (alive_step R (ys_res S) s) S
      | AliveTick \<Rightarrow> if ys_alive S = AliveDone then S\<lparr>ys_alive := AliveTop\<rparr> else S
      | AliveRun \<Rightarrow> after_alive (\<lambda>pc. ys_alive_update (\<lambda>_. pc)) (alive_step R (ys_alive S) s) S
      | Disconnected p \<Rightarrow> S\<lparr>ys_client := snd (removeRelayPeerInfo p s)\<rparr>
      | ConnectedTo p d \<Rightarrow> S\<lparr>ys_client := snd (rc_addPeerInfo R p d s)\<rparr>
      | AppEvent ev \<Rightarrow> S\<lparr>ys_client := use_event ev s\<rparr>
      | CloseClient \<Rightarrow> (case rc_Close s of Inl _ \<Rightarrow> S\<lparr>ys_crashed := True\<rparr> | Inr s' \<Rightarrow> S\<lparr>ys_client := s'\<rparr>)
      | World w \<Rightarrow> S\<lparr>ys_client := s\<lparr>cl_world := w\<rparr>\<rparr>)"

definition rc_run :: "'w relay_lib \<Rightarrow> 'w rc_act list \<Rightarrow> 'w rc_sys \<Rightarrow> 'w rc_sys" where
  "rc_run R acts S = foldl (\<lambda>S a. rc_do R a S) S acts"

definition rc_start :: "'w relay_client \<Rightarrow> 'w rc_sys" where
  "rc_start s = \<lparr>ys_client = s, ys_res = AliveDone, ys_alive = AliveDone, ys_crashed = False\<rparr>"

inductive rc_reach :: "'w relay_lib \<Rightarrow> 'w rc_sys \<Rightarrow> bool" for R where
  rcr_start: "NewRelayClient_state R g nodes w = Inr s \<Longrightarrow> rc_reach R (rc_start s)"
| rcr_step: "rc_reach R S \<Longrightarrow> rc_reach R (rc_do R a S)"

section \<open>Forwarding of events\<close>

text \<open>\<open>startApplicationEventProcess\<close> calls \<open>GetEventCh\<close> in every turn of its loop, and each call starts a
  goroutine that forwards events to a channel of its own.  A forwarder waits for an event or holds
  one; the loop receives only from the newest channel, that of the last forwarder.\<close>

datatype forwarder = FWait | FHold app_event

datatype pump_act = PTake nat app_event | PReceive

text \<open>The forwarders and the events the loop received.\<close>

type_synonym pump = "forwarder list \<times> app_event list"

definition pump_start :: pump where "pump_start = ([FWait], [])"

fun pump_do :: "pump_act \<Rightarrow> pump \<Rightarrow> pump" where
  "pump_do (PTake i ev) (fs, got) =
     (if i < length fs \<and> fs ! i = FWait then (fs[i := FHold ev], got) else (fs, got))"
| "pump_do PReceive (fs, got) =
     (case last fs of
        FHold ev \<Rightarrow> (fs[length fs - 1 := FWait] @ [FWait], got @ [ev])
      | FWait \<Rightarrow> (fs, got))"

definition pump_run :: "pump_act list \<Rightarrow> pump \<Rightarrow> pump" where
  "pump_run acts P = foldl (\<lambda>P a. pump_do a P) P acts"

section \<open>The relay server\<close>

record 'w relay_server =
  rs_protocols :: "string \<rightharpoonup> nat"
  rs_relaynodes :: "relaynodes_wrapper option"
  rs_arrays :: node_mem
  rs_proxyPort :: "int option"
  rs_published :: "app_status list"
  rs_world :: 'w

text \<open>\<open>rs_published\<close> logs what was handed to \<open>PublishApplicationStatus\<close>.\<close>

definition rs_PublishApplicationStatus :: "app_status \<Rightarrow> 'w relay_server \<Rightarrow> 'w relay_server" where
  "rs_PublishApplicationStatus status s = s\<lparr>rs_published := rs_published s @ [status]\<rparr>"

definition GetRelayProxyAddr :: "'w relay_server \<Rightarrow> int option" where
  "GetRelayProxyAddr s = rs_proxyPort s"

definition GetPeerAddrInfo :: "'w host \<Rightarrow> 'w relay_server \<Rightarrow> peer_id \<Rightarrow> addr_info" where
  "GetPeerAddrInfo H s p = ho_PeerInfo H (rs_world s) p"

definition rs_ConnectedF :: "'w host \<Rightarrow> peer_id \<Rightarrow> multiaddr \<Rightarrow> 'w relay_server \<Rightarrow> 'w relay_server" where
  "rs_ConnectedF H p remote s = s\<lparr>rs_world := ho_AddAddr H (rs_world s) p remote\<rparr>"

definition rs_RegisterProtocol :: "'w host \<Rightarrow> string \<Rightarrow> nat \<Rightarrow> 'w relay_server \<Rightarrow> 'w relay_server" where
  "rs_RegisterProtocol H ident p s =
     s\<lparr>rs_protocols := (rs_protocols s)(ident \<mapsto> p), rs_world := ho_SetStreamHandler H (rs_world s) ident p\<rparr>"

definition rs_setupRelaynodes :: "'w host \<Rightarrow> string list option \<Rightarrow> 'w relay_server \<Rightarrow> go_err + 'w relay_server" where
  "rs_setupRelaynodes H relaynodes s =
     (case relaynodes of
        None \<Rightarrow> Inl ErrNoRelaynodes
      | Some raw \<Rightarrow>
          if length raw < MinimumRelayNodes then Inr s
          else (case make_slice (rs_arrays s) of (M0, arr0) \<Rightarrow>
            rbind (parse_relaynodes H raw M0 arr0 Map.empty)
              (\<lambda>(M, am). Inr (s\<lparr>rs_arrays := M, rs_relaynodes := Some (new_relaynodes am)\<rparr>))))"

definition NewRelayServer_state ::
    "'w host \<Rightarrow> int option \<Rightarrow> bool \<Rightarrow> string list option \<Rightarrow> 'w \<Rightarrow> go_err + 'w relay_server" where
  "NewRelayServer_state H proxyPort RelayDiscovery relayNodes w =
     (let srv = \<lparr>rs_protocols = Map.empty, rs_relaynodes = None, rs_arrays = [], rs_proxyPort = proxyPort, rs_published = [],
                 rs_world = w\<rparr>
      in if RelayDiscovery then
           (case rs_setupRelaynodes H relayNodes srv of
              Inl setupErr \<Rightarrow> Inl (GoWrap ''unable to parse relaynode data, '' setupErr)
            | Inr srv' \<Rightarrow> Inr srv')
         else Inr srv)"

definition rs_GetRandomBootnode :: "'w host \<Rightarrow> 'w relay_server \<Rightarrow> addr_info option \<times> 'w relay_server" where
  "rs_GetRandomBootnode H s =
     (case rs_relaynodes s of
        None \<Rightarrow> (None, s)
      | Some bw \<Rightarrow>
          (let nodes = getRelaynodes (rs_arrays s) bw in
           if length nodes > 0 then
             (case ho_RandInt H (rs_world s) (length nodes) of
                (randNum, w) \<Rightarrow> (Some (nodes ! randNum), s\<lparr>rs_world := w\<rparr>))
           else (None, s)))"

section \<open>The alive service\<close>

text \<open>\<open>submatches[0]\<close> is the whole match, the groups with their dots.  The octets are compared as
  strings, in the lexicographic order of their bytes.\<close>

definition isInnerIp :: "multiaddr_lib \<Rightarrow> multiaddr \<Rightarrow> bool" where
  "isInnerIp L ma =
     (let ip4Addr = (case ml_IP4 L ma of Inl _ \<Rightarrow> '''' | Inr x \<Rightarrow> x) in
      case ip_submatches ip4Addr of
        None \<Rightarrow> False
      | Some gs \<Rightarrow>
          gs = [''127'', ''0'', ''0'', ''1''] \<or>
          gs ! 0 = ''10'' \<or>
          gs ! 0 = ''172'' \<and> ''16'' \<le> gs ! 1 \<and> gs ! 1 \<le> ''31'' \<or>
          gs ! 0 = ''169'' \<and> gs ! 1 = ''254'' \<or>
          gs ! 0 = ''192'' \<and> gs ! 1 = ''168'')"

definition hello_status :: "string \<Rightarrow> string \<Rightarrow> int \<Rightarrow> alive_status \<Rightarrow> app_status" where
  "hello_status from addr proxyPort status =
     \<lparr>as_Name = al_Name status, as_NodeId = from, as_Uptime = al_Uptime status,
      as_StartupTime = al_StartupTime status, as_Relay = al_Relay status, as_Addr = addr,
      as_GuageHeight = 0, as_GuageMax = 0, as_AppOrigin = al_AppOrigin status, as_Mac = al_Mac status,
      as_CpuInfo = al_CpuInfo status, as_GpuInfo = al_GpuInfo status, as_MemInfo = al_MemInfo status,
      as_ModelHash = al_ModelHash status, as_AveragePower = al_AveragePower status,
      as_Version = al_Version status, as_RelayProxyPort = word_of_int proxyPort\<rparr>"

text \<open>\<open>Inl\<close> is the panic of \<open>AddrInfoToString\<close>.\<close>

definition alive_Hello ::
    "multiaddr_lib \<Rightarrow> 'w host \<Rightarrow> peer_id \<Rightarrow> alive_status \<Rightarrow> 'w relay_server \<Rightarrow>
      (go_err + (bool \<times> string)) \<times> 'w relay_server" where
  "alive_Hello L H from status s =
     (let addrs = ai_Addrs (GetPeerAddrInfo H s from);
          addr = (if length addrs > 0 then addrs ! 0 else '''');
          innerIp = (length addrs > 0 \<and> isInnerIp L (addrs ! 0));
          proxyPort = (case GetRelayProxyAddr s of None \<Rightarrow> 0 | Some port \<Rightarrow> port);
          s1 = (if \<not> innerIp \<or> al_Relay status \<noteq> ''''
                then rs_PublishApplicationStatus
                       (hello_status (ac_PeerString (ho_codec H) from) addr proxyPort status) s
                else s)
      in case rs_GetRandomBootnode H s1 of
           (None, s2) \<Rightarrow> (Inr (True, ''''), s2)
         | (Some newRelayNode, s2) \<Rightarrow>
             (map_sum id (Pair True) (AddrInfoToString (ho_codec H) newRelayNode), s2))"

end
