(* ===== verification/Relay_Props.thy ===== *)
theory Relay_Props
  imports Relay Net_Props
begin

text \<open>
  Properties of the relay package: how many reservations a client holds and at which nodes, the wait that
  stops it from ever reserving again, the panics of the reservation goroutine, the events its
  forwarders swallow, and the addresses the alive service takes for private ones.
\<close>

section \<open>What the calls leave alone\<close>

definition same_tables :: "'w relay_client \<Rightarrow> 'w relay_client \<Rightarrow> bool" where
  "same_tables s t \<longleftrightarrow> cl_relayPeers t = cl_relayPeers s \<and> cl_relaynodes t = cl_relaynodes s \<and>
     cl_arrays t = cl_arrays s \<and> cl_closed t = cl_closed s \<and> cl_application t = cl_application s"

lemma rsame_refl [simp]: "same_tables s s"
  by (simp add: same_tables_def)

lemma rsame_trans [trans]: "same_tables s t \<Longrightarrow> same_tables t u \<Longrightarrow> same_tables s u"
  by (simp add: same_tables_def)

lemma same_on_net [frame_laws]: "on_net f s = (x, t) \<Longrightarrow> same_tables s t"
  by (auto simp: on_net_def same_tables_def split: prod.splits)

lemma same_snd_on_net [simp]: "same_tables s (snd (on_net f s))"
  by (auto simp: on_net_def same_tables_def split: prod.splits)

lemma same_pick [frame_laws]: "pick_random R ns s = (x, t) \<Longrightarrow> same_tables s t"
  by (auto simp: pick_random_def split: if_splits prod.splits dest: frame_laws)

lemma same_save [simp]: "same_tables s (rc_SaveProtocolStream proto c p s)"
  by (simp add: rc_SaveProtocolStream_def same_tables_def split: option.splits)

lemma same_conn [frame_laws]: "rc_NewProtoConnection R proto p s = (x, t) \<Longrightarrow> same_tables s t"
  by (auto simp: rc_NewProtoConnection_def rc_NewStream_def split: option.splits prod.splits sum.splits dest: frame_laws)

lemma same_client [frame_laws]: "NewAliveClient R p s = (x, t) \<Longrightarrow> same_tables s t"
  by (auto simp: NewAliveClient_def split: prod.splits sum.splits dest: same_conn rsame_trans [OF same_conn same_save])

lemma same_peers [simp]: "same_tables s (s\<lparr>cl_peers := m\<rparr>)"
  by (simp add: same_tables_def)

lemma same_world [simp]: "same_tables s (s\<lparr>cl_world := w\<rparr>)"
  by (simp add: same_tables_def)

lemma same_close [frame_laws]: "rc_CloseProtocolStream R proto p s = (x, t) \<Longrightarrow> same_tables s t"
  by (auto simp: rc_CloseProtocolStream_def Let_def split: option.splits prod.splits
      dest: same_on_net rsame_trans [OF same_peers])

lemma same_hello [frame_laws]:
  assumes "sayHello R p s = (x, t)"
  shows "same_tables s t"
proof (cases "cl_application s")
  case None then show ?thesis using assms by (simp add: sayHello_def)
next
  case (Some a)
  obtain r1 s1 where c: "NewAliveClient R p s = (r1, s1)" by fastforce
  note s1 = same_client [OF c]
  show ?thesis
  proof (cases r1)
    case (Inl e) then show ?thesis using assms Some c s1 by (simp add: sayHello_def)
  next
    case (Inr clt)
    show ?thesis
    proof (cases "relay_text R s1")
      case (Inl e) then show ?thesis using assms Some c s1 Inr by (simp add: sayHello_def)
    next
      case r: (Inr relay)
      obtain r2 s2 where h: "on_net (\<lambda>w. rk_Hello R w clt (own_status a relay)) s1 = (r2, s2)" by fastforce
      obtain r3 s3 where d: "rc_CloseProtocolStream R EdgeAliveProto p s2 = (r3, s3)" by fastforce
      have "same_tables s s2" "same_tables s s3"
        using s1 same_on_net [OF h] same_close [OF d] rsame_trans by blast+
      then show ?thesis using assms Some c Inr r h d
        by (cases r2; cases r3) (simp_all add: sayHello_def)
    qed
  qed
qed

lemma same_addPeer [simp]: "same_tables s (snd (rc_addPeerInfo R p d s))"
  by (simp add: rc_addPeerInfo_def Let_def)

lemma same_disconnect [simp]: "same_tables s (rc_disconnectFromPeer R p s)"
  by (simp add: rc_disconnectFromPeer_def)

section \<open>Slices\<close>

definition slice_ok :: "node_mem \<Rightarrow> node_slice \<Rightarrow> bool" where
  "slice_ok M sl \<longleftrightarrow> sl_array sl < length M \<and> sl_len sl \<le> length (M ! sl_array sl)"

lemma append_spec:
  assumes "slice_ok M sl" and "go_append M sl x = (M', sl')"
  shows "slice_ok M' sl' \<and> nodes_of M' sl' = nodes_of M sl @ [x]"
proof (cases "sl_len sl < length (M ! sl_array sl)")
  case True
  then show ?thesis using assms by (auto simp: go_append_def slice_ok_def nodes_of_def Let_def take_Suc_conv_app_nth)
next
  case False
  then show ?thesis using assms by (auto simp: go_append_def slice_ok_def nodes_of_def Let_def nth_append)
qed

text \<open>What another slice sees of it: at most one of its nodes is replaced, and none before the end of the
  slice that is appended to.\<close>

lemma append_other:
  assumes "slice_ok M sl" and "slice_ok M t" and "go_append M sl x = (M', sl')"
  shows "slice_ok M' t" and "set (nodes_of M' t) \<subseteq> insert x (set (nodes_of M t))"
    and "sl_array t = sl_array sl \<longrightarrow> sl_len t \<le> sl_len sl \<Longrightarrow> nodes_of M' t = nodes_of M t"
proof -
  have "slice_ok M' t \<and> set (nodes_of M' t) \<subseteq> insert x (set (nodes_of M t)) \<and>
    ((sl_array t = sl_array sl \<longrightarrow> sl_len t \<le> sl_len sl) \<longrightarrow> nodes_of M' t = nodes_of M t)"
  proof (cases "sl_len sl < length (M ! sl_array sl)")
    case True
    then have M': "M' = M[sl_array sl := (M ! sl_array sl)[sl_len sl := x]]"
      using assms(3) by (auto simp: go_append_def Let_def)
    have n: "nodes_of M' t = (if sl_array t = sl_array sl then (nodes_of M t)[sl_len sl := x] else nodes_of M t)"
      using assms(1) by (auto simp: M' nodes_of_def slice_ok_def take_update_swap nth_list_update)
    have "slice_ok M' t" using assms(1,2) by (auto simp: M' slice_ok_def nth_list_update)
    moreover have "set (nodes_of M' t) \<subseteq> insert x (set (nodes_of M t))"
      unfolding n by (simp add: set_update_subset_insert subset_insertI)
    moreover have "nodes_of M' t = nodes_of M t" if "sl_array t = sl_array sl \<longrightarrow> sl_len t \<le> sl_len sl"
    proof -
      have "length (nodes_of M t) \<le> sl_len t" by (simp add: nodes_of_def)
      then show ?thesis unfolding n using that by (auto intro: list_update_beyond)
    qed
    ultimately show ?thesis by blast
  next
    case False
    then show ?thesis using assms by (auto simp: go_append_def slice_ok_def nodes_of_def Let_def nth_append)
  qed
  then show "slice_ok M' t" and "set (nodes_of M' t) \<subseteq> insert x (set (nodes_of M t))"
    and "sl_array t = sl_array sl \<longrightarrow> sl_len t \<le> sl_len sl \<Longrightarrow> nodes_of M' t = nodes_of M t" by blast+
qed

lemma make_slice_spec: "make_slice M = (M', sl) \<Longrightarrow> slice_ok M' sl \<and> nodes_of M' sl = []"
  by (auto simp: make_slice_def slice_ok_def nodes_of_def)

section \<open>The tables of the client\<close>

text \<open>No slice in use holds a node of the peer \<open>q\<close>, and no goroutine is about to add one.\<close>

definition without :: "peer_id \<Rightarrow> node_mem \<Rightarrow> node_slice \<Rightarrow> bool" where
  "without q M sl \<longleftrightarrow> slice_ok M sl \<and> q \<notin> ai_ID ` set (nodes_of M sl)"

fun add_slices :: "add_pc \<Rightarrow> node_slice list" where
  "add_slices (AddRead _) = []"
| "add_slices (AddCheck _ arr) = [arr]"
| "add_slices (AddAppend _ _ arr) = [arr]"
| "add_slices (AddStore _ _ arr) = [arr]"
| "add_slices (AddPublish arr) = [arr]"
| "add_slices (AddEnd _) = []"

fun add_nodes :: "add_pc \<Rightarrow> addr_info list" where
  "add_nodes (AddAppend n _ _) = [n]"
| "add_nodes (AddStore n _ _) = [n]"
| "add_nodes _ = []"

definition pc_without :: "peer_id \<Rightarrow> node_mem \<Rightarrow> alive_pc \<Rightarrow> bool" where
  "pc_without q M pc \<longleftrightarrow> (case pc of
     AliveLearn a \<Rightarrow> (\<forall>sl \<in> set (add_slices a). without q M sl) \<and> (\<forall>n \<in> set (add_nodes a). ai_ID n \<noteq> q)
   | _ \<Rightarrow> True)"

definition pub :: "'w relay_client \<Rightarrow> node_slice" where "pub s = relaynodeArr (cl_relaynodes s)"

definition client_without :: "peer_id \<Rightarrow> 'w relay_client \<Rightarrow> bool" where
  "client_without q s \<longleftrightarrow> without q (cl_arrays s) (pub s)"

definition adding :: "alive_pc \<Rightarrow> bool" where "adding pc \<longleftrightarrow> (\<exists>a. pc = AliveLearn a)"

definition fresh_pc :: "alive_pc \<Rightarrow> bool" where
  "fresh_pc pc \<longleftrightarrow> \<not> adding pc \<or> (\<exists>d. pc = AliveLearn (AddRead [d]))"

lemma fresh_without: "fresh_pc pc \<Longrightarrow> pc_without q M pc"
  by (auto simp: fresh_pc_def adding_def pc_without_def split: alive_pc.splits)

lemma learning_without: "pc_without q M (AliveLearn a) \<Longrightarrow> pc_without q M (learning a)"
  by (cases a) (simp_all add: learning_def pc_without_def)

lemma without_append:
  "without q M sl \<Longrightarrow> ai_ID n \<noteq> q \<Longrightarrow> go_append M sl n = (M', sl') \<Longrightarrow>
   without q M' sl' \<and> (\<forall>t. without q M t \<longrightarrow> without q M' t)"
  using append_spec [of M sl n M' sl'] append_other(1,2) [of M sl _ n M' sl'] unfolding without_def by fastforce

lemma pc_without_append:
  assumes "without q M sl" "ai_ID n \<noteq> q" "go_append M sl n = (M', sl')" "pc_without q M pc"
  shows "pc_without q M' pc"
  using without_append [OF assms(1-3)] assms(4) by (auto simp: pc_without_def split: alive_pc.splits)

lemma add_step_arrays:
  "add_step H a s = (a', t) \<Longrightarrow> (\<nexists>n rest arr. a = AddAppend n rest arr) \<Longrightarrow> cl_arrays t = cl_arrays s"
  by (cases "(H, a, s)" rule: add_step.cases) (auto simp: Let_def split: sum.splits if_splits)

text \<open>A call of \<open>addRelaynodes\<close> adds neither the node itself nor one that the map names.\<close>

lemma add_step_without:
  assumes "client_without q s" and "pc_without q (cl_arrays s) (AliveLearn a)" and "pc_without q (cl_arrays s) pc"
    and "q = ho_ID H \<or> isRelaynode (cl_relaynodes s) q" and "add_step H a s = (a', t)"
  shows "client_without q t \<and> pc_without q (cl_arrays t) (AliveLearn a') \<and> pc_without q (cl_arrays t) pc"
proof (cases a)
  case (AddAppend n rest arr)
  obtain M sl where g: "go_append (cl_arrays s) arr n = (M, sl)" by fastforce
  have w: "without q (cl_arrays s) arr" "ai_ID n \<noteq> q" using assms(2) AddAppend by (simp_all add: pc_without_def)
  have t: "a' = AddStore n rest sl" "t = s\<lparr>cl_arrays := M\<rparr>" using assms(5) AddAppend g by auto
  show ?thesis using without_append [OF w g] pc_without_append [OF w g assms(3)] assms(1) w(2)
    by (simp add: t client_without_def pub_def pc_without_def)
next
  case (AddCheck raws arr)
  have t: "t = s" using assms(5) AddCheck by (cases raws) (auto split: sum.splits if_splits)
  have "pc_without q (cl_arrays s) (AliveLearn a')" using assms(2,4,5) AddCheck
    by (cases raws) (auto simp: pc_without_def split: sum.splits if_splits)
  then show ?thesis using assms(1,3) by (simp add: t)
next
  case (AddStore n rest arr)
  have "cl_arrays t = cl_arrays s" "pub t = pub s" "a' = AddCheck rest arr"
    using assms(5) AddStore by (auto simp: Let_def pub_def)
  then show ?thesis using assms(1-3) AddStore by (simp add: pc_without_def client_without_def)
next
  case (AddPublish arr)
  have "cl_arrays t = cl_arrays s" "pub t = arr" "a' = AddEnd None"
    using assms(5) AddPublish by (auto simp: pub_def new_relaynodes_def)
  then show ?thesis using assms(2,3) AddPublish by (simp add: pc_without_def client_without_def)
next
  case (AddRead raw)
  then have "t = s" "a' = AddCheck raw (pub s)" using assms(5) by (auto simp: pub_def)
  then show ?thesis using assms(1,3) by (simp add: pc_without_def client_without_def)
next
  case (AddEnd e)
  then show ?thesis using assms by auto
qed

lemma add_step_frame:
  "add_step H a s = (a', t) \<Longrightarrow> cl_relayPeers t = cl_relayPeers s \<and> cl_closed t = cl_closed s"
  by (cases "(H, a, s)" rule: add_step.cases) (auto simp: Let_def split: sum.splits if_splits prod.splits)

definition good_map :: "'w host \<Rightarrow> (peer_id \<rightharpoonup> addr_info) \<Rightarrow> bool" where
  "good_map H m \<longleftrightarrow> (\<forall>p n. m p = Some n \<longrightarrow> ai_ID n = p) \<and> m (ho_ID H) = None"

lemma good_map_upd: "good_map H m \<Longrightarrow> ai_ID n \<noteq> ho_ID H \<Longrightarrow> good_map H (m(ai_ID n \<mapsto> n))"
  by (auto simp: good_map_def)

definition map_ok :: "'w host \<Rightarrow> 'w relay_client \<Rightarrow> bool" where
  "map_ok H s \<longleftrightarrow> good_map H (relaynodesMap (cl_relaynodes s))"

lemma add_step_map:
  assumes "map_ok H s" and "pc_without (ho_ID H) (cl_arrays s) (AliveLearn a)" and "add_step H a s = (a', t)"
  shows "map_ok H t"
  using assms by (cases "(H, a, s)" rule: add_step.cases)
    (auto simp: map_ok_def pc_without_def new_relaynodes_def Let_def good_map_upd split: sum.splits if_splits prod.splits)

lemma add_step_grows:
  "add_step H a s = (a', t) \<Longrightarrow> isRelaynode (cl_relaynodes s) q \<Longrightarrow> isRelaynode (cl_relaynodes t) q"
  by (cases "(H, a, s)" rule: add_step.cases)
    (auto simp: isRelaynode_def new_relaynodes_def Let_def split: sum.splits if_splits prod.splits)

section \<open>What a step does to the tables\<close>

definition peers_ok :: "'w relay_client \<Rightarrow> bool" where
  "peers_ok s \<longleftrightarrow> cl_relayPeers s = Map.empty \<or>
     (\<exists>p i. cl_relayPeers s = [p \<mapsto> i] \<and> ai_ID (rci_Info (rpi_Info i)) = p)"

text \<open>A step that is not one of \<open>addRelaynodes\<close> leaves the relay nodes alone; reservations are dropped, or
  one is made at a listed node.\<close>

definition peers_move :: "'w relay_client \<Rightarrow> 'w relay_client \<Rightarrow> bool" where
  "peers_move s t \<longleftrightarrow> cl_relaynodes t = cl_relaynodes s \<and> cl_arrays t = cl_arrays s \<and>
     (cl_relayPeers t \<subseteq>\<^sub>m cl_relayPeers s \<or>
      (\<exists>n i. n \<in> set (nodes_of (cl_arrays s) (pub s)) \<and> cl_relayPeers t = [ai_ID n \<mapsto> i] \<and> rci_Info (rpi_Info i) = n))"

lemma peers_move_same: "same_tables s t \<Longrightarrow> peers_move s t"
  by (simp add: same_tables_def peers_move_def)

lemma peers_move_ok: "peers_move s t \<Longrightarrow> peers_ok s \<Longrightarrow> peers_ok t"
  unfolding peers_move_def peers_ok_def
  by (auto simp: map_le_def fun_eq_iff split: if_splits) (metis domIff option.distinct(1))+

lemma remove_le: "cl_relayPeers (snd (removeRelayPeerInfo p s)) \<subseteq>\<^sub>m cl_relayPeers s"
  by (auto simp: removeRelayPeerInfo_def map_le_def split: option.splits)

lemma remove_nodes [simp]:
  "cl_relaynodes (snd (removeRelayPeerInfo p s)) = cl_relaynodes s" "cl_arrays (snd (removeRelayPeerInfo p s)) = cl_arrays s"
  by (simp_all add: removeRelayPeerInfo_def split: option.splits)

lemma same_forget [simp]: "same_tables s (rc_RemoveFromPeerStore R n (rc_disconnectFromPeer R p s))"
  unfolding rc_RemoveFromPeerStore_def by (rule rsame_trans [OF same_disconnect same_world])

lemma expire_move:
  "cl_relaynodes (expire_loop R now snap ps s) = cl_relaynodes s \<and> cl_arrays (expire_loop R now snap ps s) = cl_arrays s \<and>
   cl_relayPeers (expire_loop R now snap ps s) \<subseteq>\<^sub>m cl_relayPeers s"
proof (induction ps arbitrary: s)
  case (Cons p ps)
  show ?case
  proof (cases "\<exists>i. snap p = Some i \<and> rv_Expiration (rpi_Reservation i) < now")
    case True
    then obtain i where i: "snap p = Some i" "rv_Expiration (rpi_Reservation i) < now" by blast
    let ?n = "rci_Info (rpi_Info i)"
    let ?u = "snd (removeRelayPeerInfo (ai_ID ?n) s)"
    let ?t = "rc_RemoveFromPeerStore R ?n (rc_disconnectFromPeer R (ai_ID ?n) ?u)"
    have "same_tables ?u ?t" by simp
    then have "cl_relaynodes ?t = cl_relaynodes s" "cl_arrays ?t = cl_arrays s" "cl_relayPeers ?t \<subseteq>\<^sub>m cl_relayPeers s"
      using remove_le [of "ai_ID ?n" s] by (simp_all add: same_tables_def)
    then show ?thesis using Cons.IH [of ?t] i map_le_trans by (fastforce simp: Let_def)
  next
    case False
    then have "expire_loop R now snap (p # ps) s = expire_loop R now snap ps s" by (cases "snap p") auto
    then show ?thesis using Cons.IH by simp
  qed
qed simp

definition rand_below :: "'w relay_lib \<Rightarrow> bool" where
  "rand_below R \<longleftrightarrow> (\<forall>w n. 0 < n \<longrightarrow> fst (ho_RandInt (rk_host R) w n) < n)"

lemma pick_random_in:
  assumes "rand_below R" and "pick_random R ns s = (Some n, t)"
  shows "n \<in> set ns"
proof -
  have ne: "length ns > 0" using assms(2) by (auto simp: pick_random_def split: if_splits)
  obtain k w where k: "ho_RandInt (rk_host R) (cl_world s) (length ns) = (k, w)" by fastforce
  then have "k < length ns" using assms(1) ne unfolding rand_below_def by (metis fst_conv)
  then show ?thesis using assms(2) ne k by (auto simp: pick_random_def on_net_def)
qed

lemma few_relay_peers: "peers_ok s \<Longrightarrow> numRelayPeers s <s MinimumRelayConnections \<longleftrightarrow> cl_relayPeers s = Map.empty"
  by (auto simp: peers_ok_def numRelayPeers_def MinimumRelayConnections_def word_sless_alt)

lemma connect_move:
  assumes "rand_below R" and "cl_relayPeers s = Map.empty" and "connectToRandomRelayNodes R s = (x, t)"
  shows "peers_move s t"
proof -
  obtain o1 s1 where g: "GetRandomRelaynode R s = (o1, s1)" by fastforce
  have s1: "same_tables s s1" using g unfolding GetRandomRelaynode_def by (rule same_pick)
  show ?thesis
  proof (cases o1)
    case None
    then show ?thesis using assms(3) g peers_move_same [OF s1] by (simp add: connectToRandomRelayNodes_def)
  next
    case (Some n)
    then have "n \<in> set (filter (\<lambda>v. \<not> hasRelayPeer s (ai_ID v)) (getRelaynodes (cl_arrays s) (cl_relaynodes s)))"
      using g unfolding GetRandomRelaynode_def by (intro pick_random_in [OF assms(1)]) simp
    then have n: "n \<in> set (nodes_of (cl_arrays s) (pub s))" by (simp add: getRelaynodes_def pub_def)
    obtain o2 s2 where r: "on_net (\<lambda>w. rk_Reserve R w n) s1 = (o2, s2)" by fastforce
    have s2: "same_tables s s2" by (rule rsame_trans [OF s1 same_on_net [OF r]])
    show ?thesis
    proof (cases o2)
      case (Inl e)
      then show ?thesis using assms(3) g Some r peers_move_same [OF s2] by (simp add: connectToRandomRelayNodes_def)
    next
      case (Inr resv)
      obtain i where i: "cl_relayPeers t = [ai_ID n \<mapsto> i]" "rci_Info (rpi_Info i) = n"
        "cl_relaynodes t = cl_relaynodes s2" "cl_arrays t = cl_arrays s2"
        using assms(2,3) g Some r Inr s2 by (auto simp: connectToRandomRelayNodes_def addRelayPeerInfo_def same_tables_def Let_def)
      then show ?thesis unfolding peers_move_def using n s2 by (auto simp: same_tables_def)
    qed
  qed
qed

lemma tick_move:
  assumes "rand_below R" and "peers_ok s" and "relay_tick R now s = (x, t)"
  shows "peers_move s t"
proof -
  define s1 where "s1 = expire_loop R now (relay_snapshot (RelayPeers R s))
      (ho_MapOrder (rk_host R) (cl_world s) (dom (relay_snapshot (RelayPeers R s)))) s"
  have e: "cl_relaynodes s1 = cl_relaynodes s" "cl_arrays s1 = cl_arrays s" "cl_relayPeers s1 \<subseteq>\<^sub>m cl_relayPeers s"
    unfolding s1_def using expire_move by blast+
  then have m1: "peers_move s s1" by (simp add: peers_move_def)
  show ?thesis
  proof (cases "numRelayPeers s1 <s MinimumRelayConnections")
    case True
    then have "connectToRandomRelayNodes R s1 = (x, t)" using assms(3) by (simp add: relay_tick_def Let_def s1_def)
    moreover have "cl_relayPeers s1 = Map.empty" using few_relay_peers [OF peers_move_ok [OF m1 assms(2)]] True by simp
    ultimately have "peers_move s1 t" by (intro connect_move [OF assms(1)])
    then show ?thesis using e map_le_trans unfolding peers_move_def pub_def by metis
  next
    case False
    then show ?thesis using assms(3) m1 by (simp add: relay_tick_def Let_def s1_def)
  qed
qed

lemma alive_move:
  assumes "alive_step R pc s = (x, t)" and "\<not> adding pc"
  shows "same_tables s t \<and> (\<forall>pc'. x = Inr pc' \<longrightarrow> fresh_pc pc')"
proof (cases pc)
  case AliveDone then show ?thesis using assms by (auto simp: alive_step_def fresh_pc_def adding_def)
next
  case AliveTop then show ?thesis
    using assms by (auto simp: alive_step_def fresh_pc_def adding_def split: if_splits list.splits)
next
  case (AliveWaitApp n)
  obtain r s1 where h: "sayHello R (ai_ID n) s = (r, s1)" by fastforce
  have "fresh_pc (learn_relaynode d)" for d
    by (simp add: learn_relaynode_def addRelaynodes_def learning_def fresh_pc_def adding_def)
  moreover have "fresh_pc AliveTop" "fresh_pc (AliveWaitApp n)" by (simp_all add: fresh_pc_def adding_def)
  ultimately show ?thesis using assms AliveWaitApp h same_hello [OF h]
    by (auto simp: alive_step_def split: if_splits sum.splits)
next
  case (AliveLearn a) then show ?thesis using assms(2) by (simp add: adding_def)
qed

text \<open>Every step of the system moves the peers, or is a step of \<open>addRelaynodes\<close> in one goroutine.\<close>

definition keeps_pc :: "alive_pc \<Rightarrow> alive_pc \<Rightarrow> bool" where
  "keeps_pc pc pc' \<longleftrightarrow> pc' = pc \<or> \<not> adding pc \<and> fresh_pc pc'"

lemma keeps_refl [simp]: "keeps_pc pc pc"
  by (simp add: keeps_pc_def)

lemma client_upd [simp]:
  "ys_client (ys_res_update f S) = ys_client S" "ys_client (ys_alive_update f S) = ys_client S"
  by simp_all

definition moves :: "'w rc_sys \<Rightarrow> 'w rc_sys \<Rightarrow> bool" where
  "moves S S' \<longleftrightarrow> peers_move (ys_client S) (ys_client S') \<and>
     keeps_pc (ys_res S) (ys_res S') \<and> keeps_pc (ys_alive S) (ys_alive S')"

definition adds_res :: "'w host \<Rightarrow> 'w rc_sys \<Rightarrow> 'w rc_sys \<Rightarrow> bool" where
  "adds_res H S S' \<longleftrightarrow> (\<exists>a a'. ys_res S = AliveLearn a \<and> add_step H a (ys_client S) = (a', ys_client S') \<and>
     ys_res S' = learning a' \<and> ys_alive S' = ys_alive S)"

definition adds_alive :: "'w host \<Rightarrow> 'w rc_sys \<Rightarrow> 'w rc_sys \<Rightarrow> bool" where
  "adds_alive H S S' \<longleftrightarrow> (\<exists>a a'. ys_alive S = AliveLearn a \<and> add_step H a (ys_client S) = (a', ys_client S') \<and>
     ys_alive S' = learning a' \<and> ys_res S' = ys_res S)"

lemma after_alive_simps:
  "after_alive upd (Inl p, t) S = S\<lparr>ys_client := t, ys_crashed := True\<rparr>"
  "after_alive upd (Inr pc, t) S = upd pc (S\<lparr>ys_client := t\<rparr>)"
  by (simp_all add: after_alive_def)

lemma res_run_cases:
  assumes "\<not> ys_crashed S"
  shows "moves S (rc_do R ResRun S) \<or> adds_res (rk_host R) S (rc_do R ResRun S)"
proof (cases "adding (ys_res S)")
  case True
  then obtain a where a: "ys_res S = AliveLearn a" by (auto simp: adding_def)
  obtain a' t where t: "add_step (rk_host R) a (ys_client S) = (a', t)" by fastforce
  show ?thesis using a t assms by (simp add: rc_do_def alive_step_def after_alive_simps adds_res_def)
next
  case False
  obtain x t where t: "alive_step R (ys_res S) (ys_client S) = (x, t)" by fastforce
  show ?thesis using alive_move [OF t False] t assms peers_move_same [of "ys_client S" t] False
    by (cases x) (auto simp: rc_do_def after_alive_simps moves_def keeps_pc_def)
qed

lemma alive_run_cases:
  assumes "\<not> ys_crashed S"
  shows "moves S (rc_do R AliveRun S) \<or> adds_alive (rk_host R) S (rc_do R AliveRun S)"
proof (cases "adding (ys_alive S)")
  case True
  then obtain a where a: "ys_alive S = AliveLearn a" by (auto simp: adding_def)
  obtain a' t where t: "add_step (rk_host R) a (ys_client S) = (a', t)" by fastforce
  show ?thesis using a t assms by (simp add: rc_do_def alive_step_def after_alive_simps adds_alive_def)
next
  case False
  obtain x t where t: "alive_step R (ys_alive S) (ys_client S) = (x, t)" by fastforce
  show ?thesis using alive_move [OF t False] t assms peers_move_same [of "ys_client S" t] False
    by (cases x) (auto simp: rc_do_def after_alive_simps moves_def keeps_pc_def)
qed

lemma client_moves:
  "peers_move (ys_client S) t \<Longrightarrow> moves S (S\<lparr>ys_client := t\<rparr>)"
  by (simp add: moves_def)

lemma rc_do_cases:
  assumes "rand_below R" and "peers_ok (ys_client S)"
  shows "moves S (rc_do R a S) \<or> adds_res (rk_host R) S (rc_do R a S) \<or> adds_alive (rk_host R) S (rc_do R a S)"
proof (cases "ys_crashed S")
  case True then show ?thesis by (simp add: rc_do_def moves_def peers_move_def)
next
  case False
  let ?s = "ys_client S"
  show ?thesis
  proof (cases a)
    case (ResTick now)
    obtain x t where t: "relay_tick R now ?s = (x, t)" by fastforce
    have "fresh_pc AliveTop" "fresh_pc AliveDone" by (simp_all add: fresh_pc_def adding_def)
    then show ?thesis using False ResTick t tick_move [OF assms t]
      by (cases x) (auto simp: rc_do_def moves_def after_tick_def keeps_pc_def adding_def peers_move_def)
  next
    case ResRun then show ?thesis using res_run_cases [OF False, of R] by blast
  next
    case AliveRun then show ?thesis using alive_run_cases [OF False, of R] by blast
  next
    case CloseClient
    have "peers_move ?s (?s\<lparr>cl_closed := True\<rparr>)" "peers_move ?s ?s" by (simp_all add: peers_move_def)
    then show ?thesis using False CloseClient by (cases "cl_closed ?s") (simp_all add: rc_do_def rc_Close_def Let_def moves_def)
  next
    case (ConnectedTo p d)
    then show ?thesis using False client_moves [OF peers_move_same [OF same_addPeer [of ?s R p d]]] by (simp add: rc_do_def)
  next
    case (World w)
    then show ?thesis using False client_moves [OF peers_move_same [OF same_world [of ?s w]]] by (simp add: rc_do_def)
  next
    case AliveTick then show ?thesis using False
      by (auto simp add: rc_do_def moves_def peers_move_def keeps_pc_def adding_def fresh_pc_def)
  next
    case (Disconnected p)
    have "peers_move ?s (snd (removeRelayPeerInfo p ?s))" using remove_le [of p ?s] by (simp add: peers_move_def)
    from client_moves [OF this] show ?thesis using False Disconnected by (simp add: rc_do_def)
  next
    case (AppEvent ev)
    have "peers_move ?s (use_event ev ?s)" by (simp add: peers_move_def use_event_def Let_def)
    from client_moves [OF this] show ?thesis using False AppEvent by (simp add: rc_do_def)
  qed
qed

section \<open>Invariants of the client\<close>

lemma do_peers_ok:
  assumes "rand_below R" and "peers_ok (ys_client S)"
  shows "peers_ok (ys_client (rc_do R a S))"
proof -
  consider "peers_move (ys_client S) (ys_client (rc_do R a S))" | b b' where
    "add_step (rk_host R) b (ys_client S) = (b', ys_client (rc_do R a S))"
    using rc_do_cases [OF assms, of a] by (auto simp: moves_def adds_res_def adds_alive_def)
  then show ?thesis
  proof cases
    case 1 then show ?thesis using assms(2) by (rule peers_move_ok)
  next
    case 2 then show ?thesis using assms(2) add_step_frame [OF 2] by (simp add: peers_ok_def)
  qed
qed

definition sys_without :: "peer_id \<Rightarrow> 'w rc_sys \<Rightarrow> bool" where
  "sys_without q S \<longleftrightarrow> client_without q (ys_client S) \<and> cl_relayPeers (ys_client S) q = None \<and>
     pc_without q (cl_arrays (ys_client S)) (ys_res S) \<and> pc_without q (cl_arrays (ys_client S)) (ys_alive S)"

lemma move_without:
  assumes "peers_move s t" and "client_without q s" and "cl_relayPeers s q = None"
  shows "client_without q t \<and> cl_relayPeers t q = None"
  using assms by (auto simp: peers_move_def client_without_def pub_def without_def map_le_def dom_def)

lemma keeps_without: "keeps_pc pc pc' \<Longrightarrow> pc_without q M pc \<Longrightarrow> pc_without q M pc'"
  by (auto simp: keeps_pc_def fresh_without)

lemma do_without:
  assumes "rand_below R" and "peers_ok (ys_client S)" and "sys_without q S"
    and "q = ho_ID (rk_host R) \<or> isRelaynode (cl_relaynodes (ys_client S)) q"
  shows "sys_without q (rc_do R a S) \<and>
    (isRelaynode (cl_relaynodes (ys_client S)) q \<longrightarrow> isRelaynode (cl_relaynodes (ys_client (rc_do R a S))) q)"
  using rc_do_cases [OF assms(1,2), of a]
proof (elim disjE)
  assume m: "moves S (rc_do R a S)"
  then show ?thesis using assms(3) move_without [of "ys_client S" "ys_client (rc_do R a S)" q] keeps_without
    by (auto simp: moves_def sys_without_def peers_move_def)
next
  have w: "client_without q (ys_client S)" "cl_relayPeers (ys_client S) q = None"
    "pc_without q (cl_arrays (ys_client S)) (ys_res S)" "pc_without q (cl_arrays (ys_client S)) (ys_alive S)"
    using assms(3) by (simp_all add: sys_without_def)
  {
    assume "adds_res (rk_host R) S (rc_do R a S)"
    then obtain b b' where b: "ys_res S = AliveLearn b" "add_step (rk_host R) b (ys_client S) = (b', ys_client (rc_do R a S))"
      "ys_res (rc_do R a S) = learning b'" "ys_alive (rc_do R a S) = ys_alive S" by (auto simp: adds_res_def)
    note A = add_step_without [OF w(1) w(3) [unfolded b(1)] w(4) assms(4) b(2)]
    show ?thesis using A learning_without [of q _ b'] add_step_frame [OF b(2)] add_step_grows [OF b(2)] w(2) b(3,4)
      by (simp add: sys_without_def)
  next
    assume "adds_alive (rk_host R) S (rc_do R a S)"
    then obtain b b' where b: "ys_alive S = AliveLearn b" "add_step (rk_host R) b (ys_client S) = (b', ys_client (rc_do R a S))"
      "ys_alive (rc_do R a S) = learning b'" "ys_res (rc_do R a S) = ys_res S" by (auto simp: adds_alive_def)
    note A = add_step_without [OF w(1) w(4) [unfolded b(1)] w(3) assms(4) b(2)]
    show ?thesis using A learning_without [of q _ b'] add_step_frame [OF b(2)] add_step_grows [OF b(2)] w(2) b(3,4)
      by (simp add: sys_without_def)
  }
qed

lemma do_map_ok:
  assumes "rand_below R" and "peers_ok (ys_client S)" and "sys_without (ho_ID (rk_host R)) S" and "map_ok (rk_host R) (ys_client S)"
  shows "map_ok (rk_host R) (ys_client (rc_do R a S))"
proof -
  consider "moves S (rc_do R a S)" | b b' where "ys_res S = AliveLearn b \<or> ys_alive S = AliveLearn b"
    "add_step (rk_host R) b (ys_client S) = (b', ys_client (rc_do R a S))"
    using rc_do_cases [OF assms(1,2), of a] by (auto simp: adds_res_def adds_alive_def)
  then show ?thesis
  proof cases
    case 1 then show ?thesis using assms(4) by (simp add: moves_def peers_move_def map_ok_def)
  next
    case 2
    then have "pc_without (ho_ID (rk_host R)) (cl_arrays (ys_client S)) (AliveLearn b)"
      using assms(3) by (auto simp: sys_without_def)
    from add_step_map [OF assms(4) this 2(2)] show ?thesis .
  qed
qed

text \<open>The tables \<open>setupRelaynodes\<close> builds name the same peers, and not the node itself.\<close>

lemma parse_spec:
  assumes "parse_relaynodes H raws M arr m = Inr (M', arr', m')" and "slice_ok M arr"
    and "ai_ID ` set (nodes_of M arr) = dom m" and "good_map H m"
  shows "slice_ok M' arr' \<and> ai_ID ` set (nodes_of M' arr') = dom m' \<and> good_map H m'"
  using assms
proof (induction raws arbitrary: M arr m)
  case (Cons raw raws)
  then obtain n where n: "StringToAddrInfo (ho_codec H) raw = Inr n" by (auto split: sum.splits)
  show ?case
  proof (cases "ai_ID n = ho_ID H")
    case True then show ?thesis using Cons n by simp
  next
    case False
    obtain M1 arr1 where g: "go_append M arr n = (M1, arr1)" by fastforce
    note A = append_spec [OF Cons.prems(2) g]
    have "parse_relaynodes H raws M1 arr1 (m(ai_ID n \<mapsto> n)) = Inr (M', arr', m')" using Cons.prems(1) n False g by simp
    then show ?thesis
    proof (rule Cons.IH)
      show "slice_ok M1 arr1" using A by blast
      show "ai_ID ` set (nodes_of M1 arr1) = dom (m(ai_ID n \<mapsto> n))" using A Cons.prems(3) by (auto simp del: fun_upd_apply)
      show "good_map H (m(ai_ID n \<mapsto> n))" by (rule good_map_upd [OF Cons.prems(4) False])
    qed
  qed
qed simp

definition tables_agree :: "'w relay_client \<Rightarrow> bool" where
  "tables_agree s \<longleftrightarrow> ai_ID ` set (nodes_of (cl_arrays s) (pub s)) = dom (relaynodesMap (cl_relaynodes s))"

lemma new_client:
  assumes "NewRelayClient_state R g nodes w = Inr s"
  shows "cl_relayPeers s = Map.empty \<and> slice_ok (cl_arrays s) (pub s) \<and> tables_agree s \<and> map_ok (rk_host R) s"
proof (cases nodes)
  case None then show ?thesis using assms by (simp add: NewRelayClient_state_def setupRelaynodes_def)
next
  case (Some raw)
  have len: "\<not> length raw < MinimumRelayNodes"
    using assms Some by (auto simp: NewRelayClient_state_def setupRelaynodes_def)
  obtain M0 arr0 where m0: "make_slice [[]] = (M0, arr0)" by fastforce
  obtain M arr m where p: "parse_relaynodes (rk_host R) raw M0 arr0 Map.empty = Inr (M, arr, m)"
    using assms Some len m0
    by (cases "parse_relaynodes (rk_host R) raw M0 arr0 Map.empty") (auto simp: NewRelayClient_state_def setupRelaynodes_def)
  have "slice_ok M arr \<and> ai_ID ` set (nodes_of M arr) = dom m \<and> good_map (rk_host R) m"
    by (rule parse_spec [OF p]) (use make_slice_spec [OF m0] in \<open>simp_all add: good_map_def\<close>)
  moreover have "cl_relayPeers s = Map.empty" "cl_arrays s = M" "cl_relaynodes s = new_relaynodes (arr, m)"
    using assms Some len p m0
    by (auto simp: NewRelayClient_state_def setupRelaynodes_def registerAliveProtocol_def rc_RegisterProtocol_def)
  ultimately show ?thesis by (simp add: tables_agree_def pub_def map_ok_def new_relaynodes_def)
qed

lemma new_without:
  assumes "NewRelayClient_state R g nodes w = Inr s"
  shows "sys_without (ho_ID (rk_host R)) (rc_start s)"
proof -
  have "ho_ID (rk_host R) \<notin> dom (relaynodesMap (cl_relaynodes s))" using new_client [OF assms] by (auto simp: map_ok_def good_map_def)
  then show ?thesis using new_client [OF assms]
    by (simp add: sys_without_def rc_start_def client_without_def without_def tables_agree_def pc_without_def)
qed

lemma reach_ok:
  assumes "rc_reach R S" and "rand_below R"
  shows "peers_ok (ys_client S) \<and> sys_without (ho_ID (rk_host R)) S \<and> map_ok (rk_host R) (ys_client S)"
  using assms
proof (induction rule: rc_reach.induct)
  case (rcr_start g nodes w s)
  then show ?case using new_client [OF rcr_start(1)] new_without [OF rcr_start(1)] by (simp add: rc_start_def peers_ok_def)
next
  case (rcr_step S a)
  then show ?case using do_peers_ok do_without do_map_ok by metis
qed

section \<open>Calls of addRelaynodes that do not overlap\<close>

text \<open>A run in which the two goroutines are never in \<open>addRelaynodes\<close> at the same time.\<close>

inductive rc_serial :: "'w relay_lib \<Rightarrow> 'w rc_sys \<Rightarrow> bool" for R where
  rcs_start: "NewRelayClient_state R g nodes w = Inr s \<Longrightarrow> rc_serial R (rc_start s)"
| rcs_step: "rc_serial R S \<Longrightarrow> S' = rc_do R a S \<Longrightarrow> \<not> (adding (ys_res S') \<and> adding (ys_alive S')) \<Longrightarrow> rc_serial R S'"

lemma serial_reach: "rc_serial R S \<Longrightarrow> rc_reach R S"
  by (induction rule: rc_serial.induct) (auto intro: rc_reach.intros)

definition extends_pub :: "'w relay_client \<Rightarrow> node_slice \<Rightarrow> bool" where
  "extends_pub s sl \<longleftrightarrow> slice_ok (cl_arrays s) sl \<and> slice_ok (cl_arrays s) (pub s) \<and>
     (sl_array (pub s) = sl_array sl \<longrightarrow> sl_len (pub s) \<le> sl_len sl) \<and>
     set (nodes_of (cl_arrays s) (pub s)) \<subseteq> set (nodes_of (cl_arrays s) sl)"

definition slice_ids :: "'w relay_client \<Rightarrow> node_slice \<Rightarrow> peer_id set" where
  "slice_ids s sl = ai_ID ` set (nodes_of (cl_arrays s) sl)"

definition map_ids :: "'w relay_client \<Rightarrow> peer_id set" where
  "map_ids s = dom (relaynodesMap (cl_relaynodes s))"

fun add_serial :: "'w relay_client \<Rightarrow> add_pc \<Rightarrow> bool" where
  "add_serial s (AddRead raw) \<longleftrightarrow> length raw \<le> 1 \<and> slice_ok (cl_arrays s) (pub s) \<and> tables_agree s"
| "add_serial s (AddCheck raw arr) \<longleftrightarrow> length raw \<le> 1 \<and> extends_pub s arr \<and> slice_ids s arr = map_ids s \<and>
     (raw \<noteq> [] \<longrightarrow> tables_agree s)"
| "add_serial s (AddAppend n rest arr) \<longleftrightarrow> rest = [] \<and> extends_pub s arr \<and> slice_ids s arr = map_ids s"
| "add_serial s (AddStore n rest arr) \<longleftrightarrow> rest = [] \<and> extends_pub s arr \<and> slice_ids s arr = insert (ai_ID n) (map_ids s)"
| "add_serial s (AddPublish arr) \<longleftrightarrow> extends_pub s arr \<and> slice_ids s arr = map_ids s"
| "add_serial s (AddEnd e) \<longleftrightarrow> slice_ok (cl_arrays s) (pub s) \<and> tables_agree s"

lemma agree_ids: "tables_agree s \<longleftrightarrow> slice_ids s (pub s) = map_ids s"
  by (simp add: tables_agree_def slice_ids_def map_ids_def)

lemma add_serial_cong:
  assumes "cl_relaynodes t = cl_relaynodes s" and "cl_arrays t = cl_arrays s"
  shows "add_serial t a \<longleftrightarrow> add_serial s a"
  using assms by (cases a) (simp_all add: extends_pub_def slice_ids_def map_ids_def pub_def tables_agree_def)

lemma append_place: "go_append M sl x = (M', sl') \<Longrightarrow>
    sl_array sl' = sl_array sl \<and> sl_len sl' = Suc (sl_len sl) \<or> sl_array sl' = length M"
  by (auto simp: go_append_def Let_def split: if_splits)

lemma extends_append:
  assumes "extends_pub s arr" and "go_append (cl_arrays s) arr n = (M, arr')" and t: "t = s\<lparr>cl_arrays := M\<rparr>"
  shows "extends_pub t arr' \<and> slice_ids t arr' = insert (ai_ID n) (slice_ids s arr) \<and>
    nodes_of (cl_arrays t) (pub t) = nodes_of (cl_arrays s) (pub s)"
proof -
  have e: "slice_ok (cl_arrays s) arr" "slice_ok (cl_arrays s) (pub s)"
    "sl_array (pub s) = sl_array arr \<longrightarrow> sl_len (pub s) \<le> sl_len arr"
    "set (nodes_of (cl_arrays s) (pub s)) \<subseteq> set (nodes_of (cl_arrays s) arr)"
    using assms(1) by (simp_all add: extends_pub_def)
  have p: "pub t = pub s" "cl_arrays t = M" by (simp_all add: t pub_def)
  have "sl_array (pub s) = sl_array arr' \<longrightarrow> sl_len (pub s) \<le> sl_len arr'"
    using append_place [OF assms(2)] e(2,3) by (auto simp: slice_ok_def)
  then show ?thesis using append_spec [OF e(1) assms(2)] append_other(1) [OF e(1,2) assms(2)]
      append_other(3) [OF e(1,2) assms(2) e(3)] e(4)
    by (auto simp: extends_pub_def slice_ids_def p)
qed

lemma add_step_serial:
  assumes "add_serial s a" and "add_step H a s = (a', t)"
  shows "add_serial t a' \<and> set (nodes_of (cl_arrays s) (pub s)) \<subseteq> set (nodes_of (cl_arrays t) (pub t))"
proof (cases a)
  case (AddRead raw)
  then have "a' = AddCheck raw (pub s)" "t = s" using assms(2) by (auto simp: pub_def)
  then show ?thesis using assms(1) AddRead by (simp add: extends_pub_def agree_ids)
next
  case (AddCheck raws arr)
  have t: "t = s" using assms(2) AddCheck by (cases raws) (auto split: sum.splits if_splits)
  show ?thesis
  proof (cases raws)
    case Nil then show ?thesis using assms AddCheck by auto
  next
    case (Cons raw rest)
    then have "rest = []" using assms(1) AddCheck by simp
    then show ?thesis using assms AddCheck Cons
      by (auto simp: extends_pub_def split: sum.splits if_splits)
  qed
next
  case (AddAppend n rest arr)
  obtain M arr' where g: "go_append (cl_arrays s) arr n = (M, arr')" by fastforce
  have t: "a' = AddStore n rest arr'" "t = s\<lparr>cl_arrays := M\<rparr>" using assms(2) AddAppend g by auto
  have "map_ids t = map_ids s" by (simp add: t map_ids_def)
  then show ?thesis using extends_append [of s arr n M arr' t] assms(1) AddAppend g t by simp
next
  case (AddStore n rest arr)
  then have t: "a' = AddCheck rest arr"
    "t = s\<lparr>cl_relaynodes := cl_relaynodes s\<lparr>relaynodesMap := (relaynodesMap (cl_relaynodes s))(ai_ID n \<mapsto> n)\<rparr>\<rparr>"
    using assms(2) by (auto simp: Let_def)
  then have "pub t = pub s" "cl_arrays t = cl_arrays s" "map_ids t = insert (ai_ID n) (map_ids s)"
    by (simp_all add: pub_def map_ids_def)
  then show ?thesis using assms(1) AddStore t(1) by (simp add: extends_pub_def slice_ids_def)
next
  case (AddPublish arr)
  then have t: "a' = AddEnd None" "t = s\<lparr>cl_relaynodes := new_relaynodes (arr, relaynodesMap (cl_relaynodes s))\<rparr>"
    using assms(2) by auto
  then have "pub t = arr" "cl_arrays t = cl_arrays s" "map_ids t = map_ids s"
    by (simp_all add: pub_def map_ids_def new_relaynodes_def)
  then show ?thesis using assms(1) AddPublish t(1) by (simp add: extends_pub_def slice_ids_def agree_ids)
next
  case (AddEnd e) then show ?thesis using assms by auto
qed

text \<open>The call under way, if there is one.\<close>

definition under_way :: "alive_pc \<Rightarrow> alive_pc \<Rightarrow> add_pc" where
  "under_way res alive = (case res of AliveLearn a \<Rightarrow> a | _ \<Rightarrow> (case alive of AliveLearn a \<Rightarrow> a | _ \<Rightarrow> AddEnd None))"

definition reserved_listed :: "'w relay_client \<Rightarrow> bool" where
  "reserved_listed s \<longleftrightarrow> (\<forall>p i. cl_relayPeers s p = Some i \<longrightarrow> rci_Info (rpi_Info i) \<in> set (nodes_of (cl_arrays s) (pub s)))"

definition serial_inv :: "'w rc_sys \<Rightarrow> bool" where
  "serial_inv S \<longleftrightarrow> \<not> (adding (ys_res S) \<and> adding (ys_alive S)) \<and>
     add_serial (ys_client S) (under_way (ys_res S) (ys_alive S)) \<and> reserved_listed (ys_client S)"

lemma not_adding_way [simp]:
  "\<not> adding pc \<Longrightarrow> under_way pc pc' = (case pc' of AliveLearn a \<Rightarrow> a | _ \<Rightarrow> AddEnd None)"
  "\<not> adding pc' \<Longrightarrow> under_way pc pc' = (case pc of AliveLearn a \<Rightarrow> a | _ \<Rightarrow> AddEnd None)"
  by (auto simp: under_way_def adding_def split: alive_pc.splits)

lemma move_listed: "peers_move s t \<Longrightarrow> reserved_listed s \<Longrightarrow> reserved_listed t"
  by (auto simp: peers_move_def reserved_listed_def pub_def map_le_def dom_def split: if_splits)

lemma keeps_adding: "keeps_pc pc pc' \<Longrightarrow> adding pc \<Longrightarrow> pc' = pc"
  by (simp add: keeps_pc_def)

lemma fresh_serial:
  assumes "fresh_pc pc" and "add_serial s (AddEnd None)"
  shows "add_serial s (case pc of AliveLearn a \<Rightarrow> a | _ \<Rightarrow> AddEnd None)"
  using assms by (auto simp: fresh_pc_def adding_def split: alive_pc.splits)

lemma keeps_fresh: "keeps_pc pc pc' \<Longrightarrow> \<not> adding pc \<Longrightarrow> fresh_pc pc'"
  by (auto simp: keeps_pc_def fresh_pc_def)

lemma move_serial:
  assumes "moves S S'" and "serial_inv S" and ex: "\<not> (adding (ys_res S') \<and> adding (ys_alive S'))"
  shows "serial_inv S'"
proof -
  let ?s = "ys_client S"
  have m: "peers_move ?s (ys_client S')" "keeps_pc (ys_res S) (ys_res S')" "keeps_pc (ys_alive S) (ys_alive S')"
    using assms(1) by (simp_all add: moves_def)
  have i: "\<not> (adding (ys_res S) \<and> adding (ys_alive S))" "add_serial ?s (under_way (ys_res S) (ys_alive S))"
    "reserved_listed ?s" using assms(2) by (simp_all add: serial_inv_def)
  have "add_serial ?s (under_way (ys_res S') (ys_alive S'))"
  proof (cases "adding (ys_res S) \<or> adding (ys_alive S)")
    case True
    then have "under_way (ys_res S') (ys_alive S') = under_way (ys_res S) (ys_alive S)"
      using i(1) ex keeps_adding [OF m(2)] keeps_adding [OF m(3)] by (auto simp del: under_way_def)
    then show ?thesis using i(2) by simp
  next
    case False
    then have "fresh_pc (ys_res S')" "fresh_pc (ys_alive S')" "add_serial ?s (AddEnd None)"
      using keeps_fresh [OF m(2)] keeps_fresh [OF m(3)] i(2)
      by (auto simp: adding_def split: alive_pc.splits)
    then show ?thesis using ex fresh_serial by (cases "adding (ys_res S')") simp_all
  qed
  then have "add_serial (ys_client S') (under_way (ys_res S') (ys_alive S'))"
    using m(1) add_serial_cong [of "ys_client S'" ?s] by (simp add: peers_move_def)
  then show ?thesis using ex move_listed [OF m(1) i(3)] by (simp add: serial_inv_def)
qed

lemma learning_way:
  "add_serial t a' \<Longrightarrow> \<not> adding pc \<Longrightarrow> add_serial t (under_way (learning a') pc) \<and> add_serial t (under_way pc (learning a'))"
  by (cases a') (simp_all add: learning_def)

lemma add_listed:
  assumes "add_serial s a" and "add_step H a s = (a', t)" and "reserved_listed s"
  shows "reserved_listed t"
  using add_step_serial [OF assms(1,2)] assms(3) add_step_frame [OF assms(2)] by (auto simp: reserved_listed_def)

lemma adds_serial:
  assumes "adds_res H S S' \<or> adds_alive H S S'" and "serial_inv S"
  shows "serial_inv S'"
proof -
  have i: "\<not> (adding (ys_res S) \<and> adding (ys_alive S))" "add_serial (ys_client S) (under_way (ys_res S) (ys_alive S))"
    "reserved_listed (ys_client S)" using assms(2) by (simp_all add: serial_inv_def)
  from assms(1) show ?thesis
  proof
    assume "adds_res H S S'"
    then obtain a a' where a: "ys_res S = AliveLearn a" "add_step H a (ys_client S) = (a', ys_client S')"
      "ys_res S' = learning a'" "ys_alive S' = ys_alive S" by (auto simp: adds_res_def)
    then have n: "\<not> adding (ys_alive S)" using i(1) by (simp add: adding_def)
    then have w: "add_serial (ys_client S) a" using i(2) a(1) by simp
    show ?thesis using add_step_serial [OF w a(2)] add_listed [OF w a(2) i(3)] learning_way [OF _ n, of "ys_client S'" a'] n a(3,4)
      by (simp add: serial_inv_def)
  next
    assume "adds_alive H S S'"
    then obtain a a' where a: "ys_alive S = AliveLearn a" "add_step H a (ys_client S) = (a', ys_client S')"
      "ys_alive S' = learning a'" "ys_res S' = ys_res S" by (auto simp: adds_alive_def)
    then have n: "\<not> adding (ys_res S)" using i(1) by (simp add: adding_def)
    then have w: "add_serial (ys_client S) a" using i(2) a(1) by simp
    show ?thesis using add_step_serial [OF w a(2)] add_listed [OF w a(2) i(3)] learning_way [OF _ n, of "ys_client S'" a'] n a(3,4)
      by (simp add: serial_inv_def)
  qed
qed

lemma serial_ok: "rc_serial R S \<Longrightarrow> rand_below R \<Longrightarrow> serial_inv S"
proof (induction rule: rc_serial.induct)
  case (rcs_start g nodes w s)
  then show ?case using new_client [OF rcs_start(1)]
    by (simp add: serial_inv_def rc_start_def adding_def under_way_def reserved_listed_def)
next
  case (rcs_step S S' a)
  have "peers_ok (ys_client S)" using reach_ok [OF serial_reach [OF rcs_step(1)] rcs_step(5)] by blast
  from rc_do_cases [OF rcs_step(5) this, of a] rcs_step show ?case using move_serial adds_serial by metis
qed

section \<open>A call that overwrites another\<close>

definition new_node :: "'w host \<Rightarrow> 'w relay_client \<Rightarrow> string \<Rightarrow> addr_info \<Rightarrow> bool" where
  "new_node H s d n \<longleftrightarrow> StringToAddrInfo (ho_codec H) d = Inr n \<and> ai_ID n \<noteq> ho_ID H \<and>
     \<not> hasRelayPeer s (ai_ID n) \<and> \<not> isRelaynode (cl_relaynodes s) (ai_ID n)"

lemma run_append: "rc_run R (xs @ ys) S = rc_run R ys (rc_run R xs S)"
  by (simp add: rc_run_def)

lemma run_Cons: "rc_run R (x # xs) S = rc_run R xs (rc_do R x S)"
  by (simp add: rc_run_def)

lemma run_Nil [simp]: "rc_run R [] S = S"
  by (simp add: rc_run_def)

lemma do_res_add:
  "\<not> ys_crashed S \<Longrightarrow> ys_res S = AliveLearn a \<Longrightarrow> add_step (rk_host R) a (ys_client S) = (a', t) \<Longrightarrow>
   rc_do R ResRun S = S\<lparr>ys_client := t, ys_res := learning a'\<rparr>"
  by (simp add: rc_do_def alive_step_def after_alive_simps)

lemma do_alive_add:
  "\<not> ys_crashed S \<Longrightarrow> ys_alive S = AliveLearn a \<Longrightarrow> add_step (rk_host R) a (ys_client S) = (a', t) \<Longrightarrow>
   rc_do R AliveRun S = S\<lparr>ys_client := t, ys_alive := learning a'\<rparr>"
  by (simp add: rc_do_def alive_step_def after_alive_simps)

text \<open>What a call leaves when it has checked against the current map and appends to \<open>arr\<close>.\<close>

definition added :: "'w relay_client \<Rightarrow> node_slice \<Rightarrow> addr_info \<Rightarrow> 'w relay_client" where
  "added s arr n = (case go_append (cl_arrays s) arr n of (M, arr') \<Rightarrow>
     s\<lparr>cl_arrays := M, cl_relaynodes := new_relaynodes (arr', (relaynodesMap (cl_relaynodes s))(ai_ID n \<mapsto> n))\<rparr>)"

lemma res_adds:
  assumes "\<not> ys_crashed S" and "ys_res S = AliveLearn (AddCheck [d] arr)" and n: "new_node (rk_host R) (ys_client S) d n"
  shows "rc_run R (replicate 5 ResRun) S = S\<lparr>ys_client := added (ys_client S) arr n, ys_res := AliveDone\<rparr>"
proof -
  obtain M arr' where g: "go_append (cl_arrays (ys_client S)) arr n = (M, arr')" by fastforce
  show ?thesis using assms(1,2) n [unfolded new_node_def] g
    by (simp add: eval_nat_numeral run_Cons do_res_add learning_def added_def new_relaynodes_def Let_def)
qed

lemma alive_adds:
  assumes "\<not> ys_crashed S" and "ys_alive S = AliveLearn (AddRead [d])" and n: "new_node (rk_host R) (ys_client S) d n"
  shows "rc_run R (replicate 6 AliveRun) S = S\<lparr>ys_client := added (ys_client S) (pub (ys_client S)) n, ys_alive := AliveDone\<rparr>"
proof -
  obtain M arr' where g: "go_append (cl_arrays (ys_client S)) (pub (ys_client S)) n = (M, arr')" by fastforce
  show ?thesis using assms(1,2) n [unfolded new_node_def] g
    by (simp add: eval_nat_numeral run_Cons do_alive_add learning_def added_def new_relaynodes_def Let_def pub_def)
qed

lemma added_spec:
  assumes "slice_ok (cl_arrays s) arr"
  shows "slice_ok (cl_arrays (added s arr n)) (pub (added s arr n)) \<and>
    nodes_of (cl_arrays (added s arr n)) (pub (added s arr n)) = nodes_of (cl_arrays s) arr @ [n] \<and>
    relaynodesMap (cl_relaynodes (added s arr n)) = (relaynodesMap (cl_relaynodes s))(ai_ID n \<mapsto> n) \<and>
    cl_relayPeers (added s arr n) = cl_relayPeers s \<and>
    slice_ok (cl_arrays (added s arr n)) arr \<and> nodes_of (cl_arrays (added s arr n)) arr = nodes_of (cl_arrays s) arr"
proof -
  obtain M arr' where g: "go_append (cl_arrays s) arr n = (M, arr')" by fastforce
  show ?thesis using append_spec [OF assms g] append_other(1,3) [OF assms assms g]
    by (simp add: added_def g pub_def new_relaynodes_def)
qed

lemma reach_run: "rc_reach R S \<Longrightarrow> rc_reach R (rc_run R acts S)"
  by (induction acts arbitrary: S) (auto simp: run_Cons intro: rcr_step)

lemma without_run:
  assumes "rc_reach R S" and "rand_below R" and "sys_without q S" and "isRelaynode (cl_relaynodes (ys_client S)) q"
  shows "sys_without q (rc_run R acts S) \<and> isRelaynode (cl_relaynodes (ys_client (rc_run R acts S))) q"
  using assms
proof (induction acts arbitrary: S)
  case (Cons a acts)
  have "peers_ok (ys_client S)" using reach_ok [OF Cons.prems(1,2)] by blast
  note D = do_without [OF Cons.prems(2) this Cons.prems(3), of a]
  show ?case unfolding run_Cons
    by (rule Cons.IH [OF rcr_step [OF Cons.prems(1)] Cons.prems(2)]) (use D Cons.prems(4) in blast)+
qed simp

section \<open>The wait without a relay\<close>

definition map_orders :: "'w relay_lib \<Rightarrow> bool" where
  "map_orders R \<longleftrightarrow> (\<forall>w A. finite A \<longrightarrow> set (ho_MapOrder (rk_host R) w A) = A)"

lemma no_peers_none:
  "map_orders R \<Longrightarrow> cl_relayPeers s = Map.empty \<Longrightarrow> RelayPeers R s = []"
  by (simp add: RelayPeers_def map_orders_def) (metis finite.emptyI set_empty)

text \<open>The reservation goroutine waits for a relay peer that nobody else adds.\<close>

definition starving :: "'w rc_sys \<Rightarrow> bool" where
  "starving S \<longleftrightarrow> ys_res S = AliveTop \<and> cl_relayPeers (ys_client S) = Map.empty \<and> \<not> cl_closed (ys_client S)"

lemma alive_step_keeps:
  assumes "alive_step R pc s = (x, t)"
  shows "cl_relayPeers t = cl_relayPeers s \<and> cl_closed t = cl_closed s"
proof (cases "adding pc")
  case False then show ?thesis using alive_move [OF assms] by (simp add: same_tables_def)
next
  case True
  then obtain a where "pc = AliveLearn a" by (auto simp: adding_def)
  then show ?thesis using assms add_step_frame by (fastforce simp: alive_step_def split: prod.splits)
qed

lemma starving_do:
  assumes "map_orders R" and "starving S" and "a \<noteq> CloseClient"
  shows "starving (rc_do R a S)"
proof (cases "ys_crashed S")
  case True then show ?thesis using assms by (simp add: rc_do_def)
next
  case False
  let ?s = "ys_client S"
  have st: "ys_res S = AliveTop" "cl_relayPeers ?s = Map.empty" "\<not> cl_closed ?s"
    using assms(2) by (simp_all add: starving_def)
  show ?thesis
  proof (cases a)
    case (ResTick now) then show ?thesis using assms False st by (simp add: rc_do_def Let_def)
  next
    case ResRun
    have "alive_step R AliveTop ?s = (Inr AliveTop, ?s)"
      using st no_peers_none [OF assms(1) st(2)] by (simp add: alive_step_def)
    then show ?thesis using ResRun False st by (simp add: rc_do_def after_alive_def starving_def)
  next
    case AliveTick then show ?thesis using False st by (simp add: rc_do_def starving_def)
  next
    case AliveRun
    obtain x t where t: "alive_step R (ys_alive S) ?s = (x, t)" by fastforce
    show ?thesis using AliveRun False st alive_step_keeps [OF t] t
      by (cases x) (simp_all add: rc_do_def after_alive_def starving_def)
  next
    case (Disconnected p) then show ?thesis using False st by (simp add: rc_do_def removeRelayPeerInfo_def starving_def)
  next
    case (ConnectedTo p d)
    then show ?thesis using False st same_addPeer [of ?s R p d]
      by (simp add: rc_do_def starving_def same_tables_def)
  next
    case (AppEvent ev) then show ?thesis using False st by (simp add: rc_do_def use_event_def starving_def Let_def)
  next
    case CloseClient then show ?thesis using assms(3) by simp
  next
    case (World w) then show ?thesis using False st by (simp add: rc_do_def starving_def)
  qed
qed

lemma starving_run:
  "map_orders R \<Longrightarrow> starving S \<Longrightarrow> CloseClient \<notin> set acts \<Longrightarrow> starving (rc_run R acts S)"
  unfolding rc_run_def by (induction acts arbitrary: S) (auto simp: starving_do)

section \<open>Forwarders of events\<close>

lemma last_nth: "fs \<noteq> [] \<Longrightarrow> last fs = fs ! (length fs - 1)"
  by (rule last_conv_nth)

lemma pump_do_abandoned:
  assumes "i + 1 < length fs" and "fs ! i = FHold ev" and "pump_do a (fs, got) = (fs', got')"
  shows "i + 1 < length fs' \<and> fs' ! i = FHold ev"
proof (cases a)
  case (PTake j e) then show ?thesis using assms by (auto simp: nth_list_update split: if_splits)
next
  case PReceive then show ?thesis using assms by (auto simp: nth_append nth_list_update split: forwarder.splits)
qed

lemma pump_run_abandoned:
  "i + 1 < length fs \<Longrightarrow> fs ! i = FHold ev \<Longrightarrow> pump_run acts (fs, got) = (fs', got') \<Longrightarrow>
   i + 1 < length fs' \<and> fs' ! i = FHold ev"
proof (induction acts arbitrary: fs got)
  case (Cons a acts)
  obtain fs1 got1 where p: "pump_do a (fs, got) = (fs1, got1)" by fastforce
  show ?case
    by (rule Cons.IH [of fs1 got1]) (use Cons.prems p pump_do_abandoned [OF Cons.prems(1,2) p] in \<open>auto simp: pump_run_def\<close>)
qed (simp add: pump_run_def)

text \<open>The events taken off the subscription by a run.\<close>

fun taken :: "pump_act list \<Rightarrow> pump \<Rightarrow> app_event list" where
  "taken [] P = []"
| "taken (a # acts) P =
     (case a of
        PTake i ev \<Rightarrow> (if i < length (fst P) \<and> fst P ! i = FWait then [ev] else [])
      | PReceive \<Rightarrow> []) @ taken acts (pump_do a P)"

definition held :: "forwarder list \<Rightarrow> app_event multiset" where
  "held fs = mset (concat (map (\<lambda>f. case f of FHold ev \<Rightarrow> [ev] | FWait \<Rightarrow> []) fs))"

lemma held_append [simp]: "held (fs @ gs) = held fs + held gs"
  by (simp add: held_def)

lemma held_simps [simp]: "held [] = {#}" "held (FWait # fs) = held fs" "held (FHold ev # fs) = add_mset ev (held fs)"
  by (simp_all add: held_def)

lemma held_take: "i < length fs \<Longrightarrow> fs ! i = FWait \<Longrightarrow> held (fs[i := FHold ev]) = add_mset ev (held fs)"
  by (simp add: upd_conv_take_nth_drop) (metis add_mset_add_single held_append held_simps(2,3) id_take_nth_drop
      union_mset_add_mset_right)

lemma in_held: "i < length fs \<Longrightarrow> fs ! i = FHold ev \<Longrightarrow> ev \<in># held fs"
  by (induction fs arbitrary: i) (auto simp: nth_Cons split: nat.splits forwarder.splits, auto simp: held_def)

lemma held_release:
  assumes "fs \<noteq> []" and "last fs = FHold ev"
  shows "held fs = add_mset ev (held (fs[length fs - 1 := FWait]))"
proof -
  obtain gs where fs: "fs = gs @ [FHold ev]" using assms by (metis append_butlast_last_id)
  then show ?thesis by simp
qed

lemma pump_account:
  "fs \<noteq> [] \<Longrightarrow> pump_run acts (fs, got) = (fs', got') \<Longrightarrow>
   fs' \<noteq> [] \<and> held fs' + mset got' = held fs + mset got + mset (taken acts (fs, got)) \<and>
   length fs' + length got = length fs + length got'"
proof (induction acts arbitrary: fs got)
  case (Cons a acts)
  obtain fs1 got1 where p: "pump_do a (fs, got) = (fs1, got1)" by fastforce
  have r: "pump_run acts (fs1, got1) = (fs', got')" using Cons.prems(2) p by (simp add: pump_run_def)
  show ?case
  proof (cases a)
    case (PTake i ev)
    show ?thesis
    proof (cases "i < length fs \<and> fs ! i = FWait")
      case True
      then have "fs1 = fs[i := FHold ev]" "got1 = got" using p PTake by simp_all
      then show ?thesis using Cons.IH [OF _ r] Cons.prems(1) True PTake by (simp add: held_take)
    next
      case False
      then have "fs1 = fs" "got1 = got" using p PTake by auto
      then show ?thesis using Cons.IH [OF _ r] Cons.prems(1) False PTake by auto
    qed
  next
    case PReceive
    show ?thesis
    proof (cases "last fs")
      case FWait
      then have "fs1 = fs" "got1 = got" using p PReceive by simp_all
      then show ?thesis using Cons.IH [OF _ r] Cons.prems(1) PReceive FWait by simp
    next
      case (FHold ev)
      then have "fs1 = fs[length fs - 1 := FWait] @ [FWait]" "got1 = got @ [ev]" using p PReceive by simp_all
      then show ?thesis using Cons.IH [OF _ r] Cons.prems(1) held_release [OF Cons.prems(1) FHold] PReceive FHold
        by simp
    qed
  qed
qed (simp add: pump_run_def)

section \<open>Octets\<close>

definition octet :: "nat \<Rightarrow> string" where "octet n = itoa (int n)"

definition dotted :: "nat \<Rightarrow> nat \<Rightarrow> nat \<Rightarrow> nat \<Rightarrow> string" where
  "dotted a b c d = octet a @ ''.'' @ octet b @ ''.'' @ octet c @ ''.'' @ octet d"

definition dch :: "nat \<Rightarrow> char" where "dch k = char_of (48 + k)"

lemma dch_lits:
  "CHR ''0'' = dch 0" "CHR ''1'' = dch 1" "CHR ''2'' = dch 2" "CHR ''3'' = dch 3" "CHR ''4'' = dch 4"
  "CHR ''5'' = dch 5" "CHR ''6'' = dch 6" "CHR ''7'' = dch 7" "CHR ''8'' = dch 8" "CHR ''9'' = dch 9"
  by code_simp+

lemma dch_eq: "i < 10 \<Longrightarrow> j < 10 \<Longrightarrow> dch i = dch j \<longleftrightarrow> i = j"
  by (simp add: dch_def char_of_eq_iff of_char_of take_bit_nat_eq_self)

lemma dch_less: "i < 10 \<Longrightarrow> j < 10 \<Longrightarrow> dch i < dch j \<longleftrightarrow> i < j"
  by (simp add: dch_def less_char_def)

lemma dch_digit: "i < 10 \<Longrightarrow> is_digit (dch i)"
  by (simp add: dch_def is_digit_def)

lemma octet_digits_of: "octet n = digits_of (n + 1) n"
  by (simp add: octet_def itoa_def)

lemma octet_one: "n < 10 \<Longrightarrow> octet n = [dch n]"
  by (simp add: octet_digits_of dch_def)

lemma octet_two:
  assumes "10 \<le> n" and "n < 100"
  obtains r t where "0 < r" "r < 10" "t < 10" "n = 10 * r + t" "octet n = [dch r, dch t]"
proof -
  obtain m where m: "n = Suc m" using assms(1) by (cases n) auto
  have "octet n = [dch (n div 10), dch (n mod 10)]" using assms unfolding octet_digits_of
    by (simp add: dch_def m)
  moreover have "0 < n div 10" "n div 10 < 10" "n mod 10 < 10" "n = 10 * (n div 10) + n mod 10" using assms by auto
  ultimately show thesis by (rule that [rotated 4])
qed

lemma octet_three:
  assumes "100 \<le> n" and "n < 256"
  obtains q r t where "q = 1 \<or> q = 2" "r < 10" "t < 10" "n = 100 * q + 10 * r + t" "octet n = [dch q, dch r, dch t]"
proof -
  have "n = Suc (Suc (n - 2))" using assms(1) by simp
  then obtain m where m: "n = Suc (Suc m)" by blast
  have q: "n div 10 div 10 = n div 100" by (simp add: div_mult2_eq [symmetric])
  have "n div 10 div 10 < 10" "\<not> n div 10 < 10" using assms by auto
  then have "octet n = [dch (n div 10 div 10), dch (n div 10 mod 10), dch (n mod 10)]"
    using assms unfolding octet_digits_of by (simp add: dch_def m)
  moreover have "n div 10 div 10 = 1 \<or> n div 10 div 10 = 2" using assms q by auto
  moreover have "n = 100 * (n div 10 div 10) + 10 * (n div 10 mod 10) + n mod 10"
    using div_mult_mod_eq [of n 10] div_mult_mod_eq [of "n div 10" 10] by linarith
  moreover have "n div 10 mod 10 < 10" "n mod 10 < 10" by simp_all
  ultimately show thesis by (intro that [of "n div 10 div 10" "n div 10 mod 10" "n mod 10"])
qed

lemma octet_digits:
  assumes "n < 256"
  shows "digit_run (octet n)"
proof -
  consider "n < 10" | "10 \<le> n" "n < 100" | "100 \<le> n" by linarith
  then show ?thesis
  proof cases
    case 1 then show ?thesis by (simp add: octet_one digit_run_def dch_digit)
  next
    case 2 then show ?thesis by (rule octet_two) (simp add: digit_run_def dch_digit)
  next
    case 3 then show ?thesis using assms by (rule octet_three) (auto simp: digit_run_def dch_digit)
  qed
qed

lemma octet_order:
  assumes "n < 256"
  shows "''16'' \<le> octet n \<and> octet n \<le> ''31'' \<longleftrightarrow> n = 2 \<or> n = 3 \<or> 16 \<le> n \<and> n \<le> 31 \<or> 160 \<le> n"
proof -
  consider "n < 10" | "10 \<le> n" "n < 100" | "100 \<le> n" by linarith
  then show ?thesis
  proof cases
    case 1 then show ?thesis by (auto simp: octet_one dch_lits dch_eq dch_less)
  next
    case 2 then show ?thesis
    proof (rule octet_two)
      fix r t assume "0 < r" "r < (10 :: nat)" "t < (10 :: nat)" "n = 10 * r + t" "octet n = [dch r, dch t]"
      then show ?thesis by (simp add: dch_lits dch_eq dch_less order_le_less) arith
    qed
  next
    case 3 then show ?thesis using assms
    proof (rule octet_three)
      fix q r t assume "q = 1 \<or> q = 2" "r < (10 :: nat)" "t < (10 :: nat)" "n = 100 * q + 10 * r + t"
        "octet n = [dch q, dch r, dch t]"
      then show ?thesis by (elim disjE) (simp_all add: dch_lits dch_eq dch_less, arith)
    qed
  qed
qed

lemma digits_unique:
  assumes "r < 10" "t < 10" "y < 10" "z < (10 :: nat)"
  shows "q = x \<and> r = y \<and> t = z \<longleftrightarrow> 100 * q + 10 * r + t = 100 * x + 10 * y + z"
proof
  assume e: "100 * q + 10 * r + t = 100 * x + 10 * y + z"
  have k: "(c + 10 * k) mod 10 = c \<and> (c + 10 * k) div 10 = k" if "c < 10" for c k :: nat
    using that by simp
  have m: "(100 * a + 10 * b + c) mod 10 = c" "(100 * a + 10 * b + c) div 10 = 10 * a + b" if "c < 10" for a b c :: nat
  proof -
    have n: "100 * a + 10 * b + c = c + 10 * (10 * a + b)" by simp
    show "(100 * a + 10 * b + c) mod 10 = c" "(100 * a + 10 * b + c) div 10 = 10 * a + b"
      unfolding n using k [OF that] by blast+
  qed
  have "t = z" using arg_cong [OF e, of "\<lambda>n. n mod 10"] by (simp only: m assms)
  have "10 * q + r = 10 * x + y" using arg_cong [OF e, of "\<lambda>n. n div 10"] by (simp only: m assms)
  then have e2: "r + 10 * q = y + 10 * x" by simp
  have "r = y" "q = x" using arg_cong [OF e2, of "\<lambda>n. n mod 10"] arg_cong [OF e2, of "\<lambda>n. n div 10"]
    by (simp_all only: k assms)
  with \<open>t = z\<close> show "q = x \<and> r = y \<and> t = z" by simp
qed simp

lemma octet_cases:
  fixes n :: nat
  assumes "n < 256"
  obtains "n < 10" | "10 \<le> n" "n < 100" | "100 \<le> n"
  by linarith

lemma octet_is_one:
  assumes "n < 256" and "x < 10"
  shows "octet n = [dch x] \<longleftrightarrow> n = x"
  using assms(1)
proof (cases rule: octet_cases)
  case 1 then show ?thesis using assms(2) by (simp add: octet_one dch_eq)
next
  case 2 then show ?thesis using assms(2) by (elim octet_two) auto
next
  case 3 from this assms(1) show ?thesis using assms(2) by (elim octet_three) auto
qed

lemma octet_is_two:
  assumes "n < 256" and "0 < x" and "x < 10" and "y < 10"
  shows "octet n = [dch x, dch y] \<longleftrightarrow> n = 10 * x + y"
  using assms(1)
proof (cases rule: octet_cases)
  case 1 then show ?thesis using assms by (simp add: octet_one)
next
  case 2 then show ?thesis
  proof (rule octet_two)
    fix r t assume "r < (10 :: nat)" "t < (10 :: nat)" "n = 10 * r + t" "octet n = [dch r, dch t]"
    then show ?thesis using assms digits_unique [of r t x y 0 0] by (simp add: dch_eq)
  qed
next
  case 3 from this assms(1) show ?thesis using assms by (elim octet_three) auto
qed

lemma octet_is_three:
  assumes "n < 256" and "x = 1 \<or> x = 2" and "y < 10" and "z < 10"
  shows "octet n = [dch x, dch y, dch z] \<longleftrightarrow> n = 100 * x + 10 * y + z"
  using assms(1)
proof (cases rule: octet_cases)
  case 1 then show ?thesis using assms by (auto simp: octet_one)
next
  case 2 then show ?thesis using assms by (elim octet_two) auto
next
  case 3 from this assms(1) show ?thesis
  proof (rule octet_three)
    fix q r t assume "q = 1 \<or> q = 2" "r < (10 :: nat)" "t < (10 :: nat)" "n = 100 * q + 10 * r + t"
      "octet n = [dch q, dch r, dch t]"
    then have "octet n = [dch x, dch y, dch z] \<longleftrightarrow> q = x \<and> r = y \<and> t = z"
      using assms by (auto simp: dch_eq)
    moreover have "q = x \<and> r = y \<and> t = z \<longleftrightarrow> 100 * q + 10 * r + t = 100 * x + 10 * y + z"
      by (rule digits_unique) fact+
    ultimately show ?thesis using \<open>n = 100 * q + 10 * r + t\<close> by simp
  qed
qed

lemma octet_is:
  assumes "n < 256"
  shows "octet n = ''0'' \<longleftrightarrow> n = 0" "octet n = ''1'' \<longleftrightarrow> n = 1" "octet n = ''10'' \<longleftrightarrow> n = 10"
    "octet n = ''127'' \<longleftrightarrow> n = 127" "octet n = ''168'' \<longleftrightarrow> n = 168" "octet n = ''169'' \<longleftrightarrow> n = 169"
    "octet n = ''172'' \<longleftrightarrow> n = 172" "octet n = ''192'' \<longleftrightarrow> n = 192" "octet n = ''254'' \<longleftrightarrow> n = 254"
proof -
  note one = octet_is_one [OF assms] and two = octet_is_two [OF assms] and three = octet_is_three [OF assms]
  show "octet n = ''0'' \<longleftrightarrow> n = 0" "octet n = ''1'' \<longleftrightarrow> n = 1" unfolding dch_lits by (rule one; simp)+
  show "octet n = ''10'' \<longleftrightarrow> n = 10" unfolding dch_lits by (subst two; simp)
  show "octet n = ''127'' \<longleftrightarrow> n = 127" "octet n = ''168'' \<longleftrightarrow> n = 168" "octet n = ''169'' \<longleftrightarrow> n = 169"
    "octet n = ''172'' \<longleftrightarrow> n = 172" "octet n = ''192'' \<longleftrightarrow> n = 192" unfolding dch_lits by (subst three; simp)+
  have "octet n = [dch 2, dch 5, dch 4] \<longleftrightarrow> n = 254" by (subst three; simp)
  then show "octet n = ''254'' \<longleftrightarrow> n = 254" by (simp only: dch_lits)
qed

lemma isInnerIp_dotted:
  assumes "ml_IP4 L ma = Inr (dotted a b c d)" and "a < 256" "b < 256" "c < 256" "d < 256"
  shows "isInnerIp L ma \<longleftrightarrow> (a = 127 \<and> b = 0 \<and> c = 0 \<and> d = 1) \<or> a = 10 \<or>
     (a = 172 \<and> (b = 2 \<or> b = 3 \<or> 16 \<le> b \<and> b \<le> 31 \<or> 160 \<le> b)) \<or>
     (a = 169 \<and> b = 254) \<or> (a = 192 \<and> b = 168)"
proof -
  have "ip_submatches (dotted a b c d) = Some [octet a, octet b, octet c, octet d]"
    unfolding dotted_def by (intro ip_submatches_quad octet_digits assms)
  then have "isInnerIp L ma \<longleftrightarrow> [octet a, octet b, octet c, octet d] = [''127'', ''0'', ''0'', ''1''] \<or>
      octet a = ''10'' \<or> octet a = ''172'' \<and> (''16'' \<le> octet b \<and> octet b \<le> ''31'') \<or>
      octet a = ''169'' \<and> octet b = ''254'' \<or> octet a = ''192'' \<and> octet b = ''168''"
    unfolding isInnerIp_def assms(1) Let_def by simp
  then show ?thesis by (simp add: octet_order [OF assms(3)] octet_is assms(2-5))
qed

section \<open>Properties\<close>

text \<open>C18. In every reachable state of the client, however its goroutines and the network interleave, it
  holds at most one reservation, under the identifier of its relay, and neither a reservation nor a
  listed relay node is the client itself.  As long as the two goroutines that call \<open>addRelaynodes\<close> are
  not in it at the same time, the reservation is at a node of the list, and the list and the map of
  relay nodes name the same peers whenever no call is under way.\<close>

theorem single_reservation:
  assumes "rc_reach R S" and "rand_below R"
  defines "s \<equiv> ys_client S"
  shows "card (dom (cl_relayPeers s)) \<le> 1 \<and>
    (\<forall>p i. cl_relayPeers s p = Some i \<longrightarrow> ai_ID (rci_Info (rpi_Info i)) = p \<and> p \<noteq> ho_ID (rk_host R)) \<and>
    (\<forall>n \<in> set (getRelaynodes (cl_arrays s) (cl_relaynodes s)). ai_ID n \<noteq> ho_ID (rk_host R)) \<and>
    \<not> isRelaynode (cl_relaynodes s) (ho_ID (rk_host R)) \<and>
    (rc_serial R S \<longrightarrow>
       (\<forall>p i. cl_relayPeers s p = Some i \<longrightarrow> rci_Info (rpi_Info i) \<in> set (getRelaynodes (cl_arrays s) (cl_relaynodes s))) \<and>
       (\<not> adding (ys_res S) \<and> \<not> adding (ys_alive S) \<longrightarrow>
          ai_ID ` set (getRelaynodes (cl_arrays s) (cl_relaynodes s)) = {p. isRelaynode (cl_relaynodes s) p}))"
proof -
  have ok: "peers_ok s" "sys_without (ho_ID (rk_host R)) S" "map_ok (rk_host R) s"
    using reach_ok [OF assms(1,2)] by (simp_all add: s_def)
  have L: "getRelaynodes (cl_arrays s) (cl_relaynodes s) = nodes_of (cl_arrays s) (pub s)"
    by (simp add: getRelaynodes_def pub_def)
  have "card (dom (cl_relayPeers s)) \<le> 1" using ok(1) by (auto simp: peers_ok_def)
  moreover have "\<forall>p i. cl_relayPeers s p = Some i \<longrightarrow> ai_ID (rci_Info (rpi_Info i)) = p \<and> p \<noteq> ho_ID (rk_host R)"
    using ok(1,2) by (auto simp: peers_ok_def sys_without_def s_def split: if_splits)
  moreover have "\<forall>n \<in> set (nodes_of (cl_arrays s) (pub s)). ai_ID n \<noteq> ho_ID (rk_host R)"
    using ok(2) by (simp add: sys_without_def client_without_def without_def s_def image_iff) metis
  moreover have "\<not> isRelaynode (cl_relaynodes s) (ho_ID (rk_host R))" using ok(3) by (simp add: map_ok_def good_map_def isRelaynode_def)
  moreover have "(\<forall>p i. cl_relayPeers s p = Some i \<longrightarrow> rci_Info (rpi_Info i) \<in> set (nodes_of (cl_arrays s) (pub s))) \<and>
       (\<not> adding (ys_res S) \<and> \<not> adding (ys_alive S) \<longrightarrow>
          ai_ID ` set (nodes_of (cl_arrays s) (pub s)) = {p. isRelaynode (cl_relaynodes s) p})" if "rc_serial R S"
  proof (intro conjI impI)
    have inv: "add_serial s (under_way (ys_res S) (ys_alive S))" "reserved_listed s"
      using serial_ok [OF that assms(2)] by (simp_all add: serial_inv_def s_def)
    show "\<forall>p i. cl_relayPeers s p = Some i \<longrightarrow> rci_Info (rpi_Info i) \<in> set (nodes_of (cl_arrays s) (pub s))"
      using inv(2) by (simp add: reserved_listed_def)
    assume "\<not> adding (ys_res S) \<and> \<not> adding (ys_alive S)"
    then have "under_way (ys_res S) (ys_alive S) = AddEnd None" by (auto simp: adding_def split: alive_pc.splits)
    then have "tables_agree s" using inv(1) by simp
    moreover have "dom (relaynodesMap (cl_relaynodes s)) = {p. isRelaynode (cl_relaynodes s) p}"
      by (auto simp: isRelaynode_def)
    ultimately show "ai_ID ` set (nodes_of (cl_arrays s) (pub s)) = {p. isRelaynode (cl_relaynodes s) p}"
      by (simp add: tables_agree_def)
  qed
  ultimately show ?thesis unfolding L by blast
qed

text \<open>The library of \<open>Net_Props\<close>, with a relay that grants every reservation until 100 and whose alive
  call cannot be opened.\<close>

definition idle_relay :: "unit relay_lib" where
  "idle_relay = \<lparr>rk_host = idle_host\<lparr>ho_MapOrder := (\<lambda>w A. sorted_list_of_set A)\<rparr>,
     rk_Reserve = (\<lambda>w n. (Inr \<lparr>rv_Expiration = 100\<rparr>, w)), rk_Hello = (\<lambda>w c q. (Inl (GoErr ''no reply''), w))\<rparr>"

lemma idle_relay_simps [simp]:
  "ho_MapOrder (rk_host idle_relay) w A = sorted_list_of_set A" "ho_RandInt (rk_host idle_relay) w n = (0, w)"
  "ho_codec (rk_host idle_relay) = idle_codec" "ho_ID (rk_host idle_relay) = ''self''"
  "rk_Reserve idle_relay w node = (Inr \<lparr>rv_Expiration = 100\<rparr>, w)"
  by (simp_all add: idle_relay_def idle_host_def)

lemma idle_relay_laws: "rand_below idle_relay" "map_orders idle_relay"
  by (simp_all add: rand_below_def map_orders_def)

definition relay_node :: addr_info where "relay_node = \<lparr>ai_ID = ''r'', ai_Addrs = [''r'']\<rparr>"

definition idle_client :: "unit relay_client" where
  "idle_client = \<lparr>cl_closed = False, cl_protocols = [EdgeAliveProto \<mapsto> 1], cl_peers = Map.empty,
     cl_relayPeers = Map.empty, cl_relaynodes = new_relaynodes (\<lparr>sl_array = 2, sl_len = 1\<rparr>, [''r'' \<mapsto> relay_node]),
     cl_arrays = [[], [], [relay_node]],
     cl_application = None, cl_world = ()\<rparr>"

lemma idle_client_new_any:
  "ho_codec (rk_host R) = idle_codec \<Longrightarrow> ho_ID (rk_host R) = ''self'' \<Longrightarrow>
   NewRelayClient_state R 1 (Some [''r'']) () = Inr idle_client"
  by (simp add: NewRelayClient_state_def setupRelaynodes_def MinimumRelayNodes_def StringToAddrInfo_def
      idle_codec_def registerAliveProtocol_def rc_RegisterProtocol_def idle_client_def relay_node_def make_slice_def
      go_append_def growslice_def eval_nat_numeral)

lemmas idle_client_new = idle_client_new_any [of idle_relay, OF idle_relay_simps(3,4)]

definition reserved_peer :: relay_peer_info where
  "reserved_peer = \<lparr>rpi_Info = \<lparr>rci_Info = relay_node, rci_connDirections = [DirUnknown \<mapsto> True],
     rci_protocolStreams = Map.empty\<rparr>, rpi_Reservation = \<lparr>rv_Expiration = 100\<rparr>\<rparr>"

lemma first_tick:
  assumes "\<And>n. ho_RandInt (rk_host R) () n = (0, ())" and "\<And>node. rk_Reserve R () node = (Inr \<lparr>rv_Expiration = 100\<rparr>, ())"
    and "\<And>A. ho_MapOrder (rk_host R) () A = sorted_list_of_set A"
  shows "rc_do R (ResTick 0) (rc_start idle_client) =
     (rc_start (idle_client\<lparr>cl_relayPeers := [''r'' \<mapsto> reserved_peer]\<rparr>))\<lparr>ys_res := AliveTop\<rparr>"
proof -
  have "GetRandomRelaynode R idle_client = (Some relay_node, idle_client)"
    using assms(1) by (simp add: GetRandomRelaynode_def pick_random_def on_net_def idle_client_def new_relaynodes_def
        getRelaynodes_def nodes_of_def hasRelayPeer_def)
  then have "connectToRandomRelayNodes R idle_client =
      (Inr True, idle_client\<lparr>cl_relayPeers := [''r'' \<mapsto> reserved_peer]\<rparr>)"
    using assms(2) by (simp add: connectToRandomRelayNodes_def on_net_def addRelayPeerInfo_def reserved_peer_def
        relay_node_def idle_client_def Let_def)
  moreover have "RelayPeers R idle_client = []" using assms(3) by (simp add: RelayPeers_def idle_client_def)
  ultimately have "relay_tick R 0 idle_client = (Inr True, idle_client\<lparr>cl_relayPeers := [''r'' \<mapsto> reserved_peer]\<rparr>)"
    using assms(3) by (simp add: relay_tick_def relay_snapshot_def numRelayPeers_def idle_client_def
        MinimumRelayConnections_def word_sless_alt)
  then show ?thesis by (simp add: rc_do_def rc_start_def after_tick_def)
qed

lemma idle_tick:
  "rc_do idle_relay (ResTick 0) (rc_start idle_client) =
     (rc_start (idle_client\<lparr>cl_relayPeers := [''r'' \<mapsto> reserved_peer]\<rparr>))\<lparr>ys_res := AliveTop\<rparr>"
  by (rule first_tick) simp_all

theorem single_reservation_witness:
  "card (dom (cl_relayPeers (ys_client (rc_do idle_relay (ResTick 0) (rc_start idle_client))))) = 1 \<and>
   reserved_peer \<in> ran (cl_relayPeers (ys_client (rc_do idle_relay (ResTick 0) (rc_start idle_client)))) \<and>
   relay_node \<in> set (getRelaynodes (cl_arrays (ys_client (rc_do idle_relay (ResTick 0) (rc_start idle_client))))
      (cl_relaynodes (ys_client (rc_do idle_relay (ResTick 0) (rc_start idle_client)))))"
proof -
  let ?S = "rc_do idle_relay (ResTick 0) (rc_start idle_client)"
  have s: "rc_serial idle_relay ?S"
    by (rule rcs_step [OF rcs_start [OF idle_client_new] refl]) (simp add: idle_tick adding_def)
  have p: "cl_relayPeers (ys_client ?S) = [''r'' \<mapsto> reserved_peer]" unfolding idle_tick by (simp add: rc_start_def)
  then have "rci_Info (rpi_Info reserved_peer) \<in> set (getRelaynodes (cl_arrays (ys_client ?S)) (cl_relaynodes (ys_client ?S)))"
    using single_reservation [OF serial_reach [OF s] idle_relay_laws(1)] s by auto
  then show ?thesis using p by (simp add: reserved_peer_def)
qed

text \<open>C35. When the two goroutines are in \<open>addRelaynodes\<close> at once, one with the slice it read before the other
  published, a relay node is lost for good: the map names it and the list does not, so no later call
  adds it, and whatever the client does it never reserves there.\<close>

theorem relay_node_lost:
  fixes R :: "'w relay_lib" and later :: "'w rc_act list"
  assumes "rc_reach R S" and "rand_below R" and "\<not> ys_crashed S"
    and "ys_res S = AliveLearn (AddRead [d1])" and "ys_alive S = AliveLearn (AddRead [d2])"
    and "new_node (rk_host R) (ys_client S) d1 n1" and "new_node (rk_host R) (ys_client S) d2 n2"
    and "ai_ID n1 \<noteq> ai_ID n2"
    and "ai_ID n2 \<notin> ai_ID ` set (getRelaynodes (cl_arrays (ys_client S)) (cl_relaynodes (ys_client S)))"
  defines "s' \<equiv> ys_client (rc_run R (ResRun # replicate 6 AliveRun @ replicate 5 ResRun @ later) S)"
  shows "isRelaynode (cl_relaynodes s') (ai_ID n2) \<and>
    ai_ID n2 \<notin> ai_ID ` set (getRelaynodes (cl_arrays s') (cl_relaynodes s')) \<and> cl_relayPeers s' (ai_ID n2) = None"
proof -
  let ?s = "ys_client S" and ?P = "pub (ys_client S)"
  have ok: "slice_ok (cl_arrays ?s) ?P"
    using reach_ok [OF assms(1,2)] by (simp add: sys_without_def client_without_def without_def)
  define S1 where "S1 = S\<lparr>ys_res := AliveLearn (AddCheck [d1] ?P)\<rparr>"
  define t where "t = added ?s ?P n2"
  define S2 where "S2 = S1\<lparr>ys_client := t, ys_alive := AliveDone\<rparr>"
  define S3 where "S3 = S2\<lparr>ys_client := added t ?P n1, ys_res := AliveDone\<rparr>"
  note T = added_spec [OF ok, of n2, folded t_def]
  have 1: "rc_do R ResRun S = S1"
    using do_res_add [OF assms(3,4)] by (simp add: S1_def learning_def pub_def)
  have 2: "rc_run R (replicate 6 AliveRun) S1 = S2"
    using alive_adds [of S1 d2 R n2] assms(3,5,7) by (simp add: S1_def S2_def t_def)
  have "new_node (rk_host R) t d1 n1"
    using assms(6,8) T by (simp add: new_node_def hasRelayPeer_def isRelaynode_def)
  then have 3: "rc_run R (replicate 5 ResRun) S2 = S3"
    using res_adds [of S2 d1 ?P R n1] assms(3) by (simp add: S1_def S2_def S3_def)
  have prefix: "rc_run R (ResRun # replicate 6 AliveRun @ replicate 5 ResRun) S = S3"
    unfolding run_Cons 1 run_append 2 3 ..
  have r3: "rc_reach R S3" unfolding prefix [symmetric] by (rule reach_run [OF assms(1)])
  have U: "slice_ok (cl_arrays t) ?P" using T by blast
  note A = added_spec [OF U, of n1]
  have w: "sys_without (ai_ID n2) S3" "isRelaynode (cl_relaynodes (ys_client S3)) (ai_ID n2)"
    using A T assms(7-9)
    by (auto simp: S3_def S2_def sys_without_def client_without_def without_def pc_without_def isRelaynode_def
        new_node_def hasRelayPeer_def getRelaynodes_def pub_def)
  have "s' = ys_client (rc_run R later S3)"
    unfolding s'_def prefix [symmetric] by (simp add: run_append run_Cons)
  then show ?thesis using without_run [OF r3 assms(2) w, of later]
    by (simp add: sys_without_def client_without_def without_def getRelaynodes_def pub_def)
qed

text \<open>A relay that answers every \<open>Hello\<close> with the name of the application, so that the two calls learn
  different nodes.\<close>

definition chatty_relay :: "unit relay_lib" where
  "chatty_relay = idle_relay\<lparr>rk_host := (rk_host idle_relay)\<lparr>ho_NewStream := (\<lambda>w p pr. (Inr 0, w))\<rparr>,
     rk_Hello := (\<lambda>w c q. (Inr (True, al_Name q), w))\<rparr>"

lemma chatty_simps [simp]:
  "ho_MapOrder (rk_host chatty_relay) w A = sorted_list_of_set A" "ho_RandInt (rk_host chatty_relay) w n = (0, w)"
  "ho_codec (rk_host chatty_relay) = idle_codec" "ho_ID (rk_host chatty_relay) = ''self''"
  "rk_Reserve chatty_relay w node = (Inr \<lparr>rv_Expiration = 100\<rparr>, w)"
  "ho_NewStream (rk_host chatty_relay) w p pr = (Inr 0, w)" "rk_Hello chatty_relay w c q = (Inr (True, al_Name q), w)"
  by (simp_all add: chatty_relay_def idle_relay_def idle_host_def)

definition named_event :: "string \<Rightarrow> app_event" where
  "named_event n = empty_event\<lparr>ev_NewApp := [(gossip_app [] [] [] sample_status)\<lparr>ap_Name := n\<rparr>]\<rparr>"

definition both_learning :: "unit rc_sys" where
  "both_learning = rc_run chatty_relay [ResTick 0, ResRun, AppEvent (named_event ''a''), ResRun,
     AliveTick, AliveRun, AppEvent (named_event ''b''), AliveRun] (rc_start idle_client)"

lemma chatty_hello:
  assumes "cl_application s = Some a" and "cl_protocols s = [EdgeAliveProto \<mapsto> 1]" and "cl_peers s = Map.empty"
    and "cl_relayPeers s = [''r'' \<mapsto> reserved_peer]"
  shows "sayHello chatty_relay p s = (Inr (Inr (True, ap_Name a)), s)"
  using assms
  by (simp add: sayHello_def NewAliveClient_def rc_NewProtoConnection_def rc_NewStream_def on_net_def
      rc_SaveProtocolStream_def rc_CloseProtocolStream_def relay_text_def GetRelayPeerInfo_def RelayPeers_def
      reserved_peer_def relay_node_def slice_at_def rbind_def own_status_def)

lemma chatty_tick:
  "rc_do chatty_relay (ResTick 0) (rc_start idle_client) =
     (rc_start (idle_client\<lparr>cl_relayPeers := [''r'' \<mapsto> reserved_peer]\<rparr>))\<lparr>ys_res := AliveTop\<rparr>"
  by (rule first_tick) simp_all

definition at_pcs :: "'w relay_client \<Rightarrow> alive_pc \<Rightarrow> alive_pc \<Rightarrow> 'w rc_sys" where
  "at_pcs s r a = \<lparr>ys_client = s, ys_res = r, ys_alive = a, ys_crashed = False\<rparr>"

lemma do_at_pcs:
  "alive_step R r s = (Inr r', t) \<Longrightarrow> rc_do R ResRun (at_pcs s r a) = at_pcs t r' a"
  "alive_step R a s = (Inr a', t) \<Longrightarrow> rc_do R AliveRun (at_pcs s r a) = at_pcs t r a'"
  "rc_do R (AppEvent ev) (at_pcs s r a) = at_pcs (use_event ev s) r a"
  "rc_do R AliveTick (at_pcs s r AliveDone) = at_pcs s r AliveTop"
  by (simp_all add: rc_do_def at_pcs_def after_alive_simps)

lemma both_learning_eq:
  "both_learning = at_pcs (idle_client\<lparr>cl_relayPeers := [''r'' \<mapsto> reserved_peer],
      cl_application := Some (hd (ev_NewApp (named_event ''b'')))\<rparr>)
    (AliveLearn (AddRead [''a''])) (AliveLearn (AddRead [''b'']))"
proof -
  let ?s = "idle_client\<lparr>cl_relayPeers := [''r'' \<mapsto> reserved_peer]\<rparr>"
  define sa where "sa = (\<lambda>n. ?s\<lparr>cl_application := Some (hd (ev_NewApp (named_event n)))\<rparr>)"
  have top: "alive_step chatty_relay AliveTop s = (Inr (AliveWaitApp relay_node), s)"
    if "cl_relayPeers s = [''r'' \<mapsto> reserved_peer]" "\<not> cl_closed s" for s :: "unit relay_client"
    using that by (simp add: alive_step_def RelayPeers_def) (simp add: reserved_peer_def)
  have "cl_relayPeers (sa n) = [''r'' \<mapsto> reserved_peer]" "\<not> cl_closed (sa n)" for n by (simp_all add: sa_def idle_client_def)
  note top_a = top [OF this]
  have top_s: "alive_step chatty_relay AliveTop ?s = (Inr (AliveWaitApp relay_node), ?s)"
    by (rule top) (simp_all add: idle_client_def)
  have ev: "use_event (named_event n) ?s = sa n" "use_event (named_event n) (sa m) = sa n" for n m
    by (simp_all add: use_event_def named_event_def sa_def)
  have app: "cl_application (sa n) = Some (hd (ev_NewApp (named_event n)))" "ap_Name (hd (ev_NewApp (named_event n))) = n" for n
    by (simp_all add: sa_def named_event_def)
  have "sayHello chatty_relay p (sa n) = (Inr (Inr (True, n)), sa n)" for p n
    using chatty_hello [OF app(1) [of n], of p] app(2) [of n] by (simp add: sa_def idle_client_def)
  then have hello: "alive_step chatty_relay (AliveWaitApp relay_node) (sa (c # n)) = (Inr (AliveLearn (AddRead [c # n])), sa (c # n))" for c n
    by (simp add: alive_step_def app(1) learn_relaynode_def addRelaynodes_def learning_def)
  have "rc_do chatty_relay (ResTick 0) (rc_start idle_client) = at_pcs ?s AliveTop AliveDone"
    unfolding chatty_tick by (simp add: at_pcs_def rc_start_def)
  then have "both_learning = at_pcs (sa ''b'') (AliveLearn (AddRead [''a''])) (AliveLearn (AddRead [''b'']))"
    by (simp only: both_learning_def run_Cons run_Nil do_at_pcs(1) [OF top_s] do_at_pcs(3,4) ev
        do_at_pcs(1) [OF hello] do_at_pcs(2) [OF top_a] do_at_pcs(2) [OF hello])
  then show ?thesis by (simp add: sa_def)
qed

theorem relay_node_lost_witness:
  "let s' = ys_client (rc_run chatty_relay (ResRun # replicate 6 AliveRun @ replicate 5 ResRun @
        [ResTick 200, AppEvent (named_event ''b''), AliveTick, AliveRun]) both_learning)
   in isRelaynode (cl_relaynodes s') ''b'' \<and>
     ''b'' \<notin> ai_ID ` set (getRelaynodes (cl_arrays s') (cl_relaynodes s'))"
proof -
  let ?n = "\<lambda>x :: string. \<lparr>ai_ID = x, ai_Addrs = [x]\<rparr>"
  have r: "rc_reach chatty_relay both_learning"
    unfolding both_learning_def by (rule reach_run) (rule rcr_start, rule idle_client_new_any, simp_all)
  have b: "rand_below chatty_relay" by (simp add: rand_below_def)
  have s: "\<not> ys_crashed both_learning" "ys_res both_learning = AliveLearn (AddRead [''a''])"
    "ys_alive both_learning = AliveLearn (AddRead [''b''])"
    by (simp_all add: both_learning_eq at_pcs_def)
  have new: "new_node (rk_host chatty_relay) (ys_client both_learning) ''a'' (?n ''a'')"
    "new_node (rk_host chatty_relay) (ys_client both_learning) ''b'' (?n ''b'')"
    by (simp_all add: new_node_def StringToAddrInfo_def idle_codec_def hasRelayPeer_def isRelaynode_def both_learning_eq
        at_pcs_def idle_client_def new_relaynodes_def)
  have l: "ai_ID (?n ''b'') \<notin> ai_ID ` set (getRelaynodes (cl_arrays (ys_client both_learning)) (cl_relaynodes (ys_client both_learning)))"
    by (simp add: both_learning_eq at_pcs_def idle_client_def getRelaynodes_def nodes_of_def new_relaynodes_def relay_node_def)
  show ?thesis
    using relay_node_lost [OF r b s new _ l, of "[ResTick 200, AppEvent (named_event ''b''), AliveTick, AliveRun]"]
    by (simp add: Let_def)
qed

text \<open>C19. When the alive call to the relay fails and the relay then disconnects, the client never reserves
  again: the reservation goroutine is inside \<open>keepAliveToBootnodes\<close>, which waits for a relay peer
  that only the reservation goroutine adds.  Only closing the client ends the wait.\<close>

theorem relay_lost_for_good:
  assumes "map_orders R" and "ys_res S = AliveWaitApp n" and "\<not> ys_crashed S" and "\<not> cl_closed (ys_client S)"
    and "cl_application (ys_client S) \<noteq> None" and "sayHello R (ai_ID n) (ys_client S) = (Inr (Inl sayHelloErr), s1)"
    and "cl_relayPeers (ys_client S) = [p \<mapsto> i]" and "CloseClient \<notin> set acts"
  shows "let S' = rc_run R (ResRun # Disconnected p # acts) S
         in cl_relayPeers (ys_client S') = Map.empty \<and> ys_res S' = AliveTop"
proof -
  have t: "same_tables (ys_client S) s1" by (rule same_hello [OF assms(6)])
  have "rc_do R ResRun S = S\<lparr>ys_client := s1, ys_res := AliveTop\<rparr>"
    using assms(2,3,5,6) by (auto simp add: rc_do_def alive_step_def after_alive_def Let_def)
  moreover have "removeRelayPeerInfo p s1 = (Some i, s1\<lparr>cl_relayPeers := Map.empty\<rparr>)"
    using t assms(7) by (simp add: removeRelayPeerInfo_def same_tables_def)
  ultimately have "starving (rc_do R (Disconnected p) (rc_do R ResRun S))"
    using t assms(3,4) by (simp add: rc_do_def starving_def same_tables_def Let_def)
  from starving_run [OF assms(1) this assms(8)] show ?thesis
    by (simp add: rc_run_def starving_def Let_def)
qed

definition some_event :: app_event where
  "some_event = AddNewApp empty_event (gossip_app ''p'' '''' '''' sample_status)"

definition waiting_sys :: "unit rc_sys" where
  "waiting_sys = rc_run idle_relay [ResTick 0, ResRun, AppEvent some_event] (rc_start idle_client)"

lemma waiting_sys_eq:
  "waiting_sys = (rc_start (idle_client\<lparr>cl_relayPeers := [''r'' \<mapsto> reserved_peer],
      cl_application := Some (last (ev_NewApp some_event))\<rparr>))\<lparr>ys_res := AliveWaitApp relay_node\<rparr>"
proof -
  let ?s = "idle_client\<lparr>cl_relayPeers := [''r'' \<mapsto> reserved_peer]\<rparr>"
  have "alive_step idle_relay AliveTop ?s = (Inr (AliveWaitApp relay_node), ?s)"
    by (simp add: alive_step_def RelayPeers_def reserved_peer_def idle_client_def)
  then show ?thesis
    by (simp add: waiting_sys_def rc_run_def idle_tick)
      (simp add: rc_do_def rc_start_def after_alive_def use_event_def some_event_def AddNewApp_def empty_event_def Let_def)
qed

theorem relay_lost_for_good_witness:
  "let S' = rc_run idle_relay [ResRun, Disconnected ''r'', ResTick 7, ResRun, AliveTick, AliveRun] waiting_sys
   in cl_relayPeers (ys_client waiting_sys) ''r'' \<noteq> None \<and> cl_relayPeers (ys_client S') = Map.empty \<and> ys_res S' = AliveTop"
proof -
  let ?s = "ys_client waiting_sys"
  have w: "ys_res waiting_sys = AliveWaitApp relay_node" "\<not> ys_crashed waiting_sys" "\<not> cl_closed ?s"
    "cl_application ?s \<noteq> None" "cl_relayPeers ?s = [''r'' \<mapsto> reserved_peer]"
    by (simp_all add: waiting_sys_eq rc_start_def idle_client_def)
  have "fst (sayHello idle_relay (ai_ID relay_node) ?s) =
      Inr (Inl (GoWrap ''unable to create new alive client connection, ''
        (GoWrap ''failed to open a stream, err '' (GoErr ''no stream''))))"
    by (simp add: waiting_sys_eq rc_start_def sayHello_def NewAliveClient_def rc_NewProtoConnection_def idle_client_def
        rc_NewStream_def on_net_def idle_relay_def idle_host_def)
  then obtain e s1 where h: "sayHello idle_relay (ai_ID relay_node) ?s = (Inr (Inl e), s1)"
    by (metis prod.collapse)
  have "CloseClient \<notin> set [ResTick 7, ResRun, AliveTick, AliveRun]" by simp
  from relay_lost_for_good [OF idle_relay_laws(2) w(1-4) h w(5) this] show ?thesis using w(5) by (simp add: Let_def)
qed

text \<open>The reservation goroutine panics exactly when the node it picked has no address and its
  reservation fails; and a relay can plant such a node, because what it answers to \<open>Hello\<close> enters the
  list of relay nodes whether it has addresses or not.\<close>

theorem relay_tick_panics_iff:
  "(\<exists>e t. relay_tick R now s = (Inl e, t)) \<longleftrightarrow>
     (let snap = relay_snapshot (RelayPeers R s);
          s1 = expire_loop R now snap (ho_MapOrder (rk_host R) (cl_world s) (dom snap)) s
      in numRelayPeers s1 <s MinimumRelayConnections \<and>
         (\<exists>node s2. GetRandomRelaynode R s1 = (Some node, s2) \<and> ai_Addrs node = [] \<and>
            (\<exists>err. fst (rk_Reserve R (cl_world s2) node) = Inl err)))"
proof -
  define s1 where "s1 = expire_loop R now (relay_snapshot (RelayPeers R s))
      (ho_MapOrder (rk_host R) (cl_world s) (dom (relay_snapshot (RelayPeers R s)))) s"
  have "(\<exists>e t. connectToRandomRelayNodes R s1 = (Inl e, t)) \<longleftrightarrow>
    (\<exists>node s2. GetRandomRelaynode R s1 = (Some node, s2) \<and> ai_Addrs node = [] \<and>
            (\<exists>err. fst (rk_Reserve R (cl_world s2) node) = Inl err))"
    by (auto simp: connectToRandomRelayNodes_def on_net_def rbind_def slice_at_def split: prod.splits option.splits sum.splits)
  then show ?thesis unfolding relay_tick_def Let_def s1_def [symmetric] by auto
qed

lemma planted_node:
  assumes "\<not> ys_crashed S" and "ys_alive S = AliveLearn (AddRead [discovery])"
    and "new_node (rk_host R) (ys_client S) discovery n" and "slice_ok (cl_arrays (ys_client S)) (pub (ys_client S))"
  shows "n \<in> set (getRelaynodes (cl_arrays (ys_client (rc_run R (replicate 6 AliveRun) S)))
    (cl_relaynodes (ys_client (rc_run R (replicate 6 AliveRun) S))))"
  using alive_adds [OF assms(1-3)] added_spec [OF assms(4), of n] by (simp add: getRelaynodes_def pub_def)

text \<open>Every event the client takes off its subscription is received by it or held by a forwarder, and
  each received event adds a forwarder.  An event that reaches another forwarder than the newest one
  is never received, whatever happens later: it stays in that forwarder for ever.\<close>

theorem forwarders_swallow_events:
  assumes "pump_run acts pump_start = (fs, got)" and "i + 1 < length fs" and "fs ! i = FHold ev"
  shows "held fs + mset got = mset (taken acts pump_start) \<and> length fs = length got + 1 \<and>
    (\<forall>later fs' got'. pump_run later (fs, got) = (fs', got') \<longrightarrow> fs' ! i = FHold ev \<and> ev \<in># held fs')"
proof -
  have acc: "held fs + mset got = mset (taken acts pump_start)" "length fs = length got + 1"
    using pump_account [of "[FWait]" acts "[]" fs got] assms(1) by (simp_all add: pump_start_def)
  have stay: "fs' ! i = FHold ev \<and> ev \<in># held fs'" if r: "pump_run later (fs, got) = (fs', got')" for later fs' got'
  proof -
    have "i + 1 < length fs' \<and> fs' ! i = FHold ev" by (rule pump_run_abandoned [OF assms(2,3) r])
    then show ?thesis using in_held [of i fs' ev] by simp
  qed
  show ?thesis using acc stay by blast
qed

theorem forwarders_swallow_events_witness:
  "\<forall>later fs' got'. pump_run later (pump_run [PTake 0 some_event, PReceive, PTake 0 empty_event] pump_start) = (fs', got') \<longrightarrow>
     fs' ! 0 = FHold empty_event"
proof -
  have r: "pump_run [PTake 0 some_event, PReceive, PTake 0 empty_event] pump_start =
      ([FHold empty_event, FWait], [some_event])"
    by (simp add: pump_run_def pump_start_def)
  have i: "0 + 1 < length [FHold empty_event, FWait]" "[FHold empty_event, FWait] ! 0 = FHold empty_event" by simp_all
  show ?thesis using forwarders_swallow_events [OF r i] r by simp
qed

text \<open>Which IPv4 addresses the alive service takes for private: besides 10/8, 169.254/16, 192.168/16 and
  127.0.0.1 it is 172.2, 172.3, 172.16 to 172.31 and 172.160 to 172.255, since the second octet is
  compared as a string.  The status of a directly reachable node with such an address and no relay
  is not published, and that of any other node is.\<close>

theorem inner_ip_by_strings:
  assumes "ml_IP4 L ma = Inr (dotted a b c d)" and "a < 256" "b < 256" "c < 256" "d < 256"
  shows "(isInnerIp L ma \<longleftrightarrow> (a = 127 \<and> b = 0 \<and> c = 0 \<and> d = 1) \<or> a = 10 \<or>
     (a = 172 \<and> (b \<in> {2, 3} \<union> {16..31} \<union> {160..255})) \<or> (a = 169 \<and> b = 254) \<or> (a = 192 \<and> b = 168)) \<and>
    (ai_Addrs (GetPeerAddrInfo H s from) = ma # others \<longrightarrow>
      rs_published (snd (alive_Hello L H from status s)) =
        rs_published s @ (if isInnerIp L ma \<and> al_Relay status = '''' then []
          else [hello_status (ac_PeerString (ho_codec H) from) ma
                  (case GetRelayProxyAddr s of None \<Rightarrow> 0 | Some port \<Rightarrow> port) status]))"
proof (intro conjI impI)
  have b: "b \<in> {2, 3} \<union> {16..31} \<union> {160..255} \<longleftrightarrow> b = 2 \<or> b = 3 \<or> 16 \<le> b \<and> b \<le> 31 \<or> 160 \<le> b"
    using assms(3) by auto
  show "isInnerIp L ma \<longleftrightarrow> (a = 127 \<and> b = 0 \<and> c = 0 \<and> d = 1) \<or> a = 10 \<or>
     (a = 172 \<and> (b \<in> {2, 3} \<union> {16..31} \<union> {160..255})) \<or> (a = 169 \<and> b = 254) \<or> (a = 192 \<and> b = 168)"
    unfolding b by (rule isInnerIp_dotted [OF assms])
  assume addrs: "ai_Addrs (GetPeerAddrInfo H s from) = ma # others"
  let ?s1 = "if \<not> isInnerIp L ma \<or> al_Relay status \<noteq> ''''
       then rs_PublishApplicationStatus (hello_status (ac_PeerString (ho_codec H) from) ma
              (case GetRelayProxyAddr s of None \<Rightarrow> 0 | Some port \<Rightarrow> port) status) s else s"
  obtain r s2 where g: "rs_GetRandomBootnode H ?s1 = (r, s2)" by fastforce
  have keep: "rs_published s2 = rs_published ?s1"
    using g by (auto simp: rs_GetRandomBootnode_def Let_def split: option.splits prod.splits if_splits)
  have "snd (alive_Hello L H from status s) = s2"
    using addrs g by (cases "\<not> isInnerIp L ma \<or> al_Relay status \<noteq> ''''"; cases r) (simp_all add: alive_Hello_def Let_def)
  then have hello: "rs_published (snd (alive_Hello L H from status s)) = rs_published ?s1" using keep by simp
  show "rs_published (snd (alive_Hello L H from status s)) =
        rs_published s @ (if isInnerIp L ma \<and> al_Relay status = '''' then []
          else [hello_status (ac_PeerString (ho_codec H) from) ma
                  (case GetRelayProxyAddr s of None \<Rightarrow> 0 | Some port \<Rightarrow> port) status])"
    unfolding hello by (simp add: rs_PublishApplicationStatus_def)
qed

theorem inner_ip_by_strings_witness:
  "isInnerIp (nil_panics_lib\<lparr>ml_IP4 := (\<lambda>_. Inr (dotted 172 217 1 1))\<rparr>) ''/ip4/172.217.1.1/tcp/4001''"
  using inner_ip_by_strings [of "nil_panics_lib\<lparr>ml_IP4 := (\<lambda>_. Inr (dotted 172 217 1 1))\<rparr>"
      "''/ip4/172.217.1.1/tcp/4001''" 172 217 1 1 idle_host undefined "''''" "[]" undefined]
  by simp

end
