(* ===== verification/Crypto.thy ===== *)
theory Crypto
  imports Telegrams
begin

text \<open>
  The package \<open>core/crypto\<close>: fork activation (\<open>forks.go\<close>) and, from \<open>crypto.go\<close>, the checks of
  signature values, compact signatures, addresses, key parsing and the CFB encryption of secrets.
  The curve library (\<open>btcec\<close>) and Keccak are the parameter record \<open>curve_lib\<close>; of the standard
  library, base64 and the CFB mode are modelled, the AES block function is a parameter.
\<close>

unbundle bit_operations_syntax

section \<open>Forks\<close>

type_synonym fork = u64

record forks =
  fk_Homestead :: "fork option"
  fk_Byzantium :: "fork option"
  fk_Constantinople :: "fork option"
  fk_Petersburg :: "fork option"
  fk_Istanbul :: "fork option"
  fk_London :: "fork option"
  fk_EIP150 :: "fork option"
  fk_EIP158 :: "fork option"
  fk_EIP155 :: "fork option"

record forks_in_time =
  ft_Homestead :: bool
  ft_Byzantium :: bool
  ft_Constantinople :: bool
  ft_Petersburg :: bool
  ft_Istanbul :: bool
  ft_London :: bool
  ft_EIP150 :: bool
  ft_EIP158 :: bool
  ft_EIP155 :: bool

definition fork_Active :: "fork \<Rightarrow> u64 \<Rightarrow> bool" where "fork_Active f block \<longleftrightarrow> f \<le> block"

definition fork_Int :: "fork \<Rightarrow> int" where "fork_Int f = sint f"

definition NewFork :: "u64 \<Rightarrow> fork option" where "NewFork n = Some n"

definition fk_active :: "fork option \<Rightarrow> u64 \<Rightarrow> bool" where
  "fk_active ff block = (case ff of None \<Rightarrow> False | Some f \<Rightarrow> fork_Active f block)"

definition IsHomestead :: "forks \<Rightarrow> u64 \<Rightarrow> bool" where "IsHomestead f block = fk_active (fk_Homestead f) block"
definition IsByzantium :: "forks \<Rightarrow> u64 \<Rightarrow> bool" where "IsByzantium f block = fk_active (fk_Byzantium f) block"
definition IsConstantinople :: "forks \<Rightarrow> u64 \<Rightarrow> bool" where
  "IsConstantinople f block = fk_active (fk_Constantinople f) block"
definition IsPetersburg :: "forks \<Rightarrow> u64 \<Rightarrow> bool" where "IsPetersburg f block = fk_active (fk_Petersburg f) block"
definition IsLondon :: "forks \<Rightarrow> u64 \<Rightarrow> bool" where "IsLondon f block = fk_active (fk_London f) block"
definition IsEIP150 :: "forks \<Rightarrow> u64 \<Rightarrow> bool" where "IsEIP150 f block = fk_active (fk_EIP150 f) block"
definition IsEIP158 :: "forks \<Rightarrow> u64 \<Rightarrow> bool" where "IsEIP158 f block = fk_active (fk_EIP158 f) block"
definition IsEIP155 :: "forks \<Rightarrow> u64 \<Rightarrow> bool" where "IsEIP155 f block = fk_active (fk_EIP155 f) block"

definition forks_At :: "forks \<Rightarrow> u64 \<Rightarrow> forks_in_time" where
  "forks_At f block =
     \<lparr>ft_Homestead = fk_active (fk_Homestead f) block, ft_Byzantium = fk_active (fk_Byzantium f) block,
      ft_Constantinople = fk_active (fk_Constantinople f) block, ft_Petersburg = fk_active (fk_Petersburg f) block,
      ft_Istanbul = fk_active (fk_Istanbul f) block, ft_London = fk_active (fk_London f) block,
      ft_EIP150 = fk_active (fk_EIP150 f) block, ft_EIP158 = fk_active (fk_EIP158 f) block,
      ft_EIP155 = fk_active (fk_EIP155 f) block\<rparr>"

definition AllForksEnabled :: forks where
  "AllForksEnabled =
     \<lparr>fk_Homestead = NewFork 0, fk_Byzantium = NewFork 0, fk_Constantinople = NewFork 0, fk_Petersburg = NewFork 0,
      fk_Istanbul = NewFork 0, fk_London = NewFork 0, fk_EIP150 = NewFork 0, fk_EIP158 = NewFork 0,
      fk_EIP155 = NewFork 0\<rparr>"

section \<open>Big integers as bytes\<close>

text \<open>\<open>big.Int.Bytes\<close>: the absolute value, big-endian, without leading zeros.\<close>

function nat_bytes :: "nat \<Rightarrow> bytes" where
  "nat_bytes n = (if n = 0 then [] else nat_bytes (n div 256) @ [of_nat (n mod 256)])"
  by pat_completeness auto
termination by (relation "measure id") auto

declare nat_bytes.simps [simp del]

definition big_Bytes :: "int \<Rightarrow> bytes" where "big_Bytes n = nat_bytes (nat (abs n))"

text \<open>Copying a number to the end of a zeroed array of \<open>k\<close> bytes; a longer one makes the slice bound
  negative.\<close>

definition pad_left :: "nat \<Rightarrow> bytes \<Rightarrow> go_err + bytes" where
  "pad_left k b = (if length b \<le> k then Inr (replicate (k - length b) 0 @ b)
     else Inl (GoPanic ''slice bounds out of range''))"

section \<open>Signature values\<close>

definition secp256k1N :: int where
  "secp256k1N = 0xfffffffffffffffffffffffffffffffebaaedce6af48a03bbfd25e8cd0364141"

definition secp256k1NHalf :: int where "secp256k1NHalf = secp256k1N div 2"

definition ValidateSignatureValues :: "int \<Rightarrow> int option \<Rightarrow> int option \<Rightarrow> bool \<Rightarrow> bool" where
  "ValidateSignatureValues v r s isHomestead =
     (case (r, s) of
        (Some r, Some s) \<Rightarrow>
          if r < 1 \<or> s < 1 then False
          else if v < 0 \<or> 1 < v then False
          else if isHomestead then r < secp256k1N \<and> s \<le> secp256k1NHalf
          else r < secp256k1N \<and> s < secp256k1N
      | _ \<Rightarrow> False)"

section \<open>Keys, addresses and compact signatures\<close>

record ('k, 'p) curve_lib =
  cv_Keccak :: "bytes \<Rightarrow> bytes"
  cv_SignCompact :: "'k \<Rightarrow> bytes \<Rightarrow> go_err + bytes"
  cv_RecoverCompact :: "bytes \<Rightarrow> bytes \<Rightarrow> go_err + 'p"
  cv_Marshal :: "'p \<Rightarrow> bytes"
  cv_Unmarshal :: "bytes \<Rightarrow> 'p option"
  cv_PrivKeyFromBytes :: "bytes \<Rightarrow> 'k"
  cv_Serialize :: "'k \<Rightarrow> bytes"
  cv_Public :: "'k \<Rightarrow> 'p"

text \<open>The variadic \<open>Keccak256\<close> hashes the concatenation.\<close>

definition Keccak256 :: "('k, 'p) curve_lib \<Rightarrow> bytes list \<Rightarrow> bytes" where
  "Keccak256 C v = cv_Keccak C (concat v)"

definition Keccak256Hash :: "('k, 'p) curve_lib \<Rightarrow> bytes list \<Rightarrow> hash" where
  "Keccak256Hash C v = cv_Keccak C (concat v)"

definition MarshalPublicKey :: "('k, 'p) curve_lib \<Rightarrow> 'p \<Rightarrow> bytes" where
  "MarshalPublicKey C pub = cv_Marshal C pub"

definition ParsePublicKey :: "('k, 'p) curve_lib \<Rightarrow> bytes \<Rightarrow> go_err + 'p" where
  "ParsePublicKey C buf = (case cv_Unmarshal C buf of
     None \<Rightarrow> Inl (GoErr ''cannot unmarshal'') | Some pub \<Rightarrow> Inr pub)"

definition ParseECDSAPrivateKey :: "('k, 'p) curve_lib \<Rightarrow> bytes \<Rightarrow> 'k" where
  "ParseECDSAPrivateKey C buf = cv_PrivKeyFromBytes C buf"

definition MarshalECDSAPrivateKey :: "('k, 'p) curve_lib \<Rightarrow> 'k \<Rightarrow> bytes" where
  "MarshalECDSAPrivateKey C priv = cv_Serialize C priv"

definition RecoverPubkey :: "('k, 'p) curve_lib \<Rightarrow> bytes \<Rightarrow> bytes \<Rightarrow> go_err + 'p" where
  "RecoverPubkey C signature hash =
     (if length signature < 1 then Inl (GoErr ''invalid signature'')
      else let term = (if signature ! (length signature - 1) = 1 then 28 else 27);
               sig = term # take (length signature - 1) signature
           in cv_RecoverCompact C sig hash)"

definition Ecrecover :: "('k, 'p) curve_lib \<Rightarrow> bytes \<Rightarrow> bytes \<Rightarrow> go_err + bytes" where
  "Ecrecover C hash sig = rbind (RecoverPubkey C sig hash) (\<lambda>pub. Inr (MarshalPublicKey C pub))"

definition ecdsa_Sign :: "('k, 'p) curve_lib \<Rightarrow> 'k \<Rightarrow> bytes \<Rightarrow> go_err + bytes" where
  "ecdsa_Sign C priv hash = rbind (cv_SignCompact C priv hash)
     (\<lambda>sig. rbind (slice_at sig 0) (\<lambda>h. Inr (drop 1 (sig @ [if h = 28 then 1 else 0]))))"

text \<open>\<open>elliptic.Unmarshal\<close> is not checked: a key with nil coordinates is returned as \<open>None\<close>.\<close>

definition SigToPub :: "('k, 'p) curve_lib \<Rightarrow> bytes \<Rightarrow> bytes \<Rightarrow> go_err + 'p option" where
  "SigToPub C hash sig = rbind (Ecrecover C hash sig) (\<lambda>s. Inr (cv_Unmarshal C s))"

definition pub_address :: "('k, 'p) curve_lib \<Rightarrow> bytes \<Rightarrow> address" where
  "pub_address C pub = BytesToAddress (drop 12 (Keccak256 C [drop 1 pub]))"

definition PubKeyToAddress :: "('k, 'p) curve_lib \<Rightarrow> 'p \<Rightarrow> address" where
  "PubKeyToAddress C pub = pub_address C (MarshalPublicKey C pub)"

definition GetAddressFromKey :: "('k, 'p) curve_lib \<Rightarrow> 'k option \<Rightarrow> go_err + address" where
  "GetAddressFromKey C key = (case key of
     None \<Rightarrow> Inl (GoErr ''unable to assert type'') | Some k \<Rightarrow> Inr (PubKeyToAddress C (cv_Public C k)))"

definition CreateAddress :: "('k, 'p) curve_lib \<Rightarrow> 'v rlp_lib \<Rightarrow> address \<Rightarrow> u64 \<Rightarrow> address" where
  "CreateAddress C L addr nonce =
     (let dst = rl_MarshalTo L (rl_NewArray L [rl_NewBytes L addr, rl_NewUint L nonce])
      in BytesToAddress (drop 12 (Keccak256 C [dst])))"

definition CreateAddress2 :: "('k, 'p) curve_lib \<Rightarrow> address \<Rightarrow> bytes \<Rightarrow> bytes \<Rightarrow> address" where
  "CreateAddress2 C addr salt inithash =
     BytesToAddress (drop 12 (Keccak256 C [[0xff], addr, salt, Keccak256 C [inithash]]))"

section \<open>Stored keys\<close>

definition text_bytes :: "string \<Rightarrow> bytes" where "text_bytes s = map (\<lambda>c. of_nat (of_char c)) s"
definition bytes_text :: "bytes \<Rightarrow> string" where "bytes_text b = map (\<lambda>x. char_of (unat x)) b"

text \<open>\<open>hex.DecodeString\<close> with \<open>err != nil\<close> checked.\<close>

definition hex_decoded :: "string \<Rightarrow> go_err + bytes" where
  "hex_decoded s = (case hex_DecodeString s of (_, Some e) \<Rightarrow> Inl e | (b, None) \<Rightarrow> Inr b)"

definition BytesToECDSAPrivateKey :: "('k, 'p) curve_lib \<Rightarrow> bytes \<Rightarrow> go_err + 'k" where
  "BytesToECDSAPrivateKey C input = rbind (hex_decoded (bytes_text input))
     (\<lambda>decoded. if length decoded \<noteq> 32 then Inl (GoErr ''invalid key length'')
                else Inr (ParseECDSAPrivateKey C decoded))"

definition BytesToEd25519PrivateKey :: "bytes \<Rightarrow> go_err + bytes" where
  "BytesToEd25519PrivateKey input = rbind (hex_decoded (bytes_text input))
     (\<lambda>decoded. if length decoded \<noteq> 64 then Inl (GoErr ''invalid ed25519 key length'') else Inr decoded)"

text \<open>\<open>gen\<close> is the outcome of \<open>ecdsa.GenerateKey\<close>; the stored form of a key is its hexadecimal text.\<close>

definition generateECDSAKeyAndMarshal :: "('k, 'p) curve_lib \<Rightarrow> go_err + 'k \<Rightarrow> go_err + bytes" where
  "generateECDSAKeyAndMarshal C gen = rbind gen (\<lambda>key. Inr (MarshalECDSAPrivateKey C key))"

definition CreatePrivateKey :: "go_err + bytes \<Rightarrow> go_err + bytes" where
  "CreatePrivateKey created = (case created of
     Inl e \<Rightarrow> Inl (GoWrap ''unable to generate private key, '' e)
   | Inr keyBuff \<Rightarrow> Inr (text_bytes (hex_EncodeToString keyBuff)))"

definition GenerateAndEncodeECDSAPrivateKey :: "('k, 'p) curve_lib \<Rightarrow> go_err + 'k \<Rightarrow> go_err + ('k \<times> bytes)" where
  "GenerateAndEncodeECDSAPrivateKey C gen =
     rbind (CreatePrivateKey (generateECDSAKeyAndMarshal C gen))
       (\<lambda>keyBuff. case BytesToECDSAPrivateKey C keyBuff of
          Inl e \<Rightarrow> Inl (GoWrap ''unable to execute byte array -> private key conversion, '' e)
        | Inr privateKey \<Rightarrow> Inr (privateKey, keyBuff))"

text \<open>\<open>ed\<close> is the private key that \<open>ed25519.GenerateKey\<close> returns.\<close>

definition GenerateAndEncodeICPIdentitySecretKey :: "bytes \<Rightarrow> go_err + (bytes \<times> bytes)" where
  "GenerateAndEncodeICPIdentitySecretKey ed =
     rbind (CreatePrivateKey (Inr ed))
       (\<lambda>keyHexString. rbind (hex_decoded (bytes_text keyHexString)) (\<lambda>decodeBytes. Inr (decodeBytes, keyHexString)))"

section \<open>Base64\<close>

text \<open>The standard alphabet: upper case, lower case, digits, plus and slash.\<close>

definition b64_char :: "nat \<Rightarrow> char" where
  "b64_char n = char_of (if n < 26 then n + 65 else if n < 52 then n + 71 else if n < 62 then n - 4
     else if n = 62 then 43 else 47 :: nat)"

definition b64_val :: "char \<Rightarrow> nat option" where
  "b64_val c = (let n = of_char c :: nat in
     if 65 \<le> n \<and> n \<le> 90 then Some (n - 65)
     else if 97 \<le> n \<and> n \<le> 122 then Some (n - 71)
     else if 48 \<le> n \<and> n \<le> 57 then Some (n + 4)
     else if n = 43 then Some 62
     else if n = 47 then Some 63
     else None)"

fun Base64Encode :: "bytes \<Rightarrow> string" where
  "Base64Encode [] = []"
| "Base64Encode [a] = [b64_char (unat a div 4), b64_char (unat a mod 4 * 16), CHR ''='', CHR ''='']"
| "Base64Encode [a, b] =
     [b64_char (unat a div 4), b64_char (unat a mod 4 * 16 + unat b div 16), b64_char (unat b mod 16 * 4), CHR ''='']"
| "Base64Encode (a # b # c # r) =
     b64_char (unat a div 4) # b64_char (unat a mod 4 * 16 + unat b div 16) #
     b64_char (unat b mod 16 * 4 + unat c div 64) # b64_char (unat c mod 64) # Base64Encode r"

text \<open>Decoding after line ends are dropped: quadruples of the alphabet, the last one with one or two
  padding characters; trailing bits are not checked.\<close>

fun b64_decode :: "string \<Rightarrow> bytes option" where
  "b64_decode [] = Some []"
| "b64_decode (w # x # y # z # r) =
     (case (b64_val w, b64_val x) of
        (Some i, Some j) \<Rightarrow>
          (case (b64_val y, b64_val z) of
             (Some k, Some l) \<Rightarrow>
               map_option (\<lambda>bs. of_nat (i * 4 + j div 16) # of_nat (j mod 16 * 16 + k div 4) # of_nat (k mod 4 * 64 + l) # bs)
                 (b64_decode r)
           | (Some k, None) \<Rightarrow>
               if z = CHR ''='' \<and> r = [] then Some [of_nat (i * 4 + j div 16), of_nat (j mod 16 * 16 + k div 4)] else None
           | (None, _) \<Rightarrow>
               if y = CHR ''='' \<and> z = CHR ''='' \<and> r = [] then Some [of_nat (i * 4 + j div 16)] else None)
      | _ \<Rightarrow> None)"
| "b64_decode _ = None"

definition is_eol :: "char \<Rightarrow> bool" where
  "is_eol c \<longleftrightarrow> of_char c = (10 :: nat) \<or> of_char c = (13 :: nat)"

definition b64_Decode :: "string \<Rightarrow> go_err + bytes" where
  "b64_Decode s = (case b64_decode (filter (\<lambda>c. \<not> is_eol c) s) of
     None \<Rightarrow> Inl (GoPanic ''illegal base64 data'') | Some b \<Rightarrow> Inr b)"

section \<open>CFB\<close>

definition cfb_iv :: bytes where
  "cfb_iv = [30, 36, 57, 24, 25, 35, 24, 74, 87, 35, 18, 98, 66, 32, 14, 5]"

text \<open>\<open>E\<close> encrypts one block; each output block is fed back as the next input.\<close>

function cfb_encrypt :: "(bytes \<Rightarrow> bytes) \<Rightarrow> bytes \<Rightarrow> bytes \<Rightarrow> bytes" where
  "cfb_encrypt E nxt src =
     (if src = [] then []
      else let c = map2 (XOR) (take 16 src) (E nxt) in c @ cfb_encrypt E c (drop 16 src))"
  by pat_completeness auto
termination by (relation "measure (\<lambda>(E, nxt, src). length src)") auto

function cfb_decrypt :: "(bytes \<Rightarrow> bytes) \<Rightarrow> bytes \<Rightarrow> bytes \<Rightarrow> bytes" where
  "cfb_decrypt E nxt src =
     (if src = [] then []
      else map2 (XOR) (take 16 src) (E nxt) @ cfb_decrypt E (take 16 src) (drop 16 src))"
  by pat_completeness auto
termination by (relation "measure (\<lambda>(E, nxt, src). length src)") auto

declare cfb_encrypt.simps [simp del] cfb_decrypt.simps [simp del]

text \<open>\<open>aes\<close> is \<open>aes.NewCipher\<close>: an error, or the block function of the key.\<close>

type_synonym aes_lib = "bytes \<Rightarrow> go_err + (bytes \<Rightarrow> bytes)"

definition CFBEncrypt :: "aes_lib \<Rightarrow> bytes \<Rightarrow> string \<Rightarrow> go_err + string" where
  "CFBEncrypt aes plain MySecret =
     rbind (aes (text_bytes MySecret)) (\<lambda>block. Inr (Base64Encode (cfb_encrypt block cfb_iv plain)))"

definition CFBDecrypt :: "aes_lib \<Rightarrow> string \<Rightarrow> string \<Rightarrow> go_err + bytes" where
  "CFBDecrypt aes cipher MySecret =
     rbind (aes (text_bytes MySecret)) (\<lambda>block.
       rbind (b64_Decode cipher) (\<lambda>cipherText. Inr (cfb_decrypt block cfb_iv cipherText)))"

end
