(* ===== verification/Crypto_Props.thy ===== *)
theory Crypto_Props
  imports Crypto
begin

text \<open>
  Properties of \<open>core/crypto\<close>: base64 and CFB are inverse to their decoders, so that a secret survives
  its encryption; and big integers survive their byte form, which the signer needs.
\<close>

section \<open>Texts as bytes\<close>

lemma bytes_text_bytes [simp]: "bytes_text (text_bytes s) = s"
  by (induction s) (simp_all add: bytes_text_def text_bytes_def unat_of_nat take_bit_nat_eq_self)

lemma length_text_bytes [simp]: "length (text_bytes s) = length s"
  by (simp add: text_bytes_def)

section \<open>Big integers\<close>

lemma unat_byte_less: "unat (a :: byte) < 256"
proof -
  have "unat a < 2 ^ LENGTH(8)" by (rule unsigned_less)
  then show ?thesis by simp
qed

lemma uint_mod_256: "uint (of_nat (n mod 256) :: byte) = int (n mod 256)"
  by (simp add: unsigned_of_nat take_bit_eq_mod zmod_int)

lemma nat_bytes_0 [simp]: "nat_bytes 0 = []"
  by (subst nat_bytes.simps) simp

lemma big_SetBytes_Nil [simp]: "big_SetBytes [] = 0"
  by (simp add: big_SetBytes_def)

lemma big_SetBytes_append: "big_SetBytes (a @ [b]) = big_SetBytes a * 256 + uint b"
  by (simp add: big_SetBytes_def)

lemma big_SetBytes_nat_bytes: "big_SetBytes (nat_bytes n) = int n"
proof (induction n rule: nat_bytes.induct)
  case (1 n)
  show ?case
  proof (cases "n = 0")
    case True then show ?thesis by simp
  next
    case False
    then have "big_SetBytes (nat_bytes n) = int (n div 256) * 256 + int (n mod 256)"
      using 1 by (subst nat_bytes.simps) (simp add: big_SetBytes_append uint_mod_256)
    also have "\<dots> = int (n div 256 * 256 + n mod 256)" by (simp only: of_nat_mult of_nat_add of_nat_numeral)
    also have "\<dots> = int n" by (simp only: div_mult_mod_eq)
    finally show ?thesis .
  qed
qed

lemma big_SetBytes_Bytes [simp]: "big_SetBytes (big_Bytes n) = abs n"
  by (simp add: big_Bytes_def big_SetBytes_nat_bytes)

lemma big_SetBytes_nonneg: "0 \<le> big_SetBytes b"
  by (induction b rule: rev_induct) (simp_all add: big_SetBytes_append)

lemma nat_bytes_SetBytes:
  "nat_bytes (nat (big_SetBytes b)) = dropWhile (\<lambda>x. x = 0) b"
proof (induction b rule: rev_induct)
  case Nil then show ?case by simp
next
  case (snoc x b)
  let ?m = "nat (big_SetBytes b)"
  have n: "nat (big_SetBytes (b @ [x])) = ?m * 256 + unat x"
    using big_SetBytes_nonneg [of b] by (simp add: big_SetBytes_append nat_add_distrib nat_mult_distrib)
  have x: "unat x < 256" by (rule unat_byte_less)
  show ?case
  proof (cases "?m * 256 + unat x = 0")
    case True
    then have "?m = 0" "x = 0" by (simp_all add: unat_eq_0)
    then have "dropWhile (\<lambda>x. x = 0) b = []" using snoc by simp
    then have "dropWhile (\<lambda>x. x = 0) (b @ [x]) = []" using \<open>x = 0\<close> by (simp add: dropWhile_append)
    then show ?thesis unfolding n True by simp
  next
    case False
    have d: "(?m * 256 + unat x) div 256 = ?m" "(?m * 256 + unat x) mod 256 = unat x" using x by simp_all
    have "nat_bytes (?m * 256 + unat x) = nat_bytes ?m @ [x]"
      using False by (subst nat_bytes.simps) (simp only: d if_False of_nat_unat ucast_id)
    moreover have "dropWhile (\<lambda>x. x = 0) (b @ [x]) = dropWhile (\<lambda>x. x = 0) b @ [x]"
    proof (cases "dropWhile (\<lambda>x. x = 0) b = []")
      case True
      then have "?m = 0" using snoc by (metis append_is_Nil_conv nat_bytes.simps not_Cons_self2)
      then have "x \<noteq> 0" using False by auto
      then show ?thesis using True by (simp add: dropWhile_append)
    qed (simp add: dropWhile_append)
    ultimately show ?thesis using snoc by (simp add: n)
  qed
qed

lemma pad_dropWhile: "length b = k \<Longrightarrow> pad_left k (dropWhile (\<lambda>x. x = 0) b) = Inr b"
proof -
  assume k: "length b = k"
  have "takeWhile (\<lambda>x. x = 0) b = replicate (length (takeWhile (\<lambda>x. x = 0) b)) 0"
    by (rule replicate_eqI [THEN sym, THEN sym]) (auto dest: set_takeWhileD)
  moreover have "length (takeWhile (\<lambda>x. x = 0) b) + length (dropWhile (\<lambda>x. x = 0) b) = k"
    using k by (metis length_append takeWhile_dropWhile_id)
  ultimately show ?thesis unfolding pad_left_def
    by (metis add_diff_cancel_right' le_add2 takeWhile_dropWhile_id)
qed

lemma pad_Bytes_SetBytes: "length b = k \<Longrightarrow> pad_left k (big_Bytes (big_SetBytes b)) = Inr b"
  using big_SetBytes_nonneg [of b] by (simp add: big_Bytes_def nat_bytes_SetBytes pad_dropWhile)

section \<open>Base64\<close>

lemma b64_val_char [simp]: "n < 64 \<Longrightarrow> b64_val (b64_char n) = Some n"
  by (auto simp: b64_val_def b64_char_def Let_def)

lemma b64_not_eol [simp]: "n < 64 \<Longrightarrow> \<not> is_eol (b64_char n)"
  by (auto simp: is_eol_def b64_char_def)

lemma b64_pad: "b64_val (CHR ''='') = None" "\<not> is_eol (CHR ''='')"
  by (simp_all add: b64_val_def is_eol_def)

lemma sextets:
  "unat (a :: byte) div 4 < 64" "unat a mod 4 * 16 + unat (b :: byte) div 16 < 64" "unat a mod 4 * 16 < 64"
  "unat b mod 16 * 4 + unat (c :: byte) div 64 < 64" "unat b mod 16 * 4 < 64" "unat c mod 64 < 64"
proof -
  show "unat a div 4 < 64" using unat_byte_less [of a] by simp
  have "unat b div 16 < 16" "unat c div 64 < 4" using unat_byte_less [of b] unat_byte_less [of c] by simp_all
  then show "unat a mod 4 * 16 + unat b div 16 < 64" "unat b mod 16 * 4 + unat c div 64 < 64"
    using mod_less_divisor [of 4 "unat a"] mod_less_divisor [of 16 "unat b"] by simp_all
qed simp_all

lemma octet_back:
  "unat (a :: byte) div 4 * 4 + (unat a mod 4 * 16 + unat (b :: byte) div 16) div 16 = unat a"
  "unat a div 4 * 4 + unat a mod 4 * 16 div 16 = unat a"
  "(unat a mod 4 * 16 + unat b div 16) mod 16 * 16 + (unat b mod 16 * 4 + unat (c :: byte) div 64) div 4 = unat b"
  "(unat a mod 4 * 16 + unat b div 16) mod 16 * 16 + unat b mod 16 * 4 div 4 = unat b"
  "(unat b mod 16 * 4 + unat c div 64) mod 4 * 64 + unat c mod 64 = unat c"
proof -
  have l: "unat b div 16 < 16" "unat c div 64 < 4" using unat_byte_less [of b] unat_byte_less [of c] by simp_all
  then show "unat a div 4 * 4 + (unat a mod 4 * 16 + unat b div 16) div 16 = unat a"
    "(unat a mod 4 * 16 + unat b div 16) mod 16 * 16 + (unat b mod 16 * 4 + unat c div 64) div 4 = unat b"
    "(unat a mod 4 * 16 + unat b div 16) mod 16 * 16 + unat b mod 16 * 4 div 4 = unat b"
    "(unat b mod 16 * 4 + unat c div 64) mod 4 * 64 + unat c mod 64 = unat c" by simp_all
qed simp_all

lemma b64_decode_encode [simp]: "b64_decode (Base64Encode b) = Some b"
proof (induction b rule: Base64Encode.induct)
  case (2 a)
  then show ?case using sextets octet_back(2) [of a] by (simp add: b64_pad)
next
  case (3 a b)
  have "b64_decode (Base64Encode [a, b]) = Some [of_nat (unat a), of_nat (unat b)]"
    using sextets(1) [of a] sextets(2) [of a b] sextets(5) [of b] octet_back(1) [of a b] octet_back(4) [of a b]
    by (simp add: b64_pad del: of_nat_unat)
  then show ?case by simp
next
  case (4 a b c r)
  have "b64_decode (Base64Encode (a # b # c # r)) = Some (of_nat (unat a) # of_nat (unat b) # of_nat (unat c) # r)"
    using sextets(1) [of a] sextets(2) [of a b] sextets(4) [of b c] sextets(6) [of c] octet_back(1) [of a b]
      octet_back(3) [of a b c] octet_back(5) [of b c] 4 by (simp del: of_nat_unat)
  then show ?case by simp
qed simp

lemma b64_filter [simp]: "filter (\<lambda>c. \<not> is_eol c) (Base64Encode b) = Base64Encode b"
  by (induction b rule: Base64Encode.induct) (simp_all add: sextets b64_pad)

lemma b64_Decode_Encode [simp]: "b64_Decode (Base64Encode b) = Inr b"
  by (simp add: b64_Decode_def)

section \<open>CFB\<close>

definition block_ok :: "(bytes \<Rightarrow> bytes) \<Rightarrow> bool" where "block_ok E \<longleftrightarrow> (\<forall>x. length (E x) = 16)"

lemma xor_twice:
  "length xs \<le> length ks \<Longrightarrow> map2 (XOR) (map2 (XOR) xs ks) ks = (xs :: bytes)"
  by (induction xs ks rule: list_induct2') (auto simp: xor.assoc)

lemma cfb_Nil [simp]: "cfb_encrypt E nxt [] = []" "cfb_decrypt E nxt [] = []"
  by (subst cfb_encrypt.simps, simp) (subst cfb_decrypt.simps, simp)

lemma length_cfb_encrypt: "block_ok E \<Longrightarrow> length (cfb_encrypt E nxt src) = length src"
proof (induction E nxt src rule: cfb_encrypt.induct)
  case (1 E nxt src)
  then show ?case by (subst cfb_encrypt.simps) (auto simp: Let_def block_ok_def)
qed

lemma cfb_decrypt_encrypt: "block_ok E \<Longrightarrow> cfb_decrypt E nxt (cfb_encrypt E nxt src) = src"
proof (induction E nxt src rule: cfb_encrypt.induct)
  case (1 E nxt src)
  show ?case
  proof (cases "src = []")
    case True then show ?thesis by simp
  next
    case False
    define c where "c = map2 (XOR) (take 16 src) (E nxt)"
    have len: "length c = length (take 16 src)" using 1(2) by (simp add: c_def block_ok_def)
    have enc: "cfb_encrypt E nxt src = c @ cfb_encrypt E c (drop 16 src)"
      using False by (subst cfb_encrypt.simps) (simp add: c_def Let_def)
    have ne: "c \<noteq> []" using False len by (metis length_0_conv take_eq_Nil2 zero_neq_numeral)
    have split: "take 16 (c @ cfb_encrypt E c (drop 16 src)) = c \<and>
        drop 16 (c @ cfb_encrypt E c (drop 16 src)) = cfb_encrypt E c (drop 16 src)"
    proof (cases "16 \<le> length src")
      case True then show ?thesis using len by simp
    next
      case False
      then have "drop 16 src = []" by simp
      then show ?thesis using len False by simp
    qed
    have "map2 (XOR) c (E nxt) = take 16 src"
      unfolding c_def using 1(2) by (intro xor_twice) (simp add: block_ok_def)
    then show ?thesis unfolding enc
      using ne split 1(1) [OF False c_def 1(2)] by (subst cfb_decrypt.simps) simp
  qed
qed

definition aes_laws :: "aes_lib \<Rightarrow> bool" where
  "aes_laws aes \<longleftrightarrow> (\<forall>k. if length k \<in> {16, 24, 32} then \<exists>E. aes k = Inr E \<and> block_ok E
     else \<exists>e. aes k = Inl e \<and> \<not> is_panic e)"

lemma CFB_round_trip:
  assumes "aes_laws aes" and "CFBEncrypt aes plain pass = Inr cipher"
  shows "CFBDecrypt aes cipher pass = Inr plain"
proof -
  obtain E where E: "aes (text_bytes pass) = Inr E"
    using assms(2) by (cases "aes (text_bytes pass)") (auto simp: CFBEncrypt_def)
  have ok: "block_ok E" using assms(1) E unfolding aes_laws_def
    by (metis (mono_tags, lifting) Inl_Inr_False Inr_inject)
  have "cipher = Base64Encode (cfb_encrypt E cfb_iv plain)" using assms(2) E by (simp add: CFBEncrypt_def)
  then show ?thesis using E by (simp add: CFBDecrypt_def cfb_decrypt_encrypt [OF ok])
qed

end
