(* ===== verification/Os_Files.thy ===== *)
theory Os_Files
  imports Crypto_Props Net_Common
begin

text \<open>
  Files as the program uses them: the part of \<open>os\<close> and \<open>path/filepath\<close> that \<open>core/helper/common/common.go\<close>
  and \<open>core/helper/keystore/keystore.go\<close> call, and those helpers themselves.  A file system is a map
  from paths, as text, to their \<open>FileInfo\<close>; what the operating system may refuse for reasons outside the map
  (permissions, full disks, a directory that is not empty) is the parameter record \<open>os_env\<close>.  A path and its
  absolute form name the same file.
\<close>

section \<open>The file system\<close>

datatype file_kind = RegularFile bytes | Directory

record file_info =
  fi_Kind :: file_kind
  fi_Uid :: nat
  fi_Gid :: nat
  fi_Perm :: nat

type_synonym fsys = "string \<Rightarrow> file_info option"

definition IsDir :: "file_info \<Rightarrow> bool" where "IsDir i \<longleftrightarrow> fi_Kind i = Directory"

text \<open>\<open>FileInfo.Mode\<close> has the bit \<open>fs.ModeDir\<close> beside the permissions.\<close>

definition Mode :: "file_info \<Rightarrow> nat" where
  "Mode i = (if IsDir i then 2 ^ 31 + fi_Perm i else fi_Perm i)"

record os_env =
  os_stat_err :: "string \<Rightarrow> go_err option"
  os_abs_err :: "string \<Rightarrow> go_err option"
  os_read_err :: "string \<Rightarrow> go_err option"
  os_write_err :: "string \<Rightarrow> (go_err \<times> file_info option) option"  \<comment> \<open>the error and what it leaves\<close>
  os_mkdir_err :: "string \<Rightarrow> go_err option"
  os_remove_err :: "string \<Rightarrow> go_err option"
  os_current_user :: "(nat \<times> nat) option"
  os_owner :: "nat \<times> nat"
  os_umask :: "nat \<Rightarrow> nat"  \<comment> \<open>the permissions a new file gets\<close>

datatype stat_result = StatErr go_err | NotExist | StatOk file_info

definition ENOENT :: go_err where "ENOENT = GoErr ''no such file or directory''"
definition EISDIR :: go_err where "EISDIR = GoErr ''is a directory''"
definition ENOTDIR :: go_err where "ENOTDIR = GoErr ''not a directory''"

definition os_Stat :: "os_env \<Rightarrow> fsys \<Rightarrow> string \<Rightarrow> stat_result" where
  "os_Stat e fs p = (if p = '''' then NotExist else
     case os_stat_err e p of
       Some err \<Rightarrow> StatErr err
     | None \<Rightarrow> (case fs p of None \<Rightarrow> NotExist | Some i \<Rightarrow> StatOk i))"

definition os_ReadFile :: "os_env \<Rightarrow> fsys \<Rightarrow> string \<Rightarrow> go_err + bytes" where
  "os_ReadFile e fs p = (if p = '''' then Inl ENOENT else
     case os_read_err e p of
       Some err \<Rightarrow> Inl err
     | None \<Rightarrow> (case fs p of
          None \<Rightarrow> Inl ENOENT
        | Some i \<Rightarrow> (case fi_Kind i of Directory \<Rightarrow> Inl EISDIR | RegularFile b \<Rightarrow> Inr b)))"

text \<open>The directory part of a path: everything before the last slash.\<close>

definition parent_dir :: "string \<Rightarrow> string" where
  "parent_dir p = (let r = dropWhile (\<lambda>c. c \<noteq> CHR ''/'') (rev p) in
     if r = [] then ''.'' else if tl r = [] then ''/'' else rev (tl r))"

definition dir_exists :: "fsys \<Rightarrow> string \<Rightarrow> bool" where
  "dir_exists fs d \<longleftrightarrow> d = ''.'' \<or> d = ''/'' \<or> (\<exists>i \<in> set_option (fs d). IsDir i)"

definition os_WriteFile :: "os_env \<Rightarrow> string \<Rightarrow> bytes \<Rightarrow> nat \<Rightarrow> fsys \<Rightarrow> go_err option \<times> fsys" where
  "os_WriteFile e p data perms fs = (if p = '''' then (Some ENOENT, fs) else
     case os_write_err e p of
       Some (err, left) \<Rightarrow> (Some err, fs(p := left))
     | None \<Rightarrow>
        (case fs p of
           Some i \<Rightarrow> if IsDir i then (Some EISDIR, fs) else (None, fs(p \<mapsto> i\<lparr>fi_Kind := RegularFile data\<rparr>))
         | None \<Rightarrow>
             if \<not> dir_exists fs (parent_dir p) then (Some ENOENT, fs)
             else (None, fs(p \<mapsto> \<lparr>fi_Kind = RegularFile data, fi_Uid = fst (os_owner e), fi_Gid = snd (os_owner e),
                    fi_Perm = os_umask e perms\<rparr>))))"

definition os_Remove :: "os_env \<Rightarrow> string \<Rightarrow> fsys \<Rightarrow> go_err option \<times> fsys" where
  "os_Remove e p fs = (case os_remove_err e p of
     Some err \<Rightarrow> (Some err, fs)
   | None \<Rightarrow> if p = '''' \<or> fs p = None then (Some ENOENT, fs) else (None, fs(p := None)))"

text \<open>\<open>os.MkdirAll\<close>: the path and its ancestors, shortest first; a refused call leaves nothing here.\<close>

definition ancestors :: "string \<Rightarrow> string list" where
  "ancestors p = map (\<lambda>i. take i p) (filter (\<lambda>i. 0 < i \<and> (i = length p \<or> p ! i = CHR ''/'')) [0..<Suc (length p)])"

definition os_MkdirAll :: "os_env \<Rightarrow> string \<Rightarrow> nat \<Rightarrow> fsys \<Rightarrow> go_err option \<times> fsys" where
  "os_MkdirAll e p perms fs = (if p = '''' then (Some ENOENT, fs) else
     case os_mkdir_err e p of
       Some err \<Rightarrow> (Some err, fs)
     | None \<Rightarrow>
        if \<exists>d \<in> set (ancestors p). \<exists>i \<in> set_option (fs d). \<not> IsDir i then (Some ENOTDIR, fs)
        else (None, fold (\<lambda>d fs. if fs d = None
               then fs(d \<mapsto> \<lparr>fi_Kind = Directory, fi_Uid = fst (os_owner e), fi_Gid = snd (os_owner e),
                        fi_Perm = os_umask e perms\<rparr>)
               else fs) (ancestors p) fs))"

section \<open>Paths\<close>

fun join_slash :: "string list \<Rightarrow> string" where
  "join_slash [] = ''''"
| "join_slash [w] = w"
| "join_slash (w # ws) = w @ ''/'' @ join_slash ws"

text \<open>\<open>filepath.Clean\<close>: the elements of the path on a stack, last one first.\<close>

definition clean_step :: "bool \<Rightarrow> string \<Rightarrow> string list \<Rightarrow> string list" where
  "clean_step rooted s st =
     (if s = '''' \<or> s = ''.'' then st
      else if s = ''..'' then
        (case st of [] \<Rightarrow> if rooted then [] else [''..'']
         | t # ts \<Rightarrow> if t = ''..'' then ''..'' # st else ts)
      else s # st)"

definition clean_stack :: "string \<Rightarrow> string list" where
  "clean_stack p = fold (clean_step (take 1 p = ''/'')) (split_on (CHR ''/'') p) []"

definition Clean :: "string \<Rightarrow> string" where
  "Clean p = (let body = join_slash (rev (clean_stack p)) in
     if take 1 p = ''/'' then ''/'' @ body else if body = '''' then ''.'' else body)"

definition Join :: "string list \<Rightarrow> string" where
  "Join es = (case dropWhile (\<lambda>e. e = '''') es of [] \<Rightarrow> '''' | es' \<Rightarrow> Clean (join_slash es'))"

section \<open>\<open>common.go\<close>\<close>

definition verifyFileOwnerAndPermissions :: "os_env \<Rightarrow> string \<Rightarrow> file_info option \<Rightarrow> nat \<Rightarrow> go_err option" where
  "verifyFileOwnerAndPermissions e path info expectedPerms =
     (case info of
        None \<Rightarrow> Some (GoPanic ''nil pointer dereference'')
      | Some i \<Rightarrow>
         (case os_current_user e of
            None \<Rightarrow> Some (GoErr ''failed to get current user'')
          | Some (uid, gid) \<Rightarrow>
             if uid = fi_Uid i then None
             else if gid \<noteq> fi_Gid i then Some (GoErr (''file/directory created by a user from a different group: '' @ path))
             else if Mode i \<noteq> expectedPerms
               then Some (GoErr (''permissions of the file/directory are set incorrectly by another user: '' @ path))
             else None))"

definition DirectoryExists :: "os_env \<Rightarrow> fsys \<Rightarrow> string \<Rightarrow> bool" where
  "DirectoryExists e fs directoryPath =
     (if directoryPath = '''' then False
      else if os_abs_err e directoryPath \<noteq> None then False
      else case os_Stat e fs directoryPath of NotExist \<Rightarrow> False | StatErr _ \<Rightarrow> True | StatOk i \<Rightarrow> IsDir i)"

definition FileExists :: "os_env \<Rightarrow> fsys \<Rightarrow> string \<Rightarrow> bool" where
  "FileExists e fs filePath =
     (if filePath = '''' then False
      else if os_abs_err e filePath \<noteq> None then False
      else case os_Stat e fs filePath of NotExist \<Rightarrow> False | StatErr _ \<Rightarrow> True | StatOk i \<Rightarrow> \<not> IsDir i)"

text \<open>The \<open>info\<close> of a failed \<open>Stat\<close> is nil.\<close>

definition stat_info :: "stat_result \<Rightarrow> file_info option" where
  "stat_info r = (case r of StatOk i \<Rightarrow> Some i | _ \<Rightarrow> None)"

definition CreateDirSafe :: "os_env \<Rightarrow> string \<Rightarrow> nat \<Rightarrow> fsys \<Rightarrow> go_err option \<times> fsys" where
  "CreateDirSafe e path perms fs =
     (let info = os_Stat e fs path in
      case info of
        StatErr err \<Rightarrow> (Some err, fs)
      | _ \<Rightarrow>
         if \<not> DirectoryExists e fs path then os_MkdirAll e path perms fs
         else (verifyFileOwnerAndPermissions e path (stat_info info) perms, fs))"

definition SaveFileSafe :: "os_env \<Rightarrow> string \<Rightarrow> bytes \<Rightarrow> nat \<Rightarrow> fsys \<Rightarrow> go_err option \<times> fsys" where
  "SaveFileSafe e path data perms fs =
     (let info = os_Stat e fs path in
      case info of
        StatErr err \<Rightarrow> (Some err, fs)
      | _ \<Rightarrow>
         (case (if FileExists e fs path then verifyFileOwnerAndPermissions e path (stat_info info) perms else None) of
            Some err \<Rightarrow> (Some err, fs)
          | None \<Rightarrow> os_WriteFile e path data perms fs))"

fun create_paths :: "os_env \<Rightarrow> string \<Rightarrow> nat \<Rightarrow> string list \<Rightarrow> fsys \<Rightarrow> go_err option \<times> fsys" where
  "create_paths e dataDir perms [] fs = (None, fs)"
| "create_paths e dataDir perms (path # paths) fs =
     (case CreateDirSafe e (Join [dataDir, path]) perms fs of
        (Some err, fs') \<Rightarrow> (Some (GoWrap ''failed to create path: '' err), fs')
      | (None, fs') \<Rightarrow> create_paths e dataDir perms paths fs')"

definition SetupDataDir :: "os_env \<Rightarrow> string \<Rightarrow> string list \<Rightarrow> nat \<Rightarrow> fsys \<Rightarrow> go_err option \<times> fsys" where
  "SetupDataDir e dataDir paths perms fs =
     (case CreateDirSafe e dataDir perms fs of
        (Some err, fs') \<Rightarrow> (Some (GoWrap ''failed to create data dir: '' err), fs')
      | (None, fs') \<Rightarrow> create_paths e dataDir perms paths fs')"

text \<open>Small helpers on numbers and byte slices.\<close>

definition Min_u64 :: "u64 \<Rightarrow> u64 \<Rightarrow> u64" where "Min_u64 a b = (if a < b then a else b)"
definition Max_u64 :: "u64 \<Rightarrow> u64 \<Rightarrow> u64" where "Max_u64 a b = (if a > b then a else b)"

definition PadLeftOrTrim :: "bytes \<Rightarrow> nat \<Rightarrow> bytes" where
  "PadLeftOrTrim bb sz =
     (let l = length bb in
      if l = sz then bb
      else if l > sz then drop (l - sz) bb
      else replicate (sz - l) 0 @ bb)"

text \<open>\<open>b[:cap(b)]\<close> is given as the array behind the slice, up to its capacity.\<close>

definition ExtendByteSlice :: "bytes \<Rightarrow> nat \<Rightarrow> bytes" where
  "ExtendByteSlice b needLength =
     (let b' = (if length b < needLength then b @ replicate (needLength - length b) 0 else b) in take needLength b')"

text \<open>\<open>big.Int.Div\<close> is Euclidean: the remainder is not negative.\<close>

definition big_Div :: "int \<Rightarrow> int \<Rightarrow> go_err + int" where
  "big_Div a b = (if b = 0 then Inl (GoPanic ''division by zero'')
     else Inr (if b > 0 then a div b else - (a div (- b))))"

definition BigIntDivCeil :: "int \<Rightarrow> int \<Rightarrow> go_err + int" where
  "BigIntDivCeil a b = big_Div (a + b - 1) b"

definition EncodeUint64ToBytes :: "u64 \<Rightarrow> bytes" where
  "EncodeUint64ToBytes value = map (\<lambda>i. of_nat (unat value div 256 ^ (7 - i))) [0..<8]"

definition EncodeBytesToUint64 :: "bytes \<Rightarrow> go_err + u64" where
  "EncodeBytesToUint64 b = (if length b < 8 then Inl (GoPanic ''index out of range'')
     else Inr (of_int (big_SetBytes (take 8 b))))"

section \<open>\<open>keystore.go\<close> and the key file of \<open>crypto.go\<close>\<close>

text \<open>The fallback of \<open>create\<close> is its outcome; the file holds the hexadecimal text of the key.\<close>

definition CreateIfNotExists :: "os_env \<Rightarrow> string \<Rightarrow> go_err + bytes \<Rightarrow> fsys \<Rightarrow> (go_err + bytes) \<times> fsys" where
  "CreateIfNotExists e path created fs =
     (case os_Stat e fs path of
        StatErr err \<Rightarrow> (Inl (GoWrap ''failed to stat: '' err), fs)
      | StatOk _ \<Rightarrow>
         (case os_ReadFile e fs path of
            Inl err \<Rightarrow> (Inl (GoWrap ''unable to read private key from disk, '' err), fs)
          | Inr keyBuff \<Rightarrow> (Inr keyBuff, fs))
      | NotExist \<Rightarrow>
         (case created of
            Inl err \<Rightarrow> (Inl (GoWrap ''unable to generate private key, '' err), fs)
          | Inr keyBuff \<Rightarrow>
             let keyBuff' = text_bytes (hex_EncodeToString keyBuff) in
             (case SaveFileSafe e path keyBuff' 0x120 fs of
                (Some err, fs') \<Rightarrow> (Inl (GoWrap ''unable to write private key to disk, '' err), fs')
              | (None, fs') \<Rightarrow> (Inr keyBuff', fs'))))"

definition GenerateOrReadPrivateKey ::
    "('k, 'p) curve_lib \<Rightarrow> os_env \<Rightarrow> string \<Rightarrow> go_err + 'k \<Rightarrow> fsys \<Rightarrow> (go_err + 'k) \<times> fsys" where
  "GenerateOrReadPrivateKey C e path gen fs =
     (case CreateIfNotExists e path (generateECDSAKeyAndMarshal C gen) fs of
        (Inl err, fs') \<Rightarrow> (Inl err, fs')
      | (Inr keyBuff, fs') \<Rightarrow>
         ((case BytesToECDSAPrivateKey C keyBuff of
             Inl err \<Rightarrow> Inl (GoWrap ''unable to execute byte array -> private key conversion, '' err)
           | Inr privateKey \<Rightarrow> Inr privateKey), fs'))"

end
