(* ===== verification/Secrets.thy ===== *)
theory Secrets
  imports Os_Files
begin

text \<open>
  The secrets managers: the interface of \<open>core/secrets/secrets.go\<close>, its implementations \<open>local\<close>,
  \<open>hashicorpvault\<close>, \<open>awsssm\<close> and \<open>gcpssm\<close>, the clients in \<open>core/secrets/helper/helper.go\<close>, and the
  networking key of \<open>core/network/keystore.go\<close> and \<open>setupLibp2pKey\<close> in \<open>core/network/server.go\<close>.
  An interface value is a record of functions over the state behind it.  The servers that the cloud managers
  talk to are parameters: what they answer is an argument, what they promise is stated where it is used.
\<close>

section \<open>\<open>secrets.go\<close>\<close>

definition ValidatorKey :: string where "ValidatorKey = ''validator-key''"
definition SecureFlag :: string where "SecureFlag = ''secure-''"
definition NetworkKey :: string where "NetworkKey = ''network-key''"
definition SecureTrue :: string where "SecureTrue = ''0x1''"
definition ValidatorKeyLocal :: string where "ValidatorKeyLocal = ''validator.key''"
definition NetworkKeyLocal :: string where "NetworkKeyLocal = ''libp2p.key''"
definition ConsensusFolderLocal :: string where "ConsensusFolderLocal = ''consensus''"
definition NetworkFolderLocal :: string where "NetworkFolderLocal = ''libp2p''"
definition ErrSecretNotFound :: go_err where "ErrSecretNotFound = GoErr ''secret not found''"

definition HashicorpVault :: string where "HashicorpVault = ''hashicorp-vault''"
definition AWSSSM :: string where "AWSSSM = ''aws-ssm''"
definition LocalType :: string where "LocalType = ''local''"
definition GCPSSM :: string where "GCPSSM = ''gcp-ssm''"

definition SupportedServiceManager :: "string \<Rightarrow> bool" where
  "SupportedServiceManager service \<longleftrightarrow>
     service = HashicorpVault \<or> service = AWSSSM \<or> service = LocalType \<or> service = GCPSSM"

record 'm secrets_manager =
  sm_GetSecret :: "'m \<Rightarrow> string \<Rightarrow> go_err + bytes"
  sm_SetSecret :: "string \<Rightarrow> bytes \<Rightarrow> 'm \<Rightarrow> go_err option \<times> 'm"
  sm_HasSecret :: "'m \<Rightarrow> string \<Rightarrow> go_err + bool"
  sm_RemoveSecret :: "string \<Rightarrow> 'm \<Rightarrow> go_err option \<times> 'm"

text \<open>Every implementation has \<open>_, err := GetSecret(name); return err == nil\<close>; a panic of \<open>GetSecret\<close>
  passes through.\<close>

definition no_err :: "go_err + 'a \<Rightarrow> go_err + bool" where
  "no_err r = (case r of Inl err \<Rightarrow> if is_panic err then Inl err else Inr False | Inr _ \<Rightarrow> Inr True)"

section \<open>The local manager\<close>

record local_manager =
  lm_path :: string
  lm_secretPathMap :: "string \<Rightarrow> string option"
  lm_secretPass :: string

type_synonym local_state = "local_manager \<times> fsys"

definition validator_path :: "string \<Rightarrow> string" where
  "validator_path p = Join [p, ConsensusFolderLocal, ValidatorKeyLocal]"

definition network_path :: "string \<Rightarrow> string" where
  "network_path p = Join [p, NetworkFolderLocal, NetworkKeyLocal]"

definition lm_Setup :: "os_env \<Rightarrow> local_state \<Rightarrow> go_err option \<times> local_state" where
  "lm_Setup e = (\<lambda>(l, fs).
     case SetupDataDir e (lm_path l) [ConsensusFolderLocal, NetworkFolderLocal] 0x1F8 fs of
       (Some err, fs') \<Rightarrow> (Some err, (l, fs'))
     | (None, fs') \<Rightarrow>
         (None, (l\<lparr>lm_secretPathMap := (lm_secretPathMap l)(ValidatorKey \<mapsto> validator_path (lm_path l),
                    NetworkKey \<mapsto> network_path (lm_path l))\<rparr>, fs')))"

text \<open>A parameter of \<open>Extra\<close> is absent, a string, or of another type.  The error of \<open>Setup\<close> is dropped.\<close>

datatype extra_val = XStr string | XNil | XOther "string \<times> string"  \<comment> \<open>its texts under \<open>%v\<close> and \<open>%s\<close>\<close>

definition lm_Factory :: "os_env \<Rightarrow> (string \<Rightarrow> extra_val option) \<Rightarrow> fsys \<Rightarrow> (go_err + local_state) \<times> fsys" where
  "lm_Factory e Extra fs =
     (case Extra ''path'' of
        None \<Rightarrow> (Inl (GoErr ''no path specified for local secrets manager''), fs)
      | Some (XStr path) \<Rightarrow>
          (let run = (\<lambda>pass. let st = snd (lm_Setup e (\<lparr>lm_path = path, lm_secretPathMap = Map.empty, lm_secretPass = pass\<rparr>, fs))
                      in (Inr st, snd st))
           in case Extra ''pass'' of
                None \<Rightarrow> run ''''
              | Some (XStr pass) \<Rightarrow> run pass
              | Some _ \<Rightarrow> (Inl (GoErr ''invalid type assertion''), fs))
      | Some _ \<Rightarrow> (Inl (GoErr ''invalid type assertion''), fs))"

definition lm_GetSecret :: "aes_lib \<Rightarrow> os_env \<Rightarrow> local_state \<Rightarrow> string \<Rightarrow> go_err + bytes" where
  "lm_GetSecret aes e st name =
     (case lm_secretPathMap (fst st) name of
        None \<Rightarrow> Inl ErrSecretNotFound
      | Some secretPath \<Rightarrow>
         (case os_ReadFile e (snd st) secretPath of
            Inl err \<Rightarrow> Inl (GoWrap ''unable to read secret from disk, '' err)
          | Inr secret \<Rightarrow>
             if lm_secretPass (fst st) \<noteq> '''' then
               (case CFBDecrypt aes (bytes_text secret) (lm_secretPass (fst st)) of
                  Inl err \<Rightarrow> Inl (if is_panic err then err else GoWrap ''error decrypting your encrypted key: '' err)
                | Inr decryptedSecret \<Rightarrow> Inr decryptedSecret)
             else Inr secret))"

definition lm_SetSecret :: "os_env \<Rightarrow> string \<Rightarrow> bytes \<Rightarrow> local_state \<Rightarrow> go_err option \<times> local_state" where
  "lm_SetSecret e name v st =
     (if lm_path (fst st) = '''' then (None, st)
      else case lm_secretPathMap (fst st) name of
        None \<Rightarrow> (Some ErrSecretNotFound, st)
      | Some secretPath \<Rightarrow>
         (case os_Stat e (snd st) secretPath of
            StatOk _ \<Rightarrow> (Some (GoErr (secretPath @ '' already initialized'')), st)
          | _ \<Rightarrow>
             (case SaveFileSafe e secretPath v 0x120 (snd st) of
                (Some err, fs') \<Rightarrow> (Some (GoWrap ''unable to write secret to disk, '' err), (fst st, fs'))
              | (None, fs') \<Rightarrow> (None, (fst st, fs')))))"

definition lm_HasSecret :: "aes_lib \<Rightarrow> os_env \<Rightarrow> local_state \<Rightarrow> string \<Rightarrow> go_err + bool" where
  "lm_HasSecret aes e st name = no_err (lm_GetSecret aes e st name)"

definition lm_RemoveSecret :: "os_env \<Rightarrow> string \<Rightarrow> local_state \<Rightarrow> go_err option \<times> local_state" where
  "lm_RemoveSecret e name st =
     (case lm_secretPathMap (fst st) name of
        None \<Rightarrow> (Some ErrSecretNotFound, st)
      | Some secretPath \<Rightarrow>
         let l' = (fst st)\<lparr>lm_secretPathMap := (lm_secretPathMap (fst st))(name := None)\<rparr> in
         (case os_Remove e secretPath (snd st) of
            (Some removeErr, fs') \<Rightarrow> (Some (GoWrap ''unable to remove secret, '' removeErr), (l', fs'))
          | (None, fs') \<Rightarrow> (None, (l', fs'))))"

definition local_sm :: "aes_lib \<Rightarrow> os_env \<Rightarrow> local_state secrets_manager" where
  "local_sm aes e = \<lparr>sm_GetSecret = lm_GetSecret aes e, sm_SetSecret = lm_SetSecret e,
     sm_HasSecret = lm_HasSecret aes e, sm_RemoveSecret = lm_RemoveSecret e\<rparr>"

section \<open>Configurations of the cloud managers\<close>

record sm_config =
  cf_Token :: string
  cf_ServerURL :: string
  cf_Type :: string
  cf_Name :: string
  cf_Namespace :: string
  cf_Extra :: "string \<Rightarrow> extra_val option"

definition fmt_v :: "extra_val option \<Rightarrow> string" where
  "fmt_v x = (case x of Some (XStr s) \<Rightarrow> s | Some (XOther (v, _)) \<Rightarrow> v | _ \<Rightarrow> ''<nil>'')"

definition fmt_s :: "extra_val option \<Rightarrow> string" where
  "fmt_s x = (case x of Some (XStr s) \<Rightarrow> s | Some (XOther (_, s)) \<Rightarrow> s | _ \<Rightarrow> ''%!s(<nil>)'')"

definition extra_nil :: "extra_val option \<Rightarrow> bool" where
  "extra_nil x \<longleftrightarrow> x = None \<or> x = Some XNil"

section \<open>Hashicorp Vault\<close>

text \<open>The answer of a read: nothing, or data whose entry \<open>data\<close> is missing, nil, not a map, or a map
  whose values are strings or not (\<open>None\<close>).\<close>

datatype kv_data = NoData | NilData | OtherData | KvMap "string \<Rightarrow> string option option"

record 's vault_api =
  va_NewClient :: "string \<Rightarrow> go_err option"
  va_Read :: "'s \<Rightarrow> string \<Rightarrow> go_err + kv_data option"
  va_Write :: "string \<Rightarrow> (string \<Rightarrow> string option) \<Rightarrow> 's \<Rightarrow> go_err option \<times> 's"
  va_Delete :: "string \<Rightarrow> 's \<Rightarrow> go_err option \<times> 's"

record vault_manager =
  vm_token :: string
  vm_serverURL :: string
  vm_name :: string
  vm_basePath :: string
  vm_client :: bool  \<comment> \<open>whether \<open>client\<close> is set\<close>
  vm_namespace :: string

definition vm_Setup :: "'s vault_api \<Rightarrow> vault_manager \<Rightarrow> go_err option \<times> vault_manager" where
  "vm_Setup A v = (case va_NewClient A (vm_serverURL v) of
     Some err \<Rightarrow> (Some (GoWrap ''unable to initialize Vault client: '' err), v)
   | None \<Rightarrow> (None, v\<lparr>vm_client := True\<rparr>))"

definition vm_Factory :: "'s vault_api \<Rightarrow> sm_config \<Rightarrow> go_err + vault_manager" where
  "vm_Factory A config =
     (if cf_Token config = '''' then Inl (GoErr ''no token specified for Vault secrets manager'')
      else if cf_ServerURL config = '''' then Inl (GoErr ''no server URL specified for Vault secrets manager'')
      else if cf_Name config = '''' then Inl (GoErr ''no node name specified for Vault secrets manager'')
      else Inr (snd (vm_Setup A \<lparr>vm_token = cf_Token config, vm_serverURL = cf_ServerURL config, vm_name = cf_Name config,
             vm_basePath = ''secret/data/'' @ cf_Name config, vm_client = False, vm_namespace = cf_Namespace config\<rparr>)))"

definition vm_constructSecretPath :: "vault_manager \<Rightarrow> string \<Rightarrow> string" where
  "vm_constructSecretPath v name = vm_basePath v @ ''/'' @ name"

definition vm_GetSecret :: "'s vault_api \<Rightarrow> vault_manager \<times> 's \<Rightarrow> string \<Rightarrow> go_err + bytes" where
  "vm_GetSecret A st name =
     (if \<not> vm_client (fst st) then Inl (GoPanic ''nil pointer dereference'')
      else case va_Read A (snd st) (vm_constructSecretPath (fst st) name) of
        Inl err \<Rightarrow> Inl (GoWrap ''unable to read secret from Vault, '' err)
      | Inr None \<Rightarrow> Inl ErrSecretNotFound
      | Inr (Some NoData) \<Rightarrow> Inl (GoErr ''unable to assert type for secret from Vault'')
      | Inr (Some NilData) \<Rightarrow> Inl ErrSecretNotFound
      | Inr (Some OtherData) \<Rightarrow> Inl (GoPanic ''interface conversion'')
      | Inr (Some (KvMap m)) \<Rightarrow>
          (case m name of
             None \<Rightarrow> Inl ErrSecretNotFound
           | Some None \<Rightarrow> Inl (GoErr ''invalid type assertion for secret value'')
           | Some (Some stringVal) \<Rightarrow> Inr (text_bytes stringVal)))"

definition vm_SetSecret ::
    "'s vault_api \<Rightarrow> string \<Rightarrow> bytes \<Rightarrow> vault_manager \<times> 's \<Rightarrow> go_err option \<times> (vault_manager \<times> 's)" where
  "vm_SetSecret A name v st =
     (let write = (case va_Write A (vm_constructSecretPath (fst st) name) [name \<mapsto> bytes_text v] (snd st) of
          (Some err, s') \<Rightarrow> (Some (GoWrap ''unable to store secret, '' err), (fst st, s'))
        | (None, s') \<Rightarrow> (None, (fst st, s')))
      in case vm_GetSecret A st name of
           Inr _ \<Rightarrow> write
         | Inl err \<Rightarrow> if err \<noteq> ErrSecretNotFound then (Some err, st) else write)"

definition vm_HasSecret :: "'s vault_api \<Rightarrow> vault_manager \<times> 's \<Rightarrow> string \<Rightarrow> go_err + bool" where
  "vm_HasSecret A st name = no_err (vm_GetSecret A st name)"

definition vm_RemoveSecret :: "'s vault_api \<Rightarrow> string \<Rightarrow> vault_manager \<times> 's \<Rightarrow> go_err option \<times> (vault_manager \<times> 's)" where
  "vm_RemoveSecret A name st =
     (case vm_GetSecret A st name of
        Inl err \<Rightarrow> (Some err, st)
      | Inr _ \<Rightarrow>
         (case va_Delete A (vm_constructSecretPath (fst st) name) (snd st) of
            (Some err, s') \<Rightarrow> (Some (GoWrap ''unable to delete secret, '' err), (fst st, s'))
          | (None, s') \<Rightarrow> (None, (fst st, s'))))"

definition vault_sm :: "'s vault_api \<Rightarrow> (vault_manager \<times> 's) secrets_manager" where
  "vault_sm A = \<lparr>sm_GetSecret = vm_GetSecret A, sm_SetSecret = vm_SetSecret A,
     sm_HasSecret = vm_HasSecret A, sm_RemoveSecret = vm_RemoveSecret A\<rparr>"

section \<open>AWS SSM\<close>

text \<open>\<open>GetParameter\<close> answers an error, nothing, or a value; \<open>PutParameter\<close> is called with
  \<open>Overwrite\<close> false.\<close>

record 's ssm_api =
  sa_NewSession :: "string \<Rightarrow> go_err option"
  sa_GetParameter :: "'s \<Rightarrow> string \<Rightarrow> go_err + string option"
  sa_PutParameter :: "string \<Rightarrow> string \<Rightarrow> 's \<Rightarrow> go_err option \<times> 's"
  sa_DeleteParameter :: "string \<Rightarrow> 's \<Rightarrow> go_err option \<times> 's"

record aws_manager =
  am_region :: string
  am_basePath :: string

definition am_Setup :: "'s ssm_api \<Rightarrow> aws_manager \<Rightarrow> go_err option" where
  "am_Setup A a = map_option (GoWrap ''unable to initialize AWS SSM client: '') (sa_NewSession A (am_region a))"

definition am_Factory :: "'s ssm_api \<Rightarrow> sm_config \<Rightarrow> go_err + aws_manager" where
  "am_Factory A config =
     (if cf_Name config = '''' then Inl (GoErr ''no node name specified for AWS SSM secrets manager'')
      else if extra_nil (cf_Extra config ''region'') \<or> extra_nil (cf_Extra config ''ssm-parameter-path'')
        then Inl (GoErr ''required extra map containing 'region' and 'ssm-parameter-path' not found for aws-ssm'')
      else let a = \<lparr>am_region = fmt_v (cf_Extra config ''region''),
                    am_basePath = fmt_s (cf_Extra config ''ssm-parameter-path'') @ ''/'' @ cf_Name config\<rparr>
           in case am_Setup A a of Some err \<Rightarrow> Inl err | None \<Rightarrow> Inr a)"

definition am_constructSecretPath :: "aws_manager \<Rightarrow> string \<Rightarrow> string" where
  "am_constructSecretPath a name = am_basePath a @ ''/'' @ name"

definition am_GetSecret :: "'s ssm_api \<Rightarrow> aws_manager \<times> 's \<Rightarrow> string \<Rightarrow> go_err + bytes" where
  "am_GetSecret A st name =
     (case sa_GetParameter A (snd st) (am_constructSecretPath (fst st) name) of
        Inr (Some value) \<Rightarrow> Inr (text_bytes value)
      | _ \<Rightarrow> Inl ErrSecretNotFound)"

definition am_SetSecret ::
    "'s ssm_api \<Rightarrow> string \<Rightarrow> bytes \<Rightarrow> aws_manager \<times> 's \<Rightarrow> go_err option \<times> (aws_manager \<times> 's)" where
  "am_SetSecret A name v st =
     (case sa_PutParameter A (am_constructSecretPath (fst st) name) (bytes_text v) (snd st) of
        (Some err, s') \<Rightarrow> (Some (GoWrap ''unable to store secret, '' err), (fst st, s'))
      | (None, s') \<Rightarrow> (None, (fst st, s')))"

definition am_HasSecret :: "'s ssm_api \<Rightarrow> aws_manager \<times> 's \<Rightarrow> string \<Rightarrow> go_err + bool" where
  "am_HasSecret A st name = no_err (am_GetSecret A st name)"

definition am_RemoveSecret :: "'s ssm_api \<Rightarrow> string \<Rightarrow> aws_manager \<times> 's \<Rightarrow> go_err option \<times> (aws_manager \<times> 's)" where
  "am_RemoveSecret A name st =
     (case am_GetSecret A st name of
        Inl err \<Rightarrow> (Some err, st)
      | Inr _ \<Rightarrow>
         (case sa_DeleteParameter A (am_constructSecretPath (fst st) name) (snd st) of
            (Some err, s') \<Rightarrow> (Some (GoWrap ''unable to delete secret, '' err), (fst st, s'))
          | (None, s') \<Rightarrow> (None, (fst st, s'))))"

definition aws_sm :: "'s ssm_api \<Rightarrow> (aws_manager \<times> 's) secrets_manager" where
  "aws_sm A = \<lparr>sm_GetSecret = am_GetSecret A, sm_SetSecret = am_SetSecret A,
     sm_HasSecret = am_HasSecret A, sm_RemoveSecret = am_RemoveSecret A\<rparr>"

section \<open>GCP secret manager\<close>

text \<open>\<open>CreateSecret\<close> returns the name of the new secret; \<open>AddSecretVersion\<close> stores the data.\<close>

record 's gcp_api =
  ga_Setenv :: "string \<Rightarrow> bool"
  ga_NewClient :: "go_err option"
  ga_AccessSecretVersion :: "'s \<Rightarrow> string \<Rightarrow> go_err + bytes"
  ga_CreateSecret :: "string \<Rightarrow> string \<Rightarrow> 's \<Rightarrow> (go_err + string) \<times> 's"
  ga_AddSecretVersion :: "string \<Rightarrow> bytes \<Rightarrow> 's \<Rightarrow> go_err option \<times> 's"
  ga_DeleteSecret :: "string \<Rightarrow> 's \<Rightarrow> go_err option \<times> 's"

record gcp_manager =
  gm_projectID :: string
  gm_credFilePath :: string
  gm_nodeName :: string

definition gm_Setup :: "'s gcp_api \<Rightarrow> gcp_manager \<Rightarrow> go_err option" where
  "gm_Setup A gm =
     (if \<not> ga_Setenv A (gm_credFilePath gm) then Some (GoErr ''could not set environment variable'')
      else map_option (GoWrap ''could not initialize new GCP secrets manager client '') (ga_NewClient A))"

definition gm_Factory :: "'s gcp_api \<Rightarrow> sm_config \<Rightarrow> go_err + gcp_manager" where
  "gm_Factory A config =
     (if cf_Extra config ''project-id'' = None then Inl (GoErr ''no project-id variable specified'')
      else if cf_Extra config ''gcp-ssm-cred'' = None then Inl (GoErr ''no gcp-ssm-cred variable specified'')
      else if cf_Name config = '''' \<or> cf_Extra config ''project-id'' = Some (XStr '''') \<or>
              cf_Extra config ''gcp-ssm-cred'' = Some (XStr '''')
        then Inl (GoErr ''name, project-id or gcp-ssm-cred, can not be an empty string'')
      else let gm = \<lparr>gm_projectID = fmt_s (cf_Extra config ''project-id''),
                     gm_credFilePath = fmt_s (cf_Extra config ''gcp-ssm-cred''), gm_nodeName = cf_Name config\<rparr>
           in case gm_Setup A gm of Some err \<Rightarrow> Inl err | None \<Rightarrow> Inr gm)"

definition getSecretID :: "gcp_manager \<Rightarrow> string \<Rightarrow> string" where
  "getSecretID gm secretName = gm_nodeName gm @ ''_'' @ secretName"

definition getFullyQualifiedSecretName :: "gcp_manager \<Rightarrow> string \<Rightarrow> string" where
  "getFullyQualifiedSecretName gm secretName =
     ''projects/'' @ gm_projectID gm @ ''/secrets/'' @ getSecretID gm secretName @ ''/versions/1''"

definition gm_GetSecret :: "'s gcp_api \<Rightarrow> gcp_manager \<times> 's \<Rightarrow> string \<Rightarrow> go_err + bytes" where
  "gm_GetSecret A st name =
     (case ga_AccessSecretVersion A (snd st) (getFullyQualifiedSecretName (fst st) name) of
        Inl err \<Rightarrow> Inl (GoWrap ''could not fetch secret from GCP secret manager: '' err)
      | Inr b \<Rightarrow> Inr b)"

definition gm_SetSecret ::
    "'s gcp_api \<Rightarrow> string \<Rightarrow> bytes \<Rightarrow> gcp_manager \<times> 's \<Rightarrow> go_err option \<times> (gcp_manager \<times> 's)" where
  "gm_SetSecret A name v st =
     (case ga_CreateSecret A (''projects/'' @ gm_projectID (fst st)) (getSecretID (fst st) name) (snd st) of
        (Inl err, s') \<Rightarrow> (Some (GoWrap ''could not set secret, '' err), (fst st, s'))
      | (Inr secretName, s') \<Rightarrow>
         (case ga_AddSecretVersion A secretName v s' of
            (Some err, s'') \<Rightarrow> (Some (GoWrap ''could not store secret, '' err), (fst st, s''))
          | (None, s'') \<Rightarrow> (None, (fst st, s''))))"

definition gm_HasSecret :: "'s gcp_api \<Rightarrow> gcp_manager \<times> 's \<Rightarrow> string \<Rightarrow> go_err + bool" where
  "gm_HasSecret A st name = no_err (gm_GetSecret A st name)"

definition gm_RemoveSecret :: "'s gcp_api \<Rightarrow> string \<Rightarrow> gcp_manager \<times> 's \<Rightarrow> go_err option \<times> (gcp_manager \<times> 's)" where
  "gm_RemoveSecret A name st =
     (case ga_DeleteSecret A (getFullyQualifiedSecretName (fst st) name) (snd st) of
        (Some err, s') \<Rightarrow> (Some (GoWrap ''could not delete secret from GCP secret manager: '' err), (fst st, s'))
      | (None, s') \<Rightarrow> (None, (fst st, s')))"

definition gcp_sm :: "'s gcp_api \<Rightarrow> (gcp_manager \<times> 's) secrets_manager" where
  "gcp_sm A = \<lparr>sm_GetSecret = gm_GetSecret A, sm_SetSecret = gm_SetSecret A,
     sm_HasSecret = gm_HasSecret A, sm_RemoveSecret = gm_RemoveSecret A\<rparr>"

section \<open>\<open>helper.go\<close>\<close>

definition SetupLocalSecretsManager :: "os_env \<Rightarrow> string \<Rightarrow> fsys \<Rightarrow> (go_err + local_state) \<times> fsys" where
  "SetupLocalSecretsManager e dataDir fs = lm_Factory e [''path'' \<mapsto> XStr dataDir] fs"

datatype cloud_manager = VaultManager vault_manager | AwsManager aws_manager | GcpManager gcp_manager

definition InitCloudSecretsManager ::
    "'s vault_api \<Rightarrow> 't ssm_api \<Rightarrow> 'u gcp_api \<Rightarrow> sm_config \<Rightarrow> go_err + cloud_manager" where
  "InitCloudSecretsManager VA SA GA config =
     (if cf_Type config = HashicorpVault then map_sum id VaultManager (vm_Factory VA config)
      else if cf_Type config = AWSSSM then map_sum id AwsManager (am_Factory SA config)
      else if cf_Type config = GCPSSM then map_sum id GcpManager (gm_Factory GA config)
      else Inl (GoErr ''unsupported secrets manager''))"

text \<open>The slice of a successful \<open>GetSecret\<close> is taken to be non-nil.\<close>

definition isEncrypted :: "'m secrets_manager \<Rightarrow> 'm \<Rightarrow> string \<Rightarrow> go_err + bool" where
  "isEncrypted M m name =
     rbind (sm_HasSecret M m (SecureFlag @ name)) (\<lambda>has.
       if has then rbind (sm_GetSecret M m (SecureFlag @ name)) (\<lambda>_. Inr True)
       else Inr False)"

definition SetEncryptedKey ::
    "aes_lib \<Rightarrow> 'm secrets_manager \<Rightarrow> string \<Rightarrow> string \<Rightarrow> bytes \<Rightarrow> 'm \<Rightarrow> go_err option \<times> 'm" where
  "SetEncryptedKey aes M name secretsPass privKey m =
     (case CFBEncrypt aes privKey secretsPass of
        Inl err \<Rightarrow> (Some err, m)
      | Inr encryptedKey \<Rightarrow>
         (case sm_SetSecret M name (text_bytes encryptedKey) m of
            (Some setErr, m1) \<Rightarrow> (Some setErr, m1)
          | (None, m1) \<Rightarrow> sm_SetSecret M (SecureFlag @ name) (text_bytes SecureTrue) m1))"

definition InitECDSAValidatorKey ::
    "('k, 'p) curve_lib \<Rightarrow> 'm secrets_manager \<Rightarrow> go_err + 'k \<Rightarrow> 'm \<Rightarrow> (go_err + address) \<times> 'm" where
  "InitECDSAValidatorKey C M gen m =
     (case sm_HasSecret M m ValidatorKey of
        Inl err \<Rightarrow> (Inl err, m)
      | Inr True \<Rightarrow> (Inl (GoErr ''secrets has been already initialized''), m)
      | Inr False \<Rightarrow> (case GenerateAndEncodeECDSAPrivateKey C gen of
        Inl err \<Rightarrow> (Inl err, m)
      | Inr (validatorKey, validatorKeyEncoded) \<Rightarrow>
         (case sm_SetSecret M ValidatorKey validatorKeyEncoded m of
            (Some setErr, m1) \<Rightarrow> (Inl setErr, m1)
          | (None, m1) \<Rightarrow> (Inr (PubKeyToAddress C (cv_Public C validatorKey)), m1))))"

definition EncryptECDSAValidatorKey ::
    "('k, 'p) curve_lib \<Rightarrow> aes_lib \<Rightarrow> 'm secrets_manager \<Rightarrow> go_err + 'k \<Rightarrow> string \<Rightarrow> 'm \<Rightarrow> go_err option \<times> 'm" where
  "EncryptECDSAValidatorKey C aes M gen secretsPass m =
     (case rbind (sm_HasSecret M m ValidatorKey) (\<lambda>has. if has then sm_GetSecret M m ValidatorKey
            else map_sum id snd (GenerateAndEncodeECDSAPrivateKey C gen)) of
        Inl err \<Rightarrow> (Some err, m)
      | Inr privKey \<Rightarrow> SetEncryptedKey aes M ValidatorKey secretsPass privKey m)"

definition LoadValidatorAddress :: "('k, 'p) curve_lib \<Rightarrow> 'm secrets_manager \<Rightarrow> 'm \<Rightarrow> go_err + address" where
  "LoadValidatorAddress C M m =
     rbind (sm_HasSecret M m ValidatorKey) (\<lambda>has. if \<not> has then Inr ZeroAddress
      else rbind (sm_GetSecret M m ValidatorKey) (\<lambda>encodedKey.
           rbind (BytesToECDSAPrivateKey C encodedKey) (\<lambda>privateKey.
             Inr (PubKeyToAddress C (cv_Public C privateKey)))))"

definition ReadConsensusKey :: "('k, 'p) curve_lib \<Rightarrow> 'm secrets_manager \<Rightarrow> 'm \<Rightarrow> go_err + 'k" where
  "ReadConsensusKey C M m = rbind (sm_GetSecret M m ValidatorKey) (BytesToECDSAPrivateKey C)"

section \<open>The networking key\<close>

record 'q p2p_keys =
  pk_Generate :: "go_err + 'q"
  pk_Marshal :: "'q \<Rightarrow> go_err + bytes"
  pk_Unmarshal :: "bytes \<Rightarrow> go_err + 'q"
  pk_ID :: "'q \<Rightarrow> go_err + string"

definition GenerateAndEncodeLibp2pKey :: "'q p2p_keys \<Rightarrow> go_err + ('q \<times> bytes)" where
  "GenerateAndEncodeLibp2pKey P =
     rbind (pk_Generate P) (\<lambda>priv. rbind (pk_Marshal P priv) (\<lambda>buf. Inr (priv, text_bytes (hex_EncodeToString buf))))"

definition ParseLibp2pKey :: "'q p2p_keys \<Rightarrow> bytes \<Rightarrow> go_err + 'q" where
  "ParseLibp2pKey P key = rbind (hex_decoded (bytes_text key)) (pk_Unmarshal P)"

definition ReadLibp2pKey :: "'q p2p_keys \<Rightarrow> 'm secrets_manager \<Rightarrow> 'm \<Rightarrow> go_err + 'q" where
  "ReadLibp2pKey P M m = rbind (sm_GetSecret M m NetworkKey) (ParseLibp2pKey P)"

definition InitNetworkingPrivateKey :: "'q p2p_keys \<Rightarrow> 'm secrets_manager \<Rightarrow> 'm \<Rightarrow> (go_err + 'q) \<times> 'm" where
  "InitNetworkingPrivateKey P M m =
     (case sm_HasSecret M m NetworkKey of
        Inl err \<Rightarrow> (Inl err, m)
      | Inr True \<Rightarrow> (Inl (GoErr ''secrets has been already initialized''), m)
      | Inr False \<Rightarrow> (case GenerateAndEncodeLibp2pKey P of
        Inl keyErr \<Rightarrow> (Inl keyErr, m)
      | Inr (libp2pKey, libp2pKeyEncoded) \<Rightarrow>
         (case sm_SetSecret M NetworkKey libp2pKeyEncoded m of
            (Some setErr, m1) \<Rightarrow> (Inl setErr, m1)
          | (None, m1) \<Rightarrow> (Inr libp2pKey, m1))))"

definition EncryptNetworkingPrivateKey ::
    "'q p2p_keys \<Rightarrow> aes_lib \<Rightarrow> 'm secrets_manager \<Rightarrow> string \<Rightarrow> 'm \<Rightarrow> go_err option \<times> 'm" where
  "EncryptNetworkingPrivateKey P aes M secretsPass m =
     (case rbind (sm_HasSecret M m NetworkKey) (\<lambda>has. if has then sm_GetSecret M m NetworkKey
            else map_sum id snd (GenerateAndEncodeLibp2pKey P)) of
        Inl err \<Rightarrow> (Some err, m)
      | Inr privKey \<Rightarrow> SetEncryptedKey aes M NetworkKey secretsPass privKey m)"

definition LoadNodeID :: "'q p2p_keys \<Rightarrow> 'm secrets_manager \<Rightarrow> 'm \<Rightarrow> go_err + string" where
  "LoadNodeID P M m =
     rbind (sm_HasSecret M m NetworkKey) (\<lambda>has. if \<not> has then Inr ''''
      else rbind (sm_GetSecret M m NetworkKey) (\<lambda>encodedKey.
           rbind (ParseLibp2pKey P encodedKey) (pk_ID P)))"

definition setupLibp2pKey :: "'q p2p_keys \<Rightarrow> 'm secrets_manager \<Rightarrow> 'm \<Rightarrow> (go_err + 'q) \<times> 'm" where
  "setupLibp2pKey P M m =
     (case sm_HasSecret M m NetworkKey of
        Inl err \<Rightarrow> (Inl err, m)
      | Inr True \<Rightarrow>
        (case ReadLibp2pKey P M m of
           Inl readErr \<Rightarrow> (Inl (GoWrap ''unable to read networking private key from Secrets Manager, '' readErr), m)
         | Inr networkingKey \<Rightarrow> (Inr networkingKey, m))
      | Inr False \<Rightarrow> (case GenerateAndEncodeLibp2pKey P of
        Inl keyErr \<Rightarrow> (Inl (GoWrap ''unable to generate networking private key for Secrets Manager, '' keyErr), m)
      | Inr (libp2pKey, libp2pKeyEncoded) \<Rightarrow>
         (case sm_SetSecret M NetworkKey libp2pKeyEncoded m of
            (Some setErr, m1) \<Rightarrow> (Inl (GoWrap ''unable to store networking private key to Secrets Manager, '' setErr), m1)
          | (None, m1) \<Rightarrow> (Inr libp2pKey, m1))))"

end
