(* ===== verification/Os_Props.thy ===== *)
theory Os_Props
  imports Os_Files
begin

text \<open>Laws of the file system and of paths that the secrets managers rely on, and what the guards of
  \<open>common.go\<close> really accept.\<close>

section \<open>Paths\<close>

lemma split_on_not_Nil [simp]: "split_on c xs \<noteq> []"
  by (induction xs) (auto split: list.splits)

lemma split_on_append: "split_on c (a @ c # b) = split_on c a @ split_on c b"
  by (induction a) (auto split: list.splits simp: append_eq_Cons_conv)

lemma split_on_plain: "c \<notin> set w \<Longrightarrow> split_on c w = [w]"
  by (induction w) auto

text \<open>An element of a path that \<open>Clean\<close> keeps.\<close>

definition plain :: "string \<Rightarrow> bool" where
  "plain x \<longleftrightarrow> CHR ''/'' \<notin> set x \<and> x \<noteq> '''' \<and> x \<noteq> ''.'' \<and> x \<noteq> ''..''"

lemma take1_append: "p \<noteq> [] \<Longrightarrow> take 1 (p @ q) = take 1 p"
  by (cases p) simp_all

lemma clean_stack_snoc: "p \<noteq> [] \<Longrightarrow> plain x \<Longrightarrow> clean_stack (p @ CHR ''/'' # x) = x # clean_stack p"
  using take1_append [of p "CHR ''/'' # x"]
  by (simp add: clean_stack_def split_on_append split_on_plain plain_def clean_step_def del: take_append)

lemma clean_step_not_Nil: "'''' \<notin> set st \<Longrightarrow> '''' \<notin> set (clean_step r s st)"
  by (auto simp: clean_step_def split: list.splits)

lemma clean_stack_not_Nil: "'''' \<notin> set (clean_stack p)"
proof -
  have "'''' \<notin> set st \<Longrightarrow> '''' \<notin> set (fold (clean_step r) ws st)" for r ws st
    by (induction ws arbitrary: st) (simp_all add: clean_step_not_Nil)
  then show ?thesis by (simp add: clean_stack_def)
qed

lemma join_slash_snoc: "xs \<noteq> [] \<Longrightarrow> join_slash (xs @ [x]) = join_slash xs @ CHR ''/'' # x"
  by (induction xs rule: join_slash.induct) simp_all

lemma join_slash_Nil: "'''' \<notin> set ws \<Longrightarrow> join_slash ws = '''' \<longleftrightarrow> ws = []"
  by (cases ws rule: join_slash.cases) auto

lemma Clean_not_Nil [simp]: "Clean p \<noteq> []"
  by (simp add: Clean_def Let_def)

lemma Clean_snoc:
  assumes "p \<noteq> []" and "plain x"
  shows "Clean (p @ CHR ''/'' # x) = (if clean_stack p = [] then (if take 1 p = ''/'' then CHR ''/'' # x else x)
    else Clean p @ CHR ''/'' # x)"
proof -
  have "take 1 (p @ CHR ''/'' # x) = take 1 p" by (rule take1_append [OF assms(1)])
  moreover have "join_slash (rev (clean_stack p)) \<noteq> ''''" if "clean_stack p \<noteq> []"
    using that clean_stack_not_Nil [of p] join_slash_Nil [of "rev (clean_stack p)"] by simp
  moreover have "x \<noteq> ''''" using assms(2) by (simp add: plain_def)
  ultimately show ?thesis
    using clean_stack_snoc [OF assms] by (simp add: Clean_def Let_def join_slash_snoc)
qed

lemma length_Clean_snoc: "p \<noteq> [] \<Longrightarrow> plain x \<Longrightarrow> length (Clean p) \<le> length (Clean (p @ CHR ''/'' # x))"
proof -
  assume a: "p \<noteq> []" "plain x"
  then have "length x \<ge> 1" by (cases x) (simp_all add: plain_def)
  then show ?thesis using Clean_snoc [OF a] by (auto simp: Clean_def Let_def)
qed

lemma Join_two: "p \<noteq> '''' \<Longrightarrow> Join [p, a] = Clean (p @ CHR ''/'' # a)"
  by (simp add: Join_def)

lemma Join_three:
  assumes "p \<noteq> ''''" and "plain a" and "plain b"
  shows "Join [p, a, b] = Join [p, a] @ CHR ''/'' # b"
proof -
  have "Join [p, a, b] = Clean ((p @ CHR ''/'' # a) @ CHR ''/'' # b)" using assms(1) by (simp add: Join_def)
  also have "\<dots> = Clean (p @ CHR ''/'' # a) @ CHR ''/'' # b"
    using assms by (subst Clean_snoc) (simp_all add: clean_stack_snoc)
  finally show ?thesis using assms(1) by (simp add: Join_two)
qed

lemma parent_dir_snoc: "X \<noteq> [] \<Longrightarrow> CHR ''/'' \<notin> set b \<Longrightarrow> parent_dir (X @ CHR ''/'' # b) = X"
proof -
  assume X: "X \<noteq> []" and b: "CHR ''/'' \<notin> set b"
  have "dropWhile (\<lambda>c. c \<noteq> CHR ''/'') (rev b @ CHR ''/'' # rev X) = CHR ''/'' # rev X"
    using b by (subst dropWhile_append3) (auto simp: dropWhile_append)
  then show ?thesis using X by (simp add: parent_dir_def Let_def)
qed

section \<open>Directories\<close>

text \<open>An environment that refuses nothing and runs as the owner of the files it makes.\<close>

definition calm :: "os_env \<Rightarrow> bool" where
  "calm e \<longleftrightarrow> (\<forall>p. os_stat_err e p = None \<and> os_abs_err e p = None \<and> os_read_err e p = None \<and>
     os_write_err e p = None \<and> os_mkdir_err e p = None \<and> os_remove_err e p = None) \<and>
     (\<exists>gid. os_current_user e = Some (fst (os_owner e), gid))"

lemma calmD:
  "calm e \<Longrightarrow> os_stat_err e p = None" "calm e \<Longrightarrow> os_abs_err e p = None" "calm e \<Longrightarrow> os_read_err e p = None"
  "calm e \<Longrightarrow> os_write_err e p = None" "calm e \<Longrightarrow> os_mkdir_err e p = None" "calm e \<Longrightarrow> os_remove_err e p = None"
  by (simp_all add: calm_def)

definition own_dirs :: "os_env \<Rightarrow> fsys \<Rightarrow> bool" where
  "own_dirs e fs \<longleftrightarrow> (\<forall>p i. fs p = Some i \<longrightarrow> IsDir i \<and> fi_Uid i = fst (os_owner e))"

lemma own_dirs_empty: "own_dirs e Map.empty"
  by (simp add: own_dirs_def)

lemma verify_own:
  "calm e \<Longrightarrow> fi_Uid i = fst (os_owner e) \<Longrightarrow> verifyFileOwnerAndPermissions e p (Some i) perms = None"
  by (auto simp: calm_def verifyFileOwnerAndPermissions_def)

lemma ancestors_length: "d \<in> set (ancestors p) \<Longrightarrow> length d \<le> length p"
  by (auto simp: ancestors_def)

lemma self_ancestor: "p \<noteq> '''' \<Longrightarrow> p \<in> set (ancestors p)"
  by (auto simp: ancestors_def image_iff intro!: bexI [of _ "length p"])

lemma mkdirs_fold:
  fixes mk :: file_info
  assumes "own_dirs e fs" and "IsDir mk" and "fi_Uid mk = fst (os_owner e)"
  defines "step \<equiv> \<lambda>d fs. if fs d = None then fs(d \<mapsto> mk) else fs"
  shows "own_dirs e (fold step ds fs)"
    and "dom (fold step ds fs) = set ds \<union> dom fs"
proof -
  show "own_dirs e (fold step ds fs)" using assms(1)
  proof (induction ds arbitrary: fs)
    case (Cons d ds)
    have "own_dirs e (step d fs)" using Cons.prems assms(2,3) by (auto simp: step_def own_dirs_def)
    then show ?case using Cons.IH by simp
  qed simp
  show "dom (fold step ds fs) = set ds \<union> dom fs"
  proof (induction ds arbitrary: fs)
    case (Cons d ds)
    have "dom (step d fs) = insert d (dom fs)" by (auto simp: step_def)
    then show ?case using Cons.IH by simp
  qed simp
qed

lemma CreateDirSafe_own:
  assumes "calm e" and "own_dirs e fs" and "p \<noteq> ''''"
  obtains fs' where "CreateDirSafe e p perms fs = (None, fs')" "own_dirs e fs'" "p \<in> dom fs'"
    "dom fs' \<subseteq> set (ancestors p) \<union> dom fs" "dom fs \<subseteq> dom fs'"
proof (cases "fs p")
  case None
  let ?mk = "\<lparr>fi_Kind = Directory, fi_Uid = fst (os_owner e), fi_Gid = snd (os_owner e), fi_Perm = os_umask e perms\<rparr>"
  let ?fs = "fold (\<lambda>d fs. if fs d = None then fs(d \<mapsto> ?mk) else fs) (ancestors p) fs"
  have mk: "IsDir ?mk" "fi_Uid ?mk = fst (os_owner e)" by (simp_all add: IsDir_def)
  note inv = mkdirs_fold [OF assms(2) mk, of "ancestors p"]
  have "\<not> (\<exists>d \<in> set (ancestors p). \<exists>i \<in> set_option (fs d). \<not> IsDir i)"
    using assms(2) by (auto simp: own_dirs_def)
  then have "CreateDirSafe e p perms fs = (None, ?fs)"
    using None assms(3) by (simp add: CreateDirSafe_def os_Stat_def DirectoryExists_def os_MkdirAll_def calmD [OF assms(1)])
  then show thesis using that [of ?fs] inv self_ancestor [OF assms(3)] by auto
next
  case (Some i)
  then have i: "IsDir i" "fi_Uid i = fst (os_owner e)" using assms(2) by (auto simp: own_dirs_def)
  have "CreateDirSafe e p perms fs = (None, fs)"
    using Some i assms(3) by (simp add: CreateDirSafe_def os_Stat_def DirectoryExists_def stat_info_def
        verify_own [OF assms(1)] calmD [OF assms(1)])
  then show thesis using that [of fs] assms(2) Some by auto
qed

lemma SetupDataDir_own:
  assumes "calm e" and "p \<noteq> ''''" and "plain a" and "plain b"
  obtains fs' where "SetupDataDir e p [a, b] perms Map.empty = (None, fs')" "own_dirs e fs'"
    "Join [p, a] \<in> dom fs'" "Join [p, b] \<in> dom fs'"
    "dom fs' \<subseteq> set (ancestors p) \<union> set (ancestors (Join [p, a])) \<union> set (ancestors (Join [p, b]))"
proof -
  obtain f1 where f1: "CreateDirSafe e p perms Map.empty = (None, f1)" "own_dirs e f1" "dom f1 \<subseteq> set (ancestors p)"
    by (rule CreateDirSafe_own [OF assms(1) own_dirs_empty assms(2), of perms]) auto
  have ne: "Join [p, a] \<noteq> ''''" "Join [p, b] \<noteq> ''''" using assms(2) by (simp_all add: Join_two)
  obtain f2 where f2: "CreateDirSafe e (Join [p, a]) perms f1 = (None, f2)" "own_dirs e f2" "Join [p, a] \<in> dom f2"
      "dom f2 \<subseteq> set (ancestors (Join [p, a])) \<union> dom f1"
    by (rule CreateDirSafe_own [OF assms(1) f1(2) ne(1), of perms])
  obtain f3 where f3: "CreateDirSafe e (Join [p, b]) perms f2 = (None, f3)" "own_dirs e f3" "Join [p, b] \<in> dom f3"
      "dom f3 \<subseteq> set (ancestors (Join [p, b])) \<union> dom f2" "dom f2 \<subseteq> dom f3"
    by (rule CreateDirSafe_own [OF assms(1) f2(2) ne(2), of perms])
  have "SetupDataDir e p [a, b] perms Map.empty = (None, f3)"
    using f1(1) f2(1) f3(1) by (simp add: SetupDataDir_def)
  then show thesis using that [of f3] f1(3) f2(3,4) f3 by blast
qed

section \<open>Properties\<close>

text \<open>A directory is never accepted from another user: its \<open>Mode\<close> carries the directory bit, which the
  permissions asked for lack, so even a directory of the same group with exactly the right permissions is
  refused.  A file in the same position is accepted.\<close>

theorem shared_directory_refused:
  assumes "os_current_user e = Some (uid, gid)" and "fi_Uid i \<noteq> uid" and "perms < 2 ^ 31"
  shows "IsDir i \<Longrightarrow> verifyFileOwnerAndPermissions e path (Some i) perms \<noteq> None"
    and "\<not> IsDir i \<Longrightarrow> fi_Gid i = gid \<Longrightarrow> fi_Perm i = perms \<Longrightarrow>
      verifyFileOwnerAndPermissions e path (Some i) perms = None"
  using assms by (auto simp: verifyFileOwnerAndPermissions_def Mode_def)

end
