(* ===== verification/Edge_Proof.thy ===== *)
theory Edge_Proof
  imports Crypto_Props
begin

text \<open>
  The package \<open>core/application/proof\<close>: signed edge responses (\<open>edge_response.go\<close>), their EIP-155 signer
  (\<open>app_signer.go\<close>) and the hash proof of work (\<open>cpu.go\<close>).  RLP, the curve and Keccak are the
  parameter records of \<open>Telegrams\<close> and \<open>Crypto\<close>; \<open>string_lib\<close> adds the string values of RLP.
\<close>

section \<open>Edge responses\<close>

record edge_response =
  er_RespString :: string
  er_V :: "int option"
  er_R :: "int option"
  er_S :: "int option"
  er_From :: address
  er_Hash :: hash

record 'v string_lib =
  sl_NewString :: "string \<Rightarrow> 'v"
  sl_GetString :: "'v \<Rightarrow> go_err + string"

text \<open>\<open>SetBits(x.Bits())\<close> copies the absolute value.\<close>

definition er_Copy :: "edge_response \<Rightarrow> edge_response" where
  "er_Copy r = r\<lparr>er_R := map_option abs (er_R r), er_S := map_option abs (er_S r)\<rparr>"

definition er_MarshalRLPWith :: "'v rlp_lib \<Rightarrow> 'v string_lib \<Rightarrow> edge_response \<Rightarrow> 'v" where
  "er_MarshalRLPWith L T r = rl_NewArray L
     [if length (er_RespString r) > 0 then sl_NewString T (er_RespString r) else rl_NewNull L,
      rl_NewBigInt L (er_V r), rl_NewBigInt L (er_R r), rl_NewBigInt L (er_S r),
      rl_NewBytes L (er_From r), rl_NewBytes L (er_Hash r)]"

definition er_MarshalRLPTo :: "'v rlp_lib \<Rightarrow> 'v string_lib \<Rightarrow> edge_response \<Rightarrow> bytes \<Rightarrow> bytes" where
  "er_MarshalRLPTo L T r dst = dst @ rl_MarshalTo L (er_MarshalRLPWith L T r)"

definition er_MarshalRLP :: "'v rlp_lib \<Rightarrow> 'v string_lib \<Rightarrow> edge_response \<Rightarrow> bytes" where
  "er_MarshalRLP L T r = er_MarshalRLPTo L T r []"

definition er_unmarshalRLPFrom :: "'v rlp_lib \<Rightarrow> 'v string_lib \<Rightarrow> edge_response \<Rightarrow> 'v \<Rightarrow> go_err + edge_response" where
  "er_unmarshalRLPFrom L T r v =
     rbind (rl_GetElems L v) (\<lambda>elems.
       if length elems < 4 then Inl (GoErr ''incorrect number of elements to decode rtcMsg'')
       else
         rbind (rbind (slice_at elems 0) (sl_GetString T)) (\<lambda>s.
         rbind (rbind (slice_at elems 1) (rl_GetBigInt L)) (\<lambda>V.
         rbind (rbind (slice_at elems 2) (rl_GetBigInt L)) (\<lambda>R.
         rbind (rbind (slice_at elems 3) (rl_GetBigInt L)) (\<lambda>S.
         let r1 = r\<lparr>er_RespString := s, er_V := Some V, er_R := Some R, er_S := Some S, er_From := ZeroAddress\<rparr> in
         if length elems \<ge> 5 then
           rbind (sized_bytes_at L v 4 AddressLength) (\<lambda>a.
           rbind (sized_bytes_at L v 5 HashLength) (\<lambda>h.
             let r2 = (case a of Some vv \<Rightarrow> r1\<lparr>er_From := BytesToAddress vv\<rparr> | None \<Rightarrow> r1)
             in Inr (case h of Some vv \<Rightarrow> r2\<lparr>er_Hash := BytesToHash vv\<rparr> | None \<Rightarrow> r2)))
         else Inr r1)))))"

definition er_UnmarshalRLP :: "'v rlp_lib \<Rightarrow> 'v string_lib \<Rightarrow> edge_response \<Rightarrow> bytes \<Rightarrow> go_err + edge_response" where
  "er_UnmarshalRLP L T r input = UnmarshalRlp L (er_unmarshalRLPFrom L T r) input"

section \<open>The signer\<close>

record eip155_signer =
  sg_networkID :: u64
  sg_isHomestead :: bool

definition NewEIP155Signer :: "forks_in_time \<Rightarrow> u64 \<Rightarrow> eip155_signer" where
  "NewEIP155Signer forks networkID = \<lparr>sg_networkID = networkID, sg_isHomestead = ft_Homestead forks\<rparr>"

definition calcResponseHash :: "'v rlp_lib \<Rightarrow> 'v string_lib \<Rightarrow> edge_response \<Rightarrow> u64 \<Rightarrow> hash" where
  "calcResponseHash L T resp chainID = BytesToHash (rl_Hash L (rl_NewArray L
     ((if length (er_RespString resp) < 1 then rl_NewNull L else sl_NewString T (er_RespString resp)) #
      (if chainID \<noteq> 0 then [rl_NewUint L chainID, rl_NewUint L 0, rl_NewUint L 0] else []))))"

definition sg_Hash :: "'v rlp_lib \<Rightarrow> 'v string_lib \<Rightarrow> eip155_signer \<Rightarrow> edge_response \<Rightarrow> hash" where
  "sg_Hash L T e resp = calcResponseHash L T resp (sg_networkID e)"

text \<open>\<open>int64(e.networkID)\<close> reads the network identifier as a signed number.\<close>

definition CalculateV :: "eip155_signer \<Rightarrow> byte \<Rightarrow> bytes" where
  "CalculateV e parity = big_Bytes (uint parity + 35 + 2 * sint (sg_networkID e))"

definition encodeSignature :: "int option \<Rightarrow> int option \<Rightarrow> int \<Rightarrow> bool \<Rightarrow> go_err + bytes" where
  "encodeSignature R S V isHomestead =
     (if \<not> ValidateSignatureValues V R S isHomestead then Inl (GoErr ''invalid rtcMsg signature'')
      else rbind (pad_left 32 (big_Bytes (the R))) (\<lambda>r.
           rbind (pad_left 32 (big_Bytes (the S))) (\<lambda>s. Inr (r @ s @ [word_of_int V]))))"

definition Provider ::
    "('k, 'p) curve_lib \<Rightarrow> 'v rlp_lib \<Rightarrow> 'v string_lib \<Rightarrow> eip155_signer \<Rightarrow> edge_response \<Rightarrow> go_err + address" where
  "Provider C L T e resp =
     (let bigV = (case er_V resp of None \<Rightarrow> 0 | Some V \<Rightarrow> big_SetBytes (big_Bytes V));
          bigV' = bigV - sint (sg_networkID e) * 2 - 35
      in rbind (encodeSignature (er_R resp) (er_S resp) bigV' (sg_isHomestead e)) (\<lambda>sig.
         rbind (Ecrecover C (sg_Hash L T e resp) sig) (\<lambda>pub. Inr (pub_address C pub))))"

definition SignEdgeResp ::
    "('k, 'p) curve_lib \<Rightarrow> 'v rlp_lib \<Rightarrow> 'v string_lib \<Rightarrow> eip155_signer \<Rightarrow> edge_response \<Rightarrow> 'k \<Rightarrow>
      go_err + edge_response" where
  "SignEdgeResp C L T e resp0 privateKey =
     (let resp = er_Copy resp0; h = sg_Hash L T e resp in
      rbind (ecdsa_Sign C privateKey h) (\<lambda>sig.
        if length sig \<ge> 65
        then Inr (resp\<lparr>er_R := Some (big_SetBytes (take 32 sig)), er_S := Some (big_SetBytes (take 32 (drop 32 sig))),
               er_V := Some (big_SetBytes (CalculateV e (sig ! 64)))\<rparr>)
        else Inl (GoPanic ''slice bounds out of range'')))"

section \<open>The hash proof\<close>

definition DefaultHashProofTarget :: string where "DefaultHashProofTarget = ''0000''"

definition proof_text :: "('k, 'p) curve_lib \<Rightarrow> string \<Rightarrow> bytes \<Rightarrow> string" where
  "proof_text C seed data = hex_EncodeToString (Keccak256Hash C [text_bytes seed @ data])"

text \<open>The slice \<open>hashStr[0:len(target)]\<close>.\<close>

definition target_prefix :: "string \<Rightarrow> string \<Rightarrow> go_err + string" where
  "target_prefix hashStr target = (if length target \<le> length hashStr then Inr (take (length target) hashStr)
     else Inl (GoPanic ''slice bounds out of range''))"

text \<open>The tries of the loop before the deadline: each is an outcome of \<open>rand.Read\<close>; the end of the list
  is the deadline, which returns empty values and no error.\<close>

fun generateHash ::
    "('k, 'p) curve_lib \<Rightarrow> string \<Rightarrow> string \<Rightarrow> (go_err + bytes) list \<Rightarrow> go_err + (string \<times> bytes)" where
  "generateHash C seed target [] = Inr ('''', [])"
| "generateHash C seed target (Inl err # tries) = Inl err"
| "generateHash C seed target (Inr hash # tries) =
     rbind (target_prefix (proof_text C seed hash) target) (\<lambda>p.
       if p = target then Inr (proof_text C seed hash, hash) else generateHash C seed target tries)"

definition ProofByCalcHash ::
    "('k, 'p) curve_lib \<Rightarrow> string \<Rightarrow> string \<Rightarrow> (go_err + bytes) list \<Rightarrow> go_err + (hash \<times> bytes)" where
  "ProofByCalcHash C seed target tries =
     rbind (generateHash C seed target tries) (\<lambda>(hash, data). Inr (StringToHash (''0x'' @ hash), data))"

definition ValidateHash :: "('k, 'p) curve_lib \<Rightarrow> string \<Rightarrow> string \<Rightarrow> bytes \<Rightarrow> go_err + bool" where
  "ValidateHash C seed target data =
     rbind (target_prefix (proof_text C seed data) target) (\<lambda>p. Inr (p = target))"

section \<open>What the libraries promise\<close>

text \<open>Keccak gives 32 bytes; a compact signature is the recovery byte 27 or 28 and two 32-byte numbers, the
  second in the lower half of the group order; recovery finds the public key of the signer; strings
  read back.\<close>

definition curve_laws :: "('k, 'p) curve_lib \<Rightarrow> bool" where
  "curve_laws C \<longleftrightarrow> (\<forall>b. length (cv_Keccak C b) = 32) \<and>
     (\<forall>k h sig. cv_SignCompact C k h = Inr sig \<longrightarrow> (\<exists>hd r s. sig = hd # r @ s \<and> (hd = 27 \<or> hd = 28) \<and>
        length r = 32 \<and> length s = 32 \<and> 1 \<le> big_SetBytes r \<and> big_SetBytes r < secp256k1N \<and>
        1 \<le> big_SetBytes s \<and> big_SetBytes s \<le> secp256k1NHalf) \<and>
        cv_RecoverCompact C sig h = Inr (cv_Public C k))"

definition string_laws :: "'v rlp_lib \<Rightarrow> 'v string_lib \<Rightarrow> bool" where
  "string_laws L T \<longleftrightarrow> (\<forall>s. s \<noteq> '''' \<longrightarrow> sl_GetString T (sl_NewString T s) = Inr s) \<and>
     sl_GetString T (rl_NewNull L) = Inr ''''"

section \<open>Signing and recovering\<close>

lemma curve_sigE:
  assumes "curve_laws C" and "cv_SignCompact C k h = Inr sig"
  obtains hd r s where "sig = hd # r @ s" "hd = 27 \<or> hd = 28" "length r = 32" "length s = 32"
    "1 \<le> big_SetBytes r" "big_SetBytes r < secp256k1N" "1 \<le> big_SetBytes s" "big_SetBytes s \<le> secp256k1NHalf"
    "cv_RecoverCompact C sig h = Inr (cv_Public C k)"
  using assms unfolding curve_laws_def by blast

lemma low_half: "secp256k1NHalf < secp256k1N"
  by (simp add: secp256k1NHalf_def secp256k1N_def)

lemma signed_valid:
  assumes "1 \<le> r" "r < secp256k1N" "1 \<le> s" "s \<le> secp256k1NHalf" "p = 0 \<or> p = 1"
  shows "ValidateSignatureValues p (Some r) (Some s) hs"
  using assms low_half by (auto simp: ValidateSignatureValues_def)

lemma encode_signed:
  assumes "length r = 32" "length s = 32" "1 \<le> big_SetBytes r" "big_SetBytes r < secp256k1N"
    "1 \<le> big_SetBytes s" "big_SetBytes s \<le> secp256k1NHalf" "p = 0 \<or> p = 1"
  shows "encodeSignature (Some (big_SetBytes r)) (Some (big_SetBytes s)) p hs = Inr (r @ s @ [word_of_int p])"
  using signed_valid [OF assms(3-7)] assms(1,2) by (simp add: encodeSignature_def pad_Bytes_SetBytes)

lemma Sign_shape:
  assumes "curve_laws C" and "ecdsa_Sign C k h = Inr sig"
  obtains r s p where "sig = r @ s @ [word_of_int p]" "p = 0 \<or> p = 1" "length r = 32" "length s = 32"
    "1 \<le> big_SetBytes r" "big_SetBytes r < secp256k1N" "1 \<le> big_SetBytes s" "big_SetBytes s \<le> secp256k1NHalf"
    "Ecrecover C h sig = Inr (MarshalPublicKey C (cv_Public C k))"
proof -
  obtain c where c: "cv_SignCompact C k h = Inr c"
    using assms(2) by (cases "cv_SignCompact C k h") (auto simp: ecdsa_Sign_def)
  obtain hd r s where hrs: "c = hd # r @ s" "hd = 27 \<or> hd = 28" "length r = 32" "length s = 32"
    "1 \<le> big_SetBytes r" "big_SetBytes r < secp256k1N" "1 \<le> big_SetBytes s" "big_SetBytes s \<le> secp256k1NHalf"
    "cv_RecoverCompact C c h = Inr (cv_Public C k)"
    by (rule curve_sigE [OF assms(1) c])
  define p :: int where "p = (if hd = 28 then 1 else 0)"
  have p: "p = 0 \<or> p = 1" by (simp add: p_def)
  have sig: "sig = r @ s @ [word_of_int p]" using assms(2) c hrs(1) by (simp add: ecdsa_Sign_def p_def split: if_splits)
  have "(if (word_of_int p :: byte) = 1 then 28 else 27) = hd" using hrs(2) by (auto simp: p_def)
  then have "Ecrecover C h sig = Inr (MarshalPublicKey C (cv_Public C k))"
    using hrs(1,3,4,9) by (simp add: Ecrecover_def RecoverPubkey_def sig nth_append)
  then show thesis using that sig p hrs(3-8) by blast
qed

lemma sg_Hash_cong: "er_RespString r = er_RespString r' \<Longrightarrow> sg_Hash L T e r = sg_Hash L T e r'"
  by (simp add: sg_Hash_def calcResponseHash_def)

lemma SignEdgeResp_shape:
  assumes "curve_laws C" and "SignEdgeResp C L T e resp k = Inr resp'"
  obtains r s p where "p = 0 \<or> p = 1" "length r = 32" "length s = 32"
    "1 \<le> big_SetBytes r" "big_SetBytes r < secp256k1N" "1 \<le> big_SetBytes s" "big_SetBytes s \<le> secp256k1NHalf"
    "er_R resp' = Some (big_SetBytes r)" "er_S resp' = Some (big_SetBytes s)"
    "er_V resp' = Some (abs (p + 35 + 2 * sint (sg_networkID e)))" "er_RespString resp' = er_RespString resp"
    "Ecrecover C (sg_Hash L T e resp') (r @ s @ [word_of_int p]) = Inr (MarshalPublicKey C (cv_Public C k))"
proof -
  obtain sig where sig: "ecdsa_Sign C k (sg_Hash L T e (er_Copy resp)) = Inr sig"
    using assms(2) by (cases "ecdsa_Sign C k (sg_Hash L T e (er_Copy resp))") (auto simp: SignEdgeResp_def Let_def)
  obtain r s p where rs: "sig = r @ s @ [word_of_int p]" "p = 0 \<or> p = 1" "length r = 32" "length s = 32"
    "1 \<le> big_SetBytes r" "big_SetBytes r < secp256k1N" "1 \<le> big_SetBytes s" "big_SetBytes s \<le> secp256k1NHalf"
    "Ecrecover C (sg_Hash L T e (er_Copy resp)) sig = Inr (MarshalPublicKey C (cv_Public C k))"
    by (rule Sign_shape [OF assms(1) sig])
  have u: "uint (word_of_int p :: byte) = p" using rs(2) by auto
  have resp': "resp' = (er_Copy resp)\<lparr>er_R := Some (big_SetBytes r), er_S := Some (big_SetBytes s),
      er_V := Some (abs (p + 35 + 2 * sint (sg_networkID e)))\<rparr>"
    using assms(2) sig rs(3,4) by (simp add: SignEdgeResp_def Let_def rs(1) nth_append CalculateV_def u)
  have h: "sg_Hash L T e resp' = sg_Hash L T e (er_Copy resp)" by (rule sg_Hash_cong) (simp add: resp')
  have "Ecrecover C (sg_Hash L T e resp') (r @ s @ [word_of_int p]) = Inr (MarshalPublicKey C (cv_Public C k))"
    using rs(9) by (simp only: h rs(1))
  then show thesis
    by (rule that [OF rs(2-8), rotated 4]) (simp_all add: resp' er_Copy_def)
qed

lemma Provider_signed:
  assumes "curve_laws C" and "SignEdgeResp C L T e resp k = Inr resp'"
  defines "n \<equiv> sint (sg_networkID e)"
  shows "0 \<le> n \<Longrightarrow> Provider C L T e resp' = Inr (PubKeyToAddress C (cv_Public C k))"
    and "n < -18 \<Longrightarrow> Provider C L T e resp' = Inl (GoErr ''invalid rtcMsg signature'')"
proof -
  obtain r s p where sg: "p = 0 \<or> p = 1" "length r = 32" "length s = 32"
    "1 \<le> big_SetBytes r" "big_SetBytes r < secp256k1N" "1 \<le> big_SetBytes s" "big_SetBytes s \<le> secp256k1NHalf"
    "er_R resp' = Some (big_SetBytes r)" "er_S resp' = Some (big_SetBytes s)"
    "er_V resp' = Some (abs (p + 35 + 2 * n))" "er_RespString resp' = er_RespString resp"
    "Ecrecover C (sg_Hash L T e resp') (r @ s @ [word_of_int p]) = Inr (MarshalPublicKey C (cv_Public C k))"
    unfolding n_def by (rule SignEdgeResp_shape [OF assms(1,2)])
  have P: "Provider C L T e resp' =
      rbind (encodeSignature (Some (big_SetBytes r)) (Some (big_SetBytes s)) (abs (p + 35 + 2 * n) - n * 2 - 35) (sg_isHomestead e))
        (\<lambda>sig. rbind (Ecrecover C (sg_Hash L T e resp') sig) (\<lambda>pub. Inr (pub_address C pub)))"
    by (simp add: Provider_def sg(8-10) n_def)
  show "Provider C L T e resp' = Inr (PubKeyToAddress C (cv_Public C k))" if n: "0 \<le> n"
  proof -
    have "abs (p + 35 + 2 * n) - n * 2 - 35 = p" using n sg(1) by auto
    then show ?thesis unfolding P using encode_signed [OF sg(2-7,1)] sg(12) by (simp add: PubKeyToAddress_def)
  qed
  show "Provider C L T e resp' = Inl (GoErr ''invalid rtcMsg signature'')" if n: "n < -18"
  proof -
    have "1 < abs (p + 35 + 2 * n) - n * 2 - 35" using n sg(1) by auto
    then show ?thesis unfolding P by (simp add: encodeSignature_def ValidateSignatureValues_def)
  qed
qed

lemma SignEdgeResp_keeps:
  assumes "SignEdgeResp C L T e resp k = Inr resp'"
  shows "er_From resp' = er_From resp" and "er_Hash resp' = er_Hash resp"
  using assms by (cases "ecdsa_Sign C k (sg_Hash L T e (er_Copy resp))"; auto simp: SignEdgeResp_def Let_def er_Copy_def split: if_splits)+

lemma er_round_trip:
  assumes "rlp_laws L" and "string_laws L T" and "nat_big (er_V r)" "nat_big (er_R r)" "nat_big (er_S r)"
    and "length (er_From r) = AddressLength" and "length (er_Hash r) = HashLength"
  shows "er_UnmarshalRLP L T r0 (er_MarshalRLP L T r) = Inr r"
proof -
  obtain V R S where v: "er_V r = Some V" "er_R r = Some R" "er_S r = Some S"
    using assms(3-5) by (elim nat_bigE)
  have str: "sl_GetString T (if length (er_RespString r) > 0 then sl_NewString T (er_RespString r) else rl_NewNull L) =
      Inr (er_RespString r)"
    using assms(2) by (cases "er_RespString r") (auto simp: string_laws_def)
  have big: "rl_GetBigInt L (rl_NewBigInt L (er_V r)) = Inr V" "rl_GetBigInt L (rl_NewBigInt L (er_R r)) = Inr R"
    "rl_GetBigInt L (rl_NewBigInt L (er_S r)) = Inr S"
    using get_big [OF assms(1) assms(3)] get_big [OF assms(1) assms(4)] get_big [OF assms(1) assms(5)] v by simp_all
  let ?v = "er_MarshalRLPWith L T r"
  have a: "sized_bytes_at L ?v 4 AddressLength = Inr (Some (er_From r))"
    unfolding er_MarshalRLPWith_def
    using sized_at [OF assms(1), of 4 _ "er_From r" AddressLength] assms(6) by simp
  have h: "sized_bytes_at L ?v 5 HashLength = Inr (Some (er_Hash r))"
    unfolding er_MarshalRLPWith_def
    using sized_at [OF assms(1), of 5 _ "er_Hash r" HashLength] assms(7) by simp
  have "er_unmarshalRLPFrom L T r0 ?v = Inr r"
    unfolding er_unmarshalRLPFrom_def
    using a h str big assms(6,7) v
    by (simp add: er_MarshalRLPWith_def law_elems [OF assms(1)] Let_def BytesToAddress_def BytesToHash_def)
  then show ?thesis
    by (simp add: er_UnmarshalRLP_def er_MarshalRLP_def er_MarshalRLPTo_def UnmarshalRlp_def law_parse [OF assms(1)])
qed

section \<open>Proofs of work\<close>

lemma length_hex_text: "curve_laws C \<Longrightarrow> length (proof_text C seed d) = 64"
  by (simp add: proof_text_def Keccak256Hash_def curve_laws_def)

definition proof_ok :: "('k, 'p) curve_lib \<Rightarrow> string \<Rightarrow> string \<Rightarrow> bytes \<Rightarrow> bool" where
  "proof_ok C seed target d \<longleftrightarrow> take (length target) (proof_text C seed d) = target"

lemma ValidateHash_eq:
  "curve_laws C \<Longrightarrow> length target \<le> 64 \<Longrightarrow> ValidateHash C seed target d = Inr (proof_ok C seed target d)"
  by (simp add: ValidateHash_def target_prefix_def length_hex_text proof_ok_def)

lemma StringToHash_proof_text:
  assumes "curve_laws C"
  shows "StringToHash (''0x'' @ proof_text C seed d) = Keccak256Hash C [text_bytes seed @ d]"
proof -
  have "''0x'' @ proof_text C seed d = EncodeToHex (Keccak256Hash C [text_bytes seed @ d])"
    by (simp add: proof_text_def EncodeToHex_def)
  then show ?thesis
    using assms by (simp only: StringToHash_def StringToBytes_EncodeToHex)
      (simp add: BytesToHash_def HashLength_def Keccak256Hash_def curve_laws_def)
qed

lemma StringToHash_empty: "StringToHash ''0x'' = ZeroHash"
  by (simp add: StringToHash_def StringToBytes_def BytesToHash_def right_aligned_def ZeroHash_def HashLength_def)

lemma generateHash_find:
  assumes "curve_laws C" and "length target \<le> 64"
  shows "generateHash C seed target (map Inr ds @ tries) =
    (case find (proof_ok C seed target) ds of Some d \<Rightarrow> Inr (proof_text C seed d, d)
     | None \<Rightarrow> generateHash C seed target tries)"
  by (induction ds) (use assms in \<open>simp_all add: target_prefix_def length_hex_text proof_ok_def\<close>)

section \<open>An instance of the libraries\<close>

definition one_sig :: bytes where "one_sig = replicate 31 0 @ [1]"

definition toy_curve :: "(unit, unit) curve_lib" where
  "toy_curve = \<lparr>cv_Keccak = (\<lambda>_. replicate 32 0), cv_SignCompact = (\<lambda>_ _. Inr (28 # one_sig @ one_sig)),
     cv_RecoverCompact = (\<lambda>_ _. Inr ()), cv_Marshal = (\<lambda>_. replicate 65 4), cv_Unmarshal = (\<lambda>_. Some ()),
     cv_PrivKeyFromBytes = (\<lambda>_. ()), cv_Serialize = (\<lambda>_. one_sig), cv_Public = (\<lambda>_. ())\<rparr>"

definition tree_text :: "rlp_tree string_lib" where
  "tree_text = \<lparr>sl_NewString = (\<lambda>s. RBytes (map of_char s)),
     sl_GetString = (\<lambda>v. case v of RBytes b \<Rightarrow> Inr (map char_of b) | RArray _ \<Rightarrow> Inl (GoErr ''not a string''))\<rparr>"

lemma one_sig_value: "length one_sig = 32" "big_SetBytes one_sig = 1"
  by (simp_all add: one_sig_def numeral_eq_Suc big_SetBytes_def)

lemma toy_curve_laws: "curve_laws toy_curve"
proof -
  have "(1::int) \<le> secp256k1NHalf" "(1::int) < secp256k1N" by (simp_all add: secp256k1NHalf_def secp256k1N_def)
  then have "\<exists>hd r s. (28::byte) # one_sig @ one_sig = hd # r @ s \<and> (hd = 27 \<or> hd = 28) \<and>
      length r = 32 \<and> length s = 32 \<and> 1 \<le> big_SetBytes r \<and> big_SetBytes r < secp256k1N \<and>
      1 \<le> big_SetBytes s \<and> big_SetBytes s \<le> secp256k1NHalf"
    by (intro exI [of _ "28::byte"] exI [of _ one_sig]) (simp add: one_sig_value)
  then show ?thesis by (auto simp: curve_laws_def toy_curve_def)
qed

lemma toy_proof_text: "proof_text toy_curve seed d = ''0000'' @ concat (replicate 30 ''00'')"
proof -
  have "byte_hex 0 = ''00''" by (simp add: byte_hex_def hex_digit_def)
  moreover have "replicate 32 (0::byte) = 0 # 0 # replicate 30 0" by (simp add: replicate_Suc [symmetric])
  ultimately show ?thesis
    by (simp add: proof_text_def Keccak256Hash_def toy_curve_def hex_EncodeToString_def)
qed

lemma toy_proof_ok: "proof_ok toy_curve seed target d \<longleftrightarrow>
    take (length target) (''0000'' @ concat (replicate 30 ''00'')) = target"
  by (simp add: proof_ok_def toy_proof_text)

lemma toy_Keccak: "Keccak256Hash toy_curve v = ZeroHash"
  by (simp add: Keccak256Hash_def toy_curve_def ZeroHash_def)

lemma tree_text_laws: "string_laws tree_lib tree_text"
  by (auto simp: string_laws_def tree_lib_def tree_text_def comp_def)

section \<open>Properties\<close>

text \<open>C20. A response signed by \<open>SignEdgeResp\<close> survives its RLP encoding, and the reader recovers from it the
  address of the signer's key whenever the network identifier is below \<open>2 ^ 63\<close>; an identifier that
  \<open>int64\<close> reads as less than -18 makes every signature invalid, because \<open>Bytes\<close> drops the sign of \<open>V\<close>.\<close>

theorem signed_response_round_trip:
  assumes "curve_laws C" and "rlp_laws L" and "string_laws L T"
    and "length (er_From resp) = AddressLength" and "length (er_Hash resp) = HashLength"
    and "SignEdgeResp C L T e resp k = Inr resp'"
  shows "er_UnmarshalRLP L T r0 (er_MarshalRLP L T resp') = Inr resp' \<and>
    er_RespString resp' = er_RespString resp \<and>
    (0 \<le> sint (sg_networkID e) \<longrightarrow> Provider C L T e resp' = Inr (PubKeyToAddress C (cv_Public C k))) \<and>
    (sint (sg_networkID e) < -18 \<longrightarrow> Provider C L T e resp' = Inl (GoErr ''invalid rtcMsg signature''))"
proof -
  obtain r s p where sg: "er_R resp' = Some (big_SetBytes r)" "er_S resp' = Some (big_SetBytes s)"
    "er_V resp' = Some (abs (p + 35 + 2 * sint (sg_networkID e)))" "1 \<le> big_SetBytes r" "1 \<le> big_SetBytes s"
    "er_RespString resp' = er_RespString resp"
    using SignEdgeResp_shape [OF assms(1,6)] by metis
  have "er_UnmarshalRLP L T r0 (er_MarshalRLP L T resp') = Inr resp'"
    using SignEdgeResp_keeps [OF assms(6)] assms(4,5) sg
    by (intro er_round_trip [OF assms(2,3)]) (simp_all add: nat_big_def)
  then show ?thesis using Provider_signed [OF assms(1,6)] sg(6) by simp
qed

theorem signed_response_round_trip_witness:
  "\<exists>resp'. SignEdgeResp toy_curve tree_lib tree_text \<lparr>sg_networkID = 7, sg_isHomestead = True\<rparr>
      \<lparr>er_RespString = ''ok'', er_V = None, er_R = None, er_S = None, er_From = ZeroAddress, er_Hash = ZeroHash\<rparr> () = Inr resp' \<and>
    er_V resp' = Some 50 \<and>
    er_UnmarshalRLP tree_lib tree_text resp' (er_MarshalRLP tree_lib tree_text resp') = Inr resp' \<and>
    Provider toy_curve tree_lib tree_text \<lparr>sg_networkID = 7, sg_isHomestead = True\<rparr> resp' = Inr (PubKeyToAddress toy_curve ())"
proof -
  let ?e = "\<lparr>sg_networkID = 7, sg_isHomestead = True\<rparr>"
  let ?r = "\<lparr>er_RespString = ''ok'', er_V = None, er_R = None, er_S = None, er_From = ZeroAddress, er_Hash = ZeroHash\<rparr>"
  have sig: "ecdsa_Sign toy_curve () h = Inr (one_sig @ one_sig @ [1])" for h
    by (simp add: ecdsa_Sign_def toy_curve_def slice_at_def)
  obtain resp' where s: "SignEdgeResp toy_curve tree_lib tree_text ?e ?r () = Inr resp'" and v: "er_V resp' = Some 50"
    by (simp add: SignEdgeResp_def Let_def sig one_sig_value nth_append CalculateV_def)
  have "er_UnmarshalRLP tree_lib tree_text resp' (er_MarshalRLP tree_lib tree_text resp') = Inr resp' \<and>
     Provider toy_curve tree_lib tree_text ?e resp' = Inr (PubKeyToAddress toy_curve ())"
    using signed_response_round_trip [OF toy_curve_laws tree_lib_laws tree_text_laws _ _ s, of resp']
    by (simp add: AddressLength_def HashLength_def ZeroAddress_def ZeroHash_def toy_curve_def)
  then show ?thesis using s v by blast
qed

text \<open>The hash search returns the digest and the bytes of the first try that meets the target, which is
  exactly what \<open>ValidateHash\<close> accepts; a failing source of randomness is reported; reaching the deadline is
  not: the caller gets the zero hash, no bytes and no error.  A target longer than the 64 digits of a
  digest panics at the first try.\<close>

theorem hash_proof_spec:
  assumes "curve_laws C" and "length target \<le> 64"
  shows "ValidateHash C seed target d = Inr (proof_ok C seed target d) \<and>
    ProofByCalcHash C seed target (map Inr ds) = Inr (case find (proof_ok C seed target) ds of
        Some x \<Rightarrow> (Keccak256Hash C [text_bytes seed @ x], x) | None \<Rightarrow> (ZeroHash, [])) \<and>
    ((\<forall>x \<in> set ds. \<not> proof_ok C seed target x) \<longrightarrow>
      ProofByCalcHash C seed target (map Inr ds @ Inl err # tries) = Inl err) \<and>
    ValidateHash C seed (target @ replicate 65 c) d = Inl (GoPanic ''slice bounds out of range'')"
proof -
  have found: "ProofByCalcHash C seed target (map Inr ds @ ts) = (case find (proof_ok C seed target) ds of
      Some x \<Rightarrow> Inr (Keccak256Hash C [text_bytes seed @ x], x)
    | None \<Rightarrow> rbind (generateHash C seed target ts) (\<lambda>(hash, data). Inr (StringToHash (''0x'' @ hash), data)))" for ts
    unfolding ProofByCalcHash_def generateHash_find [OF assms]
    by (cases "find (proof_ok C seed target) ds") (simp_all add: StringToHash_proof_text [OF assms(1), simplified])
  have "ProofByCalcHash C seed target (map Inr ds) = Inr (case find (proof_ok C seed target) ds of
        Some x \<Rightarrow> (Keccak256Hash C [text_bytes seed @ x], x) | None \<Rightarrow> (ZeroHash, []))"
    using found [of "[]"] by (simp add: StringToHash_empty split: option.splits)
  moreover have "(\<forall>x \<in> set ds. \<not> proof_ok C seed target x) \<longrightarrow>
      ProofByCalcHash C seed target (map Inr ds @ Inl err # tries) = Inl err"
  proof
    assume "\<forall>x \<in> set ds. \<not> proof_ok C seed target x"
    then have "find (proof_ok C seed target) ds = None" by (simp add: find_None_iff)
    then show "ProofByCalcHash C seed target (map Inr ds @ Inl err # tries) = Inl err"
      by (simp add: found)
  qed
  moreover have "ValidateHash C seed (target @ replicate 65 c) d = Inl (GoPanic ''slice bounds out of range'')"
    by (simp add: ValidateHash_def target_prefix_def length_hex_text [OF assms(1)])
  ultimately show ?thesis using ValidateHash_eq [OF assms] by blast
qed

theorem hash_proof_spec_witness:
  "ProofByCalcHash toy_curve ''seed'' ''0000'' [Inr [1], Inr [2]] = Inr (ZeroHash, [1]) \<and>
   ProofByCalcHash toy_curve ''seed'' ''0001'' [Inr [1], Inr [2]] = Inr (ZeroHash, [])"
  using hash_proof_spec [OF toy_curve_laws, of "''0000''" "''seed''" "[]" "[[1], [2]]"]
    hash_proof_spec [OF toy_curve_laws, of "''0001''" "''seed''" "[]" "[[1], [2]]"]
  by (simp add: toy_proof_ok toy_Keccak)

end
