(* ===== verification/Secrets_Props.thy ===== *)
theory Secrets_Props
  imports Secrets Os_Props Edge_Proof
begin

text \<open>
  What the secrets managers promise and what their clients need.  \<open>secrets_store\<close> states the contract
  behind the interface \<open>SecretsManager\<close>; \<open>once_store\<close> adds that a secret cannot be overwritten.  Both
  are interpreted on the managers of the program; the clients of \<open>helper.go\<close> and \<open>server.go\<close> are proved
  once inside them.
\<close>

section \<open>The contract\<close>

locale secrets_store =
  fixes M :: "'m secrets_manager"
    and ok :: "'m \<Rightarrow> bool"
    and names :: "string set"
  assumes ok_set: "ok m \<Longrightarrow> n \<in> names \<Longrightarrow> ok (snd (sm_SetSecret M n v m))"
    and get_set: "ok m \<Longrightarrow> n \<in> names \<Longrightarrow> sm_SetSecret M n v m = (None, m') \<Longrightarrow> sm_GetSecret M m' n = Inr v"
    and get_set_other: "ok m \<Longrightarrow> n \<in> names \<Longrightarrow> n' \<in> names \<Longrightarrow> n' \<noteq> n \<Longrightarrow>
      sm_SetSecret M n v m = (None, m') \<Longrightarrow> sm_GetSecret M m' n' = sm_GetSecret M m n'"
    and has_get: "sm_HasSecret M m n = no_err (sm_GetSecret M m n)"
begin

lemma has_after_set:
  "ok m \<Longrightarrow> n \<in> names \<Longrightarrow> sm_SetSecret M n v m = (None, m') \<Longrightarrow> sm_HasSecret M m' n = Inr True"
  by (simp add: has_get get_set no_err_def)

lemma has_True: "sm_HasSecret M m n = Inr True \<longleftrightarrow> (\<exists>v. sm_GetSecret M m n = Inr v)"
  by (auto simp: has_get no_err_def split: sum.splits)

lemma init_validator:
  assumes "ok m" and "ValidatorKey \<in> names" and "InitECDSAValidatorKey C M gen m = (Inr a, m')"
  shows "LoadValidatorAddress C M m' = Inr a"
    and "InitECDSAValidatorKey C M gen' m' = (Inl (GoErr ''secrets has been already initialized''), m')"
    and "\<exists>w. sm_GetSecret M m' ValidatorKey = Inr w"
proof -
  obtain k enc where g: "GenerateAndEncodeECDSAPrivateKey C gen = Inr (k, enc)"
    "sm_SetSecret M ValidatorKey enc m = (None, m')" "a = PubKeyToAddress C (cv_Public C k)"
    using assms(3) by (auto simp: InitECDSAValidatorKey_def split: sum.splits bool.splits option.splits prod.splits)
  have "BytesToECDSAPrivateKey C enc = Inr k"
    using g(1) by (auto simp: GenerateAndEncodeECDSAPrivateKey_def rbind_def split: sum.splits)
  then show "LoadValidatorAddress C M m' = Inr a"
    "InitECDSAValidatorKey C M gen' m' = (Inl (GoErr ''secrets has been already initialized''), m')"
    "\<exists>w. sm_GetSecret M m' ValidatorKey = Inr w"
    using get_set [OF assms(1,2) g(2)] has_after_set [OF assms(1,2) g(2)]
    by (simp_all add: LoadValidatorAddress_def InitECDSAValidatorKey_def g(3))
qed

lemma setup_key_stays:
  assumes "ok m" and "NetworkKey \<in> names" and "\<And>k b. pk_Marshal P k = Inr b \<Longrightarrow> pk_Unmarshal P b = Inr k"
    and "setupLibp2pKey P M m = (Inr k, m')" and "pk_Unmarshal P' = pk_Unmarshal P"
  shows "setupLibp2pKey P' M m' = (Inr k, m')" and "LoadNodeID P' M m' = pk_ID P' k"
    and "InitNetworkingPrivateKey P' M m' = (Inl (GoErr ''secrets has been already initialized''), m')"
proof -
  have "\<exists>v. sm_GetSecret M m' NetworkKey = Inr v \<and> ParseLibp2pKey P v = Inr k"
  proof (cases "sm_HasSecret M m NetworkKey")
    case (Inr h)
    show ?thesis
    proof (cases h)
      case True
      then have "ReadLibp2pKey P M m = Inr k" "m' = m"
        using Inr assms(4) by (auto simp: setupLibp2pKey_def split: sum.splits)
      then show ?thesis using Inr True has_True [of m NetworkKey] by (auto simp: ReadLibp2pKey_def)
    next
      case False
      then obtain enc where g: "GenerateAndEncodeLibp2pKey P = Inr (k, enc)" "sm_SetSecret M NetworkKey enc m = (None, m')"
        using Inr assms(4) by (auto simp: setupLibp2pKey_def split: sum.splits option.splits prod.splits)
      then obtain b where b: "pk_Marshal P k = Inr b" "enc = text_bytes (hex_EncodeToString b)"
        by (auto simp: GenerateAndEncodeLibp2pKey_def rbind_def split: sum.splits)
      then have "ParseLibp2pKey P enc = Inr k"
        using assms(3) by (simp add: ParseLibp2pKey_def hex_decoded_def)
      then show ?thesis using get_set [OF assms(1,2) g(2)] by blast
    qed
  qed (use assms(4) in \<open>simp add: setupLibp2pKey_def\<close>)
  then obtain v where v: "sm_GetSecret M m' NetworkKey = Inr v" "ParseLibp2pKey P v = Inr k" by blast
  then have "ParseLibp2pKey P' v = Inr k" using assms(5) by (simp add: ParseLibp2pKey_def)
  moreover have "sm_HasSecret M m' NetworkKey = Inr True" using v(1) has_True by blast
  ultimately show "setupLibp2pKey P' M m' = (Inr k, m')" "LoadNodeID P' M m' = pk_ID P' k"
    "InitNetworkingPrivateKey P' M m' = (Inl (GoErr ''secrets has been already initialized''), m')"
    using v(1) by (simp_all add: setupLibp2pKey_def ReadLibp2pKey_def LoadNodeID_def InitNetworkingPrivateKey_def)
qed

lemma encrypted_key_reads_back:
  assumes "ok m" and "n \<in> names" and "SecureFlag @ n \<in> names" and "aes_laws aes"
    and "SetEncryptedKey aes M n pass key m = (None, m')"
  obtains cipher where "sm_GetSecret M m' n = Inr (text_bytes cipher)" "CFBDecrypt aes cipher pass = Inr key"
    "isEncrypted M m' n = Inr True"
proof -
  obtain cipher m1 where c: "CFBEncrypt aes key pass = Inr cipher" "sm_SetSecret M n (text_bytes cipher) m = (None, m1)"
    "sm_SetSecret M (SecureFlag @ n) (text_bytes SecureTrue) m1 = (None, m')"
    using assms(5) by (auto simp: SetEncryptedKey_def split: sum.splits option.splits prod.splits)
  have m1: "ok m1" using ok_set [OF assms(1,2), of "text_bytes cipher"] c(2) by simp
  have "n \<noteq> SecureFlag @ n" by (simp add: SecureFlag_def)
  then have "sm_GetSecret M m' n = Inr (text_bytes cipher)"
    using get_set_other [OF m1 assms(3,2) _ c(3)] get_set [OF assms(1,2) c(2)] by simp
  moreover have "isEncrypted M m' n = Inr True"
    using has_after_set [OF m1 assms(3) c(3)] get_set [OF m1 assms(3) c(3)] by (simp add: isEncrypted_def)
  ultimately show thesis using that CFB_round_trip [OF assms(4) c(1)] by blast
qed

end

locale once_store = secrets_store M ok names
  for M :: "'m secrets_manager" and ok :: "'m \<Rightarrow> bool" and names :: "string set" +
  assumes refuse: "ok m \<Longrightarrow> n \<in> names \<Longrightarrow> sm_GetSecret M m n = Inr w \<Longrightarrow>
    \<exists>err. sm_SetSecret M n v m = (Some err, m)"
begin

lemma encrypt_existing_fails:
  assumes "ok m" and "n \<in> names" and "sm_GetSecret M m n = Inr w"
  shows "\<exists>err. SetEncryptedKey aes M n pass key m = (Some err, m)"
proof (cases "CFBEncrypt aes key pass")
  case (Inr c)
  then show ?thesis using refuse [OF assms, of "text_bytes c"] by (auto simp: SetEncryptedKey_def)
qed (simp add: SetEncryptedKey_def)

lemma encrypt_after_init_fails:
  assumes "ok m" and "ValidatorKey \<in> names" and "sm_GetSecret M m ValidatorKey = Inr w"
  shows "\<exists>err. EncryptECDSAValidatorKey C aes M gen pass m = (Some err, m)"
  using encrypt_existing_fails [OF assms] assms(3) by (simp add: EncryptECDSAValidatorKey_def has_get no_err_def)

end

section \<open>Vault keeps the contract\<close>

lemma text_bytes_text [simp]: "text_bytes (bytes_text b) = b"
  by (induction b) (simp_all add: bytes_text_def text_bytes_def unat_byte_less)

text \<open>What the KV store promises on the states \<open>good\<close>: a write is read back and disturbs no other path.\<close>

definition vault_laws :: "'s vault_api \<Rightarrow> ('s \<Rightarrow> bool) \<Rightarrow> bool" where
  "vault_laws A good \<longleftrightarrow> (\<forall>s p d. good s \<longrightarrow> good (snd (va_Write A p d s))) \<and>
     (\<forall>s p d s'. good s \<longrightarrow> va_Write A p d s = (None, s') \<longrightarrow>
        va_Read A s' p = Inr (Some (KvMap (map_option Some \<circ> d))) \<and>
        (\<forall>q. q \<noteq> p \<longrightarrow> va_Read A s' q = va_Read A s q))"

definition vault_ok :: "'s vault_api \<Rightarrow> ('s \<Rightarrow> bool) \<Rightarrow> vault_manager \<times> 's \<Rightarrow> bool" where
  "vault_ok A good st \<longleftrightarrow> vault_laws A good \<and> good (snd st) \<and> vm_client (fst st)"

lemma vm_SetSecret_cases:
  obtains err where "vm_SetSecret A n v (g, s) = (Some err, (g, s))"
  | r s' where "va_Write A (vm_constructSecretPath g n) [n \<mapsto> bytes_text v] s = (r, s')"
    "vm_SetSecret A n v (g, s) = (map_option (GoWrap ''unable to store secret, '') r, (g, s'))"
proof (cases "\<exists>err. vm_SetSecret A n v (g, s) = (Some err, (g, s))")
  case False
  obtain r s' where w: "va_Write A (vm_constructSecretPath g n) [n \<mapsto> bytes_text v] s = (r, s')" by force
  have "vm_SetSecret A n v (g, s) = (map_option (GoWrap ''unable to store secret, '') r, (g, s'))"
    using False w by (auto simp: vm_SetSecret_def Let_def split: sum.splits if_splits option.splits)
  then show thesis using that(2) w by blast
qed (use that in blast)


interpretation vault: secrets_store "vault_sm A" "vault_ok A good" UNIV for A :: "'s vault_api" and good
proof
  fix m :: "vault_manager \<times> 's" and n v
  assume ok: "vault_ok A good m"
  obtain g s where m: "m = (g, s)" by force
  have good: "good (snd (va_Write A p d s))" for p d using ok m by (simp add: vault_ok_def vault_laws_def)
  show "vault_ok A good (snd (sm_SetSecret (vault_sm A) n v m))"
  proof (rule vm_SetSecret_cases [of A n v g s])
    fix r s' assume "va_Write A (vm_constructSecretPath g n) [n \<mapsto> bytes_text v] s = (r, s')"
      and set: "vm_SetSecret A n v (g, s) = (map_option (GoWrap ''unable to store secret, '') r, (g, s'))"
    then have "good s'" using good by (metis snd_conv)
    then show ?thesis using ok m set by (simp add: vault_sm_def vault_ok_def)
  qed (use ok m in \<open>simp add: vault_sm_def\<close>)
next
  fix m m' :: "vault_manager \<times> 's" and n v
  assume ok: "vault_ok A good m" and set: "sm_SetSecret (vault_sm A) n v m = (None, m')"
  obtain g s where m: "m = (g, s)" by force
  obtain s' where w: "va_Write A (vm_constructSecretPath g n) [n \<mapsto> bytes_text v] s = (None, s')" "m' = (g, s')"
    using set m by (cases rule: vm_SetSecret_cases [of A n v g s]) (auto simp: vault_sm_def)
  have rd: "va_Read A s' (vm_constructSecretPath g n) = Inr (Some (KvMap (map_option Some \<circ> [n \<mapsto> bytes_text v])))"
    and other: "\<And>q. q \<noteq> vm_constructSecretPath g n \<Longrightarrow> va_Read A s' q = va_Read A s q"
    using ok w(1) m by (auto simp: vault_ok_def vault_laws_def)
  show "sm_GetSecret (vault_sm A) m' n = Inr v"
    using ok rd by (simp add: vault_sm_def vm_GetSecret_def w(2) vault_ok_def m)
  show "sm_GetSecret (vault_sm A) m' n' = sm_GetSecret (vault_sm A) m n'" if "n' \<noteq> n" for n'
    using other [of "vm_constructSecretPath g n'"] that
    by (simp add: vault_sm_def vm_GetSecret_def w(2) m vm_constructSecretPath_def)
qed (simp add: vault_sm_def vm_HasSecret_def)

section \<open>AWS and GCP keep the stronger contract\<close>

definition ssm_laws :: "'s ssm_api \<Rightarrow> ('s \<Rightarrow> bool) \<Rightarrow> bool" where
  "ssm_laws A good \<longleftrightarrow> (\<forall>s p v. good s \<longrightarrow> good (snd (sa_PutParameter A p v s))) \<and>
     (\<forall>s p v s'. good s \<longrightarrow> sa_PutParameter A p v s = (None, s') \<longrightarrow>
        sa_GetParameter A s' p = Inr (Some v) \<and> (\<forall>q. q \<noteq> p \<longrightarrow> sa_GetParameter A s' q = sa_GetParameter A s q)) \<and>
     (\<forall>s p w v. good s \<longrightarrow> sa_GetParameter A s p = Inr (Some w) \<longrightarrow> (\<exists>err. sa_PutParameter A p v s = (Some err, s)))"

definition aws_ok :: "'s ssm_api \<Rightarrow> ('s \<Rightarrow> bool) \<Rightarrow> aws_manager \<times> 's \<Rightarrow> bool" where
  "aws_ok A good st \<longleftrightarrow> ssm_laws A good \<and> good (snd st)"

interpretation aws: once_store "aws_sm A" "aws_ok A good" UNIV for A :: "'s ssm_api" and good
proof
  fix m :: "aws_manager \<times> 's" and n v
  assume ok: "aws_ok A good m"
  then have "good (snd (sa_PutParameter A (am_constructSecretPath (fst m) n) (bytes_text v) (snd m)))"
    by (simp add: aws_ok_def ssm_laws_def)
  then show "aws_ok A good (snd (sm_SetSecret (aws_sm A) n v m))"
    using ok by (auto simp: aws_sm_def am_SetSecret_def aws_ok_def split: prod.splits option.splits)
next
  fix m m' :: "aws_manager \<times> 's" and n v
  assume ok: "aws_ok A good m" and set: "sm_SetSecret (aws_sm A) n v m = (None, m')"
  obtain g s where m: "m = (g, s)" by force
  obtain s' where w: "sa_PutParameter A (am_constructSecretPath g n) (bytes_text v) s = (None, s')" "m' = (g, s')"
    using set m by (auto simp: aws_sm_def am_SetSecret_def split: prod.splits option.splits)
  have rd: "sa_GetParameter A s' (am_constructSecretPath g n) = Inr (Some (bytes_text v))"
    and other: "\<And>q. q \<noteq> am_constructSecretPath g n \<Longrightarrow> sa_GetParameter A s' q = sa_GetParameter A s q"
    using ok w(1) m by (auto simp: aws_ok_def ssm_laws_def)
  show "sm_GetSecret (aws_sm A) m' n = Inr v"
    using rd by (simp add: aws_sm_def am_GetSecret_def w(2))
  show "sm_GetSecret (aws_sm A) m' n' = sm_GetSecret (aws_sm A) m n'" if "n' \<noteq> n" for n'
    using other [of "am_constructSecretPath g n'"] that
    by (simp add: aws_sm_def am_GetSecret_def w(2) m am_constructSecretPath_def)
next
  fix m :: "aws_manager \<times> 's" and n w v
  assume ok: "aws_ok A good m" and get: "sm_GetSecret (aws_sm A) m n = Inr w"
  obtain x where "sa_GetParameter A (snd m) (am_constructSecretPath (fst m) n) = Inr (Some x)"
    using get by (auto simp: aws_sm_def am_GetSecret_def split: sum.splits option.splits)
  then obtain err where "sa_PutParameter A (am_constructSecretPath (fst m) n) (bytes_text v) (snd m) = (Some err, snd m)"
    using ok unfolding aws_ok_def ssm_laws_def by blast
  then show "\<exists>err. sm_SetSecret (aws_sm A) n v m = (Some err, m)" by (simp add: aws_sm_def am_SetSecret_def)
qed (simp add: aws_sm_def am_HasSecret_def)

text \<open>Of the GCP service: a created secret takes its first version under the name \<open>parent/secrets/id/versions/1\<close>.\<close>

definition gcp_version :: "string \<Rightarrow> string \<Rightarrow> string" where
  "gcp_version parent sid = parent @ ''/secrets/'' @ sid @ ''/versions/1''"

definition gcp_laws :: "'s gcp_api \<Rightarrow> ('s \<Rightarrow> bool) \<Rightarrow> bool" where
  "gcp_laws A good \<longleftrightarrow> (\<forall>s p i. good s \<longrightarrow> good (snd (ga_CreateSecret A p i s))) \<and>
     (\<forall>s nm b. good s \<longrightarrow> good (snd (ga_AddSecretVersion A nm b s))) \<and>
     (\<forall>s p i nm s1 b s2. good s \<longrightarrow> ga_CreateSecret A p i s = (Inr nm, s1) \<longrightarrow> ga_AddSecretVersion A nm b s1 = (None, s2) \<longrightarrow>
        ga_AccessSecretVersion A s2 (gcp_version p i) = Inr b \<and>
        (\<forall>q. q \<noteq> gcp_version p i \<longrightarrow> ga_AccessSecretVersion A s2 q = ga_AccessSecretVersion A s q)) \<and>
     (\<forall>s p i b. good s \<longrightarrow> ga_AccessSecretVersion A s (gcp_version p i) = Inr b \<longrightarrow>
        (\<exists>err. ga_CreateSecret A p i s = (Inl err, s)))"

definition gcp_ok :: "'s gcp_api \<Rightarrow> ('s \<Rightarrow> bool) \<Rightarrow> gcp_manager \<times> 's \<Rightarrow> bool" where
  "gcp_ok A good st \<longleftrightarrow> gcp_laws A good \<and> good (snd st)"

lemma gcp_full_name:
  "getFullyQualifiedSecretName g n = gcp_version (''projects/'' @ gm_projectID g) (getSecretID g n)"
  by (simp add: getFullyQualifiedSecretName_def gcp_version_def)

interpretation gcp: once_store "gcp_sm A" "gcp_ok A good" UNIV for A :: "'s gcp_api" and good
proof
  fix m :: "gcp_manager \<times> 's" and n v
  assume ok: "gcp_ok A good m"
  obtain r s1 where c: "ga_CreateSecret A (''projects/'' @ gm_projectID (fst m)) (getSecretID (fst m) n) (snd m) = (r, s1)"
    by force
  have good: "good s1" using ok c unfolding gcp_ok_def gcp_laws_def by (metis snd_conv)
  have "good (snd (ga_AddSecretVersion A nm v s1))" for nm using ok good by (simp add: gcp_ok_def gcp_laws_def)
  then show "gcp_ok A good (snd (sm_SetSecret (gcp_sm A) n v m))"
    using ok c good by (auto simp: gcp_sm_def gm_SetSecret_def gcp_ok_def split: prod.splits option.splits sum.splits)
      (metis snd_conv)+
next
  fix m m' :: "gcp_manager \<times> 's" and n v
  assume ok: "gcp_ok A good m" and set: "sm_SetSecret (gcp_sm A) n v m = (None, m')"
  obtain g s where m: "m = (g, s)" by force
  let ?p = "''projects/'' @ gm_projectID g"
  obtain nm s1 s2 where w: "ga_CreateSecret A ?p (getSecretID g n) s = (Inr nm, s1)"
    "ga_AddSecretVersion A nm v s1 = (None, s2)" "m' = (g, s2)"
    using set m by (auto simp: gcp_sm_def gm_SetSecret_def split: prod.splits option.splits sum.splits)
  have rd: "ga_AccessSecretVersion A s2 (getFullyQualifiedSecretName g n) = Inr v"
    and other: "\<And>q. q \<noteq> getFullyQualifiedSecretName g n \<Longrightarrow> ga_AccessSecretVersion A s2 q = ga_AccessSecretVersion A s q"
    using ok w(1,2) m unfolding gcp_ok_def gcp_laws_def gcp_full_name by (auto 0 3)
  show "sm_GetSecret (gcp_sm A) m' n = Inr v"
    using rd by (simp add: gcp_sm_def gm_GetSecret_def w(3))
  show "sm_GetSecret (gcp_sm A) m' n' = sm_GetSecret (gcp_sm A) m n'" if "n' \<noteq> n" for n'
    using other [of "getFullyQualifiedSecretName g n'"] that
    by (simp add: gcp_sm_def gm_GetSecret_def w(3) m getFullyQualifiedSecretName_def getSecretID_def)
next
  fix m :: "gcp_manager \<times> 's" and n w v
  assume ok: "gcp_ok A good m" and get: "sm_GetSecret (gcp_sm A) m n = Inr w"
  have "ga_AccessSecretVersion A (snd m) (getFullyQualifiedSecretName (fst m) n) = Inr w"
    using get by (auto simp: gcp_sm_def gm_GetSecret_def split: sum.splits)
  moreover have "ga_AccessSecretVersion A (snd m) (gcp_version p i) = Inr b \<Longrightarrow> \<exists>err. ga_CreateSecret A p i (snd m) = (Inl err, snd m)"
    for p i b using ok by (simp add: gcp_ok_def gcp_laws_def)
  ultimately obtain err where
    "ga_CreateSecret A (''projects/'' @ gm_projectID (fst m)) (getSecretID (fst m) n) (snd m) = (Inl err, snd m)"
    unfolding gcp_full_name by meson
  then show "\<exists>err. sm_SetSecret (gcp_sm A) n v m = (Some err, m)" by (simp add: gcp_sm_def gm_SetSecret_def)
qed (simp add: gcp_sm_def gm_HasSecret_def)


section \<open>The local manager keeps the contract without a password\<close>

lemma plain_folders: "plain ConsensusFolderLocal" "plain ValidatorKeyLocal" "plain NetworkFolderLocal" "plain NetworkKeyLocal"
  by (simp_all add: plain_def ConsensusFolderLocal_def ValidatorKeyLocal_def NetworkFolderLocal_def NetworkKeyLocal_def)

lemma key_names: "ValidatorKey \<noteq> NetworkKey" "SecureFlag @ n \<noteq> ValidatorKey" "SecureFlag @ n \<noteq> NetworkKey"
  by (simp_all add: ValidatorKey_def NetworkKey_def SecureFlag_def)

lemma validator_path_eq:
  "p \<noteq> '''' \<Longrightarrow> validator_path p = Join [p, ConsensusFolderLocal] @ CHR ''/'' # ValidatorKeyLocal"
  by (simp add: validator_path_def Join_three plain_folders)

lemma network_path_eq:
  "p \<noteq> '''' \<Longrightarrow> network_path p = Join [p, NetworkFolderLocal] @ CHR ''/'' # NetworkKeyLocal"
  by (simp add: network_path_def Join_three plain_folders)

lemma key_paths: "p \<noteq> '''' \<Longrightarrow> validator_path p \<noteq> network_path p" "p \<noteq> '''' \<Longrightarrow> validator_path p \<noteq> ''''"
  "p \<noteq> '''' \<Longrightarrow> network_path p \<noteq> ''''"
proof -
  assume p: "p \<noteq> ''''"
  have "X @ ''/validator.key'' \<noteq> Y @ ''/libp2p.key''" for X Y :: string
  proof
    assume "X @ ''/validator.key'' = Y @ ''/libp2p.key''"
    then have "rev (X @ ''/validator.key'') = rev (Y @ ''/libp2p.key'')" by (rule arg_cong)
    then show False by simp
  qed
  then show "validator_path p \<noteq> network_path p"
    by (simp only: validator_path_eq [OF p] network_path_eq [OF p] ValidatorKeyLocal_def NetworkKeyLocal_def append_Cons
        append_Nil) blast
  show "validator_path p \<noteq> ''''" "network_path p \<noteq> ''''"
    by (simp_all add: validator_path_eq [OF p] network_path_eq [OF p])
qed

definition local_ok :: "os_env \<Rightarrow> local_state \<Rightarrow> bool" where
  "local_ok e st \<longleftrightarrow> lm_path (fst st) \<noteq> '''' \<and> lm_secretPass (fst st) = '''' \<and>
     lm_secretPathMap (fst st) = [ValidatorKey \<mapsto> validator_path (lm_path (fst st)),
       NetworkKey \<mapsto> network_path (lm_path (fst st))] \<and>
     (\<forall>q. os_read_err e q = None)"

definition key_path :: "string \<Rightarrow> string \<Rightarrow> string" where
  "key_path p n = (if n = ValidatorKey then validator_path p else network_path p)"

lemma local_lookup:
  "local_ok e st \<Longrightarrow> n \<in> {ValidatorKey, NetworkKey} \<Longrightarrow>
     lm_secretPathMap (fst st) n = Some (key_path (lm_path (fst st)) n)"
  by (auto simp: local_ok_def key_path_def key_names)

lemma key_path_inj:
  "p \<noteq> '''' \<Longrightarrow> n \<in> {ValidatorKey, NetworkKey} \<Longrightarrow> n' \<in> {ValidatorKey, NetworkKey} \<Longrightarrow> n' \<noteq> n \<Longrightarrow>
     key_path p n' \<noteq> key_path p n"
  using key_paths(1) [of p] by (auto simp: key_path_def key_names)

lemma SaveFileSafe_None:
  assumes "SaveFileSafe e p v perms fs = (None, fs')"
  obtains i where "p \<noteq> ''''" "fs' = fs(p \<mapsto> i)" "fi_Kind i = RegularFile v"
  using assms
  by (auto simp: SaveFileSafe_def os_WriteFile_def Let_def split: stat_result.splits option.splits if_splits prod.splits)

lemma lm_SetSecret_None:
  assumes "lm_SetSecret e n v st = (None, st')" and "lm_path (fst st) \<noteq> ''''"
  obtains p i where "lm_secretPathMap (fst st) n = Some p" "p \<noteq> ''''" "st' = (fst st, (snd st)(p \<mapsto> i))"
    "fi_Kind i = RegularFile v"
proof -
  obtain p where p: "lm_secretPathMap (fst st) n = Some p"
    using assms by (auto simp: lm_SetSecret_def split: option.splits)
  obtain fs' where "SaveFileSafe e p v 0x120 (snd st) = (None, fs')" "st' = (fst st, fs')"
    using assms p by (auto simp: lm_SetSecret_def split: option.splits stat_result.splits prod.splits)
  then show thesis using that p by (elim SaveFileSafe_None) blast
qed

lemma lm_SetSecret_fst: "fst (snd (lm_SetSecret e n v st)) = fst st"
  by (auto simp: lm_SetSecret_def split: option.splits stat_result.splits prod.splits)

lemma lm_SetSecret_exists:
  assumes "lm_path (fst st) \<noteq> ''''" and "lm_GetSecret aes e st n = Inr w"
  shows "\<exists>err. lm_SetSecret e n v st = (Some err, st)"
proof -
  obtain p b where p: "lm_secretPathMap (fst st) n = Some p" "os_ReadFile e (snd st) p = Inr b"
    using assms(2) by (auto simp: lm_GetSecret_def split: option.splits sum.splits)
  then obtain i where i: "snd st p = Some i" "p \<noteq> ''''"
    by (auto simp: os_ReadFile_def split: option.splits if_splits)
  then show ?thesis
    using assms(1) p(1) by (cases "os_stat_err e p")
      (simp_all add: lm_SetSecret_def os_Stat_def SaveFileSafe_def)
qed

interpretation loc: once_store "local_sm aes e" "local_ok e" "{ValidatorKey, NetworkKey}" for aes e
proof
  fix m n v
  assume "local_ok e m"
  then show "local_ok e (snd (sm_SetSecret (local_sm aes e) n v m))"
    by (simp add: local_sm_def local_ok_def lm_SetSecret_fst)
next
  fix m m' n v
  assume ok: "local_ok e m" and n: "n \<in> {ValidatorKey, NetworkKey}"
    and set: "sm_SetSecret (local_sm aes e) n v m = (None, m')"
  have path: "lm_path (fst m) \<noteq> ''''" using ok by (simp add: local_ok_def)
  obtain i where i: "m' = (fst m, (snd m)(key_path (lm_path (fst m)) n \<mapsto> i))" "fi_Kind i = RegularFile v"
      "key_path (lm_path (fst m)) n \<noteq> ''''"
    using set path local_lookup [OF ok n] by (auto simp: local_sm_def elim!: lm_SetSecret_None)
  show "sm_GetSecret (local_sm aes e) m' n = Inr v"
    using ok local_lookup [OF ok n] i by (simp add: local_sm_def lm_GetSecret_def os_ReadFile_def local_ok_def)
  show "sm_GetSecret (local_sm aes e) m' n' = sm_GetSecret (local_sm aes e) m n'"
    if n': "n' \<in> {ValidatorKey, NetworkKey}" "n' \<noteq> n" for n'
  proof -
    let ?p = "key_path (lm_path (fst m)) n'"
    have "snd m' ?p = snd m ?p" using i(1) key_path_inj [OF path n n'] by simp
    then have "os_ReadFile e (snd m') ?p = os_ReadFile e (snd m) ?p" unfolding os_ReadFile_def by (simp only:)
    moreover have "fst m' = fst m" using i(1) by simp
    ultimately show ?thesis using local_lookup [OF ok n'(1)] by (simp add: local_sm_def lm_GetSecret_def split: sum.split)
  qed
next
  fix m n w v
  assume "local_ok e m" "sm_GetSecret (local_sm aes e) m n = Inr w"
  then show "\<exists>err. sm_SetSecret (local_sm aes e) n v m = (Some err, m)"
    using lm_SetSecret_exists by (simp add: local_sm_def local_ok_def)
qed (simp add: local_sm_def lm_HasSecret_def)

section \<open>A fresh local manager\<close>

lemma fresh_local_manager:
  assumes "calm e" and "p \<noteq> ''''" and "Clean p = p"
  obtains l fs where "SetupLocalSecretsManager e p Map.empty = (Inr (l, fs), fs)" "local_ok e (l, fs)" "lm_path l = p"
    "fs (validator_path p) = None" "dir_exists fs (parent_dir (validator_path p))"
proof -
  let ?a = "Join [p, ConsensusFolderLocal]" and ?b = "Join [p, NetworkFolderLocal]"
  obtain fs where fs: "SetupDataDir e p [ConsensusFolderLocal, NetworkFolderLocal] 0x1F8 Map.empty = (None, fs)"
    "own_dirs e fs" "?a \<in> dom fs" "dom fs \<subseteq> set (ancestors p) \<union> set (ancestors ?a) \<union> set (ancestors ?b)"
    by (rule SetupDataDir_own [OF assms(1,2) plain_folders(1,3), of "0x1F8"])
  let ?l = "\<lparr>lm_path = p, lm_secretPathMap = [ValidatorKey \<mapsto> validator_path p, NetworkKey \<mapsto> network_path p],
    lm_secretPass = ''''\<rparr>"
  have made: "SetupLocalSecretsManager e p Map.empty = (Inr (?l, fs), fs)"
    by (simp add: SetupLocalSecretsManager_def lm_Factory_def lm_Setup_def fs(1))
  have ok: "local_ok e (?l, fs)" using assms(1,2) by (simp add: local_ok_def calmD)
  have la: "length p \<le> length ?a"
    using length_Clean_snoc [OF assms(2) plain_folders(1)] assms(2,3) by (simp add: Join_two)
  have "length ?b \<le> length ?a + 3"
    using Clean_snoc [OF assms(2) plain_folders(1)] Clean_snoc [OF assms(2) plain_folders(3)] assms(2)
    by (simp add: Join_two ConsensusFolderLocal_def NetworkFolderLocal_def)
  then have "length (validator_path p) > length d" if "d \<in> dom fs" for d
    using that fs(4) la ancestors_length [of d p] ancestors_length [of d ?a] ancestors_length [of d ?b]
    by (auto simp: validator_path_eq [OF assms(2)] ValidatorKeyLocal_def)
  then have new: "fs (validator_path p) = None" by blast
  have "parent_dir (validator_path p) = ?a"
    unfolding validator_path_eq [OF assms(2)]
    by (rule parent_dir_snoc) (use plain_folders(2) assms(2) in \<open>simp_all add: plain_def Join_two\<close>)
  then have "dir_exists fs (parent_dir (validator_path p))"
    using fs(2,3) by (auto simp: dir_exists_def own_dirs_def)
  then show thesis using that made ok new by simp
qed

lemma lm_SetSecret_new:
  assumes "calm e" and "local_ok e st" and "snd st (validator_path (lm_path (fst st))) = None"
    and "dir_exists (snd st) (parent_dir (validator_path (lm_path (fst st))))"
  shows "\<exists>st'. lm_SetSecret e ValidatorKey v st = (None, st')"
  using assms key_paths(2) [of "lm_path (fst st)"]
  by (simp add: lm_SetSecret_def os_Stat_def SaveFileSafe_def FileExists_def os_WriteFile_def calmD local_ok_def key_names)

lemma Generate_ECDSA:
  assumes "length (cv_Serialize C k) = 32"
  shows "GenerateAndEncodeECDSAPrivateKey C (Inr k) =
    Inr (cv_PrivKeyFromBytes C (cv_Serialize C k), text_bytes (hex_EncodeToString (cv_Serialize C k)))"
  using assms by (simp add: GenerateAndEncodeECDSAPrivateKey_def CreatePrivateKey_def generateECDSAKeyAndMarshal_def
      MarshalECDSAPrivateKey_def BytesToECDSAPrivateKey_def hex_decoded_def ParseECDSAPrivateKey_def)

section \<open>Passwords\<close>

lemma b64_decode_length: "b64_decode s = Some b \<Longrightarrow> 4 * length b \<le> 3 * length s"
proof (induction s arbitrary: b rule: b64_decode.induct)
  case (2 w x y z r)
  then show ?case by (auto split: option.splits if_splits)
qed auto

lemma cfb_decrypt_length: "length (cfb_decrypt E nxt src) \<le> length src"
proof (induction E nxt src rule: cfb_decrypt.induct)
  case (1 E nxt src)
  then show ?case by (subst cfb_decrypt.simps) auto
qed

lemma CFBDecrypt_shrinks:
  assumes "CFBDecrypt aes s pass = Inr d"
  shows "4 * length d \<le> 3 * length s"
proof -
  obtain E b where b: "b64_decode (filter (\<lambda>c. \<not> is_eol c) s) = Some b" "d = cfb_decrypt E cfb_iv b"
    using assms by (auto simp: CFBDecrypt_def b64_Decode_def rbind_def split: sum.splits option.splits)
  have "length (filter (\<lambda>c. \<not> is_eol c) s) \<le> length s" by (rule length_filter_le)
  then show ?thesis
    using b64_decode_length [OF b(1)] cfb_decrypt_length [of E cfb_iv b] unfolding b(2) by linarith
qed

section \<open>Instances of the parameters\<close>

definition calm_env :: os_env where
  "calm_env = \<lparr>os_stat_err = \<lambda>_. None, os_abs_err = \<lambda>_. None, os_read_err = \<lambda>_. None, os_write_err = \<lambda>_. None,
     os_mkdir_err = \<lambda>_. None, os_remove_err = \<lambda>_. None, os_current_user = Some (1000, 100), os_owner = (1000, 100),
     os_umask = id\<rparr>"

lemma calm_env: "calm calm_env"
  by (simp add: calm_def calm_env_def)

definition toy_aes :: aes_lib where "toy_aes = (\<lambda>k. if length k \<in> {16, 24, 32} then Inr (\<lambda>_. replicate 16 7) else Inl (GoErr ''invalid key size''))"

lemma toy_aes_laws: "aes_laws toy_aes"
  by (simp add: aes_laws_def toy_aes_def block_ok_def)

definition toy_vault :: "(string \<Rightarrow> kv_data option) vault_api" where
  "toy_vault = \<lparr>va_NewClient = \<lambda>_. None, va_Read = \<lambda>s p. Inr (s p),
     va_Write = \<lambda>p d s. (None, s(p \<mapsto> KvMap (map_option Some \<circ> d))), va_Delete = \<lambda>p s. (None, s(p := None))\<rparr>"

lemma toy_vault_laws: "vault_laws toy_vault (\<lambda>_. True)"
  by (auto simp: vault_laws_def toy_vault_def)

definition toy_keys :: "bytes p2p_keys" where
  "toy_keys = \<lparr>pk_Generate = Inr [1, 2], pk_Marshal = Inr, pk_Unmarshal = Inr, pk_ID = \<lambda>k. Inr (hex_EncodeToString k)\<rparr>"

definition one_secret :: local_state where
  "one_secret = (\<lparr>lm_path = ''d'', lm_secretPathMap = [ValidatorKey \<mapsto> ''k''], lm_secretPass = ''passwordpassword''\<rparr>, Map.empty)"

lemma one_secret_set: "\<exists>st'. lm_SetSecret calm_env ValidatorKey v one_secret = (None, st')"
  by (simp add: one_secret_def lm_SetSecret_def os_Stat_def SaveFileSafe_def FileExists_def os_WriteFile_def
      calm_env_def dir_exists_def parent_dir_def)

section \<open>Properties\<close>

text \<open>On an empty file system that refuses nothing, the local manager over a clean path starts without a
  validator; \<open>InitECDSAValidatorKey\<close> stores a key whose address \<open>LoadValidatorAddress\<close> then finds, a second
  call is refused, and from then on \<open>EncryptECDSAValidatorKey\<close> fails and changes nothing.\<close>

theorem local_validator_lifecycle:
  fixes aes :: aes_lib and C :: "('k, 'p) curve_lib"
  assumes "calm e" and "p \<noteq> ''''" and "Clean p = p" and "length (cv_Serialize C k) = 32"
  defines "addr \<equiv> PubKeyToAddress C (cv_Public C (cv_PrivKeyFromBytes C (cv_Serialize C k)))"
    and "M \<equiv> local_sm aes e"
  shows "\<exists>st fs st'. SetupLocalSecretsManager e p Map.empty = (Inr st, fs) \<and>
    LoadValidatorAddress C M st = Inr ZeroAddress \<and>
    InitECDSAValidatorKey C M (Inr k) st = (Inr addr, st') \<and>
    LoadValidatorAddress C M st' = Inr addr \<and>
    (\<forall>gen. InitECDSAValidatorKey C M gen st' = (Inl (GoErr ''secrets has been already initialized''), st')) \<and>
    (\<forall>gen pass. \<exists>err. EncryptECDSAValidatorKey C aes M gen pass st' = (Some err, st'))"
proof -
  obtain l fs where f: "SetupLocalSecretsManager e p Map.empty = (Inr (l, fs), fs)" "local_ok e (l, fs)" "lm_path l = p"
    "fs (validator_path p) = None" "dir_exists fs (parent_dir (validator_path p))"
    by (rule fresh_local_manager [OF assms(1-3)])
  have none: "sm_HasSecret M (l, fs) ValidatorKey = Inr False"
    using f(2-4) local_lookup [OF f(2), of ValidatorKey] assms(1) key_paths(2) [OF assms(2)]
    by (simp add: M_def local_sm_def lm_HasSecret_def lm_GetSecret_def os_ReadFile_def no_err_def key_path_def calmD ENOENT_def)
  obtain st' where st': "sm_SetSecret M ValidatorKey (text_bytes (hex_EncodeToString (cv_Serialize C k))) (l, fs) = (None, st')"
    using lm_SetSecret_new [OF assms(1) f(2)] f(3-5) unfolding M_def local_sm_def by (simp, blast)
  have init: "InitECDSAValidatorKey C M (Inr k) (l, fs) = (Inr addr, st')"
    using none st' by (simp add: InitECDSAValidatorKey_def Generate_ECDSA [OF assms(4)] addr_def)
  have ok: "local_ok e st'"
    using loc.ok_set [OF f(2), of ValidatorKey aes "text_bytes (hex_EncodeToString (cv_Serialize C k))"] st'
    by (simp add: M_def)
  note after = loc.init_validator [OF f(2) _ init [unfolded M_def]]
  obtain w where w: "sm_GetSecret M st' ValidatorKey = Inr w" using after(3) by (auto simp: M_def)
  have "\<exists>err. EncryptECDSAValidatorKey C aes M gen pass st' = (Some err, st')" for gen pass
    unfolding M_def by (rule loc.encrypt_after_init_fails [OF ok _ w [unfolded M_def]]) simp
  moreover have "LoadValidatorAddress C M (l, fs) = Inr ZeroAddress" using none by (simp add: LoadValidatorAddress_def)
  ultimately show ?thesis using f(1) init after(1,2) unfolding M_def
    by (intro exI [of _ "(l, fs)"] exI [of _ fs] exI [of _ st']) simp
qed

theorem local_validator_lifecycle_witness:
  "\<exists>st fs st'. SetupLocalSecretsManager calm_env ''data'' Map.empty = (Inr st, fs) \<and>
    InitECDSAValidatorKey toy_curve (local_sm toy_aes calm_env) (Inr ()) st = (Inr (PubKeyToAddress toy_curve ()), st') \<and>
    LoadValidatorAddress toy_curve (local_sm toy_aes calm_env) st' = Inr (PubKeyToAddress toy_curve ())"
  using local_validator_lifecycle [OF calm_env, of "''data''" toy_curve "()" toy_aes]
  by (simp add: Clean_def clean_stack_def clean_step_def toy_curve_def one_sig_value) blast

text \<open>The local manager cannot hold an encrypted key: its map of paths knows no name with the flag
  prefix, so \<open>SetEncryptedKey\<close> and both callers always report an error, yet when the slot was free the
  ciphertext has been written, and the key cannot be encrypted or stored again.\<close>

theorem local_encryption_fails:
  fixes aes :: aes_lib and e :: os_env
  assumes "lm_path (fst st) \<noteq> ''''" and "dom (lm_secretPathMap (fst st)) \<subseteq> {ValidatorKey, NetworkKey}"
  defines "M \<equiv> local_sm aes e"
  shows "fst (SetEncryptedKey aes M n pass key st) \<noteq> None \<and>
    fst (EncryptECDSAValidatorKey C aes M gen pass st) \<noteq> None \<and>
    fst (EncryptNetworkingPrivateKey P aes M pass st) \<noteq> None \<and>
    (\<forall>cipher st'. CFBEncrypt aes key pass = Inr cipher \<longrightarrow> sm_SetSecret M n (text_bytes cipher) st = (None, st') \<longrightarrow>
      SetEncryptedKey aes M n pass key st = (Some ErrSecretNotFound, st') \<and>
      (local_ok e st \<longrightarrow> sm_GetSecret M st' n = Inr (text_bytes cipher) \<and>
         fst (SetEncryptedKey aes M n pass' key' st') \<noteq> None \<and>
         snd (SetEncryptedKey aes M n pass' key' st') = st'))"
proof -
  have no_flag: "lm_SetSecret e (SecureFlag @ n) v st' = (Some ErrSecretNotFound, st')" if "fst st' = fst st" for n v st'
  proof -
    have "lm_secretPathMap (fst st') (SecureFlag @ n) = None" using that assms(2) key_names(2,3) [of n] by auto
    then show ?thesis using that assms(1) by (simp add: lm_SetSecret_def)
  qed
  have keep: "fst st' = fst st" if "lm_SetSecret e n v st = (r, st')" for n v r st'
    using lm_SetSecret_fst [of e n v st] that by simp
  have fails: "fst (SetEncryptedKey aes M n pass key st) \<noteq> None" for n pass key
    using keep no_flag by (auto simp: SetEncryptedKey_def M_def local_sm_def split: sum.splits option.splits prod.splits)
  have wrote: "SetEncryptedKey aes M n pass key st = (Some ErrSecretNotFound, st')"
    if "CFBEncrypt aes key pass = Inr cipher" "sm_SetSecret M n (text_bytes cipher) st = (None, st')" for cipher st'
    using that keep no_flag by (simp add: SetEncryptedKey_def M_def local_sm_def)
  have later: "sm_GetSecret M st' n = Inr (text_bytes cipher) \<and>
      (\<exists>err. SetEncryptedKey aes M n pass' key' st' = (Some err, st'))"
    if set: "sm_SetSecret M n (text_bytes cipher) st = (None, st')" and ok: "local_ok e st" for cipher st'
  proof -
    have n: "n \<in> {ValidatorKey, NetworkKey}"
      using set assms(1,2) by (auto simp: M_def local_sm_def elim: lm_SetSecret_None)
    have ok': "local_ok e st'" using loc.ok_set [OF ok n, of aes "text_bytes cipher"] set by (simp add: M_def)
    have get: "sm_GetSecret M st' n = Inr (text_bytes cipher)"
      unfolding M_def by (rule loc.get_set [OF ok n set [unfolded M_def]])
    then show ?thesis using loc.encrypt_existing_fails [OF ok' n, of aes] by (simp add: M_def)
  qed
  have "fst (EncryptECDSAValidatorKey C aes M gen pass st) \<noteq> None"
    using fails by (simp add: EncryptECDSAValidatorKey_def split: sum.splits)
  moreover have "fst (EncryptNetworkingPrivateKey P aes M pass st) \<noteq> None"
    using fails by (simp add: EncryptNetworkingPrivateKey_def split: sum.splits)
  ultimately show ?thesis using fails wrote later by fastforce
qed

theorem local_encryption_fails_witness:
  "\<exists>cipher st'. CFBEncrypt toy_aes [1] ''passwordpassword'' = Inr cipher \<and>
    sm_SetSecret (local_sm toy_aes calm_env) ValidatorKey (text_bytes cipher) one_secret = (None, st') \<and>
    SetEncryptedKey toy_aes (local_sm toy_aes calm_env) ValidatorKey ''passwordpassword'' [1] one_secret =
      (Some ErrSecretNotFound, st')"
proof -
  obtain cipher where c: "CFBEncrypt toy_aes [1] ''passwordpassword'' = Inr cipher"
    by (simp add: CFBEncrypt_def toy_aes_def)
  obtain st' where st': "sm_SetSecret (local_sm toy_aes calm_env) ValidatorKey (text_bytes cipher) one_secret = (None, st')"
    using one_secret_set [of "text_bytes cipher"] unfolding local_sm_def by (simp, blast)
  have "lm_path (fst one_secret) \<noteq> ''''" "dom (lm_secretPathMap (fst one_secret)) \<subseteq> {ValidatorKey, NetworkKey}"
    by (simp_all add: one_secret_def)
  note local_encryption_fails [OF this, of toy_aes calm_env ValidatorKey]
  then show ?thesis using c st' by blast
qed

text \<open>With a password the local manager decrypts what it never encrypted: a non-empty secret that \<open>SetSecret\<close>
  stored is never what \<open>GetSecret\<close> returns, whatever the cipher, while a file written by \<open>CFBEncrypt\<close>
  with that password is read back.\<close>

theorem local_password_not_applied:
  assumes "lm_path (fst st) \<noteq> ''''" and "lm_secretPass (fst st) \<noteq> ''''" and "aes_laws aes"
  shows "(\<forall>v st'. lm_SetSecret e n v st = (None, st') \<longrightarrow> v \<noteq> [] \<longrightarrow> lm_GetSecret aes e st' n \<noteq> Inr v) \<and>
    (\<forall>p cipher w. lm_secretPathMap (fst st) n = Some p \<longrightarrow> os_ReadFile e (snd st) p = Inr (text_bytes cipher) \<longrightarrow>
      CFBEncrypt aes w (lm_secretPass (fst st)) = Inr cipher \<longrightarrow> lm_GetSecret aes e st n = Inr w)"
proof -
  have "lm_GetSecret aes e st' n \<noteq> Inr v" if set: "lm_SetSecret e n v st = (None, st')" and v: "v \<noteq> []" for v st'
  proof
    assume get: "lm_GetSecret aes e st' n = Inr v"
    obtain p i where p: "lm_secretPathMap (fst st) n = Some p" "p \<noteq> ''''" "st' = (fst st, (snd st)(p \<mapsto> i))"
      "fi_Kind i = RegularFile v"
      by (rule lm_SetSecret_None [OF set assms(1)])
    have "CFBDecrypt aes (bytes_text v) (lm_secretPass (fst st)) = Inr v"
      using get p assms(2) by (auto simp: lm_GetSecret_def os_ReadFile_def split: option.splits sum.splits)
    then have "4 * length v \<le> 3 * length (bytes_text v)" by (rule CFBDecrypt_shrinks)
    then show False using v by (cases v) (simp_all add: bytes_text_def)
  qed
  moreover have "lm_GetSecret aes e st n = Inr w"
    if "lm_secretPathMap (fst st) n = Some p" "os_ReadFile e (snd st) p = Inr (text_bytes cipher)"
      "CFBEncrypt aes w (lm_secretPass (fst st)) = Inr cipher" for p cipher w
    using that assms(2) CFB_round_trip [OF assms(3) that(3)] by (simp add: lm_GetSecret_def)
  ultimately show ?thesis by blast
qed

theorem local_password_not_applied_witness:
  "\<exists>st'. lm_SetSecret calm_env ValidatorKey [65] one_secret = (None, st') \<and>
    lm_GetSecret toy_aes calm_env st' ValidatorKey \<noteq> Inr [65]"
  using local_password_not_applied [of one_secret toy_aes, OF _ _ toy_aes_laws] one_secret_set [of "[65]"]
  by (force simp: one_secret_def)

text \<open>C21. The node keeps its networking key: on a vault that keeps its promises, every later start of the
  server reads the key that the first one stored, and the node identifier is the one of that key.\<close>

theorem vault_networking_key_stays:
  assumes "vault_laws A good" and "good s" and "vm_client v"
    and "\<And>k b. pk_Marshal P k = Inr b \<Longrightarrow> pk_Unmarshal P b = Inr k"
    and "setupLibp2pKey P (vault_sm A) (v, s) = (Inr k, m')"
  shows "setupLibp2pKey (P\<lparr>pk_Generate := gen\<rparr>) (vault_sm A) m' = (Inr k, m') \<and>
    LoadNodeID P (vault_sm A) m' = pk_ID P k \<and>
    InitNetworkingPrivateKey P (vault_sm A) m' = (Inl (GoErr ''secrets has been already initialized''), m')"
proof -
  have ok: "vault_ok A good (v, s)" using assms(1-3) by (simp add: vault_ok_def)
  show ?thesis
    using vault.setup_key_stays [OF ok _ assms(4,5), of "P\<lparr>pk_Generate := gen\<rparr>"]
      vault.setup_key_stays [OF ok _ assms(4,5), of P] by simp
qed

theorem vault_networking_key_stays_witness:
  "\<exists>v m'. vm_Factory toy_vault \<lparr>cf_Token = ''t'', cf_ServerURL = ''u'', cf_Type = HashicorpVault, cf_Name = ''n'',
      cf_Namespace = '''', cf_Extra = Map.empty\<rparr> = Inr v \<and>
    setupLibp2pKey toy_keys (vault_sm toy_vault) (v, Map.empty) = (Inr [1, 2], m') \<and>
    setupLibp2pKey (toy_keys\<lparr>pk_Generate := Inr [3]\<rparr>) (vault_sm toy_vault) m' = (Inr [1, 2], m') \<and>
    LoadNodeID toy_keys (vault_sm toy_vault) m' = Inr ''0102''"
proof -
  define v where "v = \<lparr>vm_token = ''t'', vm_serverURL = ''u'', vm_name = ''n'', vm_basePath = ''secret/data/n'',
      vm_client = True, vm_namespace = ''''\<rparr>"
  have v: "vm_Factory toy_vault \<lparr>cf_Token = ''t'', cf_ServerURL = ''u'', cf_Type = HashicorpVault, cf_Name = ''n'',
      cf_Namespace = '''', cf_Extra = Map.empty\<rparr> = Inr v"
    by (simp add: vm_Factory_def vm_Setup_def toy_vault_def v_def)
  obtain m' where m': "setupLibp2pKey toy_keys (vault_sm toy_vault) (v, Map.empty) = (Inr [1, 2], m')"
    by (simp add: setupLibp2pKey_def vault_sm_def vm_HasSecret_def vm_GetSecret_def toy_vault_def v_def no_err_def
        ErrSecretNotFound_def GenerateAndEncodeLibp2pKey_def toy_keys_def vm_SetSecret_def Let_def)
  have "setupLibp2pKey (toy_keys\<lparr>pk_Generate := Inr [3]\<rparr>) (vault_sm toy_vault) m' = (Inr [1, 2], m') \<and>
      LoadNodeID toy_keys (vault_sm toy_vault) m' = pk_ID toy_keys [1, 2]"
    using vault_networking_key_stays [OF toy_vault_laws TrueI _ _ m'] by (simp add: v_def toy_keys_def)
  moreover have "pk_ID toy_keys [1, 2] = Inr ''0102''"
    by (simp add: toy_keys_def hex_EncodeToString_def byte_hex_def hex_digit_def)
  ultimately show ?thesis using v m' by (intro exI [of _ v] exI [of _ m']) simp
qed

end
