(* ===== verification/Node_Setup.thy ===== *)
theory Node_Setup
  imports Dispatcher Net_Props Relay_Props Secrets_Props
begin

text \<open>
  How a node is put together: \<open>NewServer\<close> (\<open>core/network/server.go\<close>), \<open>NewRelayClient\<close> (\<open>core/relay/relay_client.go\<close>) and
  \<open>NewRelayServer\<close> (\<open>relay_server.go\<close>) read or make the networking key of the secrets manager and
  give libp2p its options.  The three share one identity, and differ in what they do with the configured addresses.
\<close>

section \<open>libp2p\<close>

text \<open>The options that are passed to \<open>libp2p.New\<close>, in the order of the code.\<close>

datatype 'q host_option =
    SecurityNoise
  | ListenAddrs multiaddr
  | AddrsFactory "multiaddr list \<Rightarrow> multiaddr list"
  | Identity 'q
  | EnableRelay
  | ForceReachabilityPrivate

record relay_resources =
  rr_ReservationTTL :: nat
  rr_MaxReservations :: nat
  rr_MaxCircuits :: nat
  rr_BufferSize :: nat
  rr_MaxReservationsPerIP :: nat
  rr_MaxReservationsPerASN :: nat

record ('q, 'w) libp2p =
  lp_NewMultiaddr :: "string \<Rightarrow> go_err + multiaddr"
  lp_New :: "'q host_option list \<Rightarrow> go_err + 'w host"
  lp_NewDHT :: "'w host \<Rightarrow> go_err + nat"
  lp_Wrap :: "'w host \<Rightarrow> nat \<Rightarrow> 'w host"
  lp_Bootstrap :: "nat \<Rightarrow> go_err option"
  lp_Emitter :: "'w host \<Rightarrow> go_err option"
  lp_NewGossipSub :: "'w host \<Rightarrow> nat \<Rightarrow> nat \<Rightarrow> go_err option"
  lp_NewRelay :: "'w host \<Rightarrow> relay_resources option \<Rightarrow> go_err option"

definition ip4_addr :: "string \<Rightarrow> int \<Rightarrow> string" where
  "ip4_addr ip port = ''/ip4/'' @ ip @ ''/tcp/'' @ itoa port"

definition own_addr :: "net_config \<Rightarrow> string" where
  "own_addr cfg = ip4_addr (tcp_IP (cfg_Addr cfg)) (tcp_Port (cfg_Addr cfg))"

section \<open>The networking server\<close>

definition peerOutboundBufferSize :: nat where "peerOutboundBufferSize = 4096"
definition validateBufferSize :: nat where "validateBufferSize = 4096"

definition addrsFactory :: "('q, 'w) libp2p \<Rightarrow> net_config \<Rightarrow> multiaddr list \<Rightarrow> multiaddr list" where
  "addrsFactory L cfg addrs =
     (case cfg_NatAddr cfg of
        Some ip \<Rightarrow> (case lp_NewMultiaddr L (ip4_addr ip (tcp_Port (cfg_Addr cfg))) of
           Inl _ \<Rightarrow> addrs | Inr addr \<Rightarrow> [addr])
      | None \<Rightarrow> (case cfg_DNS cfg of Some dns \<Rightarrow> [dns] | None \<Rightarrow> addrs))"

definition routed_host :: "('q, 'w) libp2p \<Rightarrow> 'w host \<Rightarrow> go_err + 'w host" where
  "routed_host L h =
     (case lp_NewDHT L h of
        Inl err \<Rightarrow> Inl (GoPanic (err_String err))
      | Inr dht \<Rightarrow> (case lp_Bootstrap L dht of Some err \<Rightarrow> Inl err | None \<Rightarrow> Inr (lp_Wrap L h dht)))"

definition server_with_key ::
    "('q, 'w) libp2p \<Rightarrow> net_config \<Rightarrow> string \<Rightarrow> string \<Rightarrow> bool \<Rightarrow> 'w \<Rightarrow> 'q \<Rightarrow> go_err + 'w host \<times> 'w server" where
  "server_with_key L cfg discProto identityProto useRouteHost w key =
     rbind (lp_NewMultiaddr L (own_addr cfg)) (\<lambda>listenAddr.
     (case lp_New L [SecurityNoise, ListenAddrs listenAddr, AddrsFactory (addrsFactory L cfg), Identity key] of
        Inl err \<Rightarrow> Inl (GoWrap ''failed to create libp2p stack: '' err)
      | Inr host0 \<Rightarrow>
     rbind (if useRouteHost then routed_host L host0 else Inr host0) (\<lambda>h.
     (case lp_Emitter L h of
        Some err \<Rightarrow> Inl err
      | None \<Rightarrow>
     (case lp_NewGossipSub L h peerOutboundBufferSize validateBufferSize of
        Some err \<Rightarrow> Inl err
      | None \<Rightarrow> Inr (h, NewServer_state h cfg discProto identityProto w))))))"

definition NewServer ::
    "'q p2p_keys \<Rightarrow> 'm secrets_manager \<Rightarrow> ('q, 'w) libp2p \<Rightarrow> net_config \<Rightarrow> string \<Rightarrow> string \<Rightarrow> bool \<Rightarrow> 'w \<Rightarrow> 'm \<Rightarrow>
      (go_err + 'w host \<times> 'w server) \<times> 'm" where
  "NewServer P M L cfg discProto identityProto useRouteHost w m =
     (case setupLibp2pKey P M m of
        (Inl err, m1) \<Rightarrow> (Inl err, m1)
      | (Inr key, m1) \<Rightarrow> (server_with_key L cfg discProto identityProto useRouteHost w key, m1))"

section \<open>The relay client\<close>

definition client_listen :: "('q, 'w) libp2p \<Rightarrow> net_config \<Rightarrow> go_err + multiaddr" where
  "client_listen L cfg =
     rbind (lp_NewMultiaddr L (own_addr cfg)) (\<lambda>listenAddr.
       case cfg_NatAddr cfg of
         None \<Rightarrow> Inr listenAddr
       | Some ip \<Rightarrow> (case lp_NewMultiaddr L (ip4_addr ip (tcp_Port (cfg_Addr cfg))) of
           Inl _ \<Rightarrow> Inr listenAddr | Inr addr \<Rightarrow> Inr addr))"

text \<open>\<open>rk\<close> makes the rest of the relay library on a host.  The start-up message reads the first address of the host.\<close>

definition client_with_key ::
    "('q, 'w) libp2p \<Rightarrow> ('w host \<Rightarrow> 'w relay_lib) \<Rightarrow> net_config \<Rightarrow> bool \<Rightarrow> string list option \<Rightarrow> nat \<Rightarrow> 'w \<Rightarrow> 'q \<Rightarrow>
      go_err + 'w host \<times> 'w relay_client" where
  "client_with_key L rk cfg relayOn relayNodes grpcStream w key =
     rbind (client_listen L cfg) (\<lambda>listenAddr.
     (case (if relayOn
            then map_sum (GoWrap ''failed to create libp2p privateNodeHost: '') id
              (lp_New L [SecurityNoise, ListenAddrs listenAddr, EnableRelay, Identity key, ForceReachabilityPrivate])
            else map_sum (GoWrap ''failed to create libp2p edgeNodeHost: '') id
              (lp_New L [SecurityNoise, ListenAddrs listenAddr, Identity key])) of
        Inl err \<Rightarrow> Inl err
      | Inr h \<Rightarrow>
          rbind (slice_at (ho_Addrs h) 0) (\<lambda>_.
          rbind (NewRelayClient_state (rk h) grpcStream relayNodes w) (\<lambda>clt. Inr (h, clt)))))"

text \<open>The package \<open>relay\<close> has its own copy of \<open>setupLibp2pKey\<close>, which does the same.\<close>

definition relay_setupLibp2pKey :: "'q p2p_keys \<Rightarrow> 'm secrets_manager \<Rightarrow> 'm \<Rightarrow> (go_err + 'q) \<times> 'm" where
  "relay_setupLibp2pKey P M m =
     (case sm_HasSecret M m NetworkKey of
        Inl err \<Rightarrow> (Inl err, m)
      | Inr has \<Rightarrow>
        if has then
          (case ReadLibp2pKey P M m of
             Inl readErr \<Rightarrow> (Inl (GoWrap ''unable to read networking private key from Secrets Manager, '' readErr), m)
           | Inr networkingKey \<Rightarrow> (Inr networkingKey, m))
        else
          (case GenerateAndEncodeLibp2pKey P of
             Inl keyErr \<Rightarrow> (Inl (GoWrap ''unable to generate networking private key for Secrets Manager, '' keyErr), m)
           | Inr (libp2pKey, libp2pKeyEncoded) \<Rightarrow>
               (case sm_SetSecret M NetworkKey libp2pKeyEncoded m of
                  (Some setErr, m1) \<Rightarrow> (Inl (GoWrap ''unable to store networking private key to Secrets Manager, '' setErr), m1)
                | (None, m1) \<Rightarrow> (Inr libp2pKey, m1))))"

lemma relay_setupLibp2pKey_same [simp]: "relay_setupLibp2pKey P M m = setupLibp2pKey P M m"
  unfolding relay_setupLibp2pKey_def setupLibp2pKey_def by (simp split: sum.split bool.split)

definition NewRelayClient ::
    "'q p2p_keys \<Rightarrow> 'm secrets_manager \<Rightarrow> ('q, 'w) libp2p \<Rightarrow> ('w host \<Rightarrow> 'w relay_lib) \<Rightarrow> net_config \<Rightarrow> bool \<Rightarrow>
      string list option \<Rightarrow> nat \<Rightarrow> 'w \<Rightarrow> 'm \<Rightarrow> (go_err + 'w host \<times> 'w relay_client) \<times> 'm" where
  "NewRelayClient P M L rk cfg relayOn relayNodes grpcStream w m =
     (case relay_setupLibp2pKey P M m of
        (Inl err, m1) \<Rightarrow> (Inl err, m1)
      | (Inr key, m1) \<Rightarrow> (client_with_key L rk cfg relayOn relayNodes grpcStream w key, m1))"

section \<open>The relay server\<close>

definition relay_limits :: relay_resources where
  "relay_limits = \<lparr>rr_ReservationTTL = 3600, rr_MaxReservations = 2048, rr_MaxCircuits = 16, rr_BufferSize = 2048,
     rr_MaxReservationsPerIP = 1024, rr_MaxReservationsPerASN = 1024\<rparr>"

text \<open>The flag says whether the relay service runs: a failure of \<open>relay.New\<close> is only logged.\<close>

definition relay_with_key ::
    "('q, 'w) libp2p \<Rightarrow> multiaddr \<Rightarrow> int option \<Rightarrow> bool \<Rightarrow> string list option \<Rightarrow> 'w \<Rightarrow> 'q \<Rightarrow>
      go_err + 'w host \<times> bool \<times> 'w relay_server" where
  "relay_with_key L relayListenAddr proxyPort RelayDiscovery relayNodes w key =
     rbind (lp_New L [SecurityNoise, ListenAddrs relayListenAddr, Identity key]) (\<lambda>h.
     rbind (NewRelayServer_state h proxyPort RelayDiscovery relayNodes w) (\<lambda>srv.
       Inr (h, lp_NewRelay L h (Some relay_limits) = None, srv)))"

definition NewRelayServer ::
    "'q p2p_keys \<Rightarrow> 'm secrets_manager \<Rightarrow> ('q, 'w) libp2p \<Rightarrow> multiaddr \<Rightarrow> int option \<Rightarrow> bool \<Rightarrow> string list option \<Rightarrow>
      'w \<Rightarrow> 'm \<Rightarrow> (go_err + 'w host \<times> bool \<times> 'w relay_server) \<times> 'm" where
  "NewRelayServer P M L relayListenAddr proxyPort RelayDiscovery relayNodes w m =
     (case relay_setupLibp2pKey P M m of
        (Inl err, m1) \<Rightarrow> (Inl err, m1)
      | (Inr key, m1) \<Rightarrow> (relay_with_key L relayListenAddr proxyPort RelayDiscovery relayNodes w key, m1))"

definition NewRelayServerWithHost :: "('q, 'w) libp2p \<Rightarrow> 'w host \<Rightarrow> 'w \<Rightarrow> bool \<times> 'w relay_server" where
  "NewRelayServerWithHost L h w =
     (lp_NewRelay L h None = None,
      \<lparr>rs_protocols = Map.empty, rs_relaynodes = None, rs_arrays = [], rs_proxyPort = None, rs_published = [], rs_world = w\<rparr>)"

section \<open>One identity\<close>

text \<open>Each of the three constructors starts with the key, and does the rest with it.\<close>

lemma constructors_key:
  "NewServer P M L cfg dp ip rt w m = (case setupLibp2pKey P M m of
     (Inl err, m1) \<Rightarrow> (Inl err, m1) | (Inr k, m1) \<Rightarrow> (server_with_key L cfg dp ip rt w k, m1))"
  "NewRelayClient P M L rk cfg on ns g w m = (case setupLibp2pKey P M m of
     (Inl err, m1) \<Rightarrow> (Inl err, m1) | (Inr k, m1) \<Rightarrow> (client_with_key L rk cfg on ns g w k, m1))"
  "NewRelayServer P M L a pp d ns w m = (case setupLibp2pKey P M m of
     (Inl err, m1) \<Rightarrow> (Inl err, m1) | (Inr k, m1) \<Rightarrow> (relay_with_key L a pp d ns w k, m1))"
  by (simp_all add: NewServer_def NewRelayClient_def NewRelayServer_def)

text \<open>C33. The server, the relay client and the relay server of a node that share a secrets manager run under one
  networking key: whichever is made first, with whatever options, each that is made later, in any order and by
  programs with other key generators, gets the key of the first and leaves the store as it is, and the node identifier
  is the one of that key.  This holds for every manager that keeps the contract of \<open>secrets_store\<close>, as the local, the
  Vault, the AWS and the GCP manager do.\<close>

theorem node_keeps_identity:
  fixes L L' :: "('q, 'w) libp2p"
  assumes "secrets_store M ok names" and "ok m" and "NetworkKey \<in> names"
    and "\<forall>k b. pk_Marshal P k = Inr b \<longrightarrow> pk_Unmarshal P b = Inr k"
    and "pk_Unmarshal P' = pk_Unmarshal P"
    and "(\<exists>cfg dp ip rt w x. NewServer P M L cfg dp ip rt w m = (Inr x, m')) \<or>
      (\<exists>rk cfg on ns g w x. NewRelayClient P M L rk cfg on ns g w m = (Inr x, m')) \<or>
      (\<exists>a pp d ns w x. NewRelayServer P M L a pp d ns w m = (Inr x, m'))"
  shows "\<exists>k. (\<forall>cfg dp ip rt w. NewServer P M L cfg dp ip rt w m = (server_with_key L cfg dp ip rt w k, m')) \<and>
    (\<forall>rk cfg on ns g w. NewRelayClient P M L rk cfg on ns g w m = (client_with_key L rk cfg on ns g w k, m')) \<and>
    (\<forall>a pp d ns w. NewRelayServer P M L a pp d ns w m = (relay_with_key L a pp d ns w k, m')) \<and>
    (\<forall>cfg dp ip rt w. NewServer P' M L' cfg dp ip rt w m' = (server_with_key L' cfg dp ip rt w k, m')) \<and>
    (\<forall>rk cfg on ns g w. NewRelayClient P' M L' rk cfg on ns g w m' = (client_with_key L' rk cfg on ns g w k, m')) \<and>
    (\<forall>a pp d ns w. NewRelayServer P' M L' a pp d ns w m' = (relay_with_key L' a pp d ns w k, m')) \<and>
    LoadNodeID P' M m' = pk_ID P' k"
proof -
  obtain k where k: "setupLibp2pKey P M m = (Inr k, m')"
    using assms(6) unfolding constructors_key by (cases "setupLibp2pKey P M m"; cases "fst (setupLibp2pKey P M m)"; auto)
  note stays = secrets_store.setup_key_stays [OF assms(1-3) assms(4) [rule_format] k assms(5)]
  show ?thesis unfolding constructors_key by (intro exI [of _ k]) (simp add: k stays)
qed

definition one_host :: "(bytes, unit) libp2p" where
  "one_host = \<lparr>lp_NewMultiaddr = (\<lambda>s. if take 7 s = ''/ip4/1.'' then Inr s else Inl (GoErr ''invalid value'')),
     lp_New = (\<lambda>_. Inr idle_host),
     lp_NewDHT = (\<lambda>_. Inr 0), lp_Wrap = (\<lambda>h _. h), lp_Bootstrap = (\<lambda>_. None), lp_Emitter = (\<lambda>_. None),
     lp_NewGossipSub = (\<lambda>_ _ _. None), lp_NewRelay = (\<lambda>_ _. None)\<rparr>"

definition keyed_store :: local_state where
  "keyed_store = (\<lparr>lm_path = ''d'', lm_secretPathMap = [ValidatorKey \<mapsto> validator_path ''d'', NetworkKey \<mapsto> network_path ''d''],
      lm_secretPass = ''''\<rparr>,
     [network_path ''d'' \<mapsto> \<lparr>fi_Kind = RegularFile (text_bytes (hex_EncodeToString [1, 2])), fi_Uid = 1000, fi_Gid = 100,
        fi_Perm = 0\<rparr>])"

definition public_config :: net_config where
  "public_config = DefaultConfig\<lparr>cfg_Addr := \<lparr>tcp_IP = ''1.2.3.4'', tcp_Port = 1\<rparr>\<rparr>"

lemma keyed_store_key:
  assumes "pk_Unmarshal P = Inr"
  shows "setupLibp2pKey P (local_sm toy_aes calm_env) keyed_store = (Inr [1, 2], keyed_store)"
proof -
  have "lm_GetSecret toy_aes calm_env keyed_store NetworkKey = Inr (text_bytes (hex_EncodeToString [1, 2]))"
    using key_paths(1, 3) [of "''d''"]
    by (simp add: lm_GetSecret_def keyed_store_def os_ReadFile_def calm_env_def key_names)
  then show ?thesis
    using assms by (simp add: setupLibp2pKey_def local_sm_def lm_HasSecret_def no_err_def ReadLibp2pKey_def ParseLibp2pKey_def
        hex_decoded_def)
qed

lemma keyed_store_ok: "local_ok calm_env keyed_store"
  by (simp add: local_ok_def keyed_store_def calm_env_def)

lemma public_addr: "lp_NewMultiaddr one_host (own_addr public_config) = Inr (own_addr public_config)"
  by (simp add: one_host_def own_addr_def public_config_def ip4_addr_def)

lemma one_server: "server_with_key one_host public_config dp ip False w k =
    Inr (idle_host, NewServer_state idle_host public_config dp ip w)"
  using public_addr by (simp add: server_with_key_def) (simp add: one_host_def)

text \<open>A relay server is made first; later a server of a program that would generate another key.\<close>

theorem node_keeps_identity_witness:
  "\<exists>x. NewRelayServer toy_keys (local_sm toy_aes calm_env) one_host ''/ip4/1.2.3.4/tcp/2'' None False None () keyed_store =
      (Inr x, keyed_store) \<and>
    NewServer (toy_keys\<lparr>pk_Generate := Inr [3]\<rparr>) (local_sm toy_aes calm_env) one_host public_config ''/disc'' ''/id'' False ()
      keyed_store = (server_with_key one_host public_config ''/disc'' ''/id'' False () [1, 2], keyed_store)"
proof -
  let ?P' = "toy_keys\<lparr>pk_Generate := Inr [3]\<rparr>" and ?M = "local_sm toy_aes calm_env"
  let ?new = "NewRelayServer toy_keys ?M one_host ''/ip4/1.2.3.4/tcp/2'' None False None () keyed_store"
  have new: "?new = (relay_with_key one_host ''/ip4/1.2.3.4/tcp/2'' None False None () [1, 2], keyed_store)"
    unfolding constructors_key by (simp add: keyed_store_key toy_keys_def)
  obtain x where x: "relay_with_key one_host ''/ip4/1.2.3.4/tcp/2'' None False None () [1, 2] = Inr x"
    by (auto simp: relay_with_key_def one_host_def NewRelayServer_state_def rbind_def split: sum.splits)
  have law: "\<forall>k b. pk_Marshal toy_keys k = Inr b \<longrightarrow> pk_Unmarshal toy_keys b = Inr k" by (simp add: toy_keys_def)
  have same: "pk_Unmarshal ?P' = pk_Unmarshal toy_keys" by simp
  have made: "\<exists>a pp d ns w x. NewRelayServer toy_keys ?M one_host a pp d ns w keyed_store = (Inr x, keyed_store)"
    using new unfolding x by (intro exI)
  have key: "NetworkKey \<in> {ValidatorKey, NetworkKey}" by simp
  obtain k where k: "\<forall>cfg dp ip rt w. NewServer ?P' ?M one_host cfg dp ip rt w keyed_store =
      (server_with_key one_host cfg dp ip rt w k, keyed_store)" "LoadNodeID ?P' ?M keyed_store = pk_ID ?P' k"
    using node_keeps_identity [OF loc.secrets_store_axioms keyed_store_ok key law same disjI2 [OF disjI2 [OF made]], of one_host]
    by (elim exE conjE) (rule that; assumption)
  from k(1) have "NewServer ?P' ?M one_host public_config ''/disc'' ''/id'' False () keyed_store =
      (server_with_key one_host public_config ''/disc'' ''/id'' False () k, keyed_store)" by blast
  moreover have "setupLibp2pKey ?P' ?M keyed_store = (Inr [1, 2], keyed_store)"
    by (rule keyed_store_key) (simp add: toy_keys_def)
  ultimately show ?thesis using new [unfolded x] by (cases x) (simp add: constructors_key(1))
qed

section \<open>Addresses\<close>

text \<open>The configured addresses are written as IPv4 addresses.  With a library that accepts exactly those, a server
  and a relay client whose own address is not IPv4 are never made; a NAT address that is IPv4 is announced by the
  server instead of every other address, but becomes the address that the relay client listens on; and a
  NAT address that is not IPv4 is ignored without an error, and a DNS name with it.\<close>

theorem configured_addresses:
  fixes L :: "('q, 'w) libp2p"
  assumes "\<And>ip. lp_NewMultiaddr L (ip4_addr ip (tcp_Port (cfg_Addr cfg))) =
      (if quad ip then Inr (ip4_addr ip (tcp_Port (cfg_Addr cfg))) else Inl invalid)"
  shows "(\<not> quad (tcp_IP (cfg_Addr cfg)) \<longrightarrow>
      (\<exists>err err'. server_with_key L cfg dp ip rt w k = Inl err \<and> client_with_key L rk cfg on ns g w k = Inl err')) \<and>
    (quad (tcp_IP (cfg_Addr cfg)) \<longrightarrow> (case cfg_NatAddr cfg of
       Some natIP \<Rightarrow>
         addrsFactory L cfg addrs = (if quad natIP then [ip4_addr natIP (tcp_Port (cfg_Addr cfg))] else addrs) \<and>
         client_listen L cfg = Inr (if quad natIP then ip4_addr natIP (tcp_Port (cfg_Addr cfg)) else own_addr cfg)
     | None \<Rightarrow>
         addrsFactory L cfg addrs = (case cfg_DNS cfg of Some dns \<Rightarrow> [dns] | None \<Rightarrow> addrs) \<and>
         client_listen L cfg = Inr (own_addr cfg)) \<and>
      (\<forall>h s. server_with_key L cfg dp ip rt w k = Inr (h, s) \<longrightarrow>
         (\<exists>h0. lp_New L [SecurityNoise, ListenAddrs (own_addr cfg), AddrsFactory (addrsFactory L cfg), Identity k] = Inr h0)))"
  using assms
  by (auto simp: server_with_key_def client_with_key_def client_listen_def own_addr_def addrsFactory_def rbind_def
      split: option.splits sum.splits)

lemma one_host_ip4: "lp_NewMultiaddr one_host (ip4_addr ip port) =
    (if take 2 ip = ''1.'' then Inr (ip4_addr ip port) else Inl (GoErr ''invalid value''))"
proof (cases ip)
  case (Cons a r)
  then show ?thesis by (cases r) (simp_all add: one_host_def ip4_addr_def)
qed (simp add: one_host_def ip4_addr_def)

theorem configured_addresses_witness:
  "addrsFactory one_host (public_config\<lparr>cfg_NatAddr := Some ''1.2.3.5''\<rparr>) [''a''] = [ip4_addr ''1.2.3.5'' 1] \<and>
   client_listen one_host (public_config\<lparr>cfg_NatAddr := Some ''1.2.3.5''\<rparr>) = Inr (ip4_addr ''1.2.3.5'' 1) \<and>
   addrsFactory one_host (public_config\<lparr>cfg_NatAddr := Some ''::1'', cfg_DNS := Some ''/dns/n''\<rparr>) [''a''] = [''a'']"
proof -
  have f: "cfg_Addr (public_config\<lparr>cfg_NatAddr := Some a\<rparr>) = \<lparr>tcp_IP = ''1.2.3.4'', tcp_Port = 1\<rparr>"
    "cfg_Addr (public_config\<lparr>cfg_NatAddr := Some a, cfg_DNS := d\<rparr>) = \<lparr>tcp_IP = ''1.2.3.4'', tcp_Port = 1\<rparr>" for a d
    by (simp_all add: public_config_def)
  have "addrsFactory one_host (public_config\<lparr>cfg_NatAddr := Some ''1.2.3.5''\<rparr>) [''a''] = [ip4_addr ''1.2.3.5'' 1]"
    "client_listen one_host (public_config\<lparr>cfg_NatAddr := Some ''1.2.3.5''\<rparr>) = Inr (ip4_addr ''1.2.3.5'' 1)"
    using configured_addresses [where quad = "\<lambda>ip. take 2 ip = ''1.''" and L = one_host and cfg = "public_config\<lparr>cfg_NatAddr := Some ''1.2.3.5''\<rparr>" and addrs = "[''a'']", OF one_host_ip4] f by simp_all
  moreover have "addrsFactory one_host (public_config\<lparr>cfg_NatAddr := Some ''::1'', cfg_DNS := Some ''/dns/n''\<rparr>) [''a''] = [''a'']"
    using configured_addresses [where quad = "\<lambda>ip. take 2 ip = ''1.''" and L = one_host and cfg = "public_config\<lparr>cfg_NatAddr := Some ''::1'', cfg_DNS := Some ''/dns/n''\<rparr>" and addrs = "[''a'']", OF one_host_ip4] f by simp
  ultimately show ?thesis by blast
qed

end
