(* ===== verification/Filter_Props.thy ===== *)
theory Filter_Props
  imports Node_Filters
begin

text \<open>
  The properties of the node filters: which timeout the worker waits for, the refinement of the
  abstract map, delivery of events, what a flush writes and loses, and the races of \<open>Run\<close> with its
  callers.
\<close>

section \<open>New filters and reads in the abstract map\<close>

lemma abs_new_entry:
  assumes wf: "fm_wf s" and u: "fm_filters s uuid = None"
  shows "fm_abs (new_entry s uuid q ws) =
    (fm_abs s)(uuid \<mapsto> \<lparr>af_query = q, af_ws = ws, af_expires = 0, af_msgs = []\<rparr>)"
proof
  fix j
  have new: "fm_filters s j = Some b \<Longrightarrow> b \<noteq> fm_next s" for b using fm_wf_filter [OF wf, of j b] by auto
  then show "fm_abs (new_entry s uuid q ws) j =
      ((fm_abs s)(uuid \<mapsto> \<lparr>af_query = q, af_ws = ws, af_expires = 0, af_msgs = []\<rparr>)) j"
    by (cases "fm_filters s j") (auto simp: fm_abs_def af_of_def newNodeFilterBase_def)
qed

lemma abs_new:
  assumes wf: "fm_wf s" and u: "uuid \<noteq> ''''" "fm_filters s uuid = None"
  shows "fm_abs (snd (NewNodeFilter s uuid q ws)) = (fm_abs s)(uuid \<mapsto> \<lparr>af_query = q, af_ws = ws,
      af_expires = (if ws = None then fm_now s + fm_timeout s else 0), af_msgs = []\<rparr>)"
proof (cases ws)
  case (Some w)
  then show ?thesis using abs_new_entry [OF wf u(2), of q ws] by (simp add: NewNodeFilter_eq)
next
  case None
  let ?a = "fm_next s" and ?s = "new_entry s uuid q None"
  have lt: "?a < fm_next ?s" "?a \<notin> set (fm_timeouts ?s)"
    using th_ok_new_entry(2) [OF fm_wf_ok [OF wf]] by simp_all
  note A = addFilterTimeout_correct [OF th_ok_new_entry(1) [OF fm_wf_ok [OF wf]] lt]
  have at: "af_of (fm_store (addFilterTimeout ?s ?a) b) = (if b = ?a
      then \<lparr>af_query = q, af_ws = None, af_expires = fm_now s + fm_timeout s, af_msgs = []\<rparr>
      else af_of (fm_store s b))" for b
    using same_data_af [OF A(4) refl, of b] A(5)
    by (simp add: af_of_def newNodeFilterBase_def th_key_def fun_eq_iff)
  show ?thesis
  proof
    fix j
    have new: "fm_filters s j = Some b \<Longrightarrow> b \<noteq> ?a" for b using fm_wf_filter [OF wf, of j b] by auto
    show "fm_abs (snd (NewNodeFilter s uuid q ws)) j = ((fm_abs s)(uuid \<mapsto> \<lparr>af_query = q, af_ws = ws,
      af_expires = (if ws = None then fm_now s + fm_timeout s else 0), af_msgs = []\<rparr>)) j"
      using None new by (cases "fm_filters s j") (auto simp: NewNodeFilter_eq fm_abs_def A(3) at)
  qed
qed

lemma wsID_new:
  assumes "fm_wf s"
  shows "fm_wsID (snd (NewNodeFilter s uuid q ws)) w = (if ws = Some w then uuid else fm_wsID s w)"
proof -
  have lt: "fm_next s < fm_next (new_entry s uuid q ws)" "fm_next s \<notin> set (fm_timeouts (new_entry s uuid q ws))"
    using th_ok_new_entry(2) [OF fm_wf_ok [OF assms]] by simp_all
  note A = addFilterTimeout_correct(4) [OF th_ok_new_entry(1) [OF fm_wf_ok [OF assms]] lt]
  have "fm_wsID (addFilterTimeout (new_entry s uuid q ws) (fm_next s)) = fm_wsID (new_entry s uuid q ws)"
    using A by (simp add: same_data_def)
  then have "fm_wsID (snd (NewNodeFilter s uuid q ws)) = fm_wsID (new_entry s uuid q ws)"
    unfolding NewNodeFilter_eq snd_conv by presburger
  then show ?thesis by simp
qed

lemma abs_get:
  assumes wf: "fm_wf s"
  shows "case fm_abs s i of
      None \<Rightarrow> GetFilterChanges s i = (Inl ErrFilterNotFound, s)
    | Some f \<Rightarrow>
        if af_ws f \<noteq> None then GetFilterChanges s i = (Inl ErrWSFilterDoesNotSupportGetChanges, s)
        else fst (GetFilterChanges s i) = Inr (af_msgs f) \<and>
          fm_abs (snd (GetFilterChanges s i)) =
            (fm_abs s)(i \<mapsto> f\<lparr>af_msgs := [], af_expires := fm_now s + fm_timeout s\<rparr>) \<and>
          fm_wf (snd (GetFilterChanges s i)) \<and> fm_wsID (snd (GetFilterChanges s i)) = fm_wsID s"
proof (cases "fm_filters s i")
  case None
  then show ?thesis by (simp add: GetFilterChanges_def getFilterAndChanges_def)
next
  case (Some a)
  show ?thesis
  proof (cases "nf_ws (fm_store s a)")
    case (Some w)
    then show ?thesis using \<open>fm_filters s i = Some a\<close>
      by (simp add: GetFilterChanges_def getFilterAndChanges_def fm_abs_Some af_of_def hasWSConn_def)
  next
    case None
    define s1 where "s1 = filter_at s a (\<lambda>f. f\<lparr>nf_msgs := []\<rparr>)"
    have g: "GetFilterChanges s i = (Inr (nf_msgs (fm_store s a)), refreshFilterTimeout s1 a)"
      using Some None by (simp add: GetFilterChanges_def getFilterAndChanges_def hasWSConn_def
          takeNodeMsgUpdates_def s1_def) (simp add: filter_at_def)
    have wf1: "fm_wf s1" unfolding s1_def by (rule fm_wf_frame [OF wf]) simp_all
    have s1: "fm_filters s1 i = Some a" "fm_now s1 = fm_now s" "fm_timeout s1 = fm_timeout s"
      "fm_wsID s1 = fm_wsID s" "nf_ws (fm_store s1 a) = None"
      "af_of (fm_store s1 a) = (af_of (fm_store s a))\<lparr>af_msgs := []\<rparr>"
      using Some None by (simp_all add: s1_def filter_at_def af_of_def)
    have abs1: "fm_abs s1 = (fm_abs s)(i \<mapsto> (af_of (fm_store s a))\<lparr>af_msgs := []\<rparr>)"
      unfolding s1_def by (rule abs_set_msgs [OF wf Some])
    have a: "a < fm_next s1" using fm_wf_filter [OF wf1 s1(1)] by simp
    have "fm_wf (refreshFilterTimeout s1 a)" by (rule fm_wf_refresh [OF wf1 a s1(5)])
    moreover have "fm_wsID (refreshFilterTimeout s1 a) = fm_wsID s"
      using refreshFilterTimeout_correct(4) [OF fm_wf_ok [OF wf1] a] s1(4) by (simp add: same_data_def)
    moreover have "fm_abs (refreshFilterTimeout s1 a) =
        (fm_abs s)(i \<mapsto> (af_of (fm_store s a))\<lparr>af_msgs := [], af_expires := fm_now s + fm_timeout s\<rparr>)"
      using abs_refresh [OF wf1 s1(1)] by (simp add: s1 abs1)
    ultimately show ?thesis using Some None by (simp add: g fm_abs_Some af_of_def)
  qed
qed

section \<open>What a flush writes\<close>

definition frame_for :: "node_filter \<Rightarrow> string \<Rightarrow> string" where
  "frame_for f res = edgeSubscriptionTemplate (nf_id f) res"

lemma send_msgs_prefix:
  assumes "nf_ws (fm_store s a) = Some w" "send_msgs E k s a ms = (err, s')"
  shows "\<exists>n \<le> length ms. (err = None \<longleftrightarrow> n = length ms) \<and>
    s' = s\<lparr>fm_written := fm_written s @ map (\<lambda>m. (w, frame_for (fm_store s a) (projr (fe_Marshal E m)))) (take n ms)\<rparr> \<and>
    (\<forall>j < n. (\<exists>r. fe_Marshal E (ms ! j) = Inr r) \<and> fe_Write E (nf_id (fm_store s a)) (k + j) = None) \<and>
    (n < length ms \<longrightarrow> fe_Marshal E (ms ! n) = Inl (the err) \<or>
       fe_Write E (nf_id (fm_store s a)) (k + n) = err)"
  using assms
proof (induction ms arbitrary: k s s')
  case Nil
  then show ?case by simp
next
  case (Cons m ms)
  show ?case
  proof (cases "fe_Marshal E m")
    case (Inl e)
    then show ?thesis using Cons.prems by (intro exI [of _ 0]) auto
  next
    case r: (Inr r)
    show ?thesis
    proof (cases "fe_Write E (nf_id (fm_store s a)) k")
      case (Some e)
      then have "err = Some e" "s' = s" using Cons.prems r by (simp_all add: writeMessageToWs_def)
      then show ?thesis using Some by (intro exI [of _ 0]) simp
    next
      case None
      define s1 where "s1 = s\<lparr>fm_written := fm_written s @ [(w, frame_for (fm_store s a) r)]\<rparr>"
      have st: "fm_store s1 = fm_store s" by (simp add: s1_def)
      have step: "send_msgs E (Suc k) s1 a ms = (err, s')"
        using Cons.prems r None by (simp add: writeMessageToWs_def s1_def frame_for_def)
      have ws1: "nf_ws (fm_store s1 a) = Some w" using Cons.prems(1) st by simp
      obtain n where n: "n \<le> length ms" "err = None \<longleftrightarrow> n = length ms"
        "s' = s1\<lparr>fm_written := fm_written s1 @ map (\<lambda>m. (w, frame_for (fm_store s1 a) (projr (fe_Marshal E m)))) (take n ms)\<rparr>"
        "\<forall>j < n. (\<exists>r. fe_Marshal E (ms ! j) = Inr r) \<and> fe_Write E (nf_id (fm_store s1 a)) (Suc k + j) = None"
        "n < length ms \<longrightarrow> fe_Marshal E (ms ! n) = Inl (the err) \<or> fe_Write E (nf_id (fm_store s1 a)) (Suc k + n) = err"
        using Cons.IH [OF ws1 step] by blast
      have "(\<exists>r. fe_Marshal E ((m # ms) ! j) = Inr r) \<and> fe_Write E (nf_id (fm_store s a)) (k + j) = None"
        if "j < Suc n" for j
        using that n(4) r None st by (cases j) auto
      then show ?thesis using n r st by (intro exI [of _ "Suc n"]) (auto simp: s1_def)
    qed
  qed
qed

lemma send_msgs_store: "fm_store (snd (send_msgs E k s a ms)) = fm_store s"
proof (induction ms arbitrary: k s)
  case (Cons m ms)
  show ?case
  proof (cases "fe_Marshal E m")
    case (Inr r)
    obtain e s1 where w: "writeMessageToWs E k s a r = (e, s1)" by fastforce
    have "fm_store s1 = fm_store s" using w by (auto simp: writeMessageToWs_def split: option.splits)
    then show ?thesis using Inr w Cons by (cases e) simp_all
  qed simp
qed simp

lemma send_msgs_wsID: "fm_wsID (snd (send_msgs E k s a ms)) = fm_wsID s"
proof (induction ms arbitrary: k s)
  case (Cons m ms)
  show ?case
  proof (cases "fe_Marshal E m")
    case (Inr r)
    obtain e s1 where w: "writeMessageToWs E k s a r = (e, s1)" by fastforce
    have "fm_wsID s1 = fm_wsID s" using w by (auto simp: writeMessageToWs_def split: option.splits)
    then show ?thesis using Inr w Cons by (cases e) simp_all
  qed simp
qed simp

lemma sendUpdates_frame:
  "b \<noteq> a \<Longrightarrow> fm_store (snd (sendUpdates E s a)) b = fm_store s b"
  "fm_wsID (snd (sendUpdates E s a)) = fm_wsID s"
  by (simp_all add: sendUpdates_def takeNodeMsgUpdates_def send_msgs_store send_msgs_wsID) (simp_all add: filter_at_def)

lemma flush_loop_frame:
  assumes "flush_loop E s is = (cl, s')"
  shows "nf_ws (fm_store s b) = None \<Longrightarrow> fm_store s' b = fm_store s b"
    and "fm_wsID s' = fm_wsID s"
    and "j \<in> set cl \<Longrightarrow> \<exists>a. fm_filters s j = Some a \<and> nf_ws (fm_store s a) \<noteq> None"
proof -
  have "(nf_ws (fm_store s b) = None \<longrightarrow> fm_store s' b = fm_store s b) \<and> fm_wsID s' = fm_wsID s \<and>
    (\<forall>j \<in> set cl. \<exists>a. fm_filters s j = Some a \<and> nf_ws (fm_store s a) \<noteq> None)"
    using assms
  proof (induction "is" arbitrary: s cl s')
    case Nil
    then show ?case by simp
  next
    case (Cons i "is")
    show ?case
    proof (cases "\<exists>a. fm_filters s i = Some a \<and> nf_ws (fm_store s a) \<noteq> None")
      case False
      then have "flush_loop E s is = (cl, s')"
        using Cons.prems by (auto simp: hasWSConn_def split: option.splits)
      then show ?thesis by (rule Cons.IH)
    next
      case True
      then obtain a where a: "fm_filters s i = Some a" "nf_ws (fm_store s a) \<noteq> None" by blast
      obtain e s1 where w: "sendUpdates E s a = (e, s1)" by fastforce
      obtain cl1 s2 where fl: "flush_loop E s1 is = (cl1, s2)" by fastforce
      have s2: "s' = s2" "set cl \<subseteq> insert i (set cl1)"
        using Cons.prems a w fl by (auto simp: hasWSConn_def split: option.splits if_splits)
      have sk: "fm_skel s1 = fm_skel s" using skel_sendUpdates [of E s a] w by simp
      have fr: "\<And>b. b \<noteq> a \<Longrightarrow> fm_store s1 b = fm_store s b" "fm_wsID s1 = fm_wsID s"
        using sendUpdates_frame [where a = a and E = E and s = s] w by simp_all
      note IH = Cons.IH [OF fl]
      have "fm_store s' b = fm_store s b" if "nf_ws (fm_store s b) = None"
        using IH fr(1) [of b] a(2) that s2(1) fm_skelD(5) [OF sk, of b] by metis
      moreover have "\<forall>j \<in> set cl. \<exists>a. fm_filters s j = Some a \<and> nf_ws (fm_store s a) \<noteq> None"
        using IH s2(2) a fm_skelD(2) [OF sk] fm_skelD(5) [OF sk] by (metis insert_iff subsetD)
      ultimately show ?thesis using IH fr(2) s2(1) by simp
    qed
  qed
  then show "nf_ws (fm_store s b) = None \<Longrightarrow> fm_store s' b = fm_store s b" and "fm_wsID s' = fm_wsID s"
    and "j \<in> set cl \<Longrightarrow> \<exists>a. fm_filters s j = Some a \<and> nf_ws (fm_store s a) \<noteq> None" by blast+
qed

lemma removes_keep:
  "fm_wf s \<Longrightarrow> i \<notin> set cl \<Longrightarrow>
   fm_abs (foldl (\<lambda>s j. snd (removeFilterByID s j)) s cl) i = fm_abs s i"
  by (induction cl arbitrary: s) (auto simp: fm_wf_removeFilterByID abs_remove)

lemma wsID_removeFilterByID: "fm_wf s \<Longrightarrow> fm_wsID (snd (removeFilterByID s j)) = fm_wsID s"
proof (cases "fm_filters s j")
  case None then show ?thesis by (simp add: removeFilterByID_none)
next
  case (Some a)
  assume wf: "fm_wf s"
  have a: "a < fm_next s" using fm_wf_filter [OF wf Some] by simp
  obtain s' where s': "removeFilterByID s j = (True, s')" "same_data s s'"
    by (rule removeFilterByID_some [OF fm_wf_ok [OF wf] Some a]) (rule that, assumption+)
  then show ?thesis by (simp add: same_data_def)
qed

lemma wsID_removes: "fm_wf s \<Longrightarrow> fm_wsID (foldl (\<lambda>s j. snd (removeFilterByID s j)) s cl) = fm_wsID s"
  by (induction cl arbitrary: s) (simp_all add: fm_wf_removeFilterByID wsID_removeFilterByID)

lemma wsID_process: "fm_wsID (processEvent ps orders s ms) = fm_wsID s"
proof -
  have o: "fm_wsID (offer_msg ps m s i) = fm_wsID s" for m s i
    by (simp add: offer_msg_def appendLog_def filter_at_def split: option.splits)
  have "fm_wsID (appendNodeLogToFilters ps order s m) = fm_wsID s" for order s m
    unfolding appendNodeLogToFilters_def by (induction order arbitrary: s) (simp_all add: o)
  then show ?thesis by (induction ms arbitrary: s orders) simp_all
qed

lemma fm_wf_process: "fm_wf s \<Longrightarrow> fm_wf (processEvent ps orders s ms)"
  by (erule fm_wf_frame) simp_all

lemma abs_dispatch:
  assumes wf: "fm_wf s" and o: "\<And>k. distinct (orders k) \<and> set (orders k) = dom (fm_filters s)"
    and f: "fm_abs s i = Some f" "af_ws f = None" and nc: "\<not> fm_crashed (dispatchEvent ps orders order E s ev)"
  shows "fm_abs (dispatchEvent ps orders order E s ev) i =
      Some (f\<lparr>af_msgs := af_msgs f @ filter (opt_Match ps (af_query f)) (ev_NewApp ev)\<rparr>)"
    and "fm_wsID (dispatchEvent ps orders order E s ev) = fm_wsID s"
proof -
  let ?p = "processEvent ps orders s (ev_NewApp ev)"
  obtain cl s2 where fl: "flush_loop E ?p order = (cl, s2)" by fastforce
  have np: "\<not> fm_crashed ?p" using nc by (auto simp: dispatchEvent_def)
  have wfp: "fm_wf ?p" by (rule fm_wf_process [OF wf])
  have sk: "fm_skel s2 = fm_skel ?p" using skel_flush_loop [of E ?p order] fl by simp
  have wf2: "fm_wf s2"
  proof (rule fm_wf_frame [OF wfp sk])
    show "set (fm_pending s2) \<subseteq> set (fm_pending ?p)" using pending_flush_loop [of E ?p order] fl by simp
  qed
  note F = flush_loop_frame [OF fl]
  have eq: "dispatchEvent ps orders order E s ev = foldl (\<lambda>s j. snd (removeFilterByID s j)) s2 cl"
    using np by (simp add: dispatchEvent_def flushWsFilters_def fl)
  obtain a where a: "fm_filters s i = Some a" "f = af_of (fm_store s a)"
    using f(1) by (auto simp: fm_abs_def)
  have fil: "fm_filters ?p = fm_filters s" by (rule fm_skelD(2) [OF skel_process])
  have ws: "nf_ws (fm_store ?p a) = None"
    using fm_skelD(5) [OF skel_process [of ps orders s "ev_NewApp ev"], of a] f(2) a(2) by (simp add: af_of_def)
  have "i \<notin> set cl" using F(3) [of i] a(1) ws by (auto simp: fil)
  then have "fm_abs (dispatchEvent ps orders order E s ev) i = fm_abs s2 i"
    unfolding eq by (rule removes_keep [OF wf2])
  also have "\<dots> = fm_abs ?p i"
    using F(1) [OF ws] a(1) fm_skelD(2) [OF sk] by (simp add: fm_abs_def fil)
  also have "\<dots> = Some (f\<lparr>af_msgs := af_msgs f @ filter (opt_Match ps (af_query f)) (ev_NewApp ev)\<rparr>)"
    using abs_process [OF wf o np, of i] f(1) by simp
  finally show "fm_abs (dispatchEvent ps orders order E s ev) i =
      Some (f\<lparr>af_msgs := af_msgs f @ filter (opt_Match ps (af_query f)) (ev_NewApp ev)\<rparr>)" .
  show "fm_wsID (dispatchEvent ps orders order E s ev) = fm_wsID s"
    unfolding eq wsID_removes [OF wf2] F(2) wsID_process ..
qed

lemma nil_query_abs: "nil_query s j \<longleftrightarrow> (\<exists>f. fm_abs s j = Some f \<and> af_query f = None)"
  by (cases "fm_filters s j") (simp_all add: nil_query_def fm_abs_def af_of_def)

section \<open>Runs of the manager's operations\<close>

datatype fm_op =
    ONew string "node_query option" "ws_conn option"
  | OGet string
  | OUninstall string
  | ORemoveWs ws_conn
  | OEvent app_event "nat \<Rightarrow> string list" "string list" flush_env
  | OTick int

definition fm_exec :: "(peer_id \<Rightarrow> string) \<Rightarrow> fm_op \<Rightarrow> nfm \<Rightarrow> application list \<times> nfm" where
  "fm_exec ps op s = (case op of
      ONew uuid q ws \<Rightarrow> ([], snd (NewNodeFilter s uuid q ws))
    | OGet i \<Rightarrow> (case GetFilterChanges s i of (Inl _, s1) \<Rightarrow> ([], s1) | (Inr res, s1) \<Rightarrow> (res, s1))
    | OUninstall i \<Rightarrow> ([], snd (Uninstall s i))
    | ORemoveWs w \<Rightarrow> ([], RemoveFilterByWs s w)
    | OEvent ev orders order E \<Rightarrow> ([], dispatchEvent ps orders order E s ev)
    | OTick t \<Rightarrow> ([], s\<lparr>fm_now := t\<rparr>))"

text \<open>New identifiers are fresh, and the map is walked over its keys.  A run is one of a living process:
  in none of its states has the goroutine of \<open>Run\<close> panicked.  \<open>OUninstall\<close> stands for the call of a
  client and for the one the timer of \<open>Run\<close> makes.\<close>

definition fm_op_ok :: "fm_op \<Rightarrow> nfm \<Rightarrow> bool" where
  "fm_op_ok op s = (case op of
      ONew uuid q ws \<Rightarrow> uuid \<noteq> '''' \<and> fm_filters s uuid = None
    | OEvent ev orders order E \<Rightarrow> \<forall>k. distinct (orders k) \<and> set (orders k) = dom (fm_filters s)
    | _ \<Rightarrow> True)"

fun fm_run :: "(peer_id \<Rightarrow> string) \<Rightarrow> fm_op list \<Rightarrow> nfm \<Rightarrow> (fm_op \<times> application list) list \<times> nfm" where
  "fm_run ps [] s = ([], s)"
| "fm_run ps (op # ops) s = (case fm_exec ps op s of (r, s1) \<Rightarrow>
     (case fm_run ps ops s1 of (tr, s2) \<Rightarrow> ((op, r) # tr, s2)))"

fun fm_run_ok :: "(peer_id \<Rightarrow> string) \<Rightarrow> fm_op list \<Rightarrow> nfm \<Rightarrow> bool" where
  "fm_run_ok ps [] s \<longleftrightarrow> \<not> fm_crashed s"
| "fm_run_ok ps (op # ops) s \<longleftrightarrow> \<not> fm_crashed s \<and> fm_op_ok op s \<and> fm_run_ok ps ops (snd (fm_exec ps op s))"

lemma run_ok_alive: "fm_run_ok ps ops s \<Longrightarrow> \<not> fm_crashed s"
  by (cases ops) simp_all

text \<open>The answers to \<open>GetFilterChanges i\<close> in a trace, and the applications a query asks for in the
  events of a run.\<close>

definition answers :: "string \<Rightarrow> (fm_op \<times> application list) list \<Rightarrow> application list" where
  "answers i tr = concat (map snd (filter (\<lambda>(op, _). op = OGet i) tr))"

definition wanted_op :: "(peer_id \<Rightarrow> string) \<Rightarrow> node_query option \<Rightarrow> fm_op \<Rightarrow> application list" where
  "wanted_op ps q op = (case op of OEvent ev _ _ _ \<Rightarrow> filter (opt_Match ps q) (ev_NewApp ev) | _ \<Rightarrow> [])"

lemma get_delivers:
  assumes wf: "fm_wf s" and f: "fm_abs s i = Some f" "af_ws f = None" and ws: "\<forall>w. fm_wsID s w \<noteq> i"
    and ex: "fm_exec ps (OGet j) s = (r, s1)"
  shows "fm_wf s1 \<and> (\<forall>w. fm_wsID s1 w \<noteq> i) \<and> (\<exists>f'. fm_abs s1 i = Some f' \<and> af_ws f' = None \<and>
    af_query f' = af_query f \<and> (if j = i then r else []) @ af_msgs f' = af_msgs f)"
proof -
  note G = abs_get [OF wf, of j]
  consider (none) "fm_abs s j = None" | (wsf) g where "fm_abs s j = Some g" "af_ws g \<noteq> None"
    | (plain) g where "fm_abs s j = Some g" "af_ws g = None" by (cases "fm_abs s j") auto
  then show ?thesis
  proof cases
    case none
    then have "s1 = s" "j \<noteq> i" using G ex f by (auto simp: fm_exec_def)
    then show ?thesis using wf ws f by simp
  next
    case wsf
    then have "s1 = s" "j \<noteq> i" using G ex f by (auto simp: fm_exec_def)
    then show ?thesis using wf ws f by simp
  next
    case plain
    then have g: "fst (GetFilterChanges s j) = Inr (af_msgs g)"
      "fm_abs (snd (GetFilterChanges s j)) = (fm_abs s)(j \<mapsto> g\<lparr>af_msgs := [], af_expires := fm_now s + fm_timeout s\<rparr>)"
      "fm_wf (snd (GetFilterChanges s j))" "fm_wsID (snd (GetFilterChanges s j)) = fm_wsID s"
      using G by simp_all
    obtain x where x: "GetFilterChanges s j = (Inr (af_msgs g), x)" using g(1) by (cases "GetFilterChanges s j") simp
    have "r = af_msgs g" "s1 = x" using ex x by (simp_all add: fm_exec_def)
    then show ?thesis using g x plain f ws by (cases "j = i") simp_all
  qed
qed

lemma exec_delivers:
  assumes wf: "fm_wf s" and ok: "fm_op_ok op s" and f: "fm_abs s i = Some f" "af_ws f = None"
    and ws: "\<forall>w. fm_wsID s w \<noteq> i" and op: "op \<noteq> OUninstall i" and ex: "fm_exec ps op s = (r, s1)"
    and nc: "\<not> fm_crashed s1"
  shows "fm_wf s1 \<and> (\<forall>w. fm_wsID s1 w \<noteq> i) \<and> (\<exists>f'. fm_abs s1 i = Some f' \<and> af_ws f' = None \<and>
    af_query f' = af_query f \<and>
    (if op = OGet i then r else []) @ af_msgs f' = af_msgs f @ wanted_op ps (af_query f) op)"
proof (cases op)
  case (ONew uuid q ws')
  have u: "uuid \<noteq> ''''" "fm_filters s uuid = None" using ok ONew by (simp_all add: fm_op_ok_def)
  have "uuid \<noteq> i" using u f(1) by (auto simp: fm_abs_def)
  moreover have "s1 = snd (NewNodeFilter s uuid q ws')" using ex ONew by (simp add: fm_exec_def)
  ultimately show ?thesis
    using fm_wf_NewNodeFilter [OF wf u] abs_new [OF wf u, of q ws'] wsID_new [OF wf, of uuid q ws'] f ws ONew
    by (simp add: wanted_op_def)
next
  case (OGet j)
  then show ?thesis using get_delivers [OF wf f ws, of ps j r s1] ex by (simp add: wanted_op_def)
next
  case (OUninstall j)
  then have "s1 = snd (removeFilterByID s j)" "j \<noteq> i" using ex op by (simp_all add: fm_exec_def Uninstall_def)
  then show ?thesis using fm_wf_removeFilterByID [OF wf] abs_remove(1) [OF wf] wsID_removeFilterByID [OF wf] f ws OUninstall
    by (simp add: wanted_op_def)
next
  case (ORemoveWs w)
  then have "s1 = snd (removeFilterByID s (fm_wsID s w))" "i \<noteq> fm_wsID s w"
    using ex ws [rule_format, of w, symmetric] by (simp_all add: fm_exec_def RemoveFilterByWs_def)
  then show ?thesis using fm_wf_removeFilterByID [OF wf] abs_remove(1) [OF wf] wsID_removeFilterByID [OF wf] f ws ORemoveWs
    by (simp add: wanted_op_def)
next
  case (OEvent ev orders order E)
  have o: "distinct (orders k) \<and> set (orders k) = dom (fm_filters s)" for k
    using ok OEvent by (simp add: fm_op_ok_def)
  have s1: "s1 = dispatchEvent ps orders order E s ev" using ex OEvent by (simp add: fm_exec_def)
  show ?thesis
    using fm_wf_dispatch [OF wf, of ps orders order E ev] abs_dispatch [OF wf o f nc [unfolded s1]] f ws OEvent
    by (simp add: s1 wanted_op_def)
next
  case (OTick t)
  then have s1: "s1 = s\<lparr>fm_now := t\<rparr>" using ex by (simp add: fm_exec_def)
  have "fm_wf s1" unfolding s1 by (rule fm_wf_frame [OF wf]) simp_all
  moreover have "fm_abs s1 = fm_abs s" "fm_wsID s1 = fm_wsID s" by (simp_all add: s1 fm_abs_def fun_eq_iff)
  ultimately show ?thesis using f ws OTick by (simp add: wanted_op_def)
qed

lemma run_delivers:
  assumes "fm_wf s" "fm_run_ok ps ops s" "fm_abs s i = Some f" "af_ws f = None" "\<forall>w. fm_wsID s w \<noteq> i"
    "OUninstall i \<notin> set ops" "fm_run ps ops s = (tr, s')"
  shows "\<exists>f'. fm_abs s' i = Some f' \<and> af_query f' = af_query f \<and>
    answers i tr @ af_msgs f' = af_msgs f @ concat (map (wanted_op ps (af_query f)) ops)"
  using assms
proof (induction ops arbitrary: s f tr)
  case Nil
  then show ?case by (simp add: answers_def)
next
  case (Cons op ops)
  obtain r s1 where ex: "fm_exec ps op s = (r, s1)" by fastforce
  obtain tr1 where tr1: "fm_run ps ops s1 = (tr1, s')" "tr = (op, r) # tr1"
    using Cons.prems(7) ex by (auto split: prod.splits)
  have ok: "fm_op_ok op s" "fm_run_ok ps ops s1" "op \<noteq> OUninstall i" "OUninstall i \<notin> set ops"
    using Cons.prems(2,6) ex by auto
  obtain f1 where f1: "fm_wf s1" "\<forall>w. fm_wsID s1 w \<noteq> i" "fm_abs s1 i = Some f1" "af_ws f1 = None"
    "af_query f1 = af_query f"
    "(if op = OGet i then r else []) @ af_msgs f1 = af_msgs f @ wanted_op ps (af_query f) op"
    using exec_delivers [OF Cons.prems(1) ok(1) Cons.prems(3-5) ok(3) ex run_ok_alive [OF ok(2)]] by blast
  obtain f' where f': "fm_abs s' i = Some f'" "af_query f' = af_query f1"
    "answers i tr1 @ af_msgs f' = af_msgs f1 @ concat (map (wanted_op ps (af_query f1)) ops)"
    using Cons.IH [OF f1(1) ok(2) f1(3,4,2) ok(4) tr1(1)] by blast
  have "answers i tr = (if op = OGet i then r else []) @ answers i tr1"
    by (simp add: answers_def tr1(2))
  then have "answers i tr @ af_msgs f' = af_msgs f @ concat (map (wanted_op ps (af_query f)) (op # ops))"
    using f'(3) f1(5,6) by (metis append.assoc concat.simps(2) list.simps(9))
  then show ?case using f'(1,2) f1(5) by auto
qed

section \<open>The worker\<close>

lemma next_is_root:
  assumes wf: "fm_wf s" and ne: "fm_timeouts s \<noteq> []"
  shows "nextTimeoutFilter s = (nf_id (fm_store s (fm_timeouts s ! 0)), th_key s (fm_timeouts s ! 0))"
    and "nf_id (fm_store s (fm_timeouts s ! 0)) \<noteq> ''''"
    and "a \<in> set (fm_timeouts s) \<Longrightarrow> th_key s (fm_timeouts s ! 0) \<le> th_key s a"
proof -
  have "fm_timeouts s ! 0 < fm_next s" using wf ne by (auto simp: fm_wf_def th_ok_def)
  then show "nf_id (fm_store s (fm_timeouts s ! 0)) \<noteq> ''''" using wf by (simp add: fm_wf_def)
  show "nextTimeoutFilter s = (nf_id (fm_store s (fm_timeouts s ! 0)), th_key s (fm_timeouts s ! 0))"
    using ne by (simp add: nextTimeoutFilter_def th_key_def Let_def)
  have "heap_ok (th_key s) (fm_timeouts s) (length (fm_timeouts s))"
    using wf by (simp add: fm_wf_def th_ok_def thh.good_def)
  then show "a \<in> set (fm_timeouts s) \<Longrightarrow> th_key s (fm_timeouts s ! 0) \<le> th_key s a"
    using heap_ok_root by (fastforce simp: in_set_conv_nth)
qed

text \<open>The state after a filter has been read, uninstalled by another caller, and then had its timeout
  refreshed by the reader.\<close>

definition race_get :: "int \<Rightarrow> nfm" where
  "race_get timeout =
     (let s1 = snd (NewNodeFilter (NewNodeFilterManager timeout) ''u'' (nf_query zero_filter) None)
      in case getFilterAndChanges s1 ''u'' of (_, s2) \<Rightarrow> s2\<lparr>fm_pending := 0 # fm_pending s2\<rparr>)"

definition race_state :: "int \<Rightarrow> nfm" where
  "race_state timeout =
     (let s3 = snd (Uninstall (race_get timeout) ''u'');
          s4 = refreshFilterTimeout (s3\<lparr>fm_pending := remove1 0 (fm_pending s3)\<rparr>) 0
      in s4\<lparr>fm_now := max 0 timeout\<rparr>)"

lemma th_addFilter_single:
  "fm_timeouts s = [] \<Longrightarrow> th_addFilter s a = (set_heapIndex s a 0)\<lparr>fm_timeouts := [a]\<rparr>"
  by (simp add: th_addFilter_def heap_Push_def heap_up.simps th_if_def th_Len_def th_Push_def)

lemma th_removeFilter_single:
  "fm_timeouts s = [a] \<Longrightarrow> nf_heapIndex (fm_store s a) = 0 \<Longrightarrow>
   th_removeFilter s a = (True, (set_heapIndex s a (-1))\<lparr>fm_timeouts := []\<rparr>)"
  by (simp add: th_removeFilter_def heap_Remove_def th_if_def th_Len_def th_Pop_def NoIndexInHeap_def Let_def)

lemma th_removeFilter_out: "nf_heapIndex (fm_store s a) = -1 \<Longrightarrow> th_removeFilter s a = (False, s)"
  by (simp add: th_removeFilter_def NoIndexInHeap_def)

lemmas fm_eval = NewNodeFilter_def addFilter_def addFilterTimeout_def th_addFilter_single
  set_heapIndex_def filter_at_def emitSignalToUpdateCh_def NewNodeFilterManager_def newNodeFilterBase_def
  hasWSConn_def getFilterAndChanges_def takeNodeMsgUpdates_def Uninstall_def removeFilterByID_def
  th_removeFilter_single th_removeFilter_out NoIndexInHeap_def refreshFilterTimeout_def

lemma race_get_eq:
  "race_get timeout = (NewNodeFilterManager timeout)\<lparr>fm_store := (\<lambda>_. zero_filter)
     (0 := \<lparr>nf_id = ''u'', nf_heapIndex = 0, nf_expiresAt = timeout, nf_ws = None,
            nf_query = nf_query zero_filter, nf_msgs = []\<rparr>),
     fm_next := 1, fm_filters := [''u'' \<mapsto> 0], fm_timeouts := [0], fm_pending := [0]\<rparr>"
  by (simp add: race_get_def fm_eval)

lemma race_state_eq:
  "race_state timeout = (NewNodeFilterManager timeout)\<lparr>fm_store := (\<lambda>_. zero_filter)
     (0 := \<lparr>nf_id = ''u'', nf_heapIndex = 0, nf_expiresAt = timeout, nf_ws = None,
            nf_query = nf_query zero_filter, nf_msgs = []\<rparr>),
     fm_next := 1, fm_timeouts := [0], fm_now := max 0 timeout\<rparr>"
  by (simp add: race_state_def race_get_eq fm_eval)

lemma race_get_reachable: "fm_reach ps timeout (race_get timeout)"
proof -
  let ?s0 = "NewNodeFilterManager timeout"
  have r1: "fm_reach ps timeout (snd (NewNodeFilter ?s0 ''u'' (nf_query zero_filter) None))" (is "fm_reach _ _ ?s1")
    by (rule fr_step [OF fr_init _ st_new]) (simp_all add: NewNodeFilterManager_def)
  have alive: "\<not> fm_crashed ?s1" by (simp add: fm_eval)
  have "\<exists>res s2. getFilterAndChanges ?s1 ''u'' = (Inr (0, res), s2) \<and>
      s2\<lparr>fm_pending := 0 # fm_pending s2\<rparr> = race_get timeout"
    unfolding race_get_eq by (simp add: fm_eval)
  then obtain res s2 where g: "getFilterAndChanges ?s1 ''u'' = (Inr (0, res), s2)"
    "s2\<lparr>fm_pending := 0 # fm_pending s2\<rparr> = race_get timeout" by blast
  show ?thesis using fr_step [OF r1 alive st_get [OF g(1)]] unfolding g(2) .
qed

lemma race_reachable: "fm_reach ps timeout (race_state timeout)"
proof -
  have r3: "fm_reach ps timeout (snd (Uninstall (race_get timeout) ''u''))" (is "fm_reach _ _ ?s3")
    by (rule fr_step [OF race_get_reachable _ st_uninstall]) (simp add: race_get_eq NewNodeFilterManager_def)
  have alive: "\<not> fm_crashed ?s3" "\<not> fm_crashed (refreshFilterTimeout (?s3\<lparr>fm_pending := remove1 0 (fm_pending ?s3)\<rparr>) 0)"
    by (simp_all add: race_get_eq fm_eval)
  have p: "0 \<in> set (fm_pending ?s3)" by (simp add: race_get_eq fm_eval)
  have now: "fm_now (refreshFilterTimeout (?s3\<lparr>fm_pending := remove1 0 (fm_pending ?s3)\<rparr>) 0) \<le> max 0 timeout"
    by (simp add: race_get_eq fm_eval)
  show ?thesis unfolding race_state_def Let_def
    by (rule fr_step [OF fr_step [OF r3 alive(1) st_refresh [OF p]] alive(2) st_tick [OF now]])
qed

section \<open>Properties\<close>

text \<open>In every reachable state the worker arms its timer for the earliest expiry time of all installed
  filters without a web socket, and finds nothing to wait for only when there is no such filter.\<close>

theorem next_timeout_is_earliest:
  assumes "fm_reach ps timeout s" and "fm_filters s i = Some a" and "\<not> hasWSConn (fm_store s a)"
  shows "fst (nextTimeoutFilter s) \<noteq> '''' \<and> snd (nextTimeoutFilter s) \<le> nf_expiresAt (fm_store s a)"
proof -
  have wf: "fm_wf s" by (rule fm_wf_reach [OF assms(1)])
  have a: "a \<in> set (fm_timeouts s)" using fm_wf_filter [OF wf assms(2)] assms(3) by (simp add: hasWSConn_def)
  then have ne: "fm_timeouts s \<noteq> []" by auto
  note N = next_is_root [OF wf ne]
  show ?thesis using N(1,2) N(3) [OF a] by (simp add: th_key_def)
qed

theorem next_timeout_is_earliest_witness:
  "fst (nextTimeoutFilter (race_get 7)) \<noteq> '''' \<and> snd (nextTimeoutFilter (race_get 7)) \<le> 7"
proof -
  have f: "fm_filters (race_get 7) ''u'' = Some 0" "\<not> hasWSConn (fm_store (race_get 7) 0)"
    "nf_expiresAt (fm_store (race_get 7) 0) = 7" by (simp_all add: race_get_eq hasWSConn_def)
  from next_timeout_is_earliest [OF race_get_reachable [of id] f(1,2)] f(3) show ?thesis by simp
qed

text \<open>C10. The manager implements an abstract map from identifiers to filters: uninstalling removes the
  entry, a new filter is an entry with a full timeout, reading returns the waiting applications once,
  empties them and renews the timeout, reading an unknown or web socket filter is an error that
  changes nothing, and an event appends to each filter exactly the applications its query matches, in
  order and whatever the order in which the map is walked, unless some filter has a nil query: then,
  and only then, an event with an application ends the process.  All of this is of a process that has
  not ended so.\<close>

theorem manager_refines_map:
  assumes "fm_reach ps timeout s" and "\<not> fm_crashed s"
  shows "fm_abs (snd (Uninstall s i)) = (fm_abs s)(i := None) \<and>
    (fst (Uninstall s i) \<longleftrightarrow> fm_abs s i \<noteq> None) \<and>
    (uuid \<noteq> '''' \<and> fm_abs s uuid = None \<longrightarrow>
       fm_abs (snd (NewNodeFilter s uuid q ws)) = (fm_abs s)(uuid \<mapsto> \<lparr>af_query = q, af_ws = ws,
         af_expires = (if ws = None then fm_now s + fm_timeout s else 0), af_msgs = []\<rparr>)) \<and>
    (case fm_abs s i of
       None \<Rightarrow> GetFilterChanges s i = (Inl ErrFilterNotFound, s)
     | Some f \<Rightarrow>
         if af_ws f \<noteq> None then GetFilterChanges s i = (Inl ErrWSFilterDoesNotSupportGetChanges, s)
         else fst (GetFilterChanges s i) = Inr (af_msgs f) \<and>
           fm_abs (snd (GetFilterChanges s i)) =
             (fm_abs s)(i \<mapsto> f\<lparr>af_msgs := [], af_expires := fm_now s + fm_timeout s\<rparr>)) \<and>
    ((\<forall>k. distinct (orders k) \<and> set (orders k) = dom (fm_filters s)) \<longrightarrow>
       (if ms \<noteq> [] \<and> (\<exists>j f. fm_abs s j = Some f \<and> af_query f = None)
        then fm_crashed (processEvent ps orders s ms)
        else \<not> fm_crashed (processEvent ps orders s ms) \<and>
          fm_abs (processEvent ps orders s ms) i =
            map_option (\<lambda>f. f\<lparr>af_msgs := af_msgs f @ filter (opt_Match ps (af_query f)) ms\<rparr>) (fm_abs s i)))"
proof -
  have wf: "fm_wf s" by (rule fm_wf_reach [OF assms(1)])
  have "uuid \<noteq> '''' \<and> fm_abs s uuid = None \<longrightarrow>
       fm_abs (snd (NewNodeFilter s uuid q ws)) = (fm_abs s)(uuid \<mapsto> \<lparr>af_query = q, af_ws = ws,
         af_expires = (if ws = None then fm_now s + fm_timeout s else 0), af_msgs = []\<rparr>)"
    using abs_new [OF wf, of uuid q ws] by (auto simp: fm_abs_eq_None)
  moreover have "(case fm_abs s i of
       None \<Rightarrow> GetFilterChanges s i = (Inl ErrFilterNotFound, s)
     | Some f \<Rightarrow>
         if af_ws f \<noteq> None then GetFilterChanges s i = (Inl ErrWSFilterDoesNotSupportGetChanges, s)
         else fst (GetFilterChanges s i) = Inr (af_msgs f) \<and>
           fm_abs (snd (GetFilterChanges s i)) =
             (fm_abs s)(i \<mapsto> f\<lparr>af_msgs := [], af_expires := fm_now s + fm_timeout s\<rparr>))"
    using abs_get [OF wf, of i] by (cases "fm_abs s i") (simp_all split: if_splits)
  moreover have "(\<exists>j f. fm_abs s j = Some f \<and> af_query f = None) \<longleftrightarrow> (\<exists>j. nil_query s j)"
    by (simp add: nil_query_abs)
  then have "(\<forall>k. distinct (orders k) \<and> set (orders k) = dom (fm_filters s)) \<longrightarrow>
       (if ms \<noteq> [] \<and> (\<exists>j f. fm_abs s j = Some f \<and> af_query f = None)
        then fm_crashed (processEvent ps orders s ms)
        else \<not> fm_crashed (processEvent ps orders s ms) \<and>
          fm_abs (processEvent ps orders s ms) i =
            map_option (\<lambda>f. f\<lparr>af_msgs := af_msgs f @ filter (opt_Match ps (af_query f)) ms\<rparr>) (fm_abs s i))"
    using abs_process [OF wf, of orders ps ms i] process_crashes [of orders s ps ms] assms(2) by simp
  ultimately show ?thesis unfolding Uninstall_def using abs_remove [OF wf] by simp
qed

theorem manager_refines_map_witness:
  "GetFilterChanges (NewNodeFilterManager 60) ''x'' = (Inl ErrFilterNotFound, NewNodeFilterManager 60)"
  using manager_refines_map [OF fr_init _, where i = "''x''" and uuid = "''x''" and q = undefined and
      ws = None and orders = "\<lambda>_. []" and ms = "[]" and timeout = 60 and ps = id]
  by (simp add: fm_abs_def NewNodeFilterManager_def)

text \<open>C11. A filter without a web socket that nobody uninstalls, neither a caller nor the timer of \<open>Run\<close>
  when it expires, stays installed through any sequence of operations of a process that lives (no event
  meets a nil query), and the concatenated answers to \<open>GetFilterChanges\<close> followed by what is still waiting
  are exactly the initially waiting applications followed by the applications its query matches in the
  dispatched events: each is delivered once, in order, and none is lost.\<close>

theorem filter_changes_exactly_once:
  assumes "fm_reach ps timeout s" and "fm_run_ok ps ops s" and "fm_abs s i = Some f" and "af_ws f = None"
    and "\<forall>w. fm_wsID s w \<noteq> i" and "OUninstall i \<notin> set ops"
  shows "\<exists>f'. fm_abs (snd (fm_run ps ops s)) i = Some f' \<and>
    answers i (fst (fm_run ps ops s)) @ af_msgs f' =
      af_msgs f @ concat (map (wanted_op ps (af_query f)) ops)"
proof -
  obtain tr s' where r: "fm_run ps ops s = (tr, s')" by fastforce
  from run_delivers [OF fm_wf_reach [OF assms(1)] assms(2-6) r] show ?thesis by (auto simp: r)
qed

definition any_query :: node_query where
  "any_query = \<lparr>nq_Name = '''', nq_Tag = '''', nq_Id = '''', nq_Version = ''''\<rparr>"

definition one_event :: fm_op where
  "one_event = OEvent (empty_event\<lparr>ev_NewApp := [gossip_app ''p'' '''' '''' sample_status]\<rparr>) (\<lambda>_. [''u'']) [''u'']
     \<lparr>fe_Marshal = (\<lambda>_. Inr []), fe_Write = (\<lambda>_ _. None)\<rparr>"

lemma zero_query: "nf_query zero_filter = Some (the (nf_query zero_filter))"
    "query_Match ps (the (nf_query zero_filter)) m"
  by (simp_all add: zero_filter_def newNodeFilterBase_def query_Match_def)

theorem filter_changes_exactly_once_witness:
  "\<exists>f'. fm_abs (snd (fm_run id [one_event, OGet ''u'', OTick 9] (race_get 7))) ''u'' = Some f' \<and>
     answers ''u'' (fst (fm_run id [one_event, OGet ''u'', OTick 9] (race_get 7))) @ af_msgs f' =
       [gossip_app ''p'' '''' '''' sample_status]"
proof -
  let ?q = "the (nf_query zero_filter)"
  have f: "fm_abs (race_get 7) ''u'' =
      Some \<lparr>af_query = Some ?q, af_ws = None, af_expires = 7, af_msgs = []\<rparr>"
    by (simp add: fm_abs_def race_get_eq af_of_def zero_query(1) [symmetric])
  have ws: "\<forall>w. fm_wsID (race_get 7) w \<noteq> ''u''" by (simp add: race_get_eq NewNodeFilterManager_def)
  have rq: "race_get 7 = (NewNodeFilterManager 7)\<lparr>fm_store := (\<lambda>_. zero_filter)
     (0 := \<lparr>nf_id = ''u'', nf_heapIndex = 0, nf_expiresAt = 7, nf_ws = None, nf_query = Some ?q, nf_msgs = []\<rparr>),
     fm_next := 1, fm_filters := [''u'' \<mapsto> 0], fm_timeouts := [0], fm_pending := [0]\<rparr>"
    unfolding race_get_eq zero_query(1) [symmetric] ..
  have ok: "fm_run_ok id [one_event, OGet ''u'', OTick 9] (race_get 7)"
    by (simp add: rq fm_op_ok_def one_event_def fm_exec_def dispatchEvent_def flushWsFilters_def empty_event_def
        appendNodeLogToFilters_def offer_msg_def appendLog_def fm_eval GetFilterChanges_def zero_query(2))
  show ?thesis
    using filter_changes_exactly_once [OF race_get_reachable ok f _ ws]
    by (simp add: wanted_op_def one_event_def opt_Match_def empty_event_def zero_query(2))
qed

text \<open>C12. Whatever the timeout, a reachable history (a filter is read, another caller uninstalls it before
  the reader renews its timeout) leaves a filter in the timeout heap that is not installed; once it has
  expired, the loop of \<open>Run\<close> arms an already expired timer, fails to uninstall the filter and is back
  in the very same state: it spins without end.\<close>

theorem refresh_race_spins:
  "\<exists>s i t. fm_reach ps timeout s \<and> fm_worker s = WTop None \<and> fm_filters s = Map.empty \<and>
     nextTimeoutFilter s = (i, t) \<and> timer_fired s (Some t) \<and>
     run_next s None = s\<lparr>fm_worker := WArmed i (Some t)\<rparr> \<and>
     fst (Uninstall s i) = False \<and> run_timeout (s\<lparr>fm_worker := WSelect i (Some t)\<rparr>) i = s \<and>
     (fm_step ps)\<^sup>+\<^sup>+ s s"
proof -
  let ?s = "race_state timeout"
  have n: "nextTimeoutFilter ?s = (''u'', timeout)"
    by (simp add: nextTimeoutFilter_def race_state_eq Let_def)
  have w: "fm_worker ?s = WTop None" "fm_filters ?s = Map.empty"
    by (simp_all add: race_state_eq NewNodeFilterManager_def)
  have fired: "timer_fired ?s (Some timeout)" by (simp add: timer_fired_def race_state_eq)
  have rn: "run_next ?s None = ?s\<lparr>fm_worker := WArmed ''u'' (Some timeout)\<rparr>"
    by (simp add: run_next_def n)
  have self: "?s\<lparr>fm_worker := WTop None\<rparr> = ?s" using w(1) by simp
  have rt: "run_timeout (?s\<lparr>fm_worker := WSelect ''u'' (Some timeout)\<rparr>) ''u'' = ?s"
    using w(2) self by (simp add: run_timeout_def Uninstall_def removeFilterByID_def)
  have "fm_step ps ?s (run_next ?s None)" by (rule st_next [OF w(1)])
  moreover have "fm_step ps (run_next ?s None) (?s\<lparr>fm_worker := WSelect ''u'' (Some timeout)\<rparr>)"
    using st_wait [of "run_next ?s None" "''u''" "Some timeout" ps] by (simp add: rn)
  moreover have "fm_step ps (?s\<lparr>fm_worker := WSelect ''u'' (Some timeout)\<rparr>) ?s"
    using st_timeout [of "?s\<lparr>fm_worker := WSelect ''u'' (Some timeout)\<rparr>" "''u''" "Some timeout" ps] fired
    by (simp add: rt timer_fired_def)
  ultimately have "(fm_step ps)\<^sup>+\<^sup>+ ?s ?s" by (meson tranclp.r_into_trancl tranclp.trancl_into_trancl)
  moreover have "fst (Uninstall ?s ''u'') = False" using w(2) by (simp add: Uninstall_def removeFilterByID_def)
  ultimately show ?thesis using race_reachable n w fired rn rt by blast
qed

text \<open>A flush of a web socket filter empties its waiting list whatever happens; the frames it writes
  are those of a prefix of the list, up to the first application that does not encode or whose write
  fails, and everything from there on is lost.\<close>

theorem sendUpdates_writes_prefix:
  assumes "nf_ws (fm_store s a) = Some w" and "sendUpdates E s a = (err, s')"
  shows "\<exists>n \<le> length (nf_msgs (fm_store s a)).
    (err = None \<longleftrightarrow> n = length (nf_msgs (fm_store s a))) \<and>
    nf_msgs (fm_store s' a) = [] \<and>
    fm_written s' = fm_written s @ map (\<lambda>m. (w, edgeSubscriptionTemplate (nf_id (fm_store s a))
      (projr (fe_Marshal E m)))) (take n (nf_msgs (fm_store s a)))"
proof -
  let ?s1 = "filter_at s a (\<lambda>f. f\<lparr>nf_msgs := []\<rparr>)"
  have st: "nf_ws (fm_store ?s1 a) = Some w" "nf_id (fm_store ?s1 a) = nf_id (fm_store s a)"
    "nf_msgs (fm_store ?s1 a) = []" "fm_written ?s1 = fm_written s" using assms(1) by (simp_all add: filter_at_def)
  have "send_msgs E 0 ?s1 a (nf_msgs (fm_store s a)) = (err, s')"
    using assms(2) by (simp add: sendUpdates_def takeNodeMsgUpdates_def)
  from send_msgs_prefix [OF st(1) this] show ?thesis by (auto simp: frame_for_def st)
qed

theorem sendUpdates_writes_prefix_witness:
  "let app = gossip_app ''p'' '''' '''' sample_status;
       s = (new_entry (NewNodeFilterManager 60) ''u'' (Some any_query) (Some 3));
       s2 = appendLog (appendLog s 0 app) 0 app;
       E = \<lparr>fe_Marshal = (\<lambda>_. Inr ''json''), fe_Write = (\<lambda>_ k. if k = 0 then None else Some (GoErr ''broken pipe''))\<rparr>
   in \<exists>n \<le> (2::nat). n \<noteq> 2 \<and> nf_msgs (fm_store (snd (sendUpdates E s2 0)) 0) = []"
proof -
  define app where "app = gossip_app ''p'' '''' '''' sample_status"
  define s2 where "s2 = appendLog (appendLog (new_entry (NewNodeFilterManager 60) ''u'' (Some any_query) (Some 3)) 0 app) 0 app"
  define E where "E = \<lparr>fe_Marshal = (\<lambda>_. Inr ''json''),
      fe_Write = (\<lambda>_ k. if k = 0 then None else Some (GoErr ''broken pipe''))\<rparr>"
  have s2: "nf_ws (fm_store s2 0) = Some 3" "nf_msgs (fm_store s2 0) = [app, app]"
    by (simp_all add: s2_def appendLog_def filter_at_def NewNodeFilterManager_def newNodeFilterBase_def)
  obtain err s' where u: "sendUpdates E s2 0 = (err, s')" by fastforce
  have "err \<noteq> None" using u s2
    by (auto simp: sendUpdates_def takeNodeMsgUpdates_def E_def writeMessageToWs_def filter_at_def)
  then show ?thesis using sendUpdates_writes_prefix [OF s2(1) u] s2(2) u
    by (auto simp: Let_def s2_def [symmetric] E_def [symmetric] app_def [symmetric])
qed

text \<open>A query matches exactly the applications that agree with all its non-empty fields; since the
  gossip handler never fills in the tag, a query with a tag matches no gossiped application.\<close>

theorem gossip_tag_never_matches:
  "(query_Match pid_String q rm \<longleftrightarrow>
      (nq_Tag q = '''' \<or> nq_Tag q = ap_Tag rm) \<and> (nq_Name q = '''' \<or> nq_Name q = ap_Name rm) \<and>
      (nq_Id q = '''' \<or> nq_Id q = pid_String (ap_PeerID rm)) \<and>
      (nq_Version q = '''' \<or> nq_Version q = ap_Version rm)) \<and>
   (query_Match pid_String q (gossip_app p ip relay status) \<longrightarrow> nq_Tag q = '''')"
  by (auto simp: query_Match_def gossip_app_def)

theorem gossip_tag_never_matches_witness:
  "\<not> query_Match id (any_query\<lparr>nq_Tag := ''gpu''\<rparr>) (gossip_app ''p'' '''' '''' sample_status)"
  using gossip_tag_never_matches [of id "any_query\<lparr>nq_Tag := ''gpu''\<rparr>" "gossip_app ''p'' '''' '''' sample_status"
      "''p''" "''''" "''''" sample_status]
  by auto

end
