(* ===== verification/Go_Http.thy ===== *)
theory Go_Http
  imports Os_Files Crypto
begin

text \<open>
  The part of \<open>net/http\<close> that the servers of the program use: requests, the \<open>ResponseWriter\<close>, \<open>http.Error\<close> and
  the routing of a \<open>ServeMux\<close> with its redirect to the clean path.
\<close>

section \<open>Requests and responses\<close>

record http_req =
  hq_Method :: string
  hq_Path :: string
  hq_Origin :: string              \<comment> \<open>\<open>r.Header.Get("Origin")\<close>\<close>
  hq_Body :: "go_err + bytes"      \<comment> \<open>what \<open>io.ReadAll\<close> returns\<close>

text \<open>The header can change until it is sent, which the first \<open>Write\<close> does; a client that has gone makes
  every \<open>Write\<close> fail.\<close>

record http_resp =
  hw_Header :: "string \<rightharpoonup> string"
  hw_Sent :: "(nat \<times> (string \<rightharpoonup> string)) option"
  hw_Body :: bytes
  hw_Gone :: bool

definition new_response :: "bool \<Rightarrow> http_resp" where
  "new_response gone = \<lparr>hw_Header = Map.empty, hw_Sent = None, hw_Body = [], hw_Gone = gone\<rparr>"

definition Header_Set :: "string \<Rightarrow> string \<Rightarrow> http_resp \<Rightarrow> http_resp" where
  "Header_Set k v w = w\<lparr>hw_Header := (hw_Header w)(k \<mapsto> v)\<rparr>"

definition WriteHeader :: "nat \<Rightarrow> http_resp \<Rightarrow> http_resp" where
  "WriteHeader code w = (case hw_Sent w of None \<Rightarrow> w\<lparr>hw_Sent := Some (code, hw_Header w)\<rparr> | Some _ \<Rightarrow> w)"

definition ErrGone :: go_err where "ErrGone = GoErr ''write: broken pipe''"

definition Write :: "bytes \<Rightarrow> http_resp \<Rightarrow> go_err option \<times> http_resp" where
  "Write data w = (let w' = WriteHeader 200 w in
     if hw_Gone w then (Some ErrGone, w') else (None, w'\<lparr>hw_Body := hw_Body w' @ data\<rparr>))"

definition Write_text :: "string \<Rightarrow> http_resp \<Rightarrow> go_err option \<times> http_resp" where
  "Write_text s w = Write (text_bytes s) w"

definition http_Error :: "string \<Rightarrow> nat \<Rightarrow> http_resp \<Rightarrow> http_resp" where
  "http_Error msg code w = snd (Write_text (msg @ [CHR 0x0A])
     (WriteHeader code (Header_Set ''X-Content-Type-Options'' ''nosniff''
       (Header_Set ''Content-Type'' ''text/plain; charset=utf-8'' w))))"

text \<open>A handler returns the response, or it panics and \<open>net/http\<close> drops the connection.  When a handler returns
  without having written anything, the server sends the header then.\<close>

type_synonym 's http_handler = "http_req \<Rightarrow> http_resp \<Rightarrow> 's \<Rightarrow> (go_err option \<times> http_resp) \<times> 's"

definition finishRequest :: "go_err option \<times> http_resp \<Rightarrow> go_err option \<times> http_resp" where
  "finishRequest = (\<lambda>(panic, w). (panic, if panic = None then WriteHeader 200 w else w))"

section \<open>Routing\<close>

text \<open>\<open>ServeMux\<close> cleans the path, keeping a final slash, and redirects to it when it differs.\<close>

definition cleanPath :: "string \<Rightarrow> string" where
  "cleanPath p =
     (if p = '''' then ''/''
      else let p1 = (if hd p = CHR ''/'' then p else CHR ''/'' # p); np = Clean p1 in
        if last p1 = CHR ''/'' \<and> np \<noteq> ''/'' then np @ ''/'' else np)"

datatype 'h mux_route = MuxRedirect string | MuxHandler 'h | MuxNotFound

text \<open>The patterns are exact paths, except \<open>/\<close>, which matches the rest.\<close>

definition ServeMux_route :: "(string \<rightharpoonup> 'h) \<Rightarrow> http_req \<Rightarrow> 'h mux_route" where
  "ServeMux_route mux r =
     (let path = cleanPath (hq_Path r) in
      case (case mux path of None \<Rightarrow> mux ''/'' | Some h \<Rightarrow> Some h) of
        None \<Rightarrow> MuxNotFound
      | Some h \<Rightarrow> if hq_Method r \<noteq> ''CONNECT'' \<and> path \<noteq> hq_Path r then MuxRedirect path else MuxHandler h)"

definition mux_Handle :: "string \<Rightarrow> 'h \<Rightarrow> (string \<rightharpoonup> 'h) \<Rightarrow> go_err + (string \<rightharpoonup> 'h)" where
  "mux_Handle pattern h mux =
     (case mux pattern of Some _ \<Rightarrow> Inl (GoPanic (''http: multiple registrations for '' @ pattern))
      | None \<Rightarrow> Inr (mux(pattern \<mapsto> h)))"

section \<open>Laws\<close>

lemma Write_ok [simp]: "\<not> hw_Gone w \<Longrightarrow> Write data w = (None, (WriteHeader 200 w)\<lparr>hw_Body := hw_Body w @ data\<rparr>)"
  by (simp add: Write_def WriteHeader_def split: option.split)

lemma Write_gone [simp]: "hw_Gone w \<Longrightarrow> Write data w = (Some ErrGone, WriteHeader 200 w)"
  by (simp add: Write_def Let_def)

lemma WriteHeader_simps [simp]:
  "hw_Gone (WriteHeader c w) = hw_Gone w" "hw_Body (WriteHeader c w) = hw_Body w" "hw_Header (WriteHeader c w) = hw_Header w"
  "WriteHeader d (WriteHeader c w) = WriteHeader c w"
  by (simp_all add: WriteHeader_def split: option.split)

lemma finishRequest_simps [simp]:
  "finishRequest (None, w) = (None, WriteHeader 200 w)" "finishRequest (Some err, w) = (Some err, w)"
  by (simp_all add: finishRequest_def)

lemma Header_Set_simps [simp]:
  "hw_Gone (Header_Set k v w) = hw_Gone w" "hw_Body (Header_Set k v w) = hw_Body w" "hw_Sent (Header_Set k v w) = hw_Sent w"
  "hw_Header (Header_Set k v w) = (hw_Header w)(k \<mapsto> v)"
  by (simp_all add: Header_Set_def)

lemma new_response_simps [simp]:
  "hw_Gone (new_response g) = g" "hw_Body (new_response g) = []" "hw_Sent (new_response g) = None"
  "hw_Header (new_response g) = Map.empty"
  by (simp_all add: new_response_def)

end
