(* ===== verification/Dispatch_Props.thy ===== *)
theory Dispatch_Props
  imports Dispatcher Filter_Props
begin

text \<open>
  The properties of the JSON-RPC server: what each request is answered, batches, and what a client on
  a web socket can do to the process and to its filters.
\<close>

section \<open>Which method a request reaches\<close>

lemma split_underscore_iff:
  "split_underscore m = Some (a, b) \<longleftrightarrow> m = a @ ''_'' @ b \<and> CHR ''_'' \<notin> set a"
proof (induction m arbitrary: a)
  case Nil
  then show ?case by simp
next
  case (Cons c cs)
  show ?case
  proof (cases "c = CHR ''_''")
    case True
    then show ?thesis by (cases a) auto
  next
    case False
    have "split_underscore (c # cs) = Some (a, b) \<longleftrightarrow> (\<exists>a'. split_underscore cs = Some (a', b) \<and> a = c # a')"
      using False by (cases "split_underscore cs") auto
    also have "\<dots> \<longleftrightarrow> (\<exists>a'. cs = a' @ ''_'' @ b \<and> CHR ''_'' \<notin> set a' \<and> a = c # a')" using Cons.IH by simp
    also have "\<dots> \<longleftrightarrow> c # cs = a @ ''_'' @ b \<and> CHR ''_'' \<notin> set a"
      using False by (cases a) auto
    finally show ?thesis .
  qed
qed

lemma split_underscore_None: "split_underscore m = None \<longleftrightarrow> CHR ''_'' \<notin> set m"
  by (induction m) auto

section \<open>Calls are well typed\<close>

lemma decode_arg_type: "decode_arg t v = Inr a \<Longrightarrow> arg_has_type a t"
  by (cases t; cases v) auto

lemma zero_arg_type: "arg_has_type (zero_arg t) t"
  by (cases t) simp_all

lemma decode_args_types: "decode_args ts vs = Inr as \<Longrightarrow> list_all2 arg_has_type as ts"
  by (induction ts vs arbitrary: as rule: decode_args.induct)
    (auto simp: zero_arg_type rbind_def dest: decode_arg_type split: sum.splits)

lemma decode_params_types: "decode_params ts ps = Inr as \<Longrightarrow> list_all2 arg_has_type as ts"
  by (auto simp: decode_params_def zero_arg_type list_all2_map1 list.rel_refl split: if_splits option.splits json.splits
      dest: decode_args_types)

text \<open>So the check of \<open>Call\<close> never fails in \<open>handleReq\<close>.\<close>

lemma handleReq_eq:
  "handleReq J d req e =
     (case getFnHandler d req of
        Inl ferr \<Rightarrow> (Inr (Inl ferr), e)
      | Inr fd \<Rightarrow>
          (case decode_params (fd_reqt fd) (rq_Params req) of
             Inl _ \<Rightarrow> (Inr (Inl (InvalidParams ''Invalid Params'')), e)
           | Inr inArgs \<Rightarrow>
               (case fd_fv fd inArgs e of
                  (Inl panic, e') \<Rightarrow> (Inl panic, e')
                | (Inr (_, Some err), e') \<Rightarrow> (Inr (Inl (InvalidRequest (js_err_text J err))), e')
                | (Inr (None, None), e') \<Rightarrow> (Inr (Inr None), e')
                | (Inr (Some res, None), e') \<Rightarrow>
                    (if js_Encodes J res then Inr (Inr (Some res))
                     else Inr (Inl (InternalError ''Internal error'')), e'))))"
  by (simp add: handleReq_def reflect_Call_def decode_params_types split: sum.split)

definition edge_fns :: "('p, 'v) edge_env \<Rightarrow> 'p service_data" where
  "edge_fns E = [''getFilterChanges'' \<mapsto> \<lparr>fd_reqt = [TString], fd_fv = one_string ed_GetFilterChanges\<rparr>,
     ''networkId'' \<mapsto> \<lparr>fd_reqt = [], fd_fv = (\<lambda>_. NetworkId)\<rparr>,
     ''sendRawTelegram'' \<mapsto> \<lparr>fd_reqt = [TArgBytes], fd_fv = one_bytes (SendRawTelegram E)\<rparr>,
     ''uninstallFilter'' \<mapsto> \<lparr>fd_reqt = [TString], fd_fv = one_string UninstallFilter\<rparr>,
     ''unsubscribe'' \<mapsto> \<lparr>fd_reqt = [TString], fd_fv = one_string Unsubscribe\<rparr>]"

lemma lower_names:
  "lowerCaseFirst ''GetFilterChanges'' = ''getFilterChanges''" "lowerCaseFirst ''NetworkId'' = ''networkId''"
  "lowerCaseFirst ''SendRawTelegram'' = ''sendRawTelegram''" "lowerCaseFirst ''UninstallFilter'' = ''uninstallFilter''"
  "lowerCaseFirst ''Unsubscribe'' = ''unsubscribe''"
  by code_simp+

lemma newDispatcher_eq:
  "newDispatcher E lim = Inr \<lparr>di_services = [''edge'' \<mapsto> edge_fns E], di_batchLimit = lim\<rparr>"
  by (simp add: newDispatcher_def registerService_def edge_methods_def edge_method_def validateFunc_def isErrorType_def
      lower_names edge_fns_def)

definition edge_di :: "('p, 'v) edge_env \<Rightarrow> u64 \<Rightarrow> ('p, 'v) dispatcher" where
  "edge_di E lim = \<lparr>di_services = [''edge'' \<mapsto> edge_fns E], di_batchLimit = lim\<rparr>"

lemma getFnHandler_edge:
  "rq_Method req = ''edge_'' @ f \<Longrightarrow> edge_fns E f = Some fd \<Longrightarrow> getFnHandler (edge_di E lim) req = Inr fd"
proof -
  assume m: "rq_Method req = ''edge_'' @ f" and f: "edge_fns E f = Some fd"
  have "split_underscore (rq_Method req) = Some (''edge'', f)" unfolding split_underscore_iff m by simp
  then show ?thesis using f by (simp add: getFnHandler_def edge_di_def)
qed

lemma getFnHandler_unknown:
  assumes "\<nexists>f. rq_Method req = ''edge_'' @ f \<and> edge_fns E f \<noteq> None"
  shows "getFnHandler (edge_di E lim) req = Inl (NewMethodNotFoundError (rq_Method req))"
proof (cases "split_underscore (rq_Method req)")
  case (Some p)
  obtain a b where p: "p = (a, b)" by fastforce
  then have m: "rq_Method req = a @ ''_'' @ b" using Some split_underscore_iff by blast
  have "a = ''edge'' \<longrightarrow> edge_fns E b = None" using assms m by auto
  then show ?thesis using Some p by (auto simp: getFnHandler_def edge_di_def)
qed (simp add: getFnHandler_def)

definition edge_names :: "string list" where
  "edge_names = [''getFilterChanges'', ''networkId'', ''sendRawTelegram'', ''uninstallFilter'', ''unsubscribe'']"

lemma edge_fns_None: "edge_fns E f = None \<longleftrightarrow> f \<notin> set edge_names"
  by (simp add: edge_fns_def edge_names_def)

section \<open>Filters with a nil query\<close>

lemma nil_query_event:
  assumes "fm_filters s i = Some a" "nf_query (fm_store s a) = None" "ms \<noteq> []"
    "\<And>k. set (orders k) = dom (fm_filters s)"
  shows "fm_crashed (processEvent ps orders s ms)"
proof -
  have "nil_query s i" using assms(1,2) by (simp add: nil_query_def)
  then show ?thesis using process_crashes [of orders s ps ms] assms(3,4) by blast
qed

section \<open>Batches\<close>

lemma GetID_respond [simp]: "GetID (respond i r) = i"
  by (simp add: respond_def NewRPCResponse_def NewRPCErrorResponse_def split: sum.splits option.splits)

lemma handle_batch_ids:
  "handle_batch J d reqs e = (Inr rs, e') \<Longrightarrow> map GetID rs = map rq_ID reqs"
proof (induction reqs arbitrary: e rs)
  case (Cons req reqs)
  obtain o1 e1 where h: "handleReq J d req e = (o1, e1)" by fastforce
  show ?case
  proof (cases o1)
    case (Inl p) then show ?thesis using Cons.prems h by simp
  next
    case (Inr r)
    obtain o2 e2 where b: "handle_batch J d reqs e1 = (o2, e2)" by fastforce
    then show ?thesis using Cons.prems h Inr Cons.IH [of e1] by (cases o2) auto
  qed
qed simp

text \<open>The outcome of a call, one lemma for each kind of request.\<close>

lemma new_is_edge: "newDispatcher E lim = Inr d \<Longrightarrow> d = edge_di E lim"
  by (simp add: newDispatcher_eq edge_di_def)

lemma handleReq_unknown:
  assumes "\<forall>f \<in> set edge_names. rq_Method req \<noteq> ''edge_'' @ f"
  shows "\<exists>err. handleReq J (edge_di E lim) req e = (Inr (Inl err), e) \<and> ErrorCode err = -32601"
proof -
  have "\<nexists>f. rq_Method req = ''edge_'' @ f \<and> edge_fns E f \<noteq> None" using assms unfolding edge_fns_None by blast
  from getFnHandler_unknown [OF this] show ?thesis by (simp add: handleReq_eq NewMethodNotFoundError_def)
qed

lemma handleReq_bad_params:
  assumes "rq_Method req = ''edge_'' @ f" and "edge_fns E f = Some fd" and "decode_params (fd_reqt fd) (rq_Params req) = Inl t"
  shows "handleReq J (edge_di E lim) req e = (Inr (Inl (InvalidParams ''Invalid Params'')), e)"
  using getFnHandler_edge [OF assms(1,2)] assms(3) by (simp add: handleReq_eq)

definition encoded :: "json_lib \<Rightarrow> rpc_result \<Rightarrow> go_err + (rpc_error + rpc_result option)" where
  "encoded J res = (if js_Encodes J res then Inr (Inr (Some res)) else Inr (Inl (InternalError ''Internal error'')))"

lemma handleReq_networkId:
  assumes "rq_Method req = ''edge_networkId''"
  shows "handleReq J (edge_di E lim) req e = (encoded J (RUint (ed_networkID e)), e)"
proof -
  have "getFnHandler (edge_di E lim) req = Inr \<lparr>fd_reqt = [], fd_fv = (\<lambda>_. NetworkId)\<rparr>"
    by (rule getFnHandler_edge [where f = "''networkId''"]) (use assms in \<open>simp_all add: edge_fns_def\<close>)
  then show ?thesis by (simp add: handleReq_eq decode_params_def NetworkId_def encoded_def)
qed

lemma handleReq_GetFilterChanges:
  assumes "rq_Method req = ''edge_getFilterChanges''" and "rq_Params req = Some (JArr (JStr i # vs))"
  shows "handleReq J (edge_di E lim) req e = (case GetFilterChanges (ed_filters e) i of
      (Inl err, m) \<Rightarrow> (Inr (Inl (InvalidRequest (js_err_text J err))), e\<lparr>ed_filters := m\<rparr>)
    | (Inr res, m) \<Rightarrow> (encoded J (RApps res), e\<lparr>ed_filters := m\<rparr>))"
proof -
  have "getFnHandler (edge_di E lim) req = Inr \<lparr>fd_reqt = [TString], fd_fv = one_string ed_GetFilterChanges\<rparr>"
    by (rule getFnHandler_edge [where f = "''getFilterChanges''"]) (use assms(1) in \<open>simp_all add: edge_fns_def\<close>)
  then show ?thesis using assms(2)
    by (auto simp: handleReq_eq decode_params_def one_string_def ed_GetFilterChanges_def encoded_def split: prod.splits sum.splits)
qed

lemma handleReq_Uninstall:
  assumes "rq_Method req = ''edge_uninstallFilter'' \<or> rq_Method req = ''edge_unsubscribe''"
    and "rq_Params req = Some (JArr (JStr i # vs))"
  shows "handleReq J (edge_di E lim) req e =
    (case Uninstall (ed_filters e) i of (ok, m) \<Rightarrow> (encoded J (RBool ok), e\<lparr>ed_filters := m\<rparr>))"
proof -
  have "getFnHandler (edge_di E lim) req = Inr \<lparr>fd_reqt = [TString], fd_fv = one_string UninstallFilter\<rparr> \<or>
    getFnHandler (edge_di E lim) req = Inr \<lparr>fd_reqt = [TString], fd_fv = one_string Unsubscribe\<rparr>"
    using assms(1) getFnHandler_edge [of req "''uninstallFilter''" E] getFnHandler_edge [of req "''unsubscribe''" E]
    by (auto simp: edge_fns_def)
  then show ?thesis using assms(2)
    by (auto simp: handleReq_eq decode_params_def one_string_def UninstallFilter_def Unsubscribe_def encoded_def split: prod.splits)
qed

lemma handleReq_SendRawTelegram:
  assumes "rq_Method req = ''edge_sendRawTelegram''" and "rq_Params req = Some (JArr (JStr hex # vs))"
  shows "handleReq J (edge_di E lim) req e =
    (case UnmarshalRLP (ee_rlp E) zero_telegram (argBytes_UnmarshalText [] hex) of
       Inl err \<Rightarrow> (if is_panic err then Inl err else Inr (Inl (InvalidRequest (js_err_text J err))), e)
     | Inr tele \<Rightarrow>
         if tg_To tele = None then (Inl (GoPanic ''nil pointer dereference''), e)
         else (let tele' = ComputeHash (ee_rlp E) tele in
           case ee_AddTele E (ed_pool e) tele' of
             (Inl err, p) \<Rightarrow> (Inr (Inl (InvalidRequest (js_err_text J err))), e\<lparr>ed_pool := p\<rparr>)
           | (Inr resp, p) \<Rightarrow> (encoded J (RText (telegram_reply tele' resp)), e\<lparr>ed_pool := p\<rparr>)))"
proof -
  have "getFnHandler (edge_di E lim) req = Inr \<lparr>fd_reqt = [TArgBytes], fd_fv = one_bytes (SendRawTelegram E)\<rparr>"
    by (rule getFnHandler_edge [where f = "''sendRawTelegram''"]) (use assms(1) in \<open>simp_all add: edge_fns_def\<close>)
  then show ?thesis using assms(2)
    by (auto simp: handleReq_eq decode_params_def one_bytes_def SendRawTelegram_def encoded_def deref_def Let_def
        split: prod.splits sum.splits option.splits)
qed

section \<open>Properties\<close>

text \<open>C15. The dispatcher serves exactly the five methods of the Edge service: any other method name is
  answered -32601, parameters that do not decode -32602, both without touching the state.  Called with
  a text, \<open>sendRawTelegram\<close> panics on a telegram without recipient, is answered -32600 when the
  telegram does not decode or the pool refuses it, and otherwise returns the hash and the response of
  the pool, to which it gives the telegram hashed; \<open>getFilterChanges\<close>, \<open>uninstallFilter\<close> and
  \<open>unsubscribe\<close> answer what the filter manager answers, an error of it as -32600; \<open>networkId\<close> is the
  identifier.  A result that does not encode is answered -32603.\<close>

theorem dispatch_outcomes:
  assumes "newDispatcher E lim = Inr d"
  shows "((\<forall>f \<in> set edge_names. rq_Method req \<noteq> ''edge_'' @ f) \<longrightarrow>
      (\<exists>err. handleReq J d req e = (Inr (Inl err), e) \<and> ErrorCode err = -32601)) \<and>
    (rq_Method req = ''edge_'' @ f \<and> edge_fns E f = Some fd \<and> decode_params (fd_reqt fd) (rq_Params req) = Inl t \<longrightarrow>
      handleReq J d req e = (Inr (Inl (InvalidParams ''Invalid Params'')), e)) \<and>
    (rq_Method req = ''edge_networkId'' \<longrightarrow>
      handleReq J d req e = (encoded J (RUint (ed_networkID e)), e)) \<and>
    (rq_Method req = ''edge_sendRawTelegram'' \<and> rq_Params req = Some (JArr (JStr hex # vs)) \<longrightarrow>
      handleReq J d req e =
        (case UnmarshalRLP (ee_rlp E) zero_telegram (argBytes_UnmarshalText [] hex) of
           Inl err \<Rightarrow> (if is_panic err then Inl err else Inr (Inl (InvalidRequest (js_err_text J err))), e)
         | Inr tele \<Rightarrow>
             if tg_To tele = None then (Inl (GoPanic ''nil pointer dereference''), e)
             else (let tele' = ComputeHash (ee_rlp E) tele in
               case ee_AddTele E (ed_pool e) tele' of
                 (Inl err, p) \<Rightarrow> (Inr (Inl (InvalidRequest (js_err_text J err))), e\<lparr>ed_pool := p\<rparr>)
               | (Inr resp, p) \<Rightarrow> (encoded J (RText (telegram_reply tele' resp)), e\<lparr>ed_pool := p\<rparr>)))) \<and>
    (rq_Method req = ''edge_getFilterChanges'' \<and> rq_Params req = Some (JArr (JStr i # vs)) \<longrightarrow>
      handleReq J d req e =
        (case GetFilterChanges (ed_filters e) i of
           (Inl err, m) \<Rightarrow> (Inr (Inl (InvalidRequest (js_err_text J err))), e\<lparr>ed_filters := m\<rparr>)
         | (Inr res, m) \<Rightarrow> (encoded J (RApps res), e\<lparr>ed_filters := m\<rparr>))) \<and>
    ((rq_Method req = ''edge_uninstallFilter'' \<or> rq_Method req = ''edge_unsubscribe'') \<and>
       rq_Params req = Some (JArr (JStr i # vs)) \<longrightarrow>
      handleReq J d req e =
        (case Uninstall (ed_filters e) i of (ok, m) \<Rightarrow> (encoded J (RBool ok), e\<lparr>ed_filters := m\<rparr>)))"
  unfolding new_is_edge [OF assms]
  by (intro conjI impI; (elim conjE)?)
    (rule handleReq_unknown handleReq_bad_params handleReq_networkId handleReq_GetFilterChanges
      handleReq_Uninstall handleReq_SendRawTelegram; assumption)+

definition no_pool :: "(unit, rlp_tree) edge_env" where
  "no_pool = \<lparr>ee_rlp = tree_lib, ee_AddTele = (\<lambda>_ _. (Inr ''ok'', ()))\<rparr>"

definition fresh_edge :: "unit edge" where
  "fresh_edge = \<lparr>ed_networkID = 9, ed_filters = NewNodeFilterManager 60, ed_pool = ()\<rparr>"

definition one_text :: "json \<Rightarrow> json_lib" where
  "one_text j = \<lparr>js_Parse = (\<lambda>_. Inr j), js_Encodes = (\<lambda>_. True), js_err_text = (\<lambda>_. ''error'')\<rparr>"

theorem dispatch_outcomes_witness:
  "handleReq (one_text JNull) (edge_di no_pool 0) (zero_request\<lparr>rq_Method := ''edge_unsubscribe'',
       rq_Params := Some (JArr [JStr ''x''])\<rparr>) fresh_edge = (Inr (Inr (Some (RBool False))), fresh_edge)"
proof -
  let ?req = "zero_request\<lparr>rq_Method := ''edge_unsubscribe'', rq_Params := Some (JArr [JStr ''x''])\<rparr>"
  have n: "newDispatcher no_pool 0 = Inr (edge_di no_pool 0)" by (simp add: newDispatcher_eq edge_di_def)
  have u: "Uninstall (ed_filters fresh_edge) ''x'' = (False, ed_filters fresh_edge)"
    by (simp add: Uninstall_def removeFilterByID_def fresh_edge_def NewNodeFilterManager_def)
  show ?thesis
    using dispatch_outcomes [OF n, where req = ?req and e = fresh_edge and
        J = "one_text JNull" and f = "''''" and fd = undefined and t = undefined and i = "''x''" and vs = "[]" and hex = "''''"] u
    by (simp add: one_text_def encoded_def)
qed

section \<open>Types of the service\<close>

abbreviation two_results :: "'p go_method \<Rightarrow> bool" where
  "two_results m \<equiv> gm_IsFunc m \<and> length (gm_Out m) = 2 \<and> gm_Out m ! 1 = TError"

lemma validateFunc_succeeds:
  "n \<noteq> [] \<Longrightarrow> validateFunc n m = (if two_results m then Inr (1 + length (gm_In m), gm_In m) else validateFunc n m)"
  "n \<noteq> [] \<Longrightarrow> \<not> two_results m \<Longrightarrow> \<exists>t. validateFunc n m = Inl (GoErr t)"
  by (auto simp: validateFunc_def isErrorType_def)

lemma reg_methods_succeeds:
  "(\<exists>fm'. reg_methods n ms fm = Inr fm') \<longleftrightarrow> (\<forall>m \<in> set ms. gm_exported m \<longrightarrow> two_results m)"
proof (induction ms arbitrary: fm)
  case (Cons m ms)
  let ?n = "n @ ''_'' @ lowerCaseFirst (gm_Name m)"
  show ?case
  proof (cases "gm_exported m \<and> \<not> two_results m")
    case True
    then obtain t where "validateFunc ?n m = Inl (GoErr t)" using validateFunc_succeeds(2) [of ?n m] by auto
    then show ?thesis using True by (auto simp: Let_def)
  next
    case False
    then show ?thesis using Cons.IH validateFunc_succeeds(1) [of ?n m] by (auto simp: Let_def)
  qed
qed simp

lemma registerService_succeeds:
  "(\<exists>d1. registerService n False ms d0 = Inr d1) \<longleftrightarrow> n \<noteq> [] \<and> (\<forall>m \<in> set ms. gm_exported m \<longrightarrow> two_results m)"
  unfolding reg_methods_succeeds [of n ms Map.empty, symmetric]
  by (auto simp: registerService_def rbind_def split: sum.splits)

text \<open>The result type that a client can rely on, by method.\<close>

fun result_has_type :: "string \<Rightarrow> rpc_result \<Rightarrow> bool" where
  "result_has_type f (RUint _) \<longleftrightarrow> f = ''networkId''"
| "result_has_type f (RText _) \<longleftrightarrow> f = ''sendRawTelegram''"
| "result_has_type f (RApps _) \<longleftrightarrow> f = ''getFilterChanges''"
| "result_has_type f (RBool _) \<longleftrightarrow> f = ''uninstallFilter'' \<or> f = ''unsubscribe''"

lemma edge_fns_result:
  assumes "edge_fns E f = Some fd" and "list_all2 arg_has_type args (fd_reqt fd)" and "fd_fv fd args e = (Inr (r, None), e')"
  shows "\<exists>res. r = Some res \<and> result_has_type f res"
proof -
  have "f \<in> set edge_names" using assms(1) edge_fns_None [of E f] by auto
  then show ?thesis using assms unfolding edge_names_def
    by (auto simp: edge_fns_def one_string_def one_bytes_def NetworkId_def ed_GetFilterChanges_def UninstallFilter_def
        Unsubscribe_def SendRawTelegram_def Let_def split: sum.splits prod.splits if_splits list.splits arg.splits)
qed

lemma getFnHandler_edgeD:
  assumes "getFnHandler (edge_di E lim) req = Inr fd"
  shows "\<exists>f. rq_Method req = ''edge_'' @ f \<and> edge_fns E f = Some fd"
proof -
  obtain a b where ab: "split_underscore (rq_Method req) = Some (a, b)"
    using assms by (auto simp: getFnHandler_def split: option.splits)
  then have "a = ''edge''" "edge_fns E b = Some fd"
    using assms by (auto simp: getFnHandler_def edge_di_def split: option.splits if_splits)
  then show ?thesis using ab unfolding split_underscore_iff by auto
qed

lemma handleReq_success:
  assumes "handleReq J (edge_di E lim) req e = (Inr (Inr r), e')"
  shows "\<exists>f res. rq_Method req = ''edge_'' @ f \<and> r = Some res \<and> result_has_type f res"
proof -
  obtain fd where fd: "getFnHandler (edge_di E lim) req = Inr fd"
    using assms by (auto simp: handleReq_eq split: sum.splits)
  obtain f where f: "rq_Method req = ''edge_'' @ f" "edge_fns E f = Some fd" using getFnHandler_edgeD [OF fd] by blast
  obtain args where args: "decode_params (fd_reqt fd) (rq_Params req) = Inr args"
    using assms fd by (auto simp: handleReq_eq split: sum.splits)
  obtain o' e1 where o: "fd_fv fd args e = (o', e1)" by fastforce
  then obtain r1 where r1: "o' = Inr (r1, None)" "r1 = None \<longrightarrow> r = None" "\<And>x. r1 = Some x \<Longrightarrow> r = Some x"
    using assms fd args by (fastforce simp: handleReq_eq split: sum.splits prod.splits option.splits if_splits)
  from edge_fns_result [OF f(2) decode_params_types [OF args] o [unfolded r1(1)]] f(1) r1(3) show ?thesis by blast
qed

text \<open>Every name of the service is that of a method, whose declared first result is \<open>bool\<close> for the two that
  answer one.\<close>

lemma declared_result:
  assumes "result_has_type f res"
  shows "\<exists>m \<in> set (edge_methods E). f = lowerCaseFirst (gm_Name m) \<and> (gm_Out m ! 0 = TBool \<longleftrightarrow> (\<exists>b. res = RBool b))"
  using assms by (cases res) (auto simp: edge_methods_def edge_method_def lower_names)

text \<open>C16. The dispatcher is type safe.  A service registers exactly when every exported method of it is a
  function with a result and an error; the five methods of Edge are so, and \<open>newDispatcher\<close> does not
  panic.  Decoded arguments always have the types of the parameters, so \<open>Call\<close> never panics on them,
  and a request that succeeds has a result of the declared type of its method.\<close>

theorem edge_api_well_typed:
  "\<exists>d. newDispatcher E lim = Inr d \<and>
    (\<forall>n ms. (\<exists>d1. registerService n False ms d0 = Inr d1) \<longleftrightarrow>
        n \<noteq> '''' \<and> (\<forall>m \<in> set ms. gm_exported m \<longrightarrow> gm_IsFunc m \<and> length (gm_Out m) = 2 \<and> gm_Out m ! 1 = TError)) \<and>
    (\<forall>fd args. getFnHandler d req = Inr fd \<and> decode_params (fd_reqt fd) (rq_Params req) = Inr args \<longrightarrow>
        length args = numParams fd \<and> list_all2 arg_has_type args (fd_reqt fd) \<and> reflect_Call fd args = fd_fv fd args) \<and>
    (\<forall>r e'. handleReq J d req e = (Inr (Inr r), e') \<longrightarrow>
        (\<exists>m \<in> set (edge_methods E). \<exists>res. rq_Method req = ''edge_'' @ lowerCaseFirst (gm_Name m) \<and> r = Some res \<and>
           result_has_type (lowerCaseFirst (gm_Name m)) res \<and> (gm_Out m ! 0 = TBool \<longleftrightarrow> (\<exists>b. res = RBool b))))"
proof (intro exI [of _ "edge_di E lim"] conjI)
  show "newDispatcher E lim = Inr (edge_di E lim)" by (simp add: newDispatcher_eq edge_di_def)
  show "\<forall>n ms. (\<exists>d1. registerService n False ms d0 = Inr d1) \<longleftrightarrow>
      n \<noteq> '''' \<and> (\<forall>m \<in> set ms. gm_exported m \<longrightarrow> gm_IsFunc m \<and> length (gm_Out m) = 2 \<and> gm_Out m ! 1 = TError)"
    using registerService_succeeds by blast
  have "list_all2 arg_has_type args ts" if "decode_params ts ps = Inr args" for ts ps args
    using that by (rule decode_params_types)
  then show "\<forall>fd args. getFnHandler (edge_di E lim) req = Inr fd \<and> decode_params (fd_reqt fd) (rq_Params req) = Inr args \<longrightarrow>
      length args = numParams fd \<and> list_all2 arg_has_type args (fd_reqt fd) \<and> reflect_Call fd args = fd_fv fd args"
    by (auto simp: numParams_def reflect_Call_def dest: list_all2_lengthD)
  show "\<forall>r e'. handleReq J (edge_di E lim) req e = (Inr (Inr r), e') \<longrightarrow>
      (\<exists>m \<in> set (edge_methods E). \<exists>res. rq_Method req = ''edge_'' @ lowerCaseFirst (gm_Name m) \<and> r = Some res \<and>
         result_has_type (lowerCaseFirst (gm_Name m)) res \<and> (gm_Out m ! 0 = TBool \<longleftrightarrow> (\<exists>b. res = RBool b)))"
    using handleReq_success declared_result by metis
qed

theorem edge_api_well_typed_witness:
  "\<exists>res. fst (handleReq (one_text JNull) (edge_di no_pool 0) (zero_request\<lparr>rq_Method := ''edge_networkId''\<rparr>) fresh_edge) =
      Inr (Inr (Some res)) \<and> result_has_type ''networkId'' res"
proof -
  let ?req = "zero_request\<lparr>rq_Method := ''edge_networkId''\<rparr>"
  have h: "handleReq (one_text JNull) (edge_di no_pool 0) ?req fresh_edge = (Inr (Inr (Some (RUint 9))), fresh_edge)"
    using handleReq_networkId [of ?req "one_text JNull" no_pool 0 fresh_edge]
    by (simp add: one_text_def encoded_def fresh_edge_def)
  from edge_api_well_typed [of no_pool 0 "edge_di no_pool 0" ?req "one_text JNull" fresh_edge]
  obtain d where d: "newDispatcher no_pool 0 = Inr d"
    and r: "\<forall>r e'. handleReq (one_text JNull) d ?req fresh_edge = (Inr (Inr r), e') \<longrightarrow>
      (\<exists>m \<in> set (edge_methods no_pool). \<exists>res. rq_Method ?req = ''edge_'' @ lowerCaseFirst (gm_Name m) \<and> r = Some res \<and>
         result_has_type (lowerCaseFirst (gm_Name m)) res \<and> (gm_Out m ! 0 = TBool \<longleftrightarrow> (\<exists>b. res = RBool b)))"
    by (elim exE conjE) (rule that; assumption)
  have "d = edge_di no_pool 0" by (rule new_is_edge [OF d])
  then show ?thesis using r [rule_format, of "Some (RUint 9)" fresh_edge] h by (auto simp: zero_request_def)
qed

text \<open>Unless a method panics, a batch is answered with one response for each request, in the order of
  the requests and with their identifiers, whatever some of them fail with; and the limit on its
  length, which \<open>NewJSONRPC\<close> leaves at zero, never rejects one.\<close>

theorem batch_answers_in_order:
  assumes "handle_many J d reqs e = (Inr r, e')" and "di_batchLimit d = 0"
  shows "\<exists>rs. r = Batch rs \<and> map GetID rs = map rq_ID reqs"
proof -
  obtain o1 e1 where b: "handle_batch J d reqs e = (o1, e1)" by fastforce
  show ?thesis using assms b handle_batch_ids [of J d reqs e _ e1]
    by (cases o1) (auto simp: handle_many_def)
qed

theorem batch_answers_in_order_witness:
  "\<exists>rs. fst (handle_many (one_text JNull) (edge_di no_pool 0)
        [zero_request\<lparr>rq_ID := JInt 1, rq_Method := ''nope''\<rparr>,
         zero_request\<lparr>rq_ID := JInt 2, rq_Method := ''edge_networkId''\<rparr>] fresh_edge) = Inr (Batch rs) \<and>
     map GetID rs = [JInt 1, JInt 2]"
proof -
  let ?reqs = "[zero_request\<lparr>rq_ID := JInt 1, rq_Method := ''nope''\<rparr>,
      zero_request\<lparr>rq_ID := JInt 2, rq_Method := ''edge_networkId''\<rparr>]"
  obtain r where h: "handle_many (one_text JNull) (edge_di no_pool 0) ?reqs fresh_edge = (Inr r, fresh_edge)"
    by (simp add: handle_many_def handleReq_eq getFnHandler_def edge_di_def edge_fns_def decode_params_def
        NetworkId_def one_text_def)
  have l: "di_batchLimit (edge_di no_pool 0) = 0" by (simp add: edge_di_def)
  from batch_answers_in_order [OF h l] h show ?thesis by auto
qed

text \<open>A client on a web socket ends the process with one telegram that has no recipient: the method
  dereferences the nil address for its log line, and the goroutine of the message does not recover;
  over HTTP the same request only closes the connection.\<close>

theorem null_recipient_ends_process:
  assumes "newDispatcher E lim = Inr d" and "isSupportedWSType ty"
    and "js_Parse J body = Inr (JObj [(''method'', JStr ''edge_sendRawTelegram''), (''params'', JArr [JStr hex])])"
    and "UnmarshalRLP (ee_rlp E) zero_telegram (argBytes_UnmarshalText [] hex) = Inr tele" and "tg_To tele = None"
    and "dropWhile is_ws_char body = CHR ''{'' # rest"
  shows "(\<exists>p. is_panic p \<and> handleWs_turn J d conn (WsMessage ty uuid body) e = (Inl p, e)) \<and>
    jr_handle J d ''POST'' body e = (HClosed, e)"
proof -
  let ?req = "\<lparr>rq_ID = JNull, rq_Method = ''edge_sendRawTelegram'', rq_Params = Some (JArr [JStr hex])\<rparr>"
  have d: "d = edge_di E lim" using assms(1) by (simp add: newDispatcher_eq edge_di_def)
  have keys: "\<not> key_is ''method'' ''id''" "key_is ''method'' ''method''" "\<not> key_is ''params'' ''id''"
    "\<not> key_is ''params'' ''method''" "key_is ''params'' ''params''" by code_simp+
  have req: "decode_request (JObj [(''method'', JStr ''edge_sendRawTelegram''), (''params'', JArr [JStr hex])]) = (?req, None)"
    by (simp add: decode_request_def request_field_def zero_request_def keys)
  have "getFnHandler d ?req = Inr \<lparr>fd_reqt = [TArgBytes], fd_fv = one_bytes (SendRawTelegram E)\<rparr>"
    unfolding d by (rule getFnHandler_edge [of _ "''sendRawTelegram''"]) (simp_all add: edge_fns_def)
  then have h: "handleReq J d ?req e = (Inl (GoPanic ''nil pointer dereference''), e)"
    using assms(4,5) by (simp add: handleReq_eq decode_params_def one_bytes_def SendRawTelegram_def deref_def)
  have "handleWs_turn J d conn (WsMessage ty uuid body) e = (Inl (GoPanic ''nil pointer dereference''), e)"
    using assms(2,3) req h by (simp add: handleWs_turn_def HandleWs_def)
  moreover have "jr_handle J d ''POST'' body e = (HClosed, e)"
    using assms(3,6) req h by (simp add: jr_handle_def Handle_def handle_one_def Let_def)
  ultimately show ?thesis by simp
qed

definition attack_text :: string where
  "attack_text = EncodeToHex (MarshalRLP tree_lib sample_telegram)"

theorem null_recipient_ends_process_witness:
  "\<exists>p. is_panic p \<and> handleWs_turn
     (one_text (JObj [(''method'', JStr ''edge_sendRawTelegram''), (''params'', JArr [JStr attack_text])]))
     (edge_di no_pool 0) 3 (WsMessage 1 ''u'' ''{}'') fresh_edge = (Inl p, fresh_edge)"
proof -
  have n: "newDispatcher no_pool 0 = Inr (edge_di no_pool 0)" by (simp add: newDispatcher_eq edge_di_def)
  have b: "argBytes_UnmarshalText [] attack_text = MarshalRLP tree_lib sample_telegram"
    by (simp add: attack_text_def argBytes_UnmarshalText_def decodeToHex_EncodeToHex)
  have enc: "encodable sample_telegram"
    by (simp add: encodable_def sample_telegram_def zero_telegram_def nat_big_def ZeroAddress_def ZeroHash_def
        AddressLength_def HashLength_def)
  obtain tele where t: "UnmarshalRLP (ee_rlp no_pool) zero_telegram (argBytes_UnmarshalText [] attack_text) = Inr tele"
    "tg_To tele = None"
    using UnmarshalRLP_marshalled [OF tree_lib_laws enc, of zero_telegram]
    by (simp add: b no_pool_def sample_telegram_def zero_telegram_def)
  have ty: "isSupportedWSType 1" by (simp add: isSupportedWSType_def)
  have dw: "dropWhile is_ws_char ''{}'' = CHR ''{'' # ''}''" by (simp add: is_ws_char_def)
  show ?thesis
    using null_recipient_ends_process [OF n ty _ t dw, of "one_text (JObj [(''method'', JStr ''edge_sendRawTelegram''),
        (''params'', JArr [JStr attack_text])])" 3 "''u''" fresh_edge]
    by (simp add: one_text_def)
qed

text \<open>C17. A web socket client that subscribes with a null query ends the process at the next application
  event: the query decodes to a nil pointer without an error, the filter is installed, and matching
  the first application against it dereferences nil in the goroutine of \<open>Run\<close>.\<close>

theorem null_query_ends_process:
  assumes "js_Parse J body = Inr (JObj [(''method'', JStr ''edge_subscribe''), (''params'', JArr [JStr ''node'', JNull])])"
    and "HandleWs J d uuid body conn e = (r, e')"
    and "apps \<noteq> []" and "\<And>k. set (orders k) = dom (fm_filters (ed_filters e'))"
  shows "(\<exists>t. r = Inr (WsText t)) \<and> fm_Exists (ed_filters e') uuid \<and>
    fm_crashed (processEvent pid_String orders (ed_filters e') apps)"
proof -
  let ?req = "\<lparr>rq_ID = JNull, rq_Method = ''edge_subscribe'', rq_Params = Some (JArr [JStr ''node'', JNull])\<rparr>"
  have keys: "\<not> key_is ''method'' ''id''" "key_is ''method'' ''method''" "\<not> key_is ''params'' ''id''"
    "\<not> key_is ''params'' ''method''" "key_is ''params'' ''params''" by code_simp+
  have req: "decode_request (JObj [(''method'', JStr ''edge_subscribe''), (''params'', JArr [JStr ''node'', JNull])]) = (?req, None)"
    by (simp add: decode_request_def request_field_def zero_request_def keys)
  have sub: "ws_subscribe J uuid ?req conn (ed_filters e) =
      (WsText (filter_reply ''null'' uuid), new_entry (ed_filters e) uuid None (Some conn))"
    by (simp add: ws_subscribe_def handleEdgeSubscribe_def DecodeNodeQueryFromInterface_def decode_query_def
        NewNodeFilter_eq formatFilterResponse_def)
  have r: "r = Inr (WsText (filter_reply ''null'' uuid))" "e' = e\<lparr>ed_filters := new_entry (ed_filters e) uuid None (Some conn)\<rparr>"
    using assms(1,2) req sub by (simp_all add: HandleWs_def)
  have f: "fm_filters (ed_filters e') uuid = Some (fm_next (ed_filters e))" by (simp add: r(2))
  have q: "nf_query (fm_store (ed_filters e') (fm_next (ed_filters e))) = None"
    by (simp add: r(2) newNodeFilterBase_def)
  show ?thesis using nil_query_event [OF f q assms(3,4)] r(1) f by (simp add: fm_Exists_def)
qed

definition null_subscription :: json_lib where
  "null_subscription = one_text (JObj [(''method'', JStr ''edge_subscribe''), (''params'', JArr [JStr ''node'', JNull])])"

theorem null_query_ends_process_witness:
  "\<exists>r e'. HandleWs null_subscription (edge_di no_pool 0) ''u'' '''' 3 fresh_edge = (r, e') \<and>
     fm_crashed (processEvent id (\<lambda>_. [''u'']) (ed_filters e') [gossip_app ''p'' '''' '''' sample_status])"
proof -
  obtain r e' where h: "HandleWs null_subscription (edge_di no_pool 0) ''u'' '''' 3 fresh_edge = (r, e')" by fastforce
  have p: "js_Parse null_subscription '''' = Inr (JObj [(''method'', JStr ''edge_subscribe''), (''params'', JArr [JStr ''node'', JNull])])"
    by (simp add: null_subscription_def one_text_def)
  have keys: "\<not> key_is ''method'' ''id''" "key_is ''method'' ''method''" "\<not> key_is ''params'' ''id''"
    "\<not> key_is ''params'' ''method''" "key_is ''params'' ''params''" by code_simp+
  have "dom (fm_filters (ed_filters e')) = {''u''}"
    using h by (simp add: HandleWs_def p decode_request_def request_field_def zero_request_def keys ws_subscribe_def
        handleEdgeSubscribe_def DecodeNodeQueryFromInterface_def decode_query_def NewNodeFilter_eq
        formatFilterResponse_def fresh_edge_def) (auto simp: NewNodeFilterManager_def split: if_splits)
  then show ?thesis using null_query_ends_process [OF p h, of "[gossip_app ''p'' '''' '''' sample_status]" "\<lambda>_. [''u'']" id] h
    by simp
qed

text \<open>When a connection subscribes twice and closes, only its last filter is removed: the connection
  remembers one identifier, so the first filter stays installed for it.\<close>

theorem ws_close_leaves_earlier_filter:
  assumes "fm_reach ps timeout (ed_filters e)" and "u \<noteq> ''''" and "v \<noteq> ''''" and "u \<noteq> v"
    and "\<not> fm_Exists (ed_filters e) u" and "\<not> fm_Exists (ed_filters e) v"
  shows "let m1 = snd (NewNodeFilter (ed_filters e) u q (Some conn));
             m2 = snd (NewNodeFilter m1 v q' (Some conn));
             m3 = ed_filters (di_RemoveFilterByWs conn (e\<lparr>ed_filters := m2\<rparr>))
         in \<not> fm_Exists m3 v \<and> fm_abs m3 u = Some \<lparr>af_query = q, af_ws = Some conn, af_expires = 0, af_msgs = []\<rparr>"
proof -
  have wf: "fm_wf (ed_filters e)" by (rule fm_wf_reach [OF assms(1)])
  have u: "fm_filters (ed_filters e) u = None" "fm_filters (ed_filters e) v = None"
    using assms(5,6) by (simp_all add: fm_Exists_def)
  define m1 where "m1 = snd (NewNodeFilter (ed_filters e) u q (Some conn))"
  define m2 where "m2 = snd (NewNodeFilter m1 v q' (Some conn))"
  have wf1: "fm_wf m1" unfolding m1_def by (rule fm_wf_NewNodeFilter [OF wf assms(2) u(1)])
  have a1: "fm_abs m1 = (fm_abs (ed_filters e))(u \<mapsto> \<lparr>af_query = q, af_ws = Some conn, af_expires = 0, af_msgs = []\<rparr>)"
    unfolding m1_def using abs_new [OF wf assms(2) u(1), of q "Some conn"] by simp
  have v1: "fm_filters m1 v = None"
    using a1 assms(4) u(2) fm_abs_eq_None [of m1 v] fm_abs_eq_None [of "ed_filters e" v] by simp
  have wf2: "fm_wf m2" unfolding m2_def by (rule fm_wf_NewNodeFilter [OF wf1 assms(3) v1])
  have a2: "fm_abs m2 = (fm_abs m1)(v \<mapsto> \<lparr>af_query = q', af_ws = Some conn, af_expires = 0, af_msgs = []\<rparr>)"
    unfolding m2_def using abs_new [OF wf1 assms(3) v1, of q' "Some conn"] by simp
  have "fm_wsID m2 conn = v" unfolding m2_def using wsID_new [OF wf1] by simp
  then have m3: "ed_filters (di_RemoveFilterByWs conn (e\<lparr>ed_filters := m2\<rparr>)) = snd (removeFilterByID m2 v)"
    by (simp add: di_RemoveFilterByWs_def RemoveFilterByWs_def)
  have "fm_abs (snd (removeFilterByID m2 v)) = (fm_abs m2)(v := None)" by (rule abs_remove(1) [OF wf2])
  then have "fm_abs (snd (removeFilterByID m2 v)) v = None"
    "fm_abs (snd (removeFilterByID m2 v)) u = Some \<lparr>af_query = q, af_ws = Some conn, af_expires = 0, af_msgs = []\<rparr>"
    using a1 a2 assms(4) by simp_all
  then show ?thesis unfolding Let_def m1_def [symmetric] m2_def [symmetric] m3
    by (simp add: fm_Exists_def fm_abs_eq_None)
qed

theorem ws_close_leaves_earlier_filter_witness:
  "let m1 = snd (NewNodeFilter (ed_filters fresh_edge) ''u'' None (Some 3));
       m2 = snd (NewNodeFilter m1 ''v'' None (Some 3))
   in fm_abs (ed_filters (di_RemoveFilterByWs 3 (fresh_edge\<lparr>ed_filters := m2\<rparr>))) ''u'' \<noteq> None"
  using ws_close_leaves_earlier_filter [of id 60 fresh_edge "''u''" "''v''" None 3 None]
  by (simp add: fresh_edge_def fr_init Let_def fm_Exists_def) (simp add: NewNodeFilterManager_def)

end
