(* ===== verification/Rpc_Front.thy ===== *)
theory Rpc_Front
  imports Go_Http Dispatch_Props
begin

text \<open>
  The HTTP and web socket server in front of the dispatcher (\<open>core/jsonrpc/web3/jsonrpc.go\<close>) and the serialised form
  of its answers (\<open>codec.go\<close>): routes, cross-origin headers, the methods of HTTP, and a web socket
  session with the goroutines that it starts for its messages.
\<close>

section \<open>Serialised answers\<close>

text \<open>\<open>json.Marshal\<close> of one response, of an error object and of the answer to GET.\<close>

record json_out =
  jo_Response :: "response \<Rightarrow> go_err + string"
  jo_Error :: "int \<Rightarrow> string \<Rightarrow> go_err + string"
  jo_Result :: "rpc_result \<Rightarrow> string"
  jo_Info :: "string \<Rightarrow> u64 \<Rightarrow> string \<Rightarrow> go_err + string"
  jo_text :: "go_err \<Rightarrow> string"

definition rp_Data :: "json_out \<Rightarrow> response \<Rightarrow> string" where
  "rp_Data jo r = (case r of
     SuccessResponse _ _ (Some res) \<Rightarrow> jo_Result jo res
   | SuccessResponse _ _ None \<Rightarrow> ''No Data''
   | ErrorResponse _ _ c msg \<Rightarrow> (case jo_Error jo c msg of Inl err \<Rightarrow> jo_text jo err | Inr data \<Rightarrow> data))"

definition rp_Bytes :: "json_out \<Rightarrow> response \<Rightarrow> go_err + string" where
  "rp_Bytes jo r = jo_Response jo r"

fun marshal_all :: "json_out \<Rightarrow> response list \<Rightarrow> go_err + string list" where
  "marshal_all jo [] = Inr []"
| "marshal_all jo (r # rs) = rbind (rp_Bytes jo r) (\<lambda>t. rbind (marshal_all jo rs) (\<lambda>ts. Inr (t # ts)))"

fun join_comma :: "string list \<Rightarrow> string" where
  "join_comma [] = ''''"
| "join_comma [t] = t"
| "join_comma (t # ts) = t @ '','' @ join_comma ts"

definition reply_text :: "json_out \<Rightarrow> reply \<Rightarrow> go_err + string" where
  "reply_text jo r = (case r of
     Single resp \<Rightarrow> rp_Bytes jo resp
   | Batch rs \<Rightarrow> (case marshal_all jo rs of
       Inl _ \<Rightarrow> rp_Bytes jo (NewRPCResponse JNull ''2.0'' None (Some (InternalError ''Internal error'')))
     | Inr ts \<Rightarrow> Inr (''['' @ join_comma ts @ '']'')))"

definition ws_reply_text :: "json_out \<Rightarrow> ws_reply \<Rightarrow> go_err + string" where
  "ws_reply_text jo r = (case r of
     WsResponse resp \<Rightarrow> rp_Bytes jo resp | WsText t \<Rightarrow> Inr t | WsError err \<Rightarrow> Inl (GoErr (rpc_Error err)))"

section \<open>The server\<close>

record rpc_config =
  rc_Addr :: string
  rc_NetworkID :: u64
  rc_NetworkName :: string
  rc_Version :: string
  rc_AllowOrigin :: "string list"

text \<open>Everything a request needs: the libraries, the configuration and the dispatcher.\<close>

record ('p, 'v) rpc_server =
  rs_json :: json_lib
  rs_out :: json_out
  rs_config :: rpc_config
  rs_dispatcher :: "('p, 'v) dispatcher"

definition middlewareFactory :: "rpc_config \<Rightarrow> 's http_handler \<Rightarrow> 's http_handler" where
  "middlewareFactory config nxt r w s =
     nxt r (case allow_origin (rc_AllowOrigin config) (hq_Origin r) of
              None \<Rightarrow> w | Some v \<Rightarrow> Header_Set ''Access-Control-Allow-Origin'' v w) s"

definition handleJSONRPCRequest :: "('p, 'v) rpc_server \<Rightarrow> 'p edge http_handler" where
  "handleJSONRPCRequest S r w e =
     (case hq_Body r of
        Inl err \<Rightarrow> ((None, snd (Write_text (jo_text (rs_out S) err) w)), e)
      | Inr data \<Rightarrow>
          (case Handle (rs_json S) (rs_dispatcher S) (bytes_text data) e of
             (Inl panic, e') \<Rightarrow> ((Some panic, w), e')
           | (Inr r, e') \<Rightarrow>
               (case reply_text (rs_out S) r of
                  Inl err \<Rightarrow> ((None, snd (Write_text (jo_text (rs_out S) err) w)), e')
                | Inr resp \<Rightarrow> ((None, snd (Write_text resp w)), e'))))"

text \<open>A failing \<open>json.Marshal\<close> does not return: its error text is followed by an empty write.\<close>

definition handleGetRequest :: "('p, 'v) rpc_server \<Rightarrow> http_resp \<Rightarrow> http_resp" where
  "handleGetRequest S writer =
     (let c = rs_config S;
          (w1, resp) = (case jo_Info (rs_out S) (rc_NetworkName c) (rc_NetworkID c) (rc_Version c) of
              Inl err \<Rightarrow> (snd (Write_text (jo_text (rs_out S) err) writer), '''')
            | Inr resp \<Rightarrow> (writer, resp))
      in case Write_text resp w1 of
           (Some err, w2) \<Rightarrow> snd (Write_text (jo_text (rs_out S) err) w2)
         | (None, w2) \<Rightarrow> w2)"

definition rpc_headers :: "http_resp \<Rightarrow> http_resp" where
  "rpc_headers w =
     Header_Set ''Access-Control-Allow-Headers''
       ''Accept, Content-Type, Content-Length, Accept-Encoding, X-CSRF-Token, Authorization''
     (Header_Set ''Access-Control-Allow-Methods'' ''POST, OPTIONS''
     (Header_Set ''Content-Type'' ''application/json'' w))"

definition rpc_handle :: "('p, 'v) rpc_server \<Rightarrow> 'p edge http_handler" where
  "rpc_handle S r w0 e =
     (let w = rpc_headers w0 in
      if hq_Method r = ''POST'' then handleJSONRPCRequest S r w e
      else if hq_Method r = ''GET'' then ((None, handleGetRequest S w), e)
      else if hq_Method r = ''OPTIONS'' then ((None, w), e)
      else ((None, snd (Write_text (''method '' @ hq_Method r @ '' not allowed'') w)), e))"

datatype rpc_route = RouteRoot | RouteWs

definition rpc_mux :: "string \<rightharpoonup> rpc_route" where
  "rpc_mux = [''/'' \<mapsto> RouteRoot, ''/edge_ws'' \<mapsto> RouteWs]"

text \<open>\<open>NewJSONRPC\<close> with \<open>setupHTTP\<close>: \<open>listen\<close> is the outcome of \<open>net.Listen\<close>.\<close>

definition NewJSONRPC ::
    "json_lib \<Rightarrow> json_out \<Rightarrow> ('p, 'v) edge_env \<Rightarrow> rpc_config \<Rightarrow> (string \<Rightarrow> go_err option) \<Rightarrow> go_err + ('p, 'v) rpc_server" where
  "NewJSONRPC J jo E config listen =
     rbind (newDispatcher E 0) (\<lambda>d.
       case listen (rc_Addr config) of
         Some err \<Rightarrow> Inl err
       | None \<Rightarrow> Inr \<lparr>rs_json = J, rs_out = jo, rs_config = config, rs_dispatcher = d\<rparr>)"

text \<open>The answer to a request that is not for the web socket; \<open>gone\<close> says whether the client has left.\<close>

datatype served = Served "go_err option \<times> http_resp" | Redirected string | Upgraded

definition rpc_serve :: "('p, 'v) rpc_server \<Rightarrow> bool \<Rightarrow> http_req \<Rightarrow> 'p edge \<Rightarrow> served \<times> 'p edge" where
  "rpc_serve S gone r e = (case ServeMux_route rpc_mux r of
     MuxRedirect path \<Rightarrow> (Redirected path, e)
   | MuxHandler RouteRoot \<Rightarrow>
       (case middlewareFactory (rs_config S) (rpc_handle S) r (new_response gone) e of
          (o', e') \<Rightarrow> (Served (finishRequest o'), e'))
   | MuxHandler RouteWs \<Rightarrow> (Upgraded, e)
   | MuxNotFound \<Rightarrow> (Served (None, http_Error ''404 page not found'' 404 (new_response gone)), e))"

section \<open>Web socket sessions\<close>

text \<open>A session of one connection: the read loop of \<open>handleWs\<close>, the goroutines that handle the messages read so
  far, and what they answered.  A message is its type, the identifier that a new filter would get, and its text.\<close>

type_synonym ws_message = "nat \<times> string \<times> string"

record ws_session =
  wk_conn :: ws_conn
  wk_reading :: bool
  wk_pending :: "ws_message list"
  wk_answered :: "(ws_message \<times> string) list"
  wk_crashed :: bool

definition new_session :: "ws_conn \<Rightarrow> ws_session" where
  "new_session conn = \<lparr>wk_conn = conn, wk_reading = True, wk_pending = [], wk_answered = [], wk_crashed = False\<rparr>"

definition ws_answer :: "('p, 'v) rpc_server \<Rightarrow> go_err + string \<Rightarrow> string" where
  "ws_answer S r = (case r of Inl err \<Rightarrow> ''WS Handle error: '' @ jo_text (rs_out S) err | Inr resp \<Rightarrow> resp)"

definition ws_read :: "ws_event \<Rightarrow> ws_session \<times> 'p edge \<Rightarrow> (ws_session \<times> 'p edge) option" where
  "ws_read ev = (\<lambda>(k, e).
     if \<not> wk_reading k then None
     else case ev of
       WsReadError \<Rightarrow> Some (k\<lparr>wk_reading := False\<rparr>, di_RemoveFilterByWs (wk_conn k) e)
     | WsMessage msgType uuid message \<Rightarrow>
         Some (if isSupportedWSType msgType
               then k\<lparr>wk_pending := wk_pending k @ [(msgType, uuid, message)]\<rparr> else k, e))"

text \<open>The goroutine of a message; the write to a connection that is closed fails without effect.\<close>

definition ws_goroutine :: "('p, 'v) rpc_server \<Rightarrow> nat \<Rightarrow> ws_session \<times> 'p edge \<Rightarrow> (ws_session \<times> 'p edge) option" where
  "ws_goroutine S i = (\<lambda>(k, e).
     if i \<ge> length (wk_pending k) then None
     else case wk_pending k ! i of (msgType, uuid, message) \<Rightarrow>
       (case HandleWs (rs_json S) (rs_dispatcher S) uuid message (wk_conn k) e of
          (Inl panic, e') \<Rightarrow> Some (k\<lparr>wk_crashed := True\<rparr>, e')
        | (Inr r, e') \<Rightarrow>
            Some (k\<lparr>wk_pending := take i (wk_pending k) @ drop (Suc i) (wk_pending k),
                    wk_answered := wk_answered k @
                      [((msgType, uuid, message), ws_answer S (ws_reply_text (rs_out S) r))]\<rparr>, e')))"

datatype ws_op = SRead ws_event | SHandle nat

definition ws_do :: "('p, 'v) rpc_server \<Rightarrow> ws_op \<Rightarrow> ws_session \<times> 'p edge \<Rightarrow> (ws_session \<times> 'p edge) option" where
  "ws_do S op s = (if wk_crashed (fst s) then None
     else case op of SRead ev \<Rightarrow> ws_read ev s | SHandle i \<Rightarrow> ws_goroutine S i s)"

fun ws_run :: "('p, 'v) rpc_server \<Rightarrow> ws_op list \<Rightarrow> ws_session \<times> 'p edge \<Rightarrow> (ws_session \<times> 'p edge) option" where
  "ws_run S [] s = Some s"
| "ws_run S (op # ops) s = (case ws_do S op s of None \<Rightarrow> None | Some s' \<Rightarrow> ws_run S ops s')"

fun supported :: "ws_op list \<Rightarrow> ws_message list" where
  "supported [] = []"
| "supported (SRead (WsMessage ty uuid msg) # ops) =
     (if isSupportedWSType ty then (ty, uuid, msg) # supported ops else supported ops)"
| "supported (_ # ops) = supported ops"

section \<open>HTTP answers\<close>

text \<open>The response of \<open>rpc_handle\<close> to a client that is still there.\<close>

lemma rpc_headers_simps [simp]:
  "hw_Gone (rpc_headers w) = hw_Gone w" "hw_Body (rpc_headers w) = hw_Body w" "hw_Sent (rpc_headers w) = hw_Sent w"
  by (simp_all add: rpc_headers_def)

lemma rpc_headers_values:
  "hw_Header (rpc_headers w) ''Content-Type'' = Some ''application/json''"
  "hw_Header (rpc_headers w) ''Access-Control-Allow-Origin'' = hw_Header w ''Access-Control-Allow-Origin''"
  by (simp_all add: rpc_headers_def)

lemma handleGet_ok:
  assumes "\<not> hw_Gone w" and "jo_Info (rs_out S) (rc_NetworkName c) (rc_NetworkID c) (rc_Version c) = Inr t" and "c = rs_config S"
  shows "handleGetRequest S w = snd (Write_text t w)"
  using assms by (simp add: handleGetRequest_def Write_text_def Let_def)

end
