(* ===== verification/Rpc_Front_Props.thy ===== *)
theory Rpc_Front_Props
  imports Rpc_Front
begin

text \<open>
  What the JSON-RPC front answers: the outcome of every HTTP method with its cross-origin header, one answer for
  each message of a web socket, and the subscription that outlives its connection.
\<close>

section \<open>HTTP\<close>

lemma rpc_serve_root:
  assumes "cleanPath (hq_Path r) = hq_Path r" and "hq_Path r \<noteq> ''/edge_ws''"
  shows "rpc_serve S gone r e =
    (case middlewareFactory (rs_config S) (rpc_handle S) r (new_response gone) e of
       (o', e') \<Rightarrow> (Served (finishRequest o'), e'))"
proof -
  have "rpc_mux (hq_Path r) = None \<or> rpc_mux (hq_Path r) = Some RouteRoot" "rpc_mux ''/'' = Some RouteRoot"
    using assms(2) by (auto simp: rpc_mux_def)
  then have "ServeMux_route rpc_mux r = MuxHandler RouteRoot"
    unfolding ServeMux_route_def Let_def assms(1) by auto
  then show ?thesis by (simp add: rpc_serve_def)
qed

text \<open>The response that the middleware passes on.\<close>

definition cors_response :: "('p, 'v) rpc_server \<Rightarrow> http_req \<Rightarrow> http_resp" where
  "cors_response S r = rpc_headers (case allow_origin (rc_AllowOrigin (rs_config S)) (hq_Origin r) of
      None \<Rightarrow> new_response False | Some v \<Rightarrow> Header_Set ''Access-Control-Allow-Origin'' v (new_response False))"

lemma cors_response_simps [simp]:
  "\<not> hw_Gone (cors_response S r)" "hw_Body (cors_response S r) = []" "hw_Sent (cors_response S r) = None"
  "hw_Header (cors_response S r) ''Access-Control-Allow-Origin'' = allow_origin (rc_AllowOrigin (rs_config S)) (hq_Origin r)"
  "hw_Header (cors_response S r) ''Content-Type'' = Some ''application/json''"
  by (auto simp: cors_response_def rpc_headers_values split: option.split)

text \<open>C27. Over HTTP only POST reaches the dispatcher.  The answer to POST is the serialised reply, or the text of the
  error when the body cannot be read or serialised; GET answers the name, identifier and version of the
  network, OPTIONS nothing, and any other method a refusal, all without touching the state.  Every one of these answers
  is sent with status 200, as JSON, under a header that names the first allowed origin that is \<open>*\<close> or the origin of
  the request, if there is one.  Only the dispatcher can panic; the request that makes it panic is answered with
  nothing at all.\<close>

theorem http_front_outcomes:
  assumes "cleanPath (hq_Path r) = hq_Path r" and "hq_Path r \<noteq> ''/edge_ws''"
    and "jo_Info (rs_out S) (rc_NetworkName (rs_config S)) (rc_NetworkID (rs_config S)) (rc_Version (rs_config S)) = Inr info"
  shows "\<exists>p w e'. rpc_serve S False r e = (Served (p, w), e') \<and>
    (case p of
       None \<Rightarrow> \<exists>h. hw_Sent w = Some (200, h) \<and> h ''Content-Type'' = Some ''application/json'' \<and>
         h ''Access-Control-Allow-Origin'' = allow_origin (rc_AllowOrigin (rs_config S)) (hq_Origin r)
     | Some _ \<Rightarrow> hw_Sent w = None \<and> hw_Body w = []) \<and>
    (hq_Method r = ''POST'' \<longrightarrow>
      (case hq_Body r of
         Inl err \<Rightarrow> p = None \<and> e' = e \<and> hw_Body w = text_bytes (jo_text (rs_out S) err)
       | Inr data \<Rightarrow>
           (case Handle (rs_json S) (rs_dispatcher S) (bytes_text data) e of
              (Inl panic, e1) \<Rightarrow> p = Some panic \<and> e' = e1
            | (Inr rep, e1) \<Rightarrow> p = None \<and> e' = e1 \<and> hw_Body w = text_bytes
                (case reply_text (rs_out S) rep of Inl err \<Rightarrow> jo_text (rs_out S) err | Inr t \<Rightarrow> t)))) \<and>
    (hq_Method r \<noteq> ''POST'' \<longrightarrow> p = None \<and> e' = e \<and> hw_Body w = text_bytes
       (if hq_Method r = ''GET'' then info else if hq_Method r = ''OPTIONS'' then ''''
        else ''method '' @ hq_Method r @ '' not allowed''))"
proof -
  have m: "middlewareFactory (rs_config S) (rpc_handle S) r (new_response False) e =
      (if hq_Method r = ''POST'' then handleJSONRPCRequest S r (cors_response S r) e
       else if hq_Method r = ''GET'' then ((None, handleGetRequest S (cors_response S r)), e)
       else if hq_Method r = ''OPTIONS'' then ((None, cors_response S r), e)
       else ((None, snd (Write_text (''method '' @ hq_Method r @ '' not allowed'') (cors_response S r))), e))"
    by (simp add: middlewareFactory_def rpc_handle_def cors_response_def Let_def split: option.split)
  have g: "handleGetRequest S (cors_response S r) = snd (Write_text info (cors_response S r))"
    by (rule handleGet_ok [OF _ assms(3) refl]) simp
  show ?thesis
    unfolding rpc_serve_root [OF assms(1,2)] m g handleJSONRPCRequest_def
    by (cases "hq_Body r"; simp add: Write_text_def WriteHeader_def text_bytes_def split: prod.split sum.split)
qed

definition plain_out :: json_out where
  "plain_out = \<lparr>jo_Response = (\<lambda>_. Inr ''response''), jo_Error = (\<lambda>_ m. Inr m), jo_Result = (\<lambda>_. ''result''),
     jo_Info = (\<lambda>n _ v. Inr (n @ v)), jo_text = (\<lambda>_. ''error'')\<rparr>"

definition sample_server :: "json_lib \<Rightarrow> (unit, rlp_tree) rpc_server" where
  "sample_server J = \<lparr>rs_json = J, rs_out = plain_out, rs_config = \<lparr>rc_Addr = ''127.0.0.1:8545'', rc_NetworkID = 9,
     rc_NetworkName = ''emc'', rc_Version = ''1'', rc_AllowOrigin = [''a'', ''*'']\<rparr>, rs_dispatcher = edge_di no_pool 0\<rparr>"

theorem http_front_outcomes_witness:
  "\<exists>w. rpc_serve (sample_server (one_text JNull)) False
      \<lparr>hq_Method = ''GET'', hq_Path = ''/'', hq_Origin = ''b'', hq_Body = Inr []\<rparr> fresh_edge = (Served (None, w), fresh_edge) \<and>
     (\<exists>h. hw_Sent w = Some (200, h) \<and> h ''Access-Control-Allow-Origin'' = Some ''*'') \<and> hw_Body w = text_bytes ''emc1''"
proof -
  let ?r = "\<lparr>hq_Method = ''GET'', hq_Path = ''/'', hq_Origin = ''b'', hq_Body = Inr []\<rparr>"
  let ?S = "sample_server (one_text JNull)"
  have p: "cleanPath (hq_Path ?r) = hq_Path ?r" "hq_Path ?r \<noteq> ''/edge_ws''" by code_simp+
  have i: "jo_Info (rs_out ?S) (rc_NetworkName (rs_config ?S)) (rc_NetworkID (rs_config ?S)) (rc_Version (rs_config ?S)) = Inr ''emc1''"
    by (simp add: sample_server_def plain_out_def)
  from http_front_outcomes [OF p i, of fresh_edge] show ?thesis by (auto simp: sample_server_def)
qed

section \<open>Web sockets\<close>

lemma ws_do_keeps_conn: "ws_do S op (k, e) = Some (k', e') \<Longrightarrow> wk_conn k' = wk_conn k"
  by (auto simp: ws_do_def ws_read_def ws_goroutine_def split: ws_op.splits ws_event.splits if_splits prod.splits sum.splits)

lemma ws_do_messages:
  assumes "ws_do S op (k, e) = Some (k', e')"
  shows "mset (map fst (wk_answered k')) + mset (wk_pending k') =
    mset (map fst (wk_answered k)) + mset (wk_pending k) + mset (supported [op])"
proof (cases op)
  case (SRead ev)
  then show ?thesis using assms
    by (auto simp: ws_do_def ws_read_def split: ws_event.splits if_splits prod.splits)
next
  case (SHandle i)
  have "mset (wk_pending k) = add_mset (wk_pending k ! i) (mset (take i (wk_pending k) @ drop (Suc i) (wk_pending k)))"
    if "i < length (wk_pending k)" using arg_cong [OF id_take_nth_drop [OF that], of mset] by simp
  then show ?thesis using assms SHandle
    by (auto simp: ws_do_def ws_goroutine_def split: if_splits prod.splits sum.splits)
qed

lemma supported_Cons: "mset (supported (op # ops)) = mset (supported [op]) + mset (supported ops)"
proof (cases op)
  case (SRead ev)
  then show ?thesis by (cases ev) auto
qed auto

lemma ws_run_messages:
  "ws_run S ops (k, e) = Some (k', e') \<Longrightarrow>
   mset (map fst (wk_answered k')) + mset (wk_pending k') =
     mset (map fst (wk_answered k)) + mset (wk_pending k) + mset (supported ops)"
proof (induction ops arbitrary: k e)
  case (Cons op ops)
  obtain k1 e1 where s: "ws_do S op (k, e) = Some (k1, e1)" "ws_run S ops (k1, e1) = Some (k', e')"
    using Cons.prems by (auto split: option.splits)
  from Cons.IH [OF s(2)] ws_do_messages [OF s(1)] show ?case by (simp add: supported_Cons [of op ops] add.assoc)
qed simp

text \<open>The message with which a client subscribes.\<close>

definition subscribe_json :: "json \<Rightarrow> json" where
  "subscribe_json query = JObj [(''method'', JStr ''edge_subscribe''), (''params'', JArr [JStr ''node'', query])]"

lemma HandleWs_subscribe:
  assumes "js_Parse J msg = Inr (subscribe_json query)" and "decode_query query = Inr q"
  shows "HandleWs J d uuid msg conn e = (Inr (WsText (filter_reply ''null'' uuid)),
    e\<lparr>ed_filters := snd (NewNodeFilter (ed_filters e) uuid q (Some conn))\<rparr>)"
proof -
  let ?req = "\<lparr>rq_ID = JNull, rq_Method = ''edge_subscribe'', rq_Params = Some (JArr [JStr ''node'', query])\<rparr>"
  have keys: "\<not> key_is ''method'' ''id''" "key_is ''method'' ''method''" "\<not> key_is ''params'' ''id''"
    "\<not> key_is ''params'' ''method''" "key_is ''params'' ''params''" by code_simp+
  have "decode_request (subscribe_json query) = (?req, None)"
    by (simp add: subscribe_json_def decode_request_def request_field_def zero_request_def keys)
  moreover have "ws_subscribe J uuid ?req conn (ed_filters e) =
      (WsText (filter_reply ''null'' uuid), snd (NewNodeFilter (ed_filters e) uuid q (Some conn)))"
    using assms(2) by (simp add: ws_subscribe_def handleEdgeSubscribe_def DecodeNodeQueryFromInterface_def
        NewNodeFilter_eq formatFilterResponse_def)
  ultimately show ?thesis using assms(1) by (simp add: HandleWs_def)
qed

text \<open>C28. A message is handled in a goroutine of its own: while nothing panics, every supported message is answered
  exactly once, in whatever order, or still being handled.  Closing the connection removes only the filter that
  it remembers by then: a subscription that was read before the close and is handled after it installs a filter for
  the dead connection, with no timeout, and the session does nothing any more that would remove it.\<close>

theorem ws_late_subscription_stays:
  assumes "fm_reach ps timeout (ed_filters e)" and "js_Parse (rs_json S) msg = Inr (subscribe_json query)"
    and "decode_query query = Inr q" and "isSupportedWSType ty" and "uuid \<noteq> ''''" and "\<not> fm_Exists (ed_filters e) uuid"
  shows "(\<forall>ops k' e'. ws_run S ops (new_session conn, e) = Some (k', e') \<longrightarrow>
      mset (map fst (wk_answered k')) + mset (wk_pending k') = mset (supported ops)) \<and>
    (\<exists>k' e'. ws_run S [SRead (WsMessage ty uuid msg), SRead WsReadError, SHandle 0] (new_session conn, e) = Some (k', e') \<and>
      map fst (wk_answered k') = [(ty, uuid, msg)] \<and> (\<forall>op. ws_do S op (k', e') = None) \<and>
      fm_abs (ed_filters e') uuid = Some \<lparr>af_query = q, af_ws = Some conn, af_expires = 0, af_msgs = []\<rparr>)"
proof
  show "\<forall>ops k' e'. ws_run S ops (new_session conn, e) = Some (k', e') \<longrightarrow>
      mset (map fst (wk_answered k')) + mset (wk_pending k') = mset (supported ops)"
    using ws_run_messages by (fastforce simp: new_session_def)
  let ?e1 = "di_RemoveFilterByWs conn e"
  let ?m = "ed_filters ?e1"
  have wf: "fm_wf (ed_filters e)" by (rule fm_wf_reach [OF assms(1)])
  have m: "?m = snd (removeFilterByID (ed_filters e) (fm_wsID (ed_filters e) conn))"
    by (simp add: di_RemoveFilterByWs_def RemoveFilterByWs_def)
  have wf1: "fm_wf ?m" unfolding m by (rule fm_wf_removeFilterByID [OF wf])
  have "fm_abs ?m uuid = None" unfolding m abs_remove(1) [OF wf] using assms(6) by (simp add: fm_abs_eq_None fm_Exists_def)
  then have free: "fm_filters ?m uuid = None" by (simp add: fm_abs_eq_None)
  have a: "fm_abs (snd (NewNodeFilter ?m uuid q (Some conn))) uuid =
      Some \<lparr>af_query = q, af_ws = Some conn, af_expires = 0, af_msgs = []\<rparr>"
    using abs_new [OF wf1 assms(5) free] by simp
  have h: "HandleWs (rs_json S) (rs_dispatcher S) uuid msg conn ?e1 =
      (Inr (WsText (filter_reply ''null'' uuid)), ?e1\<lparr>ed_filters := snd (NewNodeFilter ?m uuid q (Some conn))\<rparr>)"
    by (rule HandleWs_subscribe [OF assms(2,3)])
  show "\<exists>k' e'. ws_run S [SRead (WsMessage ty uuid msg), SRead WsReadError, SHandle 0] (new_session conn, e) = Some (k', e') \<and>
      map fst (wk_answered k') = [(ty, uuid, msg)] \<and> (\<forall>op. ws_do S op (k', e') = None) \<and>
      fm_abs (ed_filters e') uuid = Some \<lparr>af_query = q, af_ws = Some conn, af_expires = 0, af_msgs = []\<rparr>"
    using assms(4) h a by (auto simp: ws_do_def ws_read_def ws_goroutine_def new_session_def split: ws_op.split)
qed

theorem ws_late_subscription_stays_witness:
  "\<exists>k' e'. ws_run (sample_server (one_text (subscribe_json (JObj []))))
      [SRead (WsMessage 1 ''u'' ''m''), SRead WsReadError, SHandle 0] (new_session 3, fresh_edge) = Some (k', e') \<and>
     fm_abs (ed_filters e') ''u'' = Some \<lparr>af_query = Some zero_query, af_ws = Some 3, af_expires = 0, af_msgs = []\<rparr>"
proof -
  let ?S = "sample_server (one_text (subscribe_json (JObj [])))"
  have r: "fm_reach id 60 (ed_filters fresh_edge)" by (simp add: fresh_edge_def fr_init)
  have p: "js_Parse (rs_json ?S) ''m'' = Inr (subscribe_json (JObj []))" "decode_query (JObj []) = Inr (Some zero_query)"
    by (simp_all add: sample_server_def one_text_def decode_query_def)
  have x: "isSupportedWSType 1" "''u'' \<noteq> ''''" "\<not> fm_Exists (ed_filters fresh_edge) ''u''"
    by (simp_all add: isSupportedWSType_def fresh_edge_def fm_Exists_def NewNodeFilterManager_def)
  from ws_late_subscription_stays [OF r p x, of 3] show ?thesis by blast
qed

end
