(* ===== verification/Sync_System.thy ===== *)
theory Sync_System
  imports Applications Connections
begin

text \<open>
  The running system of the status syncer: the gossip topic (\<open>core/network/gossip.go\<close>), the sync client
  (\<open>core/application/sync_client.go\<close>), the syncer (\<open>core/application/syncer.go\<close>) and the subscription
  of peer events that feeds it (\<open>Subscription\<close>, \<open>SubscribeFn\<close> and \<open>SubscribeCh\<close> of
  \<open>core/network/server.go\<close>).  Each goroutine is a component of the state, and one operation is what a goroutine
  does between two points where it can block.  A closed channel is a flag beside its buffer; an operation
  that Go would block on is not enabled (\<open>None\<close>); a panic ends the process (\<open>sy_crashed\<close>).
\<close>

section \<open>Topics\<close>

record topic =
  tp_handle :: bool       \<comment> \<open>whether the topic of the library is set\<close>
  tp_closeCh :: bool      \<comment> \<open>closed\<close>
  tp_closed :: u64

text \<open>The gossip library: joining, and publishing and subscribing through a handle that may be nil.\<close>

record pubsub_lib =
  ps_Join :: "string \<Rightarrow> go_err option"
  ps_Publish :: "bool \<Rightarrow> bytes \<Rightarrow> go_err option"
  ps_Subscribe :: "bool \<Rightarrow> go_err option"

definition close_channel :: "bool \<Rightarrow> go_err option" where
  "close_channel closed = (if closed then Some (GoPanic ''close of closed channel'') else None)"

definition Topic_Close :: "topic \<Rightarrow> go_err option \<times> topic" where
  "Topic_Close t = (if tp_closed t > 0 then (None, t\<lparr>tp_closed := 1\<rparr>)
     else (close_channel (tp_closeCh t), \<lparr>tp_handle = False, tp_closeCh = True, tp_closed = 1\<rparr>))"

definition Topic_Publish :: "pubsub_lib \<Rightarrow> ('a \<Rightarrow> go_err + bytes) \<Rightarrow> topic \<Rightarrow> 'a \<Rightarrow> go_err option" where
  "Topic_Publish L marshal t obj = (case marshal obj of Inl err \<Rightarrow> Some err | Inr data \<Rightarrow> ps_Publish L (tp_handle t) data)"

definition Topic_Subscribe :: "pubsub_lib \<Rightarrow> topic \<Rightarrow> go_err option \<times> topic" where
  "Topic_Subscribe L t = (case ps_Subscribe L (tp_handle t) of Some err \<Rightarrow> (Some err, t) | None \<Rightarrow> (None, t\<lparr>tp_closed := 0\<rparr>))"

definition NewTopic :: "pubsub_lib \<Rightarrow> string \<Rightarrow> go_err + topic" where
  "NewTopic L protoID = (case ps_Join L protoID of Some err \<Rightarrow> Inl err
     | None \<Rightarrow> Inr \<lparr>tp_handle = True, tp_closeCh = False, tp_closed = 0\<rparr>)"

section \<open>The sync client\<close>

definition statusTopicName :: string where "statusTopicName = ''appsyncer/status/0.2''"

record sync_client =
  sc_topic :: "topic option"
  sc_statusCh :: "app_peer list"       \<comment> \<open>capacity 1\<close>
  sc_statusClosed :: bool
  sc_connCh :: "peer_event list"       \<comment> \<open>capacity 1\<close>
  sc_connClosed :: bool
  sc_closeCh :: bool                   \<comment> \<open>closed\<close>
  sc_closed :: u64
  sc_shouldEmitData :: bool
  sc_stream :: event_stream

text \<open>The first event is pushed to a stream without subscribers.\<close>

definition NewSyncAppPeerClient :: sync_client where
  "NewSyncAppPeerClient = \<lparr>sc_topic = None, sc_statusCh = [], sc_statusClosed = False, sc_connCh = [],
     sc_connClosed = False, sc_closeCh = False, sc_closed = 0, sc_shouldEmitData = True,
     sc_stream = stream_push empty_event []\<rparr>"

definition SubscribeAppEvents :: "sync_client \<Rightarrow> nat \<times> sync_client" where
  "SubscribeAppEvents c = (case subscribe (sc_stream c) of (i, es) \<Rightarrow> (i, c\<lparr>sc_stream := es\<rparr>))"

definition DisablePublishingPeerStatus :: "sync_client \<Rightarrow> sync_client" where
  "DisablePublishingPeerStatus c = c\<lparr>sc_shouldEmitData := False\<rparr>"

definition EnablePublishingPeerStatus :: "sync_client \<Rightarrow> sync_client" where
  "EnablePublishingPeerStatus c = c\<lparr>sc_shouldEmitData := True\<rparr>"

definition startGossip :: "pubsub_lib \<Rightarrow> bool \<Rightarrow> sync_client \<Rightarrow> go_err option \<times> sync_client" where
  "startGossip L topicSubFlag c =
     (case NewTopic L statusTopicName of
        Inl err \<Rightarrow> (Some err, c)
      | Inr topic \<Rightarrow>
          if topicSubFlag then
            (case Topic_Subscribe L topic of
               (Some err, topic') \<Rightarrow> (Some (GoWrap ''unable to subscribe to gossip topic, '' err), c\<lparr>sc_topic := Some topic'\<rparr>)
             | (None, topic') \<Rightarrow> (None, c\<lparr>sc_topic := Some topic'\<rparr>))
          else (None, c\<lparr>sc_topic := Some topic\<rparr>))"

definition client_Start :: "pubsub_lib \<Rightarrow> bool \<Rightarrow> sync_client \<Rightarrow> go_err option \<times> sync_client" where
  "client_Start L topicSubFlag c = startGossip L topicSubFlag (c\<lparr>sc_closed := 0\<rparr>)"

definition client_Close :: "sync_client \<Rightarrow> go_err option \<times> sync_client" where
  "client_Close c =
     (if sc_closed c > 0 then (None, c\<lparr>sc_closed := 1\<rparr>)
      else let c1 = c\<lparr>sc_closed := 1\<rparr> in
      (case (case sc_topic c1 of None \<Rightarrow> (None, c1)
              | Some t \<Rightarrow> (case Topic_Close t of (r, t') \<Rightarrow> (r, c1\<lparr>sc_topic := Some t'\<rparr>))) of
         (Some p, c2) \<Rightarrow> (Some p, c2)
       | (None, c2) \<Rightarrow>
          (case close_channel (sc_closeCh c2) of
             Some p \<Rightarrow> (Some p, c2)
           | None \<Rightarrow> (close_channel (sc_statusClosed c2), c2\<lparr>sc_closeCh := True, sc_statusClosed := True\<rparr>))))"

text \<open>The error of a publication is logged.\<close>

definition PublishApplicationStatus ::
    "pubsub_lib \<Rightarrow> (app_status \<Rightarrow> go_err + bytes) \<Rightarrow> sync_client \<Rightarrow> app_status \<Rightarrow> go_err option" where
  "PublishApplicationStatus L marshal c status =
     (case sc_topic c of None \<Rightarrow> None
      | Some t \<Rightarrow> (case Topic_Publish L marshal t status of
          Some err \<Rightarrow> if is_panic err then Some err else None | None \<Rightarrow> None))"

section \<open>The system\<close>

text \<open>\<open>startPeerEventProcess\<close>: not started, at its \<open>select\<close>, sending to \<open>peerConnectionUpdateCh\<close>, returned.\<close>

datatype peer_proc = ProcNone | ProcIdle | ProcSending peer_event | ProcDone

record sync_sys =
  sy_client :: sync_client
  sy_started :: bool
  sy_newStatusClosed :: bool
  sy_peerMap :: peer_map
  sy_handlers :: "app_peer list"        \<comment> \<open>gossip handlers at their send\<close>
  sy_updater :: bool                    \<comment> \<open>\<open>startPeerStatusUpdateProcess\<close> runs\<close>
  sy_reading :: bool                    \<comment> \<open>\<open>readLoop\<close> runs\<close>
  sy_ticker :: bool
  sy_bus :: "peer_event list"           \<comment> \<open>the subscriber's buffer in the event bus\<close>
  sy_run :: "peer_event option"         \<comment> \<open>held by \<open>Subscription.run\<close>\<close>
  sy_fn :: "peer_event option"          \<comment> \<open>held by the handler of \<open>SubscribeFn\<close>\<close>
  sy_proc :: peer_proc
  sy_crashed :: bool

record sync_env =
  en_pubsub :: pubsub_lib
  en_multiaddr :: multiaddr_lib
  en_decode :: "string \<Rightarrow> go_err + peer_id"
  en_marshal :: "app_status \<Rightarrow> go_err + bytes"
  en_unmarshal :: "bytes \<Rightarrow> go_err + app_status"
  en_distance :: "peer_id \<Rightarrow> int"
  en_own_status :: app_status
  en_SubscribeCh_ok :: bool
  en_bus_cap :: nat

definition NewSyncer :: "sync_client \<Rightarrow> sync_sys" where
  "NewSyncer c = \<lparr>sy_client = c, sy_started = False, sy_newStatusClosed = False, sy_peerMap = Map.empty,
     sy_handlers = [], sy_updater = False, sy_reading = False, sy_ticker = False, sy_bus = [], sy_run = None,
     sy_fn = None, sy_proc = ProcNone, sy_crashed = False\<rparr>"

definition crash :: "sync_sys \<Rightarrow> sync_sys" where "crash s = s\<lparr>sy_crashed := True\<rparr>"

definition crash_on :: "go_err option \<Rightarrow> sync_sys \<Rightarrow> sync_sys" where
  "crash_on p s = (case p of Some err \<Rightarrow> if is_panic err then crash s else s | None \<Rightarrow> s)"

text \<open>\<open>Syncer.Start\<close> and \<open>Close\<close>; a subscription of peer events that fails closes the connection channel.\<close>

definition syncer_Start :: "sync_env \<Rightarrow> bool \<Rightarrow> sync_sys \<Rightarrow> sync_sys" where
  "syncer_Start E topicSubFlag s =
     (case client_Start (en_pubsub E) topicSubFlag (sy_client s) of
        (Some err, c) \<Rightarrow> crash_on (Some err) (s\<lparr>sy_client := c\<rparr>)
      | (None, c) \<Rightarrow>
         s\<lparr>sy_client := (if en_SubscribeCh_ok E then c else c\<lparr>sc_connClosed := True\<rparr>), sy_started := True,
           sy_updater := True, sy_reading := topicSubFlag, sy_ticker := True,
           sy_proc := (if en_SubscribeCh_ok E then ProcIdle else ProcDone)\<rparr>)"

definition syncer_Close :: "sync_sys \<Rightarrow> sync_sys" where
  "syncer_Close s =
     (case close_channel (sy_newStatusClosed s) of
        Some p \<Rightarrow> crash s
      | None \<Rightarrow> (case client_Close (sy_client s) of
          (p, c) \<Rightarrow> crash_on p (s\<lparr>sy_newStatusClosed := True, sy_client := c\<rparr>)))"

text \<open>A message of the topic: decoded and handled up to the send of the status.\<close>

definition gossip_message :: "sync_env \<Rightarrow> bytes \<Rightarrow> peer_id \<Rightarrow> sync_sys \<Rightarrow> sync_sys" where
  "gossip_message E data from s =
     (case en_unmarshal E data of
        Inl _ \<Rightarrow> s
      | Inr status \<Rightarrow>
         (case handleGossipAppStatusUpdate (en_multiaddr E) (en_decode E) (en_distance E from) status (sc_stream (sy_client s)) of
            Inl _ \<Rightarrow> crash s
          | Inr (None, es) \<Rightarrow> s\<lparr>sy_client := (sy_client s)\<lparr>sc_stream := es\<rparr>\<rparr>
          | Inr (Some p, es) \<Rightarrow>
              s\<lparr>sy_client := (sy_client s)\<lparr>sc_stream := es\<rparr>, sy_handlers := sy_handlers s @ [p]\<rparr>))"

definition drop_nth :: "nat \<Rightarrow> 'a list \<Rightarrow> 'a list" where "drop_nth i xs = take i xs @ drop (Suc i) xs"

definition send_status :: "nat \<Rightarrow> sync_sys \<Rightarrow> sync_sys option" where
  "send_status i s =
     (let c = sy_client s in
      if i \<ge> length (sy_handlers s) then None
      else if sc_statusClosed c then Some (crash s)
      else if length (sc_statusCh c) < 1
        then Some (s\<lparr>sy_client := c\<lparr>sc_statusCh := sc_statusCh c @ [sy_handlers s ! i]\<rparr>, sy_handlers := drop_nth i (sy_handlers s)\<rparr>)
      else None)"

text \<open>\<open>notifyNewStatusEvent\<close>: nobody receives, so the \<open>select\<close> takes its default, unless the channel is
  closed, when the send panics.\<close>

definition update_step :: "sync_sys \<Rightarrow> sync_sys option" where
  "update_step s =
     (let c = sy_client s in
      if \<not> sy_updater s then None
      else case sc_statusCh c of
        [] \<Rightarrow> if sc_statusClosed c then Some (s\<lparr>sy_updater := False\<rparr>) else None
      | p # r \<Rightarrow>
          (case putToPeerMap (sy_peerMap s) (Some p) of
             Inl _ \<Rightarrow> Some (crash s)
           | Inr m \<Rightarrow>
               let s' = s\<lparr>sy_client := c\<lparr>sc_statusCh := r\<rparr>, sy_peerMap := m\<rparr>
               in Some (if sy_newStatusClosed s then crash s' else s')))"

text \<open>The event bus hands an event to \<open>Subscription.run\<close>, which hands it to the loop of \<open>SubscribeFn\<close>; the
  handler of \<open>SubscribeCh\<close> then waits for the receiver.\<close>

definition run_take :: "sync_sys \<Rightarrow> sync_sys option" where
  "run_take s = (case (sy_run s, sy_bus s) of
     (None, e # r) \<Rightarrow> Some (s\<lparr>sy_run := Some e, sy_bus := r\<rparr>) | _ \<Rightarrow> None)"

definition run_give :: "sync_sys \<Rightarrow> sync_sys option" where
  "run_give s = (case (sy_run s, sy_fn s) of
     (Some e, None) \<Rightarrow> Some (s\<lparr>sy_run := None, sy_fn := Some e\<rparr>) | _ \<Rightarrow> None)"

definition fn_give :: "sync_sys \<Rightarrow> sync_sys option" where
  "fn_give s = (case (sy_fn s, sy_proc s) of
     (Some e, ProcIdle) \<Rightarrow>
        Some (s\<lparr>sy_fn := None,
                sy_proc := (if ev_Type e = PeerConnected \<or> ev_Type e = PeerDisconnected then ProcSending e else ProcIdle)\<rparr>)
   | _ \<Rightarrow> None)"

definition forward_step :: "sync_sys \<Rightarrow> sync_sys option" where
  "forward_step s = (case sy_proc s of
     ProcSending e \<Rightarrow>
        if length (sc_connCh (sy_client s)) < 1
        then Some (s\<lparr>sy_client := (sy_client s)\<lparr>sc_connCh := sc_connCh (sy_client s) @ [e]\<rparr>, sy_proc := ProcIdle\<rparr>)
        else None
   | _ \<Rightarrow> None)"

definition proc_stop :: "sync_sys \<Rightarrow> sync_sys option" where
  "proc_stop s = (if sy_proc s = ProcIdle \<and> sc_closeCh (sy_client s)
     then Some (s\<lparr>sy_client := (sy_client s)\<lparr>sc_connClosed := True\<rparr>, sy_proc := ProcDone\<rparr>) else None)"

datatype sync_op =
    OpStart bool | OpClose
  | OpGossip bytes peer_id | OpReadStop | OpSend nat | OpUpdate | OpTick
  | OpEmit peer_event | OpRunTake | OpRunGive | OpFnGive | OpForward | OpProcStop

text \<open>The syncer is started once, before it is closed.  \<open>OpEmit\<close> is \<open>Emit\<close> of the server's emitter,
  which blocks while a subscriber's buffer is full.\<close>

definition sync_do :: "sync_env \<Rightarrow> sync_op \<Rightarrow> sync_sys \<Rightarrow> sync_sys option" where
  "sync_do E op s =
     (if sy_crashed s then None
      else case op of
        OpStart flag \<Rightarrow> if sy_started s \<or> sy_newStatusClosed s then None else Some (syncer_Start E flag s)
      | OpClose \<Rightarrow> Some (syncer_Close s)
      | OpGossip data from \<Rightarrow> if sy_reading s then Some (gossip_message E data from s) else None
      | OpReadStop \<Rightarrow> (case sc_topic (sy_client s) of
            Some t \<Rightarrow> if sy_reading s \<and> tp_closeCh t then Some (s\<lparr>sy_reading := False\<rparr>) else None
          | None \<Rightarrow> None)
      | OpSend i \<Rightarrow> send_status i s
      | OpUpdate \<Rightarrow> update_step s
      | OpTick \<Rightarrow> if sy_ticker s
          then Some (crash_on (PublishApplicationStatus (en_pubsub E) (en_marshal E) (sy_client s) (en_own_status E)) s) else None
      | OpEmit e \<Rightarrow> if length (sy_bus s) < en_bus_cap E then Some (s\<lparr>sy_bus := sy_bus s @ [e]\<rparr>) else None
      | OpRunTake \<Rightarrow> run_take s
      | OpRunGive \<Rightarrow> run_give s
      | OpFnGive \<Rightarrow> fn_give s
      | OpForward \<Rightarrow> forward_step s
      | OpProcStop \<Rightarrow> proc_stop s)"

fun sync_run :: "sync_env \<Rightarrow> sync_op list \<Rightarrow> sync_sys \<Rightarrow> sync_sys option" where
  "sync_run E [] s = Some s"
| "sync_run E (op # ops) s = (case sync_do E op s of None \<Rightarrow> None | Some s' \<Rightarrow> sync_run E ops s')"

inductive sync_reach :: "sync_env \<Rightarrow> sync_sys \<Rightarrow> bool" for E where
  sync_init: "sync_reach E (NewSyncer NewSyncAppPeerClient)"
| sync_step: "sync_reach E s \<Longrightarrow> sync_do E op s = Some s' \<Longrightarrow> sync_reach E s'"

end
