(* ===== verification/Sync_Props.thy ===== *)
theory Sync_Props
  imports Sync_System
begin

text \<open>Properties of the running syncer: what its invariant says before and after \<open>Close\<close>, the stall of peer
  events, and the peer map as a function of the statuses that were sent.\<close>

section \<open>What the libraries promise\<close>

text \<open>Joining, subscribing and publishing through a topic of the library return errors, never panic; a method
  of the nil topic panics.\<close>

definition pubsub_laws :: "pubsub_lib \<Rightarrow> bool" where
  "pubsub_laws L \<longleftrightarrow> (\<forall>t err. ps_Join L t = Some err \<longrightarrow> \<not> is_panic err) \<and>
     (\<forall>err. ps_Subscribe L True = Some err \<longrightarrow> \<not> is_panic err) \<and>
     (\<forall>d err. ps_Publish L True d = Some err \<longrightarrow> \<not> is_panic err) \<and>
     (\<forall>d. \<exists>err. ps_Publish L False d = Some err \<and> is_panic err)"

text \<open>A message that does not decode, or whose relay address is empty or parses.\<close>

definition harmless :: "sync_env \<Rightarrow> sync_op \<Rightarrow> bool" where
  "harmless E op = (case op of
     OpGossip data from \<Rightarrow> (case en_unmarshal E data of Inl _ \<Rightarrow> True
       | Inr st \<Rightarrow> as_Relay st = '''' \<or> (\<exists>m. ml_NewMultiaddr (en_multiaddr E) (as_Relay st) = Inr m))
   | _ \<Rightarrow> True)"

definition env_ok :: "sync_env \<Rightarrow> bool" where
  "env_ok E \<longleftrightarrow> pubsub_laws (en_pubsub E) \<and> multiaddr_laws (en_multiaddr E) \<and>
     (\<exists>d. en_marshal E (en_own_status E) = Inr d)"

lemma gossip_total:
  assumes "multiaddr_laws L" and "as_Relay st = '''' \<or> (\<exists>m. ml_NewMultiaddr L (as_Relay st) = Inr m)"
  shows "\<exists>r. handleGossipAppStatusUpdate L decode d st es = Inr r"
proof -
  obtain a where a: "masked_ip_addr L st = Inr a" using masked_ip_total [OF assms(1)] by blast
  have "\<nexists>err. status_relay_host L st = Inl err" using assms(2) relay_host_panics_iff [OF assms(1), of st] by auto
  then obtain h where "status_relay_host L st = Inr h" by (cases "status_relay_host L st") auto
  then show ?thesis using a by (auto simp: handleGossipAppStatusUpdate_def split: sum.splits)
qed

section \<open>Single operations\<close>

lemma sync_do_live:
  assumes "sync_do E op s = Some s'"
  shows "\<not> sy_crashed s"
  using assms by (auto simp: sync_do_def)

lemma sync_do_simps:
  assumes "\<not> sy_crashed s"
  shows "sync_do E (OpStart flag) s = (if sy_started s \<or> sy_newStatusClosed s then None else Some (syncer_Start E flag s))"
    "sync_do E OpClose s = Some (syncer_Close s)"
    "sync_do E (OpGossip data sender) s = (if sy_reading s then Some (gossip_message E data sender s) else None)"
    "sync_do E (OpSend i) s = send_status i s"
    "sync_do E OpUpdate s = update_step s"
    "sync_do E OpTick s = (if sy_ticker s
       then Some (crash_on (PublishApplicationStatus (en_pubsub E) (en_marshal E) (sy_client s) (en_own_status E)) s) else None)"
    "sync_do E (OpEmit e) s = (if length (sy_bus s) < en_bus_cap E then Some (s\<lparr>sy_bus := sy_bus s @ [e]\<rparr>) else None)"
    "sync_do E OpFnGive s = fn_give s" "sync_do E OpForward s = forward_step s" "sync_do E OpProcStop s = proc_stop s"
    "sync_do E OpReadStop s = Some s' \<Longrightarrow> s' = s\<lparr>sy_reading := False\<rparr>"
    "sync_do E OpRunTake s = Some s' \<Longrightarrow> \<exists>e r. sy_run s = None \<and> sy_bus s = e # r \<and> s' = s\<lparr>sy_run := Some e, sy_bus := r\<rparr>"
    "sync_do E OpRunGive s = Some s' \<Longrightarrow> \<exists>e. sy_run s = Some e \<and> sy_fn s = None \<and> s' = s\<lparr>sy_run := None, sy_fn := Some e\<rparr>"
  using assms by (simp_all add: sync_do_def run_take_def run_give_def split: option.splits list.splits if_splits)

lemma gossip_frame:
  obtains es hs k where
    "gossip_message E data sender s = s\<lparr>sy_client := (sy_client s)\<lparr>sc_stream := es\<rparr>, sy_handlers := hs, sy_crashed := k\<rparr>"
proof (cases "en_unmarshal E data")
  case (Inl err)
  then show thesis
    using that [of "sy_crashed s" "sy_handlers s" "sc_stream (sy_client s)"] by (simp add: gossip_message_def)
next
  case (Inr st)
  show thesis
  proof (cases "handleGossipAppStatusUpdate (en_multiaddr E) (en_decode E) (en_distance E sender) st (sc_stream (sy_client s))")
    case (Inl err)
    then show thesis
      using Inr that [of True "sy_handlers s" "sc_stream (sy_client s)"] by (simp add: gossip_message_def crash_def)
  next
    case r: (Inr r)
    show thesis
    proof (cases "fst r")
      case None
      then have "gossip_message E data sender s = s\<lparr>sy_client := (sy_client s)\<lparr>sc_stream := snd r\<rparr>\<rparr>"
        using Inr r by (cases r) (simp add: gossip_message_def)
      then show thesis using that [of "sy_crashed s" "sy_handlers s" "snd r"] by simp
    next
      case (Some p)
      then have "gossip_message E data sender s =
          s\<lparr>sy_client := (sy_client s)\<lparr>sc_stream := snd r\<rparr>, sy_handlers := sy_handlers s @ [p]\<rparr>"
        using Inr r by (cases r) (simp add: gossip_message_def)
      then show thesis using that [of "sy_crashed s" "sy_handlers s @ [p]" "snd r"] by simp
    qed
  qed
qed

lemma gossip_harmless_live:
  assumes "multiaddr_laws (en_multiaddr E)" and "harmless E (OpGossip data sender)"
  shows "sy_crashed (gossip_message E data sender s) = sy_crashed s"
proof (cases "en_unmarshal E data")
  case (Inr st)
  then have "as_Relay st = '''' \<or> (\<exists>m. ml_NewMultiaddr (en_multiaddr E) (as_Relay st) = Inr m)"
    using assms(2) by (simp add: harmless_def)
  from gossip_total [OF assms(1) this] obtain r where
    "handleGossipAppStatusUpdate (en_multiaddr E) (en_decode E) (en_distance E sender) st (sc_stream (sy_client s)) = Inr r"
    by blast
  then show ?thesis using Inr by (cases r; cases "fst r") (auto simp: gossip_message_def)
qed (simp add: gossip_message_def)

section \<open>The invariant\<close>

definition topic_ok :: "bool \<Rightarrow> topic \<Rightarrow> bool" where
  "topic_ok closed t \<longleftrightarrow> tp_handle t = (\<not> closed) \<and> tp_closeCh t = closed \<and> (tp_closed t \<noteq> 0) = closed"

definition sync_inv :: "sync_sys \<Rightarrow> bool" where
  "sync_inv s \<longleftrightarrow> (let k = sy_newStatusClosed s; c = sy_client s in
     sc_statusClosed c = k \<and> sc_closeCh c = k \<and> (sc_closed c \<noteq> 0) = k \<and>
     (\<forall>t. sc_topic c = Some t \<longrightarrow> topic_ok k t) \<and> (sy_started s \<longrightarrow> sc_topic c \<noteq> None) \<and>
     sy_ticker s = sy_started s \<and> (sy_crashed s \<longrightarrow> k))"

lemma sync_inv_init: "sync_inv (NewSyncer NewSyncAppPeerClient)"
  by (simp add: sync_inv_def NewSyncer_def NewSyncAppPeerClient_def)

lemma client_Start_open:
  assumes "pubsub_laws L" and "client_Start L flag c = (r, c')" and "\<And>t. sc_topic c = Some t \<Longrightarrow> topic_ok False t"
  shows "sc_closed c' = 0" "sc_statusClosed c' = sc_statusClosed c" "sc_closeCh c' = sc_closeCh c"
    "sc_topic c' = Some t \<Longrightarrow> topic_ok False t" "r = None \<Longrightarrow> sc_topic c' \<noteq> None" "r = Some err \<Longrightarrow> \<not> is_panic err"
  using assms unfolding pubsub_laws_def
  by (auto simp: client_Start_def startGossip_def NewTopic_def Topic_Subscribe_def topic_ok_def
      split: option.splits sum.splits if_splits prod.splits)

lemma syncer_Start_inv:
  assumes "env_ok E" and "sync_inv s" and "\<not> sy_started s" and "\<not> sy_newStatusClosed s" and "\<not> sy_crashed s"
  shows "sync_inv (syncer_Start E flag s)"
proof -
  obtain r c where c: "client_Start (en_pubsub E) flag (sy_client s) = (r, c)" by force
  have t: "\<And>t. sc_topic (sy_client s) = Some t \<Longrightarrow> topic_ok False t"
    using assms(2,4) by (simp add: sync_inv_def Let_def)
  have laws: "pubsub_laws (en_pubsub E)" using assms(1) by (simp add: env_ok_def)
  note open_c = client_Start_open [OF laws c t]
  show ?thesis
    using assms(2-5) open_c by (cases r) (simp_all add: syncer_Start_def c sync_inv_def Let_def crash_on_def)
qed

lemma client_Close_open:
  assumes "sc_closed c = 0" "\<not> sc_closeCh c" "\<not> sc_statusClosed c" "\<And>t. sc_topic c = Some t \<Longrightarrow> topic_ok False t"
  obtains c' where "client_Close c = (None, c')" "sc_closed c' = 1" "sc_closeCh c'" "sc_statusClosed c'"
    "\<And>t. sc_topic c' = Some t \<Longrightarrow> topic_ok True t" "(sc_topic c' = None) = (sc_topic c = None)"
  using assms by (cases "sc_topic c") (auto simp: client_Close_def Let_def Topic_Close_def close_channel_def topic_ok_def word_gt_0)

lemma syncer_Close_inv:
  assumes "sync_inv s" and "\<not> sy_crashed s"
  shows "sync_inv (syncer_Close s)"
proof (cases "sy_newStatusClosed s")
  case True
  then show ?thesis using assms by (simp add: syncer_Close_def close_channel_def sync_inv_def crash_def Let_def)
next
  case False
  obtain c' where c': "client_Close (sy_client s) = (None, c')" "sc_closed c' = 1" "sc_closeCh c'" "sc_statusClosed c'"
    "\<And>t. sc_topic c' = Some t \<Longrightarrow> topic_ok True t" "(sc_topic c' = None) = (sc_topic (sy_client s) = None)"
    by (rule client_Close_open [of "sy_client s"]) (use assms(1) False in \<open>auto simp: sync_inv_def Let_def\<close>)
  have "sync_inv (s\<lparr>sy_newStatusClosed := True, sy_client := c'\<rparr>)"
    unfolding sync_inv_def Let_def using c' assms by (auto simp: sync_inv_def Let_def)
  then show ?thesis using c'(1) False by (simp add: syncer_Close_def close_channel_def crash_on_def)
qed

lemma tick_result:
  assumes "env_ok E" and "sync_inv s" and "sy_started s" and "\<not> sy_crashed s"
  shows "sync_do E OpTick s = Some (if sy_newStatusClosed s then crash s else s)"
proof -
  obtain t where t: "sc_topic (sy_client s) = Some t" "topic_ok (sy_newStatusClosed s) t"
    using assms(2,3) by (auto simp: sync_inv_def Let_def)
  obtain d where d: "en_marshal E (en_own_status E) = Inr d" using assms(1) by (auto simp: env_ok_def)
  have laws: "\<And>err. ps_Publish (en_pubsub E) True d = Some err \<Longrightarrow> \<not> is_panic err"
    "\<exists>err. ps_Publish (en_pubsub E) False d = Some err \<and> is_panic err"
    using assms(1) by (auto simp: env_ok_def pubsub_laws_def)
  have "sy_ticker s" using assms(2,3) by (simp add: sync_inv_def Let_def)
  then show ?thesis using t laws assms(4)
    by (auto simp: sync_do_def PublishApplicationStatus_def Topic_Publish_def d topic_ok_def crash_on_def split: option.splits)
qed

lemma sync_inv_frame:
  assumes "sync_inv s" and "sy_newStatusClosed s' = sy_newStatusClosed s" and "sy_started s' = sy_started s"
    and "sy_ticker s' = sy_ticker s" and "sy_crashed s' \<longrightarrow> sy_newStatusClosed s"
    and "sc_statusClosed (sy_client s') = sc_statusClosed (sy_client s)" and "sc_closeCh (sy_client s') = sc_closeCh (sy_client s)"
    and "sc_closed (sy_client s') = sc_closed (sy_client s)" and "sc_topic (sy_client s') = sc_topic (sy_client s)"
  shows "sync_inv s'"
  using assms by (simp add: sync_inv_def Let_def)

text \<open>Most operations leave the peer map, the topic and the channel of the statuses alone.\<close>

definition quiet_part where
  "quiet_part s = (sy_peerMap s, sy_newStatusClosed s, sy_started s, sy_ticker s, sc_statusClosed (sy_client s),
     sc_closeCh (sy_client s), sc_closed (sy_client s), sc_topic (sy_client s), sc_statusCh (sy_client s))"

fun aside :: "sync_op \<Rightarrow> bool" where
  "aside (OpStart _) = False" | "aside OpClose = False" | "aside (OpSend _) = False" | "aside OpUpdate = False" | "aside _ = True"

lemma aside_kept:
  assumes "sync_do E op s = Some s'" and "aside op"
  shows "quiet_part s' = quiet_part s"
proof -
  note do = sync_do_simps [OF sync_do_live [OF assms(1)]]
  show ?thesis
  proof (cases op)
    case (OpGossip dat sender)
    obtain es hs c where "gossip_message E dat sender s = s\<lparr>sy_client := (sy_client s)\<lparr>sc_stream := es\<rparr>, sy_handlers := hs, sy_crashed := c\<rparr>"
      by (rule gossip_frame)
    then have "quiet_part (gossip_message E dat sender s) = quiet_part s" by (simp add: quiet_part_def)
    then show ?thesis using OpGossip assms(1) do(3) by (simp split: if_splits)
  next
    case OpReadStop
    from do(11) [OF assms(1) [unfolded this]] show ?thesis by (simp add: quiet_part_def)
  next
    case OpRunTake
    from do(12) [OF assms(1) [unfolded this]] show ?thesis by (auto simp: quiet_part_def)
  next
    case OpRunGive
    from do(13) [OF assms(1) [unfolded this]] show ?thesis by (auto simp: quiet_part_def)
  qed (use assms do(6-10) in \<open>auto simp: quiet_part_def crash_def crash_on_def fn_give_def forward_step_def proc_stop_def
      split: if_splits option.splits peer_proc.splits\<close>)
qed

lemma aside_live:
  assumes "sync_do E op s = Some s'" and "aside op" and "op \<noteq> OpTick" and "env_ok E" and "harmless E op"
  shows "\<not> sy_crashed s'"
proof -
  have live: "\<not> sy_crashed s" by (rule sync_do_live [OF assms(1)])
  note do = sync_do_simps [OF live]
  show ?thesis
  proof (cases op)
    case (OpGossip dat sender)
    then have "s' = gossip_message E dat sender s" using assms(1) do(3) by (simp split: if_splits)
    then show ?thesis using gossip_harmless_live assms(4,5) OpGossip live by (simp add: env_ok_def)
  next
    case OpReadStop
    from do(11) [OF assms(1) [unfolded this]] show ?thesis using live by simp
  next
    case OpRunTake
    from do(12) [OF assms(1) [unfolded this]] show ?thesis using live by auto
  next
    case OpRunGive
    from do(13) [OF assms(1) [unfolded this]] show ?thesis using live by auto
  qed (use assms(1-3) do(7-10) live in \<open>auto simp: fn_give_def forward_step_def proc_stop_def
      split: if_splits option.splits peer_proc.splits\<close>)
qed

lemma sync_inv_step:
  assumes "env_ok E" and "sync_inv s" and "harmless E op" and "sync_do E op s = Some s'"
  shows "sync_inv s'"
proof -
  have live: "\<not> sy_crashed s" by (rule sync_do_live [OF assms(4)])
  have k: "sc_statusClosed (sy_client s) = sy_newStatusClosed s" using assms(2) by (simp add: sync_inv_def Let_def)
  note do = sync_do_simps [OF live]
  consider flag where "op = OpStart flag" | "op = OpClose" | i where "op = OpSend i" | "op = OpUpdate" | "op = OpTick"
    | "aside op" "op \<noteq> OpTick" by (cases op) auto
  then show ?thesis
  proof cases
    case (1 flag)
    then show ?thesis using assms(4) do(1) live syncer_Start_inv [OF assms(1,2)] by (auto split: if_splits)
  next
    case 2
    then show ?thesis using assms(4) do(2) live syncer_Close_inv [OF assms(2)] by simp
  next
    case (3 i)
    then show ?thesis using assms(4) do(4) k live
      by (intro sync_inv_frame [OF assms(2)]) (auto simp: send_status_def Let_def crash_def split: if_splits)
  next
    case 4
    then show ?thesis using assms(4) do(5) k live
      by (intro sync_inv_frame [OF assms(2)])
         (auto simp: update_step_def Let_def crash_def putToPeerMap_def split: if_splits list.splits)
  next
    case 5
    have "sy_started s" using assms(2,4) 5 do(6) by (simp add: sync_inv_def Let_def split: if_splits)
    then show ?thesis using tick_result [OF assms(1,2) _ live] assms(2,4) 5
      by (auto simp: sync_inv_def Let_def crash_def split: if_splits)
  next
    case 6
    from aside_kept [OF assms(4) 6(1)] aside_live [OF assms(4) 6 assms(1,3)] show ?thesis
      by (intro sync_inv_frame [OF assms(2)]) (simp_all add: quiet_part_def)
  qed
qed

lemma sync_inv_run:
  "env_ok E \<Longrightarrow> sync_inv s \<Longrightarrow> (\<forall>op \<in> set ops. harmless E op) \<Longrightarrow> sync_run E ops s = Some s' \<Longrightarrow> sync_inv s'"
  by (induction ops arbitrary: s) (auto split: option.splits intro: sync_inv_step)

section \<open>Peer events\<close>

definition is_emit :: "sync_op \<Rightarrow> bool" where "is_emit op = (case op of OpEmit _ \<Rightarrow> True | _ \<Rightarrow> False)"

definition waiting :: "sync_sys \<Rightarrow> nat" where
  "waiting s = length (sy_bus s) + (case sy_run s of None \<Rightarrow> 0 | Some _ \<Rightarrow> 1) + (case sy_fn s of None \<Rightarrow> 0 | Some _ \<Rightarrow> 1)"

definition stalled :: "peer_event \<Rightarrow> peer_event list \<Rightarrow> sync_sys \<Rightarrow> bool" where
  "stalled e q s \<longleftrightarrow> sy_proc s = ProcSending e \<and> sc_connCh (sy_client s) = q \<and> q \<noteq> [] \<and> sy_started s"

lemma syncer_Start_bus: "sy_bus (syncer_Start E flag s) = sy_bus s" "sy_bus (syncer_Close s) = sy_bus s"
  by (auto simp: syncer_Start_def syncer_Close_def crash_on_def crash_def split: option.splits prod.splits)

lemma bus_step:
  assumes "length (sy_bus s) \<le> n" and "sync_do E op s = Some s'" and "n = en_bus_cap E"
  shows "length (sy_bus s') \<le> n"
proof -
  note do = sync_do_simps [OF sync_do_live [OF assms(2)]]
  show ?thesis
  proof (cases op)
    case (OpGossip dat sender)
    obtain es hs k where "gossip_message E dat sender s = s\<lparr>sy_client := (sy_client s)\<lparr>sc_stream := es\<rparr>, sy_handlers := hs, sy_crashed := k\<rparr>"
      by (rule gossip_frame)
    then have "sy_bus (gossip_message E dat sender s) = sy_bus s" by simp
    then show ?thesis using assms do(3) OpGossip by (simp split: if_splits)
  next
    case OpRunTake
    from do(12) [OF assms(2) [unfolded this]] show ?thesis using assms(1) by (elim exE conjE) simp
  next
    case OpReadStop
    from do(11) [OF assms(2) [unfolded this]] show ?thesis using assms(1) by simp
  next
    case OpRunGive
    from do(13) [OF assms(2) [unfolded this]] show ?thesis using assms(1) by (elim exE conjE) simp
  next
    case OpUpdate
    then show ?thesis using assms do(5) by (auto simp: update_step_def Let_def crash_def putToPeerMap_def split: if_splits list.splits)
  qed (use assms do(1,2,4,6-10) in \<open>auto simp: syncer_Start_bus send_status_def Let_def crash_def crash_on_def fn_give_def
         forward_step_def proc_stop_def split: if_splits option.splits peer_proc.splits\<close>)
qed

lemma bus_bound: "sync_reach E s \<Longrightarrow> length (sy_bus s) \<le> en_bus_cap E"
  by (induction rule: sync_reach.induct) (auto simp: NewSyncer_def dest: bus_step)

lemma client_Close_connCh: "client_Close c = (p, c') \<Longrightarrow> sc_connCh c' = sc_connCh c"
  by (auto simp: client_Close_def Let_def split: if_splits option.splits prod.splits)

lemma syncer_Close_frame:
  assumes "client_Close (sy_client s) = (p, c')"
  shows "syncer_Close s = (if sy_newStatusClosed s then crash s
    else crash_on p (s\<lparr>sy_newStatusClosed := True, sy_client := c'\<rparr>))"
  using assms by (simp add: syncer_Close_def close_channel_def)

text \<open>What carries the peer events, and the operations that leave it alone.\<close>

definition flow where
  "flow s = (sy_proc s, sc_connCh (sy_client s), sy_started s, sy_bus s, sy_run s, sy_fn s)"

fun off_flow :: "sync_op \<Rightarrow> bool" where
  "off_flow OpClose = True" | "off_flow (OpGossip _ _) = True" | "off_flow (OpSend _) = True" | "off_flow OpUpdate = True"
| "off_flow OpTick = True" | "off_flow OpReadStop = True" | "off_flow _ = False"

lemma flow_kept:
  assumes "sync_do E op s = Some s'" and "off_flow op"
  shows "flow s' = flow s"
proof -
  note do = sync_do_simps [OF sync_do_live [OF assms(1)]]
  show ?thesis
  proof (cases op)
    case OpClose
    obtain p c' where c: "client_Close (sy_client s) = (p, c')" by force
    have "flow (syncer_Close s) = flow s"
      unfolding syncer_Close_frame [OF c] using client_Close_connCh [OF c]
      by (simp add: flow_def crash_def crash_on_def split: option.splits)
    then show ?thesis using assms(1) OpClose do(2) by simp
  next
    case (OpGossip dat sender)
    obtain es hs k where "gossip_message E dat sender s = s\<lparr>sy_client := (sy_client s)\<lparr>sc_stream := es\<rparr>, sy_handlers := hs, sy_crashed := k\<rparr>"
      by (rule gossip_frame)
    then have "flow (gossip_message E dat sender s) = flow s" by (simp add: flow_def)
    then show ?thesis using assms(1) OpGossip do(3) by (simp split: if_splits)
  next
    case OpReadStop
    from do(11) [OF assms(1) [unfolded this]] show ?thesis by (simp add: flow_def)
  qed (use assms do(4-6) in \<open>auto simp: flow_def send_status_def update_step_def Let_def crash_def crash_on_def putToPeerMap_def
      split: if_splits list.splits option.splits\<close>)
qed

lemma stalled_step:
  assumes "stalled e q s" and "length (sy_bus s) \<le> en_bus_cap E" and "sync_do E op s = Some s'"
  shows "stalled e q s' \<and> waiting s' = waiting s + (if is_emit op then 1 else 0)"
proof -
  note do = sync_do_simps [OF sync_do_live [OF assms(3)]]
  note st = assms(1) [unfolded stalled_def]
  show ?thesis
  proof (cases "off_flow op")
    case True
    then have "\<not> is_emit op" by (cases op) (simp_all add: is_emit_def)
    then show ?thesis using flow_kept [OF assms(3) True] st by (simp add: flow_def stalled_def waiting_def)
  next
    case False
    show ?thesis
    proof (cases op)
      case (OpEmit e')
      then show ?thesis using assms(3) st do(7) by (auto simp: stalled_def waiting_def is_emit_def split: if_splits)
    next
      case OpRunTake
      from do(12) [OF assms(3) [unfolded this]] show ?thesis using st OpRunTake by (auto simp: stalled_def waiting_def is_emit_def)
    next
      case OpRunGive
      from do(13) [OF assms(3) [unfolded this]] show ?thesis using st OpRunGive by (auto simp: stalled_def waiting_def is_emit_def)
    qed (use False assms(3) st do(1,8-10) in \<open>auto simp: fn_give_def forward_step_def proc_stop_def split: option.splits list.splits if_splits\<close>)
  qed
qed

lemma stalled_run:
  "stalled e q s \<Longrightarrow> length (sy_bus s) \<le> en_bus_cap E \<Longrightarrow> sync_run E ops s = Some s' \<Longrightarrow>
   stalled e q s' \<and> length (sy_bus s') \<le> en_bus_cap E \<and> waiting s' = waiting s + length (filter is_emit ops)"
proof (induction ops arbitrary: s)
  case (Cons op ops)
  obtain s1 where s1: "sync_do E op s = Some s1" "sync_run E ops s1 = Some s'"
    using Cons.prems(3) by (auto split: option.splits)
  then show ?case using stalled_step [OF Cons.prems(1,2) s1(1)] bus_step [OF Cons.prems(2) s1(1) refl] Cons.IH [of s1] by auto
qed simp

section \<open>The peer map\<close>

text \<open>The statuses that handlers put on the update channel, in order.\<close>

fun sent :: "sync_env \<Rightarrow> sync_op list \<Rightarrow> sync_sys \<Rightarrow> app_peer list" where
  "sent E [] s = []"
| "sent E (op # ops) s = (case sync_do E op s of None \<Rightarrow> []
     | Some s' \<Rightarrow> (case op of OpSend i \<Rightarrow> if sy_crashed s' then [] else [sy_handlers s ! i] | _ \<Rightarrow> []) @ sent E ops s')"

definition latest :: "peer_map \<Rightarrow> app_peer list \<Rightarrow> peer_map" where
  "latest m ps = foldl (\<lambda>m p. m(pe_ID p \<mapsto> p)) m ps"

lemma latest_snoc: "latest m (ps @ [p]) = (latest m ps)(pe_ID p \<mapsto> p)"
  by (simp add: latest_def)

lemma latest_append: "latest m (ps @ qs) = latest (latest m ps) qs"
  by (simp add: latest_def)

text \<open>One operation consumes at most one status, and appends at most one.\<close>

definition sent1 :: "sync_op \<Rightarrow> sync_sys \<Rightarrow> sync_sys \<Rightarrow> app_peer list" where
  "sent1 op s s' = (case op of OpSend i \<Rightarrow> if sy_crashed s' then [] else [sy_handlers s ! i] | _ \<Rightarrow> [])"

lemma client_Close_statusCh: "client_Close c = (p, c') \<Longrightarrow> sc_statusCh c' = sc_statusCh c"
  by (auto simp: client_Close_def Let_def split: if_splits option.splits prod.splits)

lemma client_Start_statusCh: "client_Start L flag c = (p, c') \<Longrightarrow> sc_statusCh c' = sc_statusCh c"
  by (auto simp: client_Start_def startGossip_def split: if_splits option.splits sum.splits prod.splits)

lemma syncer_Close_map: "sy_peerMap (syncer_Close s) = sy_peerMap s"
  "sc_statusCh (sy_client (syncer_Close s)) = sc_statusCh (sy_client s)"
proof -
  obtain p c' where c: "client_Close (sy_client s) = (p, c')" by force
  show "sy_peerMap (syncer_Close s) = sy_peerMap s"
    "sc_statusCh (sy_client (syncer_Close s)) = sc_statusCh (sy_client s)"
    unfolding syncer_Close_frame [OF c] using client_Close_statusCh [OF c]
    by (simp_all add: crash_def crash_on_def split: option.split)
qed

lemma syncer_Start_map: "sy_peerMap (syncer_Start E flag s) = sy_peerMap s"
  "sc_statusCh (sy_client (syncer_Start E flag s)) = sc_statusCh (sy_client s)"
proof -
  obtain p c' where c: "client_Start (en_pubsub E) flag (sy_client s) = (p, c')" by force
  show "sy_peerMap (syncer_Start E flag s) = sy_peerMap s"
    "sc_statusCh (sy_client (syncer_Start E flag s)) = sc_statusCh (sy_client s)"
    unfolding syncer_Start_def c using client_Start_statusCh [OF c]
    by (simp_all add: crash_def crash_on_def split: option.split)
qed

lemma map_step:
  assumes "sync_do E op s = Some s'" and "length (sc_statusCh (sy_client s)) \<le> 1"
  shows "\<exists>d. sy_peerMap s' = latest (sy_peerMap s) d \<and>
    sc_statusCh (sy_client s) @ sent1 op s s' = d @ sc_statusCh (sy_client s') \<and>
    length (sc_statusCh (sy_client s')) \<le> 1"
proof -
  note do = sync_do_simps [OF sync_do_live [OF assms(1)]]
  have quiet: ?thesis if "sy_peerMap s' = sy_peerMap s" "sc_statusCh (sy_client s') = sc_statusCh (sy_client s)" "sent1 op s s' = []"
    using that assms(2) by (intro exI [of _ "[]"]) (simp add: latest_def)
  consider flag where "op = OpStart flag" | "op = OpClose" | i where "op = OpSend i" "sy_crashed s'"
    | i where "op = OpSend i" "\<not> sy_crashed s'" | "op = OpUpdate" | "aside op" by (cases op) auto
  then show ?thesis
  proof cases
    case (1 flag)
    then show ?thesis using assms(1) do(1) by (intro quiet) (auto simp: sent1_def syncer_Start_map split: if_splits)
  next
    case 2
    then show ?thesis using assms(1) do(2) by (intro quiet) (auto simp: sent1_def syncer_Close_map)
  next
    case (3 i)
    then show ?thesis using assms(1) do(4) sync_do_live [OF assms(1)]
      by (intro quiet) (auto simp: send_status_def Let_def crash_def sent1_def split: if_splits)
  next
    case (4 i)
    then show ?thesis using assms(1) do(4)
      by (intro exI [of _ "[]"]) (auto simp: send_status_def Let_def crash_def sent1_def latest_def split: if_splits)
  next
    case 5
    then show ?thesis using assms do(5)
      by (intro exI [of _ "take 1 (sc_statusCh (sy_client s))"])
         (auto simp: update_step_def Let_def sent1_def crash_def putToPeerMap_def latest_def split: if_splits list.splits)
  next
    case 6
    from aside_kept [OF assms(1) this] show ?thesis
      using 6 by (intro quiet) (auto simp: quiet_part_def sent1_def split: sync_op.splits)
  qed
qed

lemma map_run:
  "sync_run E ops s = Some s' \<Longrightarrow> length (sc_statusCh (sy_client s)) \<le> 1 \<Longrightarrow>
   \<exists>d. sy_peerMap s' = latest (sy_peerMap s) d \<and>
     sc_statusCh (sy_client s) @ sent E ops s = d @ sc_statusCh (sy_client s') \<and> length (sc_statusCh (sy_client s')) \<le> 1"
proof (induction ops arbitrary: s)
  case Nil
  then show ?case by (intro exI [of _ "[]"]) (simp add: latest_def)
next
  case (Cons op ops)
  obtain s1 where s1: "sync_do E op s = Some s1" "sync_run E ops s1 = Some s'"
    using Cons.prems(1) by (auto split: option.splits)
  obtain d where d: "sy_peerMap s1 = latest (sy_peerMap s) d"
    "sc_statusCh (sy_client s) @ sent1 op s s1 = d @ sc_statusCh (sy_client s1)" "length (sc_statusCh (sy_client s1)) \<le> 1"
    using map_step [OF s1(1) Cons.prems(2)] by blast
  obtain d' where d': "sy_peerMap s' = latest (sy_peerMap s1) d'"
    "sc_statusCh (sy_client s1) @ sent E ops s1 = d' @ sc_statusCh (sy_client s')" "length (sc_statusCh (sy_client s')) \<le> 1"
    using Cons.IH [OF s1(2) d(3)] by blast
  have "sent E (op # ops) s = sent1 op s s1 @ sent E ops s1" by (simp add: s1(1) sent1_def)
  then have "sc_statusCh (sy_client s) @ sent E (op # ops) s = (d @ d') @ sc_statusCh (sy_client s')"
    using d(2) d'(2) by (metis append.assoc)
  then show ?case using d(1) d'(1,3) by (metis latest_append)
qed

section \<open>An instance of the parameters\<close>

definition toy_env :: sync_env where
  "toy_env = \<lparr>en_pubsub = \<lparr>ps_Join = \<lambda>_. None,
       ps_Publish = \<lambda>live _. if live then None else Some (GoPanic ''nil pointer dereference''), ps_Subscribe = \<lambda>_. None\<rparr>,
     en_multiaddr = nil_panics_lib, en_decode = Inr, en_marshal = \<lambda>_. Inr [1],
     en_unmarshal = \<lambda>d. Inr (sample_status\<lparr>as_Addr := ''''\<rparr>), en_distance = \<lambda>_. 0, en_own_status = sample_status,
     en_SubscribeCh_ok = True, en_bus_cap = 2\<rparr>"

lemma toy_env_ok: "env_ok toy_env"
  by (simp add: env_ok_def toy_env_def pubsub_laws_def nil_panics_lib_laws)

lemma sample_status_value: "as_Relay sample_status = ''''"
  by (simp add: sample_status_def doPublishAppStatus_def)

lemma toy_gossip:
  "gossip_message toy_env d p s = s\<lparr>sy_client := (sy_client s)\<lparr>sc_stream := stream_push (AddNewApp empty_event
      (gossip_app (as_NodeId sample_status) '''' '''' (sample_status\<lparr>as_Addr := ''''\<rparr>))) (sc_stream (sy_client s))\<rparr>,
     sy_handlers := sy_handlers s @ [gossip_peer 0 (sample_status\<lparr>as_Addr := ''''\<rparr>)]\<rparr>"
  by (simp add: gossip_message_def toy_env_def handleGossipAppStatusUpdate_def masked_ip_addr_def status_relay_host_def
      sample_status_value)

lemma toy_start: "syncer_Start toy_env True s =
  s\<lparr>sy_client := (sy_client s)\<lparr>sc_closed := 0, sc_topic := Some \<lparr>tp_handle = True, tp_closeCh = False, tp_closed = 0\<rparr>\<rparr>,
    sy_started := True, sy_updater := True, sy_reading := True, sy_ticker := True, sy_proc := ProcIdle\<rparr>"
  by (simp add: syncer_Start_def client_Start_def startGossip_def NewTopic_def Topic_Subscribe_def toy_env_def)

lemma sync_do_run:
  assumes "\<not> sy_crashed s"
  shows "sync_do E OpRunTake s = run_take s" "sync_do E OpRunGive s = run_give s"
  using assms by (simp_all add: sync_do_def)

lemma sync_run_reach: "sync_reach E s \<Longrightarrow> sync_run E ops s = Some s' \<Longrightarrow> sync_reach E s'"
  by (induction ops arbitrary: s) (auto split: option.splits intro: sync_step)

lemmas sync_eval = sync_do_simps(1-10) sync_do_run run_take_def run_give_def toy_start toy_gossip NewSyncer_def NewSyncAppPeerClient_def send_status_def update_step_def
  fn_give_def forward_step_def syncer_Close_def client_Close_def Topic_Close_def close_channel_def crash_on_def Let_def

section \<open>Properties\<close>

text \<open>C22. Until \<open>Close\<close> the syncer never panics on well-formed gossip, whatever the order of its goroutines.
  After \<open>Close\<close> nothing stops the publishing ticker, the gossip handlers at their send and the update
  loop: the next tick publishes through a nil topic, a waiting handler sends on a closed channel, a
  waiting status notifies on a closed channel, and a second \<open>Close\<close> closes a closed channel; each of
  them ends the process.\<close>

theorem sync_close_crashes:
  assumes "env_ok E" and "\<forall>op \<in> set ops. harmless E op"
    and "sync_run E ops (NewSyncer NewSyncAppPeerClient) = Some s"
  shows "(\<not> sy_newStatusClosed s \<longrightarrow> \<not> sy_crashed s) \<and>
    (sy_newStatusClosed s \<and> \<not> sy_crashed s \<longrightarrow>
      (sy_started s \<longrightarrow> sync_do E OpTick s = Some (crash s)) \<and>
      (\<forall>i < length (sy_handlers s). sync_do E (OpSend i) s = Some (crash s)) \<and>
      (sy_updater s \<and> sc_statusCh (sy_client s) \<noteq> [] \<longrightarrow> (\<exists>s'. sync_do E OpUpdate s = Some s' \<and> sy_crashed s')) \<and>
      sync_do E OpClose s = Some (crash s))"
proof -
  have inv: "sync_inv s" by (rule sync_inv_run [OF assms(1) sync_inv_init assms(2,3)])
  have closed: "sc_statusClosed (sy_client s) = sy_newStatusClosed s" using inv by (simp add: sync_inv_def Let_def)
  have "\<exists>s'. sync_do E OpUpdate s = Some s' \<and> sy_crashed s'"
    if "sy_newStatusClosed s" "\<not> sy_crashed s" "sy_updater s" "sc_statusCh (sy_client s) \<noteq> []"
    using that sync_do_simps(5) [OF that(2)]
    by (auto simp: update_step_def Let_def putToPeerMap_def crash_def neq_Nil_conv)
  moreover have "\<not> sy_newStatusClosed s \<longrightarrow> \<not> sy_crashed s" using inv by (auto simp: sync_inv_def Let_def)
  ultimately show ?thesis
    using tick_result [OF assms(1) inv] closed sync_do_simps(2,4) [of s]
    by (simp add: send_status_def syncer_Close_def close_channel_def)
qed

theorem sync_close_crashes_witness:
  "\<exists>s. sync_run toy_env [OpStart True, OpGossip [1] ''q'', OpClose] (NewSyncer NewSyncAppPeerClient) = Some s \<and>
    \<not> sy_crashed s \<and> sync_do toy_env OpTick s = Some (crash s) \<and> sync_do toy_env (OpSend 0) s = Some (crash s)"
proof -
  obtain s where s: "sync_run toy_env [OpStart True, OpGossip [1] ''q'', OpClose] (NewSyncer NewSyncAppPeerClient) = Some s"
    and st: "sy_newStatusClosed s" "\<not> sy_crashed s" "sy_started s" "length (sy_handlers s) = 1"
    by (simp add: sync_eval)
  have "\<forall>op \<in> set [OpStart True, OpGossip [1] ''q'', OpClose]. harmless toy_env op"
    by (simp add: harmless_def toy_env_def sample_status_value)
  from sync_close_crashes [OF toy_env_ok this s] show ?thesis using s st by simp
qed

text \<open>C23. Nothing in the program receives from \<open>peerConnectionUpdateCh\<close>.  Once one connection event is in that channel
  and the process sends the next, it stays there for ever, \<open>Close\<close> included, and after at most two more
  events than the subscriber's buffer holds the emitter of the network server blocks.\<close>

theorem peer_events_stall:
  assumes "sync_reach E s" and "sy_proc s = ProcSending e" and "sc_connCh (sy_client s) \<noteq> []" and "sy_started s"
    and "sync_run E ops s = Some s'"
  shows "sy_proc s' = ProcSending e \<and> sc_connCh (sy_client s') = sc_connCh (sy_client s) \<and>
    length (filter is_emit ops) \<le> en_bus_cap E + 2 \<and>
    (en_bus_cap E + 2 \<le> length (filter is_emit ops) \<longrightarrow> (\<forall>ev. sync_do E (OpEmit ev) s' = None))"
proof -
  have "stalled e (sc_connCh (sy_client s)) s" using assms(2-4) by (simp add: stalled_def)
  note run = stalled_run [OF this bus_bound [OF assms(1)] assms(5)]
  have w: "waiting s' \<le> length (sy_bus s') + 2" by (auto simp: waiting_def split: option.splits)
  have "sync_do E (OpEmit ev) s' = None" if "en_bus_cap E + 2 \<le> length (filter is_emit ops)" for ev
    using run w that by (simp add: sync_do_def)
  then show ?thesis using run w by (auto simp: stalled_def)
qed

theorem peer_events_stall_witness:
  "\<exists>s s'. sync_run toy_env [OpStart True, OpEmit \<lparr>ev_PeerID = ''a'', ev_Type = PeerConnected\<rparr>, OpRunTake, OpRunGive, OpFnGive,
      OpForward, OpEmit \<lparr>ev_PeerID = ''b'', ev_Type = PeerConnected\<rparr>, OpRunTake, OpRunGive, OpFnGive]
      (NewSyncer NewSyncAppPeerClient) = Some s \<and>
    sync_run toy_env [OpClose, OpEmit \<lparr>ev_PeerID = ''c'', ev_Type = PeerConnected\<rparr>] s = Some s' \<and>
    sy_proc s' = ProcSending \<lparr>ev_PeerID = ''b'', ev_Type = PeerConnected\<rparr>"
proof -
  let ?ops = "[OpStart True, OpEmit \<lparr>ev_PeerID = ''a'', ev_Type = PeerConnected\<rparr>, OpRunTake, OpRunGive, OpFnGive,
      OpForward, OpEmit \<lparr>ev_PeerID = ''b'', ev_Type = PeerConnected\<rparr>, OpRunTake, OpRunGive, OpFnGive]"
  have cap: "en_bus_cap toy_env = 2" by (simp add: toy_env_def)
  obtain s where s: "sync_run toy_env ?ops (NewSyncer NewSyncAppPeerClient) = Some s"
    and st: "sy_proc s = ProcSending \<lparr>ev_PeerID = ''b'', ev_Type = PeerConnected\<rparr>" "sc_connCh (sy_client s) \<noteq> []" "sy_started s"
    and s': "\<exists>s'. sync_run toy_env [OpClose, OpEmit \<lparr>ev_PeerID = ''c'', ev_Type = PeerConnected\<rparr>] s = Some s'"
    by (simp add: sync_eval cap)
  obtain s' where "sync_run toy_env [OpClose, OpEmit \<lparr>ev_PeerID = ''c'', ev_Type = PeerConnected\<rparr>] s = Some s'" using s' by blast
  then show ?thesis using s peer_events_stall [OF sync_run_reach [OF sync_init s] st] by blast
qed

text \<open>C24. The peer map holds, for every node, the last of its statuses that the update loop took off the
  channel; the loop takes them in the order in which the gossip handlers sent them, and loses none.\<close>

theorem peer_map_tracks_statuses:
  assumes "sync_run E ops (NewSyncer NewSyncAppPeerClient) = Some s"
  shows "\<exists>taken. sent E ops (NewSyncer NewSyncAppPeerClient) = taken @ sc_statusCh (sy_client s) \<and>
    sy_peerMap s = map_of (rev (map (\<lambda>p. (pe_ID p, p)) taken)) \<and> length (sc_statusCh (sy_client s)) \<le> 1"
proof -
  have l: "latest Map.empty ps = map_of (rev (map (\<lambda>p. (pe_ID p, p)) ps))" for ps
    by (induction ps rule: rev_induct) (simp_all add: latest_def)
  have "sc_statusCh (sy_client (NewSyncer NewSyncAppPeerClient)) = []" "sy_peerMap (NewSyncer NewSyncAppPeerClient) = Map.empty"
    by (simp_all add: NewSyncer_def NewSyncAppPeerClient_def)
  then show ?thesis using map_run [OF assms] by (auto simp: l)
qed

theorem peer_map_tracks_statuses_witness:
  "\<exists>s taken. sync_run toy_env [OpStart True, OpGossip [1] ''q'', OpSend 0, OpUpdate] (NewSyncer NewSyncAppPeerClient) = Some s \<and>
    sent toy_env [OpStart True, OpGossip [1] ''q'', OpSend 0, OpUpdate] (NewSyncer NewSyncAppPeerClient) =
      taken @ sc_statusCh (sy_client s) \<and>
    sy_peerMap s = map_of (rev (map (\<lambda>p. (pe_ID p, p)) taken))"
proof -
  obtain s where "sync_run toy_env [OpStart True, OpGossip [1] ''q'', OpSend 0, OpUpdate] (NewSyncer NewSyncAppPeerClient) = Some s"
    by (simp add: sync_eval putToPeerMap_def)
  from this peer_map_tracks_statuses [OF this] show ?thesis by blast
qed

end
