(* ===== verification/Grpc_Stream.thy ===== *)
theory Grpc_Stream
  imports Net_Props Relay
begin

text \<open>
  gRPC over libp2p streams (\<open>core/network/grpc/grpc.go\<close>), the glue between the stream handlers of a
  host and the services: a \<open>GrpcStream\<close> is the listener of a gRPC server, its \<open>Handler\<close> hands over the
  streams that peers open, and its interceptor tells a service which peer calls.  With it, the functions that
  register the services, and the services as the interceptor calls them.
\<close>

section \<open>Addresses of a connection\<close>

record net_stream =
  st_id :: nat
  st_LocalPeer :: peer_id
  st_RemotePeer :: peer_id
  st_LocalMultiaddr :: multiaddr
  st_RemoteMultiaddr :: multiaddr

datatype net_addr =
    TCPAddr string int
  | LibAddr string
  | WrapLibp2pAddr peer_id net_addr

text \<open>\<open>manet.ToNetAddr\<close> and gRPC's \<open>peer.FromContext\<close>, which returns what gRPC kept of the address of the
  connection.\<close>

record grpc_lib =
  gl_ToNetAddr :: "multiaddr \<Rightarrow> go_err + string"
  gl_FromContext :: "net_addr \<Rightarrow> net_addr option"

definition fakeLocalAddr :: net_addr where "fakeLocalAddr = TCPAddr ''127.0.0.1'' 0"
definition fakeRemoteAddr :: net_addr where "fakeRemoteAddr = TCPAddr ''127.1.0.1'' 0"

definition LocalAddr :: "grpc_lib \<Rightarrow> net_stream \<Rightarrow> net_addr" where
  "LocalAddr L c = (case gl_ToNetAddr L (st_LocalMultiaddr c) of
     Inl _ \<Rightarrow> fakeRemoteAddr
   | Inr addr \<Rightarrow> WrapLibp2pAddr (st_LocalPeer c) (LibAddr addr))"

definition RemoteAddr :: "grpc_lib \<Rightarrow> net_stream \<Rightarrow> net_addr" where
  "RemoteAddr L c = (case gl_ToNetAddr L (st_RemoteMultiaddr c) of
     Inl _ \<Rightarrow> fakeRemoteAddr
   | Inr addr \<Rightarrow> WrapLibp2pAddr (st_RemotePeer c) (LibAddr addr))"

section \<open>The interceptor\<close>

text \<open>A context is one of the library or a \<open>*grpc.Context\<close>; \<open>grpc_peer\<close> is the type assertion with which
  the services read it.\<close>

datatype go_context = LibContext | GrpcContext peer_id

fun grpc_peer :: "go_context \<Rightarrow> peer_id option" where
  "grpc_peer LibContext = None"
| "grpc_peer (GrpcContext p) = Some p"

type_synonym ('q, 'r, 's) unary = "go_context \<Rightarrow> 'q \<Rightarrow> 's \<Rightarrow> (go_err + 'r) \<times> 's"

definition interceptor :: "net_addr option \<Rightarrow> ('q, 'r, 's) unary \<Rightarrow> 'q \<Rightarrow> 's \<Rightarrow> (go_err + 'r) \<times> 's" where
  "interceptor contextPeer handler req s =
     (case contextPeer of
        None \<Rightarrow> (Inl (GoErr ''invalid type assertion for peer context''), s)
      | Some (WrapLibp2pAddr p _) \<Rightarrow> handler (GrpcContext p) req s
      | Some _ \<Rightarrow> (Inl (GoErr ''invalid type assertion''), s))"

section \<open>The listener\<close>

text \<open>\<open>gs_streamCh\<close> lists the streams whose handler waits to send, in the order in which they came: the
  channel has no buffer and serves its senders in turn.  The context is the background context.\<close>

datatype ctx_state = Background | Cancelled

text \<open>The options of \<open>grpc.NewServer\<close> that concern a handler: each has the interceptor run before the handlers of one
  kind of call.\<close>

datatype server_option = UnaryInterceptor | StreamInterceptor

definition ctx_done :: "ctx_state \<Rightarrow> bool" where "ctx_done c \<longleftrightarrow> c = Cancelled"

record grpc_stream =
  gs_ctx :: ctx_state
  gs_streamCh :: "net_stream list"
  gs_services :: "string list"
  gs_serving :: bool
  gs_options :: "server_option list"

definition NewGrpcStream :: grpc_stream where
  "NewGrpcStream = \<lparr>gs_ctx = Background, gs_streamCh = [], gs_services = [], gs_serving = False,
     gs_options = [UnaryInterceptor]\<rparr>"

definition gs_RegisterService :: "string \<Rightarrow> grpc_stream \<Rightarrow> grpc_stream" where
  "gs_RegisterService sd g = g\<lparr>gs_services := gs_services g @ [sd]\<rparr>"

definition gs_Serve :: "grpc_stream \<Rightarrow> grpc_stream" where
  "gs_Serve g = g\<lparr>gs_serving := True\<rparr>"

definition gs_Close :: "grpc_stream \<Rightarrow> go_err option \<times> grpc_stream" where
  "gs_Close g = (None, g)"

text \<open>A call that arrives on a connection that was accepted, with one answer or with a stream of them: without the
  option for its kind gRPC calls the handler with a context of its own.\<close>

definition unary_call :: "grpc_stream \<Rightarrow> grpc_lib \<Rightarrow> net_stream \<Rightarrow> ('q, 'r, 's) unary \<Rightarrow> 'q \<Rightarrow> 's \<Rightarrow> (go_err + 'r) \<times> 's" where
  "unary_call g L c handler =
     (if UnaryInterceptor \<in> set (gs_options g) then interceptor (gl_FromContext L (RemoteAddr L c)) handler
      else handler LibContext)"

definition stream_call :: "grpc_stream \<Rightarrow> grpc_lib \<Rightarrow> net_stream \<Rightarrow> ('q, 'r, 's) unary \<Rightarrow> 'q \<Rightarrow> 's \<Rightarrow> (go_err + 'r) \<times> 's" where
  "stream_call g L c handler =
     (if StreamInterceptor \<in> set (gs_options g) then interceptor (gl_FromContext L (RemoteAddr L c)) handler
      else handler LibContext)"

text \<open>The two branches of \<open>select\<close> in \<open>Handler\<close> and in \<open>Accept\<close>: the context is done, or a stream is
  handed over, which needs both sides.  A branch that is not ready is \<open>None\<close>.\<close>

definition Handler_enter :: "net_stream \<Rightarrow> grpc_stream \<Rightarrow> grpc_stream" where
  "Handler_enter c g = g\<lparr>gs_streamCh := gs_streamCh g @ [c]\<rparr>"

definition Handler_done :: "nat \<Rightarrow> grpc_stream \<Rightarrow> grpc_stream option" where
  "Handler_done i g = (if ctx_done (gs_ctx g) \<and> i < length (gs_streamCh g)
     then Some (g\<lparr>gs_streamCh := take i (gs_streamCh g) @ drop (Suc i) (gs_streamCh g)\<rparr>) else None)"

definition Accept_done :: "grpc_stream \<Rightarrow> (go_err + net_stream) option" where
  "Accept_done g = (if ctx_done (gs_ctx g) then Some (Inl (GoErr ''EOF'')) else None)"

definition Accept_stream :: "grpc_stream \<Rightarrow> ((go_err + net_stream) \<times> grpc_stream) option" where
  "Accept_stream g = (case gs_streamCh g of [] \<Rightarrow> None | c # r \<Rightarrow> Some (Inr c, g\<lparr>gs_streamCh := r\<rparr>))"

datatype gs_op = GOpen net_stream | GHandlerDone nat | GAccept | GAcceptDone | GClose | GServe

text \<open>One operation; the log gets what \<open>Accept\<close> returned.\<close>

fun gs_do :: "gs_op \<Rightarrow> grpc_stream \<Rightarrow> ((go_err + net_stream) list \<times> grpc_stream) option" where
  "gs_do (GOpen c) g = Some ([], Handler_enter c g)"
| "gs_do (GHandlerDone i) g = map_option (Pair []) (Handler_done i g)"
| "gs_do GAccept g = map_option (\<lambda>(r, g'). ([r], g')) (Accept_stream g)"
| "gs_do GAcceptDone g = map_option (\<lambda>r. ([r], g)) (Accept_done g)"
| "gs_do GClose g = Some ([], snd (gs_Close g))"
| "gs_do GServe g = Some ([], gs_Serve g)"

fun gs_run :: "gs_op list \<Rightarrow> grpc_stream \<Rightarrow> ((go_err + net_stream) list \<times> grpc_stream) option" where
  "gs_run [] g = Some ([], g)"
| "gs_run (op # ops) g =
     (case gs_do op g of None \<Rightarrow> None
      | Some (out, g1) \<Rightarrow> map_option (\<lambda>(outs, g2). (out @ outs, g2)) (gs_run ops g1))"

fun opened :: "gs_op list \<Rightarrow> net_stream list" where
  "opened [] = []"
| "opened (GOpen c # ops) = c # opened ops"
| "opened (_ # ops) = opened ops"

section \<open>Registration\<close>

text \<open>The listeners by address, and which one serves the streams of a protocol.\<close>

record listeners =
  ls_store :: "nat \<rightharpoonup> grpc_stream"
  ls_next :: nat
  ls_handlers :: "string \<rightharpoonup> nat"

definition no_listeners :: listeners where
  "no_listeners = \<lparr>ls_store = Map.empty, ls_next = 0, ls_handlers = Map.empty\<rparr>"

text \<open>\<open>wrapStream\<close>: the host calls the handler for each stream that a peer opens.\<close>

definition wrapStream :: "string \<Rightarrow> nat \<Rightarrow> listeners \<Rightarrow> listeners" where
  "wrapStream ident handle ls = ls\<lparr>ls_handlers := (ls_handlers ls)(ident \<mapsto> handle)\<rparr>"

text \<open>\<open>registerIdentityService\<close>, \<open>registerDiscoveryService\<close>, \<open>registerAliveService\<close> and \<open>registerAppSyncerService\<close>
  differ in the service and the name of the protocol.\<close>

definition register_service :: "string \<Rightarrow> string \<Rightarrow> listeners \<Rightarrow> listeners" where
  "register_service service proto ls =
     (let g = gs_Serve (gs_RegisterService service NewGrpcStream)
      in wrapStream proto (ls_next ls)
           (ls\<lparr>ls_store := (ls_store ls)(ls_next ls \<mapsto> g), ls_next := Suc (ls_next ls)\<rparr>))"

definition registerIdentityService :: "string \<Rightarrow> listeners \<Rightarrow> listeners" where
  "registerIdentityService identityProto = register_service ''v1.Identity'' identityProto"

definition registerDiscoveryService :: "string \<Rightarrow> listeners \<Rightarrow> listeners" where
  "registerDiscoveryService discProto = register_service ''v1.Discovery'' discProto"

definition registerAliveService :: "listeners \<Rightarrow> listeners" where
  "registerAliveService = register_service ''v1.Alive'' EdgeAliveProto"

definition appSyncerProto :: string where "appSyncerProto = ''/appsyncer/0.1''"

definition registerAppSyncerService :: "listeners \<Rightarrow> listeners" where
  "registerAppSyncerService = register_service ''v1.SyncApp'' appSyncerProto"

text \<open>A peer opens a stream: \<open>None\<close> when no handler is set for the protocol.\<close>

definition open_stream :: "string \<Rightarrow> net_stream \<Rightarrow> listeners \<Rightarrow> listeners option" where
  "open_stream proto c ls =
     (case ls_handlers ls proto of None \<Rightarrow> None
      | Some a \<Rightarrow> Some (ls\<lparr>ls_store := (ls_store ls)(a := map_option (Handler_enter c) (ls_store ls a))\<rparr>))"

section \<open>The services behind the interceptor\<close>

definition identity_handler :: "'s id_server \<Rightarrow> identity_service \<Rightarrow> (id_status, id_status, 's) unary" where
  "identity_handler S svc ctx status s = (Hello S svc s status, s)"

definition discovery_handler :: "'s disc_server \<Rightarrow> (find_peers_req, string list, 's) unary" where
  "discovery_handler D ctx req s = (FindPeers D s (grpc_peer ctx) req, s)"

definition alive_handler ::
    "multiaddr_lib \<Rightarrow> 'w host \<Rightarrow> (alive_status, bool \<times> string, 'w relay_server) unary" where
  "alive_handler L H ctx status s =
     (case grpc_peer ctx of None \<Rightarrow> (Inl (GoErr ''invalid type assertion''), s)
      | Some from \<Rightarrow> alive_Hello L H from status s)"

end
