(* ===== verification/Grpc_Props.thy ===== *)
theory Grpc_Props
  imports Grpc_Stream
begin

text \<open>
  What the gRPC glue guarantees: a listener hands every stream to \<open>Accept\<close> once and in order, closed or
  not; streams of different protocols reach different listeners; and the handler of a unary call learns the peer at
  the other end of the stream, or is not called at all.
\<close>

section \<open>The listener is a queue that never closes\<close>

lemma ctx_do: "gs_do op g = Some (out, g') \<Longrightarrow> gs_ctx g' = gs_ctx g"
  by (cases op) (auto simp: Handler_enter_def Handler_done_def Accept_stream_def gs_Close_def gs_Serve_def
      split: if_splits list.splits)

lemma queue_do:
  assumes "gs_do op g = Some (out, g')" and "\<not> ctx_done (gs_ctx g)"
  shows "map Inr (gs_streamCh g @ opened [op]) = out @ map Inr (gs_streamCh g')"
  using assms by (cases op) (auto simp: Handler_enter_def Handler_done_def Accept_stream_def Accept_done_def
      gs_Close_def gs_Serve_def split: if_splits list.splits)

lemma opened_Cons: "opened (op # ops) = opened [op] @ opened ops"
  by (cases op) simp_all

lemma queue_run:
  "gs_run ops g = Some (outs, g') \<Longrightarrow> \<not> ctx_done (gs_ctx g) \<Longrightarrow>
   map Inr (gs_streamCh g @ opened ops) = outs @ map Inr (gs_streamCh g') \<and> gs_ctx g' = gs_ctx g"
proof (induction ops arbitrary: g outs)
  case (Cons op ops)
  obtain out g1 outs1 where h: "gs_do op g = Some (out, g1)" "gs_run ops g1 = Some (outs1, g')" "outs = out @ outs1"
    using Cons.prems(1) by (auto split: option.splits)
  have c: "gs_ctx g1 = gs_ctx g" by (rule ctx_do [OF h(1)])
  have "map Inr (gs_streamCh g @ opened [op]) = out @ map Inr (gs_streamCh g1)"
    by (rule queue_do [OF h(1) Cons.prems(2)])
  moreover have "map Inr (gs_streamCh g1 @ opened ops) = outs1 @ map Inr (gs_streamCh g') \<and> gs_ctx g' = gs_ctx g1"
    by (rule Cons.IH [OF h(2)]) (use c Cons.prems(2) in simp)
  ultimately show ?case using h(3) c by (simp add: opened_Cons [of op ops] flip: append_assoc) simp
qed simp

text \<open>C25. A listener returns from \<open>Accept\<close> exactly the streams that peers opened, in their order, and keeps the
  rest waiting.  \<open>Close\<close> does not end it: its context is the background context, so \<open>Accept\<close> never returns the end of
  file, no waiting handler ever gives up, and a stream opened after \<open>Close\<close> is queued and accepted in turn.\<close>

theorem grpc_listener_never_closes:
  assumes "gs_run ops NewGrpcStream = Some (outs, g)"
  shows "map Inr (opened ops) = outs @ map Inr (gs_streamCh g) \<and>
    Accept_done g = None \<and> (\<forall>i. Handler_done i g = None) \<and>
    gs_run (GClose # GOpen c # replicate (Suc (length (gs_streamCh g))) GAccept) g =
      Some (map Inr (gs_streamCh g @ [c]), g\<lparr>gs_streamCh := []\<rparr>)"
proof -
  have c: "\<not> ctx_done (gs_ctx NewGrpcStream)" by (simp add: NewGrpcStream_def ctx_done_def)
  have q: "map Inr (opened ops) = outs @ map Inr (gs_streamCh g)" "gs_ctx g = Background"
    using queue_run [OF assms c] by (simp_all add: NewGrpcStream_def)
  have drain: "gs_run (replicate (length cs) GAccept) (h\<lparr>gs_streamCh := cs\<rparr>) = Some (map Inr cs, h\<lparr>gs_streamCh := []\<rparr>)"
    for cs h by (induction cs) (simp_all add: Accept_stream_def)
  have "gs_run (GClose # GOpen c # replicate (Suc (length (gs_streamCh g))) GAccept) g =
      Some (map Inr (gs_streamCh g @ [c]), g\<lparr>gs_streamCh := []\<rparr>)"
    using drain [of "gs_streamCh g @ [c]" g] by (simp add: gs_Close_def Handler_enter_def)
  then show ?thesis using q by (simp add: Accept_done_def Handler_done_def ctx_done_def)
qed

definition sample_stream :: net_stream where
  "sample_stream = \<lparr>st_id = 0, st_LocalPeer = ''self'', st_RemotePeer = ''p'', st_LocalMultiaddr = ''/ip4/1.2.3.4'',
     st_RemoteMultiaddr = ''/ip4/5.6.7.8''\<rparr>"

theorem grpc_listener_never_closes_witness:
  "gs_run [GClose, GOpen sample_stream, GAccept, GAccept] (NewGrpcStream\<lparr>gs_serving := True, gs_streamCh := [sample_stream]\<rparr>) =
     Some ([Inr sample_stream, Inr sample_stream], NewGrpcStream\<lparr>gs_serving := True\<rparr>)"
proof -
  have "gs_run [GServe, GOpen sample_stream, GClose] NewGrpcStream =
      Some ([], NewGrpcStream\<lparr>gs_serving := True, gs_streamCh := [sample_stream]\<rparr>)"
    by (simp add: gs_Serve_def Handler_enter_def gs_Close_def NewGrpcStream_def)
  from grpc_listener_never_closes [OF this, of sample_stream] show ?thesis
    by (simp add: NewGrpcStream_def numeral_2_eq_2)
qed

section \<open>Protocols and their listeners\<close>

definition ls_ok :: "listeners \<Rightarrow> bool" where
  "ls_ok ls \<longleftrightarrow> inj_on (ls_handlers ls) (dom (ls_handlers ls)) \<and>
     (\<forall>p a. ls_handlers ls p = Some a \<longrightarrow> a < ls_next ls \<and> ls_store ls a \<noteq> None)"

lemma ls_ok_none: "ls_ok no_listeners"
  by (simp add: ls_ok_def no_listeners_def)

lemma ls_ok_register: "ls_ok ls \<Longrightarrow> ls_ok (register_service service proto ls)"
  unfolding ls_ok_def register_service_def wrapStream_def Let_def
  by (fastforce simp: inj_on_def dom_def less_Suc_eq split: if_splits)

lemma ls_ok_open: "ls_ok ls \<Longrightarrow> open_stream proto c ls = Some ls' \<Longrightarrow> ls_ok ls'"
  by (auto simp: ls_ok_def open_stream_def split: option.splits)

lemma open_own_listener:
  assumes "ls_ok ls" and "open_stream p c ls = Some ls'" and "ls_handlers ls q = Some b" and "ls_store ls b = Some g"
  shows "ls_store ls' b = Some (if p = q then Handler_enter c g else g)"
proof -
  obtain a where a: "ls_handlers ls p = Some a" using assms(2) by (auto simp: open_stream_def split: option.splits)
  have "a = b \<longleftrightarrow> p = q" using assms(1,3) a unfolding ls_ok_def inj_on_def by (metis domI option.inject)
  then show ?thesis using assms(2,4) a by (auto simp: open_stream_def)
qed

section \<open>Who calls a service\<close>

text \<open>The listener that a service registers.\<close>

definition serving :: "string \<Rightarrow> grpc_stream" where
  "serving service = gs_Serve (gs_RegisterService service NewGrpcStream)"

text \<open>C26. The handler of every unary call is called with the identity of the peer at the other end of the stream:
  \<open>FindPeers\<close> and the alive \<open>Hello\<close> see exactly \<open>st_RemotePeer\<close>.  When the address of the connection has no
  network form (as with an address that runs through a relay), the fallback address carries no peer, and
  every unary call is refused without touching the state of its service, the handshake of the identity service
  included.  The handlers of streaming calls have no interceptor: they are called on every connection, with a context
  that names nobody.\<close>

theorem grpc_calls_name_their_peer:
  assumes "\<forall>a. gl_FromContext L a = Some a"
  shows "(case gl_ToNetAddr L (st_RemoteMultiaddr c) of
      Inr _ \<Rightarrow>
        unary_call (serving service) L c h q u = h (GrpcContext (st_RemotePeer c)) q u \<and>
        unary_call (serving service) L c (discovery_handler D) req s = (FindPeers D s (Some (st_RemotePeer c)) req, s) \<and>
        unary_call (serving service) L c (alive_handler M H) status r = alive_Hello M H (st_RemotePeer c) status r \<and>
        unary_call (serving service) L c (identity_handler S svc) hello t = (Hello S svc t hello, t)
    | Inl _ \<Rightarrow>
        unary_call (serving service) L c h q u = (Inl (GoErr ''invalid type assertion''), u) \<and>
        unary_call (serving service) L c (discovery_handler D) req s = (Inl (GoErr ''invalid type assertion''), s) \<and>
        unary_call (serving service) L c (alive_handler M H) status r = (Inl (GoErr ''invalid type assertion''), r) \<and>
        unary_call (serving service) L c (identity_handler S svc) hello t = (Inl (GoErr ''invalid type assertion''), t)) \<and>
    stream_call (serving service) L c k p v = k LibContext p v \<and> grpc_peer LibContext = None"
  using assms by (simp add: unary_call_def stream_call_def serving_def gs_Serve_def gs_RegisterService_def NewGrpcStream_def
      interceptor_def RemoteAddr_def fakeRemoteAddr_def discovery_handler_def alive_handler_def identity_handler_def
      split: sum.split)

definition ip_only :: grpc_lib where
  "ip_only = \<lparr>gl_ToNetAddr = (\<lambda>m. if take 5 m = ''/ip4/'' then Inr (drop 5 m) else Inl (GoErr ''no network address'')),
     gl_FromContext = Some\<rparr>"

theorem grpc_calls_name_their_peer_witness:
  "unary_call (serving ''v1.Discovery'') ip_only sample_stream (discovery_handler (server_disc idle_host)) \<lparr>fr_Key = ''k'', fr_Count = 1\<rparr> idle_server =
     (FindPeers (server_disc idle_host) idle_server (Some ''p'') \<lparr>fr_Key = ''k'', fr_Count = 1\<rparr>, idle_server) \<and>
   unary_call (serving ''v1.Discovery'') ip_only (sample_stream\<lparr>st_RemoteMultiaddr := ''/p2p/r/p2p-circuit''\<rparr>) (discovery_handler (server_disc idle_host))
      \<lparr>fr_Key = ''k'', fr_Count = 1\<rparr> idle_server = (Inl (GoErr ''invalid type assertion''), idle_server)"
proof -
  let ?relayed = "sample_stream\<lparr>st_RemoteMultiaddr := ''/p2p/r/p2p-circuit''\<rparr>"
  have l: "\<forall>a. gl_FromContext ip_only a = Some a" by (simp add: ip_only_def)
  have v: "gl_ToNetAddr ip_only (st_RemoteMultiaddr sample_stream) = Inr ''5.6.7.8''" "st_RemotePeer sample_stream = ''p''"
    "gl_ToNetAddr ip_only (st_RemoteMultiaddr ?relayed) = Inl (GoErr ''no network address'')"
    by (simp_all add: ip_only_def sample_stream_def)
  note answers = grpc_calls_name_their_peer [OF l, where D = "server_disc idle_host" and service = "''v1.Discovery''" and
      req = "\<lparr>fr_Key = ''k'', fr_Count = 1\<rparr>" and s = idle_server, THEN conjunct1]
  show ?thesis
    by (intro conjI answers [of sample_stream, unfolded v sum.case, THEN conjunct2, THEN conjunct1]
        answers [of ?relayed, unfolded v sum.case, THEN conjunct2, THEN conjunct1])
qed

end
