(* ===== verification/Endpoint.thy ===== *)
theory Endpoint
  imports Go_Http Edge_Proof Dispatcher
begin

text \<open>
  The application endpoint (\<open>core/application/endpoint.go\<close>) with its routes (\<open>endpoint_handler.go\<close>), the host statistics it
  reports (\<open>application/proof/helper/info.go\<close>), and the calls to the endpoint of another node (\<open>edge_call.go\<close>).  The clock,
  the readings of the operating system and the JSON encoder are parameters; a panic of a handler is dropped
  by \<open>net/http\<close> with the connection, one of a goroutine of the endpoint ends the process.
\<close>

section \<open>Host statistics\<close>

record cpu_stat =
  cs_VendorID :: string
  cs_Family :: string
  cs_Model :: string
  cs_Cores :: "32 word"
  cs_ModelName :: string
  cs_Mhz :: json

text \<open>The readings: graphics cards, memory (total, free, and the text of the used percentage), the hardware addresses of
  the interfaces, the processors; and \<open>json.Marshal\<close>.\<close>

record host_stats =
  hs_GPU :: "go_err + string list"
  hs_Mem :: "(u64 \<times> u64 \<times> string) option"
  hs_Interfaces :: "go_err + string list"
  hs_CPU :: "cpu_stat list \<times> go_err option"
  hs_Marshal :: "json \<Rightarrow> go_err + string"

definition GetGpuInfo :: "host_stats \<Rightarrow> string" where
  "GetGpuInfo H = (case hs_GPU H of
     Inl _ \<Rightarrow> ''''
   | Inr cards \<Rightarrow>
       (case hs_Marshal H (JObj [(''gpus'', JInt (int (length cards))), (''graphics_card'', JArr (map JStr cards))]) of
          Inl _ \<Rightarrow> '''' | Inr t \<Rightarrow> t))"

definition GetMemInfo :: "host_stats \<Rightarrow> string" where
  "GetMemInfo H = (case hs_Mem H of
     None \<Rightarrow> ''''
   | Some (totalMem, freeMem, used) \<Rightarrow>
       ''{'' @ quoted ''total'' @ '': '' @ itoa (uint totalMem) @ '', '' @ quoted ''free'' @ '':'' @ itoa (uint freeMem) @
       '', '' @ quoted ''used_percent'' @ '':'' @ used @ ''}'')"

definition GetLocalMac :: "host_stats \<Rightarrow> go_err + string" where
  "GetLocalMac H = (case hs_Interfaces H of
     Inl err \<Rightarrow> Inl err
   | Inr interfaces \<Rightarrow> (case find (\<lambda>mac. length mac > 0) interfaces of None \<Rightarrow> Inr '''' | Some mac \<Rightarrow> Inr mac))"

text \<open>An error is logged, and so is an empty list, whose first element is read all the same.\<close>

definition GetCpuInfo :: "host_stats \<Rightarrow> go_err + string" where
  "GetCpuInfo H = (let v = fst (hs_CPU H) in
     rbind (slice_at v 0) (\<lambda>vv.
       case hs_Marshal H (JObj [(''Cpus'', JInt (int (length v))), (''VendorId'', JStr (cs_VendorID vv)),
           (''Family'', JStr (cs_Family vv)), (''Model'', JStr (cs_Model vv)), (''Cores'', JInt (sint (cs_Cores vv))),
           (''ModelName'', JStr (cs_ModelName vv)), (''Mhz'', cs_Mhz vv)]) of
         Inl _ \<Rightarrow> Inr '''' | Inr t \<Rightarrow> Inr t))"

section \<open>The endpoint\<close>

definition ProtoTagEcApp :: string where "ProtoTagEcApp = ''/em-app''"

text \<open>A route is one of the two of the endpoint or a handler that the program added, by number.\<close>

datatype ep_route = RouteHealth | RouteInfo | RouteUser nat

record 'k endpoint =
  ep_name :: string
  ep_appUrl :: string
  ep_appPort :: u64
  ep_appOrigin :: string
  ep_tag :: string
  ep_signer :: "eip155_signer option"
  ep_privateKey :: "'k option"
  ep_address :: address
  ep_stream :: event_stream
  ep_application :: application
  ep_routes :: "ep_route routes"
  ep_closed :: bool

record ('k, 'p, 'v) ep_lib =
  el_curve :: "('k, 'p) curve_lib"
  el_rlp :: "'v rlp_lib"
  el_str :: "'v string_lib"
  el_stats :: host_stats
  el_PeerString :: "peer_id \<Rightarrow> string"
  el_text :: "go_err \<Rightarrow> string"
  el_Time :: "u64 \<Rightarrow> string"
  el_Float :: "32 word \<Rightarrow> json"

definition new_application :: "string \<Rightarrow> peer_id \<Rightarrow> u64 \<Rightarrow> string \<Rightarrow> string \<Rightarrow> string \<Rightarrow> string \<Rightarrow> string \<Rightarrow> application" where
  "new_application name peerID now mac cpuInfo gpuInfo memInfo version =
     \<lparr>ap_Name = name, ap_Tag = '''', ap_Version = version, ap_PeerID = peerID, ap_IpAddr = '''', ap_AppOrigin = '''',
      ap_ModelHash = '''', ap_Mac = mac, ap_MemInfo = memInfo, ap_CpuInfo = cpuInfo, ap_GpuInfo = gpuInfo,
      ap_StartupTime = now, ap_Uptime = 0, ap_GuageHeight = 0, ap_GuageMax = 200, ap_AveragePower = 0,
      ap_RelayHost = '''', ap_RelayProxyPort = 0\<rparr>"

text \<open>\<open>listen\<close> is the outcome of \<open>gostream.Listen\<close>, \<open>now\<close> the clock in milliseconds.  A nil key panics when its public
  part is read.\<close>

definition key_address :: "('k, 'p) curve_lib \<Rightarrow> 'k option \<Rightarrow> go_err + address" where
  "key_address C privateKey = (case privateKey of
     None \<Rightarrow> Inl (GoPanic ''nil pointer dereference'') | Some k \<Rightarrow> GetAddressFromKey C (Some k))"

definition NewApplicationEndpoint ::
    "('k, 'p, 'v) ep_lib \<Rightarrow> go_err option \<Rightarrow> 'k option \<Rightarrow> peer_id \<Rightarrow> string \<Rightarrow> string \<Rightarrow> u64 \<Rightarrow> string \<Rightarrow> u64 \<Rightarrow>
      go_err + 'k endpoint" where
  "NewApplicationEndpoint L listen privateKey hostID name appUrl appPort version now =
     (case listen of
        Some err \<Rightarrow> Inl err
      | None \<Rightarrow>
          rbind (key_address (el_curve L) privateKey) (\<lambda>address.
          let mac = (case GetLocalMac (el_stats L) of Inl _ \<Rightarrow> '''' | Inr m \<Rightarrow> m) in
          rbind (GetCpuInfo (el_stats L)) (\<lambda>cpuInfo.
            Inr \<lparr>ep_name = name, ep_appUrl = appUrl, ep_appPort = appPort, ep_appOrigin = '''', ep_tag = ProtoTagEcApp,
                 ep_signer = None, ep_privateKey = privateKey, ep_address = address,
                 ep_stream = stream_push empty_event [],
                 ep_application = new_application name hostID now mac cpuInfo (GetGpuInfo (el_stats L))
                   (GetMemInfo (el_stats L)) version,
                 ep_routes = Map.empty, ep_closed = False\<rparr>)))"

definition SubscribeEvents :: "'k endpoint \<Rightarrow> nat \<times> 'k endpoint" where
  "SubscribeEvents e = (case subscribe (ep_stream e) of (i, es) \<Rightarrow> (i, e\<lparr>ep_stream := es\<rparr>))"

definition SetSigner :: "eip155_signer \<Rightarrow> 'k endpoint \<Rightarrow> 'k endpoint" where
  "SetSigner s e = e\<lparr>ep_signer := Some s\<rparr>"

definition GetEndpointApplication :: "'k endpoint \<Rightarrow> application" where
  "GetEndpointApplication e = ep_application e"

definition ep_SetAppOrigin :: "string \<Rightarrow> 'k endpoint \<Rightarrow> 'k endpoint" where
  "ep_SetAppOrigin appOrigin e =
     e\<lparr>ep_appOrigin := appOrigin, ep_application := SetAppOrigin appOrigin (ep_application e)\<rparr>"

definition ep_AddHandler :: "string \<Rightarrow> ep_route \<Rightarrow> 'k endpoint \<Rightarrow> 'k endpoint" where
  "ep_AddHandler url h e = e\<lparr>ep_routes := AddHandler (ep_routes e) url h\<rparr>"

definition GetHandlerList :: "(string set \<Rightarrow> string list) \<Rightarrow> 'k endpoint \<Rightarrow> string list" where
  "GetHandlerList order e = order (dom (ep_routes e))"

definition ep_Close :: "'k endpoint \<Rightarrow> 'k endpoint" where
  "ep_Close e = e\<lparr>ep_closed := True\<rparr>"

text \<open>The ticker of the status.\<close>

definition ep_tick :: "('k, 'p, 'v) ep_lib \<Rightarrow> u64 \<Rightarrow> 'k endpoint \<Rightarrow> 'k endpoint" where
  "ep_tick L now e =
     (case endpoint_tick now (GetMemInfo (el_stats L)) (GetGpuInfo (el_stats L)) (ep_application e) (ep_stream e) of
        (a, es) \<Rightarrow> e\<lparr>ep_application := a, ep_stream := es\<rparr>)"

section \<open>Handlers\<close>

definition unsigned_response :: "string \<Rightarrow> edge_response" where
  "unsigned_response resp = \<lparr>er_RespString = resp, er_V = None, er_R = None, er_S = None,
     er_From = ZeroAddress, er_Hash = ZeroHash\<rparr>"

text \<open>A failing signature is written, and then the nil response is given to \<open>Provider\<close>, which reads its \<open>V\<close>.\<close>

definition WriteSignedResponse ::
    "('k, 'p, 'v) ep_lib \<Rightarrow> http_resp \<Rightarrow> bytes \<Rightarrow> 'k endpoint \<Rightarrow> go_err option \<times> http_resp" where
  "WriteSignedResponse L w info e =
     (let edgeResp = unsigned_response (Base64Encode info); C = el_curve L in
      case ep_signer e of
        None \<Rightarrow> (Some (GoPanic ''nil pointer dereference''), w)
      | Some signer \<Rightarrow>
          (case (case ep_privateKey e of None \<Rightarrow> Inl (GoPanic ''nil pointer dereference'')
                 | Some k \<Rightarrow> SignEdgeResp C (el_rlp L) (el_str L) signer edgeResp k) of
             Inl err \<Rightarrow>
               if is_panic err then (Some err, w)
               else (Some (GoPanic ''nil pointer dereference''), snd (Write_text (el_text L err) w))
           | Inr signedResp \<Rightarrow>
               (case Provider C (el_rlp L) (el_str L) signer signedResp of
                  Inl err \<Rightarrow> (if is_panic err then Some err else None, w)
                | Inr provider \<Rightarrow>
                    (None, snd (Write (er_MarshalRLP (el_rlp L) (el_str L)
                       (signedResp\<lparr>er_From := provider,
                          er_Hash := sg_Hash (el_rlp L) (el_str L) signer edgeResp\<rparr>)) w)))))"

definition health_json :: "('k, 'p, 'v) ep_lib \<Rightarrow> u64 \<Rightarrow> application \<Rightarrow> json" where
  "health_json L now a = JObj
     [(''peerId'', JStr (el_PeerString L (ap_PeerID a))), (''uptime'', JInt (uint (now - ap_StartupTime a))),
      (''startupTime'', JInt (uint (ap_StartupTime a))), (''version'', JStr (ap_Version a)),
      (''time'', JStr (el_Time L now))]"

definition health_handler :: "('k, 'p, 'v) ep_lib \<Rightarrow> u64 \<Rightarrow> 'k endpoint \<Rightarrow> http_resp \<Rightarrow> go_err option \<times> http_resp" where
  "health_handler L now e w =
     (let resp = (case hs_Marshal (el_stats L) (health_json L now (ep_application e)) of
          Inl err \<Rightarrow> ''err: '' @ el_text L err | Inr t \<Rightarrow> t)
      in (None, snd (Write_text resp w)))"

definition info_json :: "('k, 'p, 'v) ep_lib \<Rightarrow> u64 \<Rightarrow> application \<Rightarrow> json" where
  "info_json L now a = JObj
     [(''name'', JStr (ap_Name a)), (''peerId'', JStr (el_PeerString L (ap_PeerID a))),
      (''uptime'', JInt (uint (now - ap_StartupTime a))), (''startupTime'', JInt (uint (ap_StartupTime a))),
      (''version'', JStr (ap_Version a)), (''tag'', JStr (ap_AppOrigin a)), (''model_hash'', JStr (ap_ModelHash a)),
      (''mac'', JStr (ap_Mac a)), (''mem_info'', JStr (ap_MemInfo a)), (''cpu_info'', JStr (ap_CpuInfo a)),
      (''average_power'', el_Float L (ap_AveragePower a)), (''gpu_info'', JStr (ap_GpuInfo a))]"

definition info_bytes :: "('k, 'p, 'v) ep_lib \<Rightarrow> u64 \<Rightarrow> application \<Rightarrow> bytes" where
  "info_bytes L now a = text_bytes (case hs_Marshal (el_stats L) (info_json L now a) of
     Inl err \<Rightarrow> ''endpoint err: '' @ el_text L err | Inr t \<Rightarrow> t)"

definition info_handler :: "('k, 'p, 'v) ep_lib \<Rightarrow> u64 \<Rightarrow> 'k endpoint \<Rightarrow> http_resp \<Rightarrow> go_err option \<times> http_resp" where
  "info_handler L now e w = WriteSignedResponse L w (info_bytes L now (ep_application e)) e"

definition ep_ServeHTTP ::
    "('k, 'p, 'v) ep_lib \<Rightarrow> (nat \<Rightarrow> http_req \<Rightarrow> http_resp \<Rightarrow> go_err option \<times> http_resp) \<Rightarrow> u64 \<Rightarrow> 'k endpoint \<Rightarrow>
      http_req \<Rightarrow> http_resp \<Rightarrow> go_err option \<times> http_resp" where
  "ep_ServeHTTP L user now e r w =
     (case ServeHTTP (ep_routes e) (hq_Path r) of
        None \<Rightarrow> (None, http_Error ''404 Not Found'' 404 w)
      | Some RouteHealth \<Rightarrow> health_handler L now e w
      | Some RouteInfo \<Rightarrow> info_handler L now e w
      | Some (RouteUser n) \<Rightarrow> user n r w)"

section \<open>The serving goroutine\<close>

text \<open>The handler is installed in the default \<open>ServeMux\<close>, which the whole process shares; \<open>pr_mux\<close> says which
  endpoint serves a pattern.  \<open>Inl\<close> ends the process.\<close>

record 'k process =
  pr_endpoints :: "'k endpoint list"
  pr_mux :: "string \<rightharpoonup> nat"

definition serve_goroutine :: "nat \<Rightarrow> 'k process \<Rightarrow> go_err + 'k process" where
  "serve_goroutine i p =
     (let e = ep_AddHandler ''/info'' RouteInfo (ep_AddHandler ''/health'' RouteHealth (pr_endpoints p ! i)) in
      rbind (mux_Handle ''/'' i (pr_mux p)) (\<lambda>mux.
        Inr (p\<lparr>pr_endpoints := (pr_endpoints p)[i := e], pr_mux := mux\<rparr>)))"

text \<open>A request that arrives at the listener of any endpoint of the process.\<close>

definition endpoint_serve ::
    "('k, 'p, 'v) ep_lib \<Rightarrow> (nat \<Rightarrow> http_req \<Rightarrow> http_resp \<Rightarrow> go_err option \<times> http_resp) \<Rightarrow> u64 \<Rightarrow> 'k process \<Rightarrow>
      http_req \<Rightarrow> (go_err option \<times> http_resp) mux_route" where
  "endpoint_serve L user now p r =
     (case ServeMux_route (pr_mux p) r of
        MuxRedirect path \<Rightarrow> MuxRedirect path
      | MuxNotFound \<Rightarrow> MuxNotFound
      | MuxHandler i \<Rightarrow> MuxHandler (ep_ServeHTTP L user now (pr_endpoints p ! i) r (new_response False)))"

section \<open>Calls to other endpoints\<close>

record edge_call =
  ec_PeerId :: string
  ec_Endpoint :: string
  ec_Input :: "bytes option"

definition ec_Copy :: "edge_call \<Rightarrow> edge_call" where
  "ec_Copy e = \<lparr>ec_PeerId = ec_PeerId e, ec_Endpoint = ec_Endpoint e,
     ec_Input = (case ec_Input e of Some b \<Rightarrow> if length b > 0 then Some b else None | None \<Rightarrow> None)\<rparr>"

definition DecodeEdgeCallFromInterface ::
    "('i \<Rightarrow> go_err + 'raw) \<Rightarrow> ('raw \<Rightarrow> go_err + edge_call option) \<Rightarrow> 'i \<Rightarrow> go_err + edge_call option" where
  "DecodeEdgeCallFromInterface json_Marshal json_Unmarshal i = rbind (json_Marshal i) json_Unmarshal"

text \<open>The HTTP client over libp2p: what a POST answers, the body or the error of reading it.  \<open>marshal\<close> is
  \<open>json.Marshal\<close> of the raw input.\<close>

record call_lib =
  cl_Marshal :: "bytes \<Rightarrow> go_err + bytes"
  cl_ParseURL :: "string \<Rightarrow> go_err + string"
  cl_Do :: "string \<Rightarrow> (string \<times> string) list \<Rightarrow> bytes \<Rightarrow> go_err + (go_err + bytes)"

definition call_url :: "edge_call \<Rightarrow> string" where
  "call_url call = ''libp2p://'' @ ec_PeerId call @ ec_Endpoint call"

definition edge_Call :: "call_lib \<Rightarrow> edge_call \<Rightarrow> go_err + bytes option" where
  "edge_Call K call = (case ec_Input call of
     None \<Rightarrow> Inr None
   | Some input \<Rightarrow>
       rbind (cl_Marshal K input) (\<lambda>raw.
       rbind (cl_Do K (call_url call) [(''Content-Type'', ''application/json'')] raw) (\<lambda>body.
       rbind body (\<lambda>all_bytes. Inr (Some all_bytes)))))"

definition CallWithFrom :: "call_lib \<Rightarrow> string \<Rightarrow> edge_call \<Rightarrow> string \<Rightarrow> go_err + bytes option" where
  "CallWithFrom K routerID call from_addr = (case ec_Input call of
     None \<Rightarrow> Inr None
   | Some input \<Rightarrow>
       rbind (cl_Marshal K input) (\<lambda>raw.
       rbind (cl_ParseURL K (call_url call)) (\<lambda>url.
       rbind (cl_Do K url [(''Content-Type'', ''application/json''), (''Emc-From'', from_addr), (''Emc-Router'', routerID)] raw)
         (\<lambda>body. rbind body (\<lambda>all_bytes. Inr (Some all_bytes))))))"

end
