(* ===== verification/Endpoint_Props.thy ===== *)
theory Endpoint_Props
  imports Endpoint
begin

text \<open>
  Properties of the application endpoint: what a caller reads from it verifies, how its signing fails, and what a second
  endpoint does to the process.
\<close>

section \<open>Signed answers\<close>

lemma length_BytesTo [simp]: "length (BytesToAddress b) = AddressLength" "length (BytesToHash b) = HashLength"
  by (simp_all add: BytesToAddress_def BytesToHash_def)

lemma length_addresses: "length (PubKeyToAddress C p) = AddressLength" "length (sg_Hash L T s r) = HashLength"
  by (simp_all add: PubKeyToAddress_def pub_address_def sg_Hash_def calcResponseHash_def)

text \<open>The response that \<open>WriteSignedResponse\<close> sends.\<close>

definition sent_response :: "('k, 'p, 'v) ep_lib \<Rightarrow> eip155_signer \<Rightarrow> bytes \<Rightarrow> edge_response \<Rightarrow> address \<Rightarrow> edge_response" where
  "sent_response L s info sr provider = sr\<lparr>er_From := provider,
     er_Hash := sg_Hash (el_rlp L) (el_str L) s (unsigned_response (Base64Encode info))\<rparr>"

lemma WriteSignedResponse_signed:
  assumes "ep_signer e = Some s" and "ep_privateKey e = Some k"
    and "SignEdgeResp (el_curve L) (el_rlp L) (el_str L) s (unsigned_response (Base64Encode info)) k = Inr sr"
    and "Provider (el_curve L) (el_rlp L) (el_str L) s sr = Inr provider" and "\<not> hw_Gone w"
  shows "WriteSignedResponse L w info e = (None, (WriteHeader 200 w)\<lparr>hw_Body := hw_Body w @
    er_MarshalRLP (el_rlp L) (el_str L) (sent_response L s info sr provider)\<rparr>)"
  using assms by (simp add: WriteSignedResponse_def sent_response_def Let_def)

lemma SignEdgeResp_total:
  assumes "curve_laws C" and "cv_SignCompact C k (sg_Hash L T s (er_Copy r)) = Inr sig"
  shows "\<exists>r'. SignEdgeResp C L T s r k = Inr r'"
proof -
  obtain hd r1 s1 where h: "sig = hd # r1 @ s1" "length r1 = 32" "length s1 = 32"
    using curve_sigE [OF assms] by metis
  then show ?thesis using assms(2) by (simp add: SignEdgeResp_def ecdsa_Sign_def Let_def)
qed

lemma sent_response_reads_back:
  assumes "curve_laws C" and "rlp_laws R" and "string_laws R T" and "SignEdgeResp C R T s r k = Inr sr"
    and "length a = AddressLength" and "length h = HashLength"
  shows "er_UnmarshalRLP R T r0 (er_MarshalRLP R T (sr\<lparr>er_From := a, er_Hash := h\<rparr>)) = Inr (sr\<lparr>er_From := a, er_Hash := h\<rparr>)"
proof -
  obtain x y p where "er_R sr = Some (big_SetBytes x)" "er_S sr = Some (big_SetBytes y)"
    "er_V sr = Some (abs (p + 35 + 2 * sint (sg_networkID s)))" "1 \<le> big_SetBytes x" "1 \<le> big_SetBytes y"
    using SignEdgeResp_shape [OF assms(1,4)] by metis
  then show ?thesis by (intro er_round_trip [OF assms(2,3)]) (simp_all add: nat_big_def assms(5,6))
qed

lemma Provider_cong:
  assumes "er_V r = er_V r'" "er_R r = er_R r'" "er_S r = er_S r'" "er_RespString r = er_RespString r'"
  shows "Provider C L T s r = Provider C L T s r'"
  using assms sg_Hash_cong [OF assms(4), of L T s] by (simp add: Provider_def)

lemma ep_AddHandler_simps [simp]:
  "ep_routes (ep_AddHandler url h e) = (ep_routes e)(url \<mapsto> h)" "ep_application (ep_AddHandler url h e) = ep_application e"
  "ep_signer (ep_AddHandler url h e) = ep_signer e" "ep_privateKey (ep_AddHandler url h e) = ep_privateKey e"
  by (simp_all add: ep_AddHandler_def AddHandler_def)

lemma WriteSignedResponse_AddHandler [simp]:
  "WriteSignedResponse L w b (ep_AddHandler url h e) = WriteSignedResponse L w b e"
  unfolding WriteSignedResponse_def ep_AddHandler_simps ..

section \<open>Instances\<close>

definition quiet_host :: host_stats where
  "quiet_host = \<lparr>hs_GPU = Inr [], hs_Mem = None, hs_Interfaces = Inr ['''', ''aa:bb''],
     hs_CPU = ([\<lparr>cs_VendorID = ''v'', cs_Family = ''f'', cs_Model = ''m'', cs_Cores = 4, cs_ModelName = ''n'', cs_Mhz = JInt 1\<rparr>], None),
     hs_Marshal = (\<lambda>_. Inr ''{}'')\<rparr>"

definition toy_ep_lib :: "(unit, unit, rlp_tree) ep_lib" where
  "toy_ep_lib = \<lparr>el_curve = toy_curve, el_rlp = tree_lib, el_str = tree_text, el_stats = quiet_host, el_PeerString = id,
     el_text = (\<lambda>_. ''error''), el_Time = (\<lambda>_. ''now''), el_Float = (\<lambda>_. JInt 0)\<rparr>"

lemma toy_ep_lib_laws:
  "curve_laws (el_curve toy_ep_lib)" "rlp_laws (el_rlp toy_ep_lib)" "string_laws (el_rlp toy_ep_lib) (el_str toy_ep_lib)"
  "\<exists>sig. cv_SignCompact (el_curve toy_ep_lib) k h = Inr sig"
  by (simp_all add: toy_ep_lib_def toy_curve_laws tree_lib_laws tree_text_laws) (simp add: toy_curve_def)

lemma toy_endpoint: "\<exists>e0. NewApplicationEndpoint toy_ep_lib None (Some ()) ''self'' ''app'' ''url'' 80 ''1'' 5 = Inr e0"
  by (simp add: NewApplicationEndpoint_def key_address_def GetAddressFromKey_def GetCpuInfo_def toy_ep_lib_def quiet_host_def)

definition info_request :: http_req where
  "info_request = \<lparr>hq_Method = ''POST'', hq_Path = ''/info'', hq_Origin = '''', hq_Body = Inr []\<rparr>"

section \<open>Properties\<close>

text \<open>C29. What a node reads from \<open>/info\<close> of another node verifies.  Given a transport that delivers the answer of the endpoint,
  and a signer whose network identifier is below \<open>2 ^ 63\<close>, \<open>Call\<close> returns bytes that decode to a response whose
  text is the information of the endpoint in base64, and whose recovered provider is its \<open>From\<close> field: the address of
  the endpoint's key.\<close>

theorem endpoint_answer_verifies:
  assumes "curve_laws (el_curve L)" and "rlp_laws (el_rlp L)" and "string_laws (el_rlp L) (el_str L)"
    and "\<And>h. \<exists>sig. cv_SignCompact (el_curve L) k h = Inr sig"
    and "NewApplicationEndpoint L None (Some k) hostID name appUrl appPort version start = Inr e0"
    and "e = ep_AddHandler ''/info'' RouteInfo (SetSigner s e0)" and "0 \<le> sint (sg_networkID s)"
    and "ec_Input call = Some input" and "cl_Marshal K input = Inr raw" and "hq_Path r = ''/info''"
    and "cl_Do K (call_url call) [(''Content-Type'', ''application/json'')] raw =
      Inr (Inr (hw_Body (snd (ep_ServeHTTP L user now e r (new_response False)))))"
  shows "\<exists>body resp. edge_Call K call = Inr (Some body) \<and>
    er_UnmarshalRLP (el_rlp L) (el_str L) r0 body = Inr resp \<and>
    b64_Decode (er_RespString resp) = Inr (info_bytes L now (ep_application e0)) \<and>
    Provider (el_curve L) (el_rlp L) (el_str L) s resp = Inr (er_From resp) \<and> er_From resp = ep_address e0"
proof -
  let ?C = "el_curve L" and ?R = "el_rlp L" and ?T = "el_str L"
  let ?info = "info_bytes L now (ep_application e0)" and ?a = "PubKeyToAddress (el_curve L) (cv_Public (el_curve L) k)"
  have e0: "ep_address e0 = ?a" "ep_privateKey e0 = Some k"
    using assms(5) by (auto simp: NewApplicationEndpoint_def key_address_def GetAddressFromKey_def Let_def rbind_def split: sum.splits)
  have e: "ep_signer e = Some s" "ep_privateKey e = Some k" "ep_application e = ep_application e0"
    "ep_routes e ''/info'' = Some RouteInfo"
    by (simp_all add: assms(6) SetSigner_def ep_AddHandler_def AddHandler_def e0(2))
  obtain sr where sr: "SignEdgeResp ?C ?R ?T s (unsigned_response (Base64Encode ?info)) k = Inr sr"
    using SignEdgeResp_total [OF assms(1)] assms(4) by blast
  have p: "Provider ?C ?R ?T s sr = Inr ?a" using Provider_signed(1) [OF assms(1) sr assms(7)] .
  let ?resp = "sent_response L s ?info sr ?a"
  have "snd (ep_ServeHTTP L user now e r (new_response False)) =
      (WriteHeader 200 (new_response False))\<lparr>hw_Body := er_MarshalRLP ?R ?T ?resp\<rparr>"
    using WriteSignedResponse_signed [OF e(1,2) sr p, of "new_response False"] assms(10)
    by (simp add: ep_ServeHTTP_def ServeHTTP_def info_handler_def e)
  then have "edge_Call K call = Inr (Some (er_MarshalRLP ?R ?T ?resp))" using assms(8,9,11) by (simp add: edge_Call_def)
  moreover have "er_UnmarshalRLP ?R ?T r0 (er_MarshalRLP ?R ?T ?resp) = Inr ?resp"
    unfolding sent_response_def by (rule sent_response_reads_back [OF assms(1-3) sr]) (simp_all add: length_addresses)
  moreover have "b64_Decode (er_RespString ?resp) = Inr ?info"
    using SignEdgeResp_shape [OF assms(1) sr] by (metis sent_response_def unsigned_response_def b64_Decode_Encode
        edge_response.select_convs(1) edge_response.update_convs(5,6) edge_response.surjective)
  moreover have "Provider ?C ?R ?T s ?resp = Inr ?a"
    unfolding p [symmetric] by (rule Provider_cong) (simp_all add: sent_response_def)
  ultimately show ?thesis using e0(1) by (auto simp: sent_response_def)
qed

theorem endpoint_answer_verifies_witness:
  "\<exists>e0 body resp. NewApplicationEndpoint toy_ep_lib None (Some ()) ''self'' ''app'' ''url'' 80 ''1'' 5 = Inr e0 \<and>
     edge_Call \<lparr>cl_Marshal = Inr, cl_ParseURL = Inr, cl_Do = (\<lambda>_ _ _. Inr (Inr (hw_Body (snd (ep_ServeHTTP toy_ep_lib (\<lambda>_ _ w. (None, w)) 9
         (ep_AddHandler ''/info'' RouteInfo (SetSigner \<lparr>sg_networkID = 7, sg_isHomestead = True\<rparr> e0))
         info_request (new_response False))))))\<rparr>
       \<lparr>ec_PeerId = ''p'', ec_Endpoint = ''/info'', ec_Input = Some [1]\<rparr> = Inr (Some body) \<and>
     er_UnmarshalRLP tree_lib tree_text (unsigned_response '''') body = Inr resp \<and>
     Provider toy_curve tree_lib tree_text \<lparr>sg_networkID = 7, sg_isHomestead = True\<rparr> resp = Inr (ep_address e0)"
proof -
  let ?s = "\<lparr>sg_networkID = 7 :: u64, sg_isHomestead = True\<rparr>" and ?user = "\<lambda>_ _ w. (None, w)"
  obtain e0 where e0: "NewApplicationEndpoint toy_ep_lib None (Some ()) ''self'' ''app'' ''url'' 80 ''1'' 5 = Inr e0"
    using toy_endpoint by blast
  let ?e = "ep_AddHandler ''/info'' RouteInfo (SetSigner ?s e0)"
  let ?body = "hw_Body (snd (ep_ServeHTTP toy_ep_lib ?user 9 ?e info_request (new_response False)))"
  let ?K = "\<lparr>cl_Marshal = Inr, cl_ParseURL = Inr, cl_Do = (\<lambda>_ _ _. Inr (Inr ?body))\<rparr>"
  let ?c = "\<lparr>ec_PeerId = ''p'', ec_Endpoint = ''/info'', ec_Input = Some [1]\<rparr>"
  obtain body resp where "edge_Call ?K ?c = Inr (Some body)"
    "er_UnmarshalRLP tree_lib tree_text (unsigned_response '''') body = Inr resp"
    "Provider toy_curve tree_lib tree_text ?s resp = Inr (er_From resp)" "er_From resp = ep_address e0"
    using endpoint_answer_verifies [OF toy_ep_lib_laws(1-4) e0 refl, of ?s ?c "[1]" ?K "[1]" info_request ?user 9 "unsigned_response ''''"]
    by (auto simp: info_request_def) (simp add: toy_ep_lib_def)
  then show ?thesis using e0 by auto
qed

text \<open>A signature that fails is not survived: without a signer the handler panics; when signing reports an error, its text
  is written and then the nil response is dereferenced, so the connection drops; and with a network identifier that \<open>int64\<close>
  reads below -18 the response is signed but its provider cannot be recovered, and the caller gets an empty answer
  without an error.\<close>

theorem endpoint_sign_failures:
  assumes "curve_laws (el_curve L)" and "ep_routes e ''/info'' = Some RouteInfo" and "hq_Path r = ''/info''"
  shows "(ep_signer e = None \<longrightarrow> ep_ServeHTTP L user now e r w = (Some (GoPanic ''nil pointer dereference''), w)) \<and>
    (\<forall>s k err. ep_signer e = Some s \<and> ep_privateKey e = Some k \<and> \<not> is_panic err \<and> \<not> hw_Gone w \<and>
        (\<forall>h. cv_SignCompact (el_curve L) k h = Inl err) \<longrightarrow>
      (\<exists>w'. ep_ServeHTTP L user now e r w = (Some (GoPanic ''nil pointer dereference''), w') \<and>
        hw_Body w' = hw_Body w @ text_bytes (el_text L err))) \<and>
    (\<forall>s k. ep_signer e = Some s \<and> ep_privateKey e = Some k \<and> sint (sg_networkID s) < -18 \<and>
        (\<forall>h. \<exists>sig. cv_SignCompact (el_curve L) k h = Inr sig) \<longrightarrow>
      ep_ServeHTTP L user now e r w = (None, w))"
proof -
  have served: "ep_ServeHTTP L user now e r w = WriteSignedResponse L w (info_bytes L now (ep_application e)) e"
    using assms(2,3) by (simp add: ep_ServeHTTP_def ServeHTTP_def info_handler_def)
  have failed: "SignEdgeResp (el_curve L) R T s x k = Inl err" if "\<forall>h. cv_SignCompact (el_curve L) k h = Inl err"
    for s x k err and R :: "'c rlp_lib" and T
    using that by (simp add: SignEdgeResp_def ecdsa_Sign_def Let_def)
  have empty: "WriteSignedResponse L w (info_bytes L now (ep_application e)) e = (None, w)"
    if s: "ep_signer e = Some s" "ep_privateKey e = Some k" "sint (sg_networkID s) < -18"
      "\<forall>h. \<exists>sig. cv_SignCompact (el_curve L) k h = Inr sig" for s k
  proof -
    obtain sr where sr: "SignEdgeResp (el_curve L) (el_rlp L) (el_str L) s
        (unsigned_response (Base64Encode (info_bytes L now (ep_application e)))) k = Inr sr"
      using SignEdgeResp_total [OF assms(1)] s(4) by blast
    from Provider_signed(2) [OF assms(1) sr s(3)] show ?thesis
      by (simp add: WriteSignedResponse_def Let_def s(1,2) sr)
  qed
  show ?thesis unfolding served using failed empty
    by (auto simp: WriteSignedResponse_def Let_def Write_text_def)
qed

theorem endpoint_sign_failures_witness:
  "\<exists>e0. ep_ServeHTTP toy_ep_lib (\<lambda>_ _ w. (None, w)) 9 (ep_AddHandler ''/info'' RouteInfo e0) info_request (new_response False) =
     (Some (GoPanic ''nil pointer dereference''), new_response False) \<and>
   ep_ServeHTTP toy_ep_lib (\<lambda>_ _ w. (None, w)) 9
     (ep_AddHandler ''/info'' RouteInfo (SetSigner \<lparr>sg_networkID = -20, sg_isHomestead = True\<rparr> e0)) info_request (new_response False) =
     (None, new_response False)"
proof -
  obtain e0 where e0: "NewApplicationEndpoint toy_ep_lib None (Some ()) ''self'' ''app'' ''url'' 80 ''1'' 5 = Inr e0"
    using toy_endpoint by blast
  have k: "ep_signer e0 = None" "ep_privateKey e0 = Some ()"
    using e0 by (auto simp: NewApplicationEndpoint_def Let_def rbind_def split: sum.splits)
  have path: "hq_Path info_request = ''/info''" by (simp add: info_request_def)
  let ?s = "\<lparr>sg_networkID = -20 :: u64, sg_isHomestead = True\<rparr>"
  have r: "ep_routes (ep_AddHandler ''/info'' RouteInfo e1) ''/info'' = Some RouteInfo" for e1 :: "unit endpoint" by simp
  have n: "sint (-20 :: u64) < -18" by simp
  show ?thesis
    using endpoint_sign_failures [OF toy_ep_lib_laws(1) r path, of e0 "\<lambda>_ _ w. (None, w)" 9 "new_response False"]
      endpoint_sign_failures [OF toy_ep_lib_laws(1) r path, of "SetSigner ?s e0" "\<lambda>_ _ w. (None, w)" 9 "new_response False"]
      k n toy_ep_lib_laws(4) by (auto simp: SetSigner_def)
qed

text \<open>The endpoint installs its handler in the default \<open>ServeMux\<close> of the process.  The first endpoint of a process serves
  its routes; the goroutine of a second one panics, which ends the process.\<close>

theorem second_endpoint_ends_process:
  assumes "pr_mux p = Map.empty" and "pr_endpoints p = [e1, e2]" and "cleanPath (hq_Path r) = hq_Path r"
  shows "\<exists>p1. serve_goroutine 0 p = Inr p1 \<and>
    (case endpoint_serve L user now p1 r of MuxHandler out \<Rightarrow>
        (hq_Path r = ''/info'' \<longrightarrow> out = info_handler L now e1 (new_response False)) \<and>
        (hq_Path r \<noteq> ''/info'' \<and> hq_Path r \<noteq> ''/health'' \<and> ep_routes e1 (hq_Path r) = None \<longrightarrow>
           (\<exists>h. hw_Sent (snd out) = Some (404, h)))
      | _ \<Rightarrow> False) \<and>
    serve_goroutine 1 p1 = Inl (GoPanic ''http: multiple registrations for /'')"
proof -
  let ?e = "ep_AddHandler ''/info'' RouteInfo (ep_AddHandler ''/health'' RouteHealth e1)"
  let ?p1 = "p\<lparr>pr_endpoints := [?e, e2], pr_mux := [''/'' \<mapsto> 0]\<rparr>"
  have g: "serve_goroutine 0 p = Inr ?p1" using assms(1,2) by (simp add: serve_goroutine_def mux_Handle_def)
  have route: "ServeMux_route [''/'' \<mapsto> (0::nat)] r = MuxHandler 0"
    unfolding ServeMux_route_def Let_def assms(3) by (simp split: option.split)
  have "endpoint_serve L user now ?p1 r = MuxHandler (ep_ServeHTTP L user now ?e r (new_response False))"
    by (simp add: endpoint_serve_def route)
  moreover have "serve_goroutine 1 ?p1 = Inl (GoPanic ''http: multiple registrations for /'')"
    by (simp add: serve_goroutine_def mux_Handle_def)
  ultimately show ?thesis using g
    by (auto simp: ep_ServeHTTP_def ServeHTTP_def info_handler_def http_Error_def Write_text_def WriteHeader_def)
qed

theorem second_endpoint_ends_process_witness:
  "\<exists>e0 p1. serve_goroutine 0 \<lparr>pr_endpoints = [e0, e0], pr_mux = Map.empty\<rparr> = Inr (p1 :: unit process) \<and>
     serve_goroutine 1 p1 = Inl (GoPanic ''http: multiple registrations for /'')"
proof -
  obtain e0 where "NewApplicationEndpoint toy_ep_lib None (Some ()) ''self'' ''app'' ''url'' 80 ''1'' 5 = Inr e0"
    using toy_endpoint by blast
  have path: "cleanPath (hq_Path info_request) = hq_Path info_request" by code_simp
  show ?thesis
    using second_endpoint_ends_process [of "\<lparr>pr_endpoints = [e0, e0], pr_mux = Map.empty\<rparr>" e0 e0 info_request
        toy_ep_lib 9 "\<lambda>_ _ w. (None, w)", OF _ _ path] by auto
qed

end
