(* ===== verification/App_Service.thy ===== *)
theory App_Service
  imports Grpc_Props Applications
begin

text \<open>
  The remote calls between syncers: the service that answers them (\<open>core/application/sync_service.go\<close>) and the methods of the
  sync client that make them (\<open>core/application/sync_client.go\<close>), over the connections of the networking server.
  How gRPC shows the messages and the result of a streaming handler to its client is a parameter.
\<close>

section \<open>The service\<close>

text \<open>A streaming handler is what it sends and what it returns.\<close>

record app_service =
  sa_application :: application
  sa_stream :: "nat option"      \<comment> \<open>the listener of the service, once started\<close>

definition NewSyncAppPeerService :: "application \<Rightarrow> app_service" where
  "NewSyncAppPeerService a = \<lparr>sa_application = a, sa_stream = None\<rparr>"

definition sa_Start :: "listeners \<Rightarrow> app_service \<Rightarrow> listeners \<times> app_service" where
  "sa_Start ls s = (registerAppSyncerService ls, s\<lparr>sa_stream := Some (ls_next ls)\<rparr>)"

text \<open>\<open>Close\<close> calls \<open>GrpcStream.Close\<close>, which does not look at its receiver.\<close>

definition sa_Close :: "listeners \<Rightarrow> app_service \<Rightarrow> go_err option \<times> listeners" where
  "sa_Close ls s = (None, ls)"

definition sa_PostAppStatus :: "(string \<Rightarrow> go_err + peer_id) \<Rightarrow> string \<Rightarrow> string list \<times> go_err option" where
  "sa_PostAppStatus decode nodeId = (case decode nodeId of Inl _ \<Rightarrow> ([], None) | Inr _ \<Rightarrow> ([], None))"

definition sa_GetData :: "string \<Rightarrow> 'd list \<times> go_err option" where
  "sa_GetData dataHash = ([], None)"

definition sa_GetStatus :: "app_service \<Rightarrow> app_status" where
  "sa_GetStatus s = (let a = sa_application s in
     \<lparr>as_Name = ap_Name a, as_NodeId = '''', as_Uptime = ap_Uptime a, as_StartupTime = ap_StartupTime a,
      as_Relay = '''', as_Addr = '''', as_GuageHeight = ap_GuageHeight a, as_GuageMax = ap_GuageMax a,
      as_AppOrigin = '''', as_Mac = '''', as_CpuInfo = '''', as_GpuInfo = '''', as_MemInfo = '''', as_ModelHash = '''',
      as_AveragePower = 0, as_Version = '''', as_RelayProxyPort = 0\<rparr>)"

definition toProtoData :: "(string \<rightharpoonup> bytes) \<Rightarrow> (string \<rightharpoonup> bytes)" where "toProtoData d = d"

definition fromProto :: "(string \<rightharpoonup> bytes) \<Rightarrow> go_err + (string \<rightharpoonup> bytes)" where "fromProto d = Inr d"

section \<open>The client\<close>

text \<open>The calls on a connection.  A stream is what successive \<open>Recv\<close> return; one that is used up blocks.\<close>

record app_rpc =
  ar_GetStatus :: "nat \<Rightarrow> go_err + app_status"
  ar_PostAppStatus :: "nat \<Rightarrow> string \<Rightarrow> go_err + (go_err + string) list"
  ar_GetData :: "nat \<Rightarrow> string \<Rightarrow> go_err + (go_err + (string \<rightharpoonup> bytes)) list"

definition newSyncPeerClient :: "'w host \<Rightarrow> peer_id \<Rightarrow> 'w server \<Rightarrow> (go_err + nat) \<times> 'w server" where
  "newSyncPeerClient H p s =
     (case NewProtoConnection H s appSyncerProto p of
        (Inl err, s1) \<Rightarrow> (Inl (GoWrap ''failed to open a stream, err '' err), s1)
      | (Inr conn, s1) \<Rightarrow> (Inr conn, SaveProtocolStream s1 appSyncerProto conn p))"

definition CloseStream :: "'w host \<Rightarrow> peer_id \<Rightarrow> 'w server \<Rightarrow> go_err option \<times> 'w server" where
  "CloseStream H p s = CloseProtocolStream H s appSyncerProto p"

text \<open>The first message of a stream; \<open>None\<close> waits for ever.\<close>

definition recv_first :: "(go_err + 'm) list \<Rightarrow> (go_err + 'm) option" where
  "recv_first ms = (case ms of [] \<Rightarrow> None | m # _ \<Rightarrow> Some m)"

definition PostPeerStatusData ::
    "'w host \<Rightarrow> app_rpc \<Rightarrow> peer_id \<Rightarrow> string \<Rightarrow> 'w server \<Rightarrow> (go_err + string) option \<times> 'w server" where
  "PostPeerStatusData H R p nodeId s =
     (case newSyncPeerClient H p s of
        (Inl err, s1) \<Rightarrow>
          (Some (Inl (GoWrap (''failed to create sync peer client to '' @ ac_PeerString (ho_codec H) p) err)), s1)
      | (Inr clt, s1) \<Rightarrow>
          (case ar_PostAppStatus R clt nodeId of
             Inl err \<Rightarrow> (Some (Inl (GoWrap ''failed to PostPeerStatusData: '' err)), s1)
           | Inr data \<Rightarrow> (recv_first data, s1)))"

definition GetPeerData ::
    "'w host \<Rightarrow> app_rpc \<Rightarrow> peer_id \<Rightarrow> string \<Rightarrow> 'w server \<Rightarrow> (go_err + (string \<rightharpoonup> bytes)) option \<times> 'w server" where
  "GetPeerData H R p h s =
     (case newSyncPeerClient H p s of
        (Inl err, s1) \<Rightarrow> (Some (Inl (GoWrap ''failed to create sync peer client: '' err)), s1)
      | (Inr clt, s1) \<Rightarrow>
          (case ar_GetData R clt h of
             Inl err \<Rightarrow> (Some (Inl (GoWrap ''failed to open GetData stream: '' err)), s1)
           | Inr data \<Rightarrow> (recv_first data, s1)))"

text \<open>\<open>GetPeerStatus\<close> with its connection.\<close>

definition peer_status ::
    "'w host \<Rightarrow> app_rpc \<Rightarrow> (peer_id \<Rightarrow> int) \<Rightarrow> peer_id \<Rightarrow> 'w server \<Rightarrow> (go_err + app_peer) \<times> 'w server" where
  "peer_status H R distance p s =
     (case newSyncPeerClient H p s of
        (Inl err, s1) \<Rightarrow> (Inl err, s1)
      | (Inr clt, s1) \<Rightarrow>
          (GetPeerStatus (ac_PeerString (ho_codec H) p) (distance p) None (ar_GetStatus R clt), s1))"

text \<open>\<open>dataStreamToChannel\<close>: what its goroutine sends to the two channels before it stops; an error that is
  \<open>io.EOF\<close> is not sent.\<close>

definition io_EOF :: go_err where "io_EOF = GoErr ''EOF''"

fun data_stream :: "(go_err + (string \<rightharpoonup> bytes)) list \<Rightarrow> (string \<rightharpoonup> bytes) list \<times> go_err option" where
  "data_stream [] = ([], None)"
| "data_stream (Inl err # ms) = ([], if err = io_EOF then None else Some err)"
| "data_stream (Inr protoData # ms) =
     (case fromProto protoData of
        Inl err \<Rightarrow> ([], Some err)
      | Inr data \<Rightarrow> (case data_stream ms of (ds, e) \<Rightarrow> (data # ds, e)))"

section \<open>Calls between two nodes of the program\<close>

text \<open>gRPC shows the client of a stream the messages that the handler sent, and after a handler that returns nil
  the end of the stream.\<close>

definition stream_laws :: "(string list \<times> go_err option \<Rightarrow> (go_err + string) list) \<Rightarrow>
    ((string \<rightharpoonup> bytes) list \<times> go_err option \<Rightarrow> (go_err + (string \<rightharpoonup> bytes)) list) \<Rightarrow> bool" where
  "stream_laws seen_text seen_data \<longleftrightarrow>
     (\<forall>ms. seen_text (ms, None) = map Inr ms @ [Inl io_EOF]) \<and> (\<forall>ms. seen_data (ms, None) = map Inr ms @ [Inl io_EOF])"

lemma newSyncPeerClient_stored:
  assumes "newSyncPeerClient H p s = (Inr c, s')" and "sv_peers s p \<noteq> None"
  shows "\<exists>pci. sv_peers s' p = Some pci \<and> protocolStreams pci appSyncerProto = Some (Some c)"
  using assms by (auto simp: newSyncPeerClient_def NewProtoConnection_def NewStream_def on_world_def SaveProtocolStream_def
      addProtocolStream_def split: prod.splits sum.splits option.splits)

text \<open>C30. Between two nodes of this program the data calls cannot succeed: the service sends nothing, so a call ends with an
  error, that of the connection or the end of the stream.  Each call opens a connection and stores it over the one of the call
  before, so after two calls \<open>CloseStream\<close> closes only the second.  The status call does work, and returns the
  times and gauges of the application, without its name.\<close>

theorem peer_data_never_arrives:
  assumes "stream_laws seen_text seen_data"
    and "\<And>c n. ar_PostAppStatus R c n = Inr (seen_text (sa_PostAppStatus decode n))"
    and "\<And>c h. ar_GetData R c h = Inr (seen_data (sa_GetData h))" and "\<And>c. ar_GetStatus R c = Inr (sa_GetStatus svc)"
    and "newSyncPeerClient H p s = (Inr c1, s1)" and "newSyncPeerClient H p s1 = (Inr c2, s2)" and "sv_peers s p \<noteq> None"
  shows "GetPeerData H R p h s = (Some (Inl io_EOF), s1) \<and> PostPeerStatusData H R p nodeId s1 = (Some (Inl io_EOF), s2) \<and>
    (\<forall>s'. \<exists>err s''. GetPeerData H R p h s' = (Some (Inl err), s'')) \<and>
    (\<exists>pci. sv_peers s2 p = Some pci \<and> protocolStreams pci appSyncerProto = Some (Some c2)) \<and>
    fst (CloseStream H p s2) = fst (ho_CloseConn H (sv_world s2) c2) \<and>
    (\<exists>pe. peer_status H R distance p s = (Inr pe, s1) \<and> pe_Uptime pe = ap_Uptime (sa_application svc) \<and>
      pe_Starup_time pe = ap_StartupTime (sa_application svc) \<and> pe_Guage_max pe = ap_GuageMax (sa_application svc) \<and>
      pe_Guage_height pe = ap_GuageHeight (sa_application svc) \<and> pe_Name pe = '''')"
proof -
  have d: "recv_first (seen_data (sa_GetData h)) = Some (Inl io_EOF)"
    using assms(1) by (simp add: sa_GetData_def stream_laws_def recv_first_def)
  have n: "recv_first (seen_text (sa_PostAppStatus decode nodeId)) = Some (Inl io_EOF)"
    using assms(1) by (simp add: sa_PostAppStatus_def stream_laws_def recv_first_def split: sum.split)
  have s1: "sv_peers s1 p \<noteq> None" using newSyncPeerClient_stored [OF assms(5,7)] by auto
  obtain pci where pci: "sv_peers s2 p = Some pci" "protocolStreams pci appSyncerProto = Some (Some c2)"
    using newSyncPeerClient_stored [OF assms(6) s1] by blast
  have "\<exists>err s''. GetPeerData H R p h s' = (Some (Inl err), s'')" for s'
    using d assms(3) by (cases "newSyncPeerClient H p s'"; cases "fst (newSyncPeerClient H p s')") (auto simp: GetPeerData_def)
  moreover have "fst (CloseStream H p s2) = fst (ho_CloseConn H (sv_world s2) c2)"
    by (simp add: CloseStream_def CloseProtocolStream_def pci removeProtocolStream_def on_world_def split: prod.split)
  moreover have "\<exists>pe. peer_status H R distance p s = (Inr pe, s1) \<and> pe_Uptime pe = ap_Uptime (sa_application svc) \<and>
      pe_Starup_time pe = ap_StartupTime (sa_application svc) \<and> pe_Guage_max pe = ap_GuageMax (sa_application svc) \<and>
      pe_Guage_height pe = ap_GuageHeight (sa_application svc) \<and> pe_Name pe = ''''"
    by (simp add: peer_status_def assms(4,5) GetPeerStatus_def sa_GetStatus_def Let_def)
  ultimately show ?thesis using d n pci assms(2,3,5,6) by (simp add: GetPeerData_def PostPeerStatusData_def)
qed

definition call_host :: "unit host" where
  "call_host = idle_host\<lparr>ho_NewStream := (\<lambda>w _ _. (Inr 7, w)), ho_Client := (\<lambda>_ n. n)\<rparr>"

definition call_server :: "unit server" where
  "call_server = idle_server\<lparr>sv_protocols := [appSyncerProto \<mapsto> 0],
     sv_peers := [''p'' \<mapsto> \<lparr>pci_Info = \<lparr>ai_ID = ''p'', ai_Addrs = []\<rparr>, connDirections = Map.empty, protocolStreams = Map.empty\<rparr>]\<rparr>"

definition service_rpc :: app_rpc where
  "service_rpc = \<lparr>ar_GetStatus = (\<lambda>_. Inr (sa_GetStatus (NewSyncAppPeerService (gossip_app ''p'' '''' '''' sample_status)))),
     ar_PostAppStatus = (\<lambda>_ n. Inr (map Inr (fst (sa_PostAppStatus Inr n)) @ [Inl io_EOF])),
     ar_GetData = (\<lambda>_ h. Inr (map Inr (fst (sa_GetData h)) @ [Inl io_EOF]))\<rparr>"

theorem peer_data_never_arrives_witness:
  "\<exists>s1. GetPeerData call_host service_rpc ''p'' ''hash'' call_server = (Some (Inl io_EOF), s1) \<and>
     (\<exists>s2. PostPeerStatusData call_host service_rpc ''p'' ''node'' s1 = (Some (Inl io_EOF), s2))"
proof -
  let ?conn = "call_server\<lparr>sv_peers := [''p'' \<mapsto> \<lparr>pci_Info = \<lparr>ai_ID = ''p'', ai_Addrs = []\<rparr>, connDirections = Map.empty,
      protocolStreams = [appSyncerProto \<mapsto> Some 7]\<rparr>]\<rparr>"
  have c: "newSyncPeerClient call_host ''p'' call_server = (Inr 7, ?conn)" "newSyncPeerClient call_host ''p'' ?conn = (Inr 7, ?conn)"
    by (simp_all add: newSyncPeerClient_def NewProtoConnection_def NewStream_def on_world_def call_host_def call_server_def
        SaveProtocolStream_def addProtocolStream_def)
  have p: "sv_peers call_server ''p'' \<noteq> None" by (simp add: call_server_def)
  have l: "stream_laws (\<lambda>x. map Inr (fst x) @ [Inl io_EOF]) (\<lambda>x. map Inr (fst x) @ [Inl io_EOF])"
    by (simp add: stream_laws_def)
  from peer_data_never_arrives [OF l _ _ _ c p, of service_rpc Inr "NewSyncAppPeerService (gossip_app ''p'' '''' '''' sample_status)"]
  show ?thesis by (auto simp: service_rpc_def)
qed

end
