(* ===== verification/Keccak_Pool.thy ===== *)
theory Keccak_Pool
  imports EMC_Prelude
begin

text \<open>
  The hasher of \<open>core/helper/keccak/keccak.go\<close> and its pool (\<open>pool.go\<close>), which the goroutines of the
  program share.  The sponge is the parameter record \<open>sponge_lib\<close>; a hasher is an object of a store, so that it
  matters which call holds it.
\<close>

section \<open>The sponge\<close>

record 'h sponge_lib =
  sl_New :: "'h option"
  sl_Size :: "'h \<Rightarrow> nat"
  sl_Write :: "'h \<Rightarrow> bytes \<Rightarrow> go_err + 'h"
  sl_Read :: "'h \<Rightarrow> nat \<Rightarrow> bytes \<times> 'h"
  sl_Reset :: "'h \<Rightarrow> 'h"

text \<open>What the library documents.  A state has absorbed some bytes and has been read up to a position of the
  output stream for them; after the first read it absorbs no more until it is reset.\<close>

record 'h sponge_view =
  sp_absorbed :: "'h \<Rightarrow> bytes"
  sp_read :: "'h \<Rightarrow> nat"
  sp_stream :: "bytes \<Rightarrow> nat \<Rightarrow> byte"

definition fresh :: "'h sponge_view \<Rightarrow> 'h \<Rightarrow> bool" where
  "fresh V h \<longleftrightarrow> sp_absorbed V h = [] \<and> sp_read V h = 0"

definition sponge_laws :: "'h sponge_lib \<Rightarrow> 'h sponge_view \<Rightarrow> bool" where
  "sponge_laws L V \<longleftrightarrow>
     (\<exists>h. sl_New L = Some h \<and> fresh V h) \<and> (\<forall>h. fresh V (sl_Reset L h)) \<and> (\<forall>h. sl_Size L h = 32) \<and>
     (\<forall>h b. if sp_read V h = 0
        then \<exists>h'. sl_Write L h b = Inr h' \<and> sp_absorbed V h' = sp_absorbed V h @ b \<and> sp_read V h' = 0
        else sl_Write L h b = Inl (GoPanic ''sha3: Write after Read'')) \<and>
     (\<forall>h n. \<exists>h'. sl_Read L h n = (map (sp_stream V (sp_absorbed V h)) [sp_read V h ..< sp_read V h + n], h') \<and>
        sp_absorbed V h' = sp_absorbed V h \<and> sp_read V h' = sp_read V h + n)"

definition digest :: "'h sponge_view \<Rightarrow> bytes \<Rightarrow> bytes" where
  "digest V b = map (sp_stream V b) [0..<32]"

section \<open>The hasher\<close>

record 'h keccak =
  kc_buf :: bytes
  kc_tmp :: bytes
  kc_hash :: 'h

definition newKeccak :: "'h sponge_lib \<Rightarrow> 'h \<Rightarrow> 'h keccak" where
  "newKeccak L h = \<lparr>kc_buf = [], kc_tmp = replicate (sl_Size L h) 0, kc_hash = h\<rparr>"

text \<open>\<open>None\<close> is the nil that a failing type assertion gives.\<close>

definition NewKeccak256 :: "'h sponge_lib \<Rightarrow> 'h keccak option" where
  "NewKeccak256 L = map_option (newKeccak L) (sl_New L)"

definition kc_Write :: "'h sponge_lib \<Rightarrow> 'h keccak \<Rightarrow> bytes \<Rightarrow> go_err + 'h keccak" where
  "kc_Write L k b = rbind (sl_Write L (kc_hash k) b) (\<lambda>h. Inr (k\<lparr>kc_hash := h\<rparr>))"

definition kc_Reset :: "'h sponge_lib \<Rightarrow> 'h keccak \<Rightarrow> 'h keccak" where
  "kc_Reset L k = k\<lparr>kc_buf := [], kc_hash := sl_Reset L (kc_hash k)\<rparr>"

definition kc_Read :: "'h sponge_lib \<Rightarrow> 'h keccak \<Rightarrow> bytes \<times> 'h keccak" where
  "kc_Read L k = (case sl_Read L (kc_hash k) (length (kc_tmp k)) of (out, h) \<Rightarrow> (out, k\<lparr>kc_tmp := out, kc_hash := h\<rparr>))"

definition kc_Sum :: "'h sponge_lib \<Rightarrow> 'h keccak \<Rightarrow> bytes \<Rightarrow> bytes \<times> 'h keccak" where
  "kc_Sum L k dst = (case kc_Read L k of (out, k1) \<Rightarrow> (dst @ out, k1))"

text \<open>\<open>v\<close> is what \<open>MarshalTo\<close> appends for the value.\<close>

definition write_value :: "'h sponge_lib \<Rightarrow> 'h keccak \<Rightarrow> bytes \<Rightarrow> go_err + 'h keccak" where
  "write_value L k v = kc_Write L (k\<lparr>kc_buf := v\<rparr>) v"

definition WriteRlp :: "'h sponge_lib \<Rightarrow> 'h keccak \<Rightarrow> bytes \<Rightarrow> bytes \<Rightarrow> go_err + bytes \<times> 'h keccak" where
  "WriteRlp L k dst v = rbind (write_value L k v) (\<lambda>k1. Inr (kc_Sum L k1 dst))"

section \<open>The pool\<close>

text \<open>The hashers that exist, and which of them lie in \<open>DefaultKeccakPool\<close>.  \<open>Get\<close> may hand out any of
  these or make a new one: \<open>pick\<close> is the choice of \<open>sync.Pool\<close>.\<close>

record 'h hashers =
  hp_objs :: "'h keccak list"
  hp_pool :: "nat list"

definition Pool_Get :: "'h sponge_lib \<Rightarrow> nat option \<Rightarrow> 'h hashers \<Rightarrow> (nat option \<times> 'h hashers) option" where
  "Pool_Get L pick P = (case pick of
     Some k \<Rightarrow> if k \<in> set (hp_pool P) then Some (Some k, P\<lparr>hp_pool := remove1 k (hp_pool P)\<rparr>) else None
   | None \<Rightarrow> Some (case NewKeccak256 L of
       None \<Rightarrow> (None, P)
     | Some h \<Rightarrow> (Some (length (hp_objs P)), P\<lparr>hp_objs := hp_objs P @ [h]\<rparr>)))"

definition Pool_Put :: "'h sponge_lib \<Rightarrow> nat \<Rightarrow> 'h hashers \<Rightarrow> 'h hashers" where
  "Pool_Put L k P =
     P\<lparr>hp_objs := (hp_objs P)[k := kc_Reset L (hp_objs P ! k)], hp_pool := k # hp_pool P\<rparr>"

section \<open>Calls\<close>

text \<open>A call of \<open>Keccak256\<close> or \<open>Keccak256Rlp\<close> and where it is: before \<open>Get\<close>, before the
  write, before the sum, before \<open>Put\<close>, returned, ended by a panic.\<close>

datatype hash_input = Source bytes | RlpValue bytes

datatype call_pc = AtGet | AtWrite nat | AtSum nat | AtPut nat bytes | Result bytes | Panicked go_err

record hash_call =
  hc_dst :: bytes
  hc_src :: hash_input
  hc_pc :: call_pc

fun input_bytes :: "hash_input \<Rightarrow> bytes" where
  "input_bytes (Source b) = b" | "input_bytes (RlpValue v) = v"

fun write_input :: "'h sponge_lib \<Rightarrow> 'h keccak \<Rightarrow> hash_input \<Rightarrow> go_err + 'h keccak" where
  "write_input L k (Source b) = kc_Write L k b"
| "write_input L k (RlpValue v) = write_value L k v"

text \<open>The next step of a call; \<open>None\<close> when it has ended or the choice is not possible.\<close>

fun call_turn :: "'h sponge_lib \<Rightarrow> nat option \<Rightarrow> bytes \<Rightarrow> hash_input \<Rightarrow> call_pc \<Rightarrow> 'h hashers \<Rightarrow>
    (call_pc \<times> 'h hashers) option" where
  "call_turn L pick dst src AtGet P = map_option (\<lambda>(h, P1).
     (case h of Some k \<Rightarrow> AtWrite k | None \<Rightarrow> Panicked (GoPanic ''nil pointer dereference''), P1)) (Pool_Get L pick P)"
| "call_turn L pick dst src (AtWrite k) P = Some (case write_input L (hp_objs P ! k) src of
     Inl e \<Rightarrow> (Panicked e, P)
   | Inr h \<Rightarrow> (AtSum k, P\<lparr>hp_objs := (hp_objs P)[k := h]\<rparr>))"
| "call_turn L pick dst src (AtSum k) P = Some (case kc_Sum L (hp_objs P ! k) dst of
     (r, h) \<Rightarrow> (AtPut k r, P\<lparr>hp_objs := (hp_objs P)[k := h]\<rparr>))"
| "call_turn L pick dst src (AtPut k r) P = Some (Result r, Pool_Put L k P)"
| "call_turn L pick dst src (Result r) P = None"
| "call_turn L pick dst src (Panicked e) P = None"

text \<open>Calls of any number of goroutines in any interleaving; the pool may also forget a hasher.\<close>

inductive hash_step ::
    "'h sponge_lib \<Rightarrow> 'h hashers \<times> hash_call list \<Rightarrow> 'h hashers \<times> hash_call list \<Rightarrow> bool" for L :: "'h sponge_lib" where
  issues: "hash_step L (P, cs) (P, cs @ [\<lparr>hc_dst = dst, hc_src = src, hc_pc = AtGet\<rparr>])"
| turns: "i < length cs \<Longrightarrow> call_turn L pick (hc_dst (cs ! i)) (hc_src (cs ! i)) (hc_pc (cs ! i)) P = Some (pc, P') \<Longrightarrow>
    hash_step L (P, cs) (P', cs[i := (cs ! i)\<lparr>hc_pc := pc\<rparr>])"
| forgets: "hash_step L (P, cs) (P\<lparr>hp_pool := remove1 k (hp_pool P)\<rparr>, cs)"

inductive hash_reach :: "'h sponge_lib \<Rightarrow> 'h hashers \<times> hash_call list \<Rightarrow> bool" for L :: "'h sponge_lib" where
  start: "hash_reach L (\<lparr>hp_objs = [], hp_pool = []\<rparr>, [])"
| steps: "hash_reach L s \<Longrightarrow> hash_step L s s' \<Longrightarrow> hash_reach L s'"

section \<open>What a hasher computes\<close>

definition clean :: "'h sponge_view \<Rightarrow> 'h keccak \<Rightarrow> bool" where
  "clean V k \<longleftrightarrow> fresh V (kc_hash k) \<and> length (kc_tmp k) = 32"

definition loaded :: "'h sponge_view \<Rightarrow> bytes \<Rightarrow> 'h keccak \<Rightarrow> bool" where
  "loaded V b k \<longleftrightarrow> sp_absorbed V (kc_hash k) = b \<and> sp_read V (kc_hash k) = 0 \<and> length (kc_tmp k) = 32"

lemma sponge_write:
  assumes "sponge_laws L V" and "loaded V a k"
  shows "\<exists>k'. kc_Write L k b = Inr k' \<and> loaded V (a @ b) k'"
proof -
  from assms obtain h where "sl_Write L (kc_hash k) b = Inr h" "sp_absorbed V h = a @ b" "sp_read V h = 0"
    unfolding sponge_laws_def loaded_def by metis
  then show ?thesis using assms(2) by (auto simp: kc_Write_def loaded_def)
qed

lemma sponge_sum:
  assumes "sponge_laws L V" and "loaded V b k"
  shows "\<exists>k'. kc_Sum L k dst = (dst @ digest V b, k') \<and> length (kc_tmp k') = 32 \<and>
    sp_absorbed V (kc_hash k') = b \<and> sp_read V (kc_hash k') = 32"
proof -
  from assms obtain h where "sl_Read L (kc_hash k) 32 = (digest V b, h)" "sp_absorbed V h = b" "sp_read V h = 32"
    unfolding sponge_laws_def loaded_def digest_def by (metis add_0)
  then show ?thesis using assms(2) by (auto simp: kc_Sum_def kc_Read_def loaded_def digest_def)
qed

lemma clean_loaded: "clean V k \<longleftrightarrow> loaded V [] k"
  by (auto simp: clean_def loaded_def fresh_def)

lemma reset_clean: "sponge_laws L V \<Longrightarrow> length (kc_tmp k) = 32 \<Longrightarrow> clean V (kc_Reset L k)"
  by (simp add: clean_def kc_Reset_def sponge_laws_def)

lemma new_clean: "sponge_laws L V \<Longrightarrow> \<exists>k. NewKeccak256 L = Some k \<and> clean V k"
  by (auto simp: clean_def NewKeccak256_def newKeccak_def sponge_laws_def)

lemma input_written:
  assumes "sponge_laws L V" and "clean V k"
  shows "\<exists>k'. write_input L k src = Inr k' \<and> loaded V (input_bytes src) k'"
proof (cases src)
  case (Source b)
  with sponge_write [OF assms(1), of "[]" k b] assms(2) show ?thesis by (simp add: clean_loaded)
next
  case (RlpValue v)
  moreover have "loaded V [] (k\<lparr>kc_buf := v\<rparr>)" using assms(2) by (simp add: clean_loaded loaded_def)
  ultimately show ?thesis using sponge_write [OF assms(1), of "[]" _ v] by (simp add: write_value_def)
qed

section \<open>Who holds which hasher\<close>

fun holding :: "call_pc \<Rightarrow> nat option" where
  "holding (AtWrite k) = Some k" | "holding (AtSum k) = Some k" | "holding (AtPut k r) = Some k" | "holding _ = None"

fun pc_ok :: "'h sponge_view \<Rightarrow> 'h keccak list \<Rightarrow> bytes \<Rightarrow> bytes \<Rightarrow> call_pc \<Rightarrow> bool" where
  "pc_ok V objs dst b AtGet = True"
| "pc_ok V objs dst b (AtWrite k) = clean V (objs ! k)"
| "pc_ok V objs dst b (AtSum k) = loaded V b (objs ! k)"
| "pc_ok V objs dst b (AtPut k r) = (length (kc_tmp (objs ! k)) = 32 \<and> r = dst @ digest V b)"
| "pc_ok V objs dst b (Result r) = (r = dst @ digest V b)"
| "pc_ok V objs dst b (Panicked e) = False"

definition call_ok :: "'h sponge_view \<Rightarrow> 'h keccak list \<Rightarrow> hash_call \<Rightarrow> bool" where
  "call_ok V objs c = pc_ok V objs (hc_dst c) (input_bytes (hc_src c)) (hc_pc c)"

definition pool_ok :: "'h sponge_view \<Rightarrow> 'h hashers \<Rightarrow> bool" where
  "pool_ok V P \<longleftrightarrow> distinct (hp_pool P) \<and> (\<forall>k \<in> set (hp_pool P). k < length (hp_objs P) \<and> clean V (hp_objs P ! k))"

definition pool_inv :: "'h sponge_view \<Rightarrow> 'h hashers \<Rightarrow> hash_call list \<Rightarrow> bool" where
  "pool_inv V P cs \<longleftrightarrow> pool_ok V P \<and>
     (\<forall>i < length cs. call_ok V (hp_objs P) (cs ! i) \<and>
        (\<forall>k. holding (hc_pc (cs ! i)) = Some k \<longrightarrow> k < length (hp_objs P) \<and> k \<notin> set (hp_pool P) \<and>
           (\<forall>j < length cs. holding (hc_pc (cs ! j)) = Some k \<longrightarrow> j = i)))"

lemma call_ok_cong:
  assumes "call_ok V objs c" and "\<And>k. holding (hc_pc c) = Some k \<Longrightarrow> objs' ! k = objs ! k"
  shows "call_ok V objs' c"
  using assms by (cases "hc_pc c") (simp_all add: call_ok_def)

text \<open>A call keeps the invariant of all when it changes only the hasher it holds, and takes hold only of one that
  nobody holding.\<close>

lemma inv_update:
  assumes "pool_inv V P cs" and "i < length cs" and "pool_ok V P'" and "call_ok V (hp_objs P') c'"
    and "length (hp_objs P) \<le> length (hp_objs P')"
    and "\<And>k. k < length (hp_objs P) \<Longrightarrow> holding (hc_pc (cs ! i)) \<noteq> Some k \<Longrightarrow> hp_objs P' ! k = hp_objs P ! k"
    and "\<And>k. k \<in> set (hp_pool P') \<Longrightarrow> k \<in> set (hp_pool P) \<or> holding (hc_pc (cs ! i)) = Some k"
    and "\<And>k. holding (hc_pc c') = Some k \<Longrightarrow> k < length (hp_objs P') \<and> k \<notin> set (hp_pool P') \<and>
      (holding (hc_pc (cs ! i)) = Some k \<or> k \<in> set (hp_pool P) \<or> length (hp_objs P) \<le> k)"
  shows "pool_inv V P' (cs[i := c'])"
  unfolding pool_inv_def
proof (intro conjI allI impI)
  show "pool_ok V P'" by fact
next
  fix j assume j: "j < length (cs[i := c'])"
  show "call_ok V (hp_objs P') (cs[i := c'] ! j)"
  proof (cases "j = i")
    case False
    have "call_ok V (hp_objs P) (cs ! j)" using assms(1) j by (simp add: pool_inv_def)
    moreover have "hp_objs P' ! k = hp_objs P ! k" if "holding (hc_pc (cs ! j)) = Some k" for k
      using assms(1,2,6) that j False unfolding pool_inv_def by (metis length_list_update)
    ultimately show ?thesis using False by (simp add: call_ok_cong)
  qed (simp add: assms(2,4))
  fix k assume k: "holding (hc_pc (cs[i := c'] ! j)) = Some k"
  then have old: "j \<noteq> i \<Longrightarrow> k < length (hp_objs P) \<and> k \<notin> set (hp_pool P) \<and> holding (hc_pc (cs ! i)) \<noteq> Some k"
    using assms(1,2) j unfolding pool_inv_def by (metis length_list_update nth_list_update_neq)
  show "k < length (hp_objs P')" "k \<notin> set (hp_pool P')"
    using old assms(2,5,7) assms(8) [of k] k by (cases "j = i"; force)+
  fix j' assume j': "j' < length (cs[i := c'])" and k': "holding (hc_pc (cs[i := c'] ! j')) = Some k"
  then have old': "j' \<noteq> i \<Longrightarrow> k < length (hp_objs P) \<and> k \<notin> set (hp_pool P) \<and> holding (hc_pc (cs ! i)) \<noteq> Some k"
    using assms(1,2) unfolding pool_inv_def by (metis length_list_update nth_list_update_neq)
  have "j' = j" if "j \<noteq> i" "j' \<noteq> i"
    using assms(1) j j' k k' that unfolding pool_inv_def by (metis length_list_update nth_list_update_neq)
  moreover have False if "j = i" "j' \<noteq> i" using old' assms(2) assms(8) [of k] k that by force
  moreover have False if "j \<noteq> i" "j' = i" using old assms(2) assms(8) [of k] k' that by force
  ultimately show "j' = j" by blast
qed

lemma get_inv:
  assumes "sponge_laws L V" and "pool_ok V P" and "Pool_Get L pick P = Some (h, P1)"
  shows "\<exists>k. h = Some k \<and> pool_ok V P1 \<and> k < length (hp_objs P1) \<and> clean V (hp_objs P1 ! k) \<and> k \<notin> set (hp_pool P1) \<and>
    (k \<in> set (hp_pool P) \<or> length (hp_objs P) \<le> k) \<and> set (hp_pool P1) \<subseteq> set (hp_pool P) \<and>
    length (hp_objs P) \<le> length (hp_objs P1) \<and> (\<forall>j < length (hp_objs P). hp_objs P1 ! j = hp_objs P ! j)"
proof (cases pick)
  case None
  obtain n where "NewKeccak256 L = Some n" "clean V n" using new_clean [OF assms(1)] by blast
  then show ?thesis using None assms(2,3) by (auto simp: Pool_Get_def pool_ok_def nth_append) (metis less_SucI less_irrefl)+
next
  case (Some k)
  then have "k \<in> set (hp_pool P)" "h = Some k" "P1 = P\<lparr>hp_pool := remove1 k (hp_pool P)\<rparr>"
    using assms(3) by (auto simp: Pool_Get_def split: if_splits)
  then show ?thesis using assms(2) by (auto simp: pool_ok_def)
qed

lemma turn_inv:
  assumes "sponge_laws L V" and inv: "pool_inv V P cs" and i: "i < length cs"
    and turn: "call_turn L pick (hc_dst (cs ! i)) (hc_src (cs ! i)) (hc_pc (cs ! i)) P = Some (pc, P')"
  shows "pool_inv V P' (cs[i := (cs ! i)\<lparr>hc_pc := pc\<rparr>])"
proof -
  let ?c = "cs ! i"
  have ok: "pool_ok V P" "call_ok V (hp_objs P) ?c" using inv i by (auto simp: pool_inv_def)
  have mine: "k < length (hp_objs P) \<and> k \<notin> set (hp_pool P)" if "holding (hc_pc ?c) = Some k" for k
    using inv i that by (auto simp: pool_inv_def)
  show ?thesis
  proof (cases "hc_pc ?c")
    case AtGet
    then obtain h where h: "Pool_Get L pick P = Some (h, P')"
      "pc = (case h of Some k \<Rightarrow> AtWrite k | None \<Rightarrow> Panicked (GoPanic ''nil pointer dereference''))"
      using turn by (auto split: prod.splits)
    from get_inv [OF assms(1) ok(1) h(1)] h(2) show ?thesis
      by (intro inv_update [OF inv i]) (auto simp: AtGet call_ok_def)
  next
    case (AtWrite k)
    then obtain k' where "write_input L (hp_objs P ! k) (hc_src ?c) = Inr k'" "loaded V (input_bytes (hc_src ?c)) k'"
      using input_written [OF assms(1)] ok(2) by (auto simp: call_ok_def)
    with turn AtWrite mine [of k] ok show ?thesis
      by (intro inv_update [OF inv i]) (auto simp: call_ok_def pool_ok_def nth_list_update)
  next
    case (AtSum k)
    then obtain k' where "kc_Sum L (hp_objs P ! k) (hc_dst ?c) = (hc_dst ?c @ digest V (input_bytes (hc_src ?c)), k')"
      "length (kc_tmp k') = 32"
      using sponge_sum [OF assms(1)] ok(2) unfolding call_ok_def by fastforce
    with turn AtSum mine [of k] ok show ?thesis
      by (intro inv_update [OF inv i]) (auto simp: call_ok_def pool_ok_def nth_list_update)
  next
    case (AtPut k r)
    then have "clean V (kc_Reset L (hp_objs P ! k))" using reset_clean [OF assms(1)] ok(2) by (simp add: call_ok_def)
    with turn AtPut mine [of k] ok show ?thesis
      by (intro inv_update [OF inv i]) (auto simp: call_ok_def pool_ok_def Pool_Put_def nth_list_update)
  qed (use turn in auto)
qed

lemma inv_issue:
  assumes "pool_inv V P cs" and "hc_pc c = AtGet"
  shows "pool_inv V P (cs @ [c])"
proof -
  have "(cs @ [c]) ! j = cs ! j \<and> j < length cs \<or> holding (hc_pc ((cs @ [c]) ! j)) = None \<and> call_ok V (hp_objs P) ((cs @ [c]) ! j)"
    if "j < length (cs @ [c])" for j
    using that assms(2) by (auto simp: nth_append call_ok_def)
  then show ?thesis using assms(1) unfolding pool_inv_def by (metis option.distinct(1))
qed

lemma inv_forget:
  assumes "pool_inv V P cs"
  shows "pool_inv V (P\<lparr>hp_pool := remove1 k (hp_pool P)\<rparr>) cs"
proof -
  let ?Q = "P\<lparr>hp_pool := remove1 k (hp_pool P)\<rparr>"
  have "pool_ok V ?Q" using assms by (auto simp: pool_inv_def pool_ok_def)
  moreover have "x \<notin> set (hp_pool ?Q)" if "x \<notin> set (hp_pool P)" for x using that notin_set_remove1 by simp
  moreover have q: "hp_objs ?Q = hp_objs P" by simp
  ultimately show ?thesis using assms unfolding pool_inv_def q by blast
qed

lemma reach_inv:
  assumes "hash_reach L s" and "sponge_laws L V"
  shows "pool_inv V (fst s) (snd s)"
  using assms(1)
proof (induction rule: hash_reach.induct)
  case (steps s s')
  from steps(2) show ?case
  proof (cases rule: hash_step.cases)
    case (issues P cs dst src)
    with steps(3) show ?thesis by (simp add: inv_issue)
  next
    case (turns i cs pick P pc P')
    then show ?thesis using turn_inv [OF assms(2) _ turns(3,4)] steps(3) by simp
  next
    case (forgets P k cs)
    with steps(3) show ?thesis by (simp add: inv_forget)
  qed
qed (simp add: pool_inv_def pool_ok_def)

section \<open>Exact hashes\<close>

fun remaining :: "call_pc \<Rightarrow> nat" where
  "remaining AtGet = 4" | "remaining (AtWrite _) = 3" | "remaining (AtSum _) = 2" | "remaining (AtPut _ _) = 1"
| "remaining (Result _) = 0" | "remaining (Panicked _) = 0"

text \<open>C34. The pooled hashers compute the hash function: in every interleaving of calls of \<open>Keccak256\<close> and
  \<open>Keccak256Rlp\<close> by any number of goroutines, whatever hashers the pool hands out, makes or forgets, no call panics, each
  that has ended returned its destination followed by the digest of its own input, and one that has not can always
  go on, with one step less to go.\<close>

theorem pooled_hashes_exact:
  assumes "sponge_laws L V" and "hash_reach L (P, cs)" and "c \<in> set cs"
  shows "(\<forall>e. hc_pc c \<noteq> Panicked e) \<and>
    (\<forall>r. hc_pc c = Result r \<longrightarrow> r = hc_dst c @ digest V (input_bytes (hc_src c))) \<and>
    ((\<nexists>r. hc_pc c = Result r) \<longrightarrow> (\<exists>pick pc P'.
       call_turn L pick (hc_dst c) (hc_src c) (hc_pc c) P = Some (pc, P') \<and> Suc (remaining pc) = remaining (hc_pc c)))"
proof -
  obtain i where i: "i < length cs" "c = cs ! i" using assms(3) by (auto simp: in_set_conv_nth)
  have inv: "pool_inv V P cs" using reach_inv [OF assms(2,1)] by simp
  then have ok: "pc_ok V (hp_objs P) (hc_dst c) (input_bytes (hc_src c)) (hc_pc c)" using i by (simp add: pool_inv_def call_ok_def)
  show ?thesis
  proof (cases "hc_pc c")
    case AtGet
    obtain n where "NewKeccak256 L = Some n" using new_clean [OF assms(1)] by blast
    then have "call_turn L None (hc_dst c) (hc_src c) AtGet P =
        Some (AtWrite (length (hp_objs P)), P\<lparr>hp_objs := hp_objs P @ [n]\<rparr>)" by (simp add: Pool_Get_def)
    then show ?thesis using AtGet by force
  next
    case (AtWrite k)
    with ok input_written [OF assms(1), of "hp_objs P ! k" "hc_src c"] show ?thesis by auto
  qed (use ok in \<open>auto split: prod.splits\<close>)
qed

text \<open>The hasher itself is no \<open>hash.Hash\<close>: \<open>Sum\<close> ends its absorbing.  A second sum gives other
  bytes of the stream, and a write after it panics.\<close>

lemma sum_ends_absorbing:
  assumes "sponge_laws L V" and "loaded V b k" and "kc_Sum L k dst = (r, k1)"
  shows "r = dst @ digest V b" and "fst (kc_Sum L k1 []) = map (sp_stream V b) [32..<64]"
    and "kc_Write L k1 b' = Inl (GoPanic ''sha3: Write after Read'')"
proof -
  from sponge_sum [OF assms(1,2), of dst] assms(3)
  have k1: "r = dst @ digest V b" "length (kc_tmp k1) = 32" "sp_absorbed V (kc_hash k1) = b" "sp_read V (kc_hash k1) = 32"
    by auto
  obtain h where "sl_Read L (kc_hash k1) 32 = (map (sp_stream V b) [32..<64], h)"
    using assms(1) k1(3,4) unfolding sponge_laws_def by (metis add_numeral_left numeral_Bit0 one_plus_numeral)
  then show "fst (kc_Sum L k1 []) = map (sp_stream V b) [32..<64]" by (simp add: kc_Sum_def kc_Read_def k1(2))
  have "sl_Write L (kc_hash k1) b' = Inl (GoPanic ''sha3: Write after Read'')"
    using assms(1) k1(4) unfolding sponge_laws_def by (metis zero_neq_numeral)
  then show "kc_Write L k1 b' = Inl (GoPanic ''sha3: Write after Read'')" by (simp add: kc_Write_def)
  show "r = dst @ digest V b" by (fact k1(1))
qed

text \<open>A run along a schedule of calls and choices of the pool.\<close>

fun play :: "'h sponge_lib \<Rightarrow> (nat \<times> nat option) list \<Rightarrow> 'h hashers \<times> hash_call list \<Rightarrow> ('h hashers \<times> hash_call list) option" where
  "play L [] s = Some s"
| "play L ((i, pick) # ts) (P, cs) =
     (if i < length cs then
        case call_turn L pick (hc_dst (cs ! i)) (hc_src (cs ! i)) (hc_pc (cs ! i)) P of
          None \<Rightarrow> None
        | Some (pc, P') \<Rightarrow> play L ts (P', cs[i := (cs ! i)\<lparr>hc_pc := pc\<rparr>])
      else None)"

lemma play_reach: "play L ts s = Some s' \<Longrightarrow> hash_reach L s \<Longrightarrow> hash_reach L s'"
proof (induction L ts s rule: play.induct)
  case (2 L i pick ts P cs)
  from "2.prems"(1) obtain pc P' where t: "i < length cs"
    "call_turn L pick (hc_dst (cs ! i)) (hc_src (cs ! i)) (hc_pc (cs ! i)) P = Some (pc, P')"
    "play L ts (P', cs[i := (cs ! i)\<lparr>hc_pc := pc\<rparr>]) = Some s'"
    by (auto split: if_splits option.splits)
  have "hash_reach L (P', cs[i := (cs ! i)\<lparr>hc_pc := pc\<rparr>])"
    using hash_reach.steps [OF "2.prems"(2) hash_step.turns [OF t(1,2)]] .
  with "2.IH" [OF t(1,2) refl] t(3) show ?case by blast
qed simp

definition toy_sponge :: "(bytes \<times> nat) sponge_lib" where
  "toy_sponge = \<lparr>sl_New = Some ([], 0), sl_Size = (\<lambda>_. 32),
     sl_Write = (\<lambda>(m, r) b. if r = 0 then Inr (m @ b, 0) else Inl (GoPanic ''sha3: Write after Read'')),
     sl_Read = (\<lambda>(m, r) n. (replicate n (of_nat (length m)), (m, r + n))), sl_Reset = (\<lambda>_. ([], 0))\<rparr>"

definition toy_view :: "(bytes \<times> nat) sponge_view" where
  "toy_view = \<lparr>sp_absorbed = fst, sp_read = snd, sp_stream = (\<lambda>m _. of_nat (length m))\<rparr>"

lemma toy_sponge_laws: "sponge_laws toy_sponge toy_view"
  by (auto simp: sponge_laws_def toy_sponge_def toy_view_def fresh_def map_replicate_const)

text \<open>Two calls that overlap, and a third that gets the hasher of the first back from the pool.\<close>

definition three_calls :: "hash_call list" where
  "three_calls = [\<lparr>hc_dst = [], hc_src = Source [1, 2], hc_pc = AtGet\<rparr>, \<lparr>hc_dst = [7], hc_src = RlpValue [3], hc_pc = AtGet\<rparr>,
     \<lparr>hc_dst = [], hc_src = Source [], hc_pc = AtGet\<rparr>]"

lemma three_reach: "hash_reach L (\<lparr>hp_objs = [], hp_pool = []\<rparr>, three_calls)"
  unfolding three_calls_def
  using hash_reach.steps [OF hash_reach.steps [OF hash_reach.steps [OF hash_reach.start hash_step.issues] hash_step.issues]
      hash_step.issues] by simp

theorem pooled_hashes_exact_witness:
  "\<exists>P cs. play toy_sponge [(0, None), (1, None), (0, None), (1, None), (0, None), (0, None), (2, Some 0), (2, None), (2, None),
      (1, None), (1, None)] (\<lparr>hp_objs = [], hp_pool = []\<rparr>, three_calls) = Some (P, cs) \<and>
    (\<forall>e. hc_pc (cs ! 1) \<noteq> Panicked e) \<and> hc_pc (cs ! 2) = AtPut 0 (replicate 32 0) \<and> hc_pc (cs ! 0) = Result (replicate 32 2)"
    (is "\<exists>P cs. play _ ?ts ?s = _ \<and> _")
proof -
  obtain P cs where run: "play toy_sponge ?ts ?s = Some (P, cs)" "hc_pc (cs ! 2) = AtPut 0 (replicate 32 0)"
    "hc_pc (cs ! 0) = Result (replicate 32 2)" "cs ! 1 \<in> set cs"
    by (simp add: three_calls_def toy_sponge_def Pool_Get_def NewKeccak256_def newKeccak_def kc_Write_def write_value_def
        kc_Sum_def kc_Read_def Pool_Put_def kc_Reset_def)
  have "hash_reach toy_sponge (P, cs)" using play_reach [OF run(1) three_reach] .
  from pooled_hashes_exact [OF toy_sponge_laws this run(4)] run show ?thesis by blast
qed

end
