(* ===== verification/Config_Files.thy ===== *)
theory Config_Files
  imports Secrets_Props
begin

text \<open>
  Two users of the file helpers: the configuration file of a secrets manager (\<open>core/secrets/config.go\<close>) and
  the endpoint of the local sockets (\<open>core/helper/ipc/ipc_unix.go\<close>).
\<close>

section \<open>The configuration of a secrets manager\<close>

text \<open>JSON for this type: an \<open>Extra\<close> with a value that JSON cannot represent is not marshalled, and the JSON
  value null sets the pointer to nil.\<close>

record config_json =
  cj_MarshalIndent :: "sm_config \<Rightarrow> go_err + bytes"
  cj_Unmarshal :: "bytes \<Rightarrow> go_err + sm_config option"

definition WriteConfig :: "config_json \<Rightarrow> os_env \<Rightarrow> sm_config \<Rightarrow> string \<Rightarrow> fsys \<Rightarrow> go_err option \<times> fsys" where
  "WriteConfig J e c path fs =
     (let jsonBytes = (case cj_MarshalIndent J c of Inl _ \<Rightarrow> [] | Inr b \<Rightarrow> b) in SaveFileSafe e path jsonBytes 0x1b0 fs)"

definition ReadConfig :: "config_json \<Rightarrow> os_env \<Rightarrow> fsys \<Rightarrow> string \<Rightarrow> go_err + sm_config option" where
  "ReadConfig J e fs path = rbind (os_ReadFile e fs path) (cj_Unmarshal J)"

text \<open>Reading a configuration that was written decodes exactly the bytes that its encoding gave, and no other file
  changes.  One that JSON cannot represent is written without an error, but as an empty file: the earlier
  configuration is lost.\<close>

lemma written_config:
  assumes "os_read_err e path = None" and "WriteConfig J e c path fs = (None, fs')"
  shows "ReadConfig J e fs' path = cj_Unmarshal J (case cj_MarshalIndent J c of Inl _ \<Rightarrow> [] | Inr b \<Rightarrow> b)"
    and "q \<noteq> path \<Longrightarrow> fs' q = fs q"
proof -
  obtain i where "path \<noteq> []" "fs' = fs(path \<mapsto> i)"
    "fi_Kind i = RegularFile (case cj_MarshalIndent J c of Inl _ \<Rightarrow> [] | Inr b \<Rightarrow> b)"
    using SaveFileSafe_None assms(2) unfolding WriteConfig_def Let_def by blast
  then show "ReadConfig J e fs' path = cj_Unmarshal J (case cj_MarshalIndent J c of Inl _ \<Rightarrow> [] | Inr b \<Rightarrow> b)"
    and "q \<noteq> path \<Longrightarrow> fs' q = fs q"
    using assms(1) by (auto simp: ReadConfig_def os_ReadFile_def split: sum.splits)
qed

section \<open>Local sockets\<close>

text \<open>\<open>net.Listen\<close> and \<open>os.Chmod\<close> are a parameter: what they answer and leave.\<close>

record 'l sock_api =
  so_Listen :: "string \<Rightarrow> fsys \<Rightarrow> (go_err + 'l) \<times> fsys"
  so_Chmod :: "string \<Rightarrow> nat \<Rightarrow> fsys \<Rightarrow> go_err option \<times> fsys"

definition filepath_Dir :: "string \<Rightarrow> string" where
  "filepath_Dir p = Clean (rev (dropWhile (\<lambda>c. c \<noteq> CHR ''/'') (rev p)))"

definition ipc_Listen :: "'l sock_api \<Rightarrow> os_env \<Rightarrow> string \<Rightarrow> fsys \<Rightarrow> (go_err + 'l) \<times> fsys" where
  "ipc_Listen B e path fs =
     (case CreateDirSafe e (filepath_Dir path) 0x1e9 fs of
        (Some err, fs1) \<Rightarrow> (Inl err, fs1)
      | (None, fs1) \<Rightarrow>
     (case os_Remove e path fs1 of
        (Some removeErr, fs2) \<Rightarrow> (Inl removeErr, fs2)
      | (None, fs2) \<Rightarrow>
     (case so_Listen B path fs2 of
        (Inl err, fs3) \<Rightarrow> (Inl err, fs3)
      | (Inr lis, fs3) \<Rightarrow>
     (case so_Chmod B path 0x180 fs3 of
        (Some chmodErr, fs4) \<Rightarrow> (Inl chmodErr, fs4)
      | (None, fs4) \<Rightarrow> (Inr lis, fs4)))))"

lemma Listen_fresh:
  assumes "calm e" and "own_dirs e fs" and "fs path = None" and "path \<notin> set (ancestors (filepath_Dir path))"
  shows "\<exists>fs'. ipc_Listen B e path fs = (Inl ENOENT, fs') \<and> own_dirs e fs' \<and> fs' path = None"
proof -
  have "filepath_Dir path \<noteq> ''''" by (simp add: filepath_Dir_def)
  then obtain fs1 where fs1: "CreateDirSafe e (filepath_Dir path) 0x1e9 fs = (None, fs1)" "own_dirs e fs1"
    "dom fs1 \<subseteq> set (ancestors (filepath_Dir path)) \<union> dom fs"
    using CreateDirSafe_own [OF assms(1,2)] by metis
  then have "fs1 path = None" using assms(3,4) by blast
  then show ?thesis using fs1(1,2) by (simp add: ipc_Listen_def os_Remove_def calmD(6) [OF assms(1)])
qed

text \<open>A socket can only replace a file: on a path where there is nothing, \<open>Listen\<close> stops at the error of
  \<open>os.Remove\<close>, and so does every later attempt, although it makes the directory for the socket; a listener is only
  returned where something was there to remove.\<close>

theorem ipc_never_starts_fresh:
  assumes "calm e" and "own_dirs e fs" and "fs path = None" and "path \<notin> set (ancestors (filepath_Dir path))"
  shows "fst (ipc_Listen B e path (((\<lambda>fs. snd (ipc_Listen B e path fs)) ^^ n) fs)) = Inl ENOENT \<and>
    (\<forall>g. fst (ipc_Listen B e path g) = Inr l \<longrightarrow> (\<exists>g1 i. CreateDirSafe e (filepath_Dir path) 0x1e9 g = (None, g1) \<and> g1 path = Some i))"
proof -
  define again where "again = (\<lambda>n. ((\<lambda>fs. snd (ipc_Listen B e path fs)) ^^ n) fs)"
  have "own_dirs e (again n) \<and> again n path = None"
  proof (induction n)
    case (Suc n)
    then obtain fs' where "ipc_Listen B e path (again n) = (Inl ENOENT, fs')" "own_dirs e fs'" "fs' path = None"
      using Listen_fresh [OF assms(1) _ _ assms(4)] by blast
    then show ?case by (simp add: again_def)
  qed (use assms in \<open>simp add: again_def\<close>)
  then obtain fs' where "ipc_Listen B e path (again n) = (Inl ENOENT, fs')" using Listen_fresh [OF assms(1) _ _ assms(4)] by blast
  then have "fst (ipc_Listen B e path (((\<lambda>fs. snd (ipc_Listen B e path fs)) ^^ n) fs)) = Inl ENOENT" by (simp add: again_def)
  moreover have "\<exists>g1 i. CreateDirSafe e (filepath_Dir path) 0x1e9 g = (None, g1) \<and> g1 path = Some i"
    if "fst (ipc_Listen B e path g) = Inr l" for g
    using that by (auto simp: ipc_Listen_def os_Remove_def split: prod.splits option.splits if_splits)
  ultimately show ?thesis by blast
qed

definition toy_sock :: "unit sock_api" where
  "toy_sock = \<lparr>so_Listen = (\<lambda>p fs. (Inr (), fs)), so_Chmod = (\<lambda>p m fs. (None, fs))\<rparr>"

theorem ipc_never_starts_fresh_witness:
  "fst (ipc_Listen toy_sock calm_env ''d/s'' (snd (ipc_Listen toy_sock calm_env ''d/s'' Map.empty))) = Inl ENOENT \<and>
   fst (ipc_Listen toy_sock calm_env ''s'' [''.'' \<mapsto> \<lparr>fi_Kind = Directory, fi_Uid = 1000, fi_Gid = 100, fi_Perm = 0\<rparr>,
      ''s'' \<mapsto> \<lparr>fi_Kind = RegularFile [1], fi_Uid = 1000, fi_Gid = 100, fi_Perm = 0\<rparr>]) = Inr ()"
proof
  have "''d/s'' \<notin> set (ancestors (filepath_Dir ''d/s''))" by code_simp
  from ipc_never_starts_fresh [OF calm_env own_dirs_empty _ this, of toy_sock 1]
  show "fst (ipc_Listen toy_sock calm_env ''d/s'' (snd (ipc_Listen toy_sock calm_env ''d/s'' Map.empty))) = Inl ENOENT" by simp
  have "filepath_Dir ''s'' = ''.''" by code_simp
  then show "fst (ipc_Listen toy_sock calm_env ''s'' [''.'' \<mapsto> \<lparr>fi_Kind = Directory, fi_Uid = 1000, fi_Gid = 100, fi_Perm = 0\<rparr>,
      ''s'' \<mapsto> \<lparr>fi_Kind = RegularFile [1], fi_Uid = 1000, fi_Gid = 100, fi_Perm = 0\<rparr>]) = Inr ()"
    by (simp add: ipc_Listen_def toy_sock_def CreateDirSafe_def os_Stat_def calm_env_def DirectoryExists_def IsDir_def
        stat_info_def verifyFileOwnerAndPermissions_def os_Remove_def)
qed

end
