(* ===== verification/Json_Number.thy ===== *)
theory Json_Number
  imports Complex_Main "HOL-Library.Log_Nat" Crypto
begin

text \<open>
  Numbers in JSON documents: \<open>JSONNumber\<close>, \<open>ConvertUnmarshalledUint\<close> and \<open>roundFloat\<close> of
  \<open>core/helper/common/common.go\<close>.  A JSON number is decoded to a 64-bit float before it becomes an unsigned
  integer, so the float and its rounding are modelled exactly.
\<close>

section \<open>64-bit floats\<close>

text \<open>A finite float by its sign and its magnitude; JSON has no other.  The magnitude is a 53-bit integer times a
  power of two.\<close>

record float64 =
  fl_Neg :: bool
  fl_Mag :: rat

definition representable :: "rat \<Rightarrow> bool" where
  "representable m \<longleftrightarrow> (\<exists>(a::nat) e. a < 2 ^ 53 \<and> (m = of_nat a * 2 ^ e \<or> m = of_nat a / 2 ^ e))"

text \<open>Rounding to the nearest float, to even on a tie, for a number that is at least one half: with
  \<open>2 ^ (f - 2) \<le> q < 2 ^ (f - 1)\<close> the unit in the last place is \<open>2 ^ f / 2 ^ 54\<close>.\<close>

definition round_even :: "rat \<Rightarrow> int" where
  "round_even x = (let n = \<lfloor>x\<rfloor>; d = x - of_int n in if d < 1 / 2 \<or> d = 1 / 2 \<and> even n then n else n + 1)"

definition nearest :: "rat \<Rightarrow> rat" where
  "nearest q = (let f = floorlog 2 (nat \<lfloor>2 * q\<rfloor>) in of_int (round_even (q * 2 ^ 54 / 2 ^ f)) * 2 ^ f / 2 ^ 54)"

text \<open>\<open>int64(x)\<close> cuts the fraction off; what it gives out of range is up to the implementation.\<close>

definition int64_of :: "(float64 \<Rightarrow> int64) \<Rightarrow> float64 \<Rightarrow> int64" where
  "int64_of wild x =
     (let n = \<lfloor>fl_Mag x\<rfloor> in
      if fl_Neg x \<and> n \<le> 2 ^ 63 then - of_int n
      else if \<not> fl_Neg x \<and> n < 2 ^ 63 then of_int n
      else wild x)"

text \<open>\<open>num + math.Copysign(0.5, num)\<close> has the sign of \<open>num\<close>.\<close>

definition roundFloat :: "(float64 \<Rightarrow> int64) \<Rightarrow> float64 \<Rightarrow> int64" where
  "roundFloat wild num = int64_of wild \<lparr>fl_Neg = fl_Neg num, fl_Mag = nearest (fl_Mag num + 1 / 2)\<rparr>"

section \<open>Unsigned integers from JSON\<close>

datatype raw_value = RawFloat float64 | RawString string | RawOther

text \<open>The conversion of a signed to an unsigned integer keeps the bits.\<close>

definition ConvertUnmarshalledUint :: "(float64 \<Rightarrow> int64) \<Rightarrow> raw_value \<Rightarrow> go_err + u64" where
  "ConvertUnmarshalledUint wild x = (case x of
     RawFloat tx \<Rightarrow> Inr (roundFloat wild tx)
   | RawString tx \<Rightarrow> (case ParseUint64orHex (Some tx) of (v, None) \<Rightarrow> Inr v | (_, Some err) \<Rightarrow> Inl err)
   | RawOther \<Rightarrow> Inl (GoErr ''unsupported type for unmarshalled integer''))"

record json_number =
  jn_Value :: u64

definition jn_MarshalJSON :: "json_number \<Rightarrow> go_err + bytes" where
  "jn_MarshalJSON d = Inr (text_bytes (CHR 0x22 # EncodeUint64 (jn_Value d) @ [CHR 0x22]))"

definition jn_UnmarshalJSON ::
    "(bytes \<Rightarrow> go_err + raw_value) \<Rightarrow> (float64 \<Rightarrow> int64) \<Rightarrow> bytes \<Rightarrow> json_number \<Rightarrow> go_err option \<times> json_number" where
  "jn_UnmarshalJSON unmarshal wild data d =
     (case unmarshal data of
        Inl err \<Rightarrow> (Some err, d)
      | Inr rawValue \<Rightarrow>
     (case ConvertUnmarshalledUint wild rawValue of
        Inl err \<Rightarrow> (Some err, d)
      | Inr val \<Rightarrow>
         if val < 0 then (Some (GoErr ''must be positive value''), d)
         else (None, d\<lparr>jn_Value := val\<rparr>)))"

section \<open>Rounding\<close>

lemma round_even_of_int [simp]: "round_even (of_int n) = n"
  by (simp add: round_even_def)

lemma round_even_half: "round_even (of_nat n + 1 / 2) = int (if even n then n else n + 1)"
proof -
  have "\<lfloor>(of_nat n :: rat) + 1 / 2\<rfloor> = int n" by (rule floor_unique) simp_all
  then show ?thesis by (simp add: round_even_def)
qed

lemma round_even_near:
  assumes "0 \<le> d" and "d < 1 / 2"
  shows "round_even (of_nat a + d) = int a"
proof -
  have "\<lfloor>(of_nat a :: rat) + d\<rfloor> = int a" using assms by (intro floor_unique) auto
  then show ?thesis using assms by (simp add: round_even_def)
qed

lemma double_half: "nat \<lfloor>2 * ((of_nat n :: rat) + 1 / 2)\<rfloor> = 2 * n + 1"
proof -
  have "2 * ((of_nat n :: rat) + 1 / 2) = of_int (int (2 * n + 1))" by simp
  then show ?thesis by (metis floor_of_int nat_int)
qed

lemma floorlog_eq:
  assumes "2 ^ k \<le> n" and "n < 2 ^ Suc k"
  shows "floorlog 2 n = Suc k"
proof -
  have pos: "0 < n" using assms(1) by (metis gr_zeroI le_zero_eq power_not_zero zero_neq_numeral)
  note b = floorlog_bounds [OF pos, of 2]
  have "2 ^ k < (2::nat) ^ floorlog 2 n" "(2::nat) ^ (floorlog 2 n - 1) < 2 ^ Suc k"
    using b assms by (meson le_less_trans one_less_numeral_iff semiring_norm(76))+
  then have "k < floorlog 2 n" "floorlog 2 n - 1 < Suc k" by (simp_all only: power_strict_increasing_iff one_less_numeral_iff
        semiring_norm(76) power_less_imp_less_exp)
  then show ?thesis by simp
qed

lemma nearest_half:
  "nearest (of_nat n + 1 / 2) = of_int (round_even ((of_nat n + 1 / 2) * 2 ^ 54 / 2 ^ floorlog 2 (2 * n + 1))) *
     2 ^ floorlog 2 (2 * n + 1) / 2 ^ 54"
  unfolding nearest_def double_half Let_def ..

text \<open>Below \<open>2 ^ 52\<close> the half is kept; from there to \<open>2 ^ 53\<close> it is a tie; above it is lost.\<close>

lemma nearest_small:
  assumes "n < 2 ^ 52"
  shows "nearest (of_nat n + 1 / 2) = of_nat n + 1 / 2"
proof -
  define f where "f = floorlog 2 (2 * n + 1)"
  have "2 * n + 1 < 2 ^ 53" using assms by simp
  moreover have "2 ^ (f - 1) \<le> 2 * n + 1" using floorlog_bounds [of "2 * n + 1" 2] by (simp add: f_def)
  ultimately have "(2::nat) ^ (f - 1) < 2 ^ 53" by (rule le_less_trans [rotated])
  then have "f - 1 < 53" by (rule power_less_imp_less_exp [rotated]) simp
  then have f: "f \<le> 53" by simp
  then obtain g where g: "53 = f + g" using le_Suc_ex by blast
  have "(2::rat) ^ 54 = 2 ^ Suc (f + g)" by (subst g [symmetric]) simp
  then have p: "(2::rat) ^ 54 = 2 * 2 ^ f * 2 ^ g" by (simp only: power_Suc power_add mult.assoc)
  have "((of_nat n :: rat) + 1 / 2) * 2 ^ 54 / 2 ^ f = of_int (int (2 * n + 1) * 2 ^ g)"
    unfolding p by (simp add: field_simps)
  then have "nearest (of_nat n + 1 / 2) = of_int (int (2 * n + 1) * 2 ^ g) * 2 ^ f / 2 ^ 54"
    unfolding nearest_half f_def [symmetric] by (simp only: round_even_of_int)
  also have "\<dots> = of_nat n + 1 / 2" unfolding p by (simp add: field_simps)
  finally show ?thesis .
qed

lemma nearest_tie:
  assumes "2 ^ 52 \<le> n" and "n < 2 ^ 53"
  shows "nearest (of_nat n + 1 / 2) = of_nat (if even n then n else n + 1)"
proof -
  have f: "floorlog 2 (2 * n + 1) = 54" using floorlog_eq [of 53 "2 * n + 1"] assms by simp
  have "((of_nat n :: rat) + 1 / 2) * 2 ^ 54 / 2 ^ 54 = of_nat n + 1 / 2" by simp
  then show ?thesis unfolding nearest_half f by (simp only: round_even_half) simp
qed

lemma nearest_large:
  assumes "2 ^ 52 \<le> a" and "a < 2 ^ 53" and "0 < e"
  shows "nearest (of_nat (a * 2 ^ e) + 1 / 2) = of_nat (a * 2 ^ e)"
proof -
  obtain p :: nat where p: "p = 2 ^ e" by blast
  have "2 \<le> p" using assms(3) by (cases e) (simp_all add: p)
  moreover obtain q where q: "q = a * p" by blast
  moreover have "2 ^ 52 * p \<le> q" "q + p \<le> 2 ^ 53 * p"
    using mult_right_mono [of "2 ^ 52" a p] mult_right_mono [of "a + 1" "2 ^ 53" p] assms(1,2) by (simp_all add: q)
  ultimately have "2 ^ (53 + e) \<le> 2 * (a * p) + 1" "2 * (a * p) + 1 < 2 ^ Suc (53 + e)"
    unfolding power_add power_Suc p [symmetric] q [symmetric] by simp_all
  then have f: "floorlog 2 (2 * (a * 2 ^ e) + 1) = 54 + e" using floorlog_eq [of "53 + e"] by (simp add: p)
  have "((of_nat (a * 2 ^ e) :: rat) + 1 / 2) * 2 ^ 54 / 2 ^ (54 + e) = of_nat a + 1 / (2 * 2 ^ e)"
    by (simp add: field_simps power_add)
  moreover have "(1 :: rat) / (2 * 2 ^ e) < 1 / 2" using assms(3) by (simp add: field_simps)
  ultimately have r: "round_even ((of_nat (a * 2 ^ e) + 1 / 2) * 2 ^ 54 / 2 ^ (54 + e)) = int a"
    using round_even_near [of "1 / (2 * 2 ^ e)" a] by simp
  show ?thesis unfolding nearest_half f r by (simp add: power_add)
qed

lemma representable_nat: "n < 2 ^ 53 \<Longrightarrow> representable (of_nat n)"
  unfolding representable_def by (intro exI [of _ n] exI [of _ 0]) simp

lemma representable_shift: "a < 2 ^ 53 \<Longrightarrow> representable (of_nat (a * 2 ^ e))"
  unfolding representable_def by (intro exI [of _ a] exI [of _ e]) simp

lemma round_whole:
  assumes "fl_Mag x = of_nat n" and "nearest (of_nat n + 1 / 2) = of_nat m + d" and "0 \<le> d" and "d < 1"
    and "int m < 2 ^ 63"
  shows "roundFloat wild x = (if fl_Neg x then - of_nat m else of_nat m)"
proof -
  have "\<lfloor>(of_nat m :: rat) + d\<rfloor> = int m" using assms(3,4) by (intro floor_unique) auto
  then show ?thesis using assms(1,2,5) by (simp add: roundFloat_def int64_of_def)
qed

lemma round_exact:
  assumes "fl_Mag x = of_nat n"
  shows "n < 2 ^ 52 \<Longrightarrow> roundFloat wild x = (if fl_Neg x then - of_nat n else of_nat n)"
    and "2 ^ 52 \<le> n \<Longrightarrow> n < 2 ^ 53 \<Longrightarrow> roundFloat wild x =
      (if fl_Neg x then - of_nat (if even n then n else n + 1) else of_nat (if even n then n else n + 1))"
    and "n = a * 2 ^ e \<Longrightarrow> 2 ^ 52 \<le> a \<Longrightarrow> a < 2 ^ 53 \<Longrightarrow> 0 < e \<Longrightarrow> n < 2 ^ 63 \<Longrightarrow>
      roundFloat wild x = (if fl_Neg x then - of_nat n else of_nat n)"
proof -
  show "roundFloat wild x = (if fl_Neg x then - of_nat n else of_nat n)" if "n < 2 ^ 52"
    using round_whole [OF assms nearest_small [OF that]] that by simp
  show "roundFloat wild x =
      (if fl_Neg x then - of_nat (if even n then n else n + 1) else of_nat (if even n then n else n + 1))"
    if "2 ^ 52 \<le> n" "n < 2 ^ 53"
    by (rule round_whole [OF assms, where d = 0]) (use nearest_tie [OF that] that in simp_all)
  show "roundFloat wild x = (if fl_Neg x then - of_nat n else of_nat n)"
    if "n = a * 2 ^ e" "2 ^ 52 \<le> a" "a < 2 ^ 53" "0 < e" "n < 2 ^ 63"
    by (rule round_whole [OF assms, where d = 0]) (use nearest_large [OF that(2-4), folded that(1)] that(5) in simp_all)
qed

section \<open>What a JSON document means\<close>

text \<open>C36. \<open>JSONNumber\<close> reads back what it printed.  Of the whole numbers that other programs print, those below
  \<open>2 ^ 52\<close>, the even ones below \<open>2 ^ 53\<close>, and those from \<open>2 ^ 53\<close> up to but not including \<open>2 ^ 63\<close> that a float holds
  (53 bits times a power of two) are decoded exactly; an odd number between \<open>2 ^ 52\<close> and \<open>2 ^ 53\<close>,
  which a float holds and JavaScript can write, becomes the next even one; and a negative number above \<open>- 2 ^ 52\<close> is not
  refused, as the check for a positive value intends, but wraps around.\<close>

theorem json_numbers_decoded:
  assumes "\<And>w. unmarshal (text_bytes (CHR 0x22 # EncodeUint64 w @ [CHR 0x22])) = Inr (RawString (EncodeUint64 w))"
    and "\<And>neg n. representable (of_nat n) \<Longrightarrow> unmarshal (printed neg n) = Inr (RawFloat \<lparr>fl_Neg = neg, fl_Mag = of_nat n\<rparr>)"
  shows "(\<exists>data. jn_MarshalJSON \<lparr>jn_Value = u\<rparr> = Inr data \<and> jn_UnmarshalJSON unmarshal wild data d = (None, d\<lparr>jn_Value := u\<rparr>)) \<and>
    (n < 2 ^ 53 \<longrightarrow> jn_UnmarshalJSON unmarshal wild (printed False n) d =
       (None, d\<lparr>jn_Value := of_nat (if 2 ^ 52 \<le> n \<and> odd n then n + 1 else n)\<rparr>)) \<and>
    (2 ^ 52 \<le> a \<and> a < 2 ^ 53 \<and> 0 < e \<and> a * 2 ^ e < 2 ^ 63 \<longrightarrow> jn_UnmarshalJSON unmarshal wild (printed False (a * 2 ^ e)) d =
       (None, d\<lparr>jn_Value := of_nat (a * 2 ^ e)\<rparr>)) \<and>
    (0 < n \<and> n < 2 ^ 52 \<longrightarrow> jn_UnmarshalJSON unmarshal wild (printed True n) d = (None, d\<lparr>jn_Value := of_nat (2 ^ 64 - n)\<rparr>))"
proof (intro conjI impI)
  have "ConvertUnmarshalledUint wild (RawString (EncodeUint64 u)) = Inr u"
    using ParseUint_hex [of u] by (simp add: ConvertUnmarshalledUint_def ParseUint64orHex_def split_base_def HasPrefix_def
        EncodeUint64_def AppendUint16_def)
  then show "\<exists>data. jn_MarshalJSON \<lparr>jn_Value = u\<rparr> = Inr data \<and> jn_UnmarshalJSON unmarshal wild data d = (None, d\<lparr>jn_Value := u\<rparr>)"
    using assms(1) by (simp add: jn_MarshalJSON_def jn_UnmarshalJSON_def)
  have num: "jn_UnmarshalJSON unmarshal wild (printed neg k) d = (None, d\<lparr>jn_Value := roundFloat wild \<lparr>fl_Neg = neg, fl_Mag = of_nat k\<rparr>\<rparr>)"
    if "representable (of_nat k)" for neg k
    using assms(2) [OF that] by (simp add: jn_UnmarshalJSON_def ConvertUnmarshalledUint_def)
  show "jn_UnmarshalJSON unmarshal wild (printed False n) d = (None, d\<lparr>jn_Value := of_nat (if 2 ^ 52 \<le> n \<and> odd n then n + 1 else n)\<rparr>)" if "n < 2 ^ 53"
    using that by (cases "n < 2 ^ 52") (simp_all add: num representable_nat round_exact(1,2))
  show "jn_UnmarshalJSON unmarshal wild (printed False (a * 2 ^ e)) d = (None, d\<lparr>jn_Value := of_nat (a * 2 ^ e)\<rparr>)"
    if "2 ^ 52 \<le> a \<and> a < 2 ^ 53 \<and> 0 < e \<and> a * 2 ^ e < 2 ^ 63"
    using that by (simp add: num representable_shift round_exact(3) [OF _ refl] del: of_nat_mult)
  have "(of_nat (2 ^ 64 - k) :: u64) = - of_nat k" if "k < 2 ^ 64" for k
    using that by (simp add: of_nat_diff)
  then show "jn_UnmarshalJSON unmarshal wild (printed True n) d = (None, d\<lparr>jn_Value := of_nat (2 ^ 64 - n)\<rparr>)" if "0 < n \<and> n < 2 ^ 52"
    using that by (simp add: num representable_nat round_exact(1))
qed

definition toy_parse :: "bytes \<Rightarrow> go_err + raw_value" where
  "toy_parse b = (if b = [] then Inl (GoErr ''unexpected end of JSON input'')
     else if hd b = 0x22 then Inr (RawString (map (\<lambda>w. char_of (unat w)) (butlast (tl b))))
     else Inr (RawFloat \<lparr>fl_Neg = (hd b = 0x2d), fl_Mag = of_nat (length (tl b))\<rparr>))"

definition toy_print :: "bool \<Rightarrow> nat \<Rightarrow> bytes" where
  "toy_print neg n = (if neg then 0x2d else 0x2b) # replicate n 0x31"

lemma toy_parse_string: "toy_parse (text_bytes (CHR 0x22 # s @ [CHR 0x22])) = Inr (RawString s)"
proof -
  have "char_of (unat (of_nat (of_char c) :: byte)) = c" for c
  proof -
    have "(of_char c :: nat) < 256" by (rule nat_of_char_less_256)
    then have "unat (of_nat (of_char c) :: byte) = of_char c" by (simp add: unat_of_nat)
    then show ?thesis by simp
  qed
  then have "map (\<lambda>w. char_of (unat w)) (text_bytes s) = s" by (simp add: text_bytes_def map_idI)
  then show ?thesis by (simp add: toy_parse_def text_bytes_def butlast_append)
qed

theorem json_numbers_decoded_witness:
  "jn_UnmarshalJSON toy_parse (\<lambda>_. 0) (toy_print False 4503599627370497) \<lparr>jn_Value = 0\<rparr> =
     (None, \<lparr>jn_Value = 4503599627370498\<rparr>) \<and>
   jn_UnmarshalJSON toy_parse (\<lambda>_. 0) (toy_print True 1) \<lparr>jn_Value = 0\<rparr> = (None, \<lparr>jn_Value = 0xffffffffffffffff\<rparr>)"
proof
  have n: "toy_parse (toy_print neg n) = Inr (RawFloat \<lparr>fl_Neg = neg, fl_Mag = of_nat n\<rparr>)" for neg n
    by (simp add: toy_parse_def toy_print_def)
  show "jn_UnmarshalJSON toy_parse (\<lambda>_. 0) (toy_print False 4503599627370497) \<lparr>jn_Value = 0\<rparr> =
      (None, \<lparr>jn_Value = 4503599627370498\<rparr>)"
    using json_numbers_decoded [where unmarshal = toy_parse and printed = toy_print and wild = "\<lambda>_. 0" and n = 4503599627370497 and
        d = "\<lparr>jn_Value = 0\<rparr>", OF toy_parse_string n] by simp
  show "jn_UnmarshalJSON toy_parse (\<lambda>_. 0) (toy_print True 1) \<lparr>jn_Value = 0\<rparr> = (None, \<lparr>jn_Value = 0xffffffffffffffff\<rparr>)"
    using json_numbers_decoded [where unmarshal = toy_parse and printed = toy_print and wild = "\<lambda>_. 0" and n = 1 and
        d = "\<lparr>jn_Value = 0\<rparr>", OF toy_parse_string n] by simp
qed

end
