(* ===== verification/Discovery_Loop.thy ===== *)
theory Discovery_Loop
  imports Net_Props
begin

text \<open>
  The life of the discovery service (\<open>NewDiscoveryService\<close>, \<open>Start\<close>, \<open>Close\<close> and \<open>startDiscovery\<close> of
  \<open>core/network/discovery/discovery.go\<close>): a goroutine that two tickers wake, and the rounds it starts, each a
  goroutine of its own over the state of the server.
\<close>

section \<open>State\<close>

definition peerDiscoveryInterval :: nat where "peerDiscoveryInterval = 5"
definition bootnodeDiscoveryInterval :: nat where "bootnodeDiscoveryInterval = 60"

datatype round = PeerRound | BootnodeRound

text \<open>A ticker holds one tick at most: one that is not taken before the next is dropped.  \<open>ds_now\<close> counts the
  seconds since the tickers were made; \<open>ds_started\<close> lists all rounds that were started, \<open>ds_rounds\<close> those that run,
  and \<open>ds_boot\<close> says for each bootnode round that was started where it is.  The code has none of the lists.\<close>

record 's disc_service =
  ds_srv :: 's
  ds_now :: nat
  ds_peerTick :: bool
  ds_bootTick :: bool
  ds_closed :: bool
  ds_returned :: bool
  ds_started :: "round list"
  ds_rounds :: "round list"
  ds_boot :: "round_pc list"
  ds_crashed :: bool

definition NewDiscoveryService_Start :: "'s \<Rightarrow> 's disc_service" where
  "NewDiscoveryService_Start server = \<lparr>ds_srv = server, ds_now = 0, ds_peerTick = False, ds_bootTick = False,
     ds_closed = False, ds_returned = False, ds_started = [], ds_rounds = [], ds_boot = [], ds_crashed = False\<rparr>"

definition ds_Close :: "'s disc_service \<Rightarrow> go_err + 's disc_service" where
  "ds_Close s = (if ds_closed s then Inl (GoPanic ''close of closed channel'') else Inr (s\<lparr>ds_closed := True\<rparr>))"

section \<open>The loop\<close>

text \<open>The arms of its \<open>select\<close>; \<open>None\<close> when an arm is not ready.\<close>

definition start_round :: "round \<Rightarrow> 's disc_service \<Rightarrow> 's disc_service" where
  "start_round r s = s\<lparr>ds_started := r # ds_started s, ds_rounds := r # ds_rounds s,
     ds_boot := (case r of PeerRound \<Rightarrow> ds_boot s | BootnodeRound \<Rightarrow> ds_boot s @ [RoundStart])\<rparr>"

datatype loop_arm = ArmClose | ArmPeer | ArmBootnode

definition startDiscovery_select :: "loop_arm \<Rightarrow> 's disc_service \<Rightarrow> 's disc_service option" where
  "startDiscovery_select arm s =
     (if ds_returned s then None
      else case arm of
        ArmClose \<Rightarrow> if ds_closed s then Some (s\<lparr>ds_returned := True\<rparr>) else None
      | ArmPeer \<Rightarrow> if ds_peerTick s then Some (start_round PeerRound (s\<lparr>ds_peerTick := False\<rparr>)) else None
      | ArmBootnode \<Rightarrow> if ds_bootTick s then Some (start_round BootnodeRound (s\<lparr>ds_bootTick := False\<rparr>)) else None)"

text \<open>A second passes.  The loop stops its tickers when it returns.\<close>

definition second :: "'s disc_service \<Rightarrow> 's disc_service" where
  "second s =
     (let t = Suc (ds_now s); live = \<not> ds_returned s in
      s\<lparr>ds_now := t, ds_peerTick := ds_peerTick s \<or> live \<and> t mod peerDiscoveryInterval = 0,
        ds_bootTick := ds_bootTick s \<or> live \<and> t mod bootnodeDiscoveryInterval = 0\<rparr>)"

text \<open>A round at a random peer is one step: it changes the server, or ends the process by a panic.  A round at a
  bootnode takes one step of its own at a time, between those of the other rounds.\<close>

definition round_ends :: "'s disc_server \<Rightarrow> 's disc_service \<Rightarrow> 's disc_service option" where
  "round_ends D s =
     (if PeerRound \<notin> set (ds_rounds s) then None
      else case regularPeerDiscovery D (ds_srv s) of
        Inl _ \<Rightarrow> Some (s\<lparr>ds_crashed := True\<rparr>)
      | Inr srv \<Rightarrow> Some (s\<lparr>ds_srv := srv, ds_rounds := remove1 PeerRound (ds_rounds s)\<rparr>))"

definition round_turn :: "'s disc_server \<Rightarrow> nat \<Rightarrow> 's disc_service \<Rightarrow> 's disc_service option" where
  "round_turn D i s =
     (if i \<ge> length (ds_boot s) \<or> ds_boot s ! i = RoundEnd then None
      else case bootnodePeerDiscovery D (ds_boot s ! i) (ds_srv s) of
        (Inl _, srv) \<Rightarrow> Some (s\<lparr>ds_srv := srv, ds_crashed := True\<rparr>)
      | (Inr pc, srv) \<Rightarrow> Some (s\<lparr>ds_srv := srv, ds_boot := (ds_boot s)[i := pc],
           ds_rounds := (if pc = RoundEnd then remove1 BootnodeRound (ds_rounds s) else ds_rounds s)\<rparr>))"

text \<open>\<open>env\<close> is what the rest of the node does to the server.\<close>

inductive disc_step :: "'s disc_server \<Rightarrow> ('s \<Rightarrow> 's \<Rightarrow> bool) \<Rightarrow> 's disc_service \<Rightarrow> 's disc_service \<Rightarrow> bool"
  for D :: "'s disc_server" and env :: "'s \<Rightarrow> 's \<Rightarrow> bool" where
  ds_selects: "startDiscovery_select arm s = Some s' \<Longrightarrow> \<not> ds_crashed s \<Longrightarrow> disc_step D env s s'"
| ds_turns: "round_turn D i s = Some s' \<Longrightarrow> \<not> ds_crashed s \<Longrightarrow> disc_step D env s s'"
| ds_ends: "round_ends D s = Some s' \<Longrightarrow> \<not> ds_crashed s \<Longrightarrow> disc_step D env s s'"
| ds_time: "\<not> ds_crashed s \<Longrightarrow> disc_step D env s (second s)"
| ds_closes: "ds_Close s = Inr s' \<Longrightarrow> \<not> ds_crashed s \<Longrightarrow> disc_step D env s s'"
| ds_env: "env (ds_srv s) srv \<Longrightarrow> \<not> ds_crashed s \<Longrightarrow> disc_step D env s (s\<lparr>ds_srv := srv\<rparr>)"

inductive disc_reach :: "'s disc_server \<Rightarrow> ('s \<Rightarrow> 's \<Rightarrow> bool) \<Rightarrow> 's disc_service \<Rightarrow> bool"
  for D :: "'s disc_server" and env :: "'s \<Rightarrow> 's \<Rightarrow> bool" where
  ds_start: "disc_reach D env (NewDiscoveryService_Start srv)"
| ds_next: "disc_reach D env s \<Longrightarrow> disc_step D env s s' \<Longrightarrow> disc_reach D env s'"

section \<open>Rates\<close>

definition ticks_ok :: "'s disc_service \<Rightarrow> bool" where
  "ticks_ok s \<longleftrightarrow>
     count_list (ds_started s) PeerRound + (if ds_peerTick s then 1 else 0) \<le> ds_now s div peerDiscoveryInterval \<and>
     count_list (ds_started s) BootnodeRound + (if ds_bootTick s then 1 else 0) \<le> ds_now s div bootnodeDiscoveryInterval \<and>
     mset (ds_rounds s) \<subseteq># mset (ds_started s)"

lemma div_Suc_tick: "0 < k \<Longrightarrow> Suc n div k = n div k + (if Suc n mod k = 0 then 1 else 0)"
  by (simp add: div_Suc)

lemma ticks_second:
  assumes "ticks_ok s"
  shows "ticks_ok (second s)"
  using assms div_Suc_tick [of peerDiscoveryInterval "ds_now s"] div_Suc_tick [of bootnodeDiscoveryInterval "ds_now s"]
  by (auto simp: ticks_ok_def second_def Let_def peerDiscoveryInterval_def bootnodeDiscoveryInterval_def split: if_splits)

lemma round_ends_cases:
  assumes "round_ends D s = Some s'"
  obtains "s' = s\<lparr>ds_crashed := True\<rparr>"
  | srv where "regularPeerDiscovery D (ds_srv s) = Inr srv"
      "s' = s\<lparr>ds_srv := srv, ds_rounds := remove1 PeerRound (ds_rounds s)\<rparr>"
  using assms by (auto simp: round_ends_def split: if_splits option.splits sum.splits)

lemma round_turn_cases:
  assumes "round_turn D i s = Some s'"
  obtains (panics) e srv where "i < length (ds_boot s)" "bootnodePeerDiscovery D (ds_boot s ! i) (ds_srv s) = (Inl e, srv)"
      "s' = s\<lparr>ds_srv := srv, ds_crashed := True\<rparr>"
  | (turns) pc srv where "i < length (ds_boot s)" "bootnodePeerDiscovery D (ds_boot s ! i) (ds_srv s) = (Inr pc, srv)"
      "s' = s\<lparr>ds_srv := srv, ds_boot := (ds_boot s)[i := pc],
         ds_rounds := (if pc = RoundEnd then remove1 BootnodeRound (ds_rounds s) else ds_rounds s)\<rparr>"
  using assms by (auto simp: round_turn_def not_le split: if_splits prod.splits sum.splits)

lemma ticks_remove: "ticks_ok s \<Longrightarrow> mset (ds_rounds s) - {#r#} \<subseteq># mset (ds_started s)"
  using subset_mset.order_trans [OF diff_subset_eq_self] by (auto simp: ticks_ok_def)

lemma ticks_step: "disc_step D env s s' \<Longrightarrow> ticks_ok s \<Longrightarrow> ticks_ok s'"
proof (induction rule: disc_step.induct)
  case (ds_selects arm s s')
  then show ?case
    by (cases arm) (auto simp: startDiscovery_select_def start_round_def ticks_ok_def split: if_splits)
next
  case (ds_turns i s s')
  from ds_turns(1) show ?case
    by (cases rule: round_turn_cases) (use ds_turns(3) ticks_remove in \<open>auto simp: ticks_ok_def\<close>)
next
  case (ds_ends s s')
  from ds_ends(1) show ?case
    by (cases rule: round_ends_cases) (use ds_ends(3) ticks_remove in \<open>auto simp: ticks_ok_def\<close>)
next
  case (ds_closes s s')
  then show ?case by (auto simp: ds_Close_def ticks_ok_def split: if_splits)
next
  case (ds_env s srv)
  then show ?case by (simp add: ticks_ok_def)
qed (rule ticks_second)

lemma ticks_reach: "disc_reach D env s \<Longrightarrow> ticks_ok s"
proof (induction rule: disc_reach.induct)
  case (ds_start srv)
  then show ?case by (simp add: NewDiscoveryService_Start_def ticks_ok_def)
qed (rule ticks_step)

section \<open>The end of the loop\<close>

fun select_run :: "loop_arm list \<Rightarrow> 's disc_service \<Rightarrow> 's disc_service option" where
  "select_run [] s = Some s"
| "select_run (arm # arms) s = (case startDiscovery_select arm s of None \<Rightarrow> None | Some s' \<Rightarrow> select_run arms s')"

definition arms_left :: "'s disc_service \<Rightarrow> nat" where
  "arms_left s = (if ds_returned s then 0 else
     (if ds_peerTick s then 1 else 0) + (if ds_bootTick s then 1 else 0) + (if ds_closed s then 1 else 0))"

lemma select_left:
  assumes "startDiscovery_select arm s = Some s'"
  shows "arms_left s' < arms_left s" and "ds_closed s' = ds_closed s"
  using assms by (cases arm; auto simp: startDiscovery_select_def start_round_def arms_left_def split: if_splits)+

lemma select_run_left:
  "select_run arms s = Some s' \<Longrightarrow> length arms \<le> arms_left s \<and> ds_closed s' = ds_closed s"
proof (induction arms arbitrary: s)
  case (Cons arm arms)
  then obtain s1 where "startDiscovery_select arm s = Some s1" "select_run arms s1 = Some s'" by (auto split: option.splits)
  then show ?case using Cons.IH [of s1] select_left [of arm s s1] by auto
qed simp

section \<open>Overlapping rounds\<close>

lemma sec:
  "ds_crashed (second s) = ds_crashed s" "ds_returned (second s) = ds_returned s" "ds_closed (second s) = ds_closed s"
  "ds_rounds (second s) = ds_rounds s" "ds_now (second s) = Suc (ds_now s)"
  by (simp_all add: second_def Let_def)

lemma next_round:
  assumes "disc_reach D env s" and "\<not> ds_crashed s" and "\<not> ds_returned s" and "\<not> ds_closed s" and "5 dvd ds_now s"
  shows "\<exists>s'. disc_reach D env s' \<and> \<not> ds_crashed s' \<and> \<not> ds_returned s' \<and> \<not> ds_closed s' \<and> 5 dvd ds_now s' \<and>
    ds_rounds s' = PeerRound # ds_rounds s"
proof -
  define t where "t = second (second (second (second (second s))))"
  have r: "disc_reach D env t"
    unfolding t_def using assms(1,2) by (intro disc_reach.ds_next [OF _ disc_step.ds_time]) (simp_all add: sec)
  have now: "ds_now t = ds_now s + 5" by (simp add: t_def sec)
  then have "ds_peerTick t"
    using assms(3,5) by (simp add: t_def second_def Let_def peerDiscoveryInterval_def dvd_eq_mod_eq_0)
  then have sel: "startDiscovery_select ArmPeer t = Some (start_round PeerRound (t\<lparr>ds_peerTick := False\<rparr>))"
    using assms(3) by (simp add: startDiscovery_select_def t_def sec)
  have "disc_reach D env (start_round PeerRound (t\<lparr>ds_peerTick := False\<rparr>))"
    by (rule disc_reach.ds_next [OF r disc_step.ds_selects [OF sel]]) (use assms(2) in \<open>simp add: t_def sec\<close>)
  moreover have tf: "ds_crashed t = ds_crashed s" "ds_returned t = ds_returned s" "ds_closed t = ds_closed s" "ds_rounds t = ds_rounds s"
    by (simp_all add: t_def sec)
  moreover have "5 dvd ds_now t" using assms(5) by (simp add: now)
  ultimately show ?thesis
    using assms(2-4) by (intro exI [of _ "start_round PeerRound (t\<lparr>ds_peerTick := False\<rparr>)"]) (simp add: start_round_def tf)
qed

lemma rounds_pile_up:
  "\<exists>s. disc_reach D env s \<and> \<not> ds_crashed s \<and> \<not> ds_returned s \<and> \<not> ds_closed s \<and> 5 dvd ds_now s \<and>
    ds_rounds s = replicate n PeerRound"
proof (induction n)
  case 0
  have "disc_reach D env (NewDiscoveryService_Start undefined)" by (rule disc_reach.ds_start)
  then show ?case by (intro exI [of _ "NewDiscoveryService_Start undefined"]) (simp add: NewDiscoveryService_Start_def)
next
  case (Suc n)
  then show ?case using next_round [of D env] by fastforce
qed

text \<open>C37. The discovery loop starts at most one round per tick: one in five seconds at a random peer and one in sixty
  at a bootnode.  While no time passes it makes at most three steps, and after \<open>Close\<close> it has then returned; a second
  \<open>Close\<close> panics.  But nothing waits for a round: for every number of rounds there is a run in which so many of them
  overlap, and go on after the loop has returned.\<close>

theorem discovery_loop_ends:
  assumes "disc_reach D env s"
  shows "count_list (ds_started s) PeerRound \<le> ds_now s div 5 \<and> count_list (ds_started s) BootnodeRound \<le> ds_now s div 60 \<and>
    (\<forall>arms s'. select_run arms s = Some s' \<longrightarrow> length arms \<le> 3 \<and>
       (ds_closed s \<and> (\<forall>arm. startDiscovery_select arm s' = None) \<longrightarrow> ds_returned s')) \<and>
    (ds_closed s \<longrightarrow> ds_Close s = Inl (GoPanic ''close of closed channel'')) \<and>
    (\<exists>s'. disc_reach D env s' \<and> ds_returned s' \<and> ds_rounds s' = replicate n PeerRound)"
proof (intro conjI allI impI)
  show "count_list (ds_started s) PeerRound \<le> ds_now s div 5" "count_list (ds_started s) BootnodeRound \<le> ds_now s div 60"
    using ticks_reach [OF assms]
    by (auto simp: ticks_ok_def peerDiscoveryInterval_def bootnodeDiscoveryInterval_def split: if_splits)
next
  fix arms s' assume run: "select_run arms s = Some s'"
  have "arms_left s \<le> 3" by (simp add: arms_left_def)
  then show "length arms \<le> 3" using select_run_left [OF run] by simp
  assume "ds_closed s \<and> (\<forall>arm. startDiscovery_select arm s' = None)"
  then have "startDiscovery_select ArmClose s' = None" "ds_closed s'" using select_run_left [OF run] by auto
  then show "ds_returned s'" by (simp add: startDiscovery_select_def split: if_splits)
next
  show "ds_Close s = Inl (GoPanic ''close of closed channel'')" if "ds_closed s" using that by (simp add: ds_Close_def)
next
  obtain t where t: "disc_reach D env t" "\<not> ds_crashed t" "\<not> ds_returned t" "\<not> ds_closed t" "ds_rounds t = replicate n PeerRound"
    using rounds_pile_up [of D env n] by blast
  let ?u = "t\<lparr>ds_closed := True\<rparr>" and ?v = "t\<lparr>ds_closed := True, ds_returned := True\<rparr>"
  have "disc_reach D env ?u"
    by (rule disc_reach.ds_next [OF t(1) disc_step.ds_closes]) (use t(2,4) in \<open>simp_all add: ds_Close_def\<close>)
  then have "disc_reach D env ?v"
    by (rule disc_reach.ds_next [OF _ disc_step.ds_selects [of ArmClose]]) (use t(2,3) in \<open>simp_all add: startDiscovery_select_def\<close>)
  then show "\<exists>s'. disc_reach D env s' \<and> ds_returned s' \<and> ds_rounds s' = replicate n PeerRound"
    using t(5) by (intro exI [of _ ?v]) simp
qed

definition closing_service :: "unit server disc_service" where
  "closing_service = \<lparr>ds_srv = NewServer_state idle_host DefaultConfig ''/disc'' ''/id'' (), ds_now = 5, ds_peerTick = True,
     ds_bootTick = False, ds_closed = True, ds_returned = False, ds_started = [], ds_rounds = [], ds_boot = [], ds_crashed = False\<rparr>"

theorem discovery_loop_ends_witness:
  "ds_Close closing_service = Inl (GoPanic ''close of closed channel'') \<and>
   (\<exists>s'. select_run [ArmPeer, ArmClose] closing_service = Some s' \<and> ds_rounds s' = [PeerRound]) \<and>
   (\<exists>s'. disc_reach (server_disc idle_host) (=) s' \<and> ds_returned s' \<and> ds_rounds s' = [PeerRound, PeerRound])"
proof -
  let ?s0 = "NewDiscoveryService_Start (NewServer_state idle_host DefaultConfig ''/disc'' ''/id'' ())"
  let ?t = "second (second (second (second (second ?s0))))"
  have "disc_reach (server_disc idle_host) (=) ?t"
    by (intro disc_reach.ds_next [OF _ disc_step.ds_time] disc_reach.ds_start)
      (simp_all add: sec NewDiscoveryService_Start_def)
  then have "disc_reach (server_disc idle_host) (=) (?t\<lparr>ds_closed := True\<rparr>)"
    by (rule disc_reach.ds_next [OF _ disc_step.ds_closes]) (simp_all add: ds_Close_def sec NewDiscoveryService_Start_def)
  moreover have "?t\<lparr>ds_closed := True\<rparr> = closing_service"
    by (simp add: closing_service_def NewDiscoveryService_Start_def second_def Let_def peerDiscoveryInterval_def
        bootnodeDiscoveryInterval_def)
  ultimately have "disc_reach (server_disc idle_host) (=) closing_service" by simp
  from discovery_loop_ends [OF this, of 2] have
    "ds_Close closing_service = Inl (GoPanic ''close of closed channel'')"
    "\<exists>s'. disc_reach (server_disc idle_host) (=) s' \<and> ds_returned s' \<and> ds_rounds s' = [PeerRound, PeerRound]"
    by (simp_all add: closing_service_def numeral_2_eq_2)
  then show ?thesis
    by (simp add: closing_service_def startDiscovery_select_def start_round_def)
qed

end
