(* ===== verification/Discovery_Rounds.thy ===== *)
theory Discovery_Rounds
  imports Discovery_Loop
begin

text \<open>
  Rounds of \<open>bootnodePeerDiscovery\<close> (\<open>core/network/discovery/discovery.go\<close>) that overlap.  They meet in the map
  of the temporary dials: a round marks the bootnode it dials and its deferred function takes the mark away; a
  round whose random bootnode is marked draws again at once.
\<close>

section \<open>Marks\<close>

text \<open>How many steps of its own a round makes until its deferred function has run.\<close>

fun round_left :: "round_pc \<Rightarrow> nat" where
  "round_left (RoundDial b t) = 4"
| "round_left (RoundQuery b t) = 3"
| "round_left (RoundAdd b t nodes) = 2"
| "round_left (RoundDeferred b t) = 1"
| "round_left _ = 0"

lemma holds_left: "holds pc = [p] \<Longrightarrow> 0 < round_left pc \<and> round_left pc \<le> 4"
  by (cases pc) (auto split: if_splits)

lemma holds_at_most_one: "holds pc = [] \<or> (\<exists>p. holds pc = [p])"
  by (cases pc) auto

definition marks_held :: "('s \<Rightarrow> peer_id set) \<Rightarrow> 's disc_service \<Rightarrow> bool" where
  "marks_held tmp s \<longleftrightarrow>
     (\<forall>p. p \<in> tmp (ds_srv s) \<longleftrightarrow> (\<exists>i < length (ds_boot s). holds (ds_boot s ! i) = [p])) \<and>
     (\<forall>p i j. i < length (ds_boot s) \<longrightarrow> j < length (ds_boot s) \<longrightarrow>
        holds (ds_boot s ! i) = [p] \<longrightarrow> holds (ds_boot s ! j) = [p] \<longrightarrow> i = j)"

lemma marks_heldD:
  assumes "marks_held tmp s"
  shows "p \<in> tmp (ds_srv s) \<longleftrightarrow> (\<exists>i < length (ds_boot s). holds (ds_boot s ! i) = [p])"
    and "i < length (ds_boot s) \<Longrightarrow> j < length (ds_boot s) \<Longrightarrow>
      holds (ds_boot s ! i) = [p] \<Longrightarrow> holds (ds_boot s ! j) = [p] \<Longrightarrow> i = j"
  using assms unfolding marks_held_def by blast+

context temp_dials
begin

lemma tmp_regularPeerDiscovery:
  assumes "regularPeerDiscovery D s = Inr s'"
  shows "tmp s' = tmp s"
proof -
  have att: "tmp s2 = tmp s1" if "attemptToFindPeers D s1 p = Inr (x, s2)" for x s1 s2 p
    using that tmp_findPeersCall tmp_addPeersToTable
    by (auto simp: attemptToFindPeers_def split: prod.splits sum.splits)
  have rnd: "tmp s1 = tmp s" if "dn_GetRandomPeer D s = (y, s1)" for y s1 using law_frame(8) [of s] that by simp
  show ?thesis using assms att rnd
    by (auto simp: regularPeerDiscovery_def split: if_splits prod.splits option.splits sum.splits)
qed

lemma marks_turn:
  assumes "marks_held tmp s" and "round_turn D i s = Some s'" and "\<not> ds_crashed s'"
  shows "marks_held tmp s'"
  using assms(2)
proof (cases rule: round_turn_cases)
  case (turns pc srv)
  let ?b = "ds_boot s"
  note D = marks_heldD [OF assms(1)]
  consider "tmp srv = tmp (ds_srv s)" "holds pc = holds (?b ! i)"
    | b where "holds (?b ! i) = []" "holds pc = [b]" "b \<notin> tmp (ds_srv s)" "tmp srv = insert b (tmp (ds_srv s))"
    | b where "holds (?b ! i) = [b]" "holds pc = []" "tmp srv = tmp (ds_srv s) - {b}"
    using tmp_round [OF turns(2)] by blast
  then show ?thesis
  proof cases
    case 1
    then show ?thesis using assms(1) turns(1,3)
      by (auto simp: marks_held_def nth_list_update)
  next
    case (2 b)
    have new: "holds (?b[i := pc] ! j) = [p] \<longleftrightarrow> (if j = i then p = b else holds (?b ! j) = [p])"
      if "j < length ?b" for j p using that 2(2) by (auto simp: nth_list_update)
    have "holds (?b ! j) = [p] \<Longrightarrow> j < length ?b \<Longrightarrow> j \<noteq> i \<and> p \<noteq> b" for j p using 2(1,3) D(1) [of b] by auto
    then have "p \<in> tmp srv \<longleftrightarrow> (\<exists>j < length ?b. holds (?b[i := pc] ! j) = [p])" for p
      using new turns(1) unfolding 2(4) D(1) insert_iff by metis
    moreover have "j = k" if "j < length ?b" "k < length ?b" "holds (?b[i := pc] ! j) = [p]" "holds (?b[i := pc] ! k) = [p]" for j k p
      using that new D(2) \<open>\<And>p j. holds (?b ! j) = [p] \<Longrightarrow> j < length ?b \<Longrightarrow> j \<noteq> i \<and> p \<noteq> b\<close> by metis
    ultimately show ?thesis using turns(3) by (simp add: marks_held_def)
  next
    case (3 b)
    have new: "holds (?b[i := pc] ! j) = [p] \<longleftrightarrow> j \<noteq> i \<and> holds (?b ! j) = [p]"
      if "j < length ?b" for j p using that 3(2) by (cases "j = i") simp_all
    have one: "holds (?b ! j) = [p] \<Longrightarrow> j < length ?b \<Longrightarrow> j \<noteq> i \<longleftrightarrow> p \<noteq> b" for j p
      using 3(1) D(2) [of j i b] turns(1) by auto
    then have "p \<in> tmp srv \<longleftrightarrow> (\<exists>j < length ?b. holds (?b[i := pc] ! j) = [p])" for p
      using new unfolding 3(3) Diff_iff D(1) singleton_iff by metis
    moreover have "j = k" if "j < length ?b" "k < length ?b" "holds (?b[i := pc] ! j) = [p]" "holds (?b[i := pc] ! k) = [p]" for j k p
      using that new D(2) by metis
    ultimately show ?thesis using turns(3) by (simp add: marks_held_def)
  qed
qed (use assms(3) in simp)

lemma marks_step:
  assumes "disc_step D env s s'" and "marks_held tmp s \<or> ds_crashed s" and "\<And>t t'. env t t' \<Longrightarrow> tmp t' = tmp t"
  shows "marks_held tmp s' \<or> ds_crashed s'"
  using assms(1)
proof cases
  case (ds_selects arm)
  then show ?thesis using assms(2)
    by (cases arm) (auto simp: startDiscovery_select_def start_round_def marks_held_def nth_append less_Suc_eq split: if_splits)
next
  case (ds_turns i)
  then show ?thesis using marks_turn assms(2) by blast
next
  case ds_ends
  from ds_ends(1) show ?thesis
    by (cases rule: round_ends_cases) (use ds_ends assms(2) tmp_regularPeerDiscovery in \<open>auto simp: marks_held_def\<close>)
next
  case ds_time
  then show ?thesis using assms(2) by (simp add: marks_held_def second_def Let_def)
next
  case ds_closes
  then show ?thesis using assms(2) by (auto simp: marks_held_def ds_Close_def split: if_splits)
next
  case (ds_env srv)
  then show ?thesis using assms(2,3) by (simp add: marks_held_def)
qed

lemma marks_run:
  assumes "(disc_step D env)\<^sup>*\<^sup>* s s'" and "marks_held tmp s" and "\<And>t t'. env t t' \<Longrightarrow> tmp t' = tmp t"
  shows "marks_held tmp s' \<or> ds_crashed s'"
  using assms(1)
proof (induction rule: rtranclp_induct)
  case (step y z)
  then show ?case using marks_step [OF step(2) step(3) assms(3)] by blast
qed (use assms(2) in simp)

text \<open>A round that holds a mark is never blocked, and at most four steps of its own take the mark away.\<close>

lemma holder_turn:
  assumes "j < length (ds_boot s)" and "holds (ds_boot s ! j) = [p]"
  obtains t where "round_turn D j s = Some t" "ds_crashed t"
  | t where "round_turn D j s = Some t" "j < length (ds_boot t)"
      "round_left (ds_boot t ! j) < round_left (ds_boot s ! j)" "holds (ds_boot t ! j) = [p] \<or> p \<notin> tmp (ds_srv t)"
proof -
  have ne: "ds_boot s ! j \<noteq> RoundEnd" using assms(2) by auto
  obtain x srv where b: "bootnodePeerDiscovery D (ds_boot s ! j) (ds_srv s) = (x, srv)" by fastforce
  show ?thesis
  proof (cases x)
    case (Inl e)
    then show ?thesis using that(1) b ne assms(1) by (simp add: round_turn_def)
  next
    case (Inr pc)
    have "round_left pc < round_left (ds_boot s ! j)"
      using b Inr assms(2) by (cases "ds_boot s ! j") (auto simp: bootnodePeerDiscovery_def split: if_splits prod.splits sum.splits)
    moreover have "holds pc = [p] \<or> p \<notin> tmp srv" using tmp_round b Inr assms(2) by fastforce
    ultimately show ?thesis using that(2) b ne assms(1) Inr by (simp add: round_turn_def)
  qed
qed

end

definition round_step :: "'s disc_server \<Rightarrow> nat \<Rightarrow> 's disc_service \<Rightarrow> 's disc_service \<Rightarrow> bool" where
  "round_step D j s t \<longleftrightarrow> \<not> ds_crashed s \<and> round_turn D j s = Some t"

context temp_dials
begin

lemma holder_lets_go:
  assumes "j < length (ds_boot s)" and "holds (ds_boot s ! j) = [p]"
  shows "\<exists>k t. k \<le> round_left (ds_boot s ! j) \<and> (round_step D j ^^ k) s t \<and> (ds_crashed t \<or> p \<notin> tmp (ds_srv t))"
  using assms
proof (induction "round_left (ds_boot s ! j)" arbitrary: s rule: less_induct)
  case less
  show ?case
  proof (cases "ds_crashed s")
    case True
    then show ?thesis by (intro exI [of _ 0] exI [of _ s]) simp
  next
    case False
    have left: "0 < round_left (ds_boot s ! j)" using holds_left [OF less(3)] by simp
    from less(2,3) show ?thesis
    proof (cases rule: holder_turn)
      case (1 t)
      have "round_step D j s t" using 1(1) False by (simp add: round_step_def)
      then show ?thesis using 1(2) left by (intro exI [of _ "Suc 0"] exI [of _ t]) auto
    next
      case (2 t)
      have own: "round_step D j s t" using 2(1) False by (simp add: round_step_def)
      show ?thesis
      proof (cases "p \<in> tmp (ds_srv t)")
        case True
        then obtain k u where "k \<le> round_left (ds_boot t ! j)" "(round_step D j ^^ k) t u" "ds_crashed u \<or> p \<notin> tmp (ds_srv u)"
          using less(1) [OF 2(3,2)] 2(4) by auto
        then show ?thesis using relpowp_Suc_I2 [of "round_step D j" s t, OF own] 2(3)
          by (intro exI [of _ "Suc k"] exI [of _ u]) auto
      qed (use own left in \<open>intro exI [of _ "Suc 0"] exI [of _ t], auto\<close>)
    qed
  qed
qed

text \<open>Nothing but a round's own step moves it, and a step of a round that holds a mark brings it nearer to the end.\<close>

lemma holder_progress:
  assumes "disc_step D env s t" and "j < length (ds_boot s)" and "holds (ds_boot s ! j) = [p]"
  shows "ds_boot t ! j = ds_boot s ! j \<or> round_left (ds_boot t ! j) < round_left (ds_boot s ! j)"
  using assms(1)
proof cases
  case (ds_selects arm)
  then show ?thesis using assms(2)
    by (cases arm) (auto simp: startDiscovery_select_def start_round_def nth_append split: if_splits)
next
  case (ds_turns i)
  show ?thesis
  proof (cases "i = j")
    case True
    from assms(2,3) show ?thesis by (cases rule: holder_turn) (use ds_turns True in \<open>auto elim!: round_turn_cases\<close>)
  next
    case False
    from ds_turns(1) show ?thesis by (cases rule: round_turn_cases) (use False in simp_all)
  qed
next
  case ds_ends
  from ds_ends(1) show ?thesis by (cases rule: round_ends_cases) simp_all
next
  case ds_closes
  then show ?thesis by (auto simp: ds_Close_def split: if_splits)
qed (simp_all add: second_def Let_def)

end

section \<open>The wait for another round\<close>




section \<open>Two rounds at one bootnode\<close>









end
