(* ===== verification/Event_Subs.thy ===== *)
theory Event_Subs
  imports Net_Server "HOL-Library.Sublist"
begin

text \<open>
  Subscriptions to the peer events of the networking server (\<open>Subscription\<close>, \<open>Subscribe\<close>, \<open>SubscribeFn\<close> and
  \<open>SubscribeCh\<close> in \<open>core/network/server.go\<close>): the event bus with its bounded queue, the goroutine of
  \<open>Subscription.run\<close>, the goroutine of \<open>SubscribeFn\<close> with the handler of \<open>SubscribeCh\<close>, the goroutine that
  cleans up, and the reader of the channel.
\<close>

section \<open>State\<close>

datatype fn_at = FnWaits | FnHands peer_event | FnReturned

datatype cleanup_at = AwaitsClose | BeforeCloseCh | CleanedUp

text \<open>\<open>es_run\<close> is the event that \<open>run\<close> holds and offers on the unbuffered channel of the subscription.  \<open>es_emitted\<close>
  and \<open>es_received\<close> list all events that entered the bus and all that the reader got; the code has no such lists.\<close>

record event_sub =
  es_bus :: "peer_event list"
  es_busClosed :: bool
  es_run :: "peer_event option"
  es_fn :: fn_at
  es_cancelled :: bool
  es_chClosed :: bool
  es_cleanup :: cleanup_at
  es_srvClosed :: bool
  es_crashed :: bool
  es_emitted :: "peer_event list"
  es_received :: "peer_event list"

text \<open>\<open>Subscribe\<close> starts \<open>run\<close>, \<open>SubscribeFn\<close> the goroutine that calls the handler.  \<open>raw\<close> is the error with which the
  bus refuses the subscription; then \<open>SubscribeCh\<close> closes its channel, which nobody has.\<close>

definition Subscribe :: "go_err option \<Rightarrow> go_err + event_sub" where
  "Subscribe raw = (case raw of
     Some err \<Rightarrow> Inl err
   | None \<Rightarrow> Inr \<lparr>es_bus = [], es_busClosed = False, es_run = None, es_fn = FnWaits, es_cancelled = False,
       es_chClosed = False, es_cleanup = AwaitsClose, es_srvClosed = False, es_crashed = False,
       es_emitted = [], es_received = []\<rparr>)"

definition SubscribeCh :: "go_err option \<Rightarrow> go_err + event_sub" where
  "SubscribeCh raw = (case Subscribe raw of Inl err \<Rightarrow> Inl err | Inr s \<Rightarrow> Inr s)"

section \<open>The goroutines\<close>

definition bus_cap :: nat where "bus_cap = 16"

text \<open>\<open>Emit\<close> blocks while the queue of an open subscription is full.\<close>

definition es_emit :: "peer_event \<Rightarrow> event_sub \<Rightarrow> event_sub option" where
  "es_emit ev s = (if es_busClosed s \<or> bus_cap \<le> length (es_bus s) then None
     else Some (s\<lparr>es_bus := es_bus s @ [ev], es_emitted := es_emitted s @ [ev]\<rparr>))"

text \<open>\<open>run\<close> reads the next event.  From the closed bus it reads nil, which is no \<open>PeerEvent\<close>, and reads again.\<close>

definition run_read :: "event_sub \<Rightarrow> event_sub option" where
  "run_read s = (if es_run s \<noteq> None then None
     else case es_bus s of
       ev # rest \<Rightarrow> Some (s\<lparr>es_bus := rest, es_run := Some ev\<rparr>)
     | [] \<Rightarrow> if es_busClosed s then Some s else None)"

text \<open>The \<open>select\<close> of \<open>SubscribeFn\<close>.  On return the deferred \<open>Close\<close> ends the subscription.\<close>

definition sub_take :: "event_sub \<Rightarrow> event_sub option" where
  "sub_take s = (case (es_fn s, es_run s) of
     (FnWaits, Some ev) \<Rightarrow> Some (s\<lparr>es_fn := FnHands ev, es_run := None\<rparr>)
   | _ \<Rightarrow> None)"

definition sub_stop :: "event_sub \<Rightarrow> event_sub option" where
  "sub_stop s = (if es_fn s = FnWaits \<and> (es_cancelled s \<or> es_srvClosed s)
     then Some (s\<lparr>es_fn := FnReturned, es_busClosed := True\<rparr>) else None)"

text \<open>\<open>Close\<close> of the bus lets a goroutine of libp2p read what is left in the queue, in competition with \<open>run\<close>.\<close>

definition bus_drain :: "event_sub \<Rightarrow> event_sub option" where
  "bus_drain s = (case es_bus s of
     ev # rest \<Rightarrow> if es_busClosed s then Some (s\<lparr>es_bus := rest\<rparr>) else None
   | [] \<Rightarrow> None)"

text \<open>The handler of \<open>SubscribeCh\<close>: it ends with the context, gives the event to the reader, or panics when the channel
  has been closed.\<close>

definition handler_done :: "event_sub \<Rightarrow> event_sub option" where
  "handler_done s = (case es_fn s of
     FnHands _ \<Rightarrow> if es_cancelled s then Some (s\<lparr>es_fn := FnWaits\<rparr>) else None
   | _ \<Rightarrow> None)"

definition handler_send :: "event_sub \<Rightarrow> event_sub option" where
  "handler_send s = (case es_fn s of
     FnHands ev \<Rightarrow>
       if es_chClosed s then Some (s\<lparr>es_crashed := True\<rparr>)
       else Some (s\<lparr>es_fn := FnWaits, es_received := es_received s @ [ev]\<rparr>)
   | _ \<Rightarrow> None)"

text \<open>The goroutine that waits for the server to close, and the two statements of \<open>cleanup\<close>.\<close>

definition cleanup_step :: "event_sub \<Rightarrow> event_sub option" where
  "cleanup_step s = (case es_cleanup s of
     AwaitsClose \<Rightarrow> if es_srvClosed s then Some (s\<lparr>es_cancelled := True, es_cleanup := BeforeCloseCh\<rparr>) else None
   | BeforeCloseCh \<Rightarrow> Some (s\<lparr>es_chClosed := True, es_cleanup := CleanedUp\<rparr>)
   | CleanedUp \<Rightarrow> None)"

text \<open>\<open>OpCancel\<close> is the caller's own cancelling of the context it passed.\<close>

datatype es_op = OpEmit peer_event | OpRead | OpDrain | OpTake | OpStop | OpDone | OpSend | OpCleanup | OpCancel | OpSrvClose

fun es_do :: "es_op \<Rightarrow> event_sub \<Rightarrow> event_sub option" where
  "es_do (OpEmit ev) s = es_emit ev s" | "es_do OpRead s = run_read s" | "es_do OpTake s = sub_take s"
| "es_do OpDrain s = bus_drain s"
| "es_do OpStop s = sub_stop s" | "es_do OpDone s = handler_done s" | "es_do OpSend s = handler_send s"
| "es_do OpCleanup s = cleanup_step s" | "es_do OpCancel s = Some (s\<lparr>es_cancelled := True\<rparr>)"
| "es_do OpSrvClose s = (if es_srvClosed s then None else Some (s\<lparr>es_srvClosed := True\<rparr>))"

fun es_run_ops :: "es_op list \<Rightarrow> event_sub \<Rightarrow> event_sub option" where
  "es_run_ops [] s = Some s"
| "es_run_ops (op # ops) s = (if es_crashed s then None
     else case es_do op s of None \<Rightarrow> None | Some s' \<Rightarrow> es_run_ops ops s')"

lemmas es_defs = es_emit_def run_read_def bus_drain_def sub_take_def sub_stop_def handler_done_def handler_send_def cleanup_step_def

section \<open>What is on the way\<close>

definition in_hand :: "event_sub \<Rightarrow> peer_event list" where
  "in_hand s = (case es_fn s of FnHands ev \<Rightarrow> [ev] | _ \<Rightarrow> []) @ (case es_run s of Some ev \<Rightarrow> [ev] | None \<Rightarrow> []) @ es_bus s"

definition es_account :: "event_sub \<Rightarrow> bool" where
  "es_account s \<longleftrightarrow> subseq (es_received s @ in_hand s) (es_emitted s) \<and>
     (\<not> es_cancelled s \<longrightarrow> es_fn s \<noteq> FnReturned \<longrightarrow> es_received s @ in_hand s = es_emitted s)"

definition es_control :: "event_sub \<Rightarrow> bool" where
  "es_control s \<longleftrightarrow> (es_chClosed s \<longrightarrow> es_cancelled s) \<and> (es_chClosed s \<longleftrightarrow> es_cleanup s = CleanedUp) \<and>
     (es_cleanup s \<noteq> AwaitsClose \<longrightarrow> es_cancelled s \<and> es_srvClosed s) \<and>
     (es_busClosed s \<longleftrightarrow> es_fn s = FnReturned) \<and> (es_crashed s \<longrightarrow> es_chClosed s) \<and> length (es_bus s) \<le> bus_cap"

definition es_inv :: "event_sub \<Rightarrow> bool" where
  "es_inv s \<longleftrightarrow> es_account s \<and> es_control s"

text \<open>Steps that only move events on, and steps that drop one of an ended subscription.\<close>

lemma account_moved:
  assumes "es_account s" and "es_received s' @ in_hand s' = es_received s @ in_hand s" and "es_emitted s' = es_emitted s"
    and "es_cancelled s \<Longrightarrow> es_cancelled s'" and "es_fn s = FnReturned \<Longrightarrow> es_fn s' = FnReturned"
  shows "es_account s'"
  using assms unfolding es_account_def by metis

lemma account_dropped:
  assumes "es_account s" and "subseq (es_received s' @ in_hand s') (es_received s @ in_hand s)" and "es_emitted s' = es_emitted s"
    and "es_cancelled s' \<or> es_fn s' = FnReturned"
  shows "es_account s'"
  using assms unfolding es_account_def by (metis subseq_order.trans)

lemma account_step:
  assumes "es_account s" and "es_control s" and "es_do op s = Some s'"
  shows "es_account s'"
proof (cases op)
  case (OpEmit ev)
  then have s': "s' = s\<lparr>es_bus := es_bus s @ [ev], es_emitted := es_emitted s @ [ev]\<rparr>"
    using assms(3) by (auto simp: es_emit_def split: if_splits)
  have "in_hand s' = in_hand s @ [ev]" by (simp add: s' in_hand_def)
  then show ?thesis using assms(1) s' by (auto simp: es_account_def simp flip: append_assoc intro: list_emb_append_mono)
next
  case OpDrain
  then obtain ev rest where s': "es_busClosed s" "es_bus s = ev # rest" "s' = s\<lparr>es_bus := rest\<rparr>"
    using assms(3) by (auto simp: bus_drain_def split: if_splits list.splits)
  then show ?thesis using assms(2)
    by (intro account_dropped[OF assms(1)]) (auto simp: in_hand_def es_control_def intro!: list_emb_append_mono)
next
  case OpDone
  then obtain ev where s': "es_fn s = FnHands ev" "es_cancelled s" "s' = s\<lparr>es_fn := FnWaits\<rparr>"
    using assms(3) by (auto simp: handler_done_def split: fn_at.splits if_splits)
  then show ?thesis by (intro account_dropped[OF assms(1)]) (auto simp: in_hand_def intro!: list_emb_append_mono)
next
  case OpRead
  then have "s' = s \<or> (\<exists>ev rest. es_run s = None \<and> es_bus s = ev # rest \<and> s' = s\<lparr>es_bus := rest, es_run := Some ev\<rparr>)"
    using assms(3) by (auto simp: run_read_def split: if_splits list.splits)
  then show ?thesis by (intro account_moved[OF assms(1)]) (auto simp: in_hand_def)
next
  case OpTake
  then obtain ev where "es_fn s = FnWaits" "es_run s = Some ev" "s' = s\<lparr>es_fn := FnHands ev, es_run := None\<rparr>"
    using assms(3) by (auto simp: sub_take_def split: fn_at.splits option.splits)
  then show ?thesis by (intro account_moved[OF assms(1)]) (auto simp: in_hand_def)
next
  case OpSend
  then obtain ev where "es_fn s = FnHands ev" and "s' = (if es_chClosed s then s\<lparr>es_crashed := True\<rparr>
      else s\<lparr>es_fn := FnWaits, es_received := es_received s @ [ev]\<rparr>)"
    using assms(3) by (auto simp: handler_send_def split: fn_at.splits if_splits)
  then show ?thesis by (intro account_moved[OF assms(1)]) (auto simp: in_hand_def)
qed (use assms(3) in \<open>auto intro!: account_moved[OF assms(1)] simp: in_hand_def sub_stop_def cleanup_step_def
       split: if_splits cleanup_at.splits\<close>)

lemma control_step:
  assumes "es_control s" and "es_do op s = Some s'"
  shows "es_control s'"
proof (cases op)
  case OpRead
  then show ?thesis using assms by (cases "es_bus s"; cases "es_run s"; auto simp: es_control_def run_read_def split: if_splits)
next
  case OpTake
  then show ?thesis using assms by (cases "es_fn s"; cases "es_run s"; auto simp: es_control_def sub_take_def)
next
  case OpDone
  then show ?thesis using assms by (cases "es_fn s"; auto simp: es_control_def handler_done_def split: if_splits)
next
  case OpSend
  then show ?thesis using assms by (cases "es_fn s"; auto simp: es_control_def handler_send_def split: if_splits)
next
  case OpCleanup
  then show ?thesis using assms by (cases "es_cleanup s"; auto simp: es_control_def cleanup_step_def split: if_splits)
next
  case (OpEmit ev)
  then show ?thesis using assms by (auto simp: es_control_def es_emit_def split: if_splits)
next
  case OpDrain
  then show ?thesis using assms by (cases "es_bus s"; auto simp: es_control_def bus_drain_def split: if_splits)
next
  case OpStop
  then show ?thesis using assms by (auto simp: es_control_def sub_stop_def split: if_splits)
next
  case OpCancel
  then show ?thesis using assms by (auto simp: es_control_def)
next
  case OpSrvClose
  then show ?thesis using assms by (auto simp: es_control_def split: if_splits)
qed

lemma es_inv_run:
  assumes "es_run_ops ops s = Some s'" and "es_inv s"
  shows "es_inv s'"
  using assms
proof (induction ops s rule: es_run_ops.induct)
  case (2 op ops s)
  then obtain t where t: "\<not> es_crashed s" "es_do op s = Some t" "es_run_ops ops t = Some s'"
    by (cases "es_do op s") (simp_all split: if_splits)
  then have "es_inv t" using 2(3) account_step control_step by (auto simp: es_inv_def)
  with 2(1)[OF t(1,2)] t(3) show ?case by blast
qed simp

lemma es_inv_start: "SubscribeCh sub = Inr s \<Longrightarrow> es_inv s"
  by (auto simp: SubscribeCh_def Subscribe_def es_inv_def es_account_def es_control_def in_hand_def split: option.splits)

lemmas es_reached = es_inv_run[OF _ es_inv_start]

section \<open>What can be delivered\<close>

text \<open>The goroutines bring each event of the queue to the reader as long as the channel is open.\<close>

lemma es_run_ops_append: "es_run_ops (xs @ ys) s = (case es_run_ops xs s of None \<Rightarrow> None | Some t \<Rightarrow> es_run_ops ys t)"
  by (induction xs s rule: es_run_ops.induct) (simp_all split: option.split)

definition es_can_deliver :: "event_sub \<Rightarrow> bool" where
  "es_can_deliver s \<longleftrightarrow> \<not> es_crashed s \<and> \<not> es_chClosed s \<and> es_fn s \<noteq> FnReturned"

definition all_delivered :: "event_sub \<Rightarrow> event_sub" where
  "all_delivered s = s\<lparr>es_bus := [], es_run := None, es_fn := FnWaits, es_received := es_received s @ in_hand s\<rparr>"

lemma es_deliver_bus:
  assumes "es_can_deliver s" and "es_fn s = FnWaits" and "es_run s = None"
  shows "es_run_ops (concat (replicate (length (es_bus s)) [OpRead, OpTake, OpSend])) s = Some (all_delivered s)"
  using assms
proof (induction "es_bus s" arbitrary: s)
  case Nil
  then show ?case by (simp add: all_delivered_def in_hand_def)
next
  case (Cons ev rest)
  define t where "t = s\<lparr>es_bus := rest, es_received := es_received s @ [ev]\<rparr>"
  have "es_run_ops [OpRead, OpTake, OpSend] s = Some t"
    using Cons(2)[symmetric] Cons(3-) by (simp add: t_def es_can_deliver_def run_read_def sub_take_def handler_send_def)
  moreover have "es_run_ops (concat (replicate (length (es_bus t)) [OpRead, OpTake, OpSend])) t = Some (all_delivered t)"
    using Cons(3-) by (intro Cons(1)) (simp_all add: t_def es_can_deliver_def)
  moreover have "all_delivered t = all_delivered s"
    using Cons(2)[symmetric] Cons(4-) by (simp add: t_def all_delivered_def in_hand_def)
  moreover have "length (es_bus s) = Suc (length (es_bus t))" by (simp add: t_def Cons(2)[symmetric])
  ultimately show ?case by (simp only: replicate_Suc concat.simps es_run_ops_append option.case)
qed

lemma es_deliver_all:
  assumes "es_can_deliver s"
  shows "\<exists>ops. set ops \<subseteq> {OpRead, OpTake, OpSend} \<and> es_run_ops ops s = Some (all_delivered s)"
proof -
  have fin: "\<exists>ops. set ops \<subseteq> {OpRead, OpTake, OpSend} \<and> es_run_ops ops t = Some (all_delivered t)"
    if "es_can_deliver t" "es_fn t = FnWaits" "es_run t = None" for t
    using es_deliver_bus[OF that] by (intro exI[of _ "concat (replicate (length (es_bus t)) [OpRead, OpTake, OpSend])"]) auto
  have go: "\<exists>ops. set ops \<subseteq> {OpRead, OpTake, OpSend} \<and> es_run_ops ops t = Some (all_delivered t)"
    if go: "set xs \<subseteq> {OpRead, OpTake, OpSend}" "es_run_ops xs t = Some u" "all_delivered u = all_delivered t"
      "es_can_deliver u" "es_fn u = FnWaits" "es_run u = None" for xs t u
  proof -
    obtain ys where "set ys \<subseteq> {OpRead, OpTake, OpSend}" "es_run_ops ys u = Some (all_delivered u)" using fin[OF go(4-6)] by blast
    then show ?thesis using go(1-3) by (intro exI[of _ "xs @ ys"]) (simp add: es_run_ops_append)
  qed
  note defs = es_can_deliver_def all_delivered_def in_hand_def run_read_def sub_take_def handler_send_def
  show ?thesis
  proof (cases "es_fn s")
    case FnWaits
    show ?thesis
    proof (cases "es_run s")
      case None
      then show ?thesis using fin assms FnWaits by blast
    next
      case (Some ev)
      then show ?thesis using assms FnWaits
        by (intro go[of "[OpTake, OpSend]" s "s\<lparr>es_run := None, es_received := es_received s @ [ev]\<rparr>"]) (simp_all add: defs)
    qed
  next
    case (FnHands ev)
    show ?thesis
    proof (cases "es_run s")
      case None
      then show ?thesis using assms FnHands
        by (intro go[of "[OpSend]" s "s\<lparr>es_fn := FnWaits, es_received := es_received s @ [ev]\<rparr>"]) (simp_all add: defs)
    next
      case (Some fv)
      then show ?thesis using assms FnHands
        by (intro go[of "[OpSend, OpTake, OpSend]" s "s\<lparr>es_fn := FnWaits, es_run := None, es_received := es_received s @ [ev, fv]\<rparr>"])
          (simp_all add: defs)
    qed
  qed (use assms in \<open>simp add: es_can_deliver_def\<close>)
qed

text \<open>After the goroutine of \<open>SubscribeFn\<close> has returned, nobody reads the channel of \<open>run\<close>.\<close>

lemma returned_step:
  assumes "es_do op s = Some s'" and "es_fn s = FnReturned"
  shows "es_fn s' = FnReturned \<and> (es_run s = Some ev \<longrightarrow> es_run s' = Some ev) \<and> es_received s' = es_received s"
proof (cases op)
  case OpRead
  then show ?thesis using assms by (cases "es_bus s"; cases "es_run s"; auto simp: run_read_def split: if_splits)
next
  case OpCleanup
  then show ?thesis using assms by (cases "es_cleanup s"; auto simp: cleanup_step_def split: if_splits)
qed (use assms in \<open>auto simp: es_emit_def bus_drain_def sub_take_def sub_stop_def handler_done_def handler_send_def
       split: if_splits list.splits\<close>)

lemma returned_stays:
  assumes "es_run_ops ops s = Some s'" and "es_fn s = FnReturned"
  shows "es_fn s' = FnReturned \<and> (es_run s = Some ev \<longrightarrow> es_run s' = Some ev) \<and> es_received s' = es_received s"
  using assms
proof (induction ops s rule: es_run_ops.induct)
  case (2 op ops s)
  then obtain t where t: "\<not> es_crashed s" "es_do op s = Some t" "es_run_ops ops t = Some s'"
    by (cases "es_do op s") (simp_all split: if_splits)
  then show ?case using 2(1)[OF t(1,2)] returned_step[OF t(2) 2(3)] by auto
qed simp

section \<open>Properties\<close>

text \<open>C38. A channel of \<open>SubscribeCh\<close> never invents, repeats or reorders an event; until the context ends, what is not
  yet received is on the way, at most 18 events, and from every state in which the channel is open and the subscription
  stands the goroutines can bring all of it to the reader.  The channel is closed only by the closing of the server: a
  reader whose own context ends waits for ever.  Once the goroutine of \<open>SubscribeFn\<close> has returned, nothing more is
  delivered, and \<open>run\<close> never ends: it offers its event for ever, or reads nil again and again from the closed queue.
  When the server closes while the handler holds an event, the process can panic with a send on the closed channel, and it
  panics in no other way.\<close>

theorem event_channel_life:
  assumes "SubscribeCh sub = Inr s0" and "es_run_ops ops s0 = Some s"
  shows "subseq (es_received s) (es_emitted s)
    \<and> (\<not> es_cancelled s \<and> es_fn s \<noteq> FnReturned \<longrightarrow> es_received s @ in_hand s = es_emitted s \<and> length (in_hand s) \<le> bus_cap + 2)
    \<and> (\<not> es_crashed s \<and> \<not> es_chClosed s \<and> es_fn s \<noteq> FnReturned \<longrightarrow>
         (\<exists>go t. set go \<subseteq> {OpRead, OpTake, OpSend} \<and> es_run_ops go s = Some t \<and> es_received t = es_received s @ in_hand s \<and> in_hand t = []))
    \<and> (es_chClosed s \<longrightarrow> es_srvClosed s \<and> es_cancelled s)
    \<and> (es_fn s = FnReturned \<longrightarrow> (\<forall>later t ev. es_run_ops later s = Some t \<longrightarrow>
         es_received t = es_received s \<and> (es_run s = Some ev \<longrightarrow> es_run t = Some ev)) \<and>
         (es_run s = None \<and> es_bus s = [] \<longrightarrow> run_read s = Some s))
    \<and> (\<forall>ev. es_fn s = FnHands ev \<and> es_srvClosed s \<and> es_cleanup s = AwaitsClose \<and> \<not> es_crashed s \<longrightarrow>
         (\<exists>t. es_run_ops [OpCleanup, OpCleanup, OpSend] s = Some t \<and> es_crashed t))
    \<and> (es_crashed s \<longrightarrow> es_cleanup s = CleanedUp \<and> es_srvClosed s)"
proof -
  have inv: "es_inv s" by (rule es_reached[OF assms(2,1)])
  have "subseq (es_received s) (es_received s @ in_hand s)" by (rule subseq_rev_drop_many) simp
  then have "subseq (es_received s) (es_emitted s)" using inv unfolding es_inv_def es_account_def by (metis subseq_order.trans)
  moreover have "length (in_hand s) \<le> bus_cap + 2"
    using inv by (auto simp: es_inv_def es_control_def in_hand_def split: fn_at.split option.split)
  moreover have "\<exists>go t. set go \<subseteq> {OpRead, OpTake, OpSend} \<and> es_run_ops go s = Some t \<and> es_received t = es_received s @ in_hand s \<and> in_hand t = []"
    if "\<not> es_crashed s \<and> \<not> es_chClosed s \<and> es_fn s \<noteq> FnReturned"
    using es_deliver_all[of s] that by (auto simp: es_can_deliver_def all_delivered_def in_hand_def)
  moreover have "run_read s = Some s" if "es_fn s = FnReturned" "es_run s = None" "es_bus s = []"
    using that inv by (simp add: run_read_def es_inv_def es_control_def)
  moreover have "\<exists>t. es_run_ops [OpCleanup, OpCleanup, OpSend] s = Some t \<and> es_crashed t"
    if "es_fn s = FnHands ev \<and> es_srvClosed s \<and> es_cleanup s = AwaitsClose \<and> \<not> es_crashed s" for ev
    using that by (simp add: cleanup_step_def handler_send_def)
  ultimately show ?thesis using inv returned_stays[of _ s] unfolding es_inv_def es_account_def es_control_def by (smt (verit) cleanup_at.distinct)
qed

theorem event_channel_life_witness:
  "\<exists>s. es_run_ops [OpEmit \<lparr>ev_PeerID = ''a'', ev_Type = PeerConnected\<rparr>, OpRead, OpTake, OpSrvClose]
     \<lparr>es_bus = [], es_busClosed = False, es_run = None, es_fn = FnWaits, es_cancelled = False, es_chClosed = False,
       es_cleanup = AwaitsClose, es_srvClosed = False, es_crashed = False, es_emitted = [], es_received = []\<rparr> = Some s \<and>
     es_received s @ in_hand s = [\<lparr>ev_PeerID = ''a'', ev_Type = PeerConnected\<rparr>] \<and>
     (\<exists>t. es_run_ops [OpCleanup, OpCleanup, OpSend] s = Some t \<and> es_crashed t)"
proof -
  let ?e = "\<lparr>ev_PeerID = ''a'', ev_Type = PeerConnected\<rparr>"
  let ?init = "\<lparr>es_bus = [], es_busClosed = False, es_run = None, es_fn = FnWaits, es_cancelled = False, es_chClosed = False,
       es_cleanup = AwaitsClose, es_srvClosed = False, es_crashed = False, es_emitted = [], es_received = []\<rparr>"
  let ?s = "?init\<lparr>es_fn := FnHands ?e, es_srvClosed := True, es_emitted := [?e]\<rparr>"
  have start: "SubscribeCh None = Inr ?init" by (simp add: SubscribeCh_def Subscribe_def)

  have run: "es_run_ops [OpEmit ?e, OpRead, OpTake, OpSrvClose] ?init = Some ?s"
    by (simp add: es_emit_def run_read_def sub_take_def bus_cap_def)
  note P = event_channel_life[OF start run]
  have "es_received ?s @ in_hand ?s = [?e]" using P by (simp add: in_hand_def)
  moreover have "\<exists>t. es_run_ops [OpCleanup, OpCleanup, OpSend] ?s = Some t \<and> es_crashed t"
    using P by (elim conjE allE[of _ ?e]) (erule mp, simp)
  ultimately show ?thesis using run by (intro exI[of _ ?s]) (simp only: simp_thms)
qed

end
