(* ===== verification/Gossip_Loop.thy ===== *)
theory Gossip_Loop
  imports Sync_System
begin

text \<open>
  The reader of a gossip topic, \<open>readLoop\<close> in \<open>core/network/gossip.go\<close>: the loop over the messages of the subscription, the
  goroutine that cancels its context when the topic closes, and one goroutine for each message.  The gossip library and
  the codec of the messages are parameters; what \<open>Next\<close> returns is an input.
\<close>

section \<open>The goroutines\<close>

datatype next_result = NextMsg bytes peer_id | NextErr go_err

text \<open>\<open>rl_started\<close> are the goroutines of messages that have not run yet, \<open>rl_handled\<close> the calls of the handler.\<close>

record 'o read_loop =
  rl_closeCh :: bool
  rl_ctxErr :: "go_err option"
  rl_running :: bool
  rl_started :: "(bytes \<times> peer_id) list"
  rl_handled :: "('o \<times> peer_id) list"

definition readLoop_start :: "'o read_loop" where
  "readLoop_start = \<lparr>rl_closeCh = False, rl_ctxErr = None, rl_running = True, rl_started = [], rl_handled = []\<rparr>"

fun error_is :: "go_err \<Rightarrow> go_err option \<Rightarrow> bool" where
  "error_is err None = False"
| "error_is (GoWrap s e) (Some target) = (GoWrap s e = target \<or> error_is e (Some target))"
| "error_is err (Some target) = (err = target)"

definition ErrCanceled :: go_err where "ErrCanceled = GoErr ''context canceled''"

definition watch_close :: "'o read_loop \<Rightarrow> 'o read_loop option" where
  "watch_close s = (if rl_closeCh s then Some (s\<lparr>rl_ctxErr := Some ErrCanceled\<rparr>) else None)"

text \<open>One turn of the loop; an error that is not the one of the context is logged and the loop goes on.\<close>

definition read_turn :: "next_result \<Rightarrow> 'o read_loop \<Rightarrow> 'o read_loop option" where
  "read_turn r s = (if \<not> rl_running s then None
     else case r of
       NextErr err \<Rightarrow> Some (if error_is err (rl_ctxErr s) then s\<lparr>rl_running := False\<rparr> else s)
     | NextMsg data from \<Rightarrow> Some (s\<lparr>rl_started := rl_started s @ [(data, from)]\<rparr>))"

text \<open>The goroutine of message \<open>i\<close>; goroutines run in any order.\<close>

definition message_turn :: "(bytes \<Rightarrow> go_err + 'o) \<Rightarrow> nat \<Rightarrow> 'o read_loop \<Rightarrow> 'o read_loop option" where
  "message_turn unmarshal i s = (if length (rl_started s) \<le> i then None
     else case rl_started s ! i of (data, from) \<Rightarrow>
       let s1 = s\<lparr>rl_started := take i (rl_started s) @ drop (i + 1) (rl_started s)\<rparr> in
       Some (case unmarshal data of
         Inl _ \<Rightarrow> s1
       | Inr obj \<Rightarrow> s1\<lparr>rl_handled := rl_handled s @ [(obj, from)]\<rparr>))"

datatype read_op = CloseTopic | WatchClose | NextReturns next_result | RunsMessage nat

fun read_do :: "(bytes \<Rightarrow> go_err + 'o) \<Rightarrow> read_op \<Rightarrow> 'o read_loop \<Rightarrow> 'o read_loop option" where
  "read_do u CloseTopic s = Some (s\<lparr>rl_closeCh := True\<rparr>)"
| "read_do u WatchClose s = watch_close s"
| "read_do u (NextReturns r) s = read_turn r s"
| "read_do u (RunsMessage i) s = message_turn u i s"

fun read_run :: "(bytes \<Rightarrow> go_err + 'o) \<Rightarrow> read_op list \<Rightarrow> 'o read_loop \<Rightarrow> 'o read_loop option" where
  "read_run u [] s = Some s"
| "read_run u (op # ops) s = (case read_do u op s of None \<Rightarrow> None | Some s' \<Rightarrow> read_run u ops s')"

section \<open>What the handler gets\<close>

fun messages :: "read_op list \<Rightarrow> (bytes \<times> peer_id) list" where
  "messages [] = []"
| "messages (NextReturns (NextMsg data from) # ops) = (data, from) # messages ops"
| "messages (_ # ops) = messages ops"

definition decoded :: "(bytes \<Rightarrow> go_err + 'o) \<Rightarrow> (bytes \<times> peer_id) list \<Rightarrow> ('o \<times> peer_id) multiset" where
  "decoded u ms = mset (List.map_filter (\<lambda>(data, from). case u data of Inl _ \<Rightarrow> None | Inr obj \<Rightarrow> Some (obj, from)) ms)"

lemma decoded_simps [simp]:
  "decoded u [] = {#}"
  "decoded u ((data, from) # ms) = (case u data of Inl _ \<Rightarrow> {#} | Inr obj \<Rightarrow> {#(obj, from)#}) + decoded u ms"
  by (simp_all add: decoded_def map_filter_simps split: sum.split)

lemma decoded_append [simp]: "decoded u (xs @ ys) = decoded u xs + decoded u ys"
  by (induction xs) (auto split: sum.split)

lemma decoded_take_out:
  assumes "i < length xs"
  shows "decoded u xs = decoded u [xs ! i] + decoded u (take i xs @ drop (i + 1) xs)"
proof -
  have "decoded u xs = decoded u (take i xs @ [xs ! i] @ drop (i + 1) xs)" using id_take_nth_drop [OF assms] by simp
  also have "\<dots> = decoded u (take i xs) + (decoded u [xs ! i] + decoded u (drop (i + 1) xs))" by (simp only: decoded_append)
  finally show ?thesis by (simp only: decoded_append ac_simps)
qed

text \<open>Every message that the loop reads and the codec accepts is handled at most once, and exactly once when its goroutine
  has run; the others are dropped.\<close>

lemma account_message:
  assumes "message_turn u i s = Some s'"
  shows "mset (rl_handled s') + decoded u (rl_started s') = mset (rl_handled s) + decoded u (rl_started s)"
proof -
  obtain data "from" where m: "rl_started s ! i = (data, from)" by (cases "rl_started s ! i")
  have i: "i < length (rl_started s)" using assms by (simp add: message_turn_def split: if_splits)
  let ?rest = "take i (rl_started s) @ drop (i + 1) (rl_started s)"
  note out = decoded_take_out [OF i, of u, unfolded m]
  show ?thesis
  proof (cases "u data")
    case (Inl e)
    then have "s' = s\<lparr>rl_started := ?rest\<rparr>" using assms i m by (simp add: message_turn_def)
    then show ?thesis using out Inl by simp
  next
    case (Inr obj)
    then have "s' = s\<lparr>rl_started := ?rest, rl_handled := rl_handled s @ [(obj, from)]\<rparr>" using assms i m by (simp add: message_turn_def)
    then show ?thesis using out Inr by simp
  qed
qed

lemma read_step_account:
  assumes "read_do u op s = Some s'"
  shows "mset (rl_handled s') + decoded u (rl_started s') = mset (rl_handled s) + decoded u (rl_started s) + decoded u (messages [op])"
proof (cases op)
  case (RunsMessage i)
  then show ?thesis using assms account_message [of u i s s'] by simp
next
  case (NextReturns r)
  then show ?thesis using assms by (cases r) (auto simp: read_turn_def simp del: decoded_simps(2) split: if_splits)
next
  case WatchClose
  then show ?thesis using assms by (auto simp: watch_close_def split: if_splits)
next
  case CloseTopic
  then show ?thesis using assms by auto
qed

lemma messages_Cons: "messages (op # ops) = messages [op] @ messages ops"
  by (cases "op # ops" rule: messages.cases) auto

lemma read_run_account:
  "read_run u ops s = Some s' \<Longrightarrow>
   mset (rl_handled s') + decoded u (rl_started s') = mset (rl_handled s) + decoded u (rl_started s) + decoded u (messages ops)"
proof (induction ops arbitrary: s)
  case (Cons op ops)
  then obtain t where t: "read_do u op s = Some t" "read_run u ops t = Some s'" by (cases "read_do u op s") simp_all
  show ?case using Cons.IH [OF t(2)] read_step_account [OF t(1)] unfolding messages_Cons [of op ops] decoded_append by (simp only: add.assoc)
qed simp

text \<open>The handler is called once for every message whose goroutine has run, in any order, and never for one that does not decode.\<close>

theorem topic_messages_handled:
  assumes "read_run u ops readLoop_start = Some s"
  shows "mset (rl_handled s) + decoded u (rl_started s) = decoded u (messages ops)"
  using read_run_account [OF assms] by (simp add: readLoop_start_def)

section \<open>The end of the loop\<close>

text \<open>A subscription that fails while the topic is open keeps the loop busy: every turn leaves the state as it is.  After \<open>Close\<close>
  the error of the context ends it.\<close>

theorem topic_loop_ends:
  "rl_running s \<and> rl_ctxErr s = None \<longrightarrow> read_turn (NextErr err) s = Some s"
  "rl_running s \<and> rl_closeCh s \<longrightarrow> read_run u [WatchClose, NextReturns (NextErr ErrCanceled)] s =
     Some (s\<lparr>rl_ctxErr := Some ErrCanceled, rl_running := False\<rparr>)"
  by (simp_all add: read_turn_def watch_close_def ErrCanceled_def)

end
