(* ===== verification/Go_Ip.thy ===== *)
theory Go_Ip
  imports Hex_Codec Net_Common
begin

text \<open>
  What the node URLs use of Go's \<open>net\<close> and \<open>net/netip\<close>: \<open>ParseIP\<close>, the text of an IP address (dotted, or groups
  with the longest run of zero groups left out), \<open>SplitHostPort\<close> and \<open>JoinHostPort\<close>, and of \<open>strconv\<close> a 16-bit
  \<open>ParseUint\<close>; with the lemma that \<open>ParseIP\<close> reads back the text of every address.
\<close>

section \<open>Strings\<close>

definition Cut :: "char \<Rightarrow> string \<Rightarrow> string \<times> string" where
  "Cut c s = (takeWhile ((\<noteq>) c) s, tl (dropWhile ((\<noteq>) c) s))"

text \<open>The text before and after the last \<open>c\<close>.\<close>

definition CutLast :: "char \<Rightarrow> string \<Rightarrow> (string \<times> string) option" where
  "CutLast c s = (if c \<in> set s
     then Some (rev (tl (dropWhile ((\<noteq>) c) (rev s))), rev (takeWhile ((\<noteq>) c) (rev s))) else None)"

lemma Cut_append [simp]: "c \<notin> set a \<Longrightarrow> Cut c (a @ c # b) = (a, b)"
  by (induction a) (auto simp: Cut_def)

lemma Cut_none [simp]: "c \<notin> set a \<Longrightarrow> Cut c a = (a, [])"
  by (induction a) (auto simp: Cut_def)

lemma CutLast_append [simp]:
  assumes "c \<notin> set b"
  shows "CutLast c (a @ c # b) = Some (a, b)"
proof -
  have "takeWhile ((\<noteq>) c) (rev b @ c # rev a) = rev b" "dropWhile ((\<noteq>) c) (rev b @ c # rev a) = c # rev a"
    using assms by (subst takeWhile_append2 dropWhile_append2; auto)+
  then show ?thesis by (simp add: CutLast_def)
qed

lemma CutLast_none [simp]: "CutLast c a = None \<longleftrightarrow> c \<notin> set a"
  by (simp add: CutLast_def)

section \<open>Numbers\<close>

definition dec_digit :: "char \<Rightarrow> nat option" where
  "dec_digit c = (case nibble c of Some d \<Rightarrow> if d < 10 then Some d else None | None \<Rightarrow> None)"

text \<open>\<open>strconv.ParseUint(s, 10, 16)\<close>.\<close>

fun port_loop :: "nat \<Rightarrow> string \<Rightarrow> go_err + 16 word" where
  "port_loop n [] = Inr (of_nat n)"
| "port_loop n (c # cs) = (case dec_digit c of
     None \<Rightarrow> Inl ErrSyntax
   | Some d \<Rightarrow> if 65535 < n * 10 + d then Inl ErrRange else port_loop (n * 10 + d) cs)"

definition ParseUint16 :: "string \<Rightarrow> go_err + 16 word" where
  "ParseUint16 s = (if s = [] then Inl ErrSyntax else port_loop 0 s)"

section \<open>Reading addresses\<close>

text \<open>The loop over the octets: the character before, the octets so far, value and length of the present one.\<close>

fun v4_loop :: "char option \<Rightarrow> nat list \<Rightarrow> nat \<Rightarrow> nat \<Rightarrow> string \<Rightarrow> go_err + bytes" where
  "v4_loop prev fs val len [] =
     (if length fs < 3 then Inl (GoErr ''IPv4 address too short'') else Inr (map of_nat (fs @ [val])))"
| "v4_loop prev fs val len (c # cs) = (case dec_digit c of
     Some d \<Rightarrow>
       if len = 1 \<and> val = 0 then Inl (GoErr ''IPv4 field has octet with leading zero'')
       else if 255 < val * 10 + d then Inl (GoErr ''IPv4 field has value >255'')
       else v4_loop (Some c) fs (val * 10 + d) (len + 1) cs
   | None \<Rightarrow>
       if c \<noteq> CHR ''.'' then Inl (GoErr ''unexpected character'')
       else if prev = None \<or> cs = [] \<or> prev = Some (CHR ''.'') then Inl (GoErr ''IPv4 field must have at least one digit'')
       else if length fs = 3 then Inl (GoErr ''IPv4 address too long'')
       else v4_loop (Some c) (fs @ [val]) 0 0 cs)"

definition parseIPv4 :: "string \<Rightarrow> go_err + bytes" where "parseIPv4 s = v4_loop None [] 0 0 s"

text \<open>A group of hexadecimal digits: its value, its length and the rest of the text.\<close>

fun v6_hex :: "nat \<Rightarrow> nat \<Rightarrow> string \<Rightarrow> go_err + nat \<times> nat \<times> string" where
  "v6_hex acc off [] = Inr (acc, off, [])"
| "v6_hex acc off (c # cs) = (case nibble c of
     None \<Rightarrow> Inr (acc, off, c # cs)
   | Some d \<Rightarrow> if 3 < off then Inl (GoErr ''each group must have 4 or less digits'')
       else if 65535 < 16 * acc + d then Inl (GoErr ''IPv6 field has value >=2^16'')
       else v6_hex (16 * acc + d) (off + 1) cs)"

definition group_bytes :: "nat \<Rightarrow> bytes" where "group_bytes x = [of_nat (x div 256), of_nat (x mod 256)]"

text \<open>The loop over the groups: the bytes so far, where the ellipsis was, and the text.  Each turn adds two bytes or
  ends, so eight turns are enough for the 16 bytes.\<close>

fun v6_loop :: "nat \<Rightarrow> bytes \<Rightarrow> nat option \<Rightarrow> string \<Rightarrow> go_err + bytes \<times> nat option \<times> string" where
  "v6_loop 0 ip ell s = Inr (ip, ell, s)"
| "v6_loop (Suc n) ip ell s = (case v6_hex 0 0 s of
     Inl e \<Rightarrow> Inl e
   | Inr (acc, off, rest) \<Rightarrow>
       if off = 0 then Inl (GoErr ''each colon-separated field must have at least one digit'')
       else (case rest of
         [] \<Rightarrow> Inr (ip @ group_bytes acc, ell, [])
       | c # t \<Rightarrow>
           if c = CHR ''.'' then
             (if ell = None \<and> length ip \<noteq> 12 then Inl (GoErr ''embedded IPv4 address must replace the final 2 fields'')
              else if 16 < length ip + 4 then Inl (GoErr ''too many hex fields to fit an embedded IPv4'')
              else case parseIPv4 s of Inl e \<Rightarrow> Inl e | Inr f \<Rightarrow> Inr (ip @ f, ell, []))
           else if c \<noteq> CHR '':'' then Inl (GoErr ''unexpected character, want colon'')
           else (case t of
             [] \<Rightarrow> Inl (GoErr ''colon must be followed by more characters'')
           | d # u \<Rightarrow>
               if d = CHR '':'' then
                 (if ell \<noteq> None then Inl (GoErr ''multiple :: in address'')
                  else if u = [] then Inr (ip @ group_bytes acc, Some (length ip + 2), [])
                  else v6_loop n (ip @ group_bytes acc) (Some (length ip + 2)) u)
               else v6_loop n (ip @ group_bytes acc) ell t)))"

definition v6_expand :: "bytes \<times> nat option \<times> string \<Rightarrow> go_err + bytes" where
  "v6_expand r = (case r of (ip, ell, s) \<Rightarrow>
     if s \<noteq> [] then Inl (GoErr ''trailing garbage after address'')
     else if length ip < 16 then
       (case ell of
          None \<Rightarrow> Inl (GoErr ''address string too short'')
        | Some e \<Rightarrow> Inr (take e ip @ replicate (16 - length ip) 0 @ drop e ip))
     else if ell \<noteq> None then Inl (GoErr ''the :: must expand to at least one field of zeros'')
     else Inr ip)"

text \<open>With the zone of the address.\<close>

definition parseIPv6 :: "string \<Rightarrow> go_err + bytes \<times> string" where
  "parseIPv6 text = (case Cut (CHR ''%'') text of (s, zone) \<Rightarrow>
     if CHR ''%'' \<in> set text \<and> zone = [] then Inl (GoErr ''zone must be a non-empty string'')
     else rbind (if take 2 s = ''::'' then (if drop 2 s = [] then Inr ([], Some 0, []) else v6_loop 8 [] (Some 0) (drop 2 s))
                 else v6_loop 8 [] None s)
       (\<lambda>r. rbind (v6_expand r) (\<lambda>ip. Inr (ip, zone))))"

definition v4_prefix :: bytes where "v4_prefix = replicate 10 0 @ [0xff, 0xff]"

text \<open>\<open>netip.ParseAddr\<close> decides by the first of the three characters; the address is in its 16-byte form.\<close>

definition ParseAddr :: "string \<Rightarrow> go_err + bytes \<times> string" where
  "ParseAddr s = (case dropWhile (\<lambda>c. c \<notin> set ''.:%'') s of
     [] \<Rightarrow> Inl (GoErr ''unable to parse IP'')
   | c # _ \<Rightarrow>
       if c = CHR ''.'' then rbind (parseIPv4 s) (\<lambda>f. Inr (v4_prefix @ f, []))
       else if c = CHR '':'' then parseIPv6 s
       else Inl (GoErr ''missing IPv6 address''))"

definition net_ParseIP :: "string \<Rightarrow> bytes option" where
  "net_ParseIP s = (case ParseAddr s of Inr (ip, zone) \<Rightarrow> if zone = [] then Some ip else None | Inl _ \<Rightarrow> None)"

section \<open>Printing addresses\<close>

definition dotted_text :: "bytes \<Rightarrow> string" where
  "dotted_text f = itoa (uint (f ! 0)) @ ''.'' @ itoa (uint (f ! 1)) @ ''.'' @ itoa (uint (f ! 2)) @ ''.'' @ itoa (uint (f ! 3))"

fun colon_join :: "nat list \<Rightarrow> string" where
  "colon_join [] = []"
| "colon_join [x] = hex_of_nat x"
| "colon_join (x # y # zs) = hex_of_nat x @ '':'' @ colon_join (y # zs)"

definition zero_run :: "nat list \<Rightarrow> nat \<Rightarrow> nat" where
  "zero_run gs i = length (takeWhile ((=) 0) (drop i gs))"

text \<open>The first of the longest runs of at least two zero groups, by start and end.\<close>

definition longest_run :: "nat list \<Rightarrow> (nat \<times> nat) option" where
  "longest_run gs = foldl (\<lambda>best i.
     let l = zero_run gs i in
     if 2 \<le> l \<and> (case best of None \<Rightarrow> True | Some (a, b) \<Rightarrow> b - a < l) then Some (i, i + l) else best) None [0..<length gs]"

definition groups_text :: "nat list \<Rightarrow> string" where
  "groups_text gs = (case longest_run gs of
     None \<Rightarrow> colon_join gs
   | Some (a, b) \<Rightarrow> colon_join (take a gs) @ ''::'' @ colon_join (drop b gs))"

fun ip_groups :: "bytes \<Rightarrow> nat list" where
  "ip_groups (x # y # r) = (unat x * 256 + unat y) # ip_groups r"
| "ip_groups _ = []"

definition To4 :: "bytes \<Rightarrow> bytes option" where
  "To4 ip = (if length ip = 4 then Some ip
     else if length ip = 16 \<and> take 12 ip = v4_prefix then Some (drop 12 ip) else None)"

definition IP_String :: "bytes \<Rightarrow> string" where
  "IP_String ip = (if ip = [] then ''<nil>''
     else if length ip \<noteq> 4 \<and> length ip \<noteq> 16 then ''?'' @ hex_EncodeToString ip
     else case To4 ip of Some p4 \<Rightarrow> dotted_text p4 | None \<Rightarrow> groups_text (ip_groups ip))"

section \<open>Hosts and ports\<close>

definition JoinHostPort :: "string \<Rightarrow> string \<Rightarrow> string" where
  "JoinHostPort host port = (if CHR '':'' \<in> set host then ''['' @ host @ '']:'' @ port else host @ '':'' @ port)"

definition ErrMissingPort :: go_err where "ErrMissingPort = GoErr ''missing port in address''"
definition ErrTooManyColons :: go_err where "ErrTooManyColons = GoErr ''too many colons in address''"

text \<open>\<open>checked\<close> are the parts of the text that must hold no further bracket.\<close>

definition SplitHostPort :: "string \<Rightarrow> go_err + string \<times> string" where
  "SplitHostPort hostport = (case CutLast (CHR '':'') hostport of
     None \<Rightarrow> Inl ErrMissingPort
   | Some (front, port) \<Rightarrow>
       let brackets = (\<lambda>no_open no_close host.
             if CHR ''['' \<in> set no_open then Inl (GoErr ''unexpected left bracket in address'')
             else if CHR '']'' \<in> set no_close then Inl (GoErr ''unexpected right bracket in address'')
             else Inr (host, port)) in
       if take 1 hostport = ''['' then
         (if CHR '']'' \<notin> set hostport then Inl (GoErr ''missing right bracket in address'')
          else let upto = takeWhile ((\<noteq>) (CHR '']'')) hostport; after = drop (length upto + 1) hostport in
            if after = [] then Inl ErrMissingPort
            else if length upto + 1 = length front then brackets (drop 1 hostport) after (drop 1 upto)
            else if hd after = CHR '':'' then Inl ErrTooManyColons
            else Inl ErrMissingPort)
       else if CHR '':'' \<in> set front then Inl ErrTooManyColons
       else brackets hostport hostport front)"


section \<open>Digits\<close>

lemma nibble_dec: "d < 10 \<Longrightarrow> nibble (char_of (48 + d)) = Some d"
  by (simp add: nibble_def take_bit_nat_eq_self)

lemma digits_of_dec: "n < 10 ^ f \<Longrightarrow> 0 < f \<Longrightarrow> digits_val 10 0 (digits_of f n) = Some n"
proof (induction f arbitrary: n)
  case (Suc f)
  show ?case
  proof (cases "n < 10")
    case True then show ?thesis by (simp add: nibble_dec)
  next
    case False
    have "n div 10 < 10 ^ f" using Suc.prems(1) by (simp add: less_mult_imp_div_less mult.commute)
    moreover have "0 < f" using False Suc.prems(1) by (cases f) auto
    ultimately show ?thesis using False Suc.IH [of "n div 10"]
      by (simp add: digits_val_append nibble_dec)
  qed
qed simp

lemma less_ten_power: "n < 10 ^ (n + 1)"
  by (induction n) simp_all

lemma digits_itoa [simp]: "digits_val 10 0 (itoa (int n)) = Some n"
  using digits_of_dec [OF less_ten_power, of n] by (simp add: itoa_def)

lemma itoa_ne [simp]: "itoa (int n) \<noteq> []"
  by (simp add: itoa_def)

text \<open>A text that has a value consists of digits.\<close>

lemma digits_val_chars: "digits_val base n s = Some v \<Longrightarrow> c \<in> set s \<Longrightarrow> \<exists>d < base. nibble c = Some d"
  by (induction base n s rule: digits_val.induct) (auto split: option.splits if_splits)

lemma itoa_chars: "c \<in> set (itoa (int n)) \<Longrightarrow> \<exists>d < 10. nibble c = Some d"
  by (rule digits_val_chars [OF digits_itoa])

lemma hex_of_nat_chars: "c \<in> set (hex_of_nat n) \<Longrightarrow> \<exists>d < 16. nibble c = Some d"
  by (rule digits_val_chars [OF digits_hex_of_nat])

lemma port_loop_digits:
  "digits_val 10 n s = Some v \<Longrightarrow> v \<le> 65535 \<Longrightarrow> port_loop n s = Inr (of_nat v)"
proof (induction s arbitrary: n)
  case (Cons c s)
  then obtain d where d: "nibble c = Some d" "d < 10" "digits_val 10 (n * 10 + d) s = Some v"
    by (auto split: option.splits if_splits)
  moreover have "n * 10 + d \<le> 65535" using digits_val_mono [OF _ d(3)] Cons.prems(2) by simp
  ultimately show ?case using Cons.IH Cons.prems(2) by (simp add: dec_digit_def)
qed simp

text \<open>The numbers printed here are words.\<close>

lemma itoa_word [simp]: "digits_val 10 0 (itoa (uint w)) = Some (unat w)" "itoa (uint w) \<noteq> []"
  using digits_itoa [of "unat w"] itoa_ne [of "unat w"] by simp_all

lemma ParseUint16_itoa [simp]: "ParseUint16 (itoa (uint (p :: 16 word))) = Inr p"
proof -
  have "unat p < 2 ^ LENGTH(16)" by (rule unsigned_less)
  then show ?thesis using port_loop_digits [OF itoa_word(1), of p] by (simp add: ParseUint16_def)
qed

section \<open>Dotted addresses\<close>

lemma digits_of_lead: "0 < n \<Longrightarrow> n < 10 ^ f \<Longrightarrow> nibble (hd (digits_of f n)) \<noteq> Some 0 \<and> digits_of f n \<noteq> []"
proof (induction f arbitrary: n)
  case (Suc f)
  show ?case
  proof (cases "n < 10")
    case True then show ?thesis using Suc.prems by (simp add: nibble_dec)
  next
    case False
    have "n div 10 < 10 ^ f" using Suc.prems(2) by (simp add: less_mult_imp_div_less mult.commute)
    then show ?thesis using False Suc.IH [of "n div 10"] by simp
  qed
qed simp

lemma itoa_lead: "length (itoa (int n)) = 1 \<or> nibble (hd (itoa (int n))) \<noteq> Some 0"
  using digits_of_lead [OF _ less_ten_power, of n] by (cases "n = 0") (simp_all add: itoa_def)

lemma itoa_word_lead: "length (itoa (uint w)) = 1 \<or> nibble (hd (itoa (uint w))) \<noteq> Some 0"
  using itoa_lead [of "unat w"] by simp

lemma v4_digits:
  assumes "digits_val 10 val ds = Some v" and "v \<le> 255" and "ds \<noteq> []"
    and "if len = 0 then length ds = 1 \<or> nibble (hd ds) \<noteq> Some 0 else val \<noteq> 0" and "len = 0 \<Longrightarrow> val = 0"
  shows "\<exists>p k. p \<noteq> CHR ''.'' \<and> v4_loop prev fs val len (ds @ rest) = v4_loop (Some p) fs v (Suc k) rest"
  using assms
proof (induction ds arbitrary: prev val len)
  case (Cons c ds)
  from Cons.prems(1) obtain d where d: "nibble c = Some d" "d < 10" "digits_val 10 (val * 10 + d) ds = Some v"
    by (auto split: option.splits if_splits)
  have le: "val * 10 + d \<le> 255" using digits_val_mono [OF _ d(3)] Cons.prems(2) by simp
  have c: "c \<noteq> CHR ''.''" using d(1) by (auto simp: nibble_def)
  have step: "v4_loop prev fs val len ((c # ds) @ rest) = v4_loop (Some c) fs (val * 10 + d) (Suc len) (ds @ rest)"
    using d le Cons.prems(4,5) by (auto simp: dec_digit_def split: if_splits)
  show ?case
  proof (cases "ds = []")
    case True
    then have "v = val * 10 + d" using d(3) by simp
    then show ?thesis using step True c by auto
  next
    case False
    have "val * 10 + d \<noteq> 0" using Cons.prems(4) False d(1) by (auto split: if_splits)
    then show ?thesis using Cons.IH [of "val * 10 + d" "Suc len" "Some c"] d(3) Cons.prems(2) False step by simp
  qed
qed simp

lemma v4_octet:
  "\<exists>p k. p \<noteq> CHR ''.'' \<and> v4_loop prev fs 0 0 (itoa (uint (b :: byte)) @ rest) = v4_loop (Some p) fs (unat b) (Suc k) rest"
proof -
  have "unat b < 2 ^ LENGTH(8)" by (rule unsigned_less)
  then show ?thesis using itoa_word_lead [of b] by (intro v4_digits) simp_all
qed

lemma v4_dot:
  assumes "length fs < 3"
  shows "v4_loop prev fs 0 0 (itoa (uint (b :: byte)) @ ''.'' @ itoa (uint (c :: byte)) @ rest) =
    v4_loop (Some (CHR ''.'')) (fs @ [unat b]) 0 0 (itoa (uint c) @ rest)"
proof -
  obtain p k where p: "p \<noteq> CHR ''.''"
    and "v4_loop prev fs 0 0 (itoa (uint b) @ (''.'' @ itoa (uint c) @ rest)) = v4_loop (Some p) fs (unat b) (Suc k) (''.'' @ itoa (uint c) @ rest)"
    using v4_octet [of prev fs b "''.'' @ itoa (uint c) @ rest"] by (elim exE conjE) (rule that)
  note this(2)
  also have "v4_loop (Some p) fs (unat b) (Suc k) (''.'' @ itoa (uint c) @ rest) = v4_loop (Some (CHR ''.'')) (fs @ [unat b]) 0 0 (itoa (uint c) @ rest)"
    using assms p by (simp add: dec_digit_def nibble_def)
  finally show ?thesis .
qed

lemma v4_end: "length fs = 3 \<Longrightarrow> v4_loop prev fs 0 0 (itoa (uint (b :: byte))) = Inr (map of_nat (fs @ [unat b]))"
  using v4_octet [of prev fs b "[]"] by auto

lemma parseIPv4_dotted:
  assumes "length f = 4"
  shows "parseIPv4 (dotted_text f) = Inr f"
proof -
  obtain a b c d where f: "f = [a, b, c, d]" using assms by (auto simp: length_Suc_conv eval_nat_numeral)
  have "parseIPv4 (dotted_text f) = v4_loop None [] 0 0 (itoa (uint a) @ ''.'' @ itoa (uint b) @ ''.'' @ itoa (uint c) @ ''.'' @ itoa (uint d))"
    by (simp add: parseIPv4_def dotted_text_def f)
  also have "\<dots> = v4_loop (Some (CHR ''.'')) [unat a] 0 0 (itoa (uint b) @ ''.'' @ itoa (uint c) @ ''.'' @ itoa (uint d))"
    by (subst v4_dot) simp_all
  also have "\<dots> = v4_loop (Some (CHR ''.'')) [unat a, unat b] 0 0 (itoa (uint c) @ ''.'' @ itoa (uint d))"
    by (subst v4_dot) simp_all
  also have "\<dots> = v4_loop (Some (CHR ''.'')) [unat a, unat b, unat c] 0 0 (itoa (uint d))"
    using v4_dot [of "[unat a, unat b]" _ c d "[]"] by simp
  also have "\<dots> = Inr f" by (simp add: v4_end f)
  finally show ?thesis .
qed

section \<open>Groups\<close>

lemma v6_hex_digits:
  assumes "digits_val 16 acc ds = Some v" and "v \<le> 65535" and "off + length ds \<le> 4"
    and "rest = [] \<or> nibble (hd rest) = None"
  shows "v6_hex acc off (ds @ rest) = Inr (v, off + length ds, rest)"
  using assms(1-3)
proof (induction ds arbitrary: acc off)
  case Nil
  then show ?case using assms(4) by (cases rest) simp_all
next
  case (Cons c ds)
  then obtain d where d: "nibble c = Some d" "digits_val 16 (acc * 16 + d) ds = Some v"
    by (auto split: option.splits if_splits)
  moreover have "acc * 16 + d \<le> 65535" using digits_val_mono [OF _ d(2)] Cons.prems(2) by simp
  ultimately show ?case using Cons.IH [of "acc * 16 + d" "Suc off"] Cons.prems(2,3) by (simp add: mult.commute)
qed

lemma length_hex_of_nat: "x < 16 ^ n \<Longrightarrow> 0 < n \<Longrightarrow> length (hex_of_nat x) \<le> n"
proof (induction n arbitrary: x)
  case (Suc n)
  show ?case
  proof (cases "x < 16")
    case False
    have "x div 16 < 16 ^ n" using Suc.prems(1) by (simp add: less_mult_imp_div_less mult.commute)
    moreover have "0 < n" using False Suc.prems(1) by (cases n) auto
    ultimately show ?thesis using False Suc.IH by (simp add: hex_of_nat.simps [of x])
  qed (simp add: hex_of_nat.simps [of x])
qed simp

lemma v6_group:
  assumes "x < 65536" and "rest = [] \<or> nibble (hd rest) = None"
  obtains k where "v6_hex 0 0 (hex_of_nat x @ rest) = Inr (x, Suc k, rest)"
proof -
  have "v6_hex 0 0 (hex_of_nat x @ rest) = Inr (x, length (hex_of_nat x), rest)"
    using v6_hex_digits [OF digits_hex_of_nat, of x 0 rest] length_hex_of_nat [of x 4] assms by simp
  then show thesis using that [of "length (hex_of_nat x) - 1"] by (cases "hex_of_nat x") auto
qed

text \<open>One turn of the loop: at the end of the text, before a colon, and before the ellipsis.\<close>

lemma v6_last: "x < 65536 \<Longrightarrow> v6_loop (Suc n) ip ell (hex_of_nat x) = Inr (ip @ group_bytes x, ell, [])"
  by (rule v6_group [of x "[]"]) simp_all

lemma nibble_colon [simp]: "nibble (CHR '':'') = None"
  by (simp add: nibble_def)

lemma v6_next:
  assumes "x < 65536" and "t \<noteq> []" and "hd t \<noteq> CHR '':''"
  shows "v6_loop (Suc n) ip ell (hex_of_nat x @ '':'' @ t) = v6_loop n (ip @ group_bytes x) ell t"
  using assms by (rule_tac v6_group [of x "'':'' @ t"]) (auto split: list.split)

lemma v6_gap:
  assumes "x < 65536"
  shows "v6_loop (Suc n) ip None (hex_of_nat x @ ''::'' @ t) =
    (if t = [] then Inr (ip @ group_bytes x, Some (length ip + 2), []) else v6_loop n (ip @ group_bytes x) (Some (length ip + 2)) t)"
  using assms by (rule_tac v6_group [of x "''::'' @ t"]) simp_all

declare v6_loop.simps [simp del]

text \<open>The text of a list of groups starts with a digit.\<close>

lemma hex_of_nat_hd: "hd (hex_of_nat x @ t) \<noteq> CHR '':''"
  using hex_of_nat_chars [of "hd (hex_of_nat x)" x] by (cases "hex_of_nat x") auto

lemma colon_join_hd: "gs \<noteq> [] \<Longrightarrow> colon_join gs @ t \<noteq> [] \<and> hd (colon_join gs @ t) \<noteq> CHR '':''"
  by (cases gs rule: colon_join.cases) (use hex_of_nat_hd in auto)

lemma v6_all:
  assumes "gs \<noteq> []" and "length gs \<le> n" and "\<forall>x \<in> set gs. x < 65536"
  shows "v6_loop n ip ell (colon_join gs) = Inr (ip @ concat (map group_bytes gs), ell, [])"
  using assms
proof (induction gs arbitrary: n ip rule: colon_join.induct)
  case (2 x)
  then show ?case by (cases n) (simp_all add: v6_last)
next
  case (3 x y zs)
  then obtain m where n: "n = Suc m" "length (y # zs) \<le> m" by (cases n) auto
  have "v6_loop n ip ell (colon_join (x # y # zs)) = v6_loop m (ip @ group_bytes x) ell (colon_join (y # zs))"
    using 3(4) colon_join_hd [of "y # zs" "[]"] by (simp only: n colon_join.simps) (subst v6_next; simp)
  then show ?case using 3(1) [of m "ip @ group_bytes x"] 3(4) n by simp
qed simp

lemma length_group_bytes [simp]: "length (group_bytes x) = 2"
  by (simp add: group_bytes_def)

lemma length_groups: "length (concat (map group_bytes gs)) = 2 * length gs"
  by (induction gs) simp_all

lemma v6_ellipsis:
  assumes "pre \<noteq> []" and "length pre + length post \<le> n" and "\<forall>x \<in> set pre \<union> set post. x < 65536"
  shows "v6_loop n ip None (colon_join pre @ ''::'' @ colon_join post) =
    Inr (ip @ concat (map group_bytes (pre @ post)), Some (length ip + 2 * length pre), [])"
  using assms
proof (induction pre arbitrary: n ip rule: colon_join.induct)
  case (2 x)
  then obtain m where n: "n = Suc m" "length post \<le> m" by (cases n) auto
  show ?case
  proof (cases "post = []")
    case True then show ?thesis using 2(3) v6_gap [of x m ip "[]"] by (simp add: n)
  next
    case False
    then have "colon_join post \<noteq> []" using colon_join_hd [of post "[]"] by simp
    then show ?thesis using 2(3) False v6_all [OF False n(2)]
      by (simp only: n colon_join.simps) (subst v6_gap; simp)
  qed
next
  case (3 x y zs)
  then obtain m where n: "n = Suc m" "length (y # zs) + length post \<le> m" by (cases n) auto
  have "v6_loop n ip None (colon_join (x # y # zs) @ ''::'' @ colon_join post) =
      v6_loop m (ip @ group_bytes x) None (colon_join (y # zs) @ ''::'' @ colon_join post)"
    using 3(4) colon_join_hd [of "y # zs" "''::'' @ colon_join post"]
    by (simp only: n colon_join.simps append_assoc) (subst v6_next; simp)
  then show ?case using 3(1) [of m "ip @ group_bytes x"] 3(4) n by simp
qed simp

text \<open>The run that the text leaves out is one of zeros.\<close>

lemma zero_run_zeros: "i < length gs \<Longrightarrow> zero_run gs i = l \<Longrightarrow> i + l \<le> length gs \<and> take l (drop i gs) = replicate l 0"
proof -
  assume i: "i < length gs" and l: "zero_run gs i = l"
  have "take l (drop i gs) = takeWhile ((=) 0) (drop i gs)" using l by (metis zero_run_def takeWhile_eq_take)
  moreover have "takeWhile ((=) 0) (drop i gs) = replicate l 0"
    using l by (intro replicate_eqI) (auto simp: zero_run_def dest: set_takeWhileD)
  moreover have "l \<le> length (drop i gs)" using l length_takeWhile_le unfolding zero_run_def by metis
  ultimately show ?thesis using i by auto
qed

lemma longest_run_zeros:
  assumes "longest_run gs = Some (a, b)"
  shows "a + 2 \<le> b \<and> b \<le> length gs \<and> gs = take a gs @ replicate (b - a) 0 @ drop b gs"
proof -
  let ?ok = "\<lambda>r. case r of None \<Rightarrow> True | Some (a, b) \<Rightarrow> a + 2 \<le> b \<and> b \<le> length gs \<and> take (b - a) (drop a gs) = replicate (b - a) 0"
  let ?step = "\<lambda>best i. let l = zero_run gs i in
     if 2 \<le> l \<and> (case best of None \<Rightarrow> True | Some (a, b) \<Rightarrow> b - a < l) then Some (i, i + l) else best"
  have "?ok (foldl ?step r is)" if "?ok r" "\<forall>i \<in> set is. i < length gs" for r "is"
    using that
  proof (induction "is" arbitrary: r)
    case (Cons i "is")
    have "?ok (?step r i)" using Cons.prems zero_run_zeros [of i gs "zero_run gs i"] by (auto simp: Let_def)
    then show ?case using Cons.IH [of "?step r i"] Cons.prems(2) by simp
  qed simp
  from this [of None "[0..<length gs]"] have ok: "a + 2 \<le> b" "b \<le> length gs" "take (b - a) (drop a gs) = replicate (b - a) 0"
    using assms by (auto simp: longest_run_def)
  have "gs = take a gs @ take (b - a) (drop a gs) @ drop (b - a) (drop a gs)" by (metis append_take_drop_id)
  then show ?thesis using ok by simp
qed

section \<open>Texts of addresses\<close>

definition ip_char :: "char \<Rightarrow> char \<Rightarrow> bool" where
  "ip_char sep c \<longleftrightarrow> c = sep \<or> nibble c \<noteq> None"

lemma colon_join_chars: "c \<in> set (colon_join gs) \<Longrightarrow> ip_char (CHR '':'') c"
  by (induction gs rule: colon_join.induct) (auto simp: ip_char_def dest: hex_of_nat_chars)

lemma colon_in_join: "2 \<le> length gs \<Longrightarrow> CHR '':'' \<in> set (colon_join gs)"
  by (cases gs rule: colon_join.cases) simp_all

lemma groups_text_chars: "c \<in> set (groups_text gs) \<Longrightarrow> ip_char (CHR '':'') c"
  by (auto simp: groups_text_def dest: colon_join_chars split: option.splits) (simp_all add: ip_char_def)

lemma colon_in_groups: "2 \<le> length gs \<Longrightarrow> CHR '':'' \<in> set (groups_text gs)"
  by (auto simp: groups_text_def colon_in_join split: option.splits)

lemma dotted_text_chars: "c \<in> set (dotted_text f) \<Longrightarrow> ip_char (CHR ''.'') c"
  by (auto simp: dotted_text_def ip_char_def dest: digits_val_chars [OF itoa_word(1)])

text \<open>Which of the three characters comes first.\<close>

lemma first_separator:
  assumes "\<forall>c \<in> set s. ip_char sep c" and "sep \<in> set s" and "sep \<in> set ''.:%''"
  shows "\<exists>t. dropWhile (\<lambda>c. c \<notin> set ''.:%'') s = sep # t"
proof -
  let ?P = "\<lambda>c. c \<notin> set ''.:%''"
  have ne: "dropWhile ?P s \<noteq> []" using assms(2,3) by (metis dropWhile_eq_Nil_conv)
  then have "\<not> ?P (hd (dropWhile ?P s))" by (rule hd_dropWhile)
  moreover have "ip_char sep (hd (dropWhile ?P s))" using ne assms(1) by (meson hd_in_set set_dropWhileD)
  ultimately have "hd (dropWhile ?P s) = sep" by (auto simp: ip_char_def nibble_def)
  then show ?thesis using ne by (metis list.collapse)
qed

lemma ip_groups_16:
  assumes "length ip = 16"
  shows "length (ip_groups ip) = 8 \<and> (\<forall>x \<in> set (ip_groups ip). x < 65536) \<and> concat (map group_bytes (ip_groups ip)) = ip"
proof -
  have pair: "unat x * 256 + unat y < 65536 \<and> group_bytes (unat x * 256 + unat y) = [x, y]" for x y :: byte
  proof -
    have "unat x < 2 ^ LENGTH(8)" "unat y < 2 ^ LENGTH(8)" by (rule unsigned_less)+
    then show ?thesis by (simp add: group_bytes_def)
  qed
  have "length ip = 2 * n \<Longrightarrow> length (ip_groups ip) = n \<and> (\<forall>x \<in> set (ip_groups ip). x < 65536) \<and>
      concat (map group_bytes (ip_groups ip)) = ip" for n
  proof (induction ip arbitrary: n rule: ip_groups.induct)
    case (1 x y r)
    then obtain m where "n = Suc m" "length r = 2 * m" by (cases n) auto
    then show ?case using 1(1) [of m] pair by simp
  qed auto
  from this [of 8] show ?thesis using assms by simp
qed

lemma v6_expand_gap:
  assumes "length A = e" and "length A + n + length B = 16" and "0 < n"
  shows "v6_expand (A @ B, Some e, []) = Inr (A @ replicate n 0 @ B)"
proof -
  have "16 - length (A @ B) = n" "length (A @ B) < 16" using assms by auto
  then show ?thesis using assms(1) by (simp add: v6_expand_def)
qed

lemma group_zeros: "concat (map group_bytes (replicate n 0)) = replicate (2 * n) 0"
  by (induction n) (simp_all add: group_bytes_def)

text \<open>Filling the gap gives the groups that the text left out.\<close>

lemma expand_run:
  assumes "length gs = 8" and run: "longest_run gs = Some (a, b)"
  shows "v6_expand (concat (map group_bytes (take a gs @ drop b gs)), Some (2 * a), []) = Inr (concat (map group_bytes gs))"
proof -
  let ?pre = "take a gs" and ?post = "drop b gs"
  have ab: "a + 2 \<le> b" "b \<le> 8" and parts: "gs = ?pre @ replicate (b - a) 0 @ ?post"
    using longest_run_zeros [OF run] assms(1) by auto
  have len: "length ?pre = a" "length ?post = 8 - b" using ab assms(1) by auto
  have "concat (map group_bytes gs) = concat (map group_bytes (?pre @ replicate (b - a) 0 @ ?post))" by (rule arg_cong [OF parts])
  also have "\<dots> = concat (map group_bytes ?pre) @ replicate (2 * (b - a)) 0 @ concat (map group_bytes ?post)"
    by (simp only: map_append concat_append group_zeros)
  finally show ?thesis
    using v6_expand_gap [of "concat (map group_bytes ?pre)" "2 * a" "2 * (b - a)" "concat (map group_bytes ?post)"] ab
    unfolding length_groups len map_append concat_append by simp
qed

text \<open>A text that starts with a group is no ellipsis.\<close>

lemma no_leading_gap: "xs \<noteq> [] \<Longrightarrow> take 2 (colon_join xs @ t) \<noteq> ''::''"
  using colon_join_hd [of xs t] by (cases "colon_join xs @ t") auto

lemma parseIPv6_groups:
  assumes gs: "length gs = 8" "\<forall>x \<in> set gs. x < 65536"
  shows "parseIPv6 (groups_text gs) = Inr (concat (map group_bytes gs), [])"
proof -
  let ?s = "groups_text gs"
  have "CHR ''%'' \<notin> set ?s" using groups_text_chars [of "CHR ''%''" gs] by (auto simp: ip_char_def nibble_def)
  then have start: "parseIPv6 ?s = rbind (if take 2 ?s = ''::'' then (if drop 2 ?s = [] then Inr ([], Some 0, []) else v6_loop 8 [] (Some 0) (drop 2 ?s))
      else v6_loop 8 [] None ?s) (\<lambda>r. rbind (v6_expand r) (\<lambda>ip. Inr (ip, [])))"
    by (simp add: parseIPv6_def)
  show ?thesis
  proof (cases "longest_run gs")
    case None
    then have s: "?s = colon_join gs" by (simp add: groups_text_def)
    have "gs \<noteq> []" using gs(1) by auto
    then show ?thesis using no_leading_gap [of gs "[]"] v6_all [of gs 8 "[]" None] gs length_groups [of gs]
      unfolding start by (simp add: s v6_expand_def)
  next
    case (Some ab)
    then obtain a b where run: "longest_run gs = Some (a, b)" by (cases ab) auto
    let ?pre = "take a gs" and ?post = "drop b gs"
    note expand = expand_run [OF gs(1) run]
    have len: "length ?pre = a" "length ?pre + length ?post \<le> 8" using longest_run_zeros [OF run] gs(1) by auto
    have s: "?s = colon_join ?pre @ ''::'' @ colon_join ?post" using run by (simp add: groups_text_def)
    have small: "\<forall>x \<in> set ?pre \<union> set ?post. x < 65536" using gs(2) by (auto dest: in_set_takeD in_set_dropD)
    show ?thesis
    proof (cases "?pre = []")
      case True
      then have a: "a = 0" using len(1) by (metis list.size(3))
      show ?thesis
      proof (cases "?post = []")
        case True then show ?thesis using expand a unfolding start by (simp add: s)
      next
        case False
        then have "colon_join ?post \<noteq> []" using colon_join_hd [of ?post "[]"] by simp
        then show ?thesis using expand a v6_all [OF False, of 8 "[]" "Some 0"] small len unfolding start by (simp add: s)
      qed
    next
      case False
      have "v6_loop 8 [] None ?s = Inr (concat (map group_bytes (?pre @ ?post)), Some (2 * a), [])"
        using v6_ellipsis [OF False, of ?post 8 "[]"] small len by (simp add: s)
      then show ?thesis using no_leading_gap [OF False] expand unfolding start by (simp add: s)
    qed
  qed
qed

text \<open>Every address is read back, in its 16-byte form.\<close>

definition As16 :: "bytes \<Rightarrow> bytes" where
  "As16 ip = (if length ip = 4 then v4_prefix @ ip else ip)"

lemma ParseIP_dotted:
  assumes "length f = 4"
  shows "net_ParseIP (dotted_text f) = Some (v4_prefix @ f)"
proof -
  have "CHR ''.'' \<in> set (dotted_text f)" by (simp add: dotted_text_def)
  then obtain t where "dropWhile (\<lambda>c. c \<notin> set ''.:%'') (dotted_text f) = CHR ''.'' # t"
    using first_separator [of "dotted_text f" "CHR ''.''"] dotted_text_chars [of _ f] by auto
  then have "ParseAddr (dotted_text f) = Inr (v4_prefix @ f, [])"
    unfolding ParseAddr_def parseIPv4_dotted [OF assms] by simp
  then show ?thesis by (simp add: net_ParseIP_def)
qed

lemma ParseIP_groups:
  assumes "length ip = 16"
  shows "net_ParseIP (groups_text (ip_groups ip)) = Some ip"
proof -
  note gs = ip_groups_16 [OF assms]
  let ?s = "groups_text (ip_groups ip)"
  have "CHR '':'' \<in> set ?s" using colon_in_groups gs by simp
  then obtain t where "dropWhile (\<lambda>c. c \<notin> set ''.:%'') ?s = CHR '':'' # t"
    using first_separator [of ?s "CHR '':''"] groups_text_chars [of _ "ip_groups ip"] by auto
  then have "ParseAddr ?s = Inr (ip, [])" unfolding ParseAddr_def using parseIPv6_groups gs by simp
  then show ?thesis by (simp add: net_ParseIP_def)
qed

lemma ParseIP_String:
  assumes "length ip = 4 \<or> length ip = 16"
  shows "net_ParseIP (IP_String ip) = Some (As16 ip)"
proof (cases "To4 ip")
  case None
  then have "length ip = 16" using assms by (auto simp: To4_def)
  then show ?thesis using None ParseIP_groups [of ip] by (auto simp: IP_String_def As16_def)
next
  case (Some p4)
  then have p4: "length p4 = 4" using assms by (auto simp: To4_def split: if_splits)
  have "v4_prefix @ p4 = As16 ip"
  proof (cases "length ip = 4")
    case True
    then show ?thesis using Some by (simp add: To4_def As16_def)
  next
    case False
    then have "take 12 ip = v4_prefix" "p4 = drop 12 ip" using Some by (auto simp: To4_def split: if_splits)
    then show ?thesis using False by (metis As16_def append_take_drop_id)
  qed
  moreover have "IP_String ip = dotted_text p4" using Some assms by (auto simp: IP_String_def)
  ultimately show ?thesis using ParseIP_dotted [OF p4] by simp
qed

end
