(* ===== verification/Node_Url.thy ===== *)
theory Node_Url
  imports Go_Ip Crypto_Props
begin

text \<open>
  Node URLs, \<open>core/helper/enode/enode.go\<close>: a node is a 64-byte identifier, an IP address and two ports, written
  \<open>enode://id@ip:tcp?discport=udp\<close>.  What \<open>ParseURL\<close> uses of \<open>net/url\<close> comes first; the reading and printing of
  addresses is \<open>Go_Ip\<close>.  The curve is a parameter.
\<close>

section \<open>Escapes\<close>

datatype url_part = PathPart | UserPart | HostPart | ZonePart | QueryPart | FragmentPart

definition alnum :: "char \<Rightarrow> bool" where
  "alnum c \<longleftrightarrow> (let n = of_char c :: nat in 48 \<le> n \<and> n \<le> 57 \<or> 65 \<le> n \<and> n \<le> 90 \<or> 97 \<le> n \<and> n \<le> 122)"

definition shouldEscape :: "char \<Rightarrow> url_part \<Rightarrow> bool" where
  "shouldEscape c part = (
     if alnum c then False
     else if (part = HostPart \<or> part = ZonePart) \<and> (c \<in> set ''!$&()*+,;=:[]<>'' \<or> c = CHR 0x22 \<or> c = CHR 0x27) then False
     else if c \<in> set ''-_.~'' then False
     else if c \<in> set ''$&+,/:;=?@'' \<and> part = PathPart then c = CHR ''?''
     else if c \<in> set ''$&+,/:;=?@'' \<and> part = UserPart then c \<in> set ''@/?:''
     else if c \<in> set ''$&+,/:;=?@'' \<and> part = FragmentPart then False
     else if part = FragmentPart \<and> c \<in> set ''!()*'' then False
     else True)"

definition EscapeError :: "string \<Rightarrow> go_err" where "EscapeError s = GoErr (''invalid URL escape '' @ s)"

fun url_unescape :: "url_part \<Rightarrow> string \<Rightarrow> go_err + string" where
  "url_unescape part [] = Inr []"
| "url_unescape part (c # s) =
     (if c = CHR ''%'' then
        (case s of
           a # b # r \<Rightarrow> (case (nibble a, nibble b) of
               (Some x, Some y) \<Rightarrow>
                 if part = HostPart \<and> x < 8 \<and> \<not> (a = CHR ''2'' \<and> b = CHR ''5'') then Inl (EscapeError [c, a, b])
                 else if part = ZonePart \<and> \<not> (a = CHR ''2'' \<and> b = CHR ''5'') \<and> 16 * x + y \<noteq> 32 \<and> shouldEscape (char_of (16 * x + y)) HostPart
                 then Inl (EscapeError [c, a, b])
                 else (case url_unescape part r of Inl e \<Rightarrow> Inl e | Inr t \<Rightarrow> Inr (char_of (16 * x + y) # t))
             | _ \<Rightarrow> Inl (EscapeError [c, a, b]))
         | _ \<Rightarrow> Inl (EscapeError (c # s)))
      else if (part = HostPart \<or> part = ZonePart) \<and> (of_char c :: nat) < 128 \<and> shouldEscape c part
        then Inl (GoErr ''invalid character in host name'')
      else (case url_unescape part s of Inl e \<Rightarrow> Inl e
        | Inr t \<Rightarrow> Inr ((if c = CHR ''+'' \<and> part = QueryPart then CHR '' '' else c) # t)))"

definition url_escape :: "url_part \<Rightarrow> string \<Rightarrow> string" where
  "url_escape part s = concat (map (\<lambda>c. if shouldEscape c part
     then [CHR ''%'', ToUpper (hex_digit (of_char c div 16)), ToUpper (hex_digit (of_char c mod 16))] else [c]) s)"

section \<open>Parsing a URL\<close>

record url =
  u_Scheme :: string
  u_User :: "(string \<times> string option) option"
  u_Host :: string
  u_RawQuery :: string

definition user_char :: "char \<Rightarrow> bool" where
  "user_char c \<longleftrightarrow> alnum c \<or> c \<in> set ''-._:~!$&()*+,;=%@'' \<or> c = CHR 0x27"

text \<open>The scheme and the rest; no scheme when another character comes before the colon.\<close>

definition getScheme :: "string \<Rightarrow> go_err + string \<times> string" where
  "getScheme raw = (let scheme = takeWhile (\<lambda>c. alnum c \<or> c \<in> set ''+-.'') raw; rest = drop (length scheme) raw in
     if raw \<noteq> [] \<and> (is_dec (hd raw) \<or> hd raw \<in> set ''+-.'') then Inr ([], raw)
     else if take 1 rest = '':'' then (if scheme = [] then Inl (GoErr ''missing protocol scheme'') else Inr (scheme, drop 1 rest))
     else Inr ([], raw))"

definition validOptionalPort :: "string \<Rightarrow> bool" where
  "validOptionalPort port \<longleftrightarrow> port = [] \<or> hd port = CHR '':'' \<and> (\<forall>c \<in> set (tl port). is_dec c)"

text \<open>The position of the first \<open>%25\<close>.\<close>

fun zone_index :: "string \<Rightarrow> nat option" where
  "zone_index [] = None"
| "zone_index (c # s) = (if take 3 (c # s) = ''%25'' then Some 0 else map_option Suc (zone_index s))"

definition url_parseHost :: "string \<Rightarrow> go_err + string" where
  "url_parseHost host =
     (if take 1 host = ''['' then
        (case CutLast (CHR '']'') host of
           None \<Rightarrow> Inl (GoErr ''missing close bracket in host'')
         | Some (inner, colonPort) \<Rightarrow>
             if \<not> validOptionalPort colonPort then Inl (GoErr ''invalid port after host'')
             else (case zone_index inner of
                 Some z \<Rightarrow> rbind (url_unescape HostPart (take z inner)) (\<lambda>host1.
                   rbind (url_unescape ZonePart (drop z inner)) (\<lambda>host2.
                   rbind (url_unescape HostPart (CHR '']'' # colonPort)) (\<lambda>host3. Inr (host1 @ host2 @ host3))))
               | None \<Rightarrow> url_unescape HostPart host))
      else (case CutLast (CHR '':'') host of
           None \<Rightarrow> url_unescape HostPart host
         | Some (_, port) \<Rightarrow>
             if \<not> validOptionalPort (CHR '':'' # port) then Inl (GoErr ''invalid port after host'')
             else url_unescape HostPart host))"

definition url_parseAuthority :: "string \<Rightarrow> go_err + (string \<times> string option) option \<times> string" where
  "url_parseAuthority authority = (case CutLast (CHR ''@'') authority of
     None \<Rightarrow> rbind (url_parseHost authority) (\<lambda>host. Inr (None, host))
   | Some (userinfo, rawHost) \<Rightarrow> rbind (url_parseHost rawHost) (\<lambda>host.
       if \<not> list_all user_char userinfo then Inl (GoErr ''net/url: invalid userinfo'')
       else if CHR '':'' \<notin> set userinfo then
         rbind (url_unescape UserPart userinfo) (\<lambda>name. Inr (Some (name, None), host))
       else (case Cut (CHR '':'') userinfo of (username, password) \<Rightarrow>
         rbind (url_unescape UserPart username) (\<lambda>name. rbind (url_unescape UserPart password) (\<lambda>pw. Inr (Some (name, Some pw), host))))))"

definition ctl_byte :: "char \<Rightarrow> bool" where "ctl_byte c \<longleftrightarrow> (of_char c :: nat) < 32 \<or> of_char c = (127 :: nat)"

definition ToLower :: "char \<Rightarrow> char" where
  "ToLower c = (let n = of_char c :: nat in if 65 \<le> n \<and> n \<le> 90 then char_of (n + 32) else c)"

text \<open>\<open>parse\<close>: an opaque URL and a path without an authority have neither a user nor a host.\<close>

definition url_parse :: "string \<Rightarrow> go_err + url" where
  "url_parse raw =
     (if list_ex ctl_byte raw then Inl (GoErr ''net/url: invalid control character in URL'')
      else if raw = ''*'' then Inr \<lparr>u_Scheme = [], u_User = None, u_Host = [], u_RawQuery = []\<rparr>
      else rbind (getScheme raw) (\<lambda>(scheme0, rest0).
        let scheme = map ToLower scheme0 in
        case Cut (CHR ''?'') rest0 of (rest, query) \<Rightarrow>
        if take 1 rest \<noteq> ''/'' \<and> scheme \<noteq> [] then Inr \<lparr>u_Scheme = scheme, u_User = None, u_Host = [], u_RawQuery = query\<rparr>
        else if take 1 rest \<noteq> ''/'' \<and> CHR '':'' \<in> set (fst (Cut (CHR ''/'') rest))
          then Inl (GoErr ''first path segment in URL cannot contain colon'')
        else if (scheme \<noteq> [] \<or> take 3 rest \<noteq> ''///'') \<and> take 2 rest = ''//'' then
          (let authority = takeWhile ((\<noteq>) (CHR ''/'')) (drop 2 rest); path = drop (length authority) (drop 2 rest) in
           rbind (url_parseAuthority authority) (\<lambda>(user, host).
           rbind (url_unescape PathPart path) (\<lambda>_.
             Inr \<lparr>u_Scheme = scheme, u_User = user, u_Host = host, u_RawQuery = query\<rparr>)))
        else rbind (url_unescape PathPart rest) (\<lambda>_.
             Inr \<lparr>u_Scheme = scheme, u_User = None, u_Host = [], u_RawQuery = query\<rparr>)))"

definition url_Parse :: "string \<Rightarrow> go_err + url" where
  "url_Parse rawURL = (case Cut (CHR ''#'') rawURL of (u, frag) \<Rightarrow>
     case url_parse u of
       Inl e \<Rightarrow> Inl (GoWrap (''parse '' @ u) e)
     | Inr url \<Rightarrow> (case url_unescape FragmentPart frag of
           Inl e \<Rightarrow> Inl (GoWrap (''parse '' @ rawURL) e)
         | Inr _ \<Rightarrow> Inr url))"

text \<open>\<open>User.String\<close>: a URL without a user has a nil pointer there.\<close>

definition User_String :: "(string \<times> string option) option \<Rightarrow> go_err + string" where
  "User_String user = (case user of
     None \<Rightarrow> Inl (GoPanic ''invalid memory address or nil pointer dereference'')
   | Some (name, pw) \<Rightarrow> Inr (url_escape UserPart name @ (case pw of None \<Rightarrow> [] | Some p \<Rightarrow> CHR '':'' # url_escape UserPart p)))"

text \<open>\<open>Query().Get(key)\<close>: the first readable setting of the key.\<close>

definition query_pair :: "string \<Rightarrow> (string \<times> string) option" where
  "query_pair s = (if CHR '';'' \<in> set s \<or> s = [] then None
     else case Cut (CHR ''='') s of (key, val) \<Rightarrow>
       (case (url_unescape QueryPart key, url_unescape QueryPart val) of (Inr k, Inr v) \<Rightarrow> Some (k, v) | _ \<Rightarrow> None))"

definition Query_Get :: "string \<Rightarrow> string \<Rightarrow> string" where
  "Query_Get query key = (case map_of (List.map_filter query_pair (split_on (CHR ''&'') query)) key of None \<Rightarrow> [] | Some v \<Rightarrow> v)"

section \<open>Nodes\<close>

definition nodeIDBytes :: nat where "nodeIDBytes = 512 div 8"

definition ID_String :: "bytes \<Rightarrow> string" where "ID_String i = hex_EncodeToString i"

record enode =
  en_ID :: bytes
  en_TCP :: "16 word"
  en_UDP :: "16 word"
  en_IP :: bytes

definition ParseURL :: "string \<Rightarrow> go_err + enode" where
  "ParseURL rawurl = rbind (url_Parse rawurl) (\<lambda>u.
     if u_Scheme u \<noteq> ''enode'' then Inl (GoErr ''invalid URL scheme, expected enode'')
     else rbind (User_String (u_User u)) (\<lambda>user.
       case hex_DecodeString user of
         (_, Some err) \<Rightarrow> Inl (GoWrap ''failed to decode id: '' err)
       | (h, None) \<Rightarrow>
           if length h \<noteq> nodeIDBytes then Inl (GoErr ''id not found'')
           else (case SplitHostPort (u_Host u) of
             Inl err \<Rightarrow> Inl (GoWrap ''invalid host: '' err)
           | Inr (host, port) \<Rightarrow> (case net_ParseIP host of
               None \<Rightarrow> Inl (GoErr (''invalid IP address '' @ host))
             | Some ip \<Rightarrow> (case ParseUint16 port of
                 Inl err \<Rightarrow> Inl (GoWrap (''invalid tcp port '' @ port) err)
               | Inr tcpPort \<Rightarrow>
                   let discPort = Query_Get (u_RawQuery u) ''discport'' in
                   (case (if discPort \<noteq> [] then ParseUint16 discPort else Inr tcpPort) of
                      Inl err \<Rightarrow> Inl (GoWrap (''invalid udp port '' @ discPort) err)
                    | Inr udpPort \<Rightarrow> Inr \<lparr>en_ID = h, en_TCP = tcpPort, en_UDP = udpPort, en_IP = ip\<rparr>))))))"

text \<open>\<open>net.TCPAddr\<close> with its text, where an empty address has an empty host.\<close>

definition TCPAddr :: "enode \<Rightarrow> bytes \<times> int" where "TCPAddr n = (en_IP n, uint (en_TCP n))"

definition TCPAddr_String :: "bytes \<times> int \<Rightarrow> string" where
  "TCPAddr_String a = JoinHostPort (if fst a = [] then [] else IP_String (fst a)) (itoa (snd a))"

definition Enode_String :: "enode \<Rightarrow> string" where
  "Enode_String n = (let url = ''enode://'' @ ID_String (en_ID n) @ ''@'' @ TCPAddr_String (TCPAddr n) in
     if en_TCP n \<noteq> en_UDP n then url @ ''?discport='' @ itoa (uint (en_UDP n)) else url)"

section \<open>Keys\<close>

text \<open>A public key is a point by its coordinates; \<open>onCurve\<close> is \<open>IsOnCurve\<close> of the curve.\<close>

definition NodeIDToPubKey :: "(int \<Rightarrow> int \<Rightarrow> bool) \<Rightarrow> bytes \<Rightarrow> go_err + int \<times> int" where
  "NodeIDToPubKey onCurve buf =
     (if length buf \<noteq> nodeIDBytes then Inl (GoErr ''not enough length'')
      else let half = length buf div 2; X = big_SetBytes (take half buf); Y = big_SetBytes (drop half buf) in
        if \<not> onCurve X Y then Inl (GoErr ''id is invalid secp256k1 curve point'') else Inr (X, Y))"

definition PublicKey :: "(int \<Rightarrow> int \<Rightarrow> bool) \<Rightarrow> enode \<Rightarrow> go_err + int \<times> int" where
  "PublicKey onCurve n = NodeIDToPubKey onCurve (en_ID n)"

definition PubkeyToEnode :: "('k, int \<times> int) curve_lib \<Rightarrow> int \<times> int \<Rightarrow> go_err + bytes" where
  "PubkeyToEnode C pub = (let pbytes = MarshalPublicKey C pub in
     if pbytes = [] then Inl (GoPanic ''slice bounds out of range'')
     else Inr (take nodeIDBytes (drop 1 pbytes) @ replicate (nodeIDBytes - length (drop 1 pbytes)) 0))"

section \<open>Parsing a printed node\<close>

lemma nibble_alnum: "nibble c \<noteq> None \<Longrightarrow> alnum c"
  by (auto simp: nibble_def alnum_def Let_def split: if_splits)

definition host_char :: "char \<Rightarrow> bool" where
  "host_char c \<longleftrightarrow> alnum c \<or> c \<in> set ''[]:.''"

definition node_char :: "char \<Rightarrow> bool" where
  "node_char c \<longleftrightarrow> alnum c \<or> c \<in> set ''[]:./@?=''"

lemma alnum_lits [simp]:
  "\<not> alnum (CHR ''%'')" "\<not> alnum (CHR ''#'')" "\<not> alnum (CHR ''?'')" "\<not> alnum (CHR ''/'')" "\<not> alnum (CHR ''@'')"
  "\<not> alnum (CHR '':'')" "\<not> alnum (CHR ''+'')" "\<not> alnum (CHR ''['')" "\<not> alnum (CHR '']'')" "\<not> alnum (CHR ''&'')"
  "\<not> alnum (CHR ''='')" "\<not> alnum (CHR '';'')" "\<not> alnum (CHR ''.'')"
  by (simp_all add: alnum_def)

lemma node_char_no_ctl: "node_char c \<Longrightarrow> \<not> ctl_byte c"
  by (auto simp: node_char_def ctl_byte_def alnum_def Let_def)

lemma host_char_plain:
  assumes "host_char c"
  shows "c \<noteq> CHR ''%'' \<and> c \<noteq> CHR ''+'' \<and> \<not> shouldEscape c HostPart"
proof (cases "alnum c")
  case True
  then show ?thesis by (auto simp: shouldEscape_def)
next
  case False
  then consider "c = CHR ''[''" | "c = CHR '']''" | "c = CHR '':''" | "c = CHR ''.''" using assms by (auto simp: host_char_def)
  then show ?thesis by cases (simp_all add: shouldEscape_def)
qed

lemma unescape_plain:
  assumes "\<forall>c \<in> set s. c \<noteq> CHR ''%'' \<and> c \<noteq> CHR ''+'' \<and> (part = HostPart \<or> part = ZonePart \<longrightarrow> \<not> shouldEscape c part)"
  shows "url_unescape part s = Inr s"
  using assms by (induction s) auto

lemma escape_alnum: "\<forall>c \<in> set s. alnum c \<Longrightarrow> url_escape part s = s"
  by (induction s) (simp_all add: url_escape_def shouldEscape_def)

lemma getScheme_enode: "getScheme (''enode:'' @ t) = Inr (''enode'', t)"
  by (simp add: getScheme_def alnum_def is_dec_def)

lemma url_parse_authority:
  assumes "\<not> list_ex ctl_byte (''enode:'' @ rest)" and "Cut (CHR ''?'') rest = (''//'' @ authority, query)"
    and "CHR ''/'' \<notin> set authority" and "url_parseAuthority authority = Inr (user, host)"
  shows "url_parse (''enode:'' @ rest) = Inr \<lparr>u_Scheme = ''enode'', u_User = user, u_Host = host, u_RawQuery = query\<rparr>"
proof -
  have tw: "takeWhile ((\<noteq>) (CHR ''/'')) authority = authority" using assms(3) by (simp add: takeWhile_eq_all_conv) blast
  have "drop 2 (''//'' @ authority) = authority" "take 2 (''//'' @ authority) = ''//''" "take 1 (''//'' @ authority) = ''/''" by simp_all
  then show ?thesis unfolding url_parse_def if_not_P [OF assms(1)] getScheme_enode rbind_simps prod.case Let_def assms(2)
    by (simp add: ToLower_def assms(4) tw del: takeWhile_eq_all_conv)
qed

lemma parse_printed:
  assumes hx: "\<forall>c \<in> set hx. alnum c" and hp: "\<forall>c \<in> set hp. host_char c" "url_parseHost hp = Inr hp"
    and q: "\<forall>c \<in> set q. alnum c \<or> c = CHR ''=''"
  shows "url_Parse (''enode://'' @ hx @ ''@'' @ hp @ (if q = [] then [] else ''?'' @ q)) =
    Inr \<lparr>u_Scheme = ''enode'', u_User = Some (hx, None), u_Host = hp, u_RawQuery = q\<rparr>"
proof -
  let ?tail = "if q = [] then [] else ''?'' @ q"
  have hash: "\<not> node_char (CHR ''#'')" by (simp add: node_char_def)
  let ?raw = "''enode://'' @ hx @ ''@'' @ hp @ ?tail"
  have chars: "\<forall>c \<in> set ?raw. node_char c" using hx hp(1) q by (auto simp: node_char_def host_char_def alnum_def)
  then have no: "\<not> list_ex ctl_byte ?raw" "CHR ''#'' \<notin> set ?raw"
    using node_char_no_ctl hash unfolding list_ex_iff by blast+
  have auth_chars: "\<forall>c \<in> set (hx @ ''@'' @ hp). c \<noteq> CHR ''/'' \<and> c \<noteq> CHR ''?''"
    using hx hp(1) by (auto simp: host_char_def)
  have "CHR ''?'' \<notin> set (''//'' @ hx @ ''@'' @ hp)" using auth_chars by auto
  then have cutq: "Cut (CHR ''?'') (''//'' @ hx @ ''@'' @ hp @ ?tail) = (''//'' @ hx @ ''@'' @ hp, q)"
    using Cut_append [of "CHR ''?''" "''//'' @ hx @ ''@'' @ hp" q] Cut_none [of "CHR ''?''" "''//'' @ hx @ ''@'' @ hp"]
    by (cases "q = []") simp_all
  have "CHR ''@'' \<notin> set hp" using hp(1) by (auto simp: host_char_def)
  then have cutat: "CutLast (CHR ''@'') (hx @ ''@'' @ hp) = Some (hx, hp)" by simp
  have "list_all user_char hx" "CHR '':'' \<notin> set hx" using hx by (auto simp: list_all_iff user_char_def)
  moreover have "url_unescape UserPart hx = Inr hx" using hx by (intro unescape_plain) auto
  ultimately have authority: "url_parseAuthority (hx @ ''@'' @ hp) = Inr (Some (hx, None), hp)"
    by (simp only: url_parseAuthority_def cutat) (simp add: hp(2))
  have slash: "CHR ''/'' \<notin> set (hx @ ''@'' @ hp)" using auth_chars by blast
  have split: "?raw = ''enode:'' @ ''//'' @ hx @ ''@'' @ hp @ ?tail" by simp
  have "url_parse ?raw = Inr \<lparr>u_Scheme = ''enode'', u_User = Some (hx, None), u_Host = hp, u_RawQuery = q\<rparr>"
    using no(1) unfolding split by (rule url_parse_authority [OF _ cutq slash authority])
  then show ?thesis using Cut_none [OF no(2)] unfolding url_Parse_def by simp
qed

section \<open>The printed host\<close>

lemma ip_text:
  assumes "length ip = 4 \<or> length ip = 16"
  obtains "\<forall>c \<in> set (IP_String ip). ip_char (CHR ''.'') c"
  | "CHR '':'' \<in> set (IP_String ip)" "\<forall>c \<in> set (IP_String ip). ip_char (CHR '':'') c"
proof (cases "To4 ip")
  case None
  then have "IP_String ip = groups_text (ip_groups ip)" "length ip = 16" using assms by (auto simp: IP_String_def To4_def)
  then show thesis using that(2) colon_in_groups [of "ip_groups ip"] groups_text_chars ip_groups_16 [of ip] by simp
next
  case (Some f)
  then have "IP_String ip = dotted_text f" using assms by (auto simp: IP_String_def)
  then show thesis using that(1) dotted_text_chars by simp
qed

lemma port_chars:
  assumes "c \<in> set (itoa (uint w))"
  shows "is_dec c \<and> alnum c"
proof -
  obtain d where "d < 10" "nibble c = Some d" using digits_val_chars [OF itoa_word(1) assms] by blast
  then show ?thesis by (auto simp: is_dec_def alnum_def nibble_def Let_def split: if_splits)
qed

lemma no_zone: "CHR ''%'' \<notin> set s \<Longrightarrow> zone_index s = None"
  by (induction s) auto

lemma ip_char_host: "ip_char sep c \<Longrightarrow> sep = CHR ''.'' \<or> sep = CHR '':'' \<Longrightarrow> host_char c"
  using nibble_alnum [of c] by (auto simp: ip_char_def host_char_def)

lemma host_join_chars:
  assumes "\<forall>c \<in> set t. ip_char sep c" and "sep = CHR ''.'' \<or> sep = CHR '':''" and "\<forall>c \<in> set p. is_dec c \<and> alnum c"
  shows "\<forall>c \<in> set (JoinHostPort t p). host_char c"
proof -
  have "set (JoinHostPort t p) \<subseteq> set t \<union> set p \<union> set ''[]:''" by (auto simp: JoinHostPort_def)
  moreover have "\<forall>c \<in> set t. host_char c" using assms(1,2) ip_char_host by blast
  moreover have "\<forall>c \<in> set p \<union> set ''[]:''. host_char c" using assms(3) by (auto simp: host_char_def)
  ultimately show ?thesis by blast
qed

lemma host_plain: "\<forall>c \<in> set s. host_char c \<Longrightarrow> url_unescape HostPart s = Inr s"
  by (intro unescape_plain) (simp add: host_char_plain)

lemma is_dec_lits [simp]: "\<not> is_dec (CHR '':'')" "\<not> is_dec (CHR '']'')" "\<not> is_dec (CHR ''['')"
  by (simp_all add: is_dec_def)

lemma nibble_brackets [simp]: "nibble (CHR ''['') = None" "nibble (CHR '']'') = None" "nibble (CHR ''%'') = None"
  by (simp_all add: nibble_def)

lemma ip_char_lits [simp]:
  "\<not> ip_char (CHR ''.'') (CHR '':'')" "\<not> ip_char (CHR ''.'') (CHR ''['')" "\<not> ip_char (CHR ''.'') (CHR '']'')"
  "\<not> ip_char (CHR '':'') (CHR ''['')" "\<not> ip_char (CHR '':'') (CHR '']'')" "\<not> ip_char (CHR '':'') (CHR ''%'')"
  by (simp_all add: ip_char_def)

lemma printed_host_dotted:
  assumes t: "\<forall>c \<in> set t. ip_char (CHR ''.'') c" and p: "\<forall>c \<in> set p. is_dec c \<and> alnum c"
  shows "url_parseHost (JoinHostPort t p) = Inr (JoinHostPort t p) \<and> SplitHostPort (JoinHostPort t p) = Inr (t, p)"
proof -
  have no: "CHR '':'' \<notin> set t" "CHR ''['' \<notin> set t" "CHR '']'' \<notin> set t" using t ip_char_lits by blast+
  have nop: "CHR '':'' \<notin> set p" "CHR ''['' \<notin> set p" "CHR '']'' \<notin> set p" using p is_dec_lits by blast+
  let ?h = "t @ CHR '':'' # p"
  have j: "JoinHostPort t p = ?h" using no by (simp add: JoinHostPort_def)
  have first: "take 1 ?h \<noteq> ''[''" using no(2) by (cases t) auto
  have cut: "CutLast (CHR '':'') ?h = Some (t, p)" using nop(1) by (rule CutLast_append)
  have "url_unescape HostPart ?h = Inr ?h" using host_join_chars [OF t _ p] by (intro host_plain) (simp add: j)
  moreover have "validOptionalPort (CHR '':'' # p)" using p by (simp add: validOptionalPort_def)
  ultimately have "url_parseHost ?h = Inr ?h" unfolding url_parseHost_def if_not_P [OF first] cut by simp
  moreover have "SplitHostPort ?h = Inr (t, p)"
    unfolding SplitHostPort_def cut Let_def option.case prod.case if_not_P [OF first] using no nop by simp
  ultimately show ?thesis by (simp only: j)
qed

lemma printed_host_groups:
  assumes t: "\<forall>c \<in> set t. ip_char (CHR '':'') c" "CHR '':'' \<in> set t" and p: "\<forall>c \<in> set p. is_dec c \<and> alnum c"
  shows "url_parseHost (JoinHostPort t p) = Inr (JoinHostPort t p) \<and> SplitHostPort (JoinHostPort t p) = Inr (t, p)"
proof -
  have no: "CHR ''['' \<notin> set t" "CHR '']'' \<notin> set t" "CHR ''%'' \<notin> set t" using t(1) ip_char_lits by blast+
  have nop: "CHR '':'' \<notin> set p" "CHR ''['' \<notin> set p" "CHR '']'' \<notin> set p" using p is_dec_lits by blast+
  let ?h = "''['' @ t @ '']:'' @ p"
  have j: "JoinHostPort t p = ?h" using t(2) by (simp add: JoinHostPort_def)
  have first: "take 1 ?h = ''[''" by simp
  have cutb: "CutLast (CHR '']'') ?h = Some (''['' @ t, '':'' @ p)"
    using CutLast_append [of "CHR '']''" "'':'' @ p" "''['' @ t"] nop(3) by simp
  have cutc: "CutLast (CHR '':'') ?h = Some (''['' @ t @ '']'', p)"
    using CutLast_append [of "CHR '':''" p "''['' @ t @ '']''"] nop(1) by simp
  have "url_unescape HostPart ?h = Inr ?h" using host_join_chars [OF t(1) _ p] by (intro host_plain) (simp add: j)
  moreover have "validOptionalPort ('':'' @ p)" using p by (simp add: validOptionalPort_def)
  moreover have "zone_index (''['' @ t) = None" using no(3) by (intro no_zone) simp
  ultimately have "url_parseHost ?h = Inr ?h" unfolding url_parseHost_def if_P [OF first] cutb by simp
  moreover have "takeWhile ((\<noteq>) (CHR '']'')) ?h = ''['' @ t"
    using no(2) Cut_append [of "CHR '']''" "''['' @ t" "'':'' @ p"] by (simp add: Cut_def)
  then have "SplitHostPort ?h = Inr (t, p)"
    unfolding SplitHostPort_def cutc Let_def option.case prod.case if_P [OF first] using no nop by simp
  ultimately show ?thesis by (simp only: j)
qed

lemma printed_host:
  assumes "length ip = 4 \<or> length ip = 16" and "h = JoinHostPort (IP_String ip) (itoa (uint (w :: 16 word)))"
  shows "url_parseHost h = Inr h \<and> SplitHostPort h = Inr (IP_String ip, itoa (uint w)) \<and> (\<forall>c \<in> set h. host_char c)"
proof -
  have p: "\<forall>c \<in> set (itoa (uint w)). is_dec c \<and> alnum c" using port_chars by blast
  from assms(1) show ?thesis
  proof (cases rule: ip_text)
    case 1
    then show ?thesis using printed_host_dotted [OF 1 p] host_join_chars [OF 1 _ p] by (simp add: assms(2))
  next
    case 2
    then show ?thesis using printed_host_groups [OF 2(2,1) p] host_join_chars [OF 2(2) _ p] by (simp add: assms(2))
  qed
qed

section \<open>Nodes that were read\<close>

lemma split_on_none: "c \<notin> set s \<Longrightarrow> split_on c s = [s]"
  by (induction s) auto

lemma discport_query:
  assumes "\<forall>c \<in> set p. alnum c" and "p \<noteq> []"
  shows "Query_Get (''discport='' @ p) ''discport'' = p"
proof -
  have no: "CHR ''&'' \<notin> set (''discport='' @ p)" "CHR '';'' \<notin> set (''discport='' @ p)" using assms(1) by auto
  have cut: "Cut (CHR ''='') (''discport='' @ p) = (''discport'', p)"
    using Cut_append [of "CHR ''=''" "''discport''" p] by simp
  have "url_unescape QueryPart ''discport'' = Inr ''discport''" by (intro unescape_plain) auto
  moreover have "url_unescape QueryPart p = Inr p" using assms(1) by (intro unescape_plain) auto
  ultimately have "query_pair (''discport='' @ p) = Some (''discport'', p)"
    using no(2) unfolding query_pair_def cut by simp
  then show ?thesis unfolding Query_Get_def split_on_none [OF no(1)] by simp
qed

lemma v4_loop_length: "v4_loop prev fs val len s = Inr b \<Longrightarrow> length fs \<le> 3 \<Longrightarrow> length b = 4"
  by (induction prev fs val len s rule: v4_loop.induct) (auto split: option.splits if_splits)

lemma v6_loop_length:
  "v6_loop n ip ell s = Inr (ip', ell', s') \<Longrightarrow> length ip + 2 * n \<le> 16 \<Longrightarrow> length ip' \<le> 16"
proof (induction n arbitrary: ip ell s)
  case (Suc n)
  from Suc.prems show ?case
    by (auto simp: v6_loop.simps parseIPv4_def split: sum.splits prod.splits if_splits list.splits
        dest: v4_loop_length Suc.IH)
qed (simp add: v6_loop.simps)

lemma v6_expand_length: "v6_expand (ip, ell, s) = Inr b \<Longrightarrow> length ip \<le> 16 \<Longrightarrow> length b = 16"
  by (auto simp: v6_expand_def split: if_splits option.splits)

lemma parseIPv6_length:
  assumes "parseIPv6 s = Inr (ip, zone)"
  shows "length ip = 16"
proof -
  from assms obtain ip' ell' s' where r: "v6_expand (ip', ell', s') = Inr ip"
    and "(ip', ell', s') = ([], Some 0, []) \<or> (\<exists>ell t. v6_loop 8 [] ell t = Inr (ip', ell', s'))"
    by (auto simp: parseIPv6_def rbind_def split: prod.splits sum.splits if_splits) blast+
  then have "length ip' \<le> 16" using v6_loop_length [of 8 "[]"] by auto
  then show ?thesis by (rule v6_expand_length [OF r])
qed

lemma ParseIP_length:
  assumes "net_ParseIP s = Some ip"
  shows "length ip = 16"
proof -
  obtain zone where "ParseAddr s = Inr (ip, zone)"
    using assms by (auto simp: net_ParseIP_def split: sum.splits prod.splits if_splits)
  then consider f where "parseIPv4 s = Inr f" "ip = v4_prefix @ f" | "parseIPv6 s = Inr (ip, zone)"
    by (auto simp: ParseAddr_def rbind_def split: list.splits if_splits sum.splits)
  then show ?thesis
  proof cases
    case 1
    then show ?thesis using v4_loop_length [of None "[]" 0 0 s f] by (simp add: parseIPv4_def v4_prefix_def)
  qed (rule parseIPv6_length)
qed

definition node_ok :: "enode \<Rightarrow> bool" where
  "node_ok n \<longleftrightarrow> length (en_ID n) = nodeIDBytes \<and> (length (en_IP n) = 4 \<or> length (en_IP n) = 16)"

lemma Enode_String_shape:
  assumes "node_ok n"
  shows "Enode_String n = ''enode://'' @ ID_String (en_ID n) @ ''@'' @ JoinHostPort (IP_String (en_IP n)) (itoa (uint (en_TCP n))) @
    (let q = if en_TCP n \<noteq> en_UDP n then ''discport='' @ itoa (uint (en_UDP n)) else [] in if q = [] then [] else ''?'' @ q)"
  using assms by (auto simp: Enode_String_def TCPAddr_String_def TCPAddr_def node_ok_def Let_def)

lemma ParseURL_printed:
  assumes "node_ok n"
  shows "ParseURL (Enode_String n) = Inr (n\<lparr>en_IP := As16 (en_IP n)\<rparr>)"
proof -
  let ?hx = "ID_String (en_ID n)" and ?hp = "JoinHostPort (IP_String (en_IP n)) (itoa (uint (en_TCP n)))"
  let ?q = "if en_TCP n \<noteq> en_UDP n then ''discport='' @ itoa (uint (en_UDP n)) else []"
  have hx: "\<forall>c \<in> set ?hx. alnum c" using hex_chars nibble_alnum nibble_hex_digit by (fastforce simp: ID_String_def)
  have port: "\<forall>c \<in> set (itoa (uint (en_UDP n))). alnum c" using port_chars by blast
  then have q: "\<forall>c \<in> set ?q. alnum c \<or> c = CHR ''=''" by (auto simp: alnum_def)
  have ip: "length (en_IP n) = 4 \<or> length (en_IP n) = 16" using assms by (simp add: node_ok_def)
  note host = printed_host [OF ip refl, of "en_TCP n"]
  have url: "url_Parse (Enode_String n) = Inr \<lparr>u_Scheme = ''enode'', u_User = Some (?hx, None), u_Host = ?hp, u_RawQuery = ?q\<rparr>"
    unfolding Enode_String_shape [OF assms] Let_def using host by (intro parse_printed hx q) simp_all
  have "Query_Get [] ''discport'' = []" by (simp add: Query_Get_def query_pair_def map_filter_simps)
  then have disc: "(if Query_Get ?q ''discport'' \<noteq> [] then ParseUint16 (Query_Get ?q ''discport'') else Inr (en_TCP n)) = Inr (en_UDP n)"
    using discport_query [OF port] by simp
  have user: "User_String (Some (?hx, None)) = Inr ?hx" using escape_alnum [OF hx] by (simp add: User_String_def)
  have dec: "hex_DecodeString ?hx = (en_ID n, None)" by (simp add: ID_String_def)
  have split: "SplitHostPort ?hp = Inr (IP_String (en_IP n), itoa (uint (en_TCP n)))" using host by blast
  have "\<not> length (en_ID n) \<noteq> nodeIDBytes" using assms by (simp add: node_ok_def)
  then show ?thesis
    unfolding ParseURL_def url rbind_simps url.simps user dec split prod.case option.case sum.case ParseIP_String [OF ip]
      ParseUint16_itoa Let_def disc by simp
qed

lemma ParseURL_ok:
  assumes "ParseURL raw = Inr n"
  shows "node_ok n \<and> length (en_IP n) = 16"
  using assms ParseIP_length
  by (auto simp: ParseURL_def rbind_def node_ok_def Let_def split: sum.splits prod.splits option.splits if_splits)

section \<open>Errors that are no panics\<close>

definition quiet :: "go_err + 'a \<Rightarrow> bool" where
  "quiet r \<longleftrightarrow> (\<forall>e. r = Inl e \<longrightarrow> \<not> is_panic e)"

fun panics :: "go_err + 'a \<Rightarrow> bool" where
  "panics (Inl e) = is_panic e" | "panics (Inr _) = False"

lemma quiet_panics: "quiet r \<longleftrightarrow> \<not> panics r"
  by (cases r) (simp_all add: quiet_def)

lemma quiet_rbind: "quiet r \<Longrightarrow> (\<And>x. r = Inr x \<Longrightarrow> quiet (k x)) \<Longrightarrow> quiet (rbind r k)"
  by (cases r) (simp_all add: quiet_def)

lemma quiet_Inr [simp]: "quiet (Inr x)" and quiet_Inl [simp]: "quiet (Inl e) \<longleftrightarrow> \<not> is_panic e"
  by (simp_all add: quiet_def)

lemma quiet_case: "quiet r \<Longrightarrow> quiet (case r of Inl e \<Rightarrow> Inl e | Inr t \<Rightarrow> Inr (f t))"
  by (cases r) simp_all

lemma quiet_EscapeError [simp]: "\<not> is_panic (EscapeError s)"
  by (simp add: EscapeError_def)

lemma quiet_unescape [simp]: "quiet (url_unescape part s)"
proof (induction s rule: length_induct)
  case (1 s)
  show ?case
  proof (cases s)
    case (Cons c t)
    then have IH: "quiet (url_unescape part t)" "\<And>a b r. t = a # b # r \<Longrightarrow> quiet (url_unescape part r)" using 1 by simp_all
    show ?thesis
    proof (cases "c = CHR ''%''")
      case True
      then show ?thesis
        by (cases t rule: remdups_adj.cases) (use IH(2) in \<open>simp_all add: Cons quiet_case split: option.split\<close>)
    next
      case False
      then show ?thesis using IH(1) by (simp add: Cons quiet_case)
    qed
  qed simp
qed

declare url_unescape.simps [simp del]

lemma quiet_parseHost [simp]: "quiet (url_parseHost h)"
  by (auto simp: url_parseHost_def intro!: quiet_rbind split: option.splits)

lemma quiet_parseAuthority [simp]: "quiet (url_parseAuthority a)"
  by (auto simp: url_parseAuthority_def intro!: quiet_rbind split: option.splits prod.splits)

lemma quiet_getScheme [simp]: "quiet (getScheme s)"
  by (simp add: getScheme_def Let_def)

lemma quiet_url_parse [simp]: "quiet (url_parse s)"
  by (auto simp: url_parse_def Let_def intro!: quiet_rbind split: prod.splits)

lemma quiet_url_Parse [simp]: "quiet (url_Parse s)"
  using quiet_url_parse [of "fst (Cut (CHR ''#'') s)"] quiet_unescape [of FragmentPart "snd (Cut (CHR ''#'') s)"]
  by (auto simp: url_Parse_def quiet_def split: prod.splits sum.splits)

lemma quiet_SplitHostPort [simp]: "quiet (SplitHostPort h)"
  by (auto simp: SplitHostPort_def Let_def ErrMissingPort_def ErrTooManyColons_def split: option.splits)

lemma quiet_port [simp]: "quiet (port_loop n s)"
  by (induction n s rule: port_loop.induct) (auto simp: ErrSyntax_def ErrRange_def split: option.splits)

lemma quiet_ParseUint16 [simp]: "quiet (ParseUint16 s)"
  by (simp add: ParseUint16_def ErrSyntax_def)

lemma quiet_hex: "hex_DecodeString s = (b, Some e) \<Longrightarrow> \<not> is_panic e"
  by (induction s arbitrary: b rule: hex_DecodeString.induct)
    (auto simp: ErrInvalidByte_def ErrHexLength_def split: option.splits prod.splits if_splits)

lemma ParseURL_quiet:
  assumes "url_Parse raw = Inr u" and "u_Scheme u \<noteq> ''enode'' \<or> u_User u \<noteq> None"
  shows "quiet (ParseURL raw)"
proof (cases "u_Scheme u = ''enode''")
  case True
  then obtain w where w: "User_String (u_User u) = Inr w" using assms(2) by (auto simp: User_String_def split: option.splits prod.splits)
  have "quiet (ParseUint16 p)" "quiet (SplitHostPort h)" for p h by simp_all
  then show ?thesis
    by (auto simp: ParseURL_def assms(1) True w quiet_def Let_def dest: quiet_hex split: prod.splits option.splits sum.splits if_splits)
qed (simp add: ParseURL_def assms(1))

section \<open>Identifiers and keys\<close>

text \<open>The uncompressed form of a point, as \<open>elliptic.Marshal\<close> documents it.\<close>

definition marshal_laws :: "('k, int \<times> int) curve_lib \<Rightarrow> (int \<Rightarrow> int \<Rightarrow> bool) \<Rightarrow> bool" where
  "marshal_laws C onCurve \<longleftrightarrow> (\<forall>X Y. onCurve X Y \<longrightarrow> (\<exists>x y. length x = 32 \<and> length y = 32 \<and>
     big_SetBytes x = X \<and> big_SetBytes y = Y \<and> cv_Marshal C (X, Y) = 4 # x @ y))"

lemma big_SetBytes_inj: "length a = length b \<Longrightarrow> big_SetBytes a = big_SetBytes b \<Longrightarrow> a = b"
  using pad_Bytes_SetBytes [of a "length b"] pad_Bytes_SetBytes [of b "length b"] by (metis sum.inject(2))

lemma node_id_key:
  assumes laws: "marshal_laws C onCurve"
  shows "onCurve (fst pub) (snd pub) \<Longrightarrow> \<exists>buf. PubkeyToEnode C pub = Inr buf \<and> NodeIDToPubKey onCurve buf = Inr pub"
    and "NodeIDToPubKey onCurve buf = Inr pub \<Longrightarrow> PubkeyToEnode C pub = Inr buf"
proof -
  have form: "\<exists>x y. length x = 32 \<and> length y = 32 \<and> big_SetBytes x = fst pub \<and> big_SetBytes y = snd pub \<and> PubkeyToEnode C pub = Inr (x @ y)"
    if on: "onCurve (fst pub) (snd pub)"
  proof -
    obtain x y where xy: "length x = 32" "length y = 32" "big_SetBytes x = fst pub" "big_SetBytes y = snd pub" "cv_Marshal C pub = 4 # x @ y"
      using laws on unfolding marshal_laws_def by (metis prod.collapse)
    then have "PubkeyToEnode C pub = Inr (x @ y)" by (simp add: PubkeyToEnode_def MarshalPublicKey_def nodeIDBytes_def)
    then show ?thesis using xy by blast
  qed
  show "\<exists>buf. PubkeyToEnode C pub = Inr buf \<and> NodeIDToPubKey onCurve buf = Inr pub" if on: "onCurve (fst pub) (snd pub)"
  proof -
    obtain x y where xy: "length x = 32" "length y = 32" "big_SetBytes x = fst pub" "big_SetBytes y = snd pub" "PubkeyToEnode C pub = Inr (x @ y)"
      using form [OF on] by blast
    then have "NodeIDToPubKey onCurve (x @ y) = Inr pub" using on by (simp add: NodeIDToPubKey_def nodeIDBytes_def Let_def)
    then show ?thesis using xy(5) by blast
  qed
  show "PubkeyToEnode C pub = Inr buf" if key: "NodeIDToPubKey onCurve buf = Inr pub"
  proof -
    from key have buf: "length buf = 64" "big_SetBytes (take 32 buf) = fst pub" "big_SetBytes (drop 32 buf) = snd pub" "onCurve (fst pub) (snd pub)"
      by (auto simp: NodeIDToPubKey_def nodeIDBytes_def Let_def split: if_splits)
    obtain x y where xy: "length x = 32" "length y = 32" "big_SetBytes x = fst pub" "big_SetBytes y = snd pub" "PubkeyToEnode C pub = Inr (x @ y)"
      using form [OF buf(4)] by blast
    have "x = take 32 buf" using buf(1,2) xy(1,3) by (intro big_SetBytes_inj) simp_all
    moreover have "y = drop 32 buf" using buf(1,3) xy(2,4) by (intro big_SetBytes_inj) simp_all
    ultimately show ?thesis using xy(5) by simp
  qed
qed

text \<open>The curve secp256k1 and the uncompressed form of its points.\<close>

definition secp256k1P :: int where
  "secp256k1P = 0xfffffffffffffffffffffffffffffffffffffffffffffffffffffffefffffc2f"

definition secp_on :: "int \<Rightarrow> int \<Rightarrow> bool" where
  "secp_on X Y \<longleftrightarrow> 0 \<le> X \<and> X < secp256k1P \<and> 0 \<le> Y \<and> Y < secp256k1P \<and> (Y * Y - X * X * X - 7) mod secp256k1P = 0"

definition fill32 :: "int \<Rightarrow> bytes" where
  "fill32 X = replicate (32 - length (big_Bytes X)) 0 @ big_Bytes X"

definition secp_lib :: "(unit, int \<times> int) curve_lib" where
  "secp_lib = \<lparr>cv_Keccak = (\<lambda>b. b), cv_SignCompact = (\<lambda>k h. Inl (GoErr [])), cv_RecoverCompact = (\<lambda>s h. Inl (GoErr [])),
     cv_Marshal = (\<lambda>pub. 4 # fill32 (fst pub) @ fill32 (snd pub)), cv_Unmarshal = (\<lambda>b. None),
     cv_PrivKeyFromBytes = (\<lambda>b. ()), cv_Serialize = (\<lambda>k. []), cv_Public = (\<lambda>k. (0, 0))\<rparr>"

lemma length_nat_bytes: "n < 256 ^ k \<Longrightarrow> length (nat_bytes n) \<le> k"
proof (induction k arbitrary: n)
  case (Suc k)
  show ?case
  proof (cases "n = 0")
    case False
    have "n div 256 < 256 ^ k" using Suc.prems by (simp add: less_mult_imp_div_less mult.commute)
    then show ?thesis using False Suc.IH by (subst nat_bytes.simps) simp
  qed simp
qed simp

lemma fill32: "0 \<le> X \<Longrightarrow> X < secp256k1P \<Longrightarrow> length (fill32 X) = 32 \<and> big_SetBytes (fill32 X) = X"
proof -
  assume X: "0 \<le> X" "X < secp256k1P"
  then have "nat (abs X) < 256 ^ 32" by (simp add: secp256k1P_def nat_less_iff)
  then have "length (big_Bytes X) \<le> 32" by (simp add: big_Bytes_def length_nat_bytes)
  moreover have "big_SetBytes (replicate k 0 @ b) = big_SetBytes b" for k b
    by (induction k) (simp_all add: big_SetBytes_def)
  ultimately show ?thesis using X(1) by (simp add: fill32_def)
qed

lemma secp_marshal_laws: "marshal_laws secp_lib secp_on"
  unfolding marshal_laws_def
proof (intro allI impI)
  fix X Y :: int
  assume "secp_on X Y"
  then show "\<exists>x y. length x = 32 \<and> length y = 32 \<and> big_SetBytes x = X \<and> big_SetBytes y = Y \<and> cv_Marshal secp_lib (X, Y) = 4 # x @ y"
    using fill32 [of X] fill32 [of Y] by (intro exI [of _ "fill32 X"] exI [of _ "fill32 Y"]) (simp add: secp_on_def secp_lib_def)
qed

section \<open>Properties\<close>

text \<open>C39. \<open>ParseURL\<close> reads back the text of every node, in any of the two forms of its address, with IPv4 addresses in
  16-byte form; what \<open>ParseURL\<close> accepts is such a node, and its text parses to the same node again.  Identifiers
  and the points of the curve correspond one to one, through \<open>PubkeyToEnode\<close> and \<open>PublicKey\<close>.\<close>

theorem node_url_round_trip:
  assumes "marshal_laws C onCurve"
  shows "(node_ok n \<longrightarrow> ParseURL (Enode_String n) = Inr (n\<lparr>en_IP := As16 (en_IP n)\<rparr>))
    \<and> (ParseURL raw = Inr m \<longrightarrow> node_ok m \<and> ParseURL (Enode_String m) = Inr m)
    \<and> (onCurve (fst pub) (snd pub) \<longrightarrow> (\<exists>buf. PubkeyToEnode C pub = Inr buf \<and> PublicKey onCurve (m\<lparr>en_ID := buf\<rparr>) = Inr pub))
    \<and> (PublicKey onCurve m = Inr pub \<longrightarrow> PubkeyToEnode C pub = Inr (en_ID m))"
proof -
  have "node_ok m \<and> ParseURL (Enode_String m) = Inr m" if "ParseURL raw = Inr m"
    using ParseURL_ok [OF that] ParseURL_printed [of m] by (simp add: As16_def)
  then show ?thesis using ParseURL_printed [of n] node_id_key [OF assms] by (auto simp: PublicKey_def)
qed

theorem node_url_round_trip_witness:
  "ParseURL (Enode_String \<lparr>en_ID = replicate 64 7, en_TCP = 30303, en_UDP = 30301, en_IP = [127, 0, 0, 1]\<rparr>) =
     Inr \<lparr>en_ID = replicate 64 7, en_TCP = 30303, en_UDP = 30301, en_IP = v4_prefix @ [127, 0, 0, 1]\<rparr>
   \<and> (\<exists>buf. PubkeyToEnode secp_lib
       (0x79BE667EF9DCBBAC55A06295CE870B07029BFCDB2DCE28D959F2815B16F81798, 0x483ADA7726A3C4655DA4FBFC0E1108A8FD17B448A68554199C47D08FFB10D4B8) = Inr buf \<and>
      PublicKey secp_on \<lparr>en_ID = buf, en_TCP = 30303, en_UDP = 30301, en_IP = []\<rparr> =
        Inr (0x79BE667EF9DCBBAC55A06295CE870B07029BFCDB2DCE28D959F2815B16F81798, 0x483ADA7726A3C4655DA4FBFC0E1108A8FD17B448A68554199C47D08FFB10D4B8))"
proof -
  let ?G = "(0x79BE667EF9DCBBAC55A06295CE870B07029BFCDB2DCE28D959F2815B16F81798 :: int, 0x483ADA7726A3C4655DA4FBFC0E1108A8FD17B448A68554199C47D08FFB10D4B8 :: int)"
  let ?n = "\<lparr>en_ID = replicate 64 7, en_TCP = 30303, en_UDP = 30301, en_IP = [127, 0, 0, 1]\<rparr> :: enode"
  have ok: "node_ok ?n" by (simp add: node_ok_def nodeIDBytes_def)
  have "snd ?G * snd ?G - fst ?G * fst ?G * fst ?G - 7 = - (0x1b888e01a06e974017a28a5b4da436169761c9730b7aeedf75fc60f6a33cfc7792fe74711f025d590b10e57f1b3a7ce38ffc4c885c515894b45c19c9f413e5e9 * secp256k1P)" by (simp add: secp256k1P_def)
  then have "(snd ?G * snd ?G - fst ?G * fst ?G * fst ?G - 7) mod secp256k1P = 0"
    by (simp only: mod_eq_0_iff_dvd dvd_minus_iff dvd_triv_right)
  moreover have "0 \<le> fst ?G" "fst ?G < secp256k1P" "0 \<le> snd ?G" "snd ?G < secp256k1P" by (simp_all add: secp256k1P_def)
  ultimately have "secp_on (fst ?G) (snd ?G)" by (simp only: secp_on_def simp_thms)
  then show ?thesis
    using ok node_url_round_trip [OF secp_marshal_laws, of ?n "[]" "\<lparr>en_ID = [], en_TCP = 30303, en_UDP = 30301, en_IP = []\<rparr>" ?G]
    by (simp add: As16_def)
qed

text \<open>C40. \<open>ParseURL\<close> panics on exactly the texts that are URLs of the scheme without a user, as
  \<open>enode://127.0.0.1:30303\<close> or \<open>enode:x\<close>: it calls \<open>String\<close> on a nil \<open>Userinfo\<close>.  Every other bad text is an error.\<close>

theorem node_url_panics:
  "(panics (ParseURL raw) \<longleftrightarrow> (\<exists>u. url_Parse raw = Inr u \<and> u_Scheme u = ''enode'' \<and> u_User u = None))
   \<and> panics (ParseURL ''enode://127.0.0.1:30303'') \<and> panics (ParseURL ''enode:x'')"
proof (intro conjI)
  show "panics (ParseURL raw) \<longleftrightarrow> (\<exists>u. url_Parse raw = Inr u \<and> u_Scheme u = ''enode'' \<and> u_User u = None)"
  proof (cases "url_Parse raw")
    case (Inl e)
    then show ?thesis using quiet_url_Parse [of raw] by (simp add: ParseURL_def quiet_def)
  next
    case (Inr u)
    show ?thesis
    proof (cases "u_Scheme u = ''enode'' \<and> u_User u = None")
      case True
      then show ?thesis using Inr by (simp add: ParseURL_def User_String_def)
    next
      case False
      then show ?thesis using Inr ParseURL_quiet [OF Inr] by (auto simp: quiet_panics)
    qed
  qed
  show "panics (ParseURL ''enode://127.0.0.1:30303'')" "panics (ParseURL ''enode:x'')"
    by code_simp+
qed

end
