(* ===== verification/Fast_Http.thy ===== *)
theory Fast_Http
  imports EMC_Prelude
begin

text \<open>
  The HTTP client of the endpoint, \<open>core/helper/rpc/fast_http_client.go\<close>.  The library \<open>fasthttp\<close> is a parameter: the outcome
  of each request, and which response object its pool hands out.  A response object owns the buffer of its body, and
  what \<open>Body\<close> returns is a slice of that buffer, so results are references.
\<close>

section \<open>Clients\<close>

text \<open>Times in seconds.\<close>

record fast_client =
  fc_ReadTimeout :: int
  fc_WriteTimeout :: int
  fc_NoDefaultUserAgentHeader :: bool
  fc_DisableHeaderNamesNormalizing :: bool
  fc_DisablePathNormalizing :: bool
  fc_Concurrency :: int
  fc_DNSCacheDuration :: int

definition NewHttpClient :: "int \<Rightarrow> int \<Rightarrow> int \<Rightarrow> fast_client" where
  "NewHttpClient concurrency readTimeout writeTimeout =
     \<lparr>fc_ReadTimeout = readTimeout, fc_WriteTimeout = writeTimeout, fc_NoDefaultUserAgentHeader = True,
      fc_DisableHeaderNamesNormalizing = True, fc_DisablePathNormalizing = True,
      fc_Concurrency = concurrency, fc_DNSCacheDuration = 60 * 60\<rparr>"

definition NewDefaultHttpClient :: fast_client where
  "NewDefaultHttpClient =
     \<lparr>fc_ReadTimeout = 60, fc_WriteTimeout = 60, fc_NoDefaultUserAgentHeader = True,
      fc_DisableHeaderNamesNormalizing = True, fc_DisablePathNormalizing = True,
      fc_Concurrency = 1000, fc_DNSCacheDuration = 60 * 60\<rparr>"

lemma default_client: "NewDefaultHttpClient = NewHttpClient 1000 60 60"
  by (simp add: NewDefaultHttpClient_def NewHttpClient_def)

section \<open>Requests\<close>

record http_request =
  hr_URI :: string
  hr_Method :: string
  hr_ContentType :: "string option"
  hr_Body :: bytes

definition get_request :: "string \<Rightarrow> http_request" where
  "get_request url = \<lparr>hr_URI = url, hr_Method = ''GET'', hr_ContentType = None, hr_Body = []\<rparr>"

definition post_request :: "string \<Rightarrow> bytes \<Rightarrow> http_request" where
  "post_request url reqEntityBytes =
     \<lparr>hr_URI = url, hr_Method = ''POST'', hr_ContentType = Some ''application/json'', hr_Body = reqEntityBytes\<rparr>"

text \<open>The bodies of the response objects, the objects in the pool, and how many request objects are in use.\<close>

record http_store =
  hs_bodies :: "bytes list"
  hs_pool :: "nat list"
  hs_requests :: nat

text \<open>Where a call is: before the request, with its response object, before the deferred release, returned.  A result
  without error is a slice: the object of the buffer and the length.\<close>

datatype http_call = SendGetRequest string | SendPostJsonRequest string bytes

datatype http_at = AtAcquire | AtDo nat | AtRelease nat "go_err + nat \<times> nat" | Returned "go_err + nat \<times> nat"

fun request_of :: "http_call \<Rightarrow> http_request" where
  "request_of (SendGetRequest url) = get_request url"
| "request_of (SendPostJsonRequest url b) = post_request url b"

fun is_get :: "http_call \<Rightarrow> bool" where
  "is_get (SendGetRequest url) = True" | "is_get (SendPostJsonRequest url b) = False"

definition AcquireResponse :: "nat option \<Rightarrow> http_store \<Rightarrow> (nat \<times> http_store) option" where
  "AcquireResponse pick S = (case pick of
     Some k \<Rightarrow> if k \<in> set (hs_pool S) then Some (k, S\<lparr>hs_pool := remove1 k (hs_pool S)\<rparr>) else None
   | None \<Rightarrow> Some (length (hs_bodies S), S\<lparr>hs_bodies := hs_bodies S @ [[]]\<rparr>))"

text \<open>The next step of a call; \<open>outcome\<close> is what \<open>Do\<close> gives for the request.  Only a GET gives its request object back.\<close>

fun http_turn :: "nat option \<Rightarrow> (http_request \<Rightarrow> go_err + bytes) \<Rightarrow> http_call \<Rightarrow> http_at \<Rightarrow> http_store \<Rightarrow> (http_at \<times> http_store) option" where
  "http_turn pick outcome call AtAcquire S =
     map_option (\<lambda>(k, S1). (AtDo k, S1\<lparr>hs_requests := hs_requests S1 + 1\<rparr>)) (AcquireResponse pick S)"
| "http_turn pick outcome call (AtDo k) S = (
     let S1 = (if is_get call then S\<lparr>hs_requests := hs_requests S - 1\<rparr> else S) in
     Some (case outcome (request_of call) of
       Inl err \<Rightarrow> (AtRelease k (Inl err), S1)
     | Inr body \<Rightarrow> (AtRelease k (Inr (k, length body)), S1\<lparr>hs_bodies := (hs_bodies S)[k := body]\<rparr>)))"
| "http_turn pick outcome call (AtRelease k r) S = Some (Returned r, S\<lparr>hs_pool := k # hs_pool S\<rparr>)"
| "http_turn pick outcome call (Returned r) S = None"

text \<open>What a holder of a slice reads.\<close>

definition slice_of :: "http_store \<Rightarrow> nat \<times> nat \<Rightarrow> bytes" where
  "slice_of S s = take (snd s) (hs_bodies S ! fst s)"

text \<open>\<open>HttpConnError\<close>: the errors that it knows by identity, and any other by the name of its type; on nil it calls \<open>String\<close> on
  a nil type.\<close>

datatype conn_error = ErrTimeout | ErrNoFreeConns | ErrConnectionClosed | OtherError string

definition HttpConnError :: "conn_error option \<Rightarrow> go_err + string \<times> bool" where
  "HttpConnError err = (case err of
     Some ErrTimeout \<Rightarrow> Inr (''timeout'', True)
   | Some ErrNoFreeConns \<Rightarrow> Inr (''conn_limit'', True)
   | Some ErrConnectionClosed \<Rightarrow> Inr (''conn_close'', True)
   | Some (OtherError typ) \<Rightarrow> Inr (if typ = ''*net.OpError'' then (''timeout'', True) else (typ, False))
   | None \<Rightarrow> Inl (GoPanic ''invalid memory address or nil pointer dereference''))"

lemma conn_error_panics: "(\<exists>e. HttpConnError err = Inl e) \<longleftrightarrow> err = None"
  by (auto simp: HttpConnError_def split: option.split conn_error.split)

section \<open>Calls of many goroutines\<close>

inductive http_step :: "(http_request \<Rightarrow> go_err + bytes) \<Rightarrow> http_store \<times> (http_call \<times> http_at) list \<Rightarrow>
    http_store \<times> (http_call \<times> http_at) list \<Rightarrow> bool" where
  issues: "http_step outcome (S, cs) (S, cs @ [(call, AtAcquire)])"
| turns: "i < length cs \<Longrightarrow> cs ! i = (call, pc) \<Longrightarrow> http_turn pick outcome call pc S = Some (pc', S') \<Longrightarrow>
    http_step outcome (S, cs) (S', cs[i := (call, pc')])"

inductive http_reach :: "http_store \<times> (http_call \<times> http_at) list \<Rightarrow> bool" where
  start: "http_reach (\<lparr>hs_bodies = [], hs_pool = [], hs_requests = 0\<rparr>, [])"
| steps: "http_reach s \<Longrightarrow> http_step outcome s s' \<Longrightarrow> http_reach s'"

text \<open>The request object that a call has taken and not given back.\<close>

fun owes :: "http_call \<times> http_at \<Rightarrow> nat" where
  "owes (call, AtAcquire) = 0"
| "owes (call, AtDo k) = 1"
| "owes (call, AtRelease k r) = (if is_get call then 0 else 1)"
| "owes (call, Returned r) = (if is_get call then 0 else 1)"

lemma sum_list_owes_update:
  "i < length cs \<Longrightarrow> sum_list (map owes (cs[i := c])) + owes (cs ! i) = sum_list (map owes cs) + owes c"
  by (induction cs arbitrary: i) (auto split: nat.split simp: nth_Cons)

text \<open>Every POST keeps its request object for ever, and no other call does.\<close>

lemma requests_kept: "http_reach s \<Longrightarrow> hs_requests (fst s) = sum_list (map owes (snd s))"
proof (induction rule: http_reach.induct)
  case (steps s outcome s')
  from steps(2,3) show ?case
  proof (cases rule: http_step.cases)
    case (turns i cs call pc pick S pc' S')
    note upd = sum_list_owes_update [OF turns(3), of "(call, pc')"]
    show ?thesis
    proof (cases pc)
      case AtAcquire
      then show ?thesis using turns steps(3) upd by (auto simp: AcquireResponse_def split: option.splits if_splits)
    next
      case (AtDo k)
      then show ?thesis using turns steps(3) upd by (auto simp: Let_def split: sum.splits if_splits)
    next
      case (AtRelease k r)
      then show ?thesis using turns steps(3) upd by (cases "is_get call") auto
    next
      case (Returned r)
      then show ?thesis using turns by simp
    qed
  qed simp
qed simp

text \<open>One step of the call issued last.\<close>

lemma last_turn:
  assumes "http_reach (S, cs @ [(c, pc)])" and "http_turn pick outcome c pc S = Some (pc', S')"
  shows "http_reach (S', cs @ [(c, pc')])"
  using http_reach.steps [OF assms(1)] http_step.turns [of "length cs" "cs @ [(c, pc)]" c pc pick outcome S pc' S'] assms(2)
  by simp

text \<open>A GET on a store of one free object.\<close>

lemma get_runs:
  assumes "http_reach (\<lparr>hs_bodies = [old], hs_pool = [0], hs_requests = n\<rparr>, cs)"
  shows "http_reach (\<lparr>hs_bodies = [body], hs_pool = [0], hs_requests = n\<rparr>, cs @ [(SendGetRequest url, Returned (Inr (0, length body)))])"
proof -
  let ?c = "SendGetRequest url" and ?S = "\<lambda>b p r. \<lparr>hs_bodies = [b], hs_pool = p, hs_requests = r\<rparr>"
  have "http_reach (?S old [0] n, cs @ [(?c, AtAcquire)])" using assms by (rule http_reach.steps) (rule http_step.issues)
  then have "http_reach (?S old [] (n + 1), cs @ [(?c, AtDo 0)])"
    by (rule last_turn [where pick = "Some 0"]) (simp add: AcquireResponse_def)
  then have "http_reach (?S body [] n, cs @ [(?c, AtRelease 0 (Inr (0, length body)))])"
    by (rule last_turn [where outcome = "\<lambda>_. Inr body"]) simp
  then show ?thesis by (rule last_turn) simp
qed

text \<open>The answer of a finished GET changes under its holder: the object with its buffer is already back in the pool, and the
  next call writes its own answer there.\<close>

theorem answer_overwritten:
  "\<exists>S S' cs. http_reach (S, [(SendGetRequest u, Returned (Inr (0, length a)))]) \<and> slice_of S (0, length a) = a \<and>
     http_reach (S', (SendGetRequest u, Returned (Inr (0, length a))) # cs) \<and> slice_of S' (0, length a) = take (length a) b"
proof -
  let ?S = "\<lambda>b. \<lparr>hs_bodies = [b], hs_pool = [0], hs_requests = 0\<rparr>" and ?c = "SendGetRequest u"
  have "http_reach (\<lparr>hs_bodies = [], hs_pool = [], hs_requests = 0\<rparr>, [] @ [(?c, AtAcquire)])"
    by (rule http_reach.steps [OF http_reach.start http_step.issues])
  then have "http_reach (\<lparr>hs_bodies = [[]], hs_pool = [], hs_requests = 1\<rparr>, [] @ [(?c, AtDo 0)])"
    by (rule last_turn [where pick = None]) (simp add: AcquireResponse_def)
  then have "http_reach (\<lparr>hs_bodies = [a], hs_pool = [], hs_requests = 0\<rparr>, [] @ [(?c, AtRelease 0 (Inr (0, length a)))])"
    by (rule last_turn [where outcome = "\<lambda>_. Inr a"]) simp
  then have "http_reach (?S a, [] @ [(?c, Returned (Inr (0, length a)))])" by (rule last_turn) simp
  then have one: "http_reach (?S a, [(?c, Returned (Inr (0, length a)))])" by simp
  have two: "http_reach (?S b, (?c, Returned (Inr (0, length a))) # [(?c, Returned (Inr (0, length b)))])"
    using get_runs [OF one, of b u] by simp
  show ?thesis
    by (rule exI [of _ "?S a"], rule exI [of _ "?S b"], rule exI [of _ "[(?c, Returned (Inr (0, length b)))]"])
      (use one two in \<open>simp add: slice_of_def\<close>)
qed

end
