(* ===== verification/Spec2Isabelle.thy ===== *)
theory Spec2Isabelle
  imports Dial_Loop_Props Node_Setup Dial_Queue Net_Props Applications Filter_Props Rpc_Front_Props Relay_Props Edge_Proof Secrets_Props Sync_Props
    Grpc_Props Endpoint_Props App_Service Keccak_Pool Config_Files Json_Number Discovery_Loop Discovery_Rounds Event_Subs Gossip_Loop Node_Url Fast_Http
begin

text \<open>
  A verification development for edge-matrix-core, the Go library behind the nodes of the EdgeMatrix network
  (directory \<open>src/core\<close>).  A node joins a libp2p network through bootnodes, dials and limits its peers, keeps
  a relay reservation when it has no public address, gossips the status of its application, answers JSON-RPC
  requests and web sockets with what it hears, signs telegrams and responses, and stores its keys with a
  secrets manager.

  \<^bold>\<open>How the code is modelled.\<close>  A struct is a record with the fields of the code; an operation is a function on the
  state; a result with an error is \<open>go_err + 'a\<close>; a run-time panic is the error \<open>GoPanic\<close>, and where nothing
  recovers it a flag of the state says that the process has ended.  64-bit counters are words.  What the code
  leaves to libp2p, gRPC, protobuf, RLP, the curve, Keccak, AES, multiaddresses, JSON parsing or a cloud service is an
  argument of the definitions that use it; the properties name what they rely on (\<open>rlp_laws\<close>, \<open>multiaddr_laws\<close>,
  \<open>curve_laws\<close>, \<open>marshal_laws\<close>, \<open>aes_laws\<close>, \<open>sponge_laws\<close>, \<open>pubsub_laws\<close>, \<open>stream_laws\<close>, \<open>vault_laws\<close>, ...) and each such law has an instance.  The iteration
  order of a Go map, random choices and the clock are arguments too.  Goroutines that interact are one state with
  one operation per step between two points where a goroutine can block, so that a property over all operation
  sequences holds for all interleavings.

  \<^bold>\<open>Networking\<close> (\<open>core/network\<close>).
  \<^item> \<open>Go_Heap\<close>: the functions of \<open>container/heap\<close>; the locale \<open>index_heap\<close> states what a heap whose elements know
    their index guarantees, and is interpreted on the dial queue and on the timeout heap of the node filters.
  \<^item> \<open>Dial_Queue\<close> (\<open>network/dial\<close>): the queue of dial tasks; it keeps its invariant, refines an abstract priority
    queue and drains in order, and \<open>PopTask\<close> can miss a wake-up.
  \<^item> \<open>Connections\<close> (\<open>connections.go\<close>, \<open>bootnodes.go\<close>, \<open>config.go\<close>, \<open>event\<close>): counters with their limits, bootnodes, events.
  \<^item> \<open>Net_Common\<close> (\<open>network/common\<close>): addresses and the regular expressions that classify them.
  \<^item> \<open>Identity\<close>, \<open>Discovery\<close> (\<open>network/identity\<close>, \<open>network/discovery\<close>): the handshake and the exchange of peers over the
    interfaces they are given; the locales \<open>slot_server\<close>, \<open>temp_dials\<close> and \<open>disc_frame\<close> hold their lemmas.
  \<^item> \<open>Net_Server\<close>, \<open>Net_Peers\<close> (\<open>server.go\<close>, \<open>server_identity.go\<close>, \<open>server_discovery.go\<close>): the server, which provides
    those interfaces and interprets the locales; the locale \<open>server_frame\<close> holds what every operation of the server
    leaves alone.
  \<^item> \<open>Net_Props\<close>: counters agree with the peer table in every interleaving, slots are not overcommitted while
    \<open>ConnectedF\<close> callbacks do not overlap, the gate of the handshake, and the answers of \<open>FindPeers\<close>
    with the count that makes it panic.
  \<^item> \<open>Dial_Loop\<close>, \<open>Dial_Loop_Props\<close> (\<open>runDial\<close> with its subscription): no notification of the bus is lost, and every schedule ends the wait
    of the loop after one; a disconnection notifies nobody; the shutdown races with the handler.
  \<^item> \<open>Event_Subs\<close> (\<open>Subscribe\<close>, \<open>SubscribeFn\<close>, \<open>SubscribeCh\<close>): what a reader of peer events gets, and how a subscription ends.
  \<^item> \<open>Discovery_Loop\<close> (\<open>startDiscovery\<close>): the tickers of the discovery service and the rounds they start.
  \<^item> \<open>Discovery_Rounds\<close> (\<open>bootnodePeerDiscovery\<close>): rounds that overlap, each step of one a call on the server; a temporary
    dial belongs to one round, and the search of another that draws it is a busy wait that the first one ends.
  \<^item> \<open>Node_Setup\<close> (\<open>NewServer\<close>, \<open>NewRelayClient\<close>, \<open>NewRelayServer\<close>): keys, addresses and options of the libp2p hosts;
    whatever is made first on a secrets manager, all of them get its key.
  \<^item> \<open>Grpc_Stream\<close>, \<open>Grpc_Props\<close> (\<open>network/grpc\<close>): listeners over streams, and the peer that the handler of a
    unary call is told; streaming calls have no interceptor.
  \<^item> \<open>Gossip_Loop\<close> (\<open>readLoop\<close> of \<open>network/gossip.go\<close>): every message of a topic is handled once, and when the loop ends.

  \<^bold>\<open>Applications\<close> (\<open>core/application\<close>).
  \<^item> \<open>Applications\<close>: application records, event streams, the peer map and the best peer, slot gauge, status messages
    and the gossip handler.  A subscriber's stream is a cell of one event.
  \<^item> \<open>Sync_System\<close>, \<open>Sync_Props\<close> (\<open>network/gossip.go\<close>, \<open>sync_client.go\<close>, \<open>syncer.go\<close>): the running syncer with its
    channels.  The peer map follows the statuses in order; \<open>Close\<close> leaves goroutines behind that end the
    process; connection events stall.
  \<^item> \<open>App_Service\<close> (\<open>sync_service.go\<close>, calls of \<open>sync_client.go\<close>): the remote calls between syncers, of which two never succeed.
  \<^item> \<open>Endpoint\<close>, \<open>Endpoint_Props\<close> (\<open>endpoint.go\<close>, \<open>endpoint_handler.go\<close>, \<open>edge_call.go\<close>, \<open>proof/helper\<close>): the routes of an application
    and the calls to another one; a caller can verify what it reads.
  \<^item> \<open>Edge_Proof\<close> (\<open>application/proof\<close>): signed responses and hash proofs.

  \<^bold>\<open>JSON-RPC\<close> (\<open>core/jsonrpc\<close>, \<open>core/types\<close>).
  \<^item> \<open>Hex_Codec\<close>, \<open>Telegrams\<close> (\<open>helper/hex\<close>, \<open>types\<close>): text and RLP forms with their round trips.
  \<^item> \<open>Node_Filters\<close>, \<open>Filter_Props\<close> (\<open>node_filter_manager.go\<close>, \<open>node_query.go\<close>): filters with timeouts, their worker and its
    races; a refinement of an abstract map of filters, and delivery exactly once, both of a process that no nil query
    has ended.
  \<^item> \<open>Dispatcher\<close>, \<open>Dispatch_Props\<close> (\<open>dispatcher.go\<close>, \<open>jsonrpc.go\<close>, \<open>codec.go\<close>, \<open>errors.go\<close>, \<open>edge_endpoint.go\<close>): requests, batches,
    web sockets, and the requests that end the process.
  \<^item> \<open>Go_Http\<close>, \<open>Rpc_Front\<close>, \<open>Rpc_Front_Props\<close> (\<open>jsonrpc.go\<close>): routing and answers of the HTTP front, and a web socket session
    with a goroutine for each message.

  \<^bold>\<open>Relay\<close> (\<open>core/relay\<close>): \<open>Relay\<close> models the table of relay nodes, the client with its reservation and alive
  goroutines, the server and the alive service.  The list of relay nodes is a slice over a backing array, and
  \<open>addRelaynodes\<close>, which both goroutines call without a lock, takes one access to the shared tables at a time.
  \<open>Relay_Props\<close> shows that a client holds at most one reservation, how two calls of \<open>addRelaynodes\<close> lose a node, when the
  tick panics, and when the client never reserves again.

  \<^bold>\<open>Keys\<close> (\<open>core/crypto\<close>, \<open>core/secrets\<close>, \<open>core/helper\<close>).
  \<^item> \<open>Crypto\<close>, \<open>Crypto_Props\<close>: forks, signature values, compact signatures, stored keys, base64 and CFB.
  \<^item> \<open>Os_Files\<close>, \<open>Os_Props\<close>: the file system, cleaned paths, guarded creation of files and directories, key files.
  \<^item> \<open>Secrets\<close>, \<open>Secrets_Props\<close>: the four secrets managers and their clients.  The locale \<open>secrets_store\<close> is the contract
    of the interface (what is set is read back, other names are left alone), \<open>once_store\<close> adds that a secret is
    not overwritten; both are interpreted on the managers of the program, and the life of the validator and of
    the networking key is proved once inside them.

  \<^item> \<open>Keccak_Pool\<close> (\<open>helper/keccak\<close>): pooled hashers, shared by goroutines, that compute the digest of their own input.
  \<^item> \<open>Config_Files\<close> (\<open>secrets/config.go\<close>, \<open>helper/ipc\<close>): the configuration file of a manager, and the listener of a local socket.
  \<^item> \<open>Json_Number\<close> (\<open>helper/common\<close>): integers that pass through a 64-bit float, with its exact rounding.
  \<^item> \<open>Go_Ip\<close>, \<open>Node_Url\<close> (\<open>helper/enode\<close>): IP addresses and URLs as Go reads and prints them; node URLs are read back, and
    those without a user end in a panic.
  \<^item> \<open>Fast_Http\<close> (\<open>helper/rpc\<close>): the pooled HTTP client of the endpoint, whose answers are buffers that a later call overwrites.

  \<open>EMC_Prelude\<close> holds the shared types, the error results and generic lemmas.

  \<^bold>\<open>Bounds.\<close>  Nothing has fuel: loops that need not end (the bootnode search, the loops of the goroutines) are step
  relations or step functions whose runs are of any length.  The loop over the groups of an IPv6 address makes at most eight turns, two of the sixteen bytes each.  The heap
  and CFB loops, the decoders and the path functions are total.

  \<^bold>\<open>Assumptions on use.\<close>  \<open>ConnectedF\<close> callbacks are steps of their own; the theorem on slots asks that they do not
  overlap, as the one on the two tables of relay nodes asks of \<open>addRelaynodes\<close>; what happens otherwise has its own theorem
  or finding.  Bootnodes are set up before peers arrive, as \<open>Start\<close> does.  The syncer is started once, before it is
  closed, over a server that stays open.

  \<^bold>\<open>Not modelled.\<close>  The code that protoc generates, whose messages are records where a component uses them; mocks and other test
  support; \<open>server_alive.go\<close>, which holds only comments; \<open>Dial\<close> of local sockets and the Windows pipes, which call a library
  and keep no state; \<open>ToFixedFloat\<close>, \<open>MaxSafeJSInt\<close> and the signal channel of \<open>helper/common\<close>, which nothing else uses; logging
  and metrics, which have no effect on the state.
\<close>

end
